(* ===== verification/Emw_Prelude.thy ===== *)
theory Emw_Prelude
  imports Main "HOL-Library.Word" "HOL-Library.Monad_Syntax"
begin

text \<open>
  Shared vocabulary of the development: the machine integer types of the firmware, byte
  buffers with C's \<open>memcpy\<close>, the little-endian readers of \<open>main.c\<close>, and the observation
  traces through which every component reads volatile hardware. A trace lists the values
  that successive volatile reads (status registers, \<open>HAL_GetTick\<close>, the result of a call
  into the ST library) deliver, in program order; an operation that needs one more value
  than the trace holds is still waiting, which is the value None.
\<close>

unbundle bit_operations_syntax

type_synonym u8 = "8 word"
type_synonym u16 = "16 word"
type_synonym u32 = "32 word"
type_synonym trace = "u32 list"

named_theorems emw_defs \<open>definitions of straight-line firmware helpers\<close>
named_theorems emw_len \<open>buffer lengths that operations keep\<close>

text \<open>The GPIO ports of the STM32F042 that the firmware uses.\<close>

datatype gpio_port = GPIOA | GPIOB | GPIOF

section \<open>Volatile reads\<close>

fun rd :: "trace \<Rightarrow> (u32 \<times> trace) option" where
  "rd [] = None"
| "rd (x # t) = Some (x, t)"

lemma rd_SomeD: "rd t = Some (x, t') \<Longrightarrow> t = x # t'"
  by (cases t) auto

lemma rd_length [dest]: "rd t = Some (x, t') \<Longrightarrow> length t = Suc (length t')"
  by (auto dest: rd_SomeD)

text \<open>
  \<open>for (guard = 0; guard < n; ++guard) { if (done(reg)) break; }\<close>: at most \<open>n\<close> reads of the
  register; the result tells whether the loop was left by its \<open>break\<close>.
\<close>

fun guard_wait :: "nat \<Rightarrow> (u32 \<Rightarrow> bool) \<Rightarrow> trace \<Rightarrow> (bool \<times> trace) option" where
  "guard_wait 0 P t = Some (False, t)"
| "guard_wait (Suc n) P t = (case rd t of
     None \<Rightarrow> None
   | Some (x, t) \<Rightarrow> if P x then Some (True, t) else guard_wait n P t)"

lemma guard_wait_total:
  "n \<le> length t \<Longrightarrow> \<exists>ok k. guard_wait n P t = Some (ok, drop k t) \<and> k \<le> n \<and> (\<not> ok \<longrightarrow> k = n)"
proof (induction n P t rule: guard_wait.induct)
  case (2 n P t)
  then obtain x t' where t: "t = x # t'" by (cases t) auto
  show ?case
  proof (cases "P x")
    case True
    then show ?thesis using t by (intro exI [of _ True] exI [of _ 1]) simp
  next
    case False
    have "\<exists>ok k. guard_wait n P t' = Some (ok, drop k t') \<and> k \<le> n \<and> (\<not> ok \<longrightarrow> k = n)"
      by (rule "2.IH" [of "(x, t')" x t']) (use t False "2.prems" in auto)
    then obtain ok k where "guard_wait n P t' = Some (ok, drop k t')" "k \<le> n" "\<not> ok \<longrightarrow> k = n"
      by blast
    then show ?thesis using t False by (intro exI [of _ ok] exI [of _ "Suc k"]) simp
  qed
qed (auto intro: exI [of _ False])

text \<open>
  An operation that ends after at most \<open>n\<close> volatile reads, whatever values they deliver: on every
  trace of that length it has a result and leaves a suffix. The rules compose the bounds along
  the sequencing of operations with one or two results.
\<close>

definition reads2 :: "nat \<Rightarrow> (trace \<Rightarrow> ('a \<times> trace) option) \<Rightarrow> bool" where
  "reads2 n m \<longleftrightarrow> (\<forall>t. n \<le> length t \<longrightarrow> (\<exists>x k. m t = Some (x, drop k t) \<and> k \<le> n))"

definition reads3 :: "nat \<Rightarrow> (trace \<Rightarrow> ('a \<times> 'b \<times> trace) option) \<Rightarrow> bool" where
  "reads3 n m \<longleftrightarrow> (\<forall>t. n \<le> length t \<longrightarrow> (\<exists>x y k. m t = Some (x, y, drop k t) \<and> k \<le> n))"

lemma reads2_mono: "reads2 n m \<Longrightarrow> n \<le> n' \<Longrightarrow> reads2 n' m"
  unfolding reads2_def by (meson le_trans)

lemma reads3_mono: "reads3 n m \<Longrightarrow> n \<le> n' \<Longrightarrow> reads3 n' m"
  unfolding reads3_def by (meson le_trans)

lemma reads2_ret: "reads2 0 (\<lambda>t. Some (x, t))"
  unfolding reads2_def by (auto intro!: exI [of _ 0])

lemma reads3_ret: "reads3 0 (\<lambda>t. Some (x, y, t))"
  unfolding reads3_def by (auto intro!: exI [of _ 0])

lemma reads2_rd: "reads2 1 rd"
  unfolding reads2_def
proof (intro allI impI)
  fix t :: trace
  assume "1 \<le> length t"
  then obtain x u where "t = x # u" by (cases t) auto
  then show "\<exists>x k. rd t = Some (x, drop k t) \<and> k \<le> 1" by (intro exI [of _ x] exI [of _ 1]) simp
qed

lemma reads2_guard: "reads2 n (guard_wait n P)"
  unfolding reads2_def using guard_wait_total by blast

lemma reads2_bind:
  assumes "reads2 n m" "\<And>x. reads2 n' (f x)"
  shows "reads2 (n + n') (\<lambda>t. m t \<bind> (\<lambda>(x, t). f x t))"
  unfolding reads2_def
proof (intro allI impI)
  fix t :: trace
  assume l: "n + n' \<le> length t"
  then have "n \<le> length t" by simp
  then obtain x k where m: "m t = Some (x, drop k t)" "k \<le> n" using assms(1) unfolding reads2_def by blast
  then have "n' \<le> length (drop k t)" using l by simp
  then obtain y k' where "f x (drop k t) = Some (y, drop k' (drop k t))" "k' \<le> n'"
    using assms(2) [of x] unfolding reads2_def by blast
  then show "\<exists>y j. m t \<bind> (\<lambda>(x, t). f x t) = Some (y, drop j t) \<and> j \<le> n + n'"
    using m by (intro exI [of _ y] exI [of _ "k' + k"]) simp
qed

lemma reads23_bind:
  assumes "reads2 n m" "\<And>x. reads3 n' (f x)"
  shows "reads3 (n + n') (\<lambda>t. m t \<bind> (\<lambda>(x, t). f x t))"
  unfolding reads3_def
proof (intro allI impI)
  fix t :: trace
  assume l: "n + n' \<le> length t"
  then have "n \<le> length t" by simp
  then obtain x k where m: "m t = Some (x, drop k t)" "k \<le> n" using assms(1) unfolding reads2_def by blast
  then have "n' \<le> length (drop k t)" using l by simp
  then obtain y z k' where "f x (drop k t) = Some (y, z, drop k' (drop k t))" "k' \<le> n'"
    using assms(2) [of x] unfolding reads3_def by blast
  then show "\<exists>y z j. m t \<bind> (\<lambda>(x, t). f x t) = Some (y, z, drop j t) \<and> j \<le> n + n'"
    using m by (intro exI [of _ y] exI [of _ z] exI [of _ "k' + k"]) simp
qed

lemma reads3_bind:
  assumes "reads3 n m" "\<And>x y. reads3 n' (f x y)"
  shows "reads3 (n + n') (\<lambda>t. m t \<bind> (\<lambda>(x, y, t). f x y t))"
  unfolding reads3_def
proof (intro allI impI)
  fix t :: trace
  assume l: "n + n' \<le> length t"
  then have "n \<le> length t" by simp
  then obtain x y k where m: "m t = Some (x, y, drop k t)" "k \<le> n" using assms(1) unfolding reads3_def by blast
  then have "n' \<le> length (drop k t)" using l by simp
  then obtain v z k' where "f x y (drop k t) = Some (v, z, drop k' (drop k t))" "k' \<le> n'"
    using assms(2) [of x y] unfolding reads3_def by blast
  then show "\<exists>v z j. m t \<bind> (\<lambda>(x, y, t). f x y t) = Some (v, z, drop j t) \<and> j \<le> n + n'"
    using m by (intro exI [of _ v] exI [of _ z] exI [of _ "k' + k"]) simp
qed

lemma reads2_if: "reads2 n m \<Longrightarrow> reads2 n' m' \<Longrightarrow> reads2 (max n n') (\<lambda>t. if c then m t else m' t)"
  by (cases c) (auto intro: reads2_mono)

lemma reads3_if: "reads3 n m \<Longrightarrow> reads3 n' m' \<Longrightarrow> reads3 (max n n') (\<lambda>t. if c then m t else m' t)"
  by (cases c) (auto intro: reads3_mono)

lemmas reads_intros = reads2_rd reads2_guard reads2_ret reads3_ret reads2_if reads3_if
  reads2_bind reads23_bind reads3_bind

text \<open>A busy-wait on a status register bounded by a millisecond deadline: status, then clock.\<close>

fun wait_mask :: "u32 \<Rightarrow> u32 \<Rightarrow> u32 \<Rightarrow> trace \<Rightarrow> (bool \<times> trace) option" where
  "wait_mask m start timeout [] = None"
| "wait_mask m start timeout (isr # t) =
     (if isr AND m \<noteq> 0 then Some (True, t)
      else case t of
             [] \<Rightarrow> None
           | now # t' \<Rightarrow> if timeout < now - start then Some (False, t') else wait_mask m start timeout t')"

section \<open>Byte buffers\<close>

definition zeros :: "nat \<Rightarrow> u8 list" where
  "zeros n = replicate n 0"

lemma length_zeros [simp]: "length (zeros n) = n"
  by (simp add: zeros_def)

lemma nth_zeros [simp]: "i < n \<Longrightarrow> zeros n ! i = 0"
  by (simp add: zeros_def)

lemma zeros_0 [simp]: "zeros 0 = []"
  by (simp add: zeros_def)

text \<open>\<open>memcpy(&dst[off], src, length src)\<close> inside the bounds of \<open>dst\<close>.\<close>

definition blit :: "'a list \<Rightarrow> nat \<Rightarrow> 'a list \<Rightarrow> 'a list" where
  "blit dst off src = take off dst @ src @ drop (off + length src) dst"

lemma length_blit [simp]: "off + length src \<le> length dst \<Longrightarrow> length (blit dst off src) = length dst"
  by (simp add: blit_def)

lemma blit_Nil [simp]: "blit dst off [] = dst"
  by (simp add: blit_def)

lemma nth_blit:
  "i < length dst \<Longrightarrow> off + length src \<le> length dst \<Longrightarrow>
   blit dst off src ! i = (if off \<le> i \<and> i < off + length src then src ! (i - off) else dst ! i)"
  by (auto simp: blit_def nth_append)

lemma drop_blit: "off \<le> length dst \<Longrightarrow> drop off (blit dst off src) = src @ drop (off + length src) dst"
  by (simp add: blit_def)

lemma blit_full: "length src = length dst \<Longrightarrow> blit dst 0 src = src"
  by (simp add: blit_def)

text \<open>
  A loop that stores \<open>n\<close> bytes one by one fills the array: the byte-wise form of \<open>blit\<close>.
\<close>

lemma list_update_is_blit: "i < length xs \<Longrightarrow> xs[i := v] = blit xs i [v]"
  by (simp add: blit_def upd_conv_take_nth_drop)

lemma all_eq_replicate: "(\<forall>x \<in> set xs. x = v) \<longleftrightarrow> xs = replicate (length xs) v"
  by (metis in_set_replicate replicate_length_same)

section \<open>Little-endian readers (\<open>emw_u16_le\<close>, \<open>emw_u32_le\<close>)\<close>

definition emw_u16_le :: "u8 list \<Rightarrow> u16" where
  "emw_u16_le p = ucast (p ! 0) OR push_bit 8 (ucast (p ! 1))"

definition emw_u32_le :: "u8 list \<Rightarrow> u32" where
  "emw_u32_le p = ucast (p ! 0) OR push_bit 8 (ucast (p ! 1))
     OR push_bit 16 (ucast (p ! 2)) OR push_bit 24 (ucast (p ! 3))"

text \<open>The writers the host side uses, and the byte splits of the responses.\<close>

definition u16_bytes :: "u16 \<Rightarrow> u8 list" where
  "u16_bytes w = [ucast (w AND 0xFF), ucast (drop_bit 8 w AND 0xFF)]"

definition u32_bytes :: "u32 \<Rightarrow> u8 list" where
  "u32_bytes w = [ucast (w AND 0xFF), ucast (drop_bit 8 w AND 0xFF),
     ucast (drop_bit 16 w AND 0xFF), ucast (drop_bit 24 w AND 0xFF)]"

lemma length_u16_bytes [simp]: "length (u16_bytes w) = 2"
  by (simp add: u16_bytes_def)

lemma length_u32_bytes [simp]: "length (u32_bytes w) = 4"
  by (simp add: u32_bytes_def)

lemma and_0xFF: "x AND 0xFF = take_bit 8 (x :: 'a::len word)"
  by (simp add: take_bit_eq_mask mask_numeral)

lemma and_0x7F: "x AND 0x7F = take_bit 7 (x :: 'a::len word)"
  by (simp add: take_bit_eq_mask mask_numeral)

lemma byte_positions:
  "(n::nat) < 32 \<Longrightarrow> n < 8 \<or> (8 \<le> n \<and> n < 16) \<or> (16 \<le> n \<and> n < 24) \<or> (24 \<le> n \<and> n < 32)"
  by arith

lemma emw_u16_le_bytes: "emw_u16_le (u16_bytes w @ rest) = w"
  unfolding emw_u16_le_def u16_bytes_def and_0xFF
  by (rule bit_word_eqI) (auto simp: bit_simps)

lemma emw_u32_le_bytes: "emw_u32_le (u32_bytes w @ rest) = w"
proof (rule bit_word_eqI)
  fix n :: nat
  assume "n < LENGTH(32)"
  then have "n < 8 \<or> (8 \<le> n \<and> n < 16) \<or> (16 \<le> n \<and> n < 24) \<or> (24 \<le> n \<and> n < 32)"
    by (intro byte_positions) simp
  then show "bit (emw_u32_le (u32_bytes w @ rest)) n = bit w n"
    unfolding emw_u32_le_def u32_bytes_def and_0xFF
    by (elim disjE) (auto simp: bit_simps numeral_2_eq_2 numeral_3_eq_3)
qed

section \<open>Postconditions of option-valued operations\<close>

text \<open>Partial correctness, with one rule for each construct of the monadic definitions.\<close>

definition post :: "('a \<Rightarrow> bool) \<Rightarrow> 'a option \<Rightarrow> bool" where
  "post Q m \<longleftrightarrow> (\<forall>r. m = Some r \<longrightarrow> Q r)"

lemma postD: "post Q m \<Longrightarrow> m = Some r \<Longrightarrow> Q r"
  by (simp add: post_def)

lemma post_None [simp]: "post Q None"
  by (simp add: post_def)

lemma post_Some [simp]: "post Q (Some r) = Q r"
  by (simp add: post_def)

lemma post_bind: "post (\<lambda>r. post Q (f r)) m \<Longrightarrow> post Q (m \<bind> f)"
  by (cases m) (simp_all add: post_def)

lemma post_mono: "post P m \<Longrightarrow> (\<And>r. P r \<Longrightarrow> Q r) \<Longrightarrow> post Q m"
  by (simp add: post_def)

lemma post_if: "(c \<Longrightarrow> post Q a) \<Longrightarrow> (\<not> c \<Longrightarrow> post Q b) \<Longrightarrow> post Q (if c then a else b)"
  by simp

lemma post_option: "(x = None \<Longrightarrow> post Q a) \<Longrightarrow> (\<And>y. x = Some y \<Longrightarrow> post Q (b y)) \<Longrightarrow> post Q (case x of None \<Rightarrow> a | Some y \<Rightarrow> b y)"
  by (cases x) simp_all

lemma post_rd: "(\<And>x t'. t = x # t' \<Longrightarrow> Q (x, t')) \<Longrightarrow> post Q (rd t)"
  by (cases t) simp_all

lemma post_True: "(\<And>r. Q r) \<Longrightarrow> post Q m"
  by (simp add: post_def)

lemma post_let: "(\<And>x. x = e \<Longrightarrow> post Q (h x)) \<Longrightarrow> post Q (let x = e in h x)"
  by simp

lemma post_prod: "(\<And>x y. p = (x, y) \<Longrightarrow> post Q (h x y)) \<Longrightarrow> post Q (case p of (x, y) \<Rightarrow> h x y)"
  by (cases p) simp

lemma post_any_bind: "(\<And>r. post Q (f r)) \<Longrightarrow> post Q (m \<bind> f)"
  by (cases m) simp_all

lemmas post_rules = post_bind post_if post_option post_rd

section \<open>Answering a command\<close>

text \<open>
  The interface between a command interpreter and its transports: a relation between the state in which
  a command arrives and the states before it is answered, one for the states after, and the sender,
  which promises to lead from the first to the second with each of the three statuses. The opcodes are
  verified against the promise, in \<open>Esp_Answer\<close> and in \<open>Esp8266_Answer\<close>.
\<close>

locale answering =
  fixes pending :: "'s \<Rightarrow> 's \<Rightarrow> bool"
    and answered :: "'s \<Rightarrow> 's \<Rightarrow> bool"
    and send :: "u8 \<Rightarrow> u8 list \<Rightarrow> 's \<Rightarrow> trace \<Rightarrow> ('s \<times> trace) option"
  assumes arrives: "pending e e"
    and sends: "pending e0 e \<Longrightarrow> status \<in> {0x80, 0x81, 0x82} \<Longrightarrow> post (\<lambda>(e', t'). answered e0 e') (send status payload e t)"
begin

abbreviation replies :: "'s \<Rightarrow> ('s \<times> trace) option \<Rightarrow> bool" where
  "replies e0 \<equiv> post (\<lambda>(e', t'). answered e0 e')"

lemma send_ok: "pending e0 e \<Longrightarrow> replies e0 (send 0x80 payload e t)"
  by (rule sends) simp_all

lemma send_err: "pending e0 e \<Longrightarrow> replies e0 (send 0x81 payload e t)"
  by (rule sends) simp_all

lemma send_busy: "pending e0 e \<Longrightarrow> replies e0 (send 0x82 payload e t)"
  by (rule sends) simp_all

lemma send_either: "pending e0 e \<Longrightarrow> replies e0 (if c then send 0x80 payload e t else send 0x81 payload' e t)"
  by (simp add: send_ok send_err)

lemma send_at_once: "replies e (send 0x80 payload e t)" "replies e (send 0x81 payload e t)" "replies e (send 0x82 payload e t)"
  by (rule send_ok send_err send_busy, rule arrives)+

text \<open>A step whose results leave the command pending.\<close>

lemma pending_bind:
  "post (\<lambda>(x, e', t'). pending e0 e') m \<Longrightarrow> (\<And>x e' t'. pending e0 e' \<Longrightarrow> replies e0 (f (x, e', t'))) \<Longrightarrow> replies e0 (m \<bind> f)"
  by (rule post_bind, erule post_mono) auto

text \<open>A step after the answer.\<close>

lemma answered_bind:
  "replies e0 m \<Longrightarrow> (\<And>e' t'. answered e0 e' \<Longrightarrow> replies e0 (f (e', t'))) \<Longrightarrow> replies e0 (m \<bind> f)"
  by (rule post_bind, erule post_mono) auto

end

end
