(* ===== verification/Usb_Desc.thy ===== *)
theory Usb_Desc
  imports Emw_Prelude
begin

text \<open>
  The USB configuration descriptor of the device (\<open>USBD_MIDI_CfgFSDesc\<close> in
  \<open>USB_DEVICE/App/usbd_midi.c\<close>) and the way a host reads it: a chain of descriptors whose
  first byte is the length and whose second byte is the type.
\<close>

definition USBD_MIDI_CfgFSDesc :: "u8 list" where
  "USBD_MIDI_CfgFSDesc =
    [0x09, 0x02, 0x61, 0x00, 0x02, 0x01, 0x00, 0x80, 0x32,
     0x09, 0x04, 0x00, 0x00, 0x00, 0x01, 0x01, 0x00, 0x00,
     0x09, 0x24, 0x01, 0x00, 0x01, 0x09, 0x00, 0x01, 0x01,
     0x09, 0x04, 0x01, 0x00, 0x02, 0x01, 0x03, 0x00, 0x00,
     0x07, 0x24, 0x01, 0x00, 0x01, 0x2F, 0x00,
     0x06, 0x24, 0x02, 0x01, 0x01, 0x00,
     0x06, 0x24, 0x02, 0x02, 0x02, 0x00,
     0x09, 0x24, 0x03, 0x01, 0x03, 0x01, 0x02, 0x01, 0x00,
     0x09, 0x24, 0x03, 0x02, 0x04, 0x01, 0x01, 0x01, 0x00,
     0x07, 0x05, 0x01, 0x02, 64, 0x00, 0x00,
     0x05, 0x25, 0x01, 0x01, 0x01,
     0x07, 0x05, 0x81, 0x02, 64, 0x00, 0x00,
     0x05, 0x25, 0x01, 0x01, 0x03]"

definition USBD_MIDI_GetFSCfgDesc :: "u8 list \<times> u16" where
  "USBD_MIDI_GetFSCfgDesc = (USBD_MIDI_CfgFSDesc, of_nat (length USBD_MIDI_CfgFSDesc))"

text \<open>The host's walk over the chain; a zero or overlong length is a malformed chain.\<close>

function desc_chain :: "u8 list \<Rightarrow> u8 list list option" where
  "desc_chain [] = Some []"
| "desc_chain (x # xs) =
     (let n = unat x in
      if n < 2 \<or> length (x # xs) < n then None
      else case desc_chain (drop n (x # xs)) of
             None \<Rightarrow> None
           | Some ds \<Rightarrow> Some (take n (x # xs) # ds))"
  by pat_completeness auto
termination
  by (relation "measure length") auto

definition desc_type :: "u8 \<Rightarrow> u8 list \<Rightarrow> bool" where
  "desc_type ty d = (d ! 1 = ty)"

definition jack_ids :: "u8 list list \<Rightarrow> u8 list" where
  "jack_ids ds = map (\<lambda>d. d ! 4) (filter (\<lambda>d. desc_type 0x24 d \<and> (d ! 2 = 2 \<or> d ! 2 = 3)) ds)"

definition jack_sources :: "u8 list list \<Rightarrow> u8 list" where
  "jack_sources ds = map (\<lambda>d. d ! 6) (filter (\<lambda>d. desc_type 0x24 d \<and> d ! 2 = 3) ds)"

text \<open>The configuration descriptor is a well-formed chain of 13 descriptors that is as long as its
  \<open>wTotalLength\<close> says, declares two interfaces and has two, gives the streaming interface exactly
  the two endpoints it announces, and its MIDI jacks have distinct ids with every source a declared
  jack.\<close>

theorem cfg_desc_well_formed:
  "snd USBD_MIDI_GetFSCfgDesc = emw_u16_le (drop 2 USBD_MIDI_CfgFSDesc) \<and>
   (case desc_chain (fst USBD_MIDI_GetFSCfgDesc) of
      None \<Rightarrow> False
    | Some ds \<Rightarrow> length ds = 13 \<and>
       unat (USBD_MIDI_CfgFSDesc ! 4) = length (filter (desc_type 4) ds) \<and>
       map (\<lambda>d. (d ! 2, d ! 4)) (filter (desc_type 4) ds) = [(0, 0), (1, 2)] \<and>
       map (\<lambda>d. d ! 2) (filter (desc_type 5) ds) = [0x01, 0x81] \<and>
       distinct (jack_ids ds) \<and> list_all (\<lambda>j. List.member (jack_ids ds) j) (jack_sources ds))"
  by code_simp

text \<open>The class-specific streaming header announces 47 bytes of class-specific descriptors, but the
  header, the four jacks and the endpoint descriptors of the interface are 61 bytes.\<close>

lemma ms_header_total_length:
  "emw_u16_le (drop 41 USBD_MIDI_CfgFSDesc) = 47 \<and> length (drop 36 USBD_MIDI_CfgFSDesc) = 61"
  by code_simp

end
