(* ===== verification/Frame_Codec.thy ===== *)
theory Frame_Codec
  imports Emw_Prelude
begin

text \<open>
  The fixed 7-bit codec of the mini-frame SysEx tunnel
  (\<open>stm/emwaver-firmware/USB_DEVICE/App/usbd_midi_if.c\<close>): a 36-byte frame (command lane and
  stream lane, 18 bytes each) travels as 42 SysEx data bytes, in groups of a prefix byte that
  packs the most significant bits of up to seven bytes, then those bytes with the bit
  cleared. The SysEx message (5 header bytes, the 42 data bytes, one trailer byte) is carried
  by 16 USB-MIDI event packets of four bytes. The two loops are modelled with their positions
  and guards; both are proved equal to a chunk-wise specification, from which totality,
  the round trip and the 7-bit discipline of the wire bytes follow.
\<close>

section \<open>The decoder and the encoder loops\<close>

function decode_group :: "u8 list \<Rightarrow> u8 \<Rightarrow> nat \<Rightarrow> nat \<Rightarrow> u8 list \<Rightarrow> (nat \<times> u8 list) option" where
  "decode_group inp prefix j in_pos out =
     (if j < 7 \<and> length out < 36 then
        (if in_pos \<ge> 42 then None
         else
           let v = (inp ! in_pos) AND 0x7F;
               v' = (if prefix AND push_bit j 1 \<noteq> 0 then v OR 0x80 else v)
           in decode_group inp prefix (Suc j) (Suc in_pos) (out @ [v']))
      else Some (in_pos, out))"
  by pat_completeness auto
termination
  by (relation "measure (\<lambda>(inp, prefix, j, in_pos, out). 7 - j)") auto

declare decode_group.simps [simp del]

lemma decode_group_progress: "decode_group inp prefix j p out = Some (p', out') \<Longrightarrow> p \<le> p'"
proof (induction inp prefix j p out rule: decode_group.induct)
  case (1 inp prefix j p out)
  from "1.prems" "1.IH" show ?case
    by (fastforce simp: decode_group.simps [of inp prefix j p out] Let_def split: if_splits)
qed

function decode_loop :: "u8 list \<Rightarrow> nat \<Rightarrow> u8 list \<Rightarrow> u8 list option" where
  "decode_loop inp in_pos out =
     (if in_pos < 42 \<and> length out < 36 then
        (case decode_group inp (inp ! in_pos) 0 (Suc in_pos) out of
           None \<Rightarrow> None
         | Some (p, o') \<Rightarrow> decode_loop inp p o')
      else if length out = 36 then Some out else None)"
  by pat_completeness auto
termination
  by (relation "measure (\<lambda>(inp, in_pos, out). 42 - in_pos)")
     (auto dest!: decode_group_progress)

declare decode_loop.simps [simp del]

text \<open>\<open>None\<close> is the return value \<open>-1\<close>.\<close>

definition decode_payload_7bit_fixed :: "u8 list \<Rightarrow> u8 list option" where
  "decode_payload_7bit_fixed inp = decode_loop inp 0 []"

function encode_group :: "u8 list \<Rightarrow> nat \<Rightarrow> nat \<Rightarrow> u8 \<Rightarrow> u8 list \<Rightarrow> nat \<times> u8 \<times> u8 list" where
  "encode_group inp j in_pos prefix chunk =
     (if j < 7 \<and> in_pos < 36 then
        let b = inp ! in_pos in
          encode_group inp (Suc j) (Suc in_pos)
            (if b AND 0x80 \<noteq> 0 then prefix OR push_bit j 1 else prefix)
            (chunk @ [b AND 0x7F])
      else (in_pos, prefix, chunk))"
  by pat_completeness auto
termination
  by (relation "measure (\<lambda>(inp, j, in_pos, prefix, chunk). 7 - j)") auto

declare encode_group.simps [simp del]

fun prefix_bits :: "nat \<Rightarrow> u8 list \<Rightarrow> u8" where
  "prefix_bits j [] = 0"
| "prefix_bits j (b # bs) = (if b AND 0x80 \<noteq> 0 then push_bit j 1 else 0) OR prefix_bits (Suc j) bs"

lemma encode_group_closed:
  assumes "length inp = 36"
  shows "encode_group inp j p prefix chunk =
    (let g = take (7 - j) (drop p inp)
     in (p + length g, prefix OR prefix_bits j g, chunk @ map (\<lambda>b. b AND 0x7F) g))"
  using assms
proof (induction inp j p prefix chunk rule: encode_group.induct)
  case (1 inp j p prefix chunk)
  show ?case
  proof (cases "j < 7 \<and> p < 36")
    case True
    with 1 have "drop p inp = inp ! p # drop (Suc p) inp"
      by (simp add: Cons_nth_drop_Suc)
    moreover from True have "7 - j = Suc (7 - Suc j)" by arith
    ultimately have g: "take (7 - j) (drop p inp) = inp ! p # take (7 - Suc j) (drop (Suc p) inp)"
      by (simp only: take_Suc_Cons)
    show ?thesis
      using True 1
      by (subst encode_group.simps) (auto simp: Let_def g or.assoc)
  next
    case False
    with 1 show ?thesis
      by (subst encode_group.simps) auto
  qed
qed

lemma encode_group_progress:
  assumes "encode_group inp 0 p prefix chunk = (p', x, y)" and "p < 36"
  shows "p < p'"
proof -
  have ge: "p \<le> p'" if "encode_group inp j p prefix chunk = (p', x, y)" for inp j p prefix chunk
    using that
  proof (induction inp j p prefix chunk rule: encode_group.induct)
    case (1 inp j p prefix chunk)
    from "1.prems" "1.IH" show ?case
      by (fastforce simp: encode_group.simps [of inp j p prefix chunk] Let_def split: if_splits)
  qed
  from assms have "encode_group inp (Suc 0) (Suc p)
      (if inp ! p AND 0x80 \<noteq> 0 then prefix OR push_bit 0 1 else prefix)
      (chunk @ [inp ! p AND 0x7F]) = (p', x, y)"
    by (subst (asm) encode_group.simps) (simp add: Let_def)
  from ge [OF this] show ?thesis by simp
qed

function encode_loop :: "u8 list \<Rightarrow> nat \<Rightarrow> u8 list \<Rightarrow> u8 list" where
  "encode_loop inp in_pos out =
     (if in_pos < 36 \<and> length out < 42 then
        (case encode_group inp 0 in_pos 0 [] of
           (p, prefix, chunk) \<Rightarrow> encode_loop inp p (out @ prefix # chunk))
      else out)"
  by pat_completeness auto
termination
  by (relation "measure (\<lambda>(inp, in_pos, out). 36 - in_pos)")
     (auto dest!: encode_group_progress [OF sym])

declare encode_loop.simps [simp del]

definition encode_payload_7bit_fixed :: "u8 list \<Rightarrow> u8 list" where
  "encode_payload_7bit_fixed inp = encode_loop inp 0 []"

section \<open>Chunk-wise specification\<close>

fun dec_group :: "u8 \<Rightarrow> nat \<Rightarrow> u8 list \<Rightarrow> u8 list" where
  "dec_group prefix j [] = []"
| "dec_group prefix j (x # xs) =
     (if prefix AND push_bit j 1 \<noteq> 0 then (x AND 0x7F) OR 0x80 else x AND 0x7F)
       # dec_group prefix (Suc j) xs"

function enc7 :: "u8 list \<Rightarrow> u8 list" where
  "enc7 xs = (if xs = [] then []
     else prefix_bits 0 (take 7 xs) # map (\<lambda>b. b AND 0x7F) (take 7 xs) @ enc7 (drop 7 xs))"
  by pat_completeness auto
termination
  by (relation "measure length") auto

function dec7 :: "u8 list \<Rightarrow> u8 list" where
  "dec7 [] = []"
| "dec7 (p # xs) = dec_group p 0 (take 7 xs) @ dec7 (drop 7 xs)"
  by pat_completeness auto
termination
  by (relation "measure length") auto

declare enc7.simps [simp del]

lemma enc7_Nil [simp]: "enc7 [] = []"
  by (simp add: enc7.simps)

lemma length_dec_group [simp]: "length (dec_group p j xs) = length xs"
  by (induction xs arbitrary: j) auto

lemma length_enc7: "length (enc7 xs) = length xs + (length xs + 6) div 7"
proof (induction xs rule: enc7.induct)
  case (1 xs)
  show ?case
  proof (cases "length xs \<le> 7")
    case True
    show ?thesis
    proof (cases "xs = []")
      case False
      then have "0 < length xs" by simp
      with True have "(length xs + 6) div 7 = 1" by arith
      with True False show ?thesis by (simp add: enc7.simps [of xs])
    qed simp
  next
    case False
    then have "xs \<noteq> []" by auto
    with 1 False show ?thesis
      by (simp add: enc7.simps [of xs])
  qed
qed

lemma length_dec7: "length (dec7 xs) = length xs - (length xs + 7) div 8"
proof (induction xs rule: dec7.induct)
  case (2 p xs)
  show ?case
  proof (cases "length xs \<le> 7")
    case True
    then show ?thesis by simp
  next
    case False
    with 2 show ?thesis by simp
  qed
qed simp

subsection \<open>The encoder loop computes the specification\<close>

lemma encode_loop_spec:
  assumes "length inp = 36" and "length out + length (enc7 (drop p inp)) \<le> 42"
  shows "encode_loop inp p out = out @ enc7 (drop p inp)"
  using assms
proof (induction inp p out rule: encode_loop.induct)
  case (1 inp p out)
  show ?case
  proof (cases "p < 36")
    case False
    with 1 show ?thesis by (subst encode_loop.simps) simp
  next
    case True
    with 1 have ne: "drop p inp \<noteq> []" by simp
    let ?g = "take 7 (drop p inp)"
    have e: "enc7 (drop p inp) =
        prefix_bits 0 ?g # map (\<lambda>b. b AND 0x7F) ?g @ enc7 (drop (p + length ?g) inp)"
    proof (cases "p + 7 \<le> 36")
      case True
      with 1 ne show ?thesis by (simp add: enc7.simps [of "drop p inp"] add.commute)
    next
      case False
      with 1 ne show ?thesis by (simp add: enc7.simps [of "drop p inp"])
    qed
    have g: "encode_group inp 0 p 0 [] =
        (p + length ?g, prefix_bits 0 ?g, map (\<lambda>b. b AND 0x7F) ?g)"
      using 1 by (simp add: encode_group_closed Let_def)
    from e 1 have "length out < 42" by simp
    then show ?thesis
      using True 1 g e by (subst encode_loop.simps) simp
  qed
qed

lemma encode_payload_spec: "length inp = 36 \<Longrightarrow> encode_payload_7bit_fixed inp = enc7 inp"
  by (simp add: encode_payload_7bit_fixed_def encode_loop_spec length_enc7)

lemma length_encode_payload [simp]:
  "length inp = 36 \<Longrightarrow> length (encode_payload_7bit_fixed inp) = 42"
  by (simp add: encode_payload_spec length_enc7)

subsection \<open>The decoder loop computes the specification\<close>

lemma decode_group_closed:
  assumes "p + min (7 - j) (36 - length out) \<le> 42" and "length inp = 42"
  shows "decode_group inp prefix j p out =
    (let g = take (min (7 - j) (36 - length out)) (drop p inp)
     in Some (p + length g, out @ dec_group prefix j g))"
  using assms
proof (induction inp prefix j p out rule: decode_group.induct)
  case (1 inp prefix j p out)
  show ?case
  proof (cases "j < 7 \<and> length out < 36")
    case False
    then show ?thesis by (subst decode_group.simps) auto
  next
    case True
    then have m: "min (7 - j) (36 - length out) = Suc (min (7 - Suc j) (36 - Suc (length out)))"
      by arith
    with "1.prems" have p: "p < 42" by simp
    with "1.prems" have "drop p inp = inp ! p # drop (Suc p) inp"
      by (simp add: Cons_nth_drop_Suc)
    then have g: "take (min (7 - j) (36 - length out)) (drop p inp) =
        inp ! p # take (min (7 - Suc j) (36 - Suc (length out))) (drop (Suc p) inp)"
      by (simp only: m take_Suc_Cons)
    let ?v = "if prefix AND push_bit j 1 \<noteq> 0 then inp ! p AND 0x7F OR 0x80 else inp ! p AND 0x7F"
    have step: "decode_group inp prefix j p out =
        decode_group inp prefix (Suc j) (Suc p) (out @ [?v])"
      using True p by (subst decode_group.simps) (simp add: Let_def)
    have "Suc p + min (7 - Suc j) (36 - length (out @ [?v])) \<le> 42"
      using "1.prems"(1) m by simp
    then have "decode_group inp prefix (Suc j) (Suc p) (out @ [?v]) =
        (let g = take (min (7 - Suc j) (36 - length (out @ [?v]))) (drop (Suc p) inp)
         in Some (Suc p + length g, (out @ [?v]) @ dec_group prefix (Suc j) g))"
      using True p "1.prems"(2) by (intro "1.IH") auto
    then show ?thesis
      unfolding step g by (simp add: Let_def)
  qed
qed

lemma decode_loop_spec:
  assumes "length inp = 42" and "length out + length (dec7 (drop p inp)) = 36"
  shows "decode_loop inp p out = Some (out @ dec7 (drop p inp))"
  using assms
proof (induction inp p out rule: decode_loop.induct)
  case (1 inp p out)
  show ?case
  proof (cases "p < 42 \<and> length out < 36")
    case False
    from "1.prems" have "length out \<le> 36" by simp
    moreover from False "1.prems" have "36 \<le> length out" by (cases "p < 42"; simp)
    ultimately have out: "length out = 36" by simp
    with "1.prems" have "dec7 (drop p inp) = []" by simp
    with out show ?thesis by (subst decode_loop.simps) simp
  next
    case True
    with "1.prems" have d: "drop p inp = inp ! p # drop (Suc p) inp"
      by (simp add: Cons_nth_drop_Suc)
    let ?n = "min 7 (36 - length out)"
    let ?g = "take ?n (drop (Suc p) inp)"
    from "1.prems" d have len: "length out + (min (length inp - Suc p) 7 + length (dec7 (drop (7 + Suc p) inp))) = 36"
      by (simp add: add.commute)
    have n: "?n = min 7 (length (drop (Suc p) inp))"
      using len "1.prems" by (cases "length inp - Suc p \<le> 7") (auto simp: min_def)
    then have fit: "Suc p + ?n \<le> 42"
      using "1.prems" True by (auto simp: min_def)
    have tk: "?g = take 7 (drop (Suc p) inp)"
      unfolding n by (simp add: min_def)
    have grp: "decode_group inp (inp ! p) 0 (Suc p) out =
        Some (Suc p + length ?g, out @ dec_group (inp ! p) 0 ?g)"
      using decode_group_closed [of "Suc p" 0 out inp] fit "1.prems" by (simp add: Let_def)
    have dr: "drop (Suc p + length ?g) inp = drop 7 (drop (Suc p) inp)"
      unfolding tk by (cases "length (drop (Suc p) inp) \<le> 7") (auto simp: add.commute)
    have dec: "dec7 (drop p inp) = dec_group (inp ! p) 0 ?g @ dec7 (drop (Suc p + length ?g) inp)"
      unfolding dr by (simp only: d dec7.simps tk)
    have "decode_loop inp p out = decode_loop inp (Suc p + length ?g) (out @ dec_group (inp ! p) 0 ?g)"
      using True grp by (subst decode_loop.simps) simp
    also have "\<dots> = Some ((out @ dec_group (inp ! p) 0 ?g) @ dec7 (drop (Suc p + length ?g) inp))"
    proof (rule "1.IH" [OF True grp refl "1.prems"(1)])
      have "length (dec7 (drop p inp)) = length ?g + length (dec7 (drop (Suc p + length ?g) inp))"
        by (simp only: dec length_append length_dec_group)
      with "1.prems"(2)
      show "length (out @ dec_group (inp ! p) 0 ?g) + length (dec7 (drop (Suc p + length ?g) inp)) = 36"
        by (simp only: length_append length_dec_group)
    qed
    finally show ?thesis by (simp add: dec)
  qed
qed

lemma decode_payload_spec: "length inp = 42 \<Longrightarrow> decode_payload_7bit_fixed inp = Some (dec7 inp)"
  by (simp add: decode_payload_7bit_fixed_def decode_loop_spec length_dec7)

section \<open>Round trip and wire discipline\<close>

lemma and_exp_bit [simp]: "(p AND push_bit j 1 \<noteq> 0) = bit (p :: 'a::len word) j"
  by (simp add: and_exp_eq_0_iff_not_bit)

lemma num_0x80: "(0x80 :: u8) = 2 ^ 7"
  by simp

lemma and_0x80: "(b AND 0x80 \<noteq> 0) = bit (b :: u8) 7"
  unfolding num_0x80 by (simp only: and_exp_eq_0_iff_not_bit not_not)

lemma low_or_high: "(if bit b 7 then take_bit 7 b OR 0x80 else take_bit 7 b) = (b :: u8)"
  unfolding num_0x80
proof (rule bit_word_eqI)
  fix n :: nat
  assume n: "n < LENGTH(8)"
  then have "n = 7 \<or> n < 7" by auto
  moreover have "possible_bit TYPE(8 word) 7" by simp
  ultimately show "bit (if bit b 7 then take_bit 7 b OR 2 ^ 7 else take_bit 7 b) n = bit b n"
    by (elim disjE) (auto simp only: bit_simps split: if_splits)
qed

lemma bit_prefix_bits:
  "j + length g \<le> 8 \<Longrightarrow> bit (prefix_bits j g) n \<longleftrightarrow> j \<le> n \<and> n < j + length g \<and> bit (g ! (n - j)) 7"
proof (induction g arbitrary: j)
  case (Cons b bs)
  then show ?case
    by (cases "n = j") (auto simp: and_0x80 bit_simps nth_Cons' Suc_diff_le)
qed simp

lemma dec_group_enc_group:
  assumes "j + length g \<le> 8"
    and "\<And>i. i < length g \<Longrightarrow> bit p (j + i) = bit (g ! i) 7"
  shows "dec_group p j (map (\<lambda>b. b AND 0x7F) g) = g"
  using assms
proof (induction g arbitrary: j)
  case (Cons b bs)
  from Cons.prems(2) [of 0] have "bit p j = bit b 7" by simp
  moreover have "dec_group p (Suc j) (map (\<lambda>b. b AND 0x7F) bs) = bs"
    using Cons.prems(1) Cons.prems(2) [of "Suc i" for i] by (intro Cons.IH) auto
  ultimately show ?case
    using low_or_high [of b] by (simp add: and_0x7F and_exp_eq_0_iff_not_bit split: if_splits)
qed simp

lemma dec7_enc7: "dec7 (enc7 xs) = xs"
proof (induction xs rule: enc7.induct)
  case (1 xs)
  show ?case
  proof (cases "xs = []")
    case False
    let ?g = "take 7 xs"
    have g: "dec_group (prefix_bits 0 ?g) 0 (map (\<lambda>b. b AND 0x7F) ?g) = ?g"
      by (rule dec_group_enc_group) (auto simp: bit_prefix_bits)
    show ?thesis
    proof (cases "length xs \<le> 7")
      case True
      with False g show ?thesis by (simp add: enc7.simps [of xs])
    next
      case False
      then have "dec7 (enc7 xs) = ?g @ dec7 (enc7 (drop 7 xs))"
        using \<open>xs \<noteq> []\<close> g by (simp add: enc7.simps [of xs])
      with 1 \<open>xs \<noteq> []\<close> show ?thesis by simp
    qed
  qed simp
qed

lemma prefix_bits_less: "length g \<le> 7 \<Longrightarrow> \<not> bit (prefix_bits 0 g) 7"
  by (simp add: bit_prefix_bits)

lemma less_0x80_iff: "b < 0x80 \<longleftrightarrow> \<not> bit (b :: u8) 7"
proof -
  have "b < 0x80 \<longleftrightarrow> unat b < 2 ^ 7"
    by (simp add: word_less_nat_alt)
  also have "\<dots> \<longleftrightarrow> take_bit 7 b = b"
    using take_bit_nat_eq_self_iff [of 7 "unat b"]
    by (simp add: word_unat_eq_iff unsigned_take_bit_eq)
  also have "\<dots> \<longleftrightarrow> \<not> bit b 7"
    using low_or_high [of b] by (auto simp: bit_take_bit_iff dest: arg_cong [where f = "\<lambda>x. bit x 7"])
  finally show ?thesis .
qed

lemma enc7_7bit: "b \<in> set (enc7 xs) \<Longrightarrow> b < 0x80"
proof (induction xs rule: enc7.induct)
  case (1 xs)
  from "1.prems" "1.IH" show ?case
    by (auto simp: enc7.simps [of xs] less_0x80_iff and_0x7F bit_simps prefix_bits_less
      split: if_splits)
qed

section \<open>SysEx message and USB-MIDI event packets\<close>

definition sysex_message :: "u8 list \<Rightarrow> u8 list" where
  "sysex_message encoded = [0xF0, 0x7D, 0x45, 0x4D, 0x57] @ encoded @ [0xF7]"

definition sysex_valid :: "u8 list \<Rightarrow> bool" where
  "sysex_valid s \<longleftrightarrow> \<not> (s ! 0 \<noteq> 0xF0 \<or> s ! 1 \<noteq> 0x7D \<or> s ! 2 \<noteq> 0x45 \<or> s ! 3 \<noteq> 0x4D \<or> s ! 4 \<noteq> 0x57
     \<or> s ! 47 \<noteq> 0xF7)"

definition usb_pack :: "u8 list \<Rightarrow> u8 list" where
  "usb_pack s = concat (map (\<lambda>i. [(if i = 15 then 0x7 else 0x4) AND 0x0F, s ! (i * 3), s ! (i * 3 + 1), s ! (i * 3 + 2)]) [0..<16])"

definition usb_unpack :: "u8 list \<Rightarrow> u8 list" where
  "usb_unpack buf = concat (map (\<lambda>i. [buf ! (i * 4 + 1), buf ! (i * 4 + 2), buf ! (i * 4 + 3)]) [0..<16])"

text \<open>The 64 bytes both send routines put into \<open>midi_tx_buf\<close> for a 36-byte frame.\<close>

definition usb_frame :: "u8 list \<Rightarrow> u8 list" where
  "usb_frame packet = usb_pack (sysex_message (encode_payload_7bit_fixed packet))"

lemma upt_16: "[0..<16] = [0, 1, 2, 3, 4, 5, 6, 7, 8, 9, 10, 11, 12, 13, 14, 15]"
  by (simp add: upt_rec)

lemma length_usb_pack [simp]: "length (usb_pack s) = 64"
  by (simp add: usb_pack_def upt_16)

lemma length_usb_unpack [simp]: "length (usb_unpack b) = 48"
  by (simp add: usb_unpack_def upt_16)

lemma length_usb_frame [simp]: "length (usb_frame p) = 64"
  by (simp add: usb_frame_def)

lemma length_sysex_message [simp]: "length (sysex_message e) = length e + 6"
  by (simp add: sysex_message_def)

lemma upt_48: "[0..<48] = 0 # 1 # [2..<48]"
  by (simp add: upt_rec)

lemma usb_unpack_pack:
  assumes "length s = 48"
  shows "usb_unpack (usb_pack s) = s"
proof -
  have "usb_unpack (usb_pack s) = map ((!) s) [0..<48]"
    by (simp add: usb_unpack_def usb_pack_def upt_16 upt_48) (simp add: numeral_2_eq_2)
  also have "\<dots> = s"
    using map_nth [of s] assms by simp
  finally show ?thesis .
qed

lemma sysex_valid_message: "length e = 42 \<Longrightarrow> sysex_valid (sysex_message e)"
  by (simp add: sysex_valid_def sysex_message_def nth_append nth_Cons')

lemma sysex_message_payload: "length e = 42 \<Longrightarrow> take 42 (drop 5 (sysex_message e)) = e"
  by (simp add: sysex_message_def)

lemma usb_frame_message: "length p = 36 \<Longrightarrow>
    usb_unpack (usb_frame p) = sysex_message (encode_payload_7bit_fixed p)"
  by (simp add: usb_frame_def usb_unpack_pack)

lemma usb_frame_valid: "length p = 36 \<Longrightarrow> sysex_valid (usb_unpack (usb_frame p))"
  by (simp add: usb_frame_message sysex_valid_message)

lemma usb_frame_decodes: "length p = 36 \<Longrightarrow>
    decode_payload_7bit_fixed (take 42 (drop 5 (usb_unpack (usb_frame p)))) = Some p"
  by (simp add: usb_frame_message sysex_message_payload decode_payload_spec encode_payload_spec
      dec7_enc7 length_enc7)

section \<open>Properties\<close>

text \<open>C3: Any 36-byte frame survives the tunnel: the 64 USB bytes that the send routines build
  from it form a transfer that passes the header and trailer checks of the receive callback,
  and the decoder returns exactly the frame.\<close>

theorem usb_frame_roundtrip:
  assumes "length frame = 36"
  shows "length (usb_frame frame) = 64 \<and> sysex_valid (usb_unpack (usb_frame frame)) \<and>
    decode_payload_7bit_fixed (take 42 (drop 5 (usb_unpack (usb_frame frame)))) = Some frame"
  using assms by (simp add: usb_frame_valid usb_frame_decodes)

theorem usb_frame_roundtrip_witness:
  "decode_payload_7bit_fixed (take 42 (drop 5 (usb_unpack (usb_frame (replicate 36 0x9C))))) =
     Some (replicate 36 0x9C)"
  using usb_frame_roundtrip [of "replicate 36 0x9C"] by simp

text \<open>The encoder never emits a byte with the top bit set (it could be taken for a MIDI
  status byte inside the SysEx message), always emits 42 bytes, and loses nothing: two frames
  with the same encoding are equal.\<close>

theorem encode_payload_wire_discipline:
  assumes "length frame = 36" and "length frame' = 36"
  shows "length (encode_payload_7bit_fixed frame) = 42 \<and>
    list_all (\<lambda>b. b < 0x80) (encode_payload_7bit_fixed frame) \<and>
    (encode_payload_7bit_fixed frame = encode_payload_7bit_fixed frame' \<longrightarrow> frame = frame')"
  using assms by (auto simp: encode_payload_spec length_enc7 list_all_iff dest: enc7_7bit)
    (metis dec7_enc7)

theorem encode_payload_wire_discipline_witness:
  "list_all (\<lambda>b. b < 0x80) (encode_payload_7bit_fixed (replicate 36 0xFF))"
  using encode_payload_wire_discipline [of "replicate 36 0xFF" "replicate 36 0xFF"] by simp

text \<open>The decoder is total on the 42 data bytes of a message: whatever bytes a host sends
  there, both error returns are unreachable and exactly 36 bytes come out.\<close>

theorem decode_payload_total:
  assumes "length inp = 42"
  shows "\<exists>out. decode_payload_7bit_fixed inp = Some out \<and> length out = 36"
  using assms by (simp add: decode_payload_spec length_dec7)

theorem decode_payload_total_witness:
  "\<exists>out. decode_payload_7bit_fixed (replicate 42 0xF7) = Some out \<and> length out = 36"
  using decode_payload_total [of "replicate 42 0xF7"] by simp

end
