(* ===== verification/Rx_Ring.thy ===== *)
theory Rx_Ring
  imports Emw_Prelude
begin

text \<open>
  The 512-byte receive ring of the retransmit path
  (\<open>stm/emwaver-firmware/USB_DEVICE/App/usbd_midi_if.c\<close>: \<open>rxBuffer\<close>, \<open>rxBufferHeadPos\<close>,
  \<open>rxBufferTailPos\<close>). The USB callback appends a whole 18-byte stream lane or drops it; the
  playback interrupt reads bytes at the tail. The locale \<open>byte_fifo\<close> is the contract of such
  a ring (an all-or-nothing bounded queue) and holds what a client may conclude from it; the
  STM32 ring is an interpretation.
\<close>

section \<open>The contract of a bounded byte queue\<close>

datatype fifo_ev = Push "u8 list" | Pop nat

text \<open>
  A run of pushes and pops, with the bytes accepted and the bytes delivered so far.
\<close>

fun fifo_run :: "(u8 list \<Rightarrow> 's \<Rightarrow> bool \<times> 's) \<Rightarrow> (nat \<Rightarrow> 's \<Rightarrow> u8 list option \<times> 's) \<Rightarrow>
    fifo_ev list \<Rightarrow> 's \<Rightarrow> u8 list \<Rightarrow> u8 list \<Rightarrow> 's \<times> u8 list \<times> u8 list" where
  "fifo_run push pop [] s acc out = (s, acc, out)"
| "fifo_run push pop (Push xs # evs) s acc out =
     (case push xs s of (ok, s') \<Rightarrow> fifo_run push pop evs s' (if ok then acc @ xs else acc) out)"
| "fifo_run push pop (Pop n # evs) s acc out =
     (case pop n s of
        (Some ys, s') \<Rightarrow> fifo_run push pop evs s' acc (out @ ys)
      | (None, s') \<Rightarrow> fifo_run push pop evs s' acc out)"

locale byte_fifo =
  fixes inv :: "'s \<Rightarrow> bool"
    and contents :: "'s \<Rightarrow> u8 list"
    and push :: "u8 list \<Rightarrow> 's \<Rightarrow> bool \<times> 's"
    and pop :: "nat \<Rightarrow> 's \<Rightarrow> u8 list option \<times> 's"
    and cap :: nat
    and okpush :: "u8 list \<Rightarrow> bool"
    and okpop :: "nat \<Rightarrow> bool"
  assumes inv_push: "inv s \<Longrightarrow> okpush xs \<Longrightarrow> inv (snd (push xs s))"
    and push_fits: "inv s \<Longrightarrow> okpush xs \<Longrightarrow> length (contents s) + length xs < cap \<Longrightarrow>
      fst (push xs s) \<and> contents (snd (push xs s)) = contents s @ xs"
    and push_full: "inv s \<Longrightarrow> okpush xs \<Longrightarrow> cap \<le> length (contents s) + length xs \<Longrightarrow>
      \<not> fst (push xs s) \<and> contents (snd (push xs s)) = contents s"
    and inv_pop: "inv s \<Longrightarrow> okpop n \<Longrightarrow> inv (snd (pop n s))"
    and pop_some: "inv s \<Longrightarrow> okpop n \<Longrightarrow> n \<le> length (contents s) \<Longrightarrow>
      fst (pop n s) = Some (take n (contents s)) \<and> contents (snd (pop n s)) = drop n (contents s)"
    and pop_none: "inv s \<Longrightarrow> okpop n \<Longrightarrow> length (contents s) < n \<Longrightarrow>
      fst (pop n s) = None \<and> contents (snd (pop n s)) = contents s"
begin

lemma run_conserves:
  assumes "inv s" and "acc = out @ contents s"
    and "\<forall>xs. Push xs \<in> set evs \<longrightarrow> okpush xs" and "\<forall>n. Pop n \<in> set evs \<longrightarrow> okpop n"
    and "fifo_run push pop evs s acc out = (s', acc', out')"
  shows "inv s' \<and> acc' = out' @ contents s'"
  using assms
proof (induction evs arbitrary: s acc out)
  case Nil
  then show ?case by auto
next
  case (Cons ev evs)
  show ?case
  proof (cases ev)
    case (Push xs)
    obtain ok s1 where p: "push xs s = (ok, s1)" by (cases "push xs s")
    have run: "fifo_run push pop evs s1 (if ok then acc @ xs else acc) out = (s', acc', out')"
      using Cons.prems(5) unfolding Push by (simp only: fifo_run.simps p prod.case)
    have ok: "okpush xs" using Cons.prems(3) Push by simp
    have i: "inv s1" using inv_push [OF Cons.prems(1) ok] p by simp
    have a: "(if ok then acc @ xs else acc) = out @ contents s1"
      using push_fits [OF Cons.prems(1) ok] push_full [OF Cons.prems(1) ok] p Cons.prems(2)
      by (cases "length (contents s) + length xs < cap") auto
    show ?thesis
      by (rule Cons.IH [OF i a _ _ run]) (use Cons.prems(3,4) in auto)
  next
    case (Pop n)
    obtain r s1 where p: "pop n s = (r, s1)" by (cases "pop n s")
    have ok: "okpop n" using Cons.prems(4) Pop by simp
    have i: "inv s1" using inv_pop [OF Cons.prems(1) ok] p by simp
    show ?thesis
    proof (cases "n \<le> length (contents s)")
      case True
      then have r: "r = Some (take n (contents s))" "contents s1 = drop n (contents s)"
        using pop_some [OF Cons.prems(1) ok] p by auto
      with Cons.prems Pop p have run: "fifo_run push pop evs s1 acc (out @ take n (contents s)) = (s', acc', out')"
        by simp
      show ?thesis
        by (rule Cons.IH [OF i _ _ _ run]) (use Cons.prems r in auto)
    next
      case False
      then have r: "r = None" "contents s1 = contents s"
        using pop_none [OF Cons.prems(1) ok] p by auto
      with Cons.prems Pop p have run: "fifo_run push pop evs s1 acc out = (s', acc', out')"
        by simp
      show ?thesis
        by (rule Cons.IH [OF i _ _ _ run]) (use Cons.prems r in auto)
    qed
  qed
qed

end

section \<open>The STM32 ring\<close>

record rx_ring =
  rxBuffer :: "u8 list"
  rxBufferHeadPos :: u16
  rxBufferTailPos :: u16

definition MIDI_GetRxBufferBytesAvailable_FS :: "rx_ring \<Rightarrow> u16" where
  "MIDI_GetRxBufferBytesAvailable_FS r = (rxBufferHeadPos r - rxBufferTailPos r) mod 512"

fun rx_store :: "u8 list \<Rightarrow> u16 \<Rightarrow> u16 \<Rightarrow> u8 list \<Rightarrow> u8 list \<times> u16 option" where
  "rx_store buf tail temp [] = (buf, Some temp)"
| "rx_store buf tail temp (b # bs) =
     (let buf' = buf[unat temp := b]; temp' = (temp + 1) mod 512
      in if temp' = tail then (buf', None) else rx_store buf' tail temp' bs)"

text \<open>
  The append of \<open>MIDI_Receive_FS\<close>: the head is committed only when every byte of the lane was
  stored; otherwise the bytes already written stay in the array, past the head.
\<close>

definition rx_append_lane :: "u8 list \<Rightarrow> rx_ring \<Rightarrow> bool \<times> rx_ring" where
  "rx_append_lane lane r =
     (case rx_store (rxBuffer r) (rxBufferTailPos r) (rxBufferHeadPos r) lane of
        (buf, None) \<Rightarrow> (False, r\<lparr>rxBuffer := buf\<rparr>)
      | (buf, Some head) \<Rightarrow> (True, r\<lparr>rxBuffer := buf, rxBufferHeadPos := head\<rparr>))"

fun rx_take :: "u8 list \<Rightarrow> u16 \<Rightarrow> nat \<Rightarrow> u8 list \<times> u16" where
  "rx_take buf tail 0 = ([], tail)"
| "rx_take buf tail (Suc n) =
     (case rx_take buf ((tail + 1) mod 512) n of (bs, t) \<Rightarrow> (buf ! unat tail # bs, t))"

text \<open>\<open>Some\<close> is \<open>EMW_USB_RX_BUFFER_OK\<close> with the bytes, \<open>None\<close> is \<open>EMW_USB_RX_BUFFER_NO_DATA\<close>.\<close>

definition MIDI_ReadRxBuffer_FS :: "u16 \<Rightarrow> rx_ring \<Rightarrow> u8 list option \<times> rx_ring" where
  "MIDI_ReadRxBuffer_FS Len r =
     (if MIDI_GetRxBufferBytesAvailable_FS r < Len then (None, r)
      else case rx_take (rxBuffer r) (rxBufferTailPos r) (unat Len) of
             (bs, t) \<Rightarrow> (Some bs, r\<lparr>rxBufferTailPos := t\<rparr>))"

definition MIDI_FlushRxBuffer_FS :: "rx_ring \<Rightarrow> rx_ring" where
  "MIDI_FlushRxBuffer_FS r = r\<lparr>rxBuffer := zeros 512, rxBufferHeadPos := 0, rxBufferTailPos := 0\<rparr>"

definition MIDI_InitRxBuffer_FS :: "rx_ring \<Rightarrow> rx_ring" where
  "MIDI_InitRxBuffer_FS r = r\<lparr>rxBuffer := zeros 512, rxBufferHeadPos := 0, rxBufferTailPos := 0\<rparr>"

definition MIDI_FreeRxBuffer_FS :: "rx_ring \<Rightarrow> rx_ring" where
  "MIDI_FreeRxBuffer_FS r = r\<lparr>rxBufferHeadPos := 0, rxBufferTailPos := 0\<rparr>"

section \<open>Well-formedness and the abstract queue\<close>

definition rx_wf :: "rx_ring \<Rightarrow> bool" where
  "rx_wf r \<longleftrightarrow> length (rxBuffer r) = 512 \<and> rxBufferHeadPos r < 512 \<and> rxBufferTailPos r < 512"

definition rx_slot :: "u16 \<Rightarrow> nat \<Rightarrow> nat" where
  "rx_slot tail k = (unat tail + k) mod 512"

definition rx_contents :: "rx_ring \<Rightarrow> u8 list" where
  "rx_contents r = map (\<lambda>k. rxBuffer r ! rx_slot (rxBufferTailPos r) k)
     [0..<unat (MIDI_GetRxBufferBytesAvailable_FS r)]"

lemma unat_word_512 [simp]: "unat (x mod 512 :: u16) = unat x mod 512"
  by (simp add: unat_mod)

lemma unat_Suc_mod512: "x < 512 \<Longrightarrow> unat ((x + 1) mod 512 :: u16) = Suc (unat x) mod 512"
proof -
  assume "x < (512 :: u16)"
  then have "unat x < 512" by (simp add: word_less_nat_alt)
  then have "unat (x + 1) = Suc (unat x)" by (simp add: unat_word_ariths)
  then show ?thesis by simp
qed

lemma mod512_less [simp]: "x mod 512 < (512 :: u16)"
  by (simp add: word_less_nat_alt)

lemma mod512_small: "a < 1024 \<Longrightarrow> a mod 512 = (if a < 512 then a else a - (512 :: nat))"
  by (simp add: le_mod_geq)

lemma mod512_large: "t \<le> 511 \<Longrightarrow> (a + 65536 - t) mod 512 = (a + 512 - t) mod (512 :: nat)"
proof -
  assume "t \<le> 511"
  then have "a + 65536 - t = (a + 512 - t) + 127 * 512" by simp
  then show ?thesis by (simp only: mod_mult_self1)
qed

lemma unat_diff_mod512:
  assumes "h < 512" "t < 512"
  shows "unat ((h - t) mod 512 :: u16) = (unat h + 512 - unat t) mod 512"
proof -
  have "unat (h - t) = (if unat t \<le> unat h then unat h - unat t else unat h + 65536 - unat t)"
    by (simp add: unat_sub_if' )
  moreover from assms have "unat h < 512" "unat t < 512"
    by (simp_all add: word_less_nat_alt)
  ultimately show ?thesis
    unfolding unat_word_512 by (cases "unat t \<le> unat h") (simp_all add: mod512_large mod512_small)
qed

text \<open>Used bytes between a tail and a (temporary) head.\<close>

definition rx_used :: "u16 \<Rightarrow> u16 \<Rightarrow> nat" where
  "rx_used tail temp = (unat temp + 512 - unat tail) mod 512"

lemma rx_used_less [simp]: "rx_used tail temp < 512"
  by (simp add: rx_used_def)

lemma available_used: "rx_wf r \<Longrightarrow>
    unat (MIDI_GetRxBufferBytesAvailable_FS r) = rx_used (rxBufferTailPos r) (rxBufferHeadPos r)"
  by (simp only: MIDI_GetRxBufferBytesAvailable_FS_def rx_used_def rx_wf_def unat_diff_mod512)

lemma rx_slot_used: "temp < 512 \<Longrightarrow> tail < 512 \<Longrightarrow> rx_slot tail (rx_used tail temp) = unat temp"
proof -
  assume "temp < 512" "tail < 512"
  then have "unat temp < 512" "unat tail < 512" by (simp_all add: word_less_nat_alt)
  then show ?thesis by (simp add: rx_slot_def rx_used_def mod512_small)
qed

lemma rx_slot_inj:
  assumes "k < 512" "m < 512" "tail < 512"
  shows "rx_slot tail k = rx_slot tail m \<longleftrightarrow> k = m"
proof -
  from assms have "unat tail < 512" by (simp add: word_less_nat_alt)
  with assms show ?thesis by (auto simp: rx_slot_def mod512_small split: if_splits)
qed

lemma rx_used_Suc:
  assumes "temp < 512" "tail < 512"
  shows "rx_used tail ((temp + 1) mod 512) = Suc (rx_used tail temp) mod 512"
    and "(temp + 1) mod 512 = tail \<longleftrightarrow> rx_used tail temp = 511"
proof -
  from assms have b: "unat temp < 512" "unat tail < 512" by (simp_all add: word_less_nat_alt)
  have u: "unat ((temp + 1) mod 512) = Suc (unat temp) mod 512"
    using assms by (intro unat_Suc_mod512)
  show "rx_used tail ((temp + 1) mod 512) = Suc (rx_used tail temp) mod 512"
    unfolding rx_used_def u using b by (auto simp: mod512_small)
  have "(temp + 1) mod 512 = tail \<longleftrightarrow> Suc (unat temp) mod 512 = unat tail"
    by (metis u word_unat_eq_iff)
  also have "\<dots> \<longleftrightarrow> rx_used tail temp = 511"
    unfolding rx_used_def using b by (auto simp: mod512_small)
  finally show "(temp + 1) mod 512 = tail \<longleftrightarrow> rx_used tail temp = 511" .
qed

section \<open>The ring refines the bounded queue\<close>

text \<open>Storing a lane writes exactly the free slots after the head, in order.\<close>

lemma rx_store_spec:
  assumes "length buf = 512" "temp < 512" "tail < 512"
  shows "length (fst (rx_store buf tail temp bs)) = 512 \<and>
    (\<forall>k < rx_used tail temp. fst (rx_store buf tail temp bs) ! rx_slot tail k = buf ! rx_slot tail k) \<and>
    (if rx_used tail temp + length bs < 512
     then \<exists>h. snd (rx_store buf tail temp bs) = Some h \<and> h < 512 \<and>
            rx_used tail h = rx_used tail temp + length bs \<and>
            (\<forall>i < length bs. fst (rx_store buf tail temp bs) ! rx_slot tail (rx_used tail temp + i) = bs ! i)
     else snd (rx_store buf tail temp bs) = None)"
  using assms
proof (induction buf tail temp bs rule: rx_store.induct)
  case (1 buf tail temp)
  then show ?case by simp
next
  case (2 buf tail temp b bs)
  let ?u = "rx_used tail temp"
  let ?buf' = "buf[unat temp := b]" and ?temp' = "(temp + 1) mod 512"
  have lt: "unat temp < 512" using "2.prems" by (simp add: word_less_nat_alt)
  have old: "?buf' ! rx_slot tail k = buf ! rx_slot tail k" if "k < ?u" for k
    using that "2.prems" lt rx_slot_inj [of k ?u tail] rx_slot_used [of temp tail] by simp
  have new: "?buf' ! rx_slot tail ?u = b"
    using "2.prems" lt rx_slot_used [of temp tail] by simp
  show ?case
  proof (cases "?temp' = tail")
    case True
    then have "?u = 511" using rx_used_Suc(2) "2.prems" by blast
    then show ?thesis using True old "2.prems" by simp
  next
    case False
    then have "?u \<noteq> 511" using rx_used_Suc(2) "2.prems" by blast
    then have u': "rx_used tail ?temp' = Suc ?u"
      using rx_used_Suc(1) [of temp tail] "2.prems" rx_used_less [of tail temp]
      by (simp add: mod512_small)
    have run: "rx_store buf tail temp (b # bs) = rx_store ?buf' tail ?temp' bs"
      using False by simp
    have L: "length ?buf' = 512" using "2.prems"(1) by simp
    have IH: "length (fst (rx_store ?buf' tail ?temp' bs)) = 512 \<and>
      (\<forall>k < Suc ?u. fst (rx_store ?buf' tail ?temp' bs) ! rx_slot tail k = ?buf' ! rx_slot tail k) \<and>
      (if Suc ?u + length bs < 512
       then \<exists>h. snd (rx_store ?buf' tail ?temp' bs) = Some h \<and> h < 512 \<and>
              rx_used tail h = Suc ?u + length bs \<and>
              (\<forall>i < length bs. fst (rx_store ?buf' tail ?temp' bs) ! rx_slot tail (Suc ?u + i) = bs ! i)
       else snd (rx_store ?buf' tail ?temp' bs) = None)"
      by (rule "2.IH" [OF refl refl False L mod512_less "2.prems"(3), unfolded u'])
    let ?R = "rx_store ?buf' tail ?temp' bs"
    have keep: "\<forall>k < ?u. fst ?R ! rx_slot tail k = buf ! rx_slot tail k"
      using IH old by simp
    have fresh: "fst ?R ! rx_slot tail (?u + i) = (b # bs) ! i"
      if "\<forall>i < length bs. fst ?R ! rx_slot tail (Suc ?u + i) = bs ! i" "i < length (b # bs)" for i
      using that IH new by (cases i) auto
    show ?thesis
      unfolding run using IH keep fresh by (cases "Suc ?u + length bs < 512") auto
  qed
qed

lemma rx_contents_length: "rx_wf r \<Longrightarrow> length (rx_contents r) = rx_used (rxBufferTailPos r) (rxBufferHeadPos r)"
  by (simp add: rx_contents_def available_used)

lemma rx_append_fits:
  assumes "rx_wf r" "length (rx_contents r) + length lane < 512"
  shows "fst (rx_append_lane lane r) \<and> rx_wf (snd (rx_append_lane lane r)) \<and>
    rx_contents (snd (rx_append_lane lane r)) = rx_contents r @ lane"
proof -
  let ?t = "rxBufferTailPos r" and ?h = "rxBufferHeadPos r"
  obtain buf res where run: "rx_store (rxBuffer r) ?t ?h lane = (buf, res)"
    by (cases "rx_store (rxBuffer r) ?t ?h lane")
  have u: "rx_used ?t ?h + length lane < 512"
    using assms by (simp add: rx_contents_length)
  from rx_store_spec [of "rxBuffer r" ?h ?t lane] assms(1) u run
  obtain h where h: "res = Some h" "h < 512" "rx_used ?t h = rx_used ?t ?h + length lane"
      and len: "length buf = 512"
      and old: "\<And>k. k < rx_used ?t ?h \<Longrightarrow> buf ! rx_slot ?t k = rxBuffer r ! rx_slot ?t k"
      and new: "\<And>i. i < length lane \<Longrightarrow> buf ! rx_slot ?t (rx_used ?t ?h + i) = lane ! i"
    by (auto simp: rx_wf_def)
  let ?r' = "r\<lparr>rxBuffer := buf, rxBufferHeadPos := h\<rparr>"
  have eq: "rx_append_lane lane r = (True, ?r')"
    using run h by (simp add: rx_append_lane_def)
  have wf: "rx_wf ?r'" using assms(1) h len by (simp add: rx_wf_def)
  have "rx_contents ?r' = rx_contents r @ lane"
  proof (rule nth_equalityI)
    show "length (rx_contents ?r') = length (rx_contents r @ lane)"
      using rx_contents_length [OF wf] rx_contents_length [OF assms(1)] h by simp
    fix k
    assume "k < length (rx_contents ?r')"
    then have k: "k < rx_used ?t ?h + length lane"
      using rx_contents_length [OF wf] h by simp
    have nth: "rx_contents ?r' ! k = buf ! rx_slot ?t k"
      using k h available_used [OF wf] by (simp add: rx_contents_def)
    show "rx_contents ?r' ! k = (rx_contents r @ lane) ! k"
    proof (cases "k < rx_used ?t ?h")
      case True
      then show ?thesis
        using nth old rx_contents_length [OF assms(1)] available_used [OF assms(1)]
        by (simp add: nth_append rx_contents_def)
    next
      case False
      with k have "k - rx_used ?t ?h < length lane" by simp
      from new [OF this] False show ?thesis
        using nth rx_contents_length [OF assms(1)] by (simp add: nth_append)
    qed
  qed
  with eq wf show ?thesis by simp
qed

lemma rx_append_full:
  assumes "rx_wf r" "512 \<le> length (rx_contents r) + length lane"
  shows "\<not> fst (rx_append_lane lane r) \<and> rx_wf (snd (rx_append_lane lane r)) \<and>
    rx_contents (snd (rx_append_lane lane r)) = rx_contents r"
proof -
  let ?t = "rxBufferTailPos r" and ?h = "rxBufferHeadPos r"
  obtain buf res where run: "rx_store (rxBuffer r) ?t ?h lane = (buf, res)"
    by (cases "rx_store (rxBuffer r) ?t ?h lane")
  have u: "\<not> rx_used ?t ?h + length lane < 512"
    using assms by (simp add: rx_contents_length)
  from rx_store_spec [of "rxBuffer r" ?h ?t lane] assms(1) u run
  have res: "res = None" and len: "length buf = 512"
      and old: "\<And>k. k < rx_used ?t ?h \<Longrightarrow> buf ! rx_slot ?t k = rxBuffer r ! rx_slot ?t k"
    by (auto simp: rx_wf_def)
  have eq: "rx_append_lane lane r = (False, r\<lparr>rxBuffer := buf\<rparr>)"
    using run res by (simp add: rx_append_lane_def)
  have wf: "rx_wf (r\<lparr>rxBuffer := buf\<rparr>)" using assms(1) len by (simp add: rx_wf_def)
  have "rx_contents (r\<lparr>rxBuffer := buf\<rparr>) = rx_contents r"
    using available_used [OF wf] available_used [OF assms(1)] old by (simp add: rx_contents_def)
  with eq wf show ?thesis by simp
qed

lemma rx_slot_shift: "tail < 512 \<Longrightarrow> rx_slot ((tail + 1) mod 512) k = rx_slot tail (Suc k)"
  using unat_Suc_mod512 [of tail] by (simp add: rx_slot_def mod_add_left_eq del: unat_word_512)

lemma rx_take_spec:
  "tail < 512 \<Longrightarrow> rx_take buf tail n =
     (map (\<lambda>k. buf ! rx_slot tail k) [0..<n], if n = 0 then tail else of_nat (rx_slot tail n))"
proof (induction n arbitrary: tail)
  case 0
  then show ?case by simp
next
  case (Suc n)
  have s: "rx_slot tail 0 = unat tail"
    using Suc.prems by (simp add: rx_slot_def word_less_nat_alt)
  have t: "(tail + 1) mod 512 = of_nat (rx_slot tail (Suc 0))"
    using unat_Suc_mod512 [OF Suc.prems] by (intro word_unat_eq_iff [THEN iffD2])
      (simp add: rx_slot_def unsigned_of_nat take_bit_nat_eq_self del: unat_word_512)
  have IH: "rx_take buf ((tail + 1) mod 512) n =
      (map (\<lambda>k. buf ! rx_slot tail (Suc k)) [0..<n],
       if n = 0 then (tail + 1) mod 512 else of_nat (rx_slot tail (Suc n)))"
    using Suc.IH [OF mod512_less, of "tail + 1"] by (simp only: rx_slot_shift [OF Suc.prems])
  have u: "map (\<lambda>k. buf ! rx_slot tail k) [0..<Suc n] =
      buf ! unat tail # map (\<lambda>k. buf ! rx_slot tail (Suc k)) [0..<n]"
    by (simp only: map_upt_Suc s)
  show ?case
    unfolding rx_take.simps IH u by (simp add: t)
qed

lemma rx_slot_less [simp]: "rx_slot tail k < 512"
  by (simp add: rx_slot_def)

lemma rx_take_tail:
  "tail < 512 \<Longrightarrow> snd (rx_take buf tail n) < 512 \<and> unat (snd (rx_take buf tail n)) = rx_slot tail n"
  by (auto simp: rx_take_spec word_less_nat_alt unsigned_of_nat take_bit_nat_eq_self rx_slot_def
      intro: less_le_trans [of _ 512])

lemma rx_read_none:
  assumes "rx_wf r" "length (rx_contents r) < unat Len"
  shows "MIDI_ReadRxBuffer_FS Len r = (None, r)"
  using assms available_used [OF assms(1)]
  by (simp add: MIDI_ReadRxBuffer_FS_def word_less_nat_alt rx_contents_length)

lemma rx_used_after_take:
  assumes "tail < 512" "head < 512" "n \<le> rx_used tail head" "t < 512" "unat t = rx_slot tail n"
  shows "rx_used t head = rx_used tail head - n"
proof -
  from assms have "unat tail < 512" "unat head < 512" by (simp_all add: word_less_nat_alt)
  with assms(3,5) show ?thesis
    unfolding rx_used_def rx_slot_def by (auto simp: mod512_small split: if_splits)
qed

lemma rx_read_some:
  assumes "rx_wf r" "unat Len \<le> length (rx_contents r)"
  shows "fst (MIDI_ReadRxBuffer_FS Len r) = Some (take (unat Len) (rx_contents r)) \<and>
    rx_wf (snd (MIDI_ReadRxBuffer_FS Len r)) \<and>
    rx_contents (snd (MIDI_ReadRxBuffer_FS Len r)) = drop (unat Len) (rx_contents r)"
proof -
  let ?n = "unat Len" and ?t = "rxBufferTailPos r" and ?h = "rxBufferHeadPos r"
  obtain bs t where run: "rx_take (rxBuffer r) ?t ?n = (bs, t)"
    by (cases "rx_take (rxBuffer r) ?t ?n")
  have b: "?t < 512" "?h < 512" using assms(1) by (simp_all add: rx_wf_def)
  have t: "t < 512" "unat t = rx_slot ?t ?n"
    using rx_take_tail [OF b(1), of "rxBuffer r" ?n] run by simp_all
  have n: "?n \<le> rx_used ?t ?h" using assms by (simp add: rx_contents_length)
  let ?r' = "r\<lparr>rxBufferTailPos := t\<rparr>"
  have eq: "MIDI_ReadRxBuffer_FS Len r = (Some bs, ?r')"
    using n run available_used [OF assms(1)]
    by (simp add: MIDI_ReadRxBuffer_FS_def word_less_nat_alt)
  have wf: "rx_wf ?r'" using assms(1) t by (simp add: rx_wf_def)
  have bs: "bs = take ?n (rx_contents r)"
    using run n rx_take_spec [OF b(1), of "rxBuffer r" ?n] available_used [OF assms(1)]
    by (simp add: rx_contents_def take_map)
  have u: "rx_used t ?h = rx_used ?t ?h - ?n"
    by (rule rx_used_after_take [OF b n t])
  have "rx_contents ?r' = drop ?n (rx_contents r)"
  proof (rule nth_equalityI)
    show "length (rx_contents ?r') = length (drop ?n (rx_contents r))"
      using rx_contents_length [OF wf] rx_contents_length [OF assms(1)] u by simp
    fix k
    assume "k < length (rx_contents ?r')"
    then have k: "k < rx_used ?t ?h - ?n" using rx_contents_length [OF wf] u by simp
    have "rx_slot t k = rx_slot ?t (?n + k)"
      using t by (simp add: rx_slot_def mod_add_left_eq add.assoc)
    then show "rx_contents ?r' ! k = drop ?n (rx_contents r) ! k"
      using k u available_used [OF wf] available_used [OF assms(1)] rx_contents_length [OF assms(1)]
      by (simp add: rx_contents_def)
  qed
  with eq bs wf show ?thesis by simp
qed

interpretation stm_ring: byte_fifo rx_wf rx_contents rx_append_lane
    "\<lambda>n. MIDI_ReadRxBuffer_FS (of_nat n)" 512 "\<lambda>_. True" "\<lambda>n. n < 65536"
proof (unfold_locales, goal_cases)
  case (1 s xs)
  then show ?case
    using rx_append_fits [of s xs] rx_append_full [of s xs]
    by (cases "length (rx_contents s) + length xs < 512") auto
next
  case (4 s n)
  then have "unat (of_nat n :: u16) = n" by (simp add: unsigned_of_nat take_bit_nat_eq_self)
  with 4 show ?case
    using rx_read_some [of s "of_nat n"] rx_read_none [of s "of_nat n"]
    by (cases "n \<le> length (rx_contents s)") auto
next
  case (5 s n)
  then have "unat (of_nat n :: u16) = n" by (simp add: unsigned_of_nat take_bit_nat_eq_self)
  with 5 show ?case using rx_read_some [of s "of_nat n"] by simp
next
  case (6 s n)
  then have "unat (of_nat n :: u16) = n" by (simp add: unsigned_of_nat take_bit_nat_eq_self)
  with 6 show ?case using rx_read_none [of s "of_nat n"] by simp
qed (use rx_append_fits rx_append_full in auto)

lemma rx_reset_wf [simp]: "rx_wf (MIDI_InitRxBuffer_FS r)" "rx_wf (MIDI_FlushRxBuffer_FS r)"
  "rx_wf r \<Longrightarrow> rx_wf (MIDI_FreeRxBuffer_FS r)"
  by (simp_all add: rx_wf_def MIDI_InitRxBuffer_FS_def MIDI_FlushRxBuffer_FS_def MIDI_FreeRxBuffer_FS_def)

lemma rx_reset_contents [simp]: "rx_contents (MIDI_InitRxBuffer_FS r) = []"
  "rx_contents (MIDI_FlushRxBuffer_FS r) = []" "rx_contents (MIDI_FreeRxBuffer_FS r) = []"
  by (simp_all add: rx_contents_def MIDI_GetRxBufferBytesAvailable_FS_def
      MIDI_InitRxBuffer_FS_def MIDI_FlushRxBuffer_FS_def MIDI_FreeRxBuffer_FS_def)

section \<open>Properties\<close>

text \<open>Appending a stream lane is all or nothing: with room for it (one slot of the 512 always
  stays free) the lane is queued after the old bytes, without room the queue is unchanged
  although bytes were written into the array past the head.\<close>

theorem rx_append_lane_all_or_nothing:
  assumes "rx_wf r" and "length lane = 18"
  shows "rx_wf (snd (rx_append_lane lane r)) \<and>
    (if unat (MIDI_GetRxBufferBytesAvailable_FS r) \<le> 493
     then fst (rx_append_lane lane r) \<and> rx_contents (snd (rx_append_lane lane r)) = rx_contents r @ lane
     else \<not> fst (rx_append_lane lane r) \<and> rx_contents (snd (rx_append_lane lane r)) = rx_contents r)"
  using assms rx_append_fits [of r lane] rx_append_full [of r lane]
  by (simp add: rx_contents_length available_used)

theorem rx_append_lane_all_or_nothing_witness:
  "fst (rx_append_lane (replicate 18 7) \<lparr>rxBuffer = zeros 512, rxBufferHeadPos = 500, rxBufferTailPos = 40\<rparr>) \<and>
   \<not> fst (rx_append_lane (replicate 18 7) \<lparr>rxBuffer = zeros 512, rxBufferHeadPos = 30, rxBufferTailPos = 40\<rparr>)"
  using rx_append_lane_all_or_nothing [of "\<lparr>rxBuffer = zeros 512, rxBufferHeadPos = 500, rxBufferTailPos = 40\<rparr>" "replicate 18 7"]
    rx_append_lane_all_or_nothing [of "\<lparr>rxBuffer = zeros 512, rxBufferHeadPos = 30, rxBufferTailPos = 40\<rparr>" "replicate 18 7"]
  by (simp add: rx_wf_def MIDI_GetRxBufferBytesAvailable_FS_def)

text \<open>C5: However the USB callback and the playback reader interleave, the ring is a FIFO: the bytes
  delivered so far, followed by the bytes still queued, are exactly the bytes of the accepted
  lanes in the order of their arrival; nothing is lost, duplicated or reordered.\<close>

theorem rx_ring_fifo:
  assumes "fifo_run rx_append_lane (\<lambda>n. MIDI_ReadRxBuffer_FS (of_nat n)) evs (MIDI_InitRxBuffer_FS r) [] []
      = (r', accepted, delivered)"
    and "\<forall>n. Pop n \<in> set evs \<longrightarrow> n < 65536"
  shows "rx_wf r' \<and> accepted = delivered @ rx_contents r'"
  by (rule stm_ring.run_conserves [OF _ _ _ _ assms(1)]) (use assms(2) in auto)

theorem rx_ring_fifo_witness:
  "\<exists>r' acc del. fifo_run rx_append_lane (\<lambda>n. MIDI_ReadRxBuffer_FS (of_nat n))
      [Push [1, 2], Pop 1, Push [3], Pop 4, Pop 2]
      (MIDI_InitRxBuffer_FS \<lparr>rxBuffer = [], rxBufferHeadPos = 9, rxBufferTailPos = 4\<rparr>) [] [] = (r', acc, del) \<and>
    acc = del @ rx_contents r'"
proof -
  obtain r' acc del where run: "fifo_run rx_append_lane (\<lambda>n. MIDI_ReadRxBuffer_FS (of_nat n))
      [Push [1, 2], Pop 1, Push [3], Pop 4, Pop 2]
      (MIDI_InitRxBuffer_FS \<lparr>rxBuffer = [], rxBufferHeadPos = 9, rxBufferTailPos = 4\<rparr>) [] [] = (r', acc, del)"
    by (metis prod_cases3)
  from rx_ring_fifo [OF this] show ?thesis using run by auto
qed

end
