(* ===== verification/Usb_Midi.thy ===== *)
theory Usb_Midi
  imports Frame_Codec Rx_Ring
begin

text \<open>
  The USB-MIDI device class (\<open>USB_DEVICE/App/usbd_midi.c\<close>) and the EMWaver interface on top of
  it (\<open>USB_DEVICE/App/usbd_midi_if.c\<close>), with the status mapping of \<open>USB_DEVICE/Target/usbd_conf.c\<close>.
  The record \<open>usb\<close> holds the class data, the two 64-byte transfer buffers, the receive ring, the
  single command packet handed to the main loop and the response lane that waits to be
  piggybacked. The ST controller driver (\<open>HAL_PCD_EP_Transmit\<close>, \<open>HAL_PCD_EP_Receive\<close>) is below
  the model: its result is the next value of the trace, and the ghost field \<open>wire\<close> logs every
  64-byte buffer it accepted. Every poll of the busy flag first reads one trace value that
  says whether the transfer-complete interrupt fired before it. The ghost field \<open>null_deref\<close>
  records a write through a class data pointer that is NULL, \<open>class_lost\<close> that the class data have been
  released by a bus reset or a deconfiguration.
\<close>

section \<open>State\<close>

datatype buf_ref = MidiRxBuf | MidiTxBuf

record USBD_MIDI_ClassData =
  RxBuffer :: "buf_ref option"
  TxBuffer :: "buf_ref option"
  RxLength :: u32
  TxLength :: u32
  TxState :: u32

datatype EMW_Buffer_Type = EMW_BUFFER_PACKET | EMW_BUFFER_CIRCULAR | EMW_BUFFER_DOUBLE

record usb =
  pClassData :: "USBD_MIDI_ClassData option"
  pUserData :: bool
  usbd_midi_data_in_count :: u32
  midi_rx_buf :: "u8 list"
  midi_tx_buf :: "u8 list"
  ring :: rx_ring
  emw_buf_type :: EMW_Buffer_Type
  midi_packet :: "u8 list"
  midi_packet_ready :: bool
  pending_cmd_lane :: "u8 list"
  pending_cmd_ready :: bool
  pending_bs_status :: u16
  pending_bs_ready :: bool
  usb_tx_ok :: u32
  usb_tx_busy :: u32
  usb_tx_timeout :: u32
  usb_tx_fail :: u32
  usb_rx_in :: u32
  wire :: "u8 list list"
  rx_armed :: nat
  null_deref :: bool
  class_lost :: bool

definition USBD_OK :: u8 where "USBD_OK = 0"
definition USBD_BUSY :: u8 where "USBD_BUSY = 1"
definition USBD_FAIL :: u8 where "USBD_FAIL = 2"

lemmas usbd_status_defs [emw_defs] = USBD_OK_def USBD_BUSY_def USBD_FAIL_def

definition USBD_Get_USB_Status :: "u32 \<Rightarrow> u8" where
  "USBD_Get_USB_Status hal_status =
     (if hal_status = 0 then USBD_OK
      else if hal_status = 1 then USBD_FAIL
      else if hal_status = 2 then USBD_BUSY
      else if hal_status = 3 then USBD_FAIL
      else USBD_FAIL)"

section \<open>The device class (usbd_midi.c)\<close>

definition buf_bytes :: "buf_ref option \<Rightarrow> usb \<Rightarrow> u8 list" where
  "buf_bytes p u = (case p of Some MidiTxBuf \<Rightarrow> midi_tx_buf u | Some MidiRxBuf \<Rightarrow> midi_rx_buf u | None \<Rightarrow> [])"

definition with_class :: "(USBD_MIDI_ClassData \<Rightarrow> USBD_MIDI_ClassData) \<Rightarrow> usb \<Rightarrow> usb" where
  "with_class f u = (case pClassData u of
       None \<Rightarrow> u\<lparr>null_deref := True\<rparr>
     | Some h \<Rightarrow> u\<lparr>pClassData := Some (f h)\<rparr>)"

definition USBD_LL_Transmit :: "buf_ref option \<Rightarrow> u16 \<Rightarrow> usb \<Rightarrow> trace \<Rightarrow> (u8 \<times> usb \<times> trace) option" where
  "USBD_LL_Transmit pbuf sz u t = do {
     (hal_status, t) \<leftarrow> rd t;
     Some (USBD_Get_USB_Status hal_status,
       if hal_status = 0 then u\<lparr>wire := wire u @ [take (unat sz) (buf_bytes pbuf u)]\<rparr> else u, t) }"

text \<open>Every caller discards the status of a re-armed reception; the ghost counts the calls.\<close>

definition USBD_LL_PrepareReceive :: "usb \<Rightarrow> usb" where
  "USBD_LL_PrepareReceive u = u\<lparr>rx_armed := Suc (rx_armed u)\<rparr>"

definition USBD_MIDI_SetTxBuffer :: "buf_ref \<Rightarrow> u16 \<Rightarrow> usb \<Rightarrow> usb" where
  "USBD_MIDI_SetTxBuffer pbuff len = with_class (\<lambda>h. h\<lparr>TxBuffer := Some pbuff, TxLength := ucast len\<rparr>)"

definition USBD_MIDI_SetRxBuffer :: "buf_ref \<Rightarrow> usb \<Rightarrow> usb" where
  "USBD_MIDI_SetRxBuffer pbuff = with_class (\<lambda>h. h\<lparr>RxBuffer := Some pbuff\<rparr>)"

definition USBD_MIDI_IsTxBusy :: "usb \<Rightarrow> bool" where
  "USBD_MIDI_IsTxBusy u = (case pClassData u of None \<Rightarrow> False | Some h \<Rightarrow> TxState h \<noteq> 0)"

definition USBD_MIDI_TransmitPacket :: "usb \<Rightarrow> trace \<Rightarrow> (u8 \<times> usb \<times> trace) option" where
  "USBD_MIDI_TransmitPacket u t =
     (case pClassData u of
        None \<Rightarrow> Some (USBD_FAIL, u\<lparr>null_deref := True\<rparr>, t)
      | Some h \<Rightarrow>
          if TxState h \<noteq> 0 then Some (USBD_BUSY, u, t)
          else let h' = h\<lparr>TxState := 1\<rparr>
               in USBD_LL_Transmit (TxBuffer h') (ucast (TxLength h')) (u\<lparr>pClassData := Some h'\<rparr>) t)"

definition USBD_MIDI_ReceivePacket :: "usb \<Rightarrow> usb" where
  "USBD_MIDI_ReceivePacket u =
     (case pClassData u of
        None \<Rightarrow> u\<lparr>null_deref := True\<rparr>
      | Some h \<Rightarrow> if RxBuffer h = None then u else USBD_LL_PrepareReceive u)"

definition MIDI_Init_FS :: "usb \<Rightarrow> usb" where
  "MIDI_Init_FS u = USBD_MIDI_SetRxBuffer MidiRxBuf (USBD_MIDI_SetTxBuffer MidiTxBuf 0 u)"

definition MIDI_DeInit_FS :: "usb \<Rightarrow> usb" where
  "MIDI_DeInit_FS u = u"

text \<open>\<open>USBD_static_malloc\<close> returns the address of a static array, never NULL.\<close>

definition USBD_MIDI_Init :: "usb \<Rightarrow> usb" where
  "USBD_MIDI_Init u =
     (let h = \<lparr>RxBuffer = None, TxBuffer = None, RxLength = 0, TxLength = 0, TxState = 0\<rparr>;
          u = MIDI_Init_FS (u\<lparr>pClassData := Some h\<rparr>)
      in case pClassData u of
           Some h \<Rightarrow> if RxBuffer h \<noteq> None then USBD_LL_PrepareReceive u else u
         | None \<Rightarrow> u)"

definition USBD_MIDI_DeInit :: "usb \<Rightarrow> usb" where
  "USBD_MIDI_DeInit u =
     (if pClassData u \<noteq> None then (MIDI_DeInit_FS u)\<lparr>pClassData := None, class_lost := True\<rparr> else u)"

text \<open>Class requests are accepted and ignored; standard requests fall through to the same status.\<close>

definition USBD_MIDI_Setup :: "u8 \<Rightarrow> usb \<Rightarrow> u8 \<times> usb" where
  "USBD_MIDI_Setup bmRequest u =
     (if bmRequest AND 0x60 = 0x20 then (USBD_OK, u)
      else if bmRequest AND 0x60 = 0x00 then (USBD_OK, u)
      else (USBD_OK, u))"

definition USBD_MIDI_DataIn :: "usb \<Rightarrow> usb" where
  "USBD_MIDI_DataIn u =
     (with_class (\<lambda>h. h\<lparr>TxState := 0\<rparr>) u)\<lparr>usbd_midi_data_in_count := usbd_midi_data_in_count u + 1\<rparr>"

definition USBD_MIDI_GetDataInCount :: "usb \<Rightarrow> u32" where
  "USBD_MIDI_GetDataInCount u = usbd_midi_data_in_count u"

definition USBD_MIDI_RegisterInterface :: "bool \<Rightarrow> usb \<Rightarrow> u8 \<times> usb" where
  "USBD_MIDI_RegisterInterface fops u =
     (if \<not> fops then (USBD_FAIL, u) else (USBD_OK, u\<lparr>pUserData := fops\<rparr>))"

text \<open>
  One volatile read of the busy flag: the trace value is nonzero when the transfer-complete
  interrupt ran just before it (the USB core dispatches it only to a configured class).
\<close>

definition tx_poll :: "u32 \<Rightarrow> usb \<Rightarrow> usb" where
  "tx_poll d u = (if d \<noteq> 0 \<and> pClassData u \<noteq> None then USBD_MIDI_DataIn u else u)"

section \<open>Sending a response frame (usbd_midi_if.c)\<close>

text \<open>
  The two wait loops of \<open>MIDI_SendResponsePkt_FS\<close>; only the first one counts busy polls.
  \<open>False\<close> is the early return on timeout.
\<close>

fun tx_wait :: "bool \<Rightarrow> u32 \<Rightarrow> u32 \<Rightarrow> usb \<Rightarrow> trace \<Rightarrow> (bool \<times> usb \<times> trace) option" where
  "tx_wait cnt start timeout u [] = None"
| "tx_wait cnt start timeout u (d # t) =
     (let u = tx_poll d u in
      if \<not> USBD_MIDI_IsTxBusy u then Some (True, u, t)
      else let u = (if cnt then u\<lparr>usb_tx_busy := usb_tx_busy u + 1\<rparr> else u) in
        (case t of
           [] \<Rightarrow> None
         | now # t' \<Rightarrow>
             if timeout \<le> now - start
             then Some (False, u\<lparr>usb_tx_timeout := usb_tx_timeout u + 1\<rparr>, t')
             else tx_wait cnt start timeout u t'))"

definition MIDI_SendResponsePkt_FS ::
    "u8 list option \<Rightarrow> u16 \<Rightarrow> u32 \<Rightarrow> usb \<Rightarrow> trace \<Rightarrow> (u8 \<times> usb \<times> trace) option" where
  "MIDI_SendResponsePkt_FS packet len timeout u t =
     (if len \<noteq> 36 \<or> packet = None then Some (- 1, u\<lparr>usb_tx_fail := usb_tx_fail u + 1\<rparr>, t)
      else do {
        let u = u\<lparr>midi_tx_buf := usb_frame (the packet)\<rparr>;
        (start, t) \<leftarrow> rd t;
        (ok, u, t) \<leftarrow> tx_wait True start timeout u t;
        if \<not> ok then Some (- 1, u, t)
        else do {
          let u = USBD_MIDI_SetTxBuffer MidiTxBuf 64 u;
          (res, u, t) \<leftarrow> USBD_MIDI_TransmitPacket u t;
          if res \<noteq> USBD_OK then Some (- 1, u\<lparr>usb_tx_fail := usb_tx_fail u + 1\<rparr>, t)
          else do {
            (ok, u, t) \<leftarrow> tx_wait False start timeout u t;
            if \<not> ok then Some (- 1, u, t)
            else Some (0, u\<lparr>usb_tx_ok := usb_tx_ok u + 1\<rparr>, t) } } })"

definition MIDI_TrySendResponsePkt_FS ::
    "u8 list option \<Rightarrow> u16 \<Rightarrow> usb \<Rightarrow> trace \<Rightarrow> (u8 \<times> usb \<times> trace) option" where
  "MIDI_TrySendResponsePkt_FS packet len u t =
     (if len \<noteq> 36 \<or> packet = None then Some (2, u\<lparr>usb_tx_fail := usb_tx_fail u + 1\<rparr>, t)
      else do {
        (d, t) \<leftarrow> rd t;
        let u = tx_poll d u;
        if USBD_MIDI_IsTxBusy u then Some (1, u\<lparr>usb_tx_busy := usb_tx_busy u + 1\<rparr>, t)
        else do {
          let u = USBD_MIDI_SetTxBuffer MidiTxBuf 64 (u\<lparr>midi_tx_buf := usb_frame (the packet)\<rparr>);
          (res, u, t) \<leftarrow> USBD_MIDI_TransmitPacket u t;
          if res \<noteq> USBD_OK then Some (2, u\<lparr>usb_tx_fail := usb_tx_fail u + 1\<rparr>, t)
          else Some (0, u\<lparr>usb_tx_ok := usb_tx_ok u + 1\<rparr>, t) } })"

function print_loop :: "u8 list \<Rightarrow> usb \<Rightarrow> trace \<Rightarrow> (usb \<times> trace) option" where
  "print_loop str u t =
     (if str = [] then Some (u, t)
      else do {
        (res, u, t) \<leftarrow> MIDI_SendResponsePkt_FS (Some (blit (zeros 36) 0 (take 18 str))) 36 100 u t;
        print_loop (drop 18 str) u t })"
  by pat_completeness auto
termination
  by (relation "measure (\<lambda>(str, u, t). length str)") auto

declare print_loop.simps [simp del]

definition MIDI_Print_FS :: "u8 list option \<Rightarrow> usb \<Rightarrow> trace \<Rightarrow> (usb \<times> trace) option" where
  "MIDI_Print_FS str u t = (case str of None \<Rightarrow> Some (u, t) | Some s \<Rightarrow> print_loop s u t)"

section \<open>Status packets\<close>

definition MIDI_QueueStatusPacket_FS :: "u16 \<Rightarrow> usb \<Rightarrow> usb" where
  "MIDI_QueueStatusPacket_FS status u = u\<lparr>pending_bs_status := status, pending_bs_ready := True\<rparr>"

text \<open>The 36 bytes of a buffer-status frame, with the response lane that rides on it.\<close>

definition bs_frame :: "u16 \<Rightarrow> u8 list \<Rightarrow> u8 list" where
  "bs_frame status lane =
     blit (blit (zeros 36) 18 [0x42, 0x53, ucast (drop_bit 8 status), ucast (status AND 0xFF)]) 0 lane"

definition MIDI_SendStatusPacket_FS :: "u16 \<Rightarrow> usb \<Rightarrow> trace \<Rightarrow> (usb \<times> trace) option" where
  "MIDI_SendStatusPacket_FS status u t =
     (let (frame, u) =
        (if pending_cmd_ready u
         then (bs_frame status (pending_cmd_lane u), u\<lparr>pending_cmd_ready := False\<rparr>)
         else (bs_frame status [], u))
      in do {
        (res, u, t) \<leftarrow> MIDI_SendResponsePkt_FS (Some frame) 36 100 u t;
        Some (u, t) })"

definition MIDI_PollTx_FS :: "usb \<Rightarrow> trace \<Rightarrow> (usb \<times> trace) option" where
  "MIDI_PollTx_FS u t =
     (if \<not> pending_bs_ready u then Some (u, t)
      else do {
        (d, t) \<leftarrow> rd t;
        let u = tx_poll d u;
        if USBD_MIDI_IsTxBusy u then Some (u, t)
        else MIDI_SendStatusPacket_FS (pending_bs_status u) (u\<lparr>pending_bs_ready := False\<rparr>) t })"

section \<open>The receive callback\<close>

definition MIDI_SetBufferType_FS :: "EMW_Buffer_Type \<Rightarrow> usb \<Rightarrow> usb" where
  "MIDI_SetBufferType_FS buffer_type u = u\<lparr>emw_buf_type := buffer_type\<rparr>"

definition MIDI_GetBufferType_FS :: "usb \<Rightarrow> EMW_Buffer_Type" where
  "MIDI_GetBufferType_FS u = emw_buf_type u"

definition rx_dispatch :: "u8 list \<Rightarrow> usb \<Rightarrow> usb" where
  "rx_dispatch cmd_lane u =
     (if list_ex (\<lambda>b. b \<noteq> 0) cmd_lane \<and> \<not> midi_packet_ready u
      then u\<lparr>midi_packet := cmd_lane, midi_packet_ready := True\<rparr> else u)"

definition MIDI_Receive_FS :: "u8 list \<Rightarrow> u32 \<Rightarrow> usb \<Rightarrow> usb" where
  "MIDI_Receive_FS Buf len u0 =
     (let u = u0\<lparr>usb_rx_in := usb_rx_in u0 + 1\<rparr> in
      if len \<noteq> 64 then USBD_MIDI_ReceivePacket u
      else let sysex = usb_unpack Buf in
        if \<not> sysex_valid sysex then USBD_MIDI_ReceivePacket u
        else (case decode_payload_7bit_fixed (take 42 (drop 5 sysex)) of
           None \<Rightarrow> USBD_MIDI_ReceivePacket u
         | Some decoded \<Rightarrow>
             let cmd_lane = take 18 decoded; stream_lane = take 18 (drop 18 decoded) in
             if emw_buf_type u = EMW_BUFFER_CIRCULAR then
               (case rx_append_lane stream_lane (ring u) of
                  (False, r) \<Rightarrow> USBD_MIDI_ReceivePacket (u\<lparr>ring := r\<rparr>)
                | (True, r) \<Rightarrow>
                    USBD_MIDI_ReceivePacket (rx_dispatch cmd_lane
                      (MIDI_QueueStatusPacket_FS (MIDI_GetRxBufferBytesAvailable_FS r) (u\<lparr>ring := r\<rparr>))))
             else USBD_MIDI_ReceivePacket (rx_dispatch cmd_lane u)))"

text \<open>The OUT endpoint interrupt: the controller has put \<open>sz\<close> bytes into \<open>midi_rx_buf\<close>.\<close>

definition USBD_MIDI_DataOut :: "u32 \<Rightarrow> usb \<Rightarrow> usb" where
  "USBD_MIDI_DataOut sz u =
     (case pClassData u of
        None \<Rightarrow> u\<lparr>null_deref := True\<rparr>
      | Some h \<Rightarrow>
          let u = u\<lparr>pClassData := Some (h\<lparr>RxLength := sz\<rparr>)\<rparr>;
              u = (if pUserData u \<and> RxBuffer h \<noteq> None
                   then MIDI_Receive_FS (buf_bytes (RxBuffer h) u) sz u else u)
          in USBD_LL_PrepareReceive u)"

definition MIDI_GetUsbStats_FS :: "usb \<Rightarrow> u32 \<times> u32 \<times> u32 \<times> u32 \<times> u32" where
  "MIDI_GetUsbStats_FS u = (usb_tx_ok u, usb_tx_busy u, usb_tx_timeout u, usb_tx_fail u, usb_rx_in u)"

section \<open>Frame lemmas\<close>

lemmas usb_unfold [emw_defs] = tx_poll_def USBD_MIDI_DataIn_def with_class_def USBD_MIDI_IsTxBusy_def
  USBD_MIDI_SetTxBuffer_def USBD_MIDI_SetRxBuffer_def USBD_LL_PrepareReceive_def

text \<open>What no transmit operation touches: everything but the class data, the transmit
  statistics, the transmit buffer and the ghosts.\<close>

definition tx_erase :: "usb \<Rightarrow> usb" where
  "tx_erase u = u\<lparr>pClassData := None, usbd_midi_data_in_count := 0, midi_tx_buf := [], usb_tx_ok := 0,
     usb_tx_busy := 0, usb_tx_timeout := 0, usb_tx_fail := 0, wire := [], null_deref := False\<rparr>"

definition configured :: "usb \<Rightarrow> bool" where
  "configured u \<longleftrightarrow> pClassData u \<noteq> None"

lemma tx_erase_fields:
  assumes "tx_erase u = tx_erase u'"
  shows "ring u = ring u'" "emw_buf_type u = emw_buf_type u'" "midi_packet u = midi_packet u'"
    "midi_packet_ready u = midi_packet_ready u'" "pending_cmd_lane u = pending_cmd_lane u'"
    "pending_cmd_ready u = pending_cmd_ready u'" "pending_bs_status u = pending_bs_status u'"
    "pending_bs_ready u = pending_bs_ready u'" "usb_rx_in u = usb_rx_in u'" "rx_armed u = rx_armed u'"
    "pUserData u = pUserData u'" "midi_rx_buf u = midi_rx_buf u'" "class_lost u = class_lost u'"
  using assms by (cases u; cases u'; simp add: tx_erase_def)+

lemma tx_poll_frame [simp]:
  "tx_erase (tx_poll d u) = tx_erase u" "wire (tx_poll d u) = wire u"
  "midi_tx_buf (tx_poll d u) = midi_tx_buf u" "null_deref (tx_poll d u) = null_deref u"
  "configured (tx_poll d u) = configured u"
  by (auto simp: emw_defs tx_erase_def configured_def split: option.splits)

lemma SetTxBuffer_frame [simp]:
  "tx_erase (USBD_MIDI_SetTxBuffer b n u) = tx_erase u" "wire (USBD_MIDI_SetTxBuffer b n u) = wire u"
  "midi_tx_buf (USBD_MIDI_SetTxBuffer b n u) = midi_tx_buf u"
  "configured (USBD_MIDI_SetTxBuffer b n u) = configured u"
  "configured u \<Longrightarrow> null_deref (USBD_MIDI_SetTxBuffer b n u) = null_deref u"
  "USBD_MIDI_IsTxBusy (USBD_MIDI_SetTxBuffer b n u) = USBD_MIDI_IsTxBusy u"
  by (auto simp: emw_defs tx_erase_def configured_def split: option.splits)

lemma tx_erase_upd [simp]:
  "tx_erase (u\<lparr>usb_tx_ok := x\<rparr>) = tx_erase u" "tx_erase (u\<lparr>usb_tx_busy := x\<rparr>) = tx_erase u"
  "tx_erase (u\<lparr>usb_tx_timeout := x\<rparr>) = tx_erase u" "tx_erase (u\<lparr>usb_tx_fail := x\<rparr>) = tx_erase u"
  "tx_erase (u\<lparr>wire := w\<rparr>) = tx_erase u" "tx_erase (u\<lparr>midi_tx_buf := b\<rparr>) = tx_erase u"
  "tx_erase (u\<lparr>pClassData := p\<rparr>) = tx_erase u" "tx_erase (u\<lparr>null_deref := nd\<rparr>) = tx_erase u"
  by (simp_all add: tx_erase_def)

lemma configured_upd [simp]:
  "configured (u\<lparr>usb_tx_ok := x\<rparr>) = configured u" "configured (u\<lparr>usb_tx_busy := x\<rparr>) = configured u"
  "configured (u\<lparr>usb_tx_timeout := x\<rparr>) = configured u" "configured (u\<lparr>usb_tx_fail := x\<rparr>) = configured u"
  "configured (u\<lparr>wire := w\<rparr>) = configured u" "configured (u\<lparr>midi_tx_buf := b\<rparr>) = configured u"
  "configured (u\<lparr>pClassData := Some h\<rparr>)"
  by (simp_all add: configured_def)

lemma IsTxBusy_upd [simp]:
  "USBD_MIDI_IsTxBusy (u\<lparr>usb_tx_ok := x\<rparr>) = USBD_MIDI_IsTxBusy u"
  "USBD_MIDI_IsTxBusy (u\<lparr>usb_tx_busy := x\<rparr>) = USBD_MIDI_IsTxBusy u"
  "USBD_MIDI_IsTxBusy (u\<lparr>usb_tx_timeout := x\<rparr>) = USBD_MIDI_IsTxBusy u"
  "USBD_MIDI_IsTxBusy (u\<lparr>usb_tx_fail := x\<rparr>) = USBD_MIDI_IsTxBusy u"
  "USBD_MIDI_IsTxBusy (u\<lparr>midi_tx_buf := b\<rparr>) = USBD_MIDI_IsTxBusy u"
  by (simp_all add: USBD_MIDI_IsTxBusy_def)

text \<open>A wait keeps everything but the statistics and the busy flag, and its \<open>True\<close> means idle.\<close>

lemma tx_wait_frame:
  assumes "tx_wait cnt start timeout u t = Some (ok, u', t')"
  shows "tx_erase u' = tx_erase u \<and> wire u' = wire u \<and> midi_tx_buf u' = midi_tx_buf u \<and>
    null_deref u' = null_deref u \<and> configured u' = configured u \<and> (ok \<longrightarrow> \<not> USBD_MIDI_IsTxBusy u')"
  using assms
proof (induction cnt start timeout u t rule: tx_wait.induct)
  case (2 cnt start timeout u d t)
  show ?case
  proof (cases "USBD_MIDI_IsTxBusy (tx_poll d u)")
    case False
    with "2.prems" show ?thesis by auto
  next
    case busy: True
    show ?thesis
    proof (cases t)
      case Nil
      with busy "2.prems" show ?thesis by simp
    next
      case (Cons now t2)
      show ?thesis
      proof (cases "timeout \<le> now - start")
        case True
        with busy Cons "2.prems" show ?thesis by (auto simp: Let_def split: if_splits)
      next
        case False
        let ?u = "if cnt then (tx_poll d u)\<lparr>usb_tx_busy := usb_tx_busy (tx_poll d u) + 1\<rparr> else tx_poll d u"
        have "tx_wait cnt start timeout ?u t2 = Some (ok, u', t')"
          using busy Cons False "2.prems" by (simp add: Let_def)
        from "2.IH" [OF refl _ refl Cons False this] busy
        show ?thesis by (auto split: if_splits)
      qed
    qed
  qed
qed simp

text \<open>The wait ends when the clock reaches the deadline at one of its reads.\<close>

lemma tx_wait_deadline:
  assumes "2 * k + 1 < length t" "timeout \<le> t ! (2 * k + 1) - start"
  shows "\<exists>ok u' i. tx_wait cnt start timeout u t =
    Some (ok, u', drop (if ok then 2 * i + 1 else 2 * i + 2) t) \<and> i \<le> k"
  using assms
proof (induction k arbitrary: u t)
  case (0 u t)
  then obtain d now t2 where t: "t = d # now # t2"
    by (cases t; cases "tl t") auto
  show ?case
  proof (cases "USBD_MIDI_IsTxBusy (tx_poll d u)")
    case False
    then show ?thesis using t by (intro exI [of _ True] exI [of _ "tx_poll d u"] exI [of _ 0]) simp
  next
    case True
    then show ?thesis using t 0 by (intro exI [of _ False]) (auto simp: Let_def)
  qed
next
  case (Suc k u t)
  then obtain d now t2 where t: "t = d # now # t2"
    by (cases t; cases "tl t") auto
  show ?case
  proof (cases "USBD_MIDI_IsTxBusy (tx_poll d u)")
    case False
    then show ?thesis using t by (intro exI [of _ True] exI [of _ "tx_poll d u"] exI [of _ 0]) simp
  next
    case busy: True
    show ?thesis
    proof (cases "timeout \<le> now - start")
      case True
      then show ?thesis
        using t busy by (intro exI [of _ False]) (auto simp: Let_def intro!: exI [of _ 0])
    next
      case False
      let ?u = "if cnt then (tx_poll d u)\<lparr>usb_tx_busy := usb_tx_busy (tx_poll d u) + 1\<rparr> else tx_poll d u"
      from Suc.prems t have "2 * k + 1 < length t2" "timeout \<le> t2 ! (2 * k + 1) - start" by simp_all
      from Suc.IH [OF this, of ?u] obtain ok u' i where
        "tx_wait cnt start timeout ?u t2 = Some (ok, u', drop (if ok then 2 * i + 1 else 2 * i + 2) t2)" "i \<le> k"
        by blast
      then show ?thesis
        using t busy False
        by (intro exI [of _ ok] exI [of _ u'] exI [of _ "Suc i"]) (auto simp: Let_def)
    qed
  qed
qed

lemma TransmitPacket_frame:
  assumes "USBD_MIDI_TransmitPacket u t = Some (res, u', t')" "configured u"
  shows "tx_erase u' = tx_erase u \<and> null_deref u' = null_deref u \<and> configured u' \<and>
    midi_tx_buf u' = midi_tx_buf u \<and> (USBD_MIDI_IsTxBusy u \<longrightarrow> res = USBD_BUSY \<and> wire u' = wire u) \<and>
    (res \<noteq> USBD_OK \<longrightarrow> wire u' = wire u)"
  using assms
  by (auto simp: USBD_MIDI_TransmitPacket_def USBD_LL_Transmit_def configured_def Let_def
      emw_defs USBD_Get_USB_Status_def bind_eq_Some_conv split: option.splits if_splits)

lemma SetTx_Transmit:
  assumes "configured u" "\<not> USBD_MIDI_IsTxBusy u"
    and "USBD_MIDI_TransmitPacket (USBD_MIDI_SetTxBuffer MidiTxBuf 64 u) t = Some (res, u', t')"
  shows "wire u' = (if res = USBD_OK then wire u @ [take 64 (midi_tx_buf u)] else wire u) \<and>
    USBD_MIDI_IsTxBusy u' \<and> (\<exists>hal. t = hal # t' \<and> res = USBD_Get_USB_Status hal)"
proof -
  from assms(1) obtain h where h: "pClassData u = Some h" by (auto simp: configured_def)
  from assms(2,3) obtain hal where t: "t = hal # t'"
    by (cases t) (auto simp: USBD_MIDI_TransmitPacket_def USBD_LL_Transmit_def Let_def h emw_defs
        bind_eq_Some_conv split: if_splits)
  show ?thesis
    using assms h t
    by (auto simp: USBD_MIDI_TransmitPacket_def USBD_LL_Transmit_def Let_def emw_defs buf_bytes_def
        USBD_Get_USB_Status_def split: if_splits)
qed

lemma Transmit_progress:
  assumes "configured u" "t \<noteq> []"
  shows "\<exists>res u' t'. USBD_MIDI_TransmitPacket u t = Some (res, u', t')"
  using assms
  by (cases t) (auto simp: USBD_MIDI_TransmitPacket_def USBD_LL_Transmit_def configured_def Let_def split: option.splits)

text \<open>The contract of the blocking send.\<close>

lemma send_contract:
  assumes "MIDI_SendResponsePkt_FS (Some p) 36 timeout u t = Some (ret, u', t')" and "configured u"
  shows "tx_erase u' = tx_erase u \<and> null_deref u' = null_deref u \<and> configured u' \<and> ret \<in> {0, - 1} \<and>
    (wire u' = wire u \<or> wire u' = wire u @ [usb_frame p]) \<and>
    (ret = 0 \<longrightarrow> wire u' = wire u @ [usb_frame p] \<and> \<not> USBD_MIDI_IsTxBusy u')"
proof -
  let ?u0 = "u\<lparr>midi_tx_buf := usb_frame p\<rparr>"
  from assms(1) obtain start t0 where t: "t = start # t0"
    by (cases t) (auto simp: MIDI_SendResponsePkt_FS_def)
  from assms(1) t obtain ok1 u1 t1 where w1: "tx_wait True start timeout ?u0 t0 = Some (ok1, u1, t1)"
    by (auto simp: MIDI_SendResponsePkt_FS_def bind_eq_Some_conv)
  note f1 = tx_wait_frame [OF w1]
  have c1: "configured u1" using f1 assms(2) by simp
  show ?thesis
  proof (cases ok1)
    case False
    then show ?thesis using assms t w1 f1 by (auto simp: MIDI_SendResponsePkt_FS_def)
  next
    case True
    then obtain res u2 t2 where tr:
      "USBD_MIDI_TransmitPacket (USBD_MIDI_SetTxBuffer MidiTxBuf 64 u1) t1 = Some (res, u2, t2)"
      using assms(1) t w1 by (auto simp: MIDI_SendResponsePkt_FS_def bind_eq_Some_conv Let_def)
    have nb: "\<not> USBD_MIDI_IsTxBusy u1" using f1 True by simp
    note f2 = TransmitPacket_frame [OF tr]
    note s2 = SetTx_Transmit [OF c1 nb tr]
    have w2: "wire u2 = (if res = USBD_OK then wire u @ [usb_frame p] else wire u)"
      using s2 f1 by simp
    have e2: "tx_erase u2 = tx_erase u \<and> null_deref u2 = null_deref u \<and> configured u2"
      using f2 f1 c1 by simp
    show ?thesis
    proof (cases "res = USBD_OK")
      case False
      then show ?thesis using assms t w1 True tr w2 e2 by (auto simp: MIDI_SendResponsePkt_FS_def Let_def)
    next
      case ok: True
      then obtain ok3 u3 t3 where w3: "tx_wait False start timeout u2 t2 = Some (ok3, u3, t3)"
        using assms(1) t w1 True tr by (auto simp: MIDI_SendResponsePkt_FS_def bind_eq_Some_conv Let_def)
      note f3 = tx_wait_frame [OF w3]
      show ?thesis
        using assms t w1 True tr ok w3 f3 w2 e2
        by (auto simp: MIDI_SendResponsePkt_FS_def Let_def split: if_splits)
    qed
  qed
qed

text \<open>
  The blocking send returns: the clock is read in every second position of the trace that
  follows the start time, and once it is past the deadline in every round after the \<open>K\<close>-th,
  both loops have ended, whatever the interrupt and the controller did.
\<close>

lemma send_returns_lemma:
  assumes late: "\<And>k. K < k \<Longrightarrow> 2 * k + 1 < length t \<Longrightarrow> timeout \<le> t ! (2 * k + 1) - start"
    and len: "2 * K + 6 \<le> length t" and conf: "configured u"
  shows "\<exists>ret u' t'. MIDI_SendResponsePkt_FS (Some p) 36 timeout u (start # t) = Some (ret, u', t')"
proof -
  let ?u0 = "u\<lparr>midi_tx_buf := usb_frame p\<rparr>"
  have d: "2 * Suc K + 1 < length t" "timeout \<le> t ! (2 * Suc K + 1) - start"
    using late [of "Suc K"] len by simp_all
  obtain ok u1 i where w1: "tx_wait True start timeout ?u0 t =
      Some (ok, u1, drop (if ok then 2 * i + 1 else 2 * i + 2) t)" and i: "i \<le> Suc K"
    using tx_wait_deadline [OF d] by blast
  show ?thesis
  proof (cases ok)
    case False
    then show ?thesis using w1 by (simp add: MIDI_SendResponsePkt_FS_def)
  next
    case True
    have c1: "configured u1" using tx_wait_frame [OF w1] conf by simp
    have nb: "\<not> USBD_MIDI_IsTxBusy u1" using tx_wait_frame [OF w1] True by simp
    have ne: "drop (2 * i + 1) t \<noteq> []" using len i by simp
    obtain res u2 t2 where tr: "USBD_MIDI_TransmitPacket (USBD_MIDI_SetTxBuffer MidiTxBuf 64 u1)
        (drop (2 * i + 1) t) = Some (res, u2, t2)"
      using Transmit_progress [OF _ ne, of "USBD_MIDI_SetTxBuffer MidiTxBuf 64 u1"] c1 by auto
    obtain hal where "drop (2 * i + 1) t = hal # t2" using SetTx_Transmit [OF c1 nb tr] by blast
    then have t2: "t2 = drop (2 * i + 2) t" by (simp add: drop_Suc drop_tl [symmetric])
      (metis drop_Suc list.sel(3) tl_drop)
    let ?m = "Suc K - i"
    have d2: "2 * ?m + 1 < length t2" "timeout \<le> t2 ! (2 * ?m + 1) - start"
      using len i late [of "i + 1 + ?m"] by (simp_all add: t2 algebra_simps)
    from tx_wait_deadline [OF d2, of False u2] obtain ok3 u3 t3 where
      "tx_wait False start timeout u2 t2 = Some (ok3, u3, t3)" by blast
    then show ?thesis using w1 True tr by (simp add: MIDI_SendResponsePkt_FS_def Let_def)
  qed
qed

text \<open>The non-blocking send, in one step.\<close>

lemma trysend_contract:
  assumes "MIDI_TrySendResponsePkt_FS (Some p) 36 u t = Some (ret, u', t')" and "configured u"
  shows "tx_erase u' = tx_erase u \<and> null_deref u' = null_deref u \<and> configured u' \<and> ret \<in> {0, 1, 2} \<and>
    wire u' = (if ret = 0 then wire u @ [usb_frame p] else wire u)"
proof -
  from assms(1) obtain d t0 where t: "t = d # t0"
    by (cases t) (auto simp: MIDI_TrySendResponsePkt_FS_def)
  show ?thesis
  proof (cases "USBD_MIDI_IsTxBusy (tx_poll d u)")
    case True
    then show ?thesis using assms t by (auto simp: MIDI_TrySendResponsePkt_FS_def Let_def)
  next
    case False
    let ?u1 = "(tx_poll d u)\<lparr>midi_tx_buf := usb_frame p\<rparr>"
    obtain res u2 t2 where tr:
      "USBD_MIDI_TransmitPacket (USBD_MIDI_SetTxBuffer MidiTxBuf 64 ?u1) t0 = Some (res, u2, t2)"
      using assms(1) t False by (auto simp: MIDI_TrySendResponsePkt_FS_def bind_eq_Some_conv Let_def)
    have c1: "configured ?u1" using assms(2) by simp
    have nb: "\<not> USBD_MIDI_IsTxBusy ?u1" using False by simp
    show ?thesis
      using assms t False tr SetTx_Transmit [OF c1 nb tr] TransmitPacket_frame [OF tr] c1
      by (auto simp: MIDI_TrySendResponsePkt_FS_def Let_def split: if_splits)
  qed
qed

text \<open>What the senders leave alone even when there are no class data.\<close>

lemma TransmitPacket_erase:
  assumes "USBD_MIDI_TransmitPacket u t = Some (res, u', t')"
  shows "tx_erase u' = tx_erase u \<and> configured u' = configured u"
proof (cases "configured u")
  case True
  then show ?thesis using TransmitPacket_frame [OF assms] by simp
next
  case False
  then have "u' = u\<lparr>null_deref := True\<rparr>" using assms by (simp add: USBD_MIDI_TransmitPacket_def configured_def)
  then show ?thesis by (simp add: configured_def)
qed

lemma send_erase:
  assumes "MIDI_SendResponsePkt_FS (Some p) 36 timeout u t = Some (ret, u', t')"
  shows "tx_erase u' = tx_erase u \<and> configured u' = configured u"
proof -
  let ?u0 = "u\<lparr>midi_tx_buf := usb_frame p\<rparr>"
  obtain start t0 ok1 u1 t1 where w1: "tx_wait True start timeout ?u0 t0 = Some (ok1, u1, t1)" and t: "t = start # t0"
    using assms by (cases t) (auto simp: MIDI_SendResponsePkt_FS_def bind_eq_Some_conv)
  note f1 = tx_wait_frame [OF w1]
  show ?thesis
  proof (cases ok1)
    case False
    then show ?thesis using assms t w1 f1 by (auto simp: MIDI_SendResponsePkt_FS_def)
  next
    case True
    then obtain res u2 t2 where tr:
      "USBD_MIDI_TransmitPacket (USBD_MIDI_SetTxBuffer MidiTxBuf 64 u1) t1 = Some (res, u2, t2)"
      using assms t w1 by (auto simp: MIDI_SendResponsePkt_FS_def bind_eq_Some_conv Let_def)
    note f2 = TransmitPacket_erase [OF tr]
    show ?thesis
    proof (cases "res = USBD_OK")
      case False
      then show ?thesis using assms t w1 True tr f1 f2 by (auto simp: MIDI_SendResponsePkt_FS_def Let_def)
    next
      case ok: True
      then obtain ok3 u3 t3 where w3: "tx_wait False start timeout u2 t2 = Some (ok3, u3, t3)"
        using assms t w1 True tr by (auto simp: MIDI_SendResponsePkt_FS_def bind_eq_Some_conv Let_def)
      show ?thesis
        using assms t w1 True tr ok w3 tx_wait_frame [OF w3] f1 f2
        by (auto simp: MIDI_SendResponsePkt_FS_def Let_def split: if_splits)
    qed
  qed
qed

lemma trysend_erase:
  assumes "MIDI_TrySendResponsePkt_FS (Some p) 36 u t = Some (ret, u', t')"
  shows "tx_erase u' = tx_erase u \<and> configured u' = configured u"
proof -
  obtain d t0 where t: "t = d # t0" using assms by (cases t) (auto simp: MIDI_TrySendResponsePkt_FS_def)
  show ?thesis
  proof (cases "USBD_MIDI_IsTxBusy (tx_poll d u)")
    case True
    then show ?thesis using assms t by (auto simp: MIDI_TrySendResponsePkt_FS_def Let_def)
  next
    case False
    obtain res u2 t2 where
      "USBD_MIDI_TransmitPacket (USBD_MIDI_SetTxBuffer MidiTxBuf 64 ((tx_poll d u)\<lparr>midi_tx_buf := usb_frame p\<rparr>)) t0 = Some (res, u2, t2)"
      using assms t False by (auto simp: MIDI_TrySendResponsePkt_FS_def bind_eq_Some_conv Let_def)
    from this TransmitPacket_erase [OF this] show ?thesis
      using assms t False by (auto simp: MIDI_TrySendResponsePkt_FS_def Let_def split: if_splits)
  qed
qed

section \<open>The receive callback on valid and invalid transfers\<close>

lemma ReceivePacket_frame:
  "USBD_MIDI_ReceivePacket u = u\<lparr>rx_armed := rx_armed (USBD_MIDI_ReceivePacket u),
     null_deref := null_deref (USBD_MIDI_ReceivePacket u)\<rparr>"
  by (simp add: USBD_MIDI_ReceivePacket_def USBD_LL_PrepareReceive_def split: option.splits)

lemma ReceivePacket_fields [simp]:
  "midi_packet (USBD_MIDI_ReceivePacket u) = midi_packet u"
  "midi_packet_ready (USBD_MIDI_ReceivePacket u) = midi_packet_ready u"
  "ring (USBD_MIDI_ReceivePacket u) = ring u" "wire (USBD_MIDI_ReceivePacket u) = wire u"
  "emw_buf_type (USBD_MIDI_ReceivePacket u) = emw_buf_type u"
  "pending_bs_ready (USBD_MIDI_ReceivePacket u) = pending_bs_ready u"
  "pending_bs_status (USBD_MIDI_ReceivePacket u) = pending_bs_status u"
  "pending_cmd_ready (USBD_MIDI_ReceivePacket u) = pending_cmd_ready u"
  "pending_cmd_lane (USBD_MIDI_ReceivePacket u) = pending_cmd_lane u"
  "pClassData (USBD_MIDI_ReceivePacket u) = pClassData u" "class_lost (USBD_MIDI_ReceivePacket u) = class_lost u"
  by (subst ReceivePacket_frame, simp)+

lemma rx_dispatch_fields [simp]:
  "ring (rx_dispatch c u) = ring u" "emw_buf_type (rx_dispatch c u) = emw_buf_type u"
  "pending_bs_ready (rx_dispatch c u) = pending_bs_ready u" "wire (rx_dispatch c u) = wire u"
  "pending_bs_status (rx_dispatch c u) = pending_bs_status u"
  "midi_packet (rx_dispatch c u) = (if list_ex (\<lambda>b. b \<noteq> 0) c \<and> \<not> midi_packet_ready u then c else midi_packet u)"
  "midi_packet_ready (rx_dispatch c u) = (list_ex (\<lambda>b. b \<noteq> 0) c \<or> midi_packet_ready u)"
  by (auto simp: rx_dispatch_def)

lemma receive_valid:
  assumes "length cmd = 18" "length stream = 18"
  shows "MIDI_Receive_FS (usb_frame (cmd @ stream)) 64 u =
    (let u = u\<lparr>usb_rx_in := usb_rx_in u + 1\<rparr> in
     if emw_buf_type u = EMW_BUFFER_CIRCULAR then
       (case rx_append_lane stream (ring u) of
          (False, r) \<Rightarrow> USBD_MIDI_ReceivePacket (u\<lparr>ring := r\<rparr>)
        | (True, r) \<Rightarrow> USBD_MIDI_ReceivePacket (rx_dispatch cmd
              (MIDI_QueueStatusPacket_FS (MIDI_GetRxBufferBytesAvailable_FS r) (u\<lparr>ring := r\<rparr>))))
     else USBD_MIDI_ReceivePacket (rx_dispatch cmd u))"
proof -
  have l: "length (cmd @ stream) = 36" using assms by simp
  show ?thesis
    using assms by (simp add: MIDI_Receive_FS_def Let_def usb_frame_valid [OF l] usb_frame_decodes [OF l])
qed

lemma receive_invalid:
  assumes "len \<noteq> 64 \<or> \<not> sysex_valid (usb_unpack Buf)"
  shows "MIDI_Receive_FS Buf len u = USBD_MIDI_ReceivePacket (u\<lparr>usb_rx_in := usb_rx_in u + 1\<rparr>)"
  using assms by (auto simp: MIDI_Receive_FS_def Let_def)

section \<open>Status packets carry the pending response\<close>

lemma send_status_contract:
  assumes "MIDI_SendStatusPacket_FS status u t = Some (u', t')" "configured u"
  shows "\<not> pending_cmd_ready u' \<and> configured u' \<and> null_deref u' = null_deref u \<and>
    tx_erase u' = tx_erase (u\<lparr>pending_cmd_ready := False\<rparr>) \<and>
    (wire u' = wire u \<or>
     wire u' = wire u @ [usb_frame (bs_frame status (if pending_cmd_ready u then pending_cmd_lane u else []))])"
proof -
  let ?f = "bs_frame status (if pending_cmd_ready u then pending_cmd_lane u else [])"
  let ?u = "u\<lparr>pending_cmd_ready := False\<rparr>"
  have e: "(if pending_cmd_ready u
      then (bs_frame status (pending_cmd_lane u), u\<lparr>pending_cmd_ready := False\<rparr>)
      else (bs_frame status [], u)) = (?f, ?u)"
    by simp
  from assms(1) obtain res where s: "MIDI_SendResponsePkt_FS (Some ?f) 36 100 ?u t = Some (res, u', t')"
    unfolding MIDI_SendStatusPacket_FS_def e by (auto simp: bind_eq_Some_conv)
  have c: "configured ?u" using assms(2) by (simp add: configured_def)
  from send_contract [OF s c] show ?thesis
    using tx_erase_fields(6) [of u' ?u] by auto
qed

lemma send_status_erase:
  assumes "MIDI_SendStatusPacket_FS status u t = Some (u', t')"
  shows "tx_erase u' = tx_erase (u\<lparr>pending_cmd_ready := False\<rparr>) \<and> configured u' = configured u"
proof -
  let ?u = "u\<lparr>pending_cmd_ready := False\<rparr>"
  have e: "(if pending_cmd_ready u
      then (bs_frame status (pending_cmd_lane u), u\<lparr>pending_cmd_ready := False\<rparr>)
      else (bs_frame status [], u)) = (bs_frame status (if pending_cmd_ready u then pending_cmd_lane u else []), ?u)"
    by simp
  obtain f res where "MIDI_SendResponsePkt_FS (Some f) 36 100 ?u t = Some (res, u', t')"
    using assms unfolding MIDI_SendStatusPacket_FS_def e by (auto simp: bind_eq_Some_conv)
  from send_erase [OF this] show ?thesis by (simp add: configured_def)
qed

lemma length_bs_frame [simp]: "length lane \<le> 36 \<Longrightarrow> length (bs_frame status lane) = 36"
  by (simp add: bs_frame_def)

text \<open>The two lanes of a status frame.\<close>

lemma bs_frame_lanes:
  assumes "length lane = 18"
  shows "take 18 (bs_frame status lane) = lane"
    and "take 18 (bs_frame status []) = replicate 18 0"
    and "take 4 (drop 18 (bs_frame status lane)) = [0x42, 0x53, ucast (drop_bit 8 status), ucast (status AND 0xFF)]"
    and "drop 18 (bs_frame status []) = drop 18 (bs_frame status lane)"
  using assms by (simp_all add: bs_frame_def blit_def zeros_def)

text \<open>The status value in a buffer-status lane, as the host reads it (high byte first).\<close>

definition bs_value :: "u8 list \<Rightarrow> u16" where
  "bs_value frame = push_bit 8 (ucast (frame ! 20)) OR ucast (frame ! 21)"

lemma bs_value_frame: "length lane \<in> {0, 18} \<Longrightarrow> bs_value (bs_frame status lane) = status"
  unfolding bs_value_def bs_frame_def and_0xFF
  by (rule bit_word_eqI) (auto simp: nth_blit nth_Cons' bit_simps)

section \<open>Properties\<close>

text \<open>C9: The blocking send of a 36-byte frame on a configured device: it reports success only after
  the controller accepted exactly the encoded frame and signalled completion; on failure the frame
  was either not handed over at all or handed over once; the command, ring and pending-response
  state that the receive side shares is untouched.\<close>

theorem send_response_contract:
  assumes "MIDI_SendResponsePkt_FS (Some frame) 36 timeout u t = Some (ret, u', t')" and "configured u"
  shows "(ret = 0 \<or> ret = - 1) \<and> wire u' \<in> {wire u, wire u @ [usb_frame frame]} \<and>
    (ret = 0 \<longrightarrow> wire u' = wire u @ [usb_frame frame] \<and> \<not> USBD_MIDI_IsTxBusy u') \<and>
    ring u' = ring u \<and> midi_packet_ready u' = midi_packet_ready u \<and> midi_packet u' = midi_packet u \<and>
    pending_cmd_ready u' = pending_cmd_ready u \<and> pending_cmd_lane u' = pending_cmd_lane u"
  using send_contract [OF assms] tx_erase_fields [of u' u] by auto

text \<open>
  The statically initialised variables: there are no class data before the host configures the
  device. The initialisation registers the interface; \<open>usb_idle\<close> is what the first SET\_CONFIGURATION
  makes of that.
\<close>

definition usb_static :: usb where
  "usb_static = \<lparr>pClassData = None, pUserData = False, usbd_midi_data_in_count = 0, midi_rx_buf = zeros 64, midi_tx_buf = zeros 64,
     ring = \<lparr>rxBuffer = zeros 512, rxBufferHeadPos = 0, rxBufferTailPos = 0\<rparr>,
     emw_buf_type = EMW_BUFFER_PACKET, midi_packet = zeros 18, midi_packet_ready = False,
     pending_cmd_lane = zeros 18, pending_cmd_ready = False, pending_bs_status = 0, pending_bs_ready = False,
     usb_tx_ok = 0, usb_tx_busy = 0, usb_tx_timeout = 0, usb_tx_fail = 0, usb_rx_in = 0, wire = [],
     rx_armed = 0, null_deref = False, class_lost = False\<rparr>"

definition usb_boot :: usb where
  "usb_boot = snd (USBD_MIDI_RegisterInterface True usb_static)"

definition usb_idle :: usb where
  "usb_idle = USBD_MIDI_Init usb_boot"

lemma usb_boot_eq: "usb_boot = usb_static\<lparr>pUserData := True\<rparr>"
  by (simp add: usb_boot_def USBD_MIDI_RegisterInterface_def)

lemma usb_idle_eq: "usb_idle = \<lparr>pClassData = Some \<lparr>RxBuffer = Some MidiRxBuf, TxBuffer = Some MidiTxBuf, RxLength = 0, TxLength = 0, TxState = 0\<rparr>,
     pUserData = True, usbd_midi_data_in_count = 0, midi_rx_buf = zeros 64, midi_tx_buf = zeros 64,
     ring = \<lparr>rxBuffer = zeros 512, rxBufferHeadPos = 0, rxBufferTailPos = 0\<rparr>,
     emw_buf_type = EMW_BUFFER_PACKET, midi_packet = zeros 18, midi_packet_ready = False,
     pending_cmd_lane = zeros 18, pending_cmd_ready = False, pending_bs_status = 0, pending_bs_ready = False,
     usb_tx_ok = 0, usb_tx_busy = 0, usb_tx_timeout = 0, usb_tx_fail = 0, usb_rx_in = 0, wire = [],
     rx_armed = 1, null_deref = False, class_lost = False\<rparr>"
  by (simp add: usb_idle_def usb_boot_eq usb_static_def USBD_MIDI_Init_def MIDI_Init_FS_def Let_def emw_defs)

lemma usb_idle_simps [simp]: "configured usb_idle" "wire usb_idle = []" "ring usb_idle = \<lparr>rxBuffer = zeros 512, rxBufferHeadPos = 0, rxBufferTailPos = 0\<rparr>"
  "emw_buf_type usb_idle = EMW_BUFFER_PACKET" "\<not> midi_packet_ready usb_idle" "\<not> USBD_MIDI_IsTxBusy usb_idle"
  by (simp_all add: usb_idle_eq configured_def USBD_MIDI_IsTxBusy_def)

lemma usb_idle_send: "\<exists>u'. MIDI_SendResponsePkt_FS (Some frame) 36 100 usb_idle [7, 0, 0, 1] = Some (0, u', [])"
  by (simp add: MIDI_SendResponsePkt_FS_def usb_idle_eq emw_defs Let_def USBD_MIDI_TransmitPacket_def
      USBD_LL_Transmit_def USBD_Get_USB_Status_def)

theorem send_response_contract_witness:
  "\<exists>u'. MIDI_SendResponsePkt_FS (Some (zeros 36)) 36 100 usb_idle [7, 0, 0, 1] = Some (0, u', []) \<and>
    wire u' = [usb_frame (zeros 36)]"
  using usb_idle_send [of "zeros 36"] send_response_contract [of "zeros 36" 100 usb_idle "[7, 0, 0, 1]" 0 _ "[]"]
  by auto

text \<open>C24: The blocking send always returns: once the millisecond clock is past the deadline in every
  poll after the K-th, both wait loops have ended, whatever the controller and the transfer-complete
  interrupt do (even if a completed transfer is never signalled).\<close>

theorem send_response_returns:
  assumes "\<And>k. K < k \<Longrightarrow> 2 * k + 1 < length t \<Longrightarrow> timeout \<le> t ! (2 * k + 1) - start"
    and "2 * K + 6 \<le> length t" and "configured u"
  shows "\<exists>ret u' t'. MIDI_SendResponsePkt_FS (Some frame) 36 timeout u (start # t) = Some (ret, u', t')"
  by (rule send_returns_lemma [OF assms])

theorem send_response_returns_witness:
  "\<exists>ret u' t'. MIDI_SendResponsePkt_FS (Some (zeros 36)) 36 100 usb_idle (7 # [0, 0, 0, 107, 0, 107]) = Some (ret, u', t')"
proof (rule send_response_returns [of 0])
  fix k :: nat
  assume "0 < k" "2 * k + 1 < length [0, 0, 0, 107, 0, 107 :: u32]"
  then have "k = 1 \<or> k = 2" by auto
  then show "100 \<le> [0, 0, 0, 107, 0, 107 :: u32] ! (2 * k + 1) - 7"
    by (elim disjE) (simp_all add: numeral_3_eq_3 eval_nat_numeral)
qed simp_all

text \<open>C10: A valid 64-byte transfer is delivered lane by lane: a non-empty command lane reaches the
  main loop exactly when no command is waiting, the stream lane is queued in retransmit mode when
  the ring has room for it (and a buffer-status report with the new fill level is then queued),
  and nothing is sent from inside the callback.\<close>

theorem receive_delivers:
  assumes "length cmd = 18" "length stream = 18" "rx_wf (ring u)"
    and "emw_buf_type u = EMW_BUFFER_CIRCULAR \<Longrightarrow> length (rx_contents (ring u)) \<le> 493"
  shows "let u' = MIDI_Receive_FS (usb_frame (cmd @ stream)) 64 u in
    (if cmd \<noteq> replicate 18 0 \<and> \<not> midi_packet_ready u
     then midi_packet u' = cmd \<and> midi_packet_ready u'
     else midi_packet u' = midi_packet u \<and> midi_packet_ready u' = midi_packet_ready u) \<and>
    rx_wf (ring u') \<and> wire u' = wire u \<and>
    (if emw_buf_type u = EMW_BUFFER_CIRCULAR
     then rx_contents (ring u') = rx_contents (ring u) @ stream \<and> pending_bs_ready u' \<and>
       unat (pending_bs_status u') = length (rx_contents (ring u))  + 18
     else ring u' = ring u \<and> pending_bs_ready u' = pending_bs_ready u)"
proof -
  have any: "list_ex (\<lambda>b. b \<noteq> 0) cmd \<longleftrightarrow> cmd \<noteq> replicate 18 0"
    using assms(1) all_eq_replicate [of cmd 0] by (auto simp: list_ex_iff)
  show ?thesis
  proof (cases "emw_buf_type u = EMW_BUFFER_CIRCULAR")
    case False
    then show ?thesis using assms any by (simp add: receive_valid Let_def)
  next
    case True
    obtain ok r where r: "rx_append_lane stream (ring u) = (ok, r)"
      by (cases "rx_append_lane stream (ring u)")
    with rx_append_fits [of "ring u" stream] assms True
    have ok: "ok" "rx_wf r" "rx_contents r = rx_contents (ring u) @ stream" by auto
    have l: "length (rx_contents r) = length (rx_contents (ring u)) + 18" "length (rx_contents r) < 512"
      using ok assms(2) assms(4) [OF True] by simp_all
    have bs: "unat (MIDI_GetRxBufferBytesAvailable_FS r) = length (rx_contents (ring u)) + 18"
      using available_used [OF ok(2)] rx_contents_length [OF ok(2)] l by simp
    show ?thesis
      using assms any True r ok bs by (simp add: receive_valid Let_def MIDI_QueueStatusPacket_FS_def)
  qed
qed

theorem receive_delivers_witness:
  "midi_packet (MIDI_Receive_FS (usb_frame ((1 # replicate 17 0) @ replicate 18 9)) 64 usb_idle) = 1 # replicate 17 0 \<and>
   rx_contents (ring (MIDI_Receive_FS (usb_frame ((1 # replicate 17 0) @ replicate 18 9)) 64
     (usb_idle\<lparr>emw_buf_type := EMW_BUFFER_CIRCULAR\<rparr>))) = replicate 18 9"
proof -
  let ?c = "1 # replicate 17 0 :: u8 list" and ?s = "replicate 18 9 :: u8 list"
  have wf: "rx_wf (ring usb_idle)" by (simp add: rx_wf_def)
  have emp: "rx_contents (ring usb_idle) = []"
    by (simp add: rx_contents_def MIDI_GetRxBufferBytesAvailable_FS_def)
  have ne: "?c \<noteq> replicate 18 0" by (simp add: list_eq_iff_nth_eq exI [of _ 0])
  show ?thesis
    using receive_delivers [of ?c ?s usb_idle] receive_delivers [of ?c ?s "usb_idle\<lparr>emw_buf_type := EMW_BUFFER_CIRCULAR\<rparr>"]
      wf emp ne by (simp add: Let_def)
qed

text \<open>When the stream lane of a transfer does not fit into the ring, the command lane of the same
  transfer is lost too, even with no command waiting: the callback returns before its dispatch.\<close>

theorem receive_overflow_loses_command:
  assumes "length cmd = 18" "length stream = 18" "rx_wf (ring u)"
    and "emw_buf_type u = EMW_BUFFER_CIRCULAR" "494 \<le> length (rx_contents (ring u))"
  shows "let u' = MIDI_Receive_FS (usb_frame (cmd @ stream)) 64 u in
    midi_packet_ready u' = midi_packet_ready u \<and> midi_packet u' = midi_packet u \<and>
    rx_contents (ring u') = rx_contents (ring u) \<and> pending_bs_ready u' = pending_bs_ready u"
proof -
  obtain ok r where r: "rx_append_lane stream (ring u) = (ok, r)"
    by (cases "rx_append_lane stream (ring u)")
  with rx_append_full [of "ring u" stream] assms show ?thesis
    by (simp add: receive_valid Let_def)
qed

theorem receive_overflow_loses_command_witness:
  "\<not> midi_packet_ready (MIDI_Receive_FS (usb_frame ((1 # replicate 17 0) @ replicate 18 9)) 64
     (usb_idle\<lparr>emw_buf_type := EMW_BUFFER_CIRCULAR,
        ring := \<lparr>rxBuffer = zeros 512, rxBufferHeadPos = 500, rxBufferTailPos = 1\<rparr>\<rparr>))"
proof -
  let ?u = "usb_idle\<lparr>emw_buf_type := EMW_BUFFER_CIRCULAR,
        ring := \<lparr>rxBuffer = zeros 512, rxBufferHeadPos = 500, rxBufferTailPos = 1\<rparr>\<rparr>"
  have wf: "rx_wf (ring ?u)" by (simp add: rx_wf_def)
  have n: "494 \<le> length (rx_contents (ring ?u))"
    unfolding rx_contents_length [OF wf] by (simp add: rx_used_def)
  from receive_overflow_loses_command [OF _ _ wf _ n, of "1 # replicate 17 0" "replicate 18 9"]
  show ?thesis by (simp add: Let_def)
qed

text \<open>The pending response rides on the next status frame exactly once: when the polled sender
  emits, the frame carries the queued fill level and the pending lane (or an empty lane if there is
  none); afterwards neither the report nor the response is pending, and nothing else is sent.\<close>

theorem poll_tx_piggybacks_once:
  assumes "MIDI_PollTx_FS u t = Some (u', t')" "configured u" "pending_bs_ready u"
    and "length (pending_cmd_lane u) = 18"
  shows "(wire u' = wire u \<and> pending_bs_ready u' \<and> pending_cmd_ready u' = pending_cmd_ready u) \<or>
    (\<not> pending_bs_ready u' \<and> \<not> pending_cmd_ready u' \<and>
     (wire u' = wire u \<or>
      (\<exists>frame. wire u' = wire u @ [usb_frame frame] \<and> length frame = 36 \<and>
         take 18 frame = (if pending_cmd_ready u then pending_cmd_lane u else replicate 18 0) \<and>
         bs_value frame = pending_bs_status u)))"
proof -
  from assms(1,3) obtain d t0 where t: "t = d # t0"
    by (cases t) (auto simp: MIDI_PollTx_FS_def)
  let ?u = "tx_poll d u"
  note f = tx_erase_fields [OF tx_poll_frame(1) [of d u]]
  show ?thesis
  proof (cases "USBD_MIDI_IsTxBusy ?u")
    case True
    then show ?thesis using assms(1,3) t f by (auto simp: MIDI_PollTx_FS_def)
  next
    case False
    let ?v = "?u\<lparr>pending_bs_ready := False\<rparr>"
    let ?lane = "if pending_cmd_ready u then pending_cmd_lane u else []"
    have s: "MIDI_SendStatusPacket_FS (pending_bs_status u) ?v t0 = Some (u', t')"
      using assms(1,3) t f False by (simp add: MIDI_PollTx_FS_def Let_def)
    have c: "configured ?v" using assms(2) tx_poll_frame(5) [of d u] by (simp add: configured_def)
    note k = send_status_contract [OF s c]
    have bs: "\<not> pending_bs_ready u'"
      using k tx_erase_fields(8) [of u' "?v\<lparr>pending_cmd_ready := False\<rparr>"] by simp
    have fr: "length (bs_frame (pending_bs_status u) ?lane) = 36 \<and>
      take 18 (bs_frame (pending_bs_status u) ?lane) =
        (if pending_cmd_ready u then pending_cmd_lane u else replicate 18 0) \<and>
      bs_value (bs_frame (pending_bs_status u) ?lane) = pending_bs_status u"
      using assms(4) bs_frame_lanes(1,2) [OF assms(4)] bs_value_frame by simp
    show ?thesis using k bs fr f by auto
  qed
qed

theorem poll_tx_piggybacks_once_witness:
  "\<exists>u'. MIDI_PollTx_FS (usb_idle\<lparr>pending_bs_ready := True, pending_cmd_ready := True\<rparr>) [0, 5, 0, 0, 1] = Some (u', []) \<and>
     \<not> pending_cmd_ready u' \<and> \<not> pending_bs_ready u'"
proof -
  let ?u = "usb_idle\<lparr>pending_bs_ready := True, pending_cmd_ready := True\<rparr>"
  obtain u' where r: "MIDI_PollTx_FS ?u [0, 5, 0, 0, 1] = Some (u', [])" and l: "wire u' \<noteq> wire ?u"
    by (simp add: MIDI_PollTx_FS_def MIDI_SendStatusPacket_FS_def MIDI_SendResponsePkt_FS_def usb_idle_eq emw_defs
        Let_def USBD_MIDI_TransmitPacket_def USBD_LL_Transmit_def USBD_Get_USB_Status_def)
  have "length (pending_cmd_lane ?u) = 18" "configured ?u"
    by (simp_all add: usb_idle_eq configured_def)
  with poll_tx_piggybacks_once [OF r] r l show ?thesis by auto
qed

end
