(* ===== verification/Sampler.thy ===== *)
theory Sampler
  imports Usb_Midi "HOL-Library.Sublist"
begin

text \<open>
  The 1-bit sampler of \<open>stm/emwaver-firmware/Core/Src/main.c\<close>: the timer interrupt packs one
  pin sample per tick into bytes and bytes into 18-byte lanes of a 16-lane ring; the main loop
  drains complete lanes with the non-blocking send. The abstract view is a queue of 144-sample
  windows plus the window being filled; the interrupt handler is proved to refine one step of
  that view, and over any interleaving of ticks and drains the lanes handed out are whole,
  aligned windows of the sampled signal, in order.
\<close>

section \<open>State and operations\<close>

record sampler =
  samplerPort :: gpio_port
  samplerPin :: u16
  sampler_ring :: "u8 list list"
  sampler_overflow_lane :: "u8 list"
  sampler_ring_head :: u8
  sampler_ring_tail :: u8
  sampler_ring_count :: u8
  sampler_overflow_active :: bool
  sampler_dropped_lanes :: u32
  sampler_bit_index :: u8
  sampler_byte_index :: u8
  sampler_current_byte :: u8

text \<open>\<open>lane[sampler_byte_index] = sampler_current_byte\<close>, with the lane chosen by the overflow flag.\<close>

definition samp_store :: "sampler \<Rightarrow> sampler" where
  "samp_store s =
     (if sampler_overflow_active s
      then s\<lparr>sampler_overflow_lane := (sampler_overflow_lane s)[unat (sampler_byte_index s) := sampler_current_byte s]\<rparr>
      else s\<lparr>sampler_ring := (sampler_ring s)[unat (sampler_ring_head s) :=
             (sampler_ring s ! unat (sampler_ring_head s))[unat (sampler_byte_index s) := sampler_current_byte s]]\<rparr>)"

text \<open>The part of the handler after a lane is complete.\<close>

definition samp_commit :: "sampler \<Rightarrow> sampler" where
  "samp_commit s =
     (if sampler_overflow_active s then
        (if sampler_ring_count s < 16 then s\<lparr>sampler_overflow_active := False\<rparr> else s)
      else
        let cnt = sampler_ring_count s in
        if 16 \<le> cnt then
          s\<lparr>sampler_dropped_lanes := sampler_dropped_lanes s + 1, sampler_overflow_active := True\<rparr>
        else
          let s = s\<lparr>sampler_ring_count := cnt + 1,
                     sampler_ring_head := (sampler_ring_head s + 1) AND 15\<rparr>
          in if 16 \<le> sampler_ring_count s then s\<lparr>sampler_overflow_active := True\<rparr> else s)"

text \<open>\<open>idr\<close> is the value of \<open>samplerPort->IDR\<close> that the handler reads.\<close>

definition ISR_Sampler_raw :: "u32 \<Rightarrow> sampler \<Rightarrow> sampler" where
  "ISR_Sampler_raw idr s =
     (let s = (if idr AND ucast (samplerPin s) \<noteq> 0
               then s\<lparr>sampler_current_byte := sampler_current_byte s OR push_bit (unat (sampler_bit_index s)) 1\<rparr>
               else s);
          s = s\<lparr>sampler_bit_index := sampler_bit_index s + 1\<rparr>
      in if sampler_bit_index s < 8 then s
         else
           let s = samp_store (s\<lparr>sampler_bit_index := 0\<rparr>);
               s = s\<lparr>sampler_current_byte := 0, sampler_byte_index := sampler_byte_index s + 1\<rparr>
           in if sampler_byte_index s < 18 then s
              else samp_commit (s\<lparr>sampler_byte_index := 0\<rparr>))"

text \<open>The reset inside the critical section of \<open>SAMPLE START\<close>, and the one of \<open>stop_sampling\<close>.\<close>

definition sampler_start_reset :: "sampler \<Rightarrow> sampler" where
  "sampler_start_reset s = s\<lparr>sampler_ring_head := 0, sampler_ring_tail := 0, sampler_ring_count := 0,
     sampler_overflow_active := False, sampler_dropped_lanes := 0, sampler_bit_index := 0,
     sampler_byte_index := 0, sampler_current_byte := 0\<rparr>"

definition sampler_stop_reset :: "sampler \<Rightarrow> sampler" where
  "sampler_stop_reset s = s\<lparr>sampler_ring_head := 0, sampler_ring_tail := 0, sampler_ring_count := 0,
     sampler_overflow_active := False, sampler_bit_index := 0, sampler_byte_index := 0,
     sampler_current_byte := 0\<rparr>"

text \<open>The main loop: the lane it offers to the sender, and the commit after a successful send.\<close>

definition drain_lane :: "sampler \<Rightarrow> u8 list" where
  "drain_lane s = sampler_ring s ! unat (sampler_ring_tail s)"

definition drain_commit :: "sampler \<Rightarrow> sampler" where
  "drain_commit s =
     (let s = s\<lparr>sampler_ring_tail := (sampler_ring_tail s + 1) AND 15\<rparr>
      in if 0 < sampler_ring_count s then s\<lparr>sampler_ring_count := sampler_ring_count s - 1\<rparr> else s)"

definition try_send_sampling_superframe :: "u8 list option \<Rightarrow> usb \<Rightarrow> trace \<Rightarrow> (bool \<times> usb \<times> trace) option" where
  "try_send_sampling_superframe stream_lane u t =
     (let frame = zeros 36;
          frame = (if pending_cmd_ready u then blit frame 0 (pending_cmd_lane u) else frame);
          frame = (case stream_lane of None \<Rightarrow> frame | Some l \<Rightarrow> blit frame 18 l)
      in do {
        (res, u, t) \<leftarrow> MIDI_TrySendResponsePkt_FS (Some frame) 36 u t;
        if res = 0 then Some (True, u\<lparr>pending_cmd_ready := False\<rparr>, t) else Some (False, u, t) })"

section \<open>Well-formedness and the abstract view\<close>

definition byte_bits :: "u8 \<Rightarrow> bool list" where
  "byte_bits b = map (bit b) [0..<8]"

definition lane_bits :: "u8 list \<Rightarrow> bool list" where
  "lane_bits lane = concat (map byte_bits lane)"

definition cur_lane :: "sampler \<Rightarrow> u8 list" where
  "cur_lane s = (if sampler_overflow_active s then sampler_overflow_lane s
                 else sampler_ring s ! unat (sampler_ring_head s))"

definition samp_shape :: "sampler \<Rightarrow> bool" where
  "samp_shape s \<longleftrightarrow> length (sampler_ring s) = 16 \<and> (\<forall>l \<in> set (sampler_ring s). length l = 18) \<and>
     length (sampler_overflow_lane s) = 18 \<and>
     sampler_ring_head s < 16 \<and> sampler_ring_tail s < 16 \<and> sampler_ring_count s \<le> 16 \<and>
     unat (sampler_ring_head s) = (unat (sampler_ring_tail s) + unat (sampler_ring_count s)) mod 16 \<and>
     (\<not> sampler_overflow_active s \<longrightarrow> sampler_ring_count s < 16)"

definition samp_wf :: "sampler \<Rightarrow> bool" where
  "samp_wf s \<longleftrightarrow> samp_shape s \<and> sampler_bit_index s < 8 \<and> sampler_byte_index s < 18 \<and>
     (\<forall>i. unat (sampler_bit_index s) \<le> i \<longrightarrow> \<not> bit (sampler_current_byte s) i)"

text \<open>The queue of complete lanes, and the samples of the lane being filled.\<close>

definition samp_queue :: "sampler \<Rightarrow> u8 list list" where
  "samp_queue s = map (\<lambda>k. sampler_ring s ! ((unat (sampler_ring_tail s) + k) mod 16))
     [0..<unat (sampler_ring_count s)]"

definition samp_partial :: "sampler \<Rightarrow> bool list" where
  "samp_partial s = lane_bits (take (unat (sampler_byte_index s)) (cur_lane s)) @
     map (bit (sampler_current_byte s)) [0..<unat (sampler_bit_index s)]"

record asamp =
  windows :: "bool list list"
  filling :: "bool list"
  skipping :: bool

definition samp_abs :: "sampler \<Rightarrow> asamp" where
  "samp_abs s = \<lparr>windows = map lane_bits (samp_queue s), filling = samp_partial s,
     skipping = sampler_overflow_active s\<rparr>"

text \<open>One tick of the abstract sampler with capacity 16.\<close>

definition atick :: "bool \<Rightarrow> asamp \<Rightarrow> asamp" where
  "atick b a =
     (let w = filling a @ [b] in
      if length w < 144 then a\<lparr>filling := w\<rparr>
      else if skipping a then a\<lparr>filling := [], skipping := \<not> length (windows a) < 16\<rparr>
      else a\<lparr>filling := [], windows := windows a @ [w], skipping := 16 \<le> Suc (length (windows a))\<rparr>)"

section \<open>The interrupt handler refines the abstract tick\<close>

lemma length_byte_bits [simp]: "length (byte_bits b) = 8"
  by (simp add: byte_bits_def)

lemma lane_bits_append [simp]: "lane_bits (xs @ ys) = lane_bits xs @ lane_bits ys"
  by (simp add: lane_bits_def)

lemma lane_bits_simps [simp]: "lane_bits [] = []" "lane_bits (b # bs) = byte_bits b @ lane_bits bs"
  by (simp_all add: lane_bits_def)

lemma length_lane_bits [simp]: "length (lane_bits xs) = 8 * length xs"
  by (induction xs) simp_all

lemma and_15_u8: "unat ((x + 1 :: u8) AND 15) = Suc (unat x) mod 16"
proof -
  have "(x + 1) AND 15 = take_bit 4 (x + 1)"
    by (simp add: take_bit_eq_mask mask_numeral)
  then show ?thesis
    by (simp add: unsigned_take_bit_eq unat_word_ariths take_bit_eq_mod mod_mod_cancel)
qed

lemma samp_shape_bounds:
  assumes "samp_shape s"
  shows "unat (sampler_ring_head s) < 16" "unat (sampler_ring_tail s) < 16"
    "unat (sampler_ring_count s) \<le> 16"
    "\<not> sampler_overflow_active s \<Longrightarrow> unat (sampler_ring_count s) < 16"
    "length (sampler_ring s) = 16" "length (sampler_overflow_lane s) = 18"
    "i < 16 \<Longrightarrow> length (sampler_ring s ! i) = 18"
    "unat (sampler_ring_head s) = (unat (sampler_ring_tail s) + unat (sampler_ring_count s)) mod 16"
  using assms by (auto simp: samp_shape_def word_less_nat_alt word_le_nat_alt)

lemma samp_wf_bounds:
  assumes "samp_wf s"
  shows "samp_shape s" "unat (sampler_bit_index s) < 8" "unat (sampler_byte_index s) < 18"
    "unat (sampler_bit_index s) \<le> i \<Longrightarrow> \<not> bit (sampler_current_byte s) i"
  using assms by (auto simp: samp_wf_def word_less_nat_alt)

lemma length_cur_lane: "samp_shape s \<Longrightarrow> length (cur_lane s) = 18"
  by (simp add: cur_lane_def samp_shape_bounds)

lemma length_samp_partial:
  "samp_wf s \<Longrightarrow> length (samp_partial s) = 8 * unat (sampler_byte_index s) + unat (sampler_bit_index s)"
  using samp_wf_bounds(3) [of s] by (simp add: samp_partial_def length_cur_lane samp_wf_bounds)

lemma unat_Suc_u8: "unat x < 255 \<Longrightarrow> unat (x + 1 :: u8) = Suc (unat x)"
  by (simp add: unat_word_ariths)

lemma mod16_neq: "k < n \<Longrightarrow> n < 16 \<Longrightarrow> (t + k) mod 16 \<noteq> (t + n) mod (16 :: nat)"
proof
  assume kn: "k < n" "n < 16" and "(t + k) mod 16 = (t + n) mod 16"
  then have "(t + n) mod 16 = (t + k) mod 16" by simp
  then have "16 dvd (t + n) - (t + k)"
    using kn by (subst (asm) mod_eq_dvd_iff_nat) simp_all
  with kn show False by (auto dest: dvd_imp_le)
qed

text \<open>The bits of the byte being assembled after one more sample.\<close>

lemma cur_byte_bits:
  fixes cur :: u8 and b :: bool
  assumes "\<And>i. n \<le> i \<Longrightarrow> \<not> bit cur i" "n < 8"
  defines "cur' \<equiv> (if b then cur OR push_bit n 1 else cur)"
  shows "map (bit cur') [0..<Suc n] = map (bit cur) [0..<n] @ [b]"
    and "Suc n \<le> i \<Longrightarrow> \<not> bit cur' i"
  using assms by (auto simp: bit_simps)

lemma samp_store_spec:
  assumes "samp_shape s" "unat (sampler_byte_index s) < 18"
  shows "samp_shape (samp_store s)"
    "cur_lane (samp_store s) = (cur_lane s)[unat (sampler_byte_index s) := sampler_current_byte s]"
    "samp_queue (samp_store s) = samp_queue s"
    "sampler_overflow_active (samp_store s) = sampler_overflow_active s"
    "sampler_bit_index (samp_store s) = sampler_bit_index s"
    "sampler_byte_index (samp_store s) = sampler_byte_index s"
    "sampler_ring_count (samp_store s) = sampler_ring_count s"
    "sampler_dropped_lanes (samp_store s) = sampler_dropped_lanes s"
    "samplerPin (samp_store s) = samplerPin s"
proof -
  note b = samp_shape_bounds [OF assms(1)]
  show "samp_shape (samp_store s)"
    using assms(1) b(1,7)
    by (auto simp: samp_shape_def samp_store_def dest!: set_update_subset_insert [THEN subsetD])
  show "cur_lane (samp_store s) = (cur_lane s)[unat (sampler_byte_index s) := sampler_current_byte s]"
    using b by (simp add: cur_lane_def samp_store_def)
  show "samp_queue (samp_store s) = samp_queue s"
  proof (cases "sampler_overflow_active s")
    case False
    then show ?thesis
      using b(4,8) mod16_neq [THEN not_sym, of _ "unat (sampler_ring_count s)" "unat (sampler_ring_tail s)"]
      by (auto simp: samp_queue_def samp_store_def)
  qed (simp add: samp_queue_def samp_store_def)
qed (simp_all add: samp_store_def)

lemma samp_queue_length [simp]: "length (samp_queue s) = unat (sampler_ring_count s)"
  by (simp add: samp_queue_def)

text \<open>Committing a complete lane.\<close>

lemma samp_commit_spec:
  assumes "samp_shape s"
  shows "samp_shape (samp_commit s) \<and>
    (if sampler_overflow_active s
     then samp_queue (samp_commit s) = samp_queue s \<and>
       (sampler_overflow_active (samp_commit s) \<longleftrightarrow> \<not> length (samp_queue s) < 16)
     else samp_queue (samp_commit s) = samp_queue s @ [cur_lane s] \<and>
       (sampler_overflow_active (samp_commit s) \<longleftrightarrow> 16 \<le> Suc (length (samp_queue s)))) \<and>
    sampler_bit_index (samp_commit s) = sampler_bit_index s \<and>
    sampler_byte_index (samp_commit s) = sampler_byte_index s \<and>
    sampler_current_byte (samp_commit s) = sampler_current_byte s \<and>
    sampler_dropped_lanes (samp_commit s) = sampler_dropped_lanes s"
proof -
  note b = samp_shape_bounds [OF assms]
  show ?thesis
  proof (cases "sampler_overflow_active s")
    case True
    then show ?thesis
      using assms by (auto simp: samp_commit_def samp_shape_def samp_queue_def word_less_nat_alt)
  next
    case False
    then have c: "unat (sampler_ring_count s) < 16" using b(4) by simp
    then have c1: "unat (sampler_ring_count s + 1) = Suc (unat (sampler_ring_count s))"
      by (intro unat_Suc_u8) simp
    let ?s = "s\<lparr>sampler_ring_count := sampler_ring_count s + 1, sampler_ring_head := (sampler_ring_head s + 1) AND 15\<rparr>"
    have eq: "samp_commit s = (if 16 \<le> sampler_ring_count s + 1 then ?s\<lparr>sampler_overflow_active := True\<rparr> else ?s)"
      using False c by (auto simp: samp_commit_def Let_def word_le_nat_alt)
    have h: "unat ((sampler_ring_head s + 1) AND 15) = (unat (sampler_ring_tail s) + Suc (unat (sampler_ring_count s))) mod 16"
      by (simp add: and_15_u8 b(8) mod_Suc_eq)
    then have "unat ((sampler_ring_head s + 1) AND 15) < 16" by simp
    then have h2: "(sampler_ring_head s + 1) AND 15 < 16" by (simp add: word_less_nat_alt)
    have q: "samp_queue ?s = samp_queue s @ [cur_lane s]"
      using False by (simp add: samp_queue_def c1 cur_lane_def b(8))
    have sh: "samp_shape (?s\<lparr>sampler_overflow_active := x\<rparr>)" if "x \<or> Suc (unat (sampler_ring_count s)) < 16" for x
      using assms h h2 c that by (auto simp: samp_shape_def word_less_nat_alt word_le_nat_alt c1)
    have q2: "samp_queue (?s\<lparr>sampler_overflow_active := x\<rparr>) = samp_queue ?s" for x
      by (simp add: samp_queue_def)
    have same: "?s\<lparr>sampler_overflow_active := False\<rparr> = ?s"
      using False by (cases s) simp
    show ?thesis
      using False sh [of False] sh [of True] q q2 c1 by (auto simp: eq same word_le_nat_alt)
  qed
qed

definition sample_of :: "u32 \<Rightarrow> sampler \<Rightarrow> bool" where
  "sample_of idr s \<longleftrightarrow> idr AND ucast (samplerPin s) \<noteq> 0"

lemma atick_simps:
  "length (filling a) < 143 \<Longrightarrow> atick b a = a\<lparr>filling := filling a @ [b]\<rparr>"
  "length (filling a) = 143 \<Longrightarrow> skipping a \<Longrightarrow>
     atick b a = a\<lparr>filling := [], skipping := \<not> length (windows a) < 16\<rparr>"
  "length (filling a) = 143 \<Longrightarrow> \<not> skipping a \<Longrightarrow>
     atick b a = a\<lparr>filling := [], windows := windows a @ [filling a @ [b]], skipping := 16 \<le> Suc (length (windows a))\<rparr>"
  by (simp_all add: atick_def Let_def)

lemma samp_abs_fields [simp]:
  "windows (samp_abs s) = map lane_bits (samp_queue s)" "filling (samp_abs s) = samp_partial s"
  "skipping (samp_abs s) = sampler_overflow_active s"
  by (simp_all add: samp_abs_def)

lemma isr_refines_lemma:
  assumes wf: "samp_wf s"
  shows "samp_wf (ISR_Sampler_raw idr s) \<and>
    samp_abs (ISR_Sampler_raw idr s) = atick (sample_of idr s) (samp_abs s) \<and>
    (\<exists>xs. samp_queue (ISR_Sampler_raw idr s) = samp_queue s @ xs) \<and>
    sampler_dropped_lanes (ISR_Sampler_raw idr s) = sampler_dropped_lanes s"
proof -
  note b = samp_wf_bounds [OF wf]
  let ?n = "unat (sampler_bit_index s)" and ?m = "unat (sampler_byte_index s)"
  let ?b = "sample_of idr s"
  define cur where "cur = (if ?b then sampler_current_byte s OR push_bit ?n 1 else sampler_current_byte s)"
  define s1 where "s1 = s\<lparr>sampler_current_byte := cur, sampler_bit_index := sampler_bit_index s + 1\<rparr>"
  have cur: "map (bit cur) [0..<Suc ?n] = map (bit (sampler_current_byte s)) [0..<?n] @ [?b]"
      "\<And>i. Suc ?n \<le> i \<Longrightarrow> \<not> bit cur i"
    using cur_byte_bits [OF b(4) b(2), where b = ?b] unfolding cur_def by blast+
  have n1: "unat (sampler_bit_index s + 1) = Suc ?n" using b(2) by (intro unat_Suc_u8) simp
  have m1: "unat (sampler_byte_index s + 1) = Suc ?m" using b(3) by (intro unat_Suc_u8) simp
  have isr: "ISR_Sampler_raw idr s =
      (if sampler_bit_index s + 1 < 8 then s1
       else let s = samp_store (s1\<lparr>sampler_bit_index := 0\<rparr>);
                s = s\<lparr>sampler_current_byte := 0, sampler_byte_index := sampler_byte_index s + 1\<rparr>
            in if sampler_byte_index s < 18 then s else samp_commit (s\<lparr>sampler_byte_index := 0\<rparr>))"
    unfolding ISR_Sampler_raw_def s1_def cur_def sample_of_def Let_def by simp
  have len: "length (samp_partial s) = 8 * ?m + ?n" by (rule length_samp_partial [OF wf])
  show ?thesis
  proof (cases "Suc ?n < 8")
    case True
    then have eq: "ISR_Sampler_raw idr s = s1" using n1 by (simp add: isr word_less_nat_alt)
    have sh: "samp_shape s1" using b(1) by (simp add: s1_def samp_shape_def)
    have "samp_wf s1" using sh wf cur(2) n1 True
      by (simp add: samp_wf_def s1_def word_less_nat_alt)
    moreover have "samp_partial s1 = samp_partial s @ [?b]"
      using cur(1) n1 by (simp add: samp_partial_def s1_def cur_lane_def del: upt_Suc)
    moreover have "length (samp_partial s) < 143" using len b(3) True by simp
    ultimately show ?thesis
      by (simp add: eq samp_abs_def atick_simps) (simp add: s1_def samp_queue_def)
  next
    case False
    with b(2) have n7: "?n = 7" by simp
    define s2 where "s2 = samp_store (s1\<lparr>sampler_bit_index := 0\<rparr>)"
    have sh1: "samp_shape (s1\<lparr>sampler_bit_index := 0\<rparr>)" using b(1) by (simp add: s1_def samp_shape_def)
    have lt: "unat (sampler_byte_index (s1\<lparr>sampler_bit_index := 0\<rparr>)) < 18" using b(3) by (simp add: s1_def)
    note st = samp_store_spec [OF sh1 lt, folded s2_def]
    have lane1: "cur_lane (s1\<lparr>sampler_bit_index := 0\<rparr>) = cur_lane s" by (simp add: s1_def cur_lane_def)
    have lane2: "take (Suc ?m) (cur_lane s2) = take ?m (cur_lane s) @ [cur]"
      using b(3) length_cur_lane [OF b(1)] st(2) lane1
      by (simp add: s1_def take_Suc_conv_app_nth)
    have bits2: "lane_bits (take (Suc ?m) (cur_lane s2)) = samp_partial s @ [?b]"
      using cur(1) n7 by (simp add: lane2 samp_partial_def byte_bits_def eval_nat_numeral)
    have q2: "samp_queue s2 = samp_queue s" using st(3) by (simp add: s1_def samp_queue_def)
    have f2: "sampler_overflow_active s2 = sampler_overflow_active s" "sampler_byte_index s2 = sampler_byte_index s"
      using st by (simp_all add: s1_def)
    have d2: "sampler_dropped_lanes s2 = sampler_dropped_lanes s"
      using st(8) by (simp add: s1_def)
    define s3 where "s3 = s2\<lparr>sampler_current_byte := 0, sampler_byte_index := sampler_byte_index s2 + 1\<rparr>"
    have eq: "ISR_Sampler_raw idr s =
        (if sampler_byte_index s3 < 18 then s3 else samp_commit (s3\<lparr>sampler_byte_index := 0\<rparr>))"
      using n1 n7 by (simp add: isr s2_def s3_def Let_def word_less_nat_alt)
    have b3: "unat (sampler_byte_index s3) = Suc ?m" using f2 m1 by (simp add: s3_def)
    show ?thesis
    proof (cases "Suc ?m < 18")
      case True
      then have eq3: "ISR_Sampler_raw idr s = s3" using b3 by (simp add: eq word_less_nat_alt)
      have "samp_wf s3" using st(1,5) b3 True
        by (simp add: samp_wf_def s3_def samp_shape_def s1_def word_less_nat_alt)
      moreover have "samp_partial s3 = samp_partial s @ [?b]"
      proof -
        have "cur_lane s3 = cur_lane s2" "sampler_bit_index s3 = 0"
          using st(5) by (simp_all add: s3_def cur_lane_def s1_def)
        then show ?thesis unfolding bits2 [symmetric] by (simp add: samp_partial_def b3)
      qed
      moreover have "length (samp_partial s) < 143" using len True n7 by simp
      ultimately show ?thesis
        using q2 f2 d2 by (simp add: eq3 samp_abs_def atick_simps) (simp add: s3_def samp_queue_def)
    next
      case False
      with b(3) have m17: "?m = 17" by simp
      define s4 where "s4 = s3\<lparr>sampler_byte_index := 0\<rparr>"
      have eq4: "ISR_Sampler_raw idr s = samp_commit s4"
        using b3 m17 by (simp add: eq s4_def word_less_nat_alt)
      have sh4: "samp_shape s4" using st(1) by (simp add: s4_def s3_def samp_shape_def)
      have z4: "sampler_bit_index s4 = 0" "sampler_byte_index s4 = 0" "sampler_current_byte s4 = 0"
        using st(5) by (simp_all add: s4_def s3_def s1_def)
      have f4: "sampler_overflow_active s4 = sampler_overflow_active s" using f2 by (simp add: s4_def s3_def)
      have d4: "sampler_dropped_lanes s4 = sampler_dropped_lanes s" using d2 by (simp add: s4_def s3_def)
      have l4: "cur_lane s4 = cur_lane s2" by (simp add: s4_def s3_def cur_lane_def)
      have q4: "samp_queue s4 = samp_queue s" using q2 by (simp add: s4_def s3_def samp_queue_def)
      have lane4: "lane_bits (cur_lane s4) = samp_partial s @ [?b]"
        using bits2 length_cur_lane [OF st(1)] m17 by (simp add: l4)
      have len': "length (samp_partial s) = 143" using len m17 n7 by simp
      note cm = samp_commit_spec [OF sh4]
      have wf': "samp_wf (samp_commit s4)" using cm z4 by (simp add: samp_wf_def)
      have part: "samp_partial (samp_commit s4) = []" using cm z4 by (simp add: samp_partial_def)
      show ?thesis
      proof (cases "sampler_overflow_active s")
        case True
        have "atick ?b (samp_abs s) = (samp_abs s)\<lparr>filling := [], skipping := \<not> length (samp_queue s) < 16\<rparr>"
          using True len' by (subst atick_simps(2)) simp_all
        then show ?thesis
          using True wf' part cm f4 d4 q4 by (simp add: eq4 samp_abs_def)
      next
        case False
        have "atick ?b (samp_abs s) = (samp_abs s)\<lparr>filling := [],
            windows := windows (samp_abs s) @ [samp_partial s @ [?b]], skipping := 16 \<le> Suc (length (samp_queue s))\<rparr>"
          using False len' by (subst atick_simps(3)) simp_all
        then show ?thesis
          using False wf' part cm f4 d4 q4 lane4 by (simp add: eq4 samp_abs_def)
      qed
    qed
  qed
qed

lemma drain_commit_spec:
  assumes "samp_wf s" "0 < unat (sampler_ring_count s)"
  shows "samp_wf (drain_commit s) \<and> samp_queue (drain_commit s) = tl (samp_queue s) \<and>
    samp_partial (drain_commit s) = samp_partial s \<and>
    sampler_overflow_active (drain_commit s) = sampler_overflow_active s \<and>
    sampler_dropped_lanes (drain_commit s) = sampler_dropped_lanes s \<and>
    drain_lane s = hd (samp_queue s)"
proof -
  note b = samp_shape_bounds [OF samp_wf_bounds(1) [OF assms(1)]]
  let ?c = "unat (sampler_ring_count s)" and ?t = "unat (sampler_ring_tail s)"
  have c: "unat (sampler_ring_count s - 1) = ?c - 1"
    using assms(2) by (simp add: unat_sub_if')
  have t: "unat ((sampler_ring_tail s + 1) AND 15) = Suc ?t mod 16" by (rule and_15_u8)
  have eq: "drain_commit s = s\<lparr>sampler_ring_tail := (sampler_ring_tail s + 1) AND 15,
      sampler_ring_count := sampler_ring_count s - 1\<rparr>"
    using assms(2) by (simp add: drain_commit_def Let_def word_less_nat_alt)
  have h: "unat (sampler_ring_head s) = (Suc ?t mod 16 + (?c - 1)) mod 16"
  proof -
    have "Suc ?t + (?c - 1) = ?t + ?c" using assms(2) by simp
    then show ?thesis using b(8) by (simp only: mod_add_left_eq)
  qed
  have sl: "Suc ?t mod 16 < 16" by simp
  have "samp_wf (drain_commit s)"
    using assms b h unfolding eq
    by (simp add: samp_wf_def samp_shape_def word_less_nat_alt word_le_nat_alt c t sl less_imp_diff_less)
  moreover have "samp_queue (drain_commit s) = tl (samp_queue s)"
  proof -
    have u: "[0..<?c] = 0 # map Suc [0..<?c - 1]"
      using assms(2) by (simp add: upt_conv_Cons map_Suc_upt)
    show ?thesis
      unfolding eq samp_queue_def u by (simp add: c t mod_add_left_eq)
  qed
  moreover have "drain_lane s = hd (samp_queue s)"
    using assms(2) b(2) by (simp add: drain_lane_def samp_queue_def hd_map)
  ultimately show ?thesis by (simp add: eq samp_partial_def cur_lane_def)
qed

section \<open>Interrupt and main loop interleaved\<close>

text \<open>
  \<open>samp_reach bs out offered gap s\<close>: after the samples \<open>bs\<close> were taken since \<open>SAMPLE START\<close>, the
  lanes \<open>out\<close> were accepted by the USB driver, \<open>offered\<close> is the lane that the main loop is
  handing to it right now, and \<open>gap\<close> tells whether the ring was ever full. Ticks may fall between
  reading the lane, sending it and committing the tail.
\<close>

definition samp_alloc :: "sampler \<Rightarrow> bool" where
  "samp_alloc s \<longleftrightarrow> length (sampler_ring s) = 16 \<and> (\<forall>l \<in> set (sampler_ring s). length l = 18) \<and>
     length (sampler_overflow_lane s) = 18"

inductive samp_reach :: "bool list \<Rightarrow> u8 list list \<Rightarrow> u8 list option \<Rightarrow> bool \<Rightarrow> sampler \<Rightarrow> bool" where
  start: "samp_alloc s \<Longrightarrow> samp_reach [] [] None False (sampler_start_reset s)"
| tick: "samp_reach bs out offered gap s \<Longrightarrow>
    samp_reach (bs @ [sample_of idr s]) out offered
      (gap \<or> sampler_overflow_active (ISR_Sampler_raw idr s)) (ISR_Sampler_raw idr s)"
| offer: "samp_reach bs out None gap s \<Longrightarrow> 0 < sampler_ring_count s \<Longrightarrow>
    samp_reach bs out (Some (drain_lane s)) gap s"
| sent: "samp_reach bs out (Some l) gap s \<Longrightarrow> samp_reach bs (out @ [l]) None gap (drain_commit s)"
| busy: "samp_reach bs out (Some l) gap s \<Longrightarrow> samp_reach bs out None gap s"

definition samp_inv :: "bool list \<Rightarrow> u8 list list \<Rightarrow> u8 list option \<Rightarrow> bool \<Rightarrow> sampler \<Rightarrow> bool" where
  "samp_inv bs out offered gap s \<longleftrightarrow> samp_wf s \<and> sampler_dropped_lanes s = 0 \<and>
    (sampler_overflow_active s \<longrightarrow> gap) \<and>
    (\<forall>l. offered = Some l \<longrightarrow> samp_queue s \<noteq> [] \<and> hd (samp_queue s) = l) \<and>
    (\<exists>ws. bs = concat ws @ samp_partial s \<and> (\<forall>w \<in> set ws. length w = 144) \<and>
       subseq (map lane_bits (out @ samp_queue s)) ws \<and>
       (\<not> gap \<longrightarrow> map lane_bits (out @ samp_queue s) = ws))"

lemma samp_start_wf:
  "samp_alloc s \<Longrightarrow> samp_wf (sampler_start_reset s) \<and> samp_queue (sampler_start_reset s) = [] \<and>
     samp_partial (sampler_start_reset s) = [] \<and> \<not> sampler_overflow_active (sampler_start_reset s) \<and>
     sampler_dropped_lanes (sampler_start_reset s) = 0"
  by (simp add: samp_alloc_def samp_wf_def samp_shape_def sampler_start_reset_def samp_queue_def
      samp_partial_def)

text \<open>What one tick does to the queue and the window being filled.\<close>

lemma isr_cases:
  assumes "samp_wf s"
  shows "(samp_queue (ISR_Sampler_raw idr s) = samp_queue s \<and>
      samp_partial (ISR_Sampler_raw idr s) = samp_partial s @ [sample_of idr s] \<and>
      sampler_overflow_active (ISR_Sampler_raw idr s) = sampler_overflow_active s) \<or>
    (length (samp_partial s) = 143 \<and> samp_partial (ISR_Sampler_raw idr s) = [] \<and>
      (if sampler_overflow_active s then samp_queue (ISR_Sampler_raw idr s) = samp_queue s
       else (sampler_overflow_active (ISR_Sampler_raw idr s) \<longleftrightarrow> 16 \<le> Suc (length (samp_queue s))) \<and>
         (\<exists>l. samp_queue (ISR_Sampler_raw idr s) = samp_queue s @ [l] \<and>
           lane_bits l = samp_partial s @ [sample_of idr s])))"
proof -
  note r = isr_refines_lemma [OF assms, of idr]
  let ?s' = "ISR_Sampler_raw idr s"
  obtain xs where xs: "samp_queue ?s' = samp_queue s @ xs" using r by blast
  have abs: "samp_abs ?s' = atick (sample_of idr s) (samp_abs s)" using r by blast
  have "length (samp_partial s) \<le> 143"
    using length_samp_partial [OF assms] samp_wf_bounds [OF assms] by simp
  then consider (less) "length (samp_partial s) < 143"
    | (full) "length (samp_partial s) = 143" "sampler_overflow_active s"
    | (new) "length (samp_partial s) = 143" "\<not> sampler_overflow_active s"
    by linarith
  then show ?thesis
  proof cases
    case less
    then have "samp_abs ?s' = (samp_abs s)\<lparr>filling := samp_partial s @ [sample_of idr s]\<rparr>"
      using abs by (simp add: atick_simps(1))
    with xs show ?thesis by (simp add: samp_abs_def)
  next
    case full
    then have "samp_abs ?s' = (samp_abs s)\<lparr>filling := [], skipping := \<not> length (windows (samp_abs s)) < 16\<rparr>"
      using abs by (simp add: atick_simps(2))
    with xs full show ?thesis by (simp add: samp_abs_def)
  next
    case new
    then have "samp_abs ?s' = (samp_abs s)\<lparr>filling := [],
        windows := windows (samp_abs s) @ [samp_partial s @ [sample_of idr s]],
        skipping := 16 \<le> Suc (length (windows (samp_abs s)))\<rparr>"
      using abs by (simp add: atick_simps(3))
    with xs new show ?thesis by (cases xs) (auto simp: samp_abs_def)
  qed
qed

lemma samp_inv_tick:
  assumes "samp_inv bs out offered gap s"
  shows "samp_inv (bs @ [sample_of idr s]) out offered
    (gap \<or> sampler_overflow_active (ISR_Sampler_raw idr s)) (ISR_Sampler_raw idr s)"
proof -
  let ?s' = "ISR_Sampler_raw idr s"
  have wf: "samp_wf s" using assms by (simp add: samp_inv_def)
  note r = isr_refines_lemma [OF wf, of idr]
  obtain ws where ws: "bs = concat ws @ samp_partial s" "\<forall>w \<in> set ws. length w = 144"
    "subseq (map lane_bits (out @ samp_queue s)) ws"
    "\<not> gap \<Longrightarrow> map lane_bits (out @ samp_queue s) = ws"
    using assms by (auto simp: samp_inv_def)
  have off: "\<forall>l. offered = Some l \<longrightarrow> samp_queue ?s' \<noteq> [] \<and> hd (samp_queue ?s') = l"
    using assms r by (auto simp: samp_inv_def)
  have d: "sampler_dropped_lanes ?s' = 0" using assms r by (simp add: samp_inv_def)
  let ?w = "samp_partial s @ [sample_of idr s]"
  have "\<exists>ws'. bs @ [sample_of idr s] = concat ws' @ samp_partial ?s' \<and> (\<forall>w \<in> set ws'. length w = 144) \<and>
    subseq (map lane_bits (out @ samp_queue ?s')) ws' \<and>
    (\<not> (gap \<or> sampler_overflow_active ?s') \<longrightarrow> map lane_bits (out @ samp_queue ?s') = ws')"
    using isr_cases [OF wf, of idr]
  proof (elim disjE conjE)
    assume "samp_queue ?s' = samp_queue s" "samp_partial ?s' = ?w"
    then show ?thesis using ws by (intro exI [of _ ws]) auto
  next
    assume f: "length (samp_partial s) = 143" "samp_partial ?s' = []"
      and q: "if sampler_overflow_active s then samp_queue ?s' = samp_queue s
        else (sampler_overflow_active ?s' \<longleftrightarrow> 16 \<le> Suc (length (samp_queue s))) \<and>
          (\<exists>l. samp_queue ?s' = samp_queue s @ [l] \<and> lane_bits l = ?w)"
    have g: "sampler_overflow_active s \<Longrightarrow> gap" using assms by (simp add: samp_inv_def)
    show ?thesis
    proof (cases "sampler_overflow_active s")
      case True
      then show ?thesis using f q ws g
        by (intro exI [of _ "ws @ [?w]"]) (auto intro: subseq_rev_drop_many)
    next
      case False
      then obtain l where l: "samp_queue ?s' = samp_queue s @ [l]" "lane_bits l = ?w" using q by auto
      have "subseq (map lane_bits (out @ samp_queue s) @ [?w]) (ws @ [?w])"
        using ws(3) by (intro list_emb_append_mono) simp_all
      then show ?thesis using f l ws
        by (intro exI [of _ "ws @ [?w]"]) auto
    qed
  qed
  then show ?thesis using r off d by (simp add: samp_inv_def)
qed

lemma samp_reach_inv: "samp_reach bs out offered gap s \<Longrightarrow> samp_inv bs out offered gap s"
proof (induction rule: samp_reach.induct)
  case (start s)
  then show ?case using samp_start_wf [OF start] by (simp add: samp_inv_def)
next
  case (tick bs out offered gap s idr)
  then show ?case by (intro samp_inv_tick)
next
  case (offer bs out gap s)
  then have "0 < unat (sampler_ring_count s)" "samp_wf s"
    by (simp_all add: samp_inv_def word_less_nat_alt)
  with drain_commit_spec [of s] have "drain_lane s = hd (samp_queue s)" "samp_queue s \<noteq> []"
    using samp_queue_length [of s] by (auto simp del: samp_queue_length)
  with offer show ?case by (simp add: samp_inv_def)
next
  case (sent bs out l gap s)
  then have ne: "samp_queue s \<noteq> []" "hd (samp_queue s) = l" "samp_wf s" by (auto simp: samp_inv_def)
  then have "0 < unat (sampler_ring_count s)" using samp_queue_length [of s] by (cases "samp_queue s") auto
  note c = drain_commit_spec [OF ne(3) this]
  have "(out @ [l]) @ tl (samp_queue s) = out @ samp_queue s" using ne by (cases "samp_queue s") auto
  then show ?case using sent c unfolding samp_inv_def by auto
next
  case (busy bs out l gap s)
  then show ?case by (simp add: samp_inv_def)
qed

section \<open>A capture of one lane\<close>

lemma samplerPin_ISR [simp]: "samplerPin (ISR_Sampler_raw idr s) = samplerPin s"
  by (simp add: ISR_Sampler_raw_def samp_store_def samp_commit_def Let_def)

definition sampler_blank :: sampler where
  "sampler_blank = \<lparr>samplerPort = GPIOA, samplerPin = 1, sampler_ring = replicate 16 (zeros 18),
     sampler_overflow_lane = zeros 18, sampler_ring_head = 3, sampler_ring_tail = 2, sampler_ring_count = 9,
     sampler_overflow_active = True, sampler_dropped_lanes = 0, sampler_bit_index = 1,
     sampler_byte_index = 2, sampler_current_byte = 7\<rparr>"

lemma samp_reach_bits:
  assumes "length bs \<le> 144"
  shows "\<exists>s. samp_reach bs [] None False s \<and> samp_wf s \<and> \<not> sampler_overflow_active s \<and> samplerPin s = 1 \<and>
    (if length bs < 144 then samp_queue s = [] \<and> length (samp_partial s) = length bs
     else length (samp_queue s) = 1)"
  using assms
proof (induction bs rule: rev_induct)
  case Nil
  have "samp_alloc sampler_blank" by (simp add: samp_alloc_def sampler_blank_def)
  note w = samp_start_wf [OF this] and r = samp_reach.start [OF this]
  have "samplerPin (sampler_start_reset sampler_blank) = 1"
    by (simp add: sampler_start_reset_def sampler_blank_def)
  with w r show ?case by auto
next
  case (snoc b bs)
  then obtain s where s: "samp_reach bs [] None False s" "samp_wf s" "\<not> sampler_overflow_active s"
    "samplerPin s = 1" "samp_queue s = []" "length (samp_partial s) = length bs"
    by auto
  define idr :: u32 where "idr = (if b then 1 else 0)"
  have b: "sample_of idr s = b" by (simp add: sample_of_def idr_def s(4))
  let ?s = "ISR_Sampler_raw idr s"
  note c = isr_cases [OF s(2), of idr]
  have wf: "samp_wf ?s" using isr_refines_lemma [OF s(2)] by blast
  have ov: "\<not> sampler_overflow_active ?s" using c s(3,5) by auto
  have "samp_reach (bs @ [b]) [] None False ?s"
    using samp_reach.tick [OF s(1), of idr] ov b by simp
  then show ?case
    using wf ov s c snoc.prems length_samp_partial [OF wf] samp_wf_bounds(2,3) [OF wf]
    by (intro exI [of _ ?s]) (auto simp: b simp del: samp_queue_length)
qed

lemma samp_reach_one_lane:
  assumes "length bs = 144"
  shows "\<exists>s l. samp_reach bs [l] None False s \<and> length l = 18"
proof -
  obtain s where s: "samp_reach bs [] None False s" "samp_wf s" "length (samp_queue s) = 1"
    using samp_reach_bits [of bs] assms by auto
  then have "0 < unat (sampler_ring_count s)" by simp
  then have c: "0 < sampler_ring_count s" by (simp add: word_less_nat_alt)
  have l: "length (drain_lane s) = 18"
    using samp_shape_bounds(2,7) [OF samp_wf_bounds(1) [OF s(2)]] by (simp add: drain_lane_def)
  show ?thesis using samp_reach.sent [OF samp_reach.offer [OF s(1) c]] l by auto
qed

section \<open>Properties\<close>

text \<open>C4: One timer interrupt of the sampler refines one step of the abstract sampler, on every branch:
  the sample is appended to the window being filled; a full window joins the queue of complete lanes
  if the ring is not skipping, or is discarded and skipping ends at that lane boundary if a slot is
  free again. Well-formedness of the ring indices is preserved.\<close>

theorem sampler_isr_refines:
  assumes "samp_wf s"
  shows "samp_wf (ISR_Sampler_raw idr s) \<and>
    samp_abs (ISR_Sampler_raw idr s) = atick (idr AND ucast (samplerPin s) \<noteq> 0) (samp_abs s)"
  using isr_refines_lemma [OF assms, of idr] by (simp add: sample_of_def)

theorem sampler_isr_refines_witness:
  "samp_abs (ISR_Sampler_raw 1 (sampler_start_reset sampler_blank)) =
    \<lparr>windows = [], filling = [True], skipping = False\<rparr>"
proof -
  have "samp_alloc sampler_blank" by (simp add: samp_alloc_def sampler_blank_def)
  note w = samp_start_wf [OF this]
  have "samplerPin (sampler_start_reset sampler_blank) = 1"
    by (simp add: sampler_start_reset_def sampler_blank_def)
  with sampler_isr_refines [of "sampler_start_reset sampler_blank" 1] w show ?thesis
    by (simp add: samp_abs_def atick_def Let_def)
qed

text \<open>C6: However ticks and main-loop drains interleave (ticks may fall between reading a lane, sending
  it and committing it), the lanes accepted by the USB driver and the lanes still queued are whole
  144-sample windows of the sampled signal, aligned and in order; none is torn or sent twice, and as
  long as the ring never filled up none is missing.\<close>

theorem sampler_lanes_are_windows:
  assumes "samp_reach bs out offered gap s"
  shows "\<exists>ws. bs = concat ws @ samp_partial s \<and> (\<forall>w \<in> set ws. length w = 144) \<and> length (samp_partial s) < 144 \<and>
    subseq (map lane_bits (out @ samp_queue s)) ws \<and>
    (\<not> gap \<longrightarrow> map lane_bits (out @ samp_queue s) = ws) \<and>
    (offered \<noteq> None \<longrightarrow> samp_queue s \<noteq> [] \<and> hd (samp_queue s) = the offered)"
proof -
  have i: "samp_inv bs out offered gap s" by (rule samp_reach_inv [OF assms])
  then have wf: "samp_wf s" by (simp add: samp_inv_def)
  have "length (samp_partial s) < 144"
    using length_samp_partial [OF wf] samp_wf_bounds(2,3) [OF wf] by simp
  with i show ?thesis unfolding samp_inv_def by fastforce
qed

theorem sampler_lanes_are_windows_witness:
  "\<exists>s l. samp_reach (replicate 144 True) [l] None False s \<and> lane_bits l = replicate 144 True"
proof -
  obtain s l where r: "samp_reach (replicate 144 True) [l] None False s" "length l = 18"
    using samp_reach_one_lane [of "replicate 144 True"] by auto
  from sampler_lanes_are_windows [OF r(1)] obtain ws where
    "replicate 144 True = concat ws @ samp_partial s" "map lane_bits ([l] @ samp_queue s) = ws" by blast
  then have "take 144 (lane_bits l @ concat (map lane_bits (samp_queue s)) @ samp_partial s) = take 144 (replicate 144 True)"
    by auto
  then have "lane_bits l = replicate 144 True" using r(2) by simp
  with r(1) show ?thesis by blast
qed

text \<open>The counter of dropped lanes is dead code: overflow is entered when the sixteenth lane is
  committed, so the branch that counts a drop is never reached and the counter stays 0 in every
  execution, also in those where lanes were discarded.\<close>

theorem sampler_drop_counter_dead:
  assumes "samp_reach bs out offered gap s"
  shows "sampler_dropped_lanes s = 0 \<and> sampler_dropped_lanes (ISR_Sampler_raw idr s) = 0"
  using samp_reach_inv [OF assms] isr_refines_lemma [of s idr] by (simp add: samp_inv_def)

theorem sampler_drop_counter_dead_witness:
  "\<exists>s. samp_reach (replicate 100 True) [] None False s \<and> sampler_dropped_lanes s = 0"
proof -
  obtain s where r: "samp_reach (replicate 100 True) [] None False s"
    using samp_reach_bits [of "replicate 100 True"] by auto
  with sampler_drop_counter_dead [OF r] show ?thesis by blast
qed

text \<open>The superframe of the sampling loop carries the lane and the pending response, and the
  response is forgotten only when the frame was accepted: if the driver is busy both the lane and
  the response stay for the next round.\<close>

theorem superframe_keeps_response_until_sent:
  assumes "try_send_sampling_superframe (Some lane) u t = Some (ok, u', t')" and "configured u"
    and "length lane = 18" "length (pending_cmd_lane u) = 18"
  shows "if ok then \<not> pending_cmd_ready u' \<and>
      wire u' = wire u @ [usb_frame ((if pending_cmd_ready u then pending_cmd_lane u else zeros 18) @ lane)]
    else wire u' = wire u \<and> pending_cmd_ready u' = pending_cmd_ready u \<and> pending_cmd_lane u' = pending_cmd_lane u"
proof -
  let ?f = "(if pending_cmd_ready u then pending_cmd_lane u else zeros 18) @ lane"
  have fr: "blit (if pending_cmd_ready u then blit (zeros 36) 0 (pending_cmd_lane u) else zeros 36) 18 lane = ?f"
    using assms(3,4) by (auto simp: blit_def zeros_def)
  obtain res u1 t1 where s: "MIDI_TrySendResponsePkt_FS (Some ?f) 36 u t = Some (res, u1, t1)"
    and r: "u' = (if res = 0 then u1\<lparr>pending_cmd_ready := False\<rparr> else u1)" "ok = (res = 0)"
    using assms(1) unfolding try_send_sampling_superframe_def Let_def option.case fr
    by (auto simp: bind_eq_Some_conv split: if_splits)
  note c = trysend_contract [OF s assms(2)]
  show ?thesis using c r tx_erase_fields [of u1 u] by auto
qed

theorem superframe_keeps_response_until_sent_witness:
  "\<exists>u'. try_send_sampling_superframe (Some (zeros 18)) usb_idle [0, 0] = Some (True, u', []) \<and>
     wire u' = [usb_frame (zeros 18 @ zeros 18)]"
proof -
  obtain u' where r: "try_send_sampling_superframe (Some (zeros 18)) usb_idle [0, 0] = Some (True, u', [])"
    by (simp add: try_send_sampling_superframe_def MIDI_TrySendResponsePkt_FS_def usb_idle_eq emw_defs Let_def
        USBD_MIDI_TransmitPacket_def USBD_LL_Transmit_def USBD_Get_USB_Status_def)
  have "\<not> pending_cmd_ready usb_idle" "length (pending_cmd_lane usb_idle) = 18"
    by (simp_all add: usb_idle_eq)
  with superframe_keeps_response_until_sent [OF r] r show ?thesis by simp
qed

end
