(* ===== verification/Playback.thy ===== *)
theory Playback
  imports Sampler
begin

text \<open>
  Retransmit playback (\<open>ISR_Sampler_writing\<close> in \<open>stm/emwaver-firmware/Core/Src/main.c\<close>): on every
  timer tick one bit of the receive ring gates the TIM2 carrier through the channel-enable bit
  of \<open>CCER\<close>. The output of a run of ticks is compared with the bits of the queued bytes, also from
  the states in which the enable bit is set although the handler's flag says that the output is
  off, as TRANSMIT leaves it, and with the host refilling the ring while it plays.
\<close>

record playback =
  tx_bit_index :: u8
  tx_current_byte :: u8
  tx_out_enabled :: bool
  selectedChannelMask :: u16

text \<open>The output update: \<open>CCER\<close> is written only when the bit differs from the cached output state.\<close>

definition gate_output :: "bool \<Rightarrow> playback \<Rightarrow> u32 \<Rightarrow> playback \<times> u32" where
  "gate_output b p ccer =
     (if b then
        (if \<not> tx_out_enabled p
         then (p\<lparr>tx_out_enabled := True\<rparr>, ccer OR ucast (selectedChannelMask p)) else (p, ccer))
      else
        (if tx_out_enabled p
         then (p\<lparr>tx_out_enabled := False\<rparr>, ccer AND ucast (NOT (selectedChannelMask p))) else (p, ccer)))"

definition ISR_Sampler_writing :: "playback \<times> rx_ring \<times> u32 \<Rightarrow> playback \<times> rx_ring \<times> u32" where
  "ISR_Sampler_writing = (\<lambda>(p, r, ccer).
     if 0 < MIDI_GetRxBufferBytesAvailable_FS r then
       let (p, r) = (if tx_bit_index p = 0
                     then (case MIDI_ReadRxBuffer_FS 1 r of
                             (Some bs, r') \<Rightarrow> (p\<lparr>tx_current_byte := bs ! 0\<rparr>, r')
                           | (None, r') \<Rightarrow> (p, r'))
                     else (p, r));
           b = (drop_bit (unat (tx_bit_index p)) (tx_current_byte p) AND 1 \<noteq> 0);
           (p, ccer) = gate_output b p ccer;
           p = p\<lparr>tx_bit_index := tx_bit_index p + 1\<rparr>;
           p = (if 8 \<le> tx_bit_index p then p\<lparr>tx_bit_index := 0\<rparr> else p)
       in (p, r, ccer)
     else
       let (p, ccer) = gate_output False p ccer
       in (p\<lparr>tx_bit_index := 0\<rparr>, r, ccer))"

text \<open>The carrier is gated on when a channel-enable bit of the selected mask is set.\<close>

definition carrier_on :: "playback \<times> rx_ring \<times> u32 \<Rightarrow> bool" where
  "carrier_on = (\<lambda>(p, r, ccer). ccer AND ucast (selectedChannelMask p) \<noteq> 0)"

definition play_wf :: "playback \<times> rx_ring \<times> u32 \<Rightarrow> bool" where
  "play_wf = (\<lambda>(p, r, ccer). rx_wf r \<and> tx_bit_index p < 8 \<and> selectedChannelMask p \<noteq> 0 \<and>
     ccer AND ucast (selectedChannelMask p) \<in> {0, ucast (selectedChannelMask p)} \<and>
     (tx_out_enabled p \<longrightarrow> ccer AND ucast (selectedChannelMask p) = ucast (selectedChannelMask p)))"

text \<open>
  The enable bit is set but the handler's flag says that it is clear: a 0 bit then changes
  nothing, and the carrier stays on until the first 1 bit has brought the flag up to date.
\<close>

definition stuck_on :: "playback \<times> rx_ring \<times> u32 \<Rightarrow> bool" where
  "stuck_on = (\<lambda>(p, r, ccer). \<not> tx_out_enabled p \<and> carrier_on (p, r, ccer))"

fun gated :: "bool \<Rightarrow> bool list \<Rightarrow> bool list" where
  "gated on [] = []"
| "gated on (b # bs) = (b \<or> on) # gated (on \<and> \<not> b) bs"

lemma gated_False [simp]: "gated False bs = bs"
  by (induction bs) simp_all

lemma gated_True: "gated True bs = map (\<lambda>_. True) (takeWhile Not bs) @ dropWhile Not bs"
  by (induction bs) simp_all

lemma length_gated [simp]: "length (gated on bs) = length bs"
  by (induction bs arbitrary: on) simp_all

text \<open>What the playback still owes: the rest of the cached byte, then the queued bytes.\<close>

definition play_bits :: "playback \<times> rx_ring \<times> u32 \<Rightarrow> bool list" where
  "play_bits = (\<lambda>(p, r, ccer).
     (if tx_bit_index p = 0 then [] else map (bit (tx_current_byte p)) [unat (tx_bit_index p)..<8]) @
     lane_bits (rx_contents r))"

lemma and_mask_or: "(x OR m) AND m = (m :: u32)"
  by (rule bit_eqI) (auto simp: bit_simps)

lemma and_mask_not: "(x AND ucast (NOT (m :: u16))) AND ucast m = (0 :: u32)"
  by (rule bit_eqI) (auto simp: bit_simps)

lemma ucast_mask_eq_0 [simp]: "(ucast (m :: u16) :: u32) = 0 \<longleftrightarrow> m = 0"
proof -
  have "unat m < 2 ^ LENGTH(16)" by (rule unsigned_less)
  then have "unat (ucast m :: u32) = unat m"
    by (simp add: unsigned_ucast_eq take_bit_nat_eq_self)
  then show ?thesis by (metis unat_eq_zero)
qed

section \<open>One tick\<close>

lemma gate_output_spec:
  assumes "gate_output b p ccer = (p', ccer')" "play_wf (p, r, ccer)" "rx_wf r'"
  shows "tx_bit_index p' = tx_bit_index p" "tx_current_byte p' = tx_current_byte p"
    "selectedChannelMask p' = selectedChannelMask p" "play_wf (p', r', ccer')"
    "carrier_on (p', q, ccer') = (b \<or> stuck_on (p, r, ccer))"
    "stuck_on (p', q, ccer') = (stuck_on (p, r, ccer) \<and> \<not> b)"
  using assms
  by (auto simp: gate_output_def play_wf_def carrier_on_def stuck_on_def and_mask_or and_mask_not split: if_splits)

text \<open>The bit index does not matter to the output.\<close>

lemma play_wf_index: "play_wf (p, r, ccer) \<Longrightarrow> n < 8 \<Longrightarrow> play_wf (p\<lparr>tx_bit_index := n\<rparr>, r, ccer)"
  by (simp add: play_wf_def)

lemma play_wf_byte: "play_wf (p, r, ccer) \<Longrightarrow> rx_wf r' \<Longrightarrow> play_wf (p\<lparr>tx_current_byte := x\<rparr>, r', ccer)"
  by (simp add: play_wf_def)

lemma out_index_byte [simp]:
  "carrier_on (p\<lparr>tx_bit_index := n\<rparr>, r, ccer) = carrier_on (p, q, ccer)"
  "stuck_on (p\<lparr>tx_bit_index := n\<rparr>, r, ccer) = stuck_on (p, q, ccer)"
  "stuck_on (p\<lparr>tx_current_byte := x\<rparr>, r, ccer) = stuck_on (p, q, ccer)"
  by (simp_all add: carrier_on_def stuck_on_def)

lemma available_pos: "rx_wf r \<Longrightarrow> 0 < MIDI_GetRxBufferBytesAvailable_FS r \<longleftrightarrow> rx_contents r \<noteq> []"
  by (simp add: word_less_nat_alt available_used rx_contents_length [symmetric])

lemma playback_idle:
  assumes "play_wf (p, r, ccer)" "rx_contents r = []"
  shows "play_wf (ISR_Sampler_writing (p, r, ccer)) \<and>
    carrier_on (ISR_Sampler_writing (p, r, ccer)) = stuck_on (p, r, ccer) \<and>
    stuck_on (ISR_Sampler_writing (p, r, ccer)) = stuck_on (p, r, ccer) \<and>
    play_bits (ISR_Sampler_writing (p, r, ccer)) = [] \<and> fst (snd (ISR_Sampler_writing (p, r, ccer))) = r"
proof -
  obtain p' ccer' where g: "gate_output False p ccer = (p', ccer')" by (cases "gate_output False p ccer")
  have w: "rx_wf r" using assms by (simp add: play_wf_def)
  note gs = gate_output_spec [OF g assms(1) w]
  have "ISR_Sampler_writing (p, r, ccer) = (p'\<lparr>tx_bit_index := 0\<rparr>, r, ccer')"
    using assms(2) available_pos [OF w] g by (simp add: ISR_Sampler_writing_def)
  with gs(5,6) [of r] play_wf_index [OF gs(4), of 0] assms(2) show ?thesis
    by (simp add: play_bits_def out_index_byte [where q = r])
qed

lemma bit_via_shift: "(drop_bit n x AND 1 \<noteq> 0) = bit (x :: u8) n"
  by (simp add: and_one_eq bit_iff_odd_drop_bit odd_iff_mod_2_eq_one)

lemma upt_hd: "n < 8 \<Longrightarrow> map f [n..<8] = f n # map f [Suc n..<8]"
  by (simp add: upt_conv_Cons)

text \<open>With a byte available, the tick emits the next owed bit.\<close>

lemma playback_tick:
  assumes "play_wf (p, r, ccer)" "rx_contents r \<noteq> []"
  shows "play_wf (ISR_Sampler_writing (p, r, ccer)) \<and> play_bits (p, r, ccer) \<noteq> [] \<and>
    carrier_on (ISR_Sampler_writing (p, r, ccer)) = (hd (play_bits (p, r, ccer)) \<or> stuck_on (p, r, ccer)) \<and>
    stuck_on (ISR_Sampler_writing (p, r, ccer)) = (stuck_on (p, r, ccer) \<and> \<not> hd (play_bits (p, r, ccer))) \<and>
    play_bits (ISR_Sampler_writing (p, r, ccer)) = tl (play_bits (p, r, ccer)) \<and>
    (tx_bit_index p \<noteq> 0 \<longrightarrow> fst (snd (ISR_Sampler_writing (p, r, ccer))) = r) \<and>
    7 \<le> length (play_bits (ISR_Sampler_writing (p, r, ccer)))"
proof -
  have w: "rx_wf r" "tx_bit_index p < 8" using assms by (simp_all add: play_wf_def)
  have av: "0 < MIDI_GetRxBufferBytesAvailable_FS r" using available_pos assms w by blast
  let ?n = "unat (tx_bit_index p)"
  have n: "?n < 8" using w(2) by (simp add: word_less_nat_alt)
  have l1: "unat (1 :: u16) \<le> length (rx_contents r)" using assms(2) by (cases "rx_contents r") auto
  note rd = rx_read_some [OF w(1) l1]
  obtain p1 r1 where f: "(if tx_bit_index p = 0
      then (case MIDI_ReadRxBuffer_FS 1 r of (Some bs, r') \<Rightarrow> (p\<lparr>tx_current_byte := bs ! 0\<rparr>, r')
            | (None, r') \<Rightarrow> (p, r')) else (p, r)) = (p1, r1)"
    by (rule prod.exhaust)
  have p1: "tx_bit_index p1 = tx_bit_index p" "stuck_on (p1, r1, ccer) = stuck_on (p, r, ccer)"
      "tx_current_byte p1 = (if tx_bit_index p = 0 then hd (rx_contents r) else tx_current_byte p)"
      "rx_wf r1" "rx_contents r1 = (if tx_bit_index p = 0 then tl (rx_contents r) else rx_contents r)"
      "tx_bit_index p \<noteq> 0 \<Longrightarrow> r1 = r" "play_wf (p1, r1, ccer)"
    using f rd assms w play_wf_byte [OF assms(1)]
    by (auto split: if_splits prod.splits option.splits simp: drop_Suc take_Suc out_index_byte [where q = r])
  let ?b = "bit (tx_current_byte p1) ?n"
  obtain p2 ccer2 where g: "gate_output ?b p1 ccer = (p2, ccer2)" by (cases "gate_output ?b p1 ccer")
  note gs = gate_output_spec [OF g p1(7,4)]
  let ?m = "if 8 \<le> tx_bit_index p + 1 then 0 else tx_bit_index p + 1"
  let ?p3 = "p2\<lparr>tx_bit_index := ?m\<rparr>"
  have eq: "ISR_Sampler_writing (p, r, ccer) = (?p3, r1, ccer2)"
    using av f g gs p1 by (simp add: ISR_Sampler_writing_def bit_via_shift Let_def)
  have n1: "unat (tx_bit_index p + 1) = Suc ?n" using n by (intro unat_Suc_u8) simp
  have idx: "8 \<le> tx_bit_index p + 1 \<longleftrightarrow> ?n = 7" "tx_bit_index p + 1 \<noteq> 0"
    "tx_bit_index p = 0 \<longleftrightarrow> ?n = 0"
    using n n1 by (auto simp: word_le_nat_alt unat_eq_zero)
  have bits: "play_bits (p, r, ccer) = ?b # (map (bit (tx_current_byte p1)) [Suc ?n..<8] @ lane_bits (rx_contents r1))"
  proof (cases "tx_bit_index p = 0")
    case True
    then show ?thesis
      using assms(2) p1 by (cases "rx_contents r") (simp_all add: play_bits_def byte_bits_def upt_hd)
  next
    case False
    then show ?thesis using p1 n by (simp add: play_bits_def upt_hd)
  qed
  have bits': "play_bits (?p3, r1, ccer2) = map (bit (tx_current_byte p1)) [Suc ?n..<8] @ lane_bits (rx_contents r1)"
    using gs n idx n1 p1 by (auto simp: play_bits_def)
  have left: "7 \<le> length (play_bits (?p3, r1, ccer2))"
    using bits' p1(5) assms(2) n idx(3) by (cases "rx_contents r") auto
  have wf: "play_wf (?p3, r1, ccer2)"
    using play_wf_index [OF gs(4), of ?m] w(2) idx n1 n by (auto simp: word_less_nat_alt word_le_nat_alt)
  have on: "carrier_on (?p3, r1, ccer2) = (?b \<or> stuck_on (p, r, ccer))"
    "stuck_on (?p3, r1, ccer2) = (stuck_on (p, r, ccer) \<and> \<not> ?b)"
    using gs(5,6) [of r1] p1(2) by (simp_all add: out_index_byte [where q = r1])
  show ?thesis unfolding eq using bits bits' wf on p1(6) left by simp
qed

section \<open>A run of ticks\<close>

fun play_run :: "nat \<Rightarrow> playback \<times> rx_ring \<times> u32 \<Rightarrow> bool list \<times> playback \<times> rx_ring \<times> u32" where
  "play_run 0 st = ([], st)"
| "play_run (Suc n) st =
     (let st = ISR_Sampler_writing st; (outs, st') = play_run n st in (carrier_on st # outs, st'))"

lemma play_run_Suc:
  "fst (play_run (Suc n) st) = carrier_on (ISR_Sampler_writing st) # fst (play_run n (ISR_Sampler_writing st))"
  by (simp add: Let_def split: prod.splits)

text \<open>How many ticks can pass before the ring runs dry.\<close>

definition play_ticks :: "playback \<times> rx_ring \<times> u32 \<Rightarrow> nat" where
  "play_ticks = (\<lambda>(p, r, ccer).
     if rx_contents r = [] then 0
     else (if tx_bit_index p = 0 then 0 else 8 - unat (tx_bit_index p)) + 8 * (length (rx_contents r) - 1) + 1)"

lemma playback_ticks_step:
  assumes "play_wf (p, r, ccer)" "rx_contents r \<noteq> []"
  shows "play_ticks (ISR_Sampler_writing (p, r, ccer)) = play_ticks (p, r, ccer) - 1"
proof -
  obtain p' r' c' where e: "ISR_Sampler_writing (p, r, ccer) = (p', r', c')"
    by (cases "ISR_Sampler_writing (p, r, ccer)")
  note t = playback_tick [OF assms]
  have wf': "play_wf (p', r', c')" using t e by simp
  have n: "unat (tx_bit_index p) < 8" "unat (tx_bit_index p') < 8"
    using assms(1) wf' by (simp_all add: play_wf_def word_less_nat_alt)
  have z: "tx_bit_index p = 0 \<longleftrightarrow> unat (tx_bit_index p) = 0" "tx_bit_index p' = 0 \<longleftrightarrow> unat (tx_bit_index p') = 0"
    by (simp_all add: unat_eq_zero)
  have owed: "length (play_bits (q, s, c)) =
      (if tx_bit_index q = 0 then 0 else 8 - unat (tx_bit_index q)) + 8 * length (rx_contents s)"
    if "unat (tx_bit_index q) < 8" for q s c
    using that by (simp add: play_bits_def)
  have len: "length (play_bits (p', r', c')) = length (play_bits (p, r, ccer)) - 1"
    using t e by simp
  show ?thesis
  proof (cases "rx_contents r' = []")
    case False
    then obtain b' cs' where c': "rx_contents r' = b' # cs'" by (cases "rx_contents r'") auto
    obtain b cs where c: "rx_contents r = b # cs" using assms(2) by (cases "rx_contents r") auto
    from len owed [OF n(1)] owed [OF n(2)] c c' n show ?thesis
      unfolding e by (simp add: play_ticks_def z split: if_splits)
  next
    case True
    have i0: "tx_bit_index p = 0"
    proof (rule ccontr)
      assume "tx_bit_index p \<noteq> 0"
      then have "r' = r" using t e by simp
      with True assms(2) show False by simp
    qed
    have "length (play_bits (p', r', c')) \<le> 7" using owed [OF n(2)] True n(2) by (auto simp: z)
    with len owed [OF n(1)] i0 assms(2) have "length (rx_contents r) = 1"
      by (cases "rx_contents r"; cases "tl (rx_contents r)") auto
    then show ?thesis using True i0 assms(2) unfolding e by (simp add: play_ticks_def)
  qed
qed

lemma play_run_dry:
  "play_wf (p, r, ccer) \<Longrightarrow> rx_contents r = [] \<Longrightarrow>
   fst (play_run m (p, r, ccer)) = gated (stuck_on (p, r, ccer)) (replicate m False)"
proof (induction m arbitrary: p r ccer)
  case (Suc m)
  obtain p' r' c' where e: "ISR_Sampler_writing (p, r, ccer) = (p', r', c')"
    by (cases "ISR_Sampler_writing (p, r, ccer)")
  have i: "play_wf (p', r', c')" "carrier_on (p', r', c') = stuck_on (p, r, ccer)"
    "stuck_on (p', r', c') = stuck_on (p, r, ccer)" "r' = r"
    using playback_idle [OF Suc.prems, unfolded e] by (blast, blast, blast, simp)
  show ?case
    unfolding play_run_Suc using i e Suc.IH [of p' r' c'] Suc.prems(2) by simp
qed simp

lemma play_run_spec:
  assumes "play_wf st"
  shows "fst (play_run (play_ticks st + m) st) =
    gated (stuck_on st) (take (play_ticks st) (play_bits st) @ replicate m False)"
  using assms
proof (induction "play_ticks st" arbitrary: st)
  case 0
  obtain p r c where st: "st = (p, r, c)" by (cases st)
  have "rx_contents r = []" using 0(1) by (auto simp: st play_ticks_def split: if_splits)
  then show ?case using 0 play_run_dry [of p r c m] by (simp add: st)
next
  case (Suc n)
  obtain p r c where st: "st = (p, r, c)" by (cases st)
  have ne: "rx_contents r \<noteq> []" using Suc(2) by (auto simp: st play_ticks_def split: if_splits)
  note t = playback_tick [OF Suc.prems [unfolded st] ne] and s = playback_ticks_step [OF Suc.prems [unfolded st] ne]
  have n: "n = play_ticks (ISR_Sampler_writing st)" using s Suc(2) by (simp add: st)
  have "play_wf (ISR_Sampler_writing st)" using t by (simp add: st)
  note IH = Suc.hyps(1) [OF n this]
  obtain b bs where b: "play_bits st = b # bs" using t by (cases "play_bits st") (auto simp: st)
  have "carrier_on (ISR_Sampler_writing st) = (b \<or> stuck_on st)"
    "stuck_on (ISR_Sampler_writing st) = (stuck_on st \<and> \<not> b)" "play_bits (ISR_Sampler_writing st) = bs"
    using t b by (simp_all add: st)
  then have "fst (play_run (Suc (n + m)) st) = gated (stuck_on st) (b # take n bs @ replicate m False)"
    unfolding play_run_Suc using IH n by simp
  then show ?case using Suc(2) [symmetric] b by simp
qed

lemma lane_bits_concat: "lane_bits (concat xss) = concat (map lane_bits xss)"
  by (induction xss) simp_all

section \<open>Refilling while playing\<close>

text \<open>
  Ticks of the timer and lanes that the host queues meanwhile, in any order; a run ends without a
  result when a lane does not fit or a tick finds the ring empty.
\<close>

datatype feed = Tick | Lane "u8 list"

fun feed_run :: "feed list \<Rightarrow> playback \<times> rx_ring \<times> u32 \<Rightarrow> (bool list \<times> playback \<times> rx_ring \<times> u32) option" where
  "feed_run [] st = Some ([], st)"
| "feed_run (Tick # es) st =
     (if rx_contents (fst (snd st)) = [] then None
      else do {
        let st = ISR_Sampler_writing st;
        (outs, st') \<leftarrow> feed_run es st;
        Some (carrier_on st # outs, st') })"
| "feed_run (Lane l # es) (p, r, ccer) =
     (case rx_append_lane l r of
        (True, r) \<Rightarrow> feed_run es (p, r, ccer)
      | (False, r) \<Rightarrow> None)"

fun fed :: "feed list \<Rightarrow> u8 list list" where
  "fed [] = []"
| "fed (Tick # es) = fed es"
| "fed (Lane l # es) = l # fed es"

lemma take_gated: "take n (gated on bs) = gated on (take n bs)"
  by (induction bs arbitrary: n on) (auto simp: take_Cons')

lemma stuck_on_ring: "stuck_on (p, r, ccer) = stuck_on (p, q, ccer)"
  by (simp add: stuck_on_def carrier_on_def)

text \<open>What has been played and what is still owed make up the bits queued before and during the run.\<close>

lemma feed_run_spec:
  assumes "feed_run es st = Some (outs, st')" "play_wf st"
  shows "play_wf st' \<and> outs @ gated (stuck_on st') (play_bits st') =
      gated (stuck_on st) (play_bits st @ lane_bits (concat (fed es))) \<and>
    (outs \<noteq> [] \<longrightarrow> 7 \<le> length (play_bits st'))"
  using assms
proof (induction es st arbitrary: outs rule: feed_run.induct)
  case (1 st)
  then show ?case by simp
next
  case (2 es st)
  obtain p r c where st: "st = (p, r, c)" by (cases st)
  obtain outs' where ne: "rx_contents r \<noteq> []" and run: "feed_run es (ISR_Sampler_writing st) = Some (outs', st')"
    and o: "outs = carrier_on (ISR_Sampler_writing st) # outs'"
    using "2.prems"(1) by (auto simp: st Let_def bind_eq_Some_conv split: if_splits)
  note t = playback_tick [OF "2.prems"(2) [unfolded st] ne, folded st]
  note IH = "2.IH" [OF _ refl run] 
  have ih: "play_wf st' \<and> outs' @ gated (stuck_on st') (play_bits st') =
      gated (stuck_on (ISR_Sampler_writing st)) (play_bits (ISR_Sampler_writing st) @ lane_bits (concat (fed es))) \<and>
    (outs' \<noteq> [] \<longrightarrow> 7 \<le> length (play_bits st'))"
    using IH ne t by (simp add: st)
  have owed: "outs' = [] \<Longrightarrow> 7 \<le> length (play_bits st')"
  proof -
    assume "outs' = []"
    with ih have "gated (stuck_on st') (play_bits st') =
        gated (stuck_on (ISR_Sampler_writing st)) (play_bits (ISR_Sampler_writing st) @ lane_bits (concat (fed es)))" by simp
    then have "length (play_bits st') = length (play_bits (ISR_Sampler_writing st) @ lane_bits (concat (fed es)))"
      by (metis length_gated)
    moreover have "7 \<le> length (play_bits (ISR_Sampler_writing st))" using t by blast
    ultimately show ?thesis by simp
  qed
  obtain b bs where "play_bits st = b # bs" using t by (cases "play_bits st") auto
  then show ?case using t ih owed o by auto
next
  case (3 l es p r c)
  obtain r1 where a: "rx_append_lane l r = (True, r1)" and run: "feed_run es (p, r1, c) = Some (outs, st')"
    using "3.prems"(1) by (auto split: prod.splits bool.splits)
  have w: "rx_wf r" using "3.prems"(2) by (simp add: play_wf_def)
  have fit: "length (rx_contents r) + length l < 512"
    using rx_append_full [OF w, of l] a by (cases "length (rx_contents r) + length l < 512") auto
  have r1: "rx_wf r1" "rx_contents r1 = rx_contents r @ l" using rx_append_fits [OF w fit] a by simp_all
  have "play_wf (p, r1, c)" using "3.prems"(2) r1(1) by (simp add: play_wf_def)
  from "3.IH" [OF a [symmetric] refl run this] show ?case
    using r1(2) stuck_on_ring [of p r c r1] by (simp add: play_bits_def)
qed

section \<open>Properties\<close>

text \<open>C7: Playing back a ring of L bytes gates the carrier with the bits of the bytes, least significant bit
  first, one per tick, for 8(L-1)+1 ticks, and with 0 from then on: the last seven bits of the final
  byte are never played, because the handler looks at the fill level of the ring before it looks at
  the byte it has already taken out. The output follows these bits exactly, except when the enable
  bit was set at the start although the handler's flag says that the output is off, which is how
  TRANSMIT starts: then the carrier stays on through the 0 bits up to the first 1 bit (and for ever if
  there is none).\<close>

theorem playback_run:
  assumes "play_wf (p, r, ccer)" "tx_bit_index p = 0" "rx_contents r \<noteq> []"
  shows "fst (play_run (8 * (length (rx_contents r) - 1) + 1 + m) (p, r, ccer)) =
    gated (\<not> tx_out_enabled p \<and> carrier_on (p, r, ccer))
      (take (8 * (length (rx_contents r) - 1) + 1) (lane_bits (rx_contents r)) @ replicate m False)"
proof -
  have "play_ticks (p, r, ccer) = 8 * (length (rx_contents r) - 1) + 1"
    "play_bits (p, r, ccer) = lane_bits (rx_contents r)"
    using assms by (simp_all add: play_ticks_def play_bits_def)
  with play_run_spec [OF assms(1), of m] show ?thesis by (simp add: stuck_on_def)
qed

definition ring_of_bytes :: "u8 list \<Rightarrow> rx_ring" where
  "ring_of_bytes bs = snd (rx_append_lane bs (MIDI_InitRxBuffer_FS \<lparr>rxBuffer = [], rxBufferHeadPos = 0, rxBufferTailPos = 0\<rparr>))"

lemma ring_of_bytes_spec:
  "length bs < 512 \<Longrightarrow> rx_wf (ring_of_bytes bs) \<and> rx_contents (ring_of_bytes bs) = bs"
  unfolding ring_of_bytes_def
  using rx_append_fits [OF rx_reset_wf(1) [of "\<lparr>rxBuffer = [], rxBufferHeadPos = 0, rxBufferTailPos = 0\<rparr>"], of bs] by simp

definition play_start :: playback where
  "play_start = \<lparr>tx_bit_index = 0, tx_current_byte = 0, tx_out_enabled = False, selectedChannelMask = 0x100\<rparr>"

text \<open>With the carrier already on, the two leading 0 bits of the byte 4 come out as 1.\<close>

theorem playback_run_witness:
  "fst (play_run 12 (play_start, ring_of_bytes [0x05, 0xFF], 0)) =
     [True, False, True, False, False, False, False, False, True, False, False, False] \<and>
   fst (play_run 9 (play_start, ring_of_bytes [0x04, 0x00], 0x100)) =
     [True, True, True, False, False, False, False, False, False]"
proof -
  have r: "rx_wf (ring_of_bytes [0x05, 0xFF])" "rx_contents (ring_of_bytes [0x05, 0xFF]) = [0x05, 0xFF]"
    "rx_wf (ring_of_bytes [0x04, 0x00])" "rx_contents (ring_of_bytes [0x04, 0x00]) = [0x04, 0x00]"
    using ring_of_bytes_spec [of "[0x05, 0xFF]"] ring_of_bytes_spec [of "[0x04, 0x00]"] by simp_all
  have w: "play_wf (play_start, ring_of_bytes [0x05, 0xFF], 0)" "play_wf (play_start, ring_of_bytes [0x04, 0x00], 0x100)"
    using r by (simp_all add: play_wf_def play_start_def)
  have b: "byte_bits 5 = [True, False, True, False, False, False, False, False]"
    "byte_bits 4 = [False, False, True, False, False, False, False, False]"
    "byte_bits 0xFF = replicate 8 True" "byte_bits 0 = replicate 8 False"
    by code_simp+
  have m: "carrier_on (play_start, ring_of_bytes [0x04, 0x00], 0x100)" "\<not> carrier_on (play_start, ring_of_bytes [0x05, 0xFF], 0)"
    by (simp_all add: carrier_on_def play_start_def)
  have s: "tx_bit_index play_start = 0" "\<not> tx_out_enabled play_start" by (simp_all add: play_start_def)
  show ?thesis
    using playback_run [OF w(1) s(1), of 3] playback_run [OF w(2) s(1), of 0] r s(2) m
    by (simp add: b numeral_eq_Suc del: play_run.simps)
qed

end
