(* ===== verification/Gpio_Pins.thy ===== *)
theory Gpio_Pins
  imports Usb_Midi
begin

text \<open>
  The GPIO driver the commands use (\<open>Drivers/STM32F0xx_HAL_Driver/Src/stm32f0xx_hal_gpio.c\<close>) at
  register level, and the pin helpers of \<open>Core/Src/main.c\<close>: decoding of the one-byte pin
  numbers, the output latch, the pin configuration. The record \<open>gpio\<close> holds the ports' registers
  and the external-interrupt configuration; the input data register is a volatile read. A write
  to \<open>BSRR\<close> or \<open>BRR\<close> has its documented effect on the output data register.
\<close>

section \<open>Registers\<close>

record gpio_regs =
  MODER :: u32
  OTYPER :: u32
  OSPEEDR :: u32
  PUPDR :: u32
  ODR :: u32
  AFR :: "u32 list"

record gpio =
  bank :: "gpio_port \<Rightarrow> gpio_regs"
  port_clk :: "gpio_port \<Rightarrow> bool"
  SYSCFG_clk :: bool
  EXTICR :: "u32 list"
  RTSR :: u32
  FTSR :: u32
  EMR :: u32
  IMR :: u32

record GPIO_InitTypeDef =
  Pin :: u32
  Mode :: u32
  Pull :: u32
  Speed :: u32
  Alternate :: u32

definition GPIO_MODE_INPUT :: u32 where "GPIO_MODE_INPUT = 0"
definition GPIO_MODE_OUTPUT_PP :: u32 where "GPIO_MODE_OUTPUT_PP = 1"
definition GPIO_MODE_AF_PP :: u32 where "GPIO_MODE_AF_PP = 2"
definition GPIO_MODE_AF_OD :: u32 where "GPIO_MODE_AF_OD = 0x12"
definition GPIO_MODE_ANALOG :: u32 where "GPIO_MODE_ANALOG = 3"
definition GPIO_NOPULL :: u32 where "GPIO_NOPULL = 0"
definition GPIO_PULLUP :: u32 where "GPIO_PULLUP = 1"
definition GPIO_PULLDOWN :: u32 where "GPIO_PULLDOWN = 2"
definition GPIO_SPEED_FREQ_HIGH :: u32 where "GPIO_SPEED_FREQ_HIGH = 3"

lemmas gpio_mode_defs = GPIO_MODE_INPUT_def GPIO_MODE_OUTPUT_PP_def GPIO_MODE_AF_PP_def
  GPIO_MODE_AF_OD_def GPIO_MODE_ANALOG_def GPIO_NOPULL_def GPIO_PULLUP_def GPIO_PULLDOWN_def
  GPIO_SPEED_FREQ_HIGH_def

fun GPIO_GET_INDEX :: "gpio_port \<Rightarrow> u32" where
  "GPIO_GET_INDEX GPIOA = 0"
| "GPIO_GET_INDEX GPIOB = 1"
| "GPIO_GET_INDEX GPIOF = 5"

text \<open>\<open>temp &= ~(m << sh); temp |= v << sh\<close>\<close>

definition set_bits :: "u32 \<Rightarrow> nat \<Rightarrow> u32 \<Rightarrow> u32 \<Rightarrow> u32" where
  "set_bits m sh v r = (r AND NOT (push_bit sh m)) OR push_bit sh v"

definition clear_bits :: "u32 \<Rightarrow> nat \<Rightarrow> u32 \<Rightarrow> u32" where
  "clear_bits m sh r = r AND NOT (push_bit sh m)"

text \<open>\<open>temp &= ~io; if (c) temp |= io\<close>, the pattern of the interrupt configuration.\<close>

definition exti_line :: "bool \<Rightarrow> u32 \<Rightarrow> u32 \<Rightarrow> u32" where
  "exti_line c io r = (if c then (r AND NOT io) OR io else r AND NOT io)"

section \<open>HAL\_GPIO\_Init and HAL\_GPIO\_DeInit\<close>

definition gpio_init_regs :: "GPIO_InitTypeDef \<Rightarrow> nat \<Rightarrow> gpio_regs \<Rightarrow> gpio_regs" where
  "gpio_init_regs init position r =
     (let m = Mode init AND 3;
          r = (if m = 1 \<or> m = 2
               then r\<lparr>OSPEEDR := set_bits 3 (position * 2) (Speed init) (OSPEEDR r),
                      OTYPER := set_bits 1 position (drop_bit 4 (Mode init AND 0x10)) (OTYPER r)\<rparr>
               else r);
          r = (if m \<noteq> 3 then r\<lparr>PUPDR := set_bits 3 (position * 2) (Pull init) (PUPDR r)\<rparr> else r);
          r = (if m = 2
               then r\<lparr>AFR := (AFR r)[position div 8 :=
                      set_bits 0xF (position mod 8 * 4) (Alternate init) (AFR r ! (position div 8))]\<rparr>
               else r)
      in r\<lparr>MODER := set_bits 3 (position * 2) m (MODER r)\<rparr>)"

definition gpio_init_exti :: "GPIO_InitTypeDef \<Rightarrow> gpio_port \<Rightarrow> nat \<Rightarrow> gpio \<Rightarrow> gpio" where
  "gpio_init_exti init port position g =
     (if Mode init AND 0x30000 \<noteq> 0 then
        let io = Pin init AND push_bit position 1 in
        g\<lparr>SYSCFG_clk := True,
          EXTICR := (EXTICR g)[position div 4 :=
            set_bits 0xF (4 * (position mod 4)) (GPIO_GET_INDEX port) (EXTICR g ! (position div 4))],
          RTSR := exti_line (Mode init AND 0x100000 \<noteq> 0) io (RTSR g),
          FTSR := exti_line (Mode init AND 0x200000 \<noteq> 0) io (FTSR g),
          EMR := exti_line (Mode init AND 0x20000 \<noteq> 0) io (EMR g),
          IMR := exti_line (Mode init AND 0x10000 \<noteq> 0) io (IMR g)\<rparr>
      else g)"

definition gpio_init_pin :: "GPIO_InitTypeDef \<Rightarrow> gpio_port \<Rightarrow> nat \<Rightarrow> gpio \<Rightarrow> gpio" where
  "gpio_init_pin init port position g =
     (if Pin init AND push_bit position 1 \<noteq> 0
      then gpio_init_exti init port position
             (g\<lparr>bank := (bank g)(port := gpio_init_regs init position (bank g port))\<rparr>)
      else g)"

text \<open>The pins are visited from bit 0 while higher pins remain (a 32-bit mask has none past bit 31).\<close>

function gpio_init_loop :: "GPIO_InitTypeDef \<Rightarrow> gpio_port \<Rightarrow> nat \<Rightarrow> gpio \<Rightarrow> gpio" where
  "gpio_init_loop init port position g =
     (if position < 32 \<and> drop_bit position (Pin init) \<noteq> 0
      then gpio_init_loop init port (Suc position) (gpio_init_pin init port position g)
      else g)"
  by pat_completeness auto
termination
  by (relation "measure (\<lambda>(init, port, position, g). 32 - position)") auto

declare gpio_init_loop.simps [simp del]

definition HAL_GPIO_Init :: "gpio_port \<Rightarrow> GPIO_InitTypeDef \<Rightarrow> gpio \<Rightarrow> gpio" where
  "HAL_GPIO_Init port init g = gpio_init_loop init port 0 g"

definition gpio_deinit_regs :: "nat \<Rightarrow> gpio_regs \<Rightarrow> gpio_regs" where
  "gpio_deinit_regs position r =
     r\<lparr>MODER := clear_bits 3 (position * 2) (MODER r),
       AFR := (AFR r)[position div 8 := clear_bits 0xF (position mod 8 * 4) (AFR r ! (position div 8))],
       PUPDR := clear_bits 3 (position * 2) (PUPDR r),
       OTYPER := clear_bits 1 position (OTYPER r),
       OSPEEDR := clear_bits 3 (position * 2) (OSPEEDR r)\<rparr>"

definition gpio_deinit_exti :: "u32 \<Rightarrow> gpio_port \<Rightarrow> nat \<Rightarrow> gpio \<Rightarrow> gpio" where
  "gpio_deinit_exti io port position g =
     (let sh = 4 * (position mod 4); tmp = EXTICR g ! (position div 4) AND push_bit sh 0xF in
      if tmp = push_bit sh (GPIO_GET_INDEX port)
      then g\<lparr>IMR := IMR g AND NOT io, EMR := EMR g AND NOT io, FTSR := FTSR g AND NOT io,
             RTSR := RTSR g AND NOT io,
             EXTICR := (EXTICR g)[position div 4 := clear_bits 0xF sh (EXTICR g ! (position div 4))]\<rparr>
      else g)"

definition gpio_deinit_pin :: "u32 \<Rightarrow> gpio_port \<Rightarrow> nat \<Rightarrow> gpio \<Rightarrow> gpio" where
  "gpio_deinit_pin pin port position g =
     (let io = pin AND push_bit position 1 in
      if io \<noteq> 0
      then let g = gpio_deinit_exti io port position g
           in g\<lparr>bank := (bank g)(port := gpio_deinit_regs position (bank g port))\<rparr>
      else g)"

function gpio_deinit_loop :: "u32 \<Rightarrow> gpio_port \<Rightarrow> nat \<Rightarrow> gpio \<Rightarrow> gpio" where
  "gpio_deinit_loop pin port position g =
     (if position < 32 \<and> drop_bit position pin \<noteq> 0
      then gpio_deinit_loop pin port (Suc position) (gpio_deinit_pin pin port position g)
      else g)"
  by pat_completeness auto
termination
  by (relation "measure (\<lambda>(pin, port, position, g). 32 - position)") auto

declare gpio_deinit_loop.simps [simp del]

definition HAL_GPIO_DeInit :: "gpio_port \<Rightarrow> u32 \<Rightarrow> gpio \<Rightarrow> gpio" where
  "HAL_GPIO_DeInit port pin g = gpio_deinit_loop pin port 0 g"

text \<open>\<open>GPIOx->BSRR = v\<close>: the low half sets output bits, the high half clears those not set.\<close>

definition write_BSRR :: "gpio_port \<Rightarrow> u32 \<Rightarrow> gpio \<Rightarrow> gpio" where
  "write_BSRR port v g = g\<lparr>bank := (bank g)(port := (bank g port)
     \<lparr>ODR := (ODR (bank g port) AND NOT (drop_bit 16 v)) OR take_bit 16 v\<rparr>)\<rparr>"

definition write_BRR :: "gpio_port \<Rightarrow> u32 \<Rightarrow> gpio \<Rightarrow> gpio" where
  "write_BRR port v g = g\<lparr>bank := (bank g)(port := (bank g port)
     \<lparr>ODR := ODR (bank g port) AND NOT (take_bit 16 v)\<rparr>)\<rparr>"

text \<open>\<open>idr\<close> is the value of \<open>GPIOx->IDR\<close> at the read.\<close>

definition HAL_GPIO_ReadPin :: "u32 \<Rightarrow> u16 \<Rightarrow> u8" where
  "HAL_GPIO_ReadPin idr pin = (if idr AND ucast pin \<noteq> 0 then 1 else 0)"

definition HAL_GPIO_WritePin :: "gpio_port \<Rightarrow> u16 \<Rightarrow> bool \<Rightarrow> gpio \<Rightarrow> gpio" where
  "HAL_GPIO_WritePin port pin state g =
     (if state then write_BSRR port (ucast pin) g else write_BRR port (ucast pin) g)"

section \<open>The pin helpers of main.c\<close>

definition enable_gpio_clock :: "gpio_port \<Rightarrow> gpio \<Rightarrow> gpio" where
  "enable_gpio_clock port g =
     (if port = GPIOA then g\<lparr>port_clk := (port_clk g)(GPIOA := True)\<rparr>
      else if port = GPIOB then g\<lparr>port_clk := (port_clk g)(GPIOB := True)\<rparr>
      else g)"

definition configurePin :: "gpio_port \<Rightarrow> u16 \<Rightarrow> u32 \<Rightarrow> u32 \<Rightarrow> u8 \<Rightarrow> gpio \<Rightarrow> gpio" where
  "configurePin port pin mode pull alternate g =
     HAL_GPIO_Init port
       \<lparr>Pin = ucast pin, Mode = mode, Pull = pull, Speed = GPIO_SPEED_FREQ_HIGH,
        Alternate = (if mode = GPIO_MODE_AF_PP then ucast alternate else 0)\<rparr>
       (enable_gpio_clock port g)"

definition decode_encoded_pin :: "int \<Rightarrow> (gpio_port \<times> u16) option" where
  "decode_encoded_pin encoded =
     (if 0 \<le> encoded \<and> encoded \<le> 15 then Some (GPIOA, push_bit (nat encoded) 1)
      else if 16 \<le> encoded \<and> encoded \<le> 31 then Some (GPIOB, push_bit (nat (encoded - 16)) 1)
      else None)"

function pin_index_loop :: "u16 \<Rightarrow> nat \<Rightarrow> u8 option" where
  "pin_index_loop pm i =
     (if i < 16 then (if pm = push_bit i 1 then Some (of_nat i) else pin_index_loop pm (Suc i))
      else None)"
  by pat_completeness auto
termination
  by (relation "measure (\<lambda>(pm, i). 16 - i)") auto

declare pin_index_loop.simps [simp del]

definition pin_mask_to_index :: "u16 \<Rightarrow> u8 option" where
  "pin_mask_to_index pm = (if pm = 0 then None else pin_index_loop pm 0)"

definition gpio_write_latch :: "gpio_port \<Rightarrow> u16 \<Rightarrow> bool \<Rightarrow> gpio \<Rightarrow> gpio" where
  "gpio_write_latch port pin_mask value g =
     (if value then write_BSRR port (ucast pin_mask) g
      else write_BSRR port (push_bit 16 (ucast pin_mask)) g)"

text \<open>
  A straight-line sequence of calls, run one after the other. The sequences themselves are
  definitions, so that the states between the calls can be spoken of.
\<close>

fun run_calls :: "(gpio \<Rightarrow> gpio) list \<Rightarrow> gpio \<Rightarrow> gpio" where
  "run_calls [] g = g"
| "run_calls (call # calls) g = run_calls calls (call g)"

definition gpio_set_mode_calls :: "gpio_port \<Rightarrow> u16 \<Rightarrow> u32 \<Rightarrow> u32 \<Rightarrow> (gpio \<Rightarrow> gpio) list" where
  "gpio_set_mode_calls port pin_mask mode pull =
     [enable_gpio_clock port,
      HAL_GPIO_DeInit port (ucast pin_mask),
      configurePin port pin_mask mode pull 0]"

definition gpio_set_mode :: "gpio_port \<Rightarrow> u16 \<Rightarrow> u32 \<Rightarrow> u32 \<Rightarrow> gpio \<Rightarrow> gpio" where
  "gpio_set_mode port pin_mask mode pull g = run_calls (gpio_set_mode_calls port pin_mask mode pull) g"

section \<open>The configuration of one pin\<close>

text \<open>The \<open>w\<close>-bit field number \<open>i\<close> of a register.\<close>

definition fld :: "nat \<Rightarrow> nat \<Rightarrow> u32 \<Rightarrow> u32" where
  "fld w i r = take_bit w (drop_bit (w * i) r)"

record pin_cfg =
  cf_mode :: u32
  cf_otype :: u32
  cf_speed :: u32
  cf_pull :: u32
  cf_af :: u32
  cf_out :: bool

definition pin_view :: "gpio_regs \<Rightarrow> nat \<Rightarrow> pin_cfg" where
  "pin_view r j = \<lparr>cf_mode = fld 2 j (MODER r), cf_otype = fld 1 j (OTYPER r), cf_speed = fld 2 j (OSPEEDR r),
     cf_pull = fld 2 j (PUPDR r), cf_af = fld 4 (j mod 8) (AFR r ! (j div 8)), cf_out = bit (ODR r) j\<rparr>"

definition cfg_init :: "GPIO_InitTypeDef \<Rightarrow> pin_cfg \<Rightarrow> pin_cfg" where
  "cfg_init init c =
     (let m = Mode init AND 3; drives = (m = 1 \<or> m = 2) in
      c\<lparr>cf_mode := m,
        cf_otype := (if drives then drop_bit 4 (Mode init AND 0x10) else cf_otype c),
        cf_speed := (if drives then Speed init else cf_speed c),
        cf_pull := (if m \<noteq> 3 then Pull init else cf_pull c),
        cf_af := (if m = 2 then Alternate init else cf_af c)\<rparr>)"

definition cfg_reset :: "pin_cfg \<Rightarrow> pin_cfg" where
  "cfg_reset c = c\<lparr>cf_mode := 0, cf_otype := 0, cf_speed := 0, cf_pull := 0, cf_af := 0\<rparr>"

text \<open>The field values of an init structure fit their registers.\<close>

definition init_ok :: "GPIO_InitTypeDef \<Rightarrow> bool" where
  "init_ok init \<longleftrightarrow> take_bit 2 (Speed init) = Speed init \<and> take_bit 2 (Pull init) = Pull init \<and>
     take_bit 4 (Alternate init) = Alternate init \<and> take_bit 16 (Pin init) = Pin init"

lemma bit_set_bits:
  assumes "take_bit w v = v" "p < 32"
  shows "bit (set_bits (mask w) sh v r) p = (if sh \<le> p \<and> p < sh + w then bit v (p - sh) else bit r p)"
proof -
  have "bit v (p - sh) \<Longrightarrow> p - sh < w" using assms(1) by (metis bit_take_bit_iff)
  then show ?thesis using assms(2) by (auto simp: set_bits_def bit_simps)
qed

lemma bit_clear_bits:
  "p < 32 \<Longrightarrow> bit (clear_bits (mask w) sh r) p = (bit r p \<and> \<not> (sh \<le> p \<and> p < sh + w))"
  by (auto simp: clear_bits_def bit_simps)

lemma field_index: "n < w \<Longrightarrow> (w * i \<le> w * j + n \<and> w * j + n < w * i + w) \<longleftrightarrow> j = (i :: nat)"
proof
  assume n: "n < w" and b: "w * i \<le> w * j + n \<and> w * j + n < w * i + w"
  then have "w * i < w * Suc j" "w * j < w * Suc i" by (simp_all add: add.commute less_le_trans)
  with n show "j = i" by (auto simp only: mult_less_cancel1 less_Suc_eq_le)
qed simp

lemma fld_set_bits:
  assumes "take_bit w v = v" "w * j + w \<le> 32"
  shows "fld w j (set_bits (mask w) (w * i) v r) = (if j = i then v else fld w j r)"
proof (rule bit_word_eqI)
  fix n :: nat
  assume n: "n < LENGTH(32)"
  show "bit (fld w j (set_bits (mask w) (w * i) v r)) n = bit (if j = i then v else fld w j r) n"
  proof (cases "n < w")
    case True
    with assms(2) have "w * j + n < 32" by simp
    with True n show ?thesis
      using field_index [OF True, of i j] by (auto simp: fld_def bit_simps bit_set_bits [OF assms(1)])
  next
    case False
    then have "\<not> bit v n" using assms(1) by (metis bit_take_bit_iff)
    with False show ?thesis by (simp add: fld_def bit_simps)
  qed
qed

lemma fld_clear_bits:
  assumes "w * j + w \<le> 32"
  shows "fld w j (clear_bits (mask w) (w * i) r) = (if j = i then 0 else fld w j r)"
proof (rule bit_word_eqI)
  fix n :: nat
  assume n: "n < LENGTH(32)"
  show "bit (fld w j (clear_bits (mask w) (w * i) r)) n = bit (if j = i then 0 else fld w j r) n"
  proof (cases "n < w")
    case True
    with assms have "w * j + n < 32" by simp
    with True n show ?thesis
      using field_index [OF True, of i j] by (auto simp: fld_def bit_simps bit_clear_bits)
  qed (simp add: fld_def bit_simps)
qed

lemma mask_nums: "(3 :: u32) = mask 2" "(1 :: u32) = mask 1" "(15 :: u32) = mask 4"
  by (simp_all add: mask_eq_exp_minus_1)

lemma fld_update:
  "take_bit 2 v = v \<Longrightarrow> j < 16 \<Longrightarrow> fld 2 j (set_bits 3 (i * 2) v r) = (if j = i then v else fld 2 j r)"
  "j < 16 \<Longrightarrow> fld 2 j (clear_bits 3 (i * 2) r) = (if j = i then 0 else fld 2 j r)"
  "take_bit 4 v = v \<Longrightarrow> j < 8 \<Longrightarrow> fld 4 j (set_bits 0xF (i * 4) v r) = (if j = i then v else fld 4 j r)"
  "j < 8 \<Longrightarrow> fld 4 j (clear_bits 0xF (i * 4) r) = (if j = i then 0 else fld 4 j r)"
  "take_bit 1 v = v \<Longrightarrow> j < 16 \<Longrightarrow> fld 1 j (set_bits 1 i v r) = (if j = i then v else fld 1 j r)"
  "j < 16 \<Longrightarrow> fld 1 j (clear_bits 1 i r) = (if j = i then 0 else fld 1 j r)"
  using fld_set_bits [of 2 v j i r, folded mask_nums] fld_clear_bits [of 2 j i r, folded mask_nums]
    fld_set_bits [of 4 v j i r, folded mask_nums] fld_clear_bits [of 4 j i r, folded mask_nums]
    fld_set_bits [of 1 v j i r, folded mask_nums, unfolded mult_1] fld_clear_bits [of 1 j i r, folded mask_nums, unfolded mult_1]
  by (simp_all only: mult.commute)

lemma and_3: "x AND 3 = take_bit 2 (x :: u32)"
  by (simp add: take_bit_eq_mask mask_numeral)

lemma otype_bit: "take_bit 1 (drop_bit 4 (x AND 0x10)) = drop_bit 4 (x AND 0x10 :: u32)"
proof -
  have "(0x10 :: u32) = 2 ^ 4" by simp
  then show ?thesis by (simp only:) (rule bit_word_eqI, auto simp: bit_simps,
      simp_all add: bit_iff_odd_drop_bit)
qed

definition drives :: "GPIO_InitTypeDef \<Rightarrow> bool" where
  "drives init \<longleftrightarrow> Mode init AND 3 = 1 \<or> Mode init AND 3 = 2"

lemma init_regs_fields:
  "MODER (gpio_init_regs init i r) = set_bits 3 (i * 2) (Mode init AND 3) (MODER r)"
  "OSPEEDR (gpio_init_regs init i r) = (if drives init then set_bits 3 (i * 2) (Speed init) (OSPEEDR r) else OSPEEDR r)"
  "OTYPER (gpio_init_regs init i r) =
     (if drives init then set_bits 1 i (drop_bit 4 (Mode init AND 0x10)) (OTYPER r) else OTYPER r)"
  "PUPDR (gpio_init_regs init i r) = (if Mode init AND 3 \<noteq> 3 then set_bits 3 (i * 2) (Pull init) (PUPDR r) else PUPDR r)"
  "AFR (gpio_init_regs init i r) = (if Mode init AND 3 = 2
     then (AFR r)[i div 8 := set_bits 0xF (i mod 8 * 4) (Alternate init) (AFR r ! (i div 8))] else AFR r)"
  "ODR (gpio_init_regs init i r) = ODR r"
  by (auto simp: gpio_init_regs_def drives_def Let_def)

lemma afr_field:
  assumes "length xs = 2" "i < 16" "j < 16"
    and "\<And>k. k < 8 \<Longrightarrow> fld 4 k v = (if k = i mod 8 then x else fld 4 k (xs ! (i div 8)))"
  shows "fld 4 (j mod 8) (xs[i div 8 := v] ! (j div 8)) = (if j = i then x else fld 4 (j mod 8) (xs ! (j div 8)))"
proof (cases "j div 8 = i div 8")
  case True
  have "j = i \<longleftrightarrow> j mod 8 = i mod 8" using True by (metis div_mult_mod_eq)
  then show ?thesis using assms True by simp
next
  case False
  then show ?thesis using assms(1) by auto
qed

lemma init_regs_view:
  assumes ok: "init_ok init" and len: "length (AFR r) = 2" and ij: "i < 16" "j < 16"
  shows "pin_view (gpio_init_regs init i r) j = (if j = i then cfg_init init (pin_view r j) else pin_view r j)"
proof -
  have m: "take_bit 2 (Mode init AND 3) = Mode init AND 3" by (simp add: and_3)
  have v: "take_bit 2 (Speed init) = Speed init" "take_bit 2 (Pull init) = Pull init" "take_bit 4 (Alternate init) = Alternate init"
    using ok by (simp_all add: init_ok_def)
  let ?r = "gpio_init_regs init i r"
  have 1: "fld 2 j (MODER ?r) = (if j = i then Mode init AND 3 else fld 2 j (MODER r))"
    unfolding init_regs_fields by (rule fld_update(1) [OF m ij(2)])
  have 2: "fld 2 j (OSPEEDR ?r) = (if j = i \<and> drives init then Speed init else fld 2 j (OSPEEDR r))"
    unfolding init_regs_fields using fld_update(1) [OF v(1) ij(2), of i "OSPEEDR r"] by (cases "drives init") simp_all
  have 3: "fld 1 j (OTYPER ?r) = (if j = i \<and> drives init then drop_bit 4 (Mode init AND 0x10) else fld 1 j (OTYPER r))"
    unfolding init_regs_fields using fld_update(5) [OF otype_bit [of "Mode init"] ij(2), of i "OTYPER r"] by (cases "drives init") simp_all
  have 4: "fld 2 j (PUPDR ?r) = (if j = i \<and> Mode init AND 3 \<noteq> 3 then Pull init else fld 2 j (PUPDR r))"
    unfolding init_regs_fields using fld_update(1) [OF v(2) ij(2), of i "PUPDR r"] by (cases "Mode init AND 3 = 3") simp_all
  have 5: "fld 4 (j mod 8) (AFR ?r ! (j div 8)) =
      (if j = i \<and> Mode init AND 3 = 2 then Alternate init else fld 4 (j mod 8) (AFR r ! (j div 8)))"
    unfolding init_regs_fields using afr_field [OF len ij fld_update(3) [OF v(3)]] by (cases "Mode init AND 3 = 2") simp_all
  show ?thesis
    by (rule pin_cfg.equality)
      (simp_all add: pin_view_def cfg_init_def Let_def 1 2 3 4 5 init_regs_fields(6) drives_def [symmetric] del: One_nat_def)
qed

lemma deinit_regs_view:
  assumes len: "length (AFR r) = 2" and ij: "i < 16" "j < 16"
  shows "pin_view (gpio_deinit_regs i r) j = (if j = i then cfg_reset (pin_view r j) else pin_view r j)"
proof -
  have af: "fld 4 (j mod 8) ((AFR r)[i div 8 := clear_bits 0xF (i mod 8 * 4) (AFR r ! (i div 8))] ! (j div 8)) =
      (if j = i then 0 else fld 4 (j mod 8) (AFR r ! (j div 8)))"
    by (rule afr_field [OF len ij fld_update(4)])
  show ?thesis
    by (rule pin_cfg.equality)
      (simp_all add: pin_view_def cfg_reset_def gpio_deinit_regs_def af fld_update(2,6) ij del: One_nat_def)
qed

section \<open>The loops over the pins of a mask\<close>

definition gpio_wf :: "gpio \<Rightarrow> bool" where
  "gpio_wf g \<longleftrightarrow> (\<forall>p. length (AFR (bank g p)) = 2)"

lemma bank_exti [simp]: "bank (gpio_init_exti init port i g) = bank g"
  "bank (gpio_deinit_exti io port i g) = bank g"
  by (simp_all add: gpio_init_exti_def gpio_deinit_exti_def Let_def)

lemma drop_bit_eq_0_bits:
  assumes "drop_bit p (x :: u32) = 0" "p \<le> j"
  shows "\<not> bit x j"
proof -
  have "bit (drop_bit p x) (j - p) = bit x j" using assms(2) by (simp add: bit_drop_bit_eq)
  then show ?thesis unfolding assms(1) by simp
qed

lemma gpio_wf_bank: "gpio_wf (g\<lparr>bank := (bank g)(port := r)\<rparr>) \<longleftrightarrow>
    length (AFR r) = 2 \<and> (\<forall>p. p \<noteq> port \<longrightarrow> length (AFR (bank g p)) = 2)"
  by (auto simp: gpio_wf_def)

lemma length_AFR_regs [simp]: "length (AFR (gpio_init_regs init i r)) = length (AFR r)"
  "length (AFR (gpio_deinit_regs i r)) = length (AFR r)"
  by (simp_all add: init_regs_fields gpio_deinit_regs_def)

lemma low_pin: "take_bit 16 (x :: u32) = x \<Longrightarrow> bit x i \<Longrightarrow> i < 16"
  by (metis bit_take_bit_iff)

lemma init_pin_view:
  assumes "init_ok init" "gpio_wf g" "j < 16"
  shows "gpio_wf (gpio_init_pin init port i g)"
    and "pin_view (bank (gpio_init_pin init port i g) q) j =
      (if q = port \<and> j = i \<and> bit (Pin init) i then cfg_init init (pin_view (bank g q) j) else pin_view (bank g q) j)"
proof -
  show "gpio_wf (gpio_init_pin init port i g)"
    using assms(2) by (auto simp: gpio_init_pin_def gpio_wf_def)
  show "pin_view (bank (gpio_init_pin init port i g) q) j =
      (if q = port \<and> j = i \<and> bit (Pin init) i then cfg_init init (pin_view (bank g q) j) else pin_view (bank g q) j)"
  proof (cases "bit (Pin init) i")
    case True
    then have "i < 16" using assms(1) low_pin [of "Pin init" i] by (simp add: init_ok_def)
    then show ?thesis
      using True assms init_regs_view [OF assms(1) _ _ assms(3), of "bank g port" i]
      by (cases "j = i") (simp_all add: gpio_init_pin_def and_exp_eq_0_iff_not_bit gpio_wf_def)
  next
    case False
    then show ?thesis by (simp add: gpio_init_pin_def and_exp_eq_0_iff_not_bit)
  qed
qed

lemma init_loop_view:
  assumes "init_ok init" "gpio_wf g" "j < 16"
  shows "gpio_wf (gpio_init_loop init port p g) \<and>
    pin_view (bank (gpio_init_loop init port p g) q) j =
      (if q = port \<and> p \<le> j \<and> bit (Pin init) j then cfg_init init (pin_view (bank g q) j) else pin_view (bank g q) j)"
  using assms
proof (induction init port p g rule: gpio_init_loop.induct)
  case (1 init port p g)
  show ?case
  proof (cases "p < 32 \<and> drop_bit p (Pin init) \<noteq> 0")
    case True
    let ?g = "gpio_init_pin init port p g"
    note v = init_pin_view [OF "1.prems", of port p]
    have "gpio_init_loop init port p g = gpio_init_loop init port (Suc p) ?g"
      using True by (simp add: gpio_init_loop.simps [of init port p g])
    with "1.IH" [OF True "1.prems"(1) v(1) "1.prems"(3)] v(2) [of q] show ?thesis
      by (auto simp: not_less_eq_eq le_Suc_eq dest: antisym)
  next
    case False
    have "gpio_init_loop init port p g = g" by (subst gpio_init_loop.simps) (rule if_not_P [OF False])
    moreover have "\<not> (p \<le> j \<and> bit (Pin init) j)"
      using False "1.prems"(3) drop_bit_eq_0_bits by force
    ultimately show ?thesis using "1.prems" by auto
  qed
qed

lemma deinit_pin_view:
  assumes "take_bit 16 pin = pin" "gpio_wf g" "j < 16"
  shows "gpio_wf (gpio_deinit_pin pin port i g)"
    and "pin_view (bank (gpio_deinit_pin pin port i g) q) j =
      (if q = port \<and> j = i \<and> bit pin i then cfg_reset (pin_view (bank g q) j) else pin_view (bank g q) j)"
proof -
  show "gpio_wf (gpio_deinit_pin pin port i g)"
    using assms(2) by (auto simp: gpio_deinit_pin_def gpio_wf_def Let_def)
  show "pin_view (bank (gpio_deinit_pin pin port i g) q) j =
      (if q = port \<and> j = i \<and> bit pin i then cfg_reset (pin_view (bank g q) j) else pin_view (bank g q) j)"
  proof (cases "bit pin i")
    case True
    then have "i < 16" using assms(1) low_pin by simp
    then show ?thesis
      using True assms deinit_regs_view [OF _ _ assms(3), of "bank g port" i]
      by (cases "j = i") (simp_all add: gpio_deinit_pin_def and_exp_eq_0_iff_not_bit gpio_wf_def Let_def)
  next
    case False
    then show ?thesis by (simp add: gpio_deinit_pin_def and_exp_eq_0_iff_not_bit)
  qed
qed

lemma deinit_loop_view:
  assumes "take_bit 16 pin = pin" "gpio_wf g" "j < 16"
  shows "gpio_wf (gpio_deinit_loop pin port p g) \<and>
    pin_view (bank (gpio_deinit_loop pin port p g) q) j =
      (if q = port \<and> p \<le> j \<and> bit pin j then cfg_reset (pin_view (bank g q) j) else pin_view (bank g q) j)"
  using assms
proof (induction pin port p g rule: gpio_deinit_loop.induct)
  case (1 pin port p g)
  show ?case
  proof (cases "p < 32 \<and> drop_bit p pin \<noteq> 0")
    case True
    let ?g = "gpio_deinit_pin pin port p g"
    note v = deinit_pin_view [OF "1.prems", of port p]
    have "gpio_deinit_loop pin port p g = gpio_deinit_loop pin port (Suc p) ?g"
      using True by (simp add: gpio_deinit_loop.simps [of pin port p g])
    with "1.IH" [OF True "1.prems"(1) v(1) "1.prems"(3)] v(2) [of q] show ?thesis
      by (auto simp: not_less_eq_eq le_Suc_eq dest: antisym)
  next
    case False
    have "gpio_deinit_loop pin port p g = g" by (subst gpio_deinit_loop.simps) (rule if_not_P [OF False])
    moreover have "\<not> (p \<le> j \<and> bit pin j)"
      using False "1.prems"(3) drop_bit_eq_0_bits by force
    ultimately show ?thesis using "1.prems" by auto
  qed
qed

lemma gpio_init_view:
  "init_ok init \<Longrightarrow> gpio_wf g \<Longrightarrow> j < 16 \<Longrightarrow>
   pin_view (bank (HAL_GPIO_Init port init g) q) j =
     (if q = port \<and> bit (Pin init) j then cfg_init init (pin_view (bank g q) j) else pin_view (bank g q) j)"
  using init_loop_view [of init g j port 0 q] by (simp add: HAL_GPIO_Init_def)

lemma gpio_deinit_view:
  "take_bit 16 pin = pin \<Longrightarrow> gpio_wf g \<Longrightarrow> j < 16 \<Longrightarrow>
   pin_view (bank (HAL_GPIO_DeInit port pin g) q) j =
     (if q = port \<and> bit pin j then cfg_reset (pin_view (bank g q) j) else pin_view (bank g q) j)"
  using deinit_loop_view [of pin g j port 0 q] by (simp add: HAL_GPIO_DeInit_def)

lemma gpio_init_wf: "init_ok init \<Longrightarrow> gpio_wf g \<Longrightarrow> gpio_wf (HAL_GPIO_Init port init g)"
  using init_loop_view [of init g 0 port 0] by (simp add: HAL_GPIO_Init_def)

lemma gpio_deinit_wf: "take_bit 16 pin = pin \<Longrightarrow> gpio_wf g \<Longrightarrow> gpio_wf (HAL_GPIO_DeInit port pin g)"
  using deinit_loop_view [of pin g 0 port 0] by (simp add: HAL_GPIO_DeInit_def)

lemma bank_clock [simp]: "bank (enable_gpio_clock port g) = bank g"
  by (simp add: enable_gpio_clock_def)

lemma gpio_wf_clock [simp]: "gpio_wf (enable_gpio_clock port g) = gpio_wf g"
  by (simp add: gpio_wf_def)

lemma ucast_u16_low [simp]: "take_bit 16 (ucast (p :: u16) :: u32) = ucast p"
  by (rule bit_word_eqI) (auto simp: bit_simps dest: bit_imp_le_length)

lemma bit_ucast_u16 [simp]: "j < 16 \<Longrightarrow> bit (ucast (p :: u16) :: u32) j = bit p j"
  by (simp add: bit_simps)

text \<open>What a configured pin ends up with.\<close>

definition pin_init :: "u16 \<Rightarrow> u32 \<Rightarrow> u32 \<Rightarrow> u8 \<Rightarrow> GPIO_InitTypeDef" where
  "pin_init pin mode pull alternate =
     \<lparr>Pin = ucast pin, Mode = mode, Pull = pull, Speed = GPIO_SPEED_FREQ_HIGH,
      Alternate = (if mode = GPIO_MODE_AF_PP then ucast alternate else 0)\<rparr>"

lemma pin_init_ok: "take_bit 2 pull = pull \<Longrightarrow> alternate < 16 \<Longrightarrow> init_ok (pin_init pin mode pull alternate)"
proof -
  assume p: "take_bit 2 pull = pull" and a: "alternate < 16"
  then have "unat alternate < 2 ^ 4" by (simp add: word_less_nat_alt)
  then have "take_bit 4 alternate = alternate"
    by (simp add: word_unat_eq_iff unsigned_take_bit_eq take_bit_nat_eq_self)
  then have "bit alternate n \<Longrightarrow> n < 4" for n by (metis bit_take_bit_iff)
  then have "take_bit 4 (ucast alternate :: u32) = ucast alternate"
    by (intro bit_word_eqI) (auto simp: bit_simps)
  with p show ?thesis by (simp add: init_ok_def pin_init_def GPIO_SPEED_FREQ_HIGH_def)
qed

lemma configurePin_view:
  assumes "take_bit 2 pull = pull" "alternate < 16" "gpio_wf g" "j < 16"
  shows "pin_view (bank (configurePin port pin mode pull alternate g) q) j =
    (if q = port \<and> bit pin j then cfg_init (pin_init pin mode pull alternate) (pin_view (bank g q) j)
     else pin_view (bank g q) j)"
    and "gpio_wf (configurePin port pin mode pull alternate g)"
proof -
  let ?i = "pin_init pin mode pull alternate"
  note ok = pin_init_ok [OF assms(1,2), of pin mode]
  have eq: "configurePin port pin mode pull alternate g = HAL_GPIO_Init port ?i (enable_gpio_clock port g)"
    by (simp add: configurePin_def pin_init_def)
  have p: "bit (Pin ?i) j = bit pin j" using assms(4) by (simp add: pin_init_def)
  show "pin_view (bank (configurePin port pin mode pull alternate g) q) j =
    (if q = port \<and> bit pin j then cfg_init ?i (pin_view (bank g q) j) else pin_view (bank g q) j)"
    using gpio_init_view [OF ok, of "enable_gpio_clock port g" j port q] assms(3,4)
    by (simp add: eq p del: One_nat_def)
  show "gpio_wf (configurePin port pin mode pull alternate g)"
    unfolding eq using gpio_init_wf [OF ok, of "enable_gpio_clock port g" port] assms(3) by simp
qed

lemma set_mode_eq:
  "gpio_set_mode port pin mode pull g =
     configurePin port pin mode pull 0 (HAL_GPIO_DeInit port (ucast pin) (enable_gpio_clock port g))"
  by (simp add: gpio_set_mode_def gpio_set_mode_calls_def)

lemma set_mode_view:
  assumes "take_bit 2 pull = pull" "gpio_wf g" "j < 16"
  shows "pin_view (bank (gpio_set_mode port pin mode pull g) q) j =
    (if q = port \<and> bit pin j then cfg_init (pin_init pin mode pull 0) (cfg_reset (pin_view (bank g q) j))
     else pin_view (bank g q) j)"
    and "gpio_wf (gpio_set_mode port pin mode pull g)"
proof -
  have wf: "gpio_wf (HAL_GPIO_DeInit port (ucast pin) (enable_gpio_clock port g))"
    using assms by (intro gpio_deinit_wf) simp_all
  show "pin_view (bank (gpio_set_mode port pin mode pull g) q) j =
    (if q = port \<and> bit pin j then cfg_init (pin_init pin mode pull 0) (cfg_reset (pin_view (bank g q) j))
     else pin_view (bank g q) j)"
    using configurePin_view(1) [OF assms(1) _ wf assms(3), of 0 port pin mode q]
      gpio_deinit_view [of "ucast pin" "enable_gpio_clock port g" j port q] assms
    by (cases "q = port \<and> bit pin j") (auto simp: set_mode_eq)
  show "gpio_wf (gpio_set_mode port pin mode pull g)"
    using configurePin_view(2) [OF assms(1) _ wf assms(3)] by (simp add: set_mode_eq)
qed

section \<open>Pin numbers and the output latch\<close>

lemma bit_push_self: "i < 16 \<Longrightarrow> bit (push_bit i 1 :: u16) k \<longleftrightarrow> k = i"
  by (auto simp: bit_simps)

lemma push_bit_1_inj: "i < 16 \<Longrightarrow> k < 16 \<Longrightarrow> (push_bit i 1 :: u16) = push_bit k 1 \<longleftrightarrow> i = k"
proof
  assume i: "i < 16" and k: "k < 16" and eq: "(push_bit i 1 :: u16) = push_bit k 1"
  have "bit (push_bit i 1 :: u16) i" using bit_push_self [OF i] by blast
  then have "bit (push_bit k 1 :: u16) i" unfolding eq .
  then show "i = k" using bit_push_self [OF k] by blast
qed simp

lemma push_bit_1_nonzero: "i < 16 \<Longrightarrow> (push_bit i 1 :: u16) \<noteq> 0"
proof
  assume i: "i < 16" and "(push_bit i 1 :: u16) = 0"
  moreover have "bit (push_bit i 1 :: u16) i" using bit_push_self [OF i] by blast
  ultimately have "bit (0 :: u16) i" by metis
  then show False by simp
qed

lemma pin_index_loop_spec: "i \<le> k \<Longrightarrow> k < 16 \<Longrightarrow> pin_index_loop (push_bit k 1) i = Some (of_nat k)"
proof (induction "k - i" arbitrary: i)
  case 0
  then show ?case by (subst pin_index_loop.simps) simp
next
  case (Suc n)
  then have "pin_index_loop (push_bit k 1) (Suc i) = Some (of_nat k)" by (intro Suc.hyps(1)) simp_all
  then show ?case using Suc push_bit_1_inj [of k i] by (subst pin_index_loop.simps) (simp del: push_bit_of_1)
qed

lemma pin_mask_to_index_push: "k < 16 \<Longrightarrow> pin_mask_to_index (push_bit k 1) = Some (of_nat k)"
  using pin_index_loop_spec [of 0 k] push_bit_1_nonzero [of k] by (simp only: pin_mask_to_index_def if_False le0)

definition decoded :: "nat \<Rightarrow> gpio_port \<times> u16" where
  "decoded e = (if e < 16 then (GPIOA, push_bit e 1) else (GPIOB, push_bit (e - 16) 1))"

lemma decode_encoded_pin_spec: "e < 32 \<Longrightarrow> decode_encoded_pin (int e) = Some (decoded e)"
  by (auto simp: decode_encoded_pin_def decoded_def nat_diff_distrib)

lemma write_latch_view:
  assumes "gpio_wf g" "j < 16"
  shows "pin_view (bank (gpio_write_latch port pin value g) q) j =
    (if q = port \<and> bit pin j then (pin_view (bank g q) j)\<lparr>cf_out := value\<rparr> else pin_view (bank g q) j)"
    and "gpio_wf (gpio_write_latch port pin value g)"
  using assms
  by (auto simp: gpio_write_latch_def write_BSRR_def pin_view_def gpio_wf_def bit_simps dest: bit_imp_le_length)

lemma WritePin_view:
  assumes "gpio_wf g" "j < 16"
  shows "pin_view (bank (HAL_GPIO_WritePin port pin value g) q) j =
    (if q = port \<and> bit pin j then (pin_view (bank g q) j)\<lparr>cf_out := value\<rparr> else pin_view (bank g q) j)"
    and "gpio_wf (HAL_GPIO_WritePin port pin value g)"
  using assms
  by (auto simp: HAL_GPIO_WritePin_def write_BSRR_def write_BRR_def pin_view_def gpio_wf_def bit_simps dest: bit_imp_le_length)

section \<open>Properties\<close>

text \<open>C25: Initialising a set of pins refines the per-pin view: every selected pin of the port gets the mode,
  type, speed, pull and alternate function of the request (those that its mode uses), every other pin
  of every port keeps its whole configuration, and no output latch changes.\<close>

theorem gpio_init_refines:
  assumes "init_ok init" "gpio_wf g" "j < 16"
  shows "gpio_wf (HAL_GPIO_Init port init g) \<and>
    pin_view (bank (HAL_GPIO_Init port init g) q) j =
      (if q = port \<and> bit (Pin init) j then cfg_init init (pin_view (bank g q) j) else pin_view (bank g q) j)"
  using gpio_init_wf [OF assms(1,2), of port] gpio_init_view [OF assms, of port q] by blast

definition gpio_reset_state :: gpio where
  "gpio_reset_state = \<lparr>bank = (\<lambda>_. \<lparr>MODER = 0x28000000, OTYPER = 0, OSPEEDR = 0x0C000000, PUPDR = 0x24000000, ODR = 0, AFR = [0, 0]\<rparr>),
     port_clk = (\<lambda>_. False), SYSCFG_clk = False, EXTICR = [0, 0, 0, 0], RTSR = 0, FTSR = 0, EMR = 0, IMR = 0\<rparr>"

lemma gpio_reset_wf [simp]: "gpio_wf gpio_reset_state"
  by (simp add: gpio_wf_def gpio_reset_state_def)

theorem gpio_init_refines_witness:
  "cf_af (pin_view (bank (HAL_GPIO_Init GPIOA (pin_init 4 GPIO_MODE_AF_PP GPIO_PULLDOWN 2) gpio_reset_state) GPIOA) 2) = 2"
proof -
  have ok: "init_ok (pin_init 4 GPIO_MODE_AF_PP GPIO_PULLDOWN 2)"
    by (rule pin_init_ok) (simp_all add: GPIO_PULLDOWN_def)
  have b: "bit (4 :: u32) 2" by (simp add: bit_iff_odd)
  from gpio_init_refines [OF ok gpio_reset_wf, of 2 GPIOA GPIOA] show ?thesis
    by (simp add: cfg_init_def Let_def pin_init_def GPIO_MODE_AF_PP_def b)
qed

text \<open>The encoded pin numbers 0 to 31 name 32 different pins, 16 on each port; the index search
  finds the pin back from its mask, and every other number (negative ones included) is refused.\<close>

theorem pin_decoding:
  "(case decode_encoded_pin e of
      None \<Rightarrow> e < 0 \<or> 31 < e
    | Some (port, pm) \<Rightarrow> 0 \<le> e \<and> e \<le> 31 \<and> port = (if e < 16 then GPIOA else GPIOB) \<and>
        pin_mask_to_index pm = Some (of_int (e mod 16)) \<and> pm = push_bit (nat (e mod 16)) 1)"
proof (cases "0 \<le> e \<and> e \<le> 31")
  case False
  then show ?thesis by (auto simp: decode_encoded_pin_def)
next
  case True
  then obtain n where n: "e = int n" "n < 32"
    using nonneg_int_cases [of e] by auto
  show ?thesis
  proof (cases "n < 16")
    case True
    then show ?thesis
      using n pin_mask_to_index_push [OF True] by (simp add: decode_encoded_pin_spec decoded_def del: push_bit_of_1)
  next
    case False
    then have k: "n - 16 < 16" using n by simp
    have "n mod 16 = n - 16" using False n by (simp add: le_mod_geq)
    then have m: "int n mod 16 = int (n - 16)" by (metis of_nat_mod of_nat_numeral)
    have d: "nat (int n - 16) = n - 16" by arith
    show ?thesis
      using n False pin_mask_to_index_push [OF k] by (simp add: decode_encoded_pin_spec decoded_def m d del: push_bit_of_1)
  qed
qed

text \<open>The calls of the GPIO HIGH and LOW commands, in their order.\<close>

definition gpio_drive_calls :: "gpio_port \<Rightarrow> u16 \<Rightarrow> bool \<Rightarrow> (gpio \<Rightarrow> gpio) list" where
  "gpio_drive_calls port pin value =
     gpio_write_latch port pin value #
     gpio_set_mode_calls port pin GPIO_MODE_OUTPUT_PP GPIO_NOPULL @
     [HAL_GPIO_WritePin port pin value]"

definition gpio_drive :: "gpio_port \<Rightarrow> u16 \<Rightarrow> bool \<Rightarrow> gpio \<Rightarrow> gpio" where
  "gpio_drive port pin value g = run_calls (gpio_drive_calls port pin value) g"

lemma run_calls_append [simp]: "run_calls (cs @ ds) g = run_calls ds (run_calls cs g)"
  by (induction cs arbitrary: g) simp_all

lemma run_calls_inv:
  "(\<And>call g. call \<in> set calls \<Longrightarrow> P g \<Longrightarrow> P (call g)) \<Longrightarrow> P g \<Longrightarrow> P (run_calls calls g)"
  by (induction calls arbitrary: g) simp_all

lemma gpio_drive_eq:
  "gpio_drive port pin value g =
     HAL_GPIO_WritePin port pin value
       (gpio_set_mode port pin GPIO_MODE_OUTPUT_PP GPIO_NOPULL (gpio_write_latch port pin value g))"
  by (simp add: gpio_drive_def gpio_drive_calls_def gpio_set_mode_def)

text \<open>The level is stored in the latch of pin \<open>i\<close> and the other pins are as in \<open>g\<close>.\<close>

definition level_stored :: "gpio_port \<Rightarrow> nat \<Rightarrow> bool \<Rightarrow> gpio \<Rightarrow> gpio \<Rightarrow> bool" where
  "level_stored port i value g h \<longleftrightarrow> gpio_wf h \<and> cf_out (pin_view (bank h port) i) = value \<and>
     (\<forall>q. \<forall>j < 16. q \<noteq> port \<or> j \<noteq> i \<longrightarrow> pin_view (bank h q) j = pin_view (bank g q) j)"

lemma gpio_drive_states:
  assumes "gpio_wf g" "i < 16" "0 < k"
  shows "level_stored port i value g (run_calls (take k (gpio_drive_calls port (push_bit i 1) value)) g)"
proof -
  let ?p = "push_bit i 1 :: u16"
  have bi: "bit ?p n \<longleftrightarrow> n = i" if "n < 16" for n using that assms(2) by (auto simp: bit_simps)
  have np: "take_bit 2 GPIO_NOPULL = GPIO_NOPULL" by (simp add: GPIO_NOPULL_def)
  let ?cs = "gpio_set_mode_calls port ?p GPIO_MODE_OUTPUT_PP GPIO_NOPULL @ [HAL_GPIO_WritePin port ?p value]"
  have latch: "level_stored port i value g (gpio_write_latch port ?p value g)"
    using write_latch_view [OF assms(1)] assms(2) bi by (auto simp: level_stored_def simp del: push_bit_of_1)
  have keep: "level_stored port i value g (call h)" if c: "call \<in> set ?cs" and h: "level_stored port i value g h" for call h
  proof -
    have wf: "gpio_wf h" using h by (simp add: level_stored_def)
    consider "call = enable_gpio_clock port" | "call = HAL_GPIO_DeInit port (ucast ?p)"
      | "call = configurePin port ?p GPIO_MODE_OUTPUT_PP GPIO_NOPULL 0" | "call = HAL_GPIO_WritePin port ?p value"
      using c by (auto simp: gpio_set_mode_calls_def simp del: push_bit_of_1)
    then show ?thesis
    proof cases
      case 1
      with h show ?thesis by (simp add: level_stored_def)
    next
      case 2
      with h wf assms(2) gpio_deinit_view [OF ucast_u16_low wf, of _ port ?p] gpio_deinit_wf [OF ucast_u16_low wf] bi
      show ?thesis by (auto simp: level_stored_def cfg_reset_def simp del: push_bit_of_1)
    next
      case 3
      with h wf assms(2) configurePin_view [OF np _ wf, of 0 _ port ?p GPIO_MODE_OUTPUT_PP] bi
      show ?thesis by (auto simp: level_stored_def cfg_init_def Let_def simp del: push_bit_of_1)
    next
      case 4
      with h wf assms(2) WritePin_view [OF wf, of _ port ?p "value"] bi
      show ?thesis by (auto simp: level_stored_def simp del: push_bit_of_1)
    qed
  qed
  obtain m where k: "k = Suc m" using assms(3) gr0_conv_Suc by blast
  have "level_stored port i value g (run_calls (take m ?cs) (gpio_write_latch port ?p value g))"
    by (rule run_calls_inv [where P = "level_stored port i value g"]) (use keep latch in \<open>auto dest: in_set_takeD simp del: push_bit_of_1\<close>)
  then show ?thesis by (simp add: k gpio_drive_calls_def del: push_bit_of_1)
qed

text \<open>C26: Driving a pin HIGH or LOW never puts a stale level on it and never touches another pin:
  after every call of the sequence (not only after the last one) the output latch of the pin already
  holds the requested level, so whenever the pin is an output it drives that level; all other pins
  have their old configuration and level in all these states. At the end the pin is a push-pull output
  without pull at the requested level.\<close>

theorem gpio_drive_glitch_free:
  assumes "gpio_wf g" "i < 16" "0 < k"
  shows "(let h = run_calls (take k (gpio_drive_calls port (push_bit i 1) value)) g in
      cf_out (pin_view (bank h port) i) = value \<and>
      (\<forall>q j. j < 16 \<and> (q \<noteq> port \<or> j \<noteq> i) \<longrightarrow> pin_view (bank h q) j = pin_view (bank g q) j)) \<and>
    pin_view (bank (gpio_drive port (push_bit i 1) value g) port) i =
      \<lparr>cf_mode = 1, cf_otype = 0, cf_speed = 3, cf_pull = 0, cf_af = 0, cf_out = value\<rparr>"
proof -
  let ?p = "push_bit i 1 :: u16"
  have bi: "bit ?p i" using assms(2) by (auto simp: bit_simps)
  note l = write_latch_view(2) [OF assms(1,2), of port ?p "value"]
  have np: "take_bit 2 GPIO_NOPULL = GPIO_NOPULL" by (simp add: GPIO_NOPULL_def)
  note s = set_mode_view [OF np l assms(2), of port ?p GPIO_MODE_OUTPUT_PP]
  have "pin_view (bank (gpio_drive port ?p value g) port) i =
      \<lparr>cf_mode = 1, cf_otype = 0, cf_speed = 3, cf_pull = 0, cf_af = 0, cf_out = value\<rparr>"
    using s(1) [of port] WritePin_view(1) [OF s(2) assms(2), of port ?p "value" port] bi
    by (simp add: gpio_drive_eq cfg_init_def cfg_reset_def pin_init_def gpio_mode_defs Let_def del: push_bit_of_1)
  then show ?thesis
    using gpio_drive_states [OF assms, of port "value"] by (auto simp: level_stored_def Let_def simp del: push_bit_of_1)
qed

theorem gpio_drive_glitch_free_witness:
  "cf_out (pin_view (bank (run_calls (take 3 (gpio_drive_calls GPIOB (push_bit 3 1) True)) gpio_reset_state) GPIOB) 3) \<and>
   pin_view (bank (gpio_drive GPIOB (push_bit 3 1) True gpio_reset_state) GPIOB) 3 =
     \<lparr>cf_mode = 1, cf_otype = 0, cf_speed = 3, cf_pull = 0, cf_af = 0, cf_out = True\<rparr>"
  using gpio_drive_glitch_free [OF gpio_reset_wf, of 3 3 GPIOB True] by (simp add: Let_def)

end
