(* ===== verification/Pwm_Timers.thy ===== *)
theory Pwm_Timers
  imports Gpio_Pins
begin

text \<open>
  The timers: TIM2, TIM14, TIM16 and TIM17 as PWM generators, TIM2 as the carrier of the
  retransmit path and TIM3 as the sampler tick (\<open>Core/Src/main.c\<close>), with the ST driver calls
  they use (\<open>stm32f0xx_hal_tim.c\<close>, \<open>stm32f0xx_hal_tim.h\<close>) at register level. \<open>EGR\<close> holds the last
  value written to the event generation register.
\<close>

section \<open>Registers and handles\<close>

record tim_regs =
  CR1 :: u32
  SMCR :: u32
  DIER :: u32
  SR :: u32
  EGR :: u32
  CCMR1 :: u32
  CCER :: u32
  PSC :: u32
  ARR :: u32
  CCR1 :: u32
  CCR2 :: u32
  CCR3 :: u32
  CCR4 :: u32
  BDTR :: u32

datatype tim_id = TIM2 | TIM3 | TIM14 | TIM16 | TIM17

text \<open>The four channel states of a handle (\<open>True\<close> is READY) and the state of the base timer.\<close>

record tim_handle =
  ChannelReady :: "bool list"
  BaseReady :: bool

record timers =
  tims :: "tim_id \<Rightarrow> tim_regs"
  htim2 :: tim_handle
  htim3 :: tim_handle
  tim_clk :: "tim_id \<Rightarrow> bool"
  emw_tick_us :: u8
  hclk :: u32

definition upd_tim :: "tim_id \<Rightarrow> (tim_regs \<Rightarrow> tim_regs) \<Rightarrow> timers \<Rightarrow> timers" where
  "upd_tim i f tm = tm\<lparr>tims := (tims tm)(i := f (tims tm i))\<rparr>"

definition TIM_CHANNEL_1 :: u32 where "TIM_CHANNEL_1 = 0"
definition TIM_CHANNEL_2 :: u32 where "TIM_CHANNEL_2 = 4"
definition TIM_CHANNEL_3 :: u32 where "TIM_CHANNEL_3 = 8"
definition TIM_CHANNEL_4 :: u32 where "TIM_CHANNEL_4 = 0xC"

lemmas tim_channel_defs = TIM_CHANNEL_1_def TIM_CHANNEL_2_def TIM_CHANNEL_3_def TIM_CHANNEL_4_def

text \<open>\<open>reg &= (uint16_t)~mask\<close> also clears the upper half of the register.\<close>

definition clear16 :: "u16 \<Rightarrow> u32 \<Rightarrow> u32" where
  "clear16 m r = r AND ucast (NOT m)"

section \<open>The ST timer driver\<close>

text \<open>\<open>__HAL_TIM_DISABLE\<close>: the counter stops only if no channel is enabled.\<close>

definition HAL_TIM_DISABLE :: "tim_regs \<Rightarrow> tim_regs" where
  "HAL_TIM_DISABLE r =
     (if CCER r AND 0x1111 = 0
      then (if CCER r AND 0x0444 = 0 then r\<lparr>CR1 := CR1 r AND NOT 1\<rparr> else r)
      else r)"

definition HAL_TIM_ENABLE :: "tim_regs \<Rightarrow> tim_regs" where
  "HAL_TIM_ENABLE r = r\<lparr>CR1 := CR1 r OR 1\<rparr>"

text \<open>TIM2 and TIM3 are slave-capable: in trigger mode the counter is enabled by hardware.\<close>

definition enable_unless_trigger :: "tim_regs \<Rightarrow> tim_regs" where
  "enable_unless_trigger r = (if SMCR r AND 7 \<noteq> 6 then HAL_TIM_ENABLE r else r)"

definition channel_slot :: "u32 \<Rightarrow> nat" where
  "channel_slot ch = (if ch = TIM_CHANNEL_1 then 0 else if ch = TIM_CHANNEL_2 then 1
     else if ch = TIM_CHANNEL_3 then 2 else 3)"

definition TIM_CCxChannelCmd :: "u32 \<Rightarrow> u32 \<Rightarrow> tim_regs \<Rightarrow> tim_regs" where
  "TIM_CCxChannelCmd ch state r =
     (let sh = unat (ch AND 0x1F); tmp = push_bit sh 1 in
      r\<lparr>CCER := (CCER r AND NOT tmp) OR push_bit sh state\<rparr>)"

text \<open>\<open>HAL_TIM_PWM_Start(&htim2, Channel)\<close>; \<open>True\<close> is HAL\_OK. TIM2 has no break input.\<close>

definition HAL_TIM_PWM_Start :: "u32 \<Rightarrow> timers \<Rightarrow> bool \<times> timers" where
  "HAL_TIM_PWM_Start ch tm =
     (if \<not> ChannelReady (htim2 tm) ! channel_slot ch then (False, tm)
      else
        let tm = tm\<lparr>htim2 := (htim2 tm)\<lparr>ChannelReady := (ChannelReady (htim2 tm))[channel_slot ch := False]\<rparr>\<rparr>;
            tm = upd_tim TIM2 (TIM_CCxChannelCmd ch 1) tm;
            tm = upd_tim TIM2 enable_unless_trigger tm
        in (True, tm))"

definition HAL_TIM_PWM_Stop :: "u32 \<Rightarrow> timers \<Rightarrow> timers" where
  "HAL_TIM_PWM_Stop ch tm =
     (let tm = upd_tim TIM2 (TIM_CCxChannelCmd ch 0) tm;
          tm = upd_tim TIM2 HAL_TIM_DISABLE tm
      in tm\<lparr>htim2 := (htim2 tm)\<lparr>ChannelReady := (ChannelReady (htim2 tm))[channel_slot ch := True]\<rparr>\<rparr>)"

text \<open>The base timer calls on \<open>htim3\<close>; \<open>DIER\<close> bit 0 is the update interrupt.\<close>

definition HAL_TIM_Base_Start_IT :: "timers \<Rightarrow> bool \<times> timers" where
  "HAL_TIM_Base_Start_IT tm =
     (if \<not> BaseReady (htim3 tm) then (False, tm)
      else
        let tm = tm\<lparr>htim3 := (htim3 tm)\<lparr>BaseReady := False\<rparr>\<rparr>;
            tm = upd_tim TIM3 (\<lambda>r. r\<lparr>DIER := DIER r OR 1\<rparr>) tm;
            tm = upd_tim TIM3 enable_unless_trigger tm
        in (True, tm))"

definition HAL_TIM_Base_Stop_IT :: "timers \<Rightarrow> timers" where
  "HAL_TIM_Base_Stop_IT tm =
     (let tm = upd_tim TIM3 (\<lambda>r. r\<lparr>DIER := DIER r AND NOT 1\<rparr>) tm;
          tm = upd_tim TIM3 HAL_TIM_DISABLE tm
      in tm\<lparr>htim3 := (htim3 tm)\<lparr>BaseReady := True\<rparr>\<rparr>)"

section \<open>TIM2 as carrier and PWM\<close>

definition tim2_ccer_mask_from_channel :: "u32 \<Rightarrow> u16" where
  "tim2_ccer_mask_from_channel ch =
     (if ch = TIM_CHANNEL_1 then 0x0001
      else if ch = TIM_CHANNEL_2 then 0x0010
      else if ch = TIM_CHANNEL_3 then 0x0100
      else if ch = TIM_CHANNEL_4 then 0x1000
      else 0)"

definition startPWM_TIM2 :: "u32 \<Rightarrow> timers \<Rightarrow> timers" where
  "startPWM_TIM2 ch tm =
     (let tm = upd_tim TIM2 (\<lambda>r. r\<lparr>CR1 := CR1 r OR 1\<rparr>) tm in
      if ch = TIM_CHANNEL_1 then upd_tim TIM2 (\<lambda>r. r\<lparr>CCER := CCER r OR 0x0001\<rparr>) tm
      else if ch = TIM_CHANNEL_2 then upd_tim TIM2 (\<lambda>r. r\<lparr>CCER := CCER r OR 0x0010\<rparr>) tm
      else if ch = TIM_CHANNEL_3 then upd_tim TIM2 (\<lambda>r. r\<lparr>CCER := CCER r OR 0x0100\<rparr>) tm
      else if ch = TIM_CHANNEL_4 then upd_tim TIM2 (\<lambda>r. r\<lparr>CCER := CCER r OR 0x1000\<rparr>) tm
      else tm)"

definition stopPWM_TIM2 :: "u32 \<Rightarrow> timers \<Rightarrow> timers" where
  "stopPWM_TIM2 ch tm =
     (if ch = TIM_CHANNEL_1 then upd_tim TIM2 (\<lambda>r. r\<lparr>CCER := clear16 0x0001 (CCER r)\<rparr>) tm
      else if ch = TIM_CHANNEL_2 then upd_tim TIM2 (\<lambda>r. r\<lparr>CCER := clear16 0x0010 (CCER r)\<rparr>) tm
      else if ch = TIM_CHANNEL_3 then upd_tim TIM2 (\<lambda>r. r\<lparr>CCER := clear16 0x0100 (CCER r)\<rparr>) tm
      else if ch = TIM_CHANNEL_4 then upd_tim TIM2 (\<lambda>r. r\<lparr>CCER := clear16 0x1000 (CCER r)\<rparr>) tm
      else tm)"

definition set_tim2_ccr :: "u32 \<Rightarrow> u32 \<Rightarrow> timers \<Rightarrow> timers" where
  "set_tim2_ccr ch v tm =
     (if ch = TIM_CHANNEL_1 then upd_tim TIM2 (\<lambda>r. r\<lparr>CCR1 := v\<rparr>) tm
      else if ch = TIM_CHANNEL_2 then upd_tim TIM2 (\<lambda>r. r\<lparr>CCR2 := v\<rparr>) tm
      else if ch = TIM_CHANNEL_3 then upd_tim TIM2 (\<lambda>r. r\<lparr>CCR3 := v\<rparr>) tm
      else if ch = TIM_CHANNEL_4 then upd_tim TIM2 (\<lambda>r. r\<lparr>CCR4 := v\<rparr>) tm
      else tm)"

definition setDutyCycle_TIM2 :: "u32 \<Rightarrow> u8 \<Rightarrow> timers \<Rightarrow> timers" where
  "setDutyCycle_TIM2 ch percentage tm =
     (let p = (if percentage < 1 then 1 else percentage);
          p = (if p > 100 then 100 else p);
          period = ARR (tims tm TIM2);
          new_ccr = (period * ucast p) div 100
      in set_tim2_ccr ch new_ccr tm)"

definition tim2_stop_pwm_channel :: "u32 \<Rightarrow> timers \<Rightarrow> timers" where
  "tim2_stop_pwm_channel ch tm =
     (let m = tim2_ccer_mask_from_channel ch;
          tm = (if m \<noteq> 0 then upd_tim TIM2 (\<lambda>r. r\<lparr>CCER := clear16 m (CCER r)\<rparr>) tm else tm);
          tm = stopPWM_TIM2 ch tm
      in HAL_TIM_PWM_Stop ch tm)"

text \<open>The compare value for a 12-bit duty, as both timer families compute it.\<close>

definition ccr_from_u12 :: "u32 \<Rightarrow> u16 \<Rightarrow> u32" where
  "ccr_from_u12 arr value_u12 =
     (let period = arr + 1; ccr = (period * ucast value_u12 + 2047) div 4095
      in if ccr > arr then arr else ccr)"

definition tim2_set_ccr_from_u12 :: "u32 \<Rightarrow> u16 \<Rightarrow> timers \<Rightarrow> timers" where
  "tim2_set_ccr_from_u12 ch value_u12 tm =
     set_tim2_ccr ch (ccr_from_u12 (ARR (tims tm TIM2)) value_u12) tm"

definition pwm_ticks :: "u32 \<Rightarrow> timers \<Rightarrow> u32" where
  "pwm_ticks hz tm =
     (let timclk = hclk tm; timclk = (if timclk = 0 then 48000000 else timclk);
          ticks = timclk div hz
      in if ticks < 2 then 2 else ticks)"

definition tim2_set_pwm_hz :: "u32 \<Rightarrow> timers \<Rightarrow> bool \<times> timers" where
  "tim2_set_pwm_hz hz tm =
     (if hz < 1 then (False, tm)
      else (True, upd_tim TIM2 (\<lambda>r. r\<lparr>PSC := 0, ARR := pwm_ticks hz tm - 1, EGR := 1\<rparr>) tm))"

section \<open>TIM14, TIM16 and TIM17\<close>

definition tim16_17_set_pwm_hz :: "tim_id \<Rightarrow> u32 \<Rightarrow> timers \<Rightarrow> bool \<times> timers" where
  "tim16_17_set_pwm_hz tim hz tm =
     (if hz < 1 then (False, tm)
      else
        let ticks = pwm_ticks hz tm;
            psc = (if ticks > 0x10000 then
                     let psc = (ticks + 0xFFFF) div 0x10000;
                         psc = (if psc > 0 then psc - 1 else psc)
                     in if psc > 0xFFFF then 0xFFFF else psc
                   else 0);
            dv = psc + 1;
            arr = ticks div dv;
            arr = (if arr < 2 then 2 else arr);
            arr = (if arr > 0x10000 then 0x10000 else arr)
        in (True, upd_tim tim (\<lambda>r. r\<lparr>PSC := take_bit 16 psc, ARR := take_bit 16 (arr - 1), EGR := 1\<rparr>) tm))"

definition tim14_set_pwm_hz :: "u32 \<Rightarrow> timers \<Rightarrow> bool \<times> timers" where
  "tim14_set_pwm_hz hz tm = tim16_17_set_pwm_hz TIM14 hz tm"

definition tim14_16_17_set_ccr_from_u12 :: "tim_id \<Rightarrow> u16 \<Rightarrow> timers \<Rightarrow> timers" where
  "tim14_16_17_set_ccr_from_u12 tim value_u12 tm =
     upd_tim tim (\<lambda>r. r\<lparr>CCR1 := take_bit 16 (ccr_from_u12 (ARR r) value_u12)\<rparr>) tm"

definition pwm_mode_1 :: "u32 \<Rightarrow> u32" where
  "pwm_mode_1 ccmr = (ccmr AND ucast (NOT (0x70 :: u16))) OR push_bit 4 6 OR 8"

definition pwm_timer_enable_once :: "tim_id \<Rightarrow> timers \<Rightarrow> timers" where
  "pwm_timer_enable_once i tm =
     (if i = TIM14 then
        upd_tim TIM14 (\<lambda>r. r\<lparr>CR1 := CR1 r OR 0x80, CCMR1 := pwm_mode_1 (CCMR1 r)\<rparr>)
          (tm\<lparr>tim_clk := (tim_clk tm)(TIM14 := True)\<rparr>)
      else if i = TIM16 \<or> i = TIM17 then
        upd_tim i (\<lambda>r. r\<lparr>CR1 := CR1 r OR 0x80, CCMR1 := pwm_mode_1 (CCMR1 r), BDTR := BDTR r OR 0x8000\<rparr>)
          (tm\<lparr>tim_clk := (tim_clk tm)(i := True)\<rparr>)
      else tm)"

section \<open>PWM routes\<close>

record pwm_route =
  timer_id :: tim_id
  rt_channel :: u32
  is_complement :: bool
  rt_af :: u8

definition pwm_route_from_pin :: "gpio_port \<Rightarrow> u8 \<Rightarrow> pwm_route option" where
  "pwm_route_from_pin port pin_index =
     (if port = GPIOA then
        (if pin_index = 0 then Some \<lparr>timer_id = TIM2, rt_channel = TIM_CHANNEL_1, is_complement = False, rt_af = 2\<rparr>
         else if pin_index = 1 then Some \<lparr>timer_id = TIM2, rt_channel = TIM_CHANNEL_2, is_complement = False, rt_af = 2\<rparr>
         else if pin_index = 2 then Some \<lparr>timer_id = TIM2, rt_channel = TIM_CHANNEL_3, is_complement = False, rt_af = 2\<rparr>
         else if pin_index = 4 then Some \<lparr>timer_id = TIM14, rt_channel = TIM_CHANNEL_1, is_complement = False, rt_af = 4\<rparr>
         else if pin_index = 5 then Some \<lparr>timer_id = TIM2, rt_channel = TIM_CHANNEL_1, is_complement = False, rt_af = 2\<rparr>
         else if pin_index = 6 then Some \<lparr>timer_id = TIM16, rt_channel = TIM_CHANNEL_1, is_complement = False, rt_af = 5\<rparr>
         else if pin_index = 7 then Some \<lparr>timer_id = TIM17, rt_channel = TIM_CHANNEL_1, is_complement = False, rt_af = 5\<rparr>
         else None)
      else if port = GPIOB then
        (if pin_index = 6 then Some \<lparr>timer_id = TIM16, rt_channel = TIM_CHANNEL_1, is_complement = True, rt_af = 2\<rparr>
         else if pin_index = 7 then Some \<lparr>timer_id = TIM17, rt_channel = TIM_CHANNEL_1, is_complement = True, rt_af = 2\<rparr>
         else if pin_index = 8 then Some \<lparr>timer_id = TIM16, rt_channel = TIM_CHANNEL_1, is_complement = False, rt_af = 2\<rparr>
         else None)
      else None)"

definition tim2_channel_from_pin :: "gpio_port \<Rightarrow> u8 \<Rightarrow> u32 option" where
  "tim2_channel_from_pin port pin_index =
     (case pwm_route_from_pin port pin_index of
        None \<Rightarrow> None
      | Some r \<Rightarrow> if timer_id r \<noteq> TIM2 then None else Some (rt_channel r))"

definition pwm_start_route :: "pwm_route \<Rightarrow> timers \<Rightarrow> timers" where
  "pwm_start_route r tm =
     (if timer_id r = TIM2 then snd (HAL_TIM_PWM_Start (rt_channel r) (startPWM_TIM2 (rt_channel r) tm))
      else
        let tm = pwm_timer_enable_once (timer_id r) tm in
        if timer_id r \<in> {TIM14, TIM16, TIM17} then
          let tm = upd_tim (timer_id r) (\<lambda>t. t\<lparr>CR1 := CR1 t OR 1\<rparr>) tm in
          if is_complement r then upd_tim (timer_id r) (\<lambda>t. t\<lparr>CCER := CCER t OR 4\<rparr>) tm
          else upd_tim (timer_id r) (\<lambda>t. t\<lparr>CCER := CCER t OR 1\<rparr>) tm
        else tm)"

definition pwm_stop_route :: "pwm_route \<Rightarrow> timers \<Rightarrow> timers" where
  "pwm_stop_route r tm =
     (if timer_id r = TIM2 then tim2_stop_pwm_channel (rt_channel r) tm
      else if timer_id r \<in> {TIM14, TIM16, TIM17} then
        (if is_complement r then upd_tim (timer_id r) (\<lambda>t. t\<lparr>CCER := clear16 4 (CCER t)\<rparr>) tm
         else upd_tim (timer_id r) (\<lambda>t. t\<lparr>CCER := clear16 1 (CCER t)\<rparr>) tm)
      else tm)"

section \<open>The sampler tick and the shared TIM2 pins\<close>

definition tim3_set_tick_us :: "u8 \<Rightarrow> timers \<Rightarrow> timers" where
  "tim3_set_tick_us requested_us tm =
     (let us = (if requested_us < 5 then 5 else requested_us);
          ticks = ucast us * 48 :: u32;
          ticks = (if ticks < 2 then 2 else ticks);
          ticks = (if ticks > 0x10000 then 0x10000 else ticks);
          arr = take_bit 16 (ticks - 1);
          cr1 = take_bit 16 (CR1 (tims tm TIM3))
      in (upd_tim TIM3 (\<lambda>r. r\<lparr>ARR := arr, EGR := 1, SR := clear16 1 (SR r), CR1 := cr1\<rparr>) tm)\<lparr>emw_tick_us := us\<rparr>)"

definition disable_tim2_output_if_needed :: "gpio_port \<Rightarrow> u8 \<Rightarrow> timers \<Rightarrow> timers" where
  "disable_tim2_output_if_needed port pin_index tm =
     (if port \<noteq> GPIOA then tm
      else
        (case (if pin_index = 0 then Some (TIM_CHANNEL_1, 0x0001)
               else if pin_index = 1 then Some (TIM_CHANNEL_2, 0x0010)
               else if pin_index = 2 then Some (TIM_CHANNEL_3, 0x0100)
               else if pin_index = 3 then Some (TIM_CHANNEL_4, 0x1000)
               else None) of
           None \<Rightarrow> tm
         | Some (channel, ccer_mask) \<Rightarrow>
             HAL_TIM_PWM_Stop channel (upd_tim TIM2 (\<lambda>r. r\<lparr>CCER := clear16 ccer_mask (CCER r)\<rparr>) tm)))"

section \<open>Arithmetic of the period computations\<close>

lemma upd_tim_same [simp]: "tims (upd_tim i f tm) i = f (tims tm i)"
  by (simp add: upd_tim_def)

lemma upd_tim_other: "j \<noteq> i \<Longrightarrow> tims (upd_tim i f tm) j = tims tm j"
  by (simp add: upd_tim_def)

lemma upd_tim_fields [simp]: "htim2 (upd_tim i f tm) = htim2 tm" "htim3 (upd_tim i f tm) = htim3 tm"
  "hclk (upd_tim i f tm) = hclk tm" "emw_tick_us (upd_tim i f tm) = emw_tick_us tm"
  by (simp_all add: upd_tim_def)

definition clk_of :: "timers \<Rightarrow> nat" where
  "clk_of tm = (if hclk tm = 0 then 48000000 else unat (hclk tm))"

lemma unat_pwm_ticks: "unat (pwm_ticks hz tm) = max 2 (clk_of tm div unat hz)"
proof -
  let ?c = "if hclk tm = 0 then 48000000 else hclk tm"
  have c: "unat ?c = clk_of tm" by (simp add: clk_of_def)
  have "unat (?c div hz) = clk_of tm div unat hz" by (simp add: unat_div c [symmetric])
  then show ?thesis by (auto simp: pwm_ticks_def Let_def word_less_nat_alt max_def)
qed

lemma take_bit_16_small: "unat (x :: u32) < 65536 \<Longrightarrow> take_bit 16 x = x"
  by (simp add: word_unat_eq_iff unsigned_take_bit_eq take_bit_nat_eq_self)

text \<open>The prescaler and period split, on natural numbers.\<close>

lemma period_split:
  assumes "2 \<le> (T :: nat)"
  defines "P \<equiv> (if 65536 < T then (T + 65535) div 65536 else 1)"
  shows "1 \<le> P" "2 \<le> T div P" "T div P \<le> 65536" "P * (T div P) \<le> T" "T < P * (T div P) + P"
proof -
  show P1: "1 \<le> P" by (auto simp: P_def)
  show "P * (T div P) \<le> T" by simp
  show "T < P * (T div P) + P"
    using P1 by (metis add.commute dividend_less_div_times mult.commute not_one_le_zero zero_less_iff_neq_zero)
  show "T div P \<le> 65536"
  proof (cases "65536 < T")
    case True
    have "T \<le> P * 65536" using True by (simp add: P_def)
    then have "T < P * Suc 65536" using P1 by simp
    then show ?thesis using P1 by (simp add: div_less_iff_less_mult less_Suc_eq_le [symmetric] mult.commute)
  qed (simp add: P_def)
  show "2 \<le> T div P"
  proof (cases "65536 < T")
    case True
    have "2 * P \<le> T" using True by (simp add: P_def)
    then show ?thesis using P1 by (simp add: less_eq_div_iff_mult_less_eq)
  qed (use assms(1) in \<open>simp add: P_def\<close>)
qed

lemma clear16_and: "clear16 m x AND ucast m = 0"
  unfolding clear16_def by (rule bit_word_eqI) (auto simp: bit_simps)

lemma clear16_0 [simp]: "clear16 m 0 = 0"
  by (simp add: clear16_def)

definition psc_of :: "u32 \<Rightarrow> u32" where
  "psc_of ticks = (if ticks > 0x10000 then
     let psc = (ticks + 0xFFFF) div 0x10000; psc = (if psc > 0 then psc - 1 else psc)
     in if psc > 0xFFFF then 0xFFFF else psc else 0)"

lemma unat_psc_of:
  assumes "unat ticks \<le> 2147483648"
  shows "unat (psc_of ticks) + 1 = (if 65536 < unat ticks then (unat ticks + 65535) div 65536 else 1)"
proof (cases "65536 < unat ticks")
  case False
  then show ?thesis by (simp add: psc_of_def word_less_nat_alt)
next
  case True
  have "unat (ticks + 0xFFFF) = unat ticks + 65535"
    using assms by (simp add: unat_word_ariths)
  then have q: "unat ((ticks + 0xFFFF) div 0x10000) = (unat ticks + 65535) div 65536"
    by (simp add: unat_div)
  have b: "1 \<le> (unat ticks + 65535) div 65536" "(unat ticks + 65535) div 65536 \<le> 32769"
    using div_le_mono [of 65536 "unat ticks + 65535" 65536] True
      div_le_mono [of "unat ticks + 65535" 2147549183 65536] assms by simp_all
  let ?q = "(ticks + 0xFFFF) div 0x10000"
  have m: "unat (?q - 1) = (unat ticks + 65535) div 65536 - 1"
    using b q by (simp add: unat_sub_if')
  have m2: "unat (?q - 1) \<le> 65535" using b(2) unfolding m by linarith
  then have nb: "\<not> ?q - 1 > 0xFFFF" unfolding word_less_nat_alt by simp
  have qp: "?q > 0" using b q by (simp add: word_less_nat_alt)
  have "ticks > 0x10000" using True by (simp add: word_less_nat_alt)
  then have "psc_of ticks = ?q - 1" unfolding psc_of_def Let_def using nb qp by simp
  then show ?thesis using m b True by simp
qed

lemma tim16_17_regs:
  assumes "1 \<le> hz" "clk_of tm \<le> 2147483648"
  shows "fst (tim16_17_set_pwm_hz i hz tm) \<and>
    (let r = tims (snd (tim16_17_set_pwm_hz i hz tm)) i; T = unat (pwm_ticks hz tm);
         P = (if 65536 < T then (T + 65535) div 65536 else 1)
     in unat (PSC r) + 1 = P \<and> unat (ARR r) + 1 = T div P \<and> P \<le> 65536)"
proof -
  let ?t = "pwm_ticks hz tm"
  let ?T = "unat ?t"
  let ?P = "if 65536 < ?T then (?T + 65535) div 65536 else 1"
  have T: "2 \<le> ?T" "?T \<le> 2147483648"
    using le_trans [OF div_le_dividend assms(2), of "unat hz"] by (simp_all add: unat_pwm_ticks)
  note sp = period_split [OF T(1)]
  have P: "unat (psc_of ?t) + 1 = ?P" by (rule unat_psc_of [OF T(2)])
  have Pb: "?P \<le> 32769" using div_le_mono [of "?T + 65535" 2147549183 65536] T by simp
  have p16: "take_bit 16 (psc_of ?t) = psc_of ?t" using P Pb by (intro take_bit_16_small) linarith
  have p1: "unat (psc_of ?t + 1) = ?P" using P Pb by (simp add: unat_word_ariths)
  let ?a = "?t div (psc_of ?t + 1)"
  have a: "unat ?a = ?T div ?P" by (simp only: unat_div p1)
  have ga: "\<not> ?a < 2" "\<not> ?a > 0x10000" using sp(2,3) a by (simp_all only: word_less_nat_alt) simp_all
  have a1: "unat (?a - 1) = ?T div ?P - 1" using sp(2) a by (simp add: unat_sub_if')
  have a16: "take_bit 16 (?a - 1) = ?a - 1" using a1 sp(2,3) by (intro take_bit_16_small) linarith
  have nz: "\<not> hz < 1" using assms(1) by (simp only: not_less)
  have eq: "tim16_17_set_pwm_hz i hz tm =
      (True, upd_tim i (\<lambda>r. r\<lparr>PSC := psc_of ?t, ARR := ?a - 1, EGR := 1\<rparr>) tm)"
    unfolding tim16_17_set_pwm_hz_def Let_def psc_of_def [unfolded Let_def, symmetric]
    using nz ga a16 p16 by simp
  show ?thesis
    unfolding eq Let_def using P Pb a1 sp(2) by simp
qed

lemma ccr_from_u12_le: "ccr_from_u12 arr v \<le> arr"
  by (auto simp: ccr_from_u12_def Let_def not_less)

lemma ccr_from_u12_exact:
  assumes "v \<le> 4095" "(unat arr + 1) * 4095 + 2047 < 2 ^ 32"
  shows "unat (ccr_from_u12 arr v) = min (unat arr) (((unat arr + 1) * unat v + 2047) div 4095)"
proof -
  have v: "unat v \<le> 4095" using assms(1) by (simp add: word_le_nat_alt)
  have le: "(unat arr + 1) * unat v \<le> (unat arr + 1) * 4095" using v by (intro mult_le_mono2)
  have a: "unat (arr + 1) = unat arr + 1" using assms(2) by (simp add: unat_word_ariths)
  have u: "unat (ucast v :: u32) = unat v"
    using v by (simp add: unsigned_ucast_eq take_bit_nat_eq_self)
  have m: "unat ((arr + 1) * ucast v) = (unat arr + 1) * unat v"
    using le assms(2) by (simp add: unat_word_ariths(2) a u)
  have s: "unat ((arr + 1) * ucast v + 2047) = (unat arr + 1) * unat v + 2047"
    using le assms(2) by (simp add: unat_word_ariths(1) m)
  have d: "unat (((arr + 1) * ucast v + 2047) div 4095) = ((unat arr + 1) * unat v + 2047) div 4095"
    by (simp add: unat_div s)
  show ?thesis
    by (simp add: ccr_from_u12_def Let_def word_less_nat_alt d min_def)
qed

section \<open>Properties\<close>

text \<open>Programming a PWM frequency on the 16-bit timers always fits the registers and is as exact as
  the prescaler allows: with P the prescale factor and A the period, P is at most 65536, A is between
  2 and 65536, and P*A is the largest multiple of P below the exact number of clock ticks per cycle.\<close>

theorem tim16_17_period:
  assumes "1 \<le> hz" "clk_of tm \<le> 2147483648"
  shows "let r = tims (snd (tim16_17_set_pwm_hz i hz tm)) i; P = unat (PSC r) + 1; A = unat (ARR r) + 1;
             T = max 2 (clk_of tm div unat hz)
    in fst (tim16_17_set_pwm_hz i hz tm) \<and> 1 \<le> P \<and> P \<le> 65536 \<and> 2 \<le> A \<and> A \<le> 65536 \<and>
       P * A \<le> T \<and> T < P * A + P"
proof -
  let ?r = "tims (snd (tim16_17_set_pwm_hz i hz tm)) i" and ?T = "max 2 (clk_of tm div unat hz)"
  let ?P = "if 65536 < ?T then (?T + 65535) div 65536 else 1"
  note sp = period_split [of ?T, OF max.cobounded1]
  note r = tim16_17_regs [OF assms, of i, unfolded Let_def unat_pwm_ticks]
  have P: "unat (PSC ?r) + 1 = ?P" and A: "unat (ARR ?r) + 1 = ?T div ?P" using r by blast+
  show ?thesis unfolding Let_def P A using r sp by blast
qed

definition tim_reset :: tim_regs where
  "tim_reset = \<lparr>CR1 = 0, SMCR = 0, DIER = 0, SR = 0, EGR = 0, CCMR1 = 0, CCER = 0, PSC = 0, ARR = 0xFFFF,
     CCR1 = 0, CCR2 = 0, CCR3 = 0, CCR4 = 0, BDTR = 0\<rparr>"

definition timers_reset :: timers where
  "timers_reset = \<lparr>tims = (\<lambda>_. tim_reset), htim2 = \<lparr>ChannelReady = [True, True, True, True], BaseReady = True\<rparr>,
     htim3 = \<lparr>ChannelReady = [True, True, True, True], BaseReady = True\<rparr>, tim_clk = (\<lambda>_. False),
     emw_tick_us = 5, hclk = 48000000\<rparr>"

lemma clk_of_reset [simp]: "clk_of timers_reset = 48000000"
  by (simp add: clk_of_def timers_reset_def)

theorem tim16_17_period_witness:
  "(unat (PSC (tims (snd (tim16_17_set_pwm_hz TIM16 50 timers_reset)) TIM16)) + 1) *
   (unat (ARR (tims (snd (tim16_17_set_pwm_hz TIM16 50 timers_reset)) TIM16)) + 1) \<le> 960000"
  using tim16_17_period [of 50 timers_reset TIM16] by (simp add: Let_def)

text \<open>A 12-bit duty value sets TIM2's compare register to the rounded fraction of the period, never
  above the reload value, as long as period times duty fits 32 bits (48 MHz: from 46 Hz upwards);
  value 0 is always-off and value 4095 saturates at the reload value.\<close>

theorem tim2_duty_exact:
  assumes "1 \<le> hz" "value \<le> 4095" "clk_of tm div unat hz \<le> 1048000"
  shows "let tm' = tim2_set_ccr_from_u12 TIM_CHANNEL_1 value (snd (tim2_set_pwm_hz hz tm));
             r = tims tm' TIM2; T = max 2 (clk_of tm div unat hz)
    in PSC r = 0 \<and> unat (ARR r) + 1 = T \<and>
       unat (CCR1 r) = min (T - 1) ((T * unat value + 2047) div 4095) \<and>
       (value = 0 \<longrightarrow> CCR1 r = 0) \<and> (value = 4095 \<longrightarrow> CCR1 r = ARR r)"
proof -
  let ?T = "max 2 (clk_of tm div unat hz)"
  let ?arr = "pwm_ticks hz tm - 1"
  have nz: "\<not> hz < 1" using assms(1) by (simp only: not_less)
  have a: "unat ?arr = ?T - 1" using unat_pwm_ticks [of hz tm] by (simp add: unat_sub_if')
  then have a1: "unat ?arr + 1 = ?T" by (simp add: max_def)
  have "(unat ?arr + 1) * 4095 + 2047 < 2 ^ 32" using assms(3) unfolding a1 by (simp add: max_def)
  note e = ccr_from_u12_exact [OF assms(2) this, unfolded a1, unfolded a]
  have regs: "tims (tim2_set_ccr_from_u12 TIM_CHANNEL_1 value (snd (tim2_set_pwm_hz hz tm))) TIM2 =
      (tims tm TIM2)\<lparr>PSC := 0, ARR := ?arr, EGR := 1, CCR1 := ccr_from_u12 ?arr value\<rparr>"
    using nz by (simp add: tim2_set_ccr_from_u12_def tim2_set_pwm_hz_def set_tim2_ccr_def)
  let ?r = "tims (tim2_set_ccr_from_u12 TIM_CHANNEL_1 value (snd (tim2_set_pwm_hz hz tm))) TIM2"
  have f: "PSC ?r = 0" "ARR ?r = ?arr" "CCR1 ?r = ccr_from_u12 ?arr value"
    by (simp_all add: regs)
  have z: "value = 0 \<longrightarrow> ccr_from_u12 ?arr value = 0"
  proof
    assume "value = 0"
    with e have "unat (ccr_from_u12 ?arr value) = 0" by simp
    then show "ccr_from_u12 ?arr value = 0" by (simp only: unat_eq_zero)
  qed
  have m: "value = 4095 \<longrightarrow> ccr_from_u12 ?arr value = ?arr"
  proof
    assume "value = 4095"
    with e have "unat (ccr_from_u12 ?arr value) = ?T - 1" by simp
    with a show "ccr_from_u12 ?arr value = ?arr" by (simp only: word_unat_eq_iff)
  qed
  show ?thesis
    unfolding Let_def f using e a1 z m by blast
qed

theorem tim2_duty_exact_witness:
  "unat (CCR1 (tims (tim2_set_ccr_from_u12 TIM_CHANNEL_1 1024 (snd (tim2_set_pwm_hz 1000 timers_reset))) TIM2)) = 12003"
  using tim2_duty_exact [of 1000 1024 timers_reset] by (simp add: Let_def)

text \<open>Below 46 Hz the 12-bit duty computation of TIM2 overflows: at 10 Hz a half-scale duty of 2048
  programs a compare value below one eighth of the period.\<close>

theorem tim2_duty_overflow:
  assumes "hclk tm = 48000000"
  shows "let tm' = tim2_set_ccr_from_u12 TIM_CHANNEL_1 2048 (snd (tim2_set_pwm_hz 10 tm)); r = tims tm' TIM2
    in ARR r = 4799999 \<and> CCR1 r = 302922 \<and> 8 * unat (CCR1 r) < unat (ARR r)"
  using assms by (simp add: Let_def tim2_set_ccr_from_u12_def tim2_set_pwm_hz_def set_tim2_ccr_def pwm_ticks_def
      ccr_from_u12_def)

theorem tim2_duty_overflow_witness:
  "CCR1 (tims (tim2_set_ccr_from_u12 TIM_CHANNEL_1 2048 (snd (tim2_set_pwm_hz 10 timers_reset))) TIM2) = 302922"
  using tim2_duty_overflow [of timers_reset] by (simp add: Let_def timers_reset_def)

text \<open>PWM output never interferes with the sampler: no pin is routed to TIM3, and starting or
  stopping any pin's PWM route leaves the registers and the state of TIM3 as they were.\<close>

theorem pwm_leaves_sampler_timer:
  assumes "pwm_route_from_pin port pin_index = Some r"
  shows "timer_id r \<noteq> TIM3 \<and> tims (pwm_start_route r tm) TIM3 = tims tm TIM3 \<and>
    tims (pwm_stop_route r tm) TIM3 = tims tm TIM3 \<and> htim3 (pwm_start_route r tm) = htim3 tm \<and>
    htim3 (pwm_stop_route r tm) = htim3 tm"
proof -
  have t: "timer_id r \<in> {TIM2, TIM14, TIM16, TIM17}"
    using assms by (auto simp: pwm_route_from_pin_def split: if_splits)
  show ?thesis
    using t by (auto simp: pwm_start_route_def pwm_stop_route_def tim2_stop_pwm_channel_def stopPWM_TIM2_def
        startPWM_TIM2_def HAL_TIM_PWM_Start_def HAL_TIM_PWM_Stop_def pwm_timer_enable_once_def upd_tim_def Let_def)
qed

theorem pwm_leaves_sampler_timer_witness:
  "tims (pwm_start_route \<lparr>timer_id = TIM14, rt_channel = TIM_CHANNEL_1, is_complement = False, rt_af = 4\<rparr> timers_reset) TIM3 = tim_reset"
  using pwm_leaves_sampler_timer [of GPIOA 4 _ timers_reset]
  by (simp add: pwm_route_from_pin_def) (simp add: timers_reset_def)

text \<open>The sampler tick is programmed exactly: for every requested value the reload register counts
  48 clocks per microsecond, with 5 microseconds as the minimum, and the timer is running afterwards
  exactly if it was running before.\<close>

theorem tim3_tick_exact:
  "let tm' = tim3_set_tick_us us tm; r = tims tm' TIM3
   in unat (ARR r) + 1 = 48 * max 5 (unat us) \<and> unat (emw_tick_us tm') = max 5 (unat us) \<and>
      CR1 r AND 1 = CR1 (tims tm TIM3) AND 1 \<and> SR r AND 1 = 0"
proof -
  let ?us = "if us < 5 then 5 else us"
  have u: "unat ?us = max 5 (unat us)" by (auto simp: word_less_nat_alt max_def)
  have b: "unat us < 256" using unsigned_less [of us] by simp
  let ?k = "ucast ?us * 48 :: u32"
  have k: "unat ?k = 48 * max 5 (unat us)"
    using b by (simp add: unat_word_ariths unsigned_ucast_eq take_bit_nat_eq_self u)
  have nk: "\<not> ?k < 2" "\<not> ?k > 0x10000" using b k by (simp_all add: word_less_nat_alt)
  have k1: "unat (?k - 1) = 48 * max 5 (unat us) - 1" using b k by (simp add: unat_sub_if')
  have t: "take_bit 16 (?k - 1) = ?k - 1" using b k1 by (intro take_bit_16_small) simp
  have r: "tims (tim3_set_tick_us us tm) TIM3 =
      (tims tm TIM3)\<lparr>ARR := ?k - 1, EGR := 1, SR := clear16 1 (SR (tims tm TIM3)), CR1 := take_bit 16 (CR1 (tims tm TIM3))\<rparr>"
    unfolding tim3_set_tick_us_def Let_def using nk t by (simp add: upd_tim_def)
  have e: "emw_tick_us (tim3_set_tick_us us tm) = ?us" by (simp add: tim3_set_tick_us_def Let_def)
  have c: "take_bit 16 x AND 1 = x AND (1 :: u32)" for x
    by (rule bit_word_eqI) (auto simp: bit_simps)
  have s: "clear16 1 x AND 1 = 0" for x using clear16_and [of 1 x] by simp
  show ?thesis unfolding r e Let_def using u k1 c s by simp
qed

definition tim2_channels :: "u32 list" where
  "tim2_channels = [TIM_CHANNEL_1, TIM_CHANNEL_2, TIM_CHANNEL_3, TIM_CHANNEL_4]"

lemma channel_slot_nth: "k < 4 \<Longrightarrow> channel_slot (tim2_channels ! k) = k"
proof -
  assume "k < 4"
  then have "k = 0 \<or> k = 1 \<or> k = 2 \<or> k = 3" by auto
  then show ?thesis
    by (elim disjE) (simp_all add: tim2_channels_def channel_slot_def tim_channel_defs)
qed

lemma PWM_Start_idle:
  assumes "ChannelReady (htim2 tm) ! k" "k < 4" "CCER (tims tm TIM2) = 0"
  shows "CCER (tims (stopPWM_TIM2 (tim2_channels ! k) (snd (HAL_TIM_PWM_Start (tim2_channels ! k) tm))) TIM2) = 0"
proof -
  have "k = 0 \<or> k = 1 \<or> k = 2 \<or> k = 3" using assms(2) by auto
  then show ?thesis
    using assms(1,3)
    by (elim disjE) (simp_all add: tim2_channels_def tim_channel_defs HAL_TIM_PWM_Start_def stopPWM_TIM2_def
        channel_slot_def TIM_CCxChannelCmd_def enable_unless_trigger_def HAL_TIM_ENABLE_def clear16_def Let_def)
qed

lemma stopPWM_htim2 [simp]: "htim2 (stopPWM_TIM2 ch tm) = htim2 tm"
  by (simp add: stopPWM_TIM2_def)

lemma disable_idle:
  assumes "CCER (tims tm TIM2) = 0" "p < 4"
  shows "CCER (tims (disable_tim2_output_if_needed GPIOA (of_nat p) tm) TIM2) = 0 \<and>
    CR1 (tims (disable_tim2_output_if_needed GPIOA (of_nat p) tm) TIM2) = CR1 (tims tm TIM2) AND NOT 1 \<and>
    ChannelReady (htim2 (disable_tim2_output_if_needed GPIOA (of_nat p) tm)) = (ChannelReady (htim2 tm))[p := True]"
proof -
  have "p = 0 \<or> p = 1 \<or> p = 2 \<or> p = 3" using assms(2) by auto
  then show ?thesis
    using assms(1)
    by (elim disjE) (simp_all add: disable_tim2_output_if_needed_def tim_channel_defs HAL_TIM_PWM_Stop_def
        channel_slot_def TIM_CCxChannelCmd_def HAL_TIM_DISABLE_def Let_def)
qed

text \<open>A retransmission can lose its carrier: the end of a transmission clears the channel's output
  bit but leaves the driver's channel state busy, so after any GPIO command on another TIM2 pin (which
  stops the counter because no channel is enabled) the next start of the same channel is refused and
  the counter stays stopped.\<close>

theorem carrier_lost_after_gpio:
  assumes "k < 4" "p < 4" "p \<noteq> k" "CCER (tims tm TIM2) = 0" "length (ChannelReady (htim2 tm)) = 4"
    and "fst (HAL_TIM_PWM_Start (tim2_channels ! k) tm)"
  shows "let tm' = disable_tim2_output_if_needed GPIOA (of_nat p)
        (stopPWM_TIM2 (tim2_channels ! k) (snd (HAL_TIM_PWM_Start (tim2_channels ! k) tm)))
    in HAL_TIM_PWM_Start (tim2_channels ! k) tm' = (False, tm') \<and> CR1 (tims tm' TIM2) AND 1 = 0"
proof -
  let ?tm1 = "stopPWM_TIM2 (tim2_channels ! k) (snd (HAL_TIM_PWM_Start (tim2_channels ! k) tm))"
  let ?tm2 = "disable_tim2_output_if_needed GPIOA (of_nat p) ?tm1"
  note slot = channel_slot_nth [OF assms(1)]
  have rdy: "ChannelReady (htim2 tm) ! k"
    using assms(6) by (simp add: HAL_TIM_PWM_Start_def slot split: if_splits)
  have c1: "CCER (tims ?tm1 TIM2) = 0" by (rule PWM_Start_idle [OF rdy assms(1,4)])
  have b1: "ChannelReady (htim2 ?tm1) = (ChannelReady (htim2 tm))[k := False]"
    using rdy by (simp add: HAL_TIM_PWM_Start_def slot Let_def)
  note d = disable_idle [OF c1 assms(2)]
  have "\<not> ChannelReady (htim2 ?tm2) ! k" using d b1 assms(1,3,5) by simp
  then have "HAL_TIM_PWM_Start (tim2_channels ! k) ?tm2 = (False, ?tm2)"
    by (simp add: HAL_TIM_PWM_Start_def slot)
  moreover have "CR1 (tims ?tm2 TIM2) AND 1 = 0"
    using d by (simp add: and.assoc)
  ultimately show ?thesis by (simp add: Let_def)
qed

theorem carrier_lost_after_gpio_witness:
  "fst (HAL_TIM_PWM_Start TIM_CHANNEL_1
     (disable_tim2_output_if_needed GPIOA 1 (stopPWM_TIM2 TIM_CHANNEL_1 (snd (HAL_TIM_PWM_Start TIM_CHANNEL_1 timers_reset))))) = False"
proof -
  have f: "fst (HAL_TIM_PWM_Start (tim2_channels ! 0) timers_reset)"
    by (simp add: timers_reset_def HAL_TIM_PWM_Start_def channel_slot_def tim2_channels_def Let_def)
  have "CCER (tims timers_reset TIM2) = 0" "length (ChannelReady (htim2 timers_reset)) = 4"
    by (simp_all add: timers_reset_def tim_reset_def)
  from carrier_lost_after_gpio [OF _ _ _ this f, of 1] show ?thesis
    by (simp add: tim2_channels_def Let_def)
qed

end
