(* ===== verification/Adc_Read.thy ===== *)
theory Adc_Read
  imports Pwm_Timers
begin

text \<open>
  The analog reads of \<open>Core/Src/main.c\<close>: one-time initialisation with calibration, channel
  selection, single conversions with guard counters and the averaging of the ADC command. The
  control, status and data registers are volatile reads of the trace; \<open>adc_CR\<close> and \<open>adc_ISR\<close> hold
  the last value written to them.
\<close>

record adc =
  adc_initialized :: bool
  APB2ENR_ADC1EN :: bool
  adc_CR :: u32
  adc_ISR :: u32
  CFGR1 :: u32
  CFGR2 :: u32
  SMPR :: u32
  CHSELR :: u32
  CCR :: u32

definition adc_guard :: nat where "adc_guard = 1000000"

definition adc_init_once :: "adc \<Rightarrow> trace \<Rightarrow> (adc \<times> trace) option" where
  "adc_init_once a t =
     (if adc_initialized a then Some (a, t)
      else do {
        let a = a\<lparr>APB2ENR_ADC1EN := True\<rparr>;
        (cr, t) \<leftarrow> rd t;
        (a, t) \<leftarrow> (if cr AND 1 \<noteq> 0
          then do {
            (cr, t) \<leftarrow> rd t;
            (ok, t) \<leftarrow> guard_wait adc_guard (\<lambda>x. x AND 1 = 0) t;
            Some (a\<lparr>adc_CR := cr OR 2\<rparr>, t) }
          else Some (a, t));
        (cr, t) \<leftarrow> rd t;
        let a = a\<lparr>adc_CR := cr OR 0x80000000\<rparr>;
        (ok, t) \<leftarrow> guard_wait adc_guard (\<lambda>x. x AND 0x80000000 = 0) t;
        let a = a\<lparr>CFGR1 := 0, CFGR2 := (CFGR2 a AND NOT 0xC0000000) OR 0x40000000, SMPR := 7\<rparr>;
        (isr, t) \<leftarrow> rd t;
        let a = a\<lparr>adc_ISR := isr OR 1\<rparr>;
        (cr, t) \<leftarrow> rd t;
        let a = a\<lparr>adc_CR := cr OR 1\<rparr>;
        (ok, t) \<leftarrow> guard_wait adc_guard (\<lambda>x. x AND 1 \<noteq> 0) t;
        Some (a\<lparr>adc_initialized := True\<rparr>, t) })"

definition adc_channel_from_pin :: "gpio_port \<Rightarrow> u8 \<Rightarrow> u32 option" where
  "adc_channel_from_pin port pin_index =
     (let channel = (if port = GPIOA then (if pin_index \<le> 7 then uint pin_index else - 1)
                     else if port = GPIOB then (if pin_index \<le> 1 then 8 + uint pin_index else - 1)
                     else - 1)
      in if channel < 0 \<or> 18 < channel then None else Some (push_bit (nat channel) 1))"

definition adc_read_single :: "u32 \<Rightarrow> adc \<Rightarrow> trace \<Rightarrow> (u16 option \<times> adc \<times> trace) option" where
  "adc_read_single chsel_bit a t = do {
     (a, t) \<leftarrow> adc_init_once a t;
     if \<not> adc_initialized a then Some (None, a, t)
     else do {
       (cr, t) \<leftarrow> rd t;
       (a, t) \<leftarrow> (if cr AND 4 \<noteq> 0
         then do {
           (cr, t) \<leftarrow> rd t;
           (ok, t) \<leftarrow> guard_wait adc_guard (\<lambda>x. x AND 4 = 0) t;
           Some (a\<lparr>adc_CR := cr OR 0x10\<rparr>, t) }
         else Some (a, t));
       let a = a\<lparr>CHSELR := chsel_bit\<rparr>;
       (isr, t) \<leftarrow> rd t;
       let a = a\<lparr>adc_ISR := isr OR (4 OR 8 OR 0x10)\<rparr>;
       (cr, t) \<leftarrow> rd t;
       let a = a\<lparr>adc_CR := cr OR 4\<rparr>;
       (ok, t) \<leftarrow> guard_wait adc_guard (\<lambda>x. x AND 4 \<noteq> 0) t;
       if ok then do { (dr, t) \<leftarrow> rd t; Some (Some (ucast (dr AND 0xFFFF)), a, t) }
       else Some (None, a, t) } }"

text \<open>The internal sources switch on their enable bit in the common register; \<open>None\<close> is an unknown source.\<close>

definition adc_internal_source :: "u8 \<Rightarrow> adc \<Rightarrow> (u32 \<times> adc) option" where
  "adc_internal_source src a =
     (if src = 1 then Some (0x10000, a\<lparr>CCR := CCR a OR (0x800000 OR 0x400000)\<rparr>)
      else if src = 2 then Some (0x20000, a\<lparr>CCR := CCR a OR 0x400000\<rparr>)
      else if src = 3 then Some (0x40000, a\<lparr>CCR := CCR a OR 0x1000000\<rparr>)
      else None)"

text \<open>The sampling loop of the command; \<open>None\<close> in the first component is a failed conversion.\<close>

fun adc_sample_loop :: "nat \<Rightarrow> u32 \<Rightarrow> u32 \<Rightarrow> adc \<Rightarrow> trace \<Rightarrow> (u32 option \<times> adc \<times> trace) option" where
  "adc_sample_loop 0 chsel acc a t = Some (Some acc, a, t)"
| "adc_sample_loop (Suc n) chsel acc a t = do {
     (r, a, t) \<leftarrow> adc_read_single chsel a t;
     (case r of
        None \<Rightarrow> Some (None, a, t)
      | Some v \<Rightarrow> adc_sample_loop n chsel (acc + ucast v) a t) }"

definition adc_average :: "u32 \<Rightarrow> u8 \<Rightarrow> u16" where
  "adc_average acc samples = ucast ((acc + ucast (samples div 2)) div ucast samples)"

definition clamp_samples :: "u8 \<Rightarrow> u8" where
  "clamp_samples samples =
     (let samples = (if samples < 1 then 1 else samples) in if samples > 64 then 64 else samples)"

section \<open>A conversion ends\<close>

lemma adc_init_reads: "reads2 3000006 (adc_init_once a)"
proof -
  have "reads2 (max 0 (1 + (max (1 + (adc_guard + 0)) 0 + (1 + (adc_guard + (1 + (1 + (adc_guard + 0)))))))) (adc_init_once a)"
    unfolding adc_init_once_def Let_def by (rule reads_intros)+
  then show ?thesis by (rule reads2_mono) (simp add: adc_guard_def)
qed

lemma adc_read_single_reads: "reads3 5000015 (adc_read_single chsel a)"
proof -
  have b: "reads3 (max (1 + 0) 0) (\<lambda>t. if ok then rd t \<bind> (\<lambda>(dr, t). Some (Some (ucast (dr AND 0xFFFF) :: u16), a, t))
      else Some (None, a, t))" for ok and a :: adc
    by (rule reads_intros)+
  have "reads3 (3000006 + max 0 (1 + (max (1 + (adc_guard + 0)) 0 + (1 + (1 + (adc_guard + max (1 + 0) 0)))))) (adc_read_single chsel a)"
    unfolding adc_read_single_def Let_def by (rule adc_init_reads reads_intros)+
  then show ?thesis by (rule reads3_mono) (simp add: adc_guard_def)
qed

lemma adc_sample_loop_reads: "reads3 (n * 5000015) (adc_sample_loop n chsel acc a)"
proof (induction n arbitrary: acc a)
  case 0
  then show ?case by (simp add: reads3_ret)
next
  case (Suc n)
  have step: "reads3 (n * 5000015) (case r of None \<Rightarrow> \<lambda>t. Some (None, a, t)
      | Some v \<Rightarrow> adc_sample_loop n chsel (acc + ucast v) a)" for r :: "u16 option" and a
    using Suc.IH reads3_mono [OF reads3_ret] by (cases r) auto
  have eq: "adc_sample_loop (Suc n) chsel acc a = (\<lambda>t. adc_read_single chsel a t \<bind> (\<lambda>(r, a, t).
      (case r of None \<Rightarrow> \<lambda>t. Some (None, a, t) | Some v \<Rightarrow> adc_sample_loop n chsel (acc + ucast v) a) t))"
    unfolding adc_sample_loop.simps
    by (intro ext arg_cong [where f = "Option.bind _"]) (auto simp: fun_eq_iff split: option.splits)
  show ?case
    unfolding eq using reads3_bind [OF adc_read_single_reads step] by (simp add: algebra_simps)
qed

lemma sum_list_bounds:
  "(\<And>v. v \<in> set vs \<Longrightarrow> lo \<le> v \<and> v \<le> (hi :: nat)) \<Longrightarrow> lo * length vs \<le> sum_list vs \<and> sum_list vs \<le> hi * length vs"
  by (induction vs) (auto simp: add_mono)

definition adc_reset :: adc where
  "adc_reset = \<lparr>adc_initialized = False, APB2ENR_ADC1EN = False, adc_CR = 0, adc_ISR = 0, CFGR1 = 0, CFGR2 = 0,
     SMPR = 0, CHSELR = 0, CCR = 0\<rparr>"

section \<open>Properties\<close>

text \<open>The ADC command always ends: taking n samples needs at most 5000015 reads of the converter's
  registers per sample, even if the converter never becomes ready or never completes.\<close>

theorem adc_command_ends:
  assumes "unat (clamp_samples samples) * 5000015 \<le> length t"
  shows "\<exists>r a' k. adc_sample_loop (unat (clamp_samples samples)) chsel 0 a t = Some (r, a', drop k t)"
  using adc_sample_loop_reads [of "unat (clamp_samples samples)" chsel 0 a] assms
  unfolding reads3_def by blast

theorem adc_command_ends_witness:
  "\<exists>r a' k. adc_sample_loop (unat (clamp_samples 0)) 1 0 adc_reset (replicate 5000015 0) = Some (r, a', drop k (replicate 5000015 0))"
  by (rule adc_command_ends) (simp add: clamp_samples_def Let_def)

text \<open>The reported value is the mean of the samples rounded to the nearest integer, computed without
  overflow for every sample count the command accepts, and lies between the smallest and the largest
  sample.\<close>

theorem adc_average_is_mean:
  assumes "length vs = unat (clamp_samples samples)" "\<forall>v \<in> set vs. lo \<le> v \<and> v \<le> hi" "hi \<le> 65535"
  shows "unat (adc_average (of_nat (sum_list vs)) (clamp_samples samples)) =
      (sum_list vs + length vs div 2) div length vs \<and>
    lo \<le> unat (adc_average (of_nat (sum_list vs)) (clamp_samples samples)) \<and>
    unat (adc_average (of_nat (sum_list vs)) (clamp_samples samples)) \<le> hi"
proof -
  let ?n = "length vs" and ?S = "sum_list vs"
  have n: "1 \<le> ?n" "?n \<le> 64"
    using assms(1) by (auto simp: clamp_samples_def Let_def word_less_nat_alt)
  have b: "lo * ?n \<le> ?S" "?S \<le> hi * ?n" using sum_list_bounds [of vs lo hi] assms(2) by simp_all
  have "?S \<le> 65535 * 64" using b(2) mult_le_mono [OF assms(3) n(2)] by linarith
  then have S: "?S \<le> 4194240" by simp
  have u1: "unat (of_nat ?S :: u32) = ?S" using S by (simp add: unsigned_of_nat take_bit_nat_eq_self)
  have h: "unat (clamp_samples samples div 2) = ?n div 2" by (simp add: unat_div assms(1))
  have u2: "unat (ucast (clamp_samples samples div 2) :: u32) = ?n div 2"
    using n h by (simp add: unsigned_ucast_eq take_bit_nat_eq_self)
  have u3: "unat (ucast (clamp_samples samples) :: u32) = ?n"
    using n assms(1) by (simp add: unsigned_ucast_eq take_bit_nat_eq_self)
  have u4: "unat (of_nat ?S + ucast (clamp_samples samples div 2) :: u32) = ?S + ?n div 2"
    using S n by (simp add: unat_word_ariths u1 u2)
  have q: "unat ((of_nat ?S + ucast (clamp_samples samples div 2)) div ucast (clamp_samples samples) :: u32) =
      (?S + ?n div 2) div ?n"
    by (simp add: unat_div u3 u4)
  have le: "(?S + ?n div 2) div ?n \<le> hi"
  proof -
    have "?S + ?n div 2 < Suc hi * ?n" using b(2) n by (simp add: add.commute)
    then show ?thesis using n by (simp add: less_mult_imp_div_less less_Suc_eq_le [symmetric])
  qed
  have ge: "lo \<le> (?S + ?n div 2) div ?n"
  proof -
    have "lo * ?n \<le> ?S + ?n div 2" using b(1) by linarith
    moreover have "0 < ?n" using n(1) by linarith
    ultimately show ?thesis by (simp only: less_eq_div_iff_mult_less_eq)
  qed
  have "unat (adc_average (of_nat ?S) (clamp_samples samples)) = (?S + ?n div 2) div ?n"
    using le assms(3) by (simp add: adc_average_def unsigned_ucast_eq q take_bit_nat_eq_self)
  with le ge show ?thesis by simp
qed

theorem adc_average_is_mean_witness:
  "unat (adc_average (of_nat (sum_list [10, 11, 11, 13])) (clamp_samples 4)) = 11"
  using adc_average_is_mean [of "[10, 11, 11, 13]" 4 10 13] by (simp add: clamp_samples_def Let_def)

end
