(* ===== verification/Serial_Bus.thy ===== *)
theory Serial_Bus
  imports Adc_Read
begin

text \<open>
  UART and I2C on the shared pins PB6 and PB7 (\<open>Core/Src/main.c\<close>): ownership of the pins,
  configuration, and the transfers with their millisecond deadlines. The peripheral status and
  data registers are volatile reads; \<open>uart_tx\<close> and \<open>i2c_tx\<close> log the bytes written to the data
  registers. The functions work on the bus state together with the GPIO state, because taking
  and releasing the pins reconfigures them; \<open>hck\<close> is the core clock.
\<close>

section \<open>State\<close>

datatype bus_owner_t = BUS_OWNER_NONE | BUS_OWNER_UART1 | BUS_OWNER_I2C1

record serial =
  bus_owner :: bus_owner_t
  uart1_initialized :: bool
  uart1_baud :: u32
  i2c1_initialized :: bool
  i2c1_hz :: u32
  RCC_APB2ENR :: u32
  RCC_APB1ENR :: u32
  RCC_APB1RSTR :: u32
  USART1_CR1 :: u32
  USART1_CR2 :: u32
  USART1_CR3 :: u32
  USART1_BRR :: u32
  USART1_ICR :: u32
  USART1_RQR :: u32
  uart_tx :: "u8 list"
  I2C1_CR1 :: u32
  I2C1_CR2 :: u32
  I2C1_TIMINGR :: u32
  I2C1_ICR :: u32
  i2c_tx :: "u8 list"

type_synonym bus = "serial \<times> gpio"

section \<open>Pins and peripherals\<close>

definition pb67 :: u32 where "pb67 = 0xC0"

definition gpio_release_pb6_pb7 :: "gpio \<Rightarrow> gpio" where
  "gpio_release_pb6_pb7 g = HAL_GPIO_DeInit GPIOB pb67 (enable_gpio_clock GPIOB g)"

definition uart1_deinit :: "bus \<Rightarrow> trace \<Rightarrow> (bus \<times> trace) option" where
  "uart1_deinit b t = do {
     let (s, g) = b;
     (s, t) \<leftarrow> (if USART1_CR1 s AND 1 \<noteq> 0
       then do {
         let s = s\<lparr>USART1_CR1 := USART1_CR1 s AND NOT 1\<rparr>;
         (ok, t) \<leftarrow> guard_wait 1000000 (\<lambda>x. x AND 1 = 0) t;
         Some (s, t) }
       else Some (s, t));
     let s = s\<lparr>RCC_APB2ENR := RCC_APB2ENR s AND NOT 0x4000\<rparr>;
     let g = gpio_release_pb6_pb7 g;
     let s = s\<lparr>uart1_initialized := False\<rparr>;
     let s = (if bus_owner s = BUS_OWNER_UART1 then s\<lparr>bus_owner := BUS_OWNER_NONE\<rparr> else s);
     Some ((s, g), t) }"

text \<open>Handing the pins over from I2C to UART; the pins of the I2C setup are released first.\<close>

definition uart1_take_over :: "bus \<Rightarrow> bus" where
  "uart1_take_over = (\<lambda>(s, g).
     if bus_owner s = BUS_OWNER_I2C1
     then (s\<lparr>i2c1_initialized := False, I2C1_CR1 := I2C1_CR1 s AND NOT 1,
             RCC_APB1ENR := RCC_APB1ENR s AND NOT 0x200000, bus_owner := BUS_OWNER_NONE\<rparr>,
           gpio_release_pb6_pb7 g)
     else (s, g))"

definition uart_pin_init :: GPIO_InitTypeDef where
  "uart_pin_init = \<lparr>Pin = pb67, Mode = GPIO_MODE_AF_PP, Pull = GPIO_PULLUP, Speed = GPIO_SPEED_FREQ_HIGH, Alternate = 0\<rparr>"

definition uart_brr :: "u32 \<Rightarrow> u32 \<Rightarrow> u32" where
  "uart_brr hck baud =
     (let pclk = (if hck = 0 then 48000000 else hck);
          brr = (pclk + baud div 2) div baud
      in if brr = 0 then 1 else brr)"

definition uart1_ensure :: "u32 \<Rightarrow> u32 \<Rightarrow> bus \<Rightarrow> bool \<times> bus" where
  "uart1_ensure hck baud = (\<lambda>(s, g).
     let baud = (if baud = 0 then 115200 else baud) in
     if bus_owner s = BUS_OWNER_UART1 \<and> uart1_initialized s \<and> uart1_baud s = baud then (True, (s, g))
     else
       let (s, g) = uart1_take_over (s, g);
           g = HAL_GPIO_Init GPIOB uart_pin_init (enable_gpio_clock GPIOB g);
           s = s\<lparr>RCC_APB2ENR := RCC_APB2ENR s OR 0x4000, USART1_CR1 := USART1_CR1 s AND NOT 1\<rparr>;
           s = s\<lparr>USART1_BRR := uart_brr hck baud, USART1_CR2 := 0, USART1_CR3 := 0,
                  USART1_CR1 := 8 OR 4, USART1_ICR := 0xFFFFFFFF, USART1_RQR := 8\<rparr>;
           s = s\<lparr>USART1_CR1 := USART1_CR1 s OR 1\<rparr>
       in (True, (s\<lparr>uart1_baud := baud, uart1_initialized := True, bus_owner := BUS_OWNER_UART1\<rparr>, g)))"

section \<open>UART transfers\<close>

text \<open>One byte after the other, each after its TXE wait; the count is the number of bytes written.\<close>

fun uart_tx_loop :: "u8 list \<Rightarrow> nat \<Rightarrow> u32 \<Rightarrow> u32 \<Rightarrow> serial \<Rightarrow> trace \<Rightarrow> (bool \<times> nat \<times> serial \<times> trace) option" where
  "uart_tx_loop [] written start timeout s t = Some (True, written, s, t)"
| "uart_tx_loop (d # ds) written start timeout s t = do {
     (ok, t) \<leftarrow> wait_mask 0x80 start timeout t;
     if \<not> ok then Some (False, written, s, t)
     else uart_tx_loop ds (Suc written) start timeout (s\<lparr>uart_tx := uart_tx s @ [d]\<rparr>) t }"

definition uart1_write :: "u32 \<Rightarrow> u8 list \<Rightarrow> u32 \<Rightarrow> bus \<Rightarrow> trace \<Rightarrow> (bool \<times> nat \<times> bus \<times> trace) option" where
  "uart1_write hck data timeout_ms b t =
     (if data = [] then Some (True, 0, b, t)
      else
        let (ok, (s, g)) = uart1_ensure hck (uart1_baud (fst b)) b in
        if \<not> ok then Some (False, 0, (s, g), t)
        else do {
          (start, t) \<leftarrow> rd t;
          (ok, written, s, t) \<leftarrow> uart_tx_loop data 0 start timeout_ms s t;
          if \<not> ok then Some (False, written, (s, g), t)
          else do {
            (ok, t) \<leftarrow> wait_mask 0x40 start timeout_ms t;
            Some (ok, written, (s, g), t) } })"

text \<open>The receive loop: the deadline restarts with every byte; a timeout ends it without error.\<close>

function uart_rx_loop :: "nat \<Rightarrow> u32 \<Rightarrow> u32 \<Rightarrow> u8 list \<Rightarrow> trace \<Rightarrow> (u8 list \<times> trace) option" where
  "uart_rx_loop n start timeout got t =
     (if n \<le> length got then Some (got, t)
      else (case t of
        [] \<Rightarrow> None
      | isr # t \<Rightarrow>
          if isr AND 0x20 \<noteq> 0 then
            (case t of
               rdr # now # t \<Rightarrow> uart_rx_loop n now timeout (got @ [ucast (rdr AND 0xFF)]) t
             | _ \<Rightarrow> None)
          else
            (case t of
               now # t \<Rightarrow> if timeout < now - start then Some (got, t) else uart_rx_loop n start timeout got t
             | [] \<Rightarrow> None)))"
  by pat_completeness auto
termination
  by (relation "measure (\<lambda>(n, start, timeout, got, t). length t)") auto

declare uart_rx_loop.simps [simp del]

definition uart1_read :: "u32 \<Rightarrow> nat \<Rightarrow> u32 \<Rightarrow> bus \<Rightarrow> trace \<Rightarrow> (bool \<times> u8 list \<times> bus \<times> trace) option" where
  "uart1_read hck len timeout_ms b t =
     (if len = 0 then Some (True, [], b, t)
      else
        let (ok, b) = uart1_ensure hck (uart1_baud (fst b)) b in
        if \<not> ok then Some (False, [], b, t)
        else do {
          (start, t) \<leftarrow> rd t;
          (got, t) \<leftarrow> uart_rx_loop len start timeout_ms [] t;
          Some (True, got, b, t) })"

section \<open>I2C\<close>

definition i2c1_timing_for_hz :: "u32 \<Rightarrow> u32" where
  "i2c1_timing_for_hz hz = (if 400000 \<le> hz then 0x00213B3B else 0x10427777)"

definition i2c1_deinit :: "bus \<Rightarrow> bus" where
  "i2c1_deinit = (\<lambda>(s, g).
     let s = (if I2C1_CR1 s AND 1 \<noteq> 0 then s\<lparr>I2C1_CR1 := I2C1_CR1 s AND NOT 1\<rparr> else s);
         s = s\<lparr>RCC_APB1ENR := RCC_APB1ENR s AND NOT 0x200000\<rparr>;
         g = gpio_release_pb6_pb7 g;
         s = s\<lparr>i2c1_initialized := False\<rparr>;
         s = (if bus_owner s = BUS_OWNER_I2C1 then s\<lparr>bus_owner := BUS_OWNER_NONE\<rparr> else s)
     in (s, g))"

definition i2c_pin_init :: GPIO_InitTypeDef where
  "i2c_pin_init = \<lparr>Pin = pb67, Mode = GPIO_MODE_AF_OD, Pull = GPIO_PULLUP, Speed = GPIO_SPEED_FREQ_HIGH, Alternate = 1\<rparr>"

definition i2c1_configure :: "u32 \<Rightarrow> bus \<Rightarrow> bus" where
  "i2c1_configure hz = (\<lambda>(s, g).
     (s\<lparr>RCC_APB1ENR := RCC_APB1ENR s OR 0x200000,
        RCC_APB1RSTR := (RCC_APB1RSTR s OR 0x200000) AND NOT 0x200000,
        I2C1_TIMINGR := i2c1_timing_for_hz hz, I2C1_ICR := 0xFFFFFFFF, I2C1_CR1 := 1,
        i2c1_hz := hz, i2c1_initialized := True, bus_owner := BUS_OWNER_I2C1\<rparr>,
      HAL_GPIO_Init GPIOB i2c_pin_init (enable_gpio_clock GPIOB g)))"

definition i2c1_ensure :: "u32 \<Rightarrow> bus \<Rightarrow> trace \<Rightarrow> (bool \<times> bus \<times> trace) option" where
  "i2c1_ensure hz b t =
     (let hz = (if hz = 0 then 100000 else hz); (s, g) = b in
      if bus_owner s = BUS_OWNER_I2C1 \<and> i2c1_initialized s \<and> i2c1_hz s = hz then Some (True, (s, g), t)
      else do {
        (b, t) \<leftarrow> (if bus_owner s = BUS_OWNER_UART1 then uart1_deinit (s, g) t else Some ((s, g), t));
        Some (True, i2c1_configure hz b, t) })"

fun i2c_flag_loop :: "u32 \<Rightarrow> bool \<Rightarrow> u32 \<Rightarrow> u32 \<Rightarrow> trace \<Rightarrow> (bool \<times> trace) option" where
  "i2c_flag_loop isr_mask st start timeout [] = None"
| "i2c_flag_loop isr_mask st start timeout (isr # t) =
     (if (isr AND isr_mask \<noteq> 0) = st then Some (True, t)
      else (case t of
        [] \<Rightarrow> None
      | now # t' \<Rightarrow>
          if timeout < now - start then Some (False, t')
          else (case t' of
            [] \<Rightarrow> None
          | isr2 # t'' \<Rightarrow>
              if isr2 AND (0x10 OR 0x100 OR 0x200) \<noteq> 0 then Some (False, t'')
              else i2c_flag_loop isr_mask st start timeout t'')))"

definition i2c1_wait_flag :: "u32 \<Rightarrow> bool \<Rightarrow> u32 \<Rightarrow> trace \<Rightarrow> (bool \<times> trace) option" where
  "i2c1_wait_flag isr_mask st timeout_ms t = do { (start, t) \<leftarrow> rd t; i2c_flag_loop isr_mask st start timeout_ms t }"

definition i2c1_clear_errors :: "serial \<Rightarrow> serial" where
  "i2c1_clear_errors s = s\<lparr>I2C1_ICR := 0x10 OR 0x100 OR 0x200 OR 0x20\<rparr>"

fun i2c_tx_loop :: "u8 list \<Rightarrow> u32 \<Rightarrow> serial \<Rightarrow> trace \<Rightarrow> (bool \<times> serial \<times> trace) option" where
  "i2c_tx_loop [] timeout s t = Some (True, s, t)"
| "i2c_tx_loop (d # ds) timeout s t = do {
     (ok, t) \<leftarrow> i2c1_wait_flag 2 True timeout t;
     if \<not> ok then Some (False, s, t) else i2c_tx_loop ds timeout (s\<lparr>i2c_tx := i2c_tx s @ [d]\<rparr>) t }"

definition i2c1_write_then_maybe_stop ::
    "u8 \<Rightarrow> u8 list \<Rightarrow> bool \<Rightarrow> u32 \<Rightarrow> bus \<Rightarrow> trace \<Rightarrow> (bool \<times> bus \<times> trace) option" where
  "i2c1_write_then_maybe_stop addr7 data send_stop timeout_ms b t = do {
     (ok, b, t) \<leftarrow> i2c1_ensure (i2c1_hz (fst b)) b t;
     if \<not> ok then Some (False, b, t)
     else if 0x7F < addr7 then Some (False, b, t)
     else do {
       let s = i2c1_clear_errors (fst b);
       let g = snd b;
       let s = s\<lparr>I2C1_CR2 := push_bit 1 (ucast addr7) OR push_bit 16 (of_nat (length data)) OR
                 (if send_stop then 0x2000000 else 0) OR 0x2000\<rparr>;
       (ok, s, t) \<leftarrow> i2c_tx_loop data timeout_ms s t;
       if \<not> ok then Some (False, (s, g), t)
       else if send_stop then do {
         (ok, t) \<leftarrow> i2c1_wait_flag 0x20 True timeout_ms t;
         if \<not> ok then Some (False, (s, g), t) else Some (True, (s\<lparr>I2C1_ICR := 0x20\<rparr>, g), t) }
       else do {
         (ok, t) \<leftarrow> i2c1_wait_flag 0x40 True timeout_ms t;
         Some (ok, (s, g), t) } } }"

fun i2c_rx_loop :: "nat \<Rightarrow> u32 \<Rightarrow> u8 list \<Rightarrow> trace \<Rightarrow> (bool \<times> u8 list \<times> trace) option" where
  "i2c_rx_loop 0 timeout out t = Some (True, out, t)"
| "i2c_rx_loop (Suc n) timeout out t = do {
     (ok, t) \<leftarrow> i2c1_wait_flag 4 True timeout t;
     if \<not> ok then Some (False, out, t)
     else do { (rxdr, t) \<leftarrow> rd t; i2c_rx_loop n timeout (out @ [ucast (rxdr AND 0xFF)]) t } }"

text \<open>The bytes received so far are returned in every case; the caller's buffer keeps zeros behind them.\<close>

definition i2c1_read_with_stop :: "u8 \<Rightarrow> nat \<Rightarrow> u32 \<Rightarrow> bus \<Rightarrow> trace \<Rightarrow> (bool \<times> u8 list \<times> bus \<times> trace) option" where
  "i2c1_read_with_stop addr7 len timeout_ms b t = do {
     (ok, b, t) \<leftarrow> i2c1_ensure (i2c1_hz (fst b)) b t;
     if \<not> ok then Some (False, [], b, t)
     else if len = 0 then Some (True, [], b, t)
     else if 0x7F < addr7 then Some (False, [], b, t)
     else do {
       let s = i2c1_clear_errors (fst b);
       let g = snd b;
       let s = s\<lparr>I2C1_CR2 := push_bit 1 (ucast addr7) OR push_bit 16 (of_nat len) OR 0x400 OR 0x2000000 OR 0x2000\<rparr>;
       (ok, out, t) \<leftarrow> i2c_rx_loop len timeout_ms [] t;
       if \<not> ok then Some (False, out, (s, g), t)
       else do {
         (ok, t) \<leftarrow> i2c1_wait_flag 0x20 True timeout_ms t;
         if \<not> ok then Some (False, out, (s, g), t)
         else Some (True, out, (s\<lparr>I2C1_ICR := 0x20\<rparr>, g), t) } } }"

definition i2c1_xfer :: "u8 \<Rightarrow> u8 list \<Rightarrow> nat \<Rightarrow> u32 \<Rightarrow> bus \<Rightarrow> trace \<Rightarrow> (bool \<times> u8 list \<times> bus \<times> trace) option" where
  "i2c1_xfer addr7 w rlen timeout_ms b t = do {
     (ok, b, t) \<leftarrow> i2c1_ensure (i2c1_hz (fst b)) b t;
     if \<not> ok then Some (False, [], b, t)
     else if 0x7F < addr7 then Some (False, [], b, t)
     else if w = [] then i2c1_read_with_stop addr7 rlen timeout_ms b t
     else if rlen = 0 then do {
       (ok, b, t) \<leftarrow> i2c1_write_then_maybe_stop addr7 w True timeout_ms b t;
       Some (ok, [], b, t) }
     else do {
       (ok, b, t) \<leftarrow> i2c1_write_then_maybe_stop addr7 w False timeout_ms b t;
       if \<not> ok then Some (False, [], b, t)
       else i2c1_read_with_stop addr7 rlen timeout_ms b t } }"

section \<open>Exclusive ownership\<close>

text \<open>
  The steps the command handlers take on the bus: opening, closing and the transfers, and the
  stores that remember a requested rate before the next transfer.
\<close>

inductive bus_step :: "bus \<Rightarrow> bus \<Rightarrow> bool" where
  uart_open: "uart1_ensure hck baud b = (ok, b') \<Longrightarrow> bus_step b b'"
| uart_close: "uart1_deinit b t = Some (b', t') \<Longrightarrow> bus_step b b'"
| uart_rate: "bus_step (s, g) (s\<lparr>uart1_baud := baud\<rparr>, g)"
| uart_send: "uart1_write hck d ms b t = Some (ok, n, b', t') \<Longrightarrow> bus_step b b'"
| uart_recv: "uart1_read hck n ms b t = Some (ok, d, b', t') \<Longrightarrow> bus_step b b'"
| i2c_open: "i2c1_ensure hz b t = Some (ok, b', t') \<Longrightarrow> bus_step b b'"
| i2c_close: "bus_step b (i2c1_deinit b)"
| i2c_rate: "bus_step (s, g) (s\<lparr>i2c1_hz := hz\<rparr>, g)"
| i2c_send: "i2c1_write_then_maybe_stop addr d stop ms b t = Some (ok, b', t') \<Longrightarrow> bus_step b b'"
| i2c_recv: "i2c1_read_with_stop addr n ms b t = Some (ok, out, b', t') \<Longrightarrow> bus_step b b'"
| i2c_both: "i2c1_xfer addr d n ms b t = Some (ok, out, b', t') \<Longrightarrow> bus_step b b'"

text \<open>The flags, the peripheral clocks and the enable bits all name the same owner.\<close>

definition bus_inv :: "serial \<Rightarrow> bool" where
  "bus_inv s \<longleftrightarrow>
     (uart1_initialized s \<longleftrightarrow> bus_owner s = BUS_OWNER_UART1) \<and>
     (i2c1_initialized s \<longleftrightarrow> bus_owner s = BUS_OWNER_I2C1) \<and>
     (bit (RCC_APB2ENR s) 14 \<longleftrightarrow> bus_owner s = BUS_OWNER_UART1) \<and>
     (bit (RCC_APB1ENR s) 21 \<longleftrightarrow> bus_owner s = BUS_OWNER_I2C1) \<and>
     (bit (USART1_CR1 s) 0 \<longleftrightarrow> bus_owner s = BUS_OWNER_UART1) \<and>
     (bit (I2C1_CR1 s) 0 \<longleftrightarrow> bus_owner s = BUS_OWNER_I2C1)"

lemma en_bits [simp]:
  "bit (x OR 0x4000 :: u32) 14" "\<not> bit (x AND NOT 0x4000 :: u32) 14"
  "bit (x OR 0x200000 :: u32) 21" "\<not> bit (x AND NOT 0x200000 :: u32) 21"
  "bit (x OR 1 :: u32) 0" "\<not> bit (x AND NOT 1 :: u32) 0"
  by (simp_all add: bit_or_iff bit_and_iff bit_not_iff)

lemmas en_bits_minus [simp] = en_bits [simplified]

lemma and_1_bit0: "x AND 1 \<noteq> 0 \<longleftrightarrow> bit (x :: u32) 0"
  by (simp add: and_one_eq bit_0 odd_iff_mod_2_eq_one)

lemma uart1_ensure_inv:
  assumes "uart1_ensure hck baud (s, g) = (ok, s', g')" "bus_inv s"
  shows "bus_inv s' \<and> ok \<and> bus_owner s' = BUS_OWNER_UART1 \<and> uart_tx s' = uart_tx s \<and> i2c_tx s' = i2c_tx s"
  using assms
  by (auto simp: uart1_ensure_def uart1_take_over_def bus_inv_def Let_def split: if_splits)

lemma uart1_deinit_inv:
  assumes "uart1_deinit (s, g) t = Some ((s', g'), t')" "bus_inv s"
  shows "bus_inv s' \<and> bus_owner s' = (if bus_owner s = BUS_OWNER_UART1 then BUS_OWNER_NONE else bus_owner s)
    \<and> uart_tx s' = uart_tx s \<and> i2c_tx s' = i2c_tx s \<and> i2c1_hz s' = i2c1_hz s \<and> g' = gpio_release_pb6_pb7 g"
  using assms
  by (auto simp: uart1_deinit_def bus_inv_def Let_def and_1_bit0 bind_eq_Some_conv split: if_splits)

lemma i2c1_deinit_inv: "bus_inv s \<Longrightarrow> bus_inv (fst (i2c1_deinit (s, g)))"
  by (auto simp: i2c1_deinit_def bus_inv_def Let_def and_1_bit0)

lemma i2c1_ensure_inv:
  assumes "i2c1_ensure hz (s, g) t = Some (ok, (s', g'), t')" "bus_inv s"
  shows "bus_inv s' \<and> ok \<and> bus_owner s' = BUS_OWNER_I2C1 \<and> uart_tx s' = uart_tx s \<and> i2c_tx s' = i2c_tx s"
proof (cases "bus_owner s = BUS_OWNER_UART1")
  case True
  then obtain s1 g1 t1 where d: "uart1_deinit (s, g) t = Some ((s1, g1), t1)"
    and e: "ok" "(s', g') = i2c1_configure (if hz = 0 then 100000 else hz) (s1, g1)"
    using assms(1) by (auto simp: i2c1_ensure_def Let_def bind_eq_Some_conv split: if_splits)
  show ?thesis
    using uart1_deinit_inv [OF d assms(2)] e True by (auto simp: i2c1_configure_def bus_inv_def)
next
  case False
  then show ?thesis
    using assms by (auto simp: i2c1_ensure_def i2c1_configure_def bus_inv_def Let_def split: if_splits)
qed

section \<open>Transfers\<close>

lemma uart_tx_loop_log:
  "uart_tx_loop ds n start timeout s t = Some (ok, n', s', t') \<Longrightarrow>
   \<exists>k \<le> length ds. n' = n + k \<and> s' = s\<lparr>uart_tx := uart_tx s @ take k ds\<rparr> \<and> (ok \<longleftrightarrow> k = length ds)"
proof (induction ds n start timeout s t rule: uart_tx_loop.induct)
  case (2 d ds n start timeout s t)
  obtain r t1 where w: "wait_mask 0x80 start timeout t = Some (r, t1)"
    using "2.prems" by (auto simp: bind_eq_Some_conv)
  show ?case
  proof (cases r)
    case True
    then have "uart_tx_loop ds (Suc n) start timeout (s\<lparr>uart_tx := uart_tx s @ [d]\<rparr>) t1 = Some (ok, n', s', t')"
      using "2.prems" w by simp
    from "2.IH" [OF w refl _ this] True
    obtain k where "k \<le> length ds" "n' = Suc n + k" "s' = s\<lparr>uart_tx := uart_tx s @ d # take k ds\<rparr>" "ok \<longleftrightarrow> k = length ds"
      by auto
    then show ?thesis by (intro exI [of _ "Suc k"]) simp
  next
    case False
    then show ?thesis using "2.prems" w by (intro exI [of _ 0]) auto
  qed
qed auto

lemma i2c_tx_loop_log:
  "i2c_tx_loop ds timeout s t = Some (ok, s', t') \<Longrightarrow>
   \<exists>k \<le> length ds. s' = s\<lparr>i2c_tx := i2c_tx s @ take k ds\<rparr> \<and> (ok \<longleftrightarrow> k = length ds)"
proof (induction ds timeout s t rule: i2c_tx_loop.induct)
  case (2 d ds timeout s t)
  obtain r t1 where w: "i2c1_wait_flag 2 True timeout t = Some (r, t1)"
    using "2.prems" by (auto simp: bind_eq_Some_conv)
  show ?case
  proof (cases r)
    case True
    then have "i2c_tx_loop ds timeout (s\<lparr>i2c_tx := i2c_tx s @ [d]\<rparr>) t1 = Some (ok, s', t')"
      using "2.prems" w by simp
    from "2.IH" [OF w refl _ this] True
    obtain k where "k \<le> length ds" "s' = s\<lparr>i2c_tx := i2c_tx s @ d # take k ds\<rparr>" "ok \<longleftrightarrow> k = length ds"
      by auto
    then show ?thesis by (intro exI [of _ "Suc k"]) simp
  next
    case False
    then show ?thesis using "2.prems" w by (intro exI [of _ 0]) auto
  qed
qed auto

lemma i2c_rx_loop_length:
  "i2c_rx_loop n timeout out t = Some (ok, out', t') \<Longrightarrow>
   \<exists>d. out' = out @ d \<and> length d \<le> n \<and> (ok \<longleftrightarrow> length d = n)"
proof (induction n timeout out t rule: i2c_rx_loop.induct)
  case (2 n timeout out t)
  obtain r t1 where w: "i2c1_wait_flag 4 True timeout t = Some (r, t1)"
    using "2.prems" by (auto simp: bind_eq_Some_conv)
  show ?case
  proof (cases r)
    case True
    then obtain x t2 where "rd t1 = Some (x, t2)" "i2c_rx_loop n timeout (out @ [ucast (x AND 0xFF)]) t2 = Some (ok, out', t')"
      using "2.prems" w by (auto simp: bind_eq_Some_conv)
    with "2.IH" [OF w refl _ this(1) refl this(2)] True
    obtain d where "out' = out @ ucast (x AND 0xFF) # d" "length d \<le> n" "ok \<longleftrightarrow> length d = n" by auto
    then show ?thesis by (intro exI [of _ "ucast (x AND 0xFF) # d"]) simp
  next
    case False
    then show ?thesis using "2.prems" w by (intro exI [of _ "[]"]) auto
  qed
qed auto

lemma bus_inv_logs [simp]:
  "bus_inv (s\<lparr>uart_tx := x\<rparr>) = bus_inv s" "bus_inv (s\<lparr>i2c_tx := y\<rparr>) = bus_inv s"
  "bus_inv (s\<lparr>I2C1_ICR := z\<rparr>) = bus_inv s" "bus_inv (s\<lparr>I2C1_CR2 := z\<rparr>) = bus_inv s"
  "bus_inv (s\<lparr>uart1_baud := z\<rparr>) = bus_inv s" "bus_inv (s\<lparr>i2c1_hz := z\<rparr>) = bus_inv s"
  by (simp_all add: bus_inv_def)

lemma uart1_write_spec:
  assumes "uart1_write hck d ms (s, g) t = Some (ok, n, (s', g'), t')" "bus_inv s"
  shows "bus_inv s' \<and> n \<le> length d \<and> uart_tx s' = uart_tx s @ take n d \<and> (ok \<longrightarrow> n = length d)"
proof (cases "d = []")
  case False
  obtain b s1 g1 where e: "uart1_ensure hck (uart1_baud s) (s, g) = (b, s1, g1)" by (metis prod_cases3)
  note i = uart1_ensure_inv [OF e assms(2)]
  obtain start t1 k t2 s2 where "uart_tx_loop d 0 start ms s1 t1 = Some (k, n, s2, t2)" "s' = s2" "ok \<longrightarrow> k"
    using assms(1) False e i
    by (auto simp: uart1_write_def Let_def bind_eq_Some_conv split: if_splits)
  with uart_tx_loop_log [OF this(1)] i show ?thesis by auto
qed (use assms in \<open>auto simp: uart1_write_def\<close>)

lemma uart1_read_inv:
  assumes "uart1_read hck n ms (s, g) t = Some (ok, d, (s', g'), t')" "bus_inv s"
  shows "bus_inv s'"
proof (cases "n = 0")
  case False
  obtain b s1 g1 where e: "uart1_ensure hck (uart1_baud s) (s, g) = (b, s1, g1)" by (metis prod_cases3)
  then show ?thesis
    using uart1_ensure_inv [OF e assms(2)] assms(1) False
    by (auto simp: uart1_read_def Let_def bind_eq_Some_conv)
qed (use assms in \<open>auto simp: uart1_read_def\<close>)

lemma i2c_ensure_obtain:
  assumes "do { (ok, b, t) \<leftarrow> i2c1_ensure hz (s, g) t; f ok b t } = Some r" "bus_inv s"
  obtains s1 g1 t1 where "bus_inv s1" "i2c_tx s1 = i2c_tx s" "bus_owner s1 = BUS_OWNER_I2C1" "f True (s1, g1) t1 = Some r"
proof -
  obtain ok s1 g1 t1 where e: "i2c1_ensure hz (s, g) t = Some (ok, (s1, g1), t1)" and f: "f ok (s1, g1) t1 = Some r"
    using assms(1) by (auto simp: bind_eq_Some_conv)
  note i = i2c1_ensure_inv [OF e assms(2)]
  have "f True (s1, g1) t1 = Some r" using f i by simp
  then show thesis using i that by blast
qed

lemma i2c_write_spec:
  assumes "i2c1_write_then_maybe_stop addr d stop ms (s, g) t = Some (ok, (s', g'), t')" "bus_inv s"
  shows "bus_inv s' \<and> (\<exists>k \<le> length d. i2c_tx s' = i2c_tx s @ take k d \<and> (ok \<longrightarrow> k = length d \<and> addr \<le> 0x7F))"
  using assms(1) unfolding i2c1_write_then_maybe_stop_def
proof (rule i2c_ensure_obtain [OF _ assms(2)])
  fix s1 g1 t1
  assume i: "bus_inv s1" "i2c_tx s1 = i2c_tx s" and
    f: "(if \<not> True then Some (False, (s1, g1), t1)
     else if 0x7F < addr then Some (False, (s1, g1), t1)
     else do {
       let s = i2c1_clear_errors (fst (s1, g1));
       let g = snd (s1, g1);
       let s = s\<lparr>I2C1_CR2 := push_bit 1 (ucast addr) OR push_bit 16 (of_nat (length d)) OR
                 (if stop then 0x2000000 else 0) OR 0x2000\<rparr>;
       (ok, s, t) \<leftarrow> i2c_tx_loop d ms s t1;
       if \<not> ok then Some (False, (s, g), t)
       else if stop then do {
         (ok, t) \<leftarrow> i2c1_wait_flag 0x20 True ms t;
         if \<not> ok then Some (False, (s, g), t) else Some (True, (s\<lparr>I2C1_ICR := 0x20\<rparr>, g), t) }
       else do {
         (ok, t) \<leftarrow> i2c1_wait_flag 0x40 True ms t;
         Some (ok, (s, g), t) } }) = Some (ok, (s', g'), t')"
  show ?thesis
  proof (cases "0x7F < addr")
    case True
    then show ?thesis using f i by auto
  next
    case False
    obtain cr2 b s3 t3 where l: "i2c_tx_loop d ms ((i2c1_clear_errors s1)\<lparr>I2C1_CR2 := cr2\<rparr>) t1 = Some (b, s3, t3)"
      and r: "s' = s3 \<or> s' = s3\<lparr>I2C1_ICR := 0x20\<rparr>" "ok \<longrightarrow> b"
      using f False
      by (auto simp: Let_def bind_eq_Some_conv simp del: i2c_tx_loop.simps split: if_splits)
    have s2: "bus_inv ((i2c1_clear_errors s1)\<lparr>I2C1_CR2 := cr2\<rparr>)" "i2c_tx ((i2c1_clear_errors s1)\<lparr>I2C1_CR2 := cr2\<rparr>) = i2c_tx s"
      using i by (simp_all add: i2c1_clear_errors_def)
    obtain k where "k \<le> length d" "s3 = (i2c1_clear_errors s1)\<lparr>I2C1_CR2 := cr2\<rparr>\<lparr>i2c_tx := i2c_tx s @ take k d\<rparr>" "b \<longleftrightarrow> k = length d"
      using i2c_tx_loop_log [OF l] s2(2) by auto
    then show ?thesis using r s2 False by (auto simp: not_less intro!: exI [of _ k])
  qed
qed

lemma i2c_read_spec:
  assumes "i2c1_read_with_stop addr n ms (s, g) t = Some (ok, out, (s', g'), t')" "bus_inv s"
  shows "bus_inv s' \<and> i2c_tx s' = i2c_tx s \<and> length out \<le> n \<and> (ok \<longrightarrow> length out = n)"
  using assms(1) unfolding i2c1_read_with_stop_def
proof (rule i2c_ensure_obtain [OF _ assms(2)])
  fix s1 g1 t1
  assume i: "bus_inv s1" "i2c_tx s1 = i2c_tx s" and
    f: "(if \<not> True then Some (False, [], (s1, g1), t1)
     else if n = 0 then Some (True, [], (s1, g1), t1)
     else if 0x7F < addr then Some (False, [], (s1, g1), t1)
     else do {
       let s = i2c1_clear_errors (fst (s1, g1));
       let g = snd (s1, g1);
       let s = s\<lparr>I2C1_CR2 := push_bit 1 (ucast addr) OR push_bit 16 (of_nat n) OR 0x400 OR 0x2000000 OR 0x2000\<rparr>;
       (ok, out, t) \<leftarrow> i2c_rx_loop n ms [] t1;
       if \<not> ok then Some (False, out, (s, g), t)
       else do {
         (ok, t) \<leftarrow> i2c1_wait_flag 0x20 True ms t;
         if \<not> ok then Some (False, out, (s, g), t)
         else Some (True, out, (s\<lparr>I2C1_ICR := 0x20\<rparr>, g), t) } }) = Some (ok, out, (s', g'), t')"
  show ?thesis
  proof (cases "n = 0 \<or> 0x7F < addr")
    case True
    then show ?thesis using f i by (auto split: if_splits)
  next
    case False
    then obtain b t3 where l: "i2c_rx_loop n ms [] t1 = Some (b, out, t3)" and r: "ok \<longrightarrow> b"
      and s': "\<exists>x y. s' = (i2c1_clear_errors s1)\<lparr>I2C1_CR2 := x, I2C1_ICR := y\<rparr> \<or> s' = (i2c1_clear_errors s1)\<lparr>I2C1_CR2 := x\<rparr>"
      using f by (auto simp: Let_def bind_eq_Some_conv simp del: i2c_rx_loop.simps split: if_splits)
    have "bus_inv s'" "i2c_tx s' = i2c_tx s" using s' i by (auto simp: i2c1_clear_errors_def)
    then show ?thesis using i2c_rx_loop_length [OF l] r by auto
  qed
qed

lemma i2c_xfer_spec:
  assumes "i2c1_xfer addr d n ms (s, g) t = Some (ok, out, (s', g'), t')" "bus_inv s"
  shows "bus_inv s' \<and> length out \<le> n \<and>
    (\<exists>k \<le> length d. i2c_tx s' = i2c_tx s @ take k d \<and> (ok \<longrightarrow> k = length d \<and> length out = n \<and> addr \<le> 0x7F))"
  using assms(1) unfolding i2c1_xfer_def
proof (rule i2c_ensure_obtain [OF _ assms(2)])
  fix s1 g1 t1
  assume i: "bus_inv s1" "i2c_tx s1 = i2c_tx s" and
    f: "(if \<not> True then Some (False, [], (s1, g1), t1)
     else if 0x7F < addr then Some (False, [], (s1, g1), t1)
     else if d = [] then i2c1_read_with_stop addr n ms (s1, g1) t1
     else if n = 0 then do {
       (ok, b, t) \<leftarrow> i2c1_write_then_maybe_stop addr d True ms (s1, g1) t1;
       Some (ok, [], b, t) }
     else do {
       (ok, b, t) \<leftarrow> i2c1_write_then_maybe_stop addr d False ms (s1, g1) t1;
       if \<not> ok then Some (False, [], b, t)
       else i2c1_read_with_stop addr n ms b t }) = Some (ok, out, (s', g'), t')"
  consider "0x7F < addr" | "\<not> 0x7F < addr" "d = []" | "\<not> 0x7F < addr" "d \<noteq> []" "n = 0" | "\<not> 0x7F < addr" "d \<noteq> []" "n \<noteq> 0"
    by blast
  then show ?thesis
  proof cases
    case 1
    then show ?thesis using f i by auto
  next
    case 2
    then have r: "i2c1_read_with_stop addr n ms (s1, g1) t1 = Some (ok, out, (s', g'), t')" using f by simp
    show ?thesis using i2c_read_spec [OF r i(1)] i 2 by (simp add: not_less)
  next
    case 3
    then obtain t2 where w: "i2c1_write_then_maybe_stop addr d True ms (s1, g1) t1 = Some (ok, (s', g'), t2)" "out = []"
      using f by (auto simp: bind_eq_Some_conv)
    show ?thesis using i2c_write_spec [OF w(1) i(1)] i 3 w(2) by (auto simp: not_less)
  next
    case 4
    then obtain b s2 g2 t2 where w: "i2c1_write_then_maybe_stop addr d False ms (s1, g1) t1 = Some (b, (s2, g2), t2)"
      and r: "if b then i2c1_read_with_stop addr n ms (s2, g2) t2 = Some (ok, out, (s', g'), t') else \<not> ok \<and> out = [] \<and> s' = s2"
      using f by (auto simp: bind_eq_Some_conv split: if_splits)
    note W = i2c_write_spec [OF w i(1)]
    show ?thesis
    proof (cases b)
      case True
      with r have "i2c1_read_with_stop addr n ms (s2, g2) t2 = Some (ok, out, (s', g'), t')" by simp
      from i2c_read_spec [OF this] W i True show ?thesis by (auto simp: not_less)
    qed (use W r i in auto)
  qed
qed

section \<open>Reachable buses\<close>

definition serial_reset :: serial where
  "serial_reset = \<lparr>bus_owner = BUS_OWNER_NONE, uart1_initialized = False, uart1_baud = 115200,
     i2c1_initialized = False, i2c1_hz = 100000, RCC_APB2ENR = 0, RCC_APB1ENR = 0, RCC_APB1RSTR = 0,
     USART1_CR1 = 0, USART1_CR2 = 0, USART1_CR3 = 0, USART1_BRR = 0, USART1_ICR = 0, USART1_RQR = 0,
     uart_tx = [], I2C1_CR1 = 0, I2C1_CR2 = 0, I2C1_TIMINGR = 0, I2C1_ICR = 0, i2c_tx = []\<rparr>"

inductive bus_reach :: "gpio \<Rightarrow> bus \<Rightarrow> bool" for g where
  init: "bus_reach g (serial_reset, g)"
| step: "bus_reach g b \<Longrightarrow> bus_step b b' \<Longrightarrow> bus_reach g b'"

inductive_cases bus_stepE: "bus_step b b'"

lemma bus_step_inv: "bus_step b b' \<Longrightarrow> bus_inv (fst b) \<Longrightarrow> bus_inv (fst b')"
proof (erule bus_stepE, goal_cases)
  case (1 hck baud ok)
  then show ?case using uart1_ensure_inv by (cases b; cases b') fastforce
next
  case (2 t t')
  then show ?case using uart1_deinit_inv by (cases b; cases b') fastforce
next
  case (4 hck d ms t ok n t')
  then show ?case using uart1_write_spec by (cases b; cases b') fastforce
next
  case (5 hck n ms t ok d t')
  then show ?case using uart1_read_inv by (cases b; cases b') fastforce
next
  case (6 hz t ok t')
  then show ?case using i2c1_ensure_inv by (cases b; cases b') fastforce
next
  case 7
  then show ?case using i2c1_deinit_inv by (cases b) simp
next
  case (9 addr d stop ms t ok t')
  then show ?case using i2c_write_spec by (cases b; cases b') fastforce
next
  case (10 addr n ms t ok out t')
  then show ?case using i2c_read_spec by (cases b; cases b') fastforce
next
  case (11 addr d n ms t ok out t')
  then show ?case using i2c_xfer_spec by (cases b; cases b') fastforce
qed simp_all

lemma bus_reach_inv: "bus_reach g b \<Longrightarrow> bus_inv (fst b)"
proof (induction rule: bus_reach.induct)
  case init
  show ?case by (simp add: bus_inv_def serial_reset_def)
next
  case (step b b')
  then show ?case using bus_step_inv by blast
qed

section \<open>Who the pins belong to\<close>

text \<open>The peripheral an alternate-function pin of the pair PB6, PB7 is connected to.\<close>

definition pin_owner :: "pin_cfg \<Rightarrow> bus_owner_t" where
  "pin_owner c =
     (if cf_mode c \<noteq> 2 then BUS_OWNER_NONE
      else if cf_af c = 0 then BUS_OWNER_UART1
      else if cf_af c = 1 then BUS_OWNER_I2C1
      else BUS_OWNER_NONE)"

text \<open>Closing one peripheral while the other one owns the bus.\<close>

definition stray_close :: "bus \<Rightarrow> bus \<Rightarrow> bool" where
  "stray_close b b' \<longleftrightarrow>
     bus_owner (fst b) = BUS_OWNER_I2C1 \<and> (\<exists>t t'. uart1_deinit b t = Some (b', t')) \<or>
     bus_owner (fst b) = BUS_OWNER_UART1 \<and> b' = i2c1_deinit b"

text \<open>Histories of the bus; the flag tells whether there has been a stray close.\<close>

inductive bus_hist :: "bool \<Rightarrow> bus \<Rightarrow> bool" where
  init: "gpio_wf g \<Longrightarrow> (\<And>j. j \<in> {6, 7} \<Longrightarrow> pin_owner (pin_view (bank g GPIOB) j) = BUS_OWNER_NONE) \<Longrightarrow>
    bus_hist False (serial_reset, g)"
| step: "bus_hist strayed b \<Longrightarrow> bus_step b b' \<Longrightarrow> bus_hist (strayed \<or> stray_close b b') b'"

definition pins_ok :: "bool \<Rightarrow> bus \<Rightarrow> bool" where
  "pins_ok strayed b \<longleftrightarrow> bus_inv (fst b) \<and> gpio_wf (snd b) \<and>
     (\<forall>j \<in> {6, 7}. pin_owner (pin_view (bank (snd b) GPIOB) j) = bus_owner (fst b) \<or>
        strayed \<and> pin_owner (pin_view (bank (snd b) GPIOB) j) = BUS_OWNER_NONE)"

lemma pins_logs [simp]:
  "pins_ok st (s\<lparr>uart_tx := x\<rparr>, g) = pins_ok st (s, g)" "pins_ok st (s\<lparr>i2c_tx := y\<rparr>, g) = pins_ok st (s, g)"
  "pins_ok st (s\<lparr>I2C1_ICR := z\<rparr>, g) = pins_ok st (s, g)" "pins_ok st (s\<lparr>I2C1_CR2 := z\<rparr>, g) = pins_ok st (s, g)"
  "pins_ok st (s\<lparr>uart1_baud := z\<rparr>, g) = pins_ok st (s, g)" "pins_ok st (s\<lparr>i2c1_hz := z\<rparr>, g) = pins_ok st (s, g)"
  by (simp_all add: pins_ok_def)

lemma pins_clear_errors [simp]: "pins_ok st (i2c1_clear_errors s, g) = pins_ok st (s, g)"
  by (simp add: i2c1_clear_errors_def)

lemma bus_pin_inits: "init_ok uart_pin_init" "init_ok i2c_pin_init" "take_bit 16 pb67 = pb67"
  "bit pb67 6" "bit pb67 7"
  by (simp_all add: init_ok_def uart_pin_init_def i2c_pin_init_def gpio_mode_defs pb67_def)

lemma bus_pins_view:
  assumes "gpio_wf g" "j = 6 \<or> j = 7"
  shows "pin_owner (pin_view (bank (gpio_release_pb6_pb7 g) GPIOB) j) = BUS_OWNER_NONE"
    "pin_owner (pin_view (bank (HAL_GPIO_Init GPIOB uart_pin_init (enable_gpio_clock GPIOB g)) GPIOB) j) = BUS_OWNER_UART1"
    "pin_owner (pin_view (bank (HAL_GPIO_Init GPIOB i2c_pin_init (enable_gpio_clock GPIOB g)) GPIOB) j) = BUS_OWNER_I2C1"
proof -
  have w: "gpio_wf (enable_gpio_clock GPIOB g)" and j: "j < 16" and b: "bit pb67 j"
    using assms bus_pin_inits(4,5) by auto
  show "pin_owner (pin_view (bank (gpio_release_pb6_pb7 g) GPIOB) j) = BUS_OWNER_NONE"
    using gpio_deinit_view [OF bus_pin_inits(3) w j, of GPIOB GPIOB] b
    by (simp add: gpio_release_pb6_pb7_def pin_owner_def cfg_reset_def)
  have p: "Pin uart_pin_init = pb67" "Pin i2c_pin_init = pb67" by (simp_all add: uart_pin_init_def i2c_pin_init_def)
  show "pin_owner (pin_view (bank (HAL_GPIO_Init GPIOB uart_pin_init (enable_gpio_clock GPIOB g)) GPIOB) j) = BUS_OWNER_UART1"
    using gpio_init_view [OF bus_pin_inits(1) w j, of GPIOB GPIOB] b
    by (simp add: p pin_owner_def cfg_init_def uart_pin_init_def gpio_mode_defs Let_def)
  show "pin_owner (pin_view (bank (HAL_GPIO_Init GPIOB i2c_pin_init (enable_gpio_clock GPIOB g)) GPIOB) j) = BUS_OWNER_I2C1"
    using gpio_init_view [OF bus_pin_inits(2) w j, of GPIOB GPIOB] b
    by (simp add: p pin_owner_def cfg_init_def i2c_pin_init_def gpio_mode_defs Let_def)
qed

lemma bus_pins_wf:
  assumes "gpio_wf g"
  shows "gpio_wf (gpio_release_pb6_pb7 g)"
    "gpio_wf (HAL_GPIO_Init GPIOB uart_pin_init (enable_gpio_clock GPIOB g))"
    "gpio_wf (HAL_GPIO_Init GPIOB i2c_pin_init (enable_gpio_clock GPIOB g))"
  using assms bus_pin_inits by (simp_all add: gpio_release_pb6_pb7_def gpio_deinit_wf gpio_init_wf)

lemma pins_uart_ensure:
  assumes "pins_ok st (s, g)" "uart1_ensure hck baud (s, g) = (ok, s', g')"
  shows "pins_ok st (s', g') \<and> ok"
proof -
  have i: "bus_inv s" "gpio_wf g" using assms(1) by (simp_all add: pins_ok_def)
  note e = uart1_ensure_inv [OF assms(2) i(1)]
  consider "s' = s" "g' = g" | g0 where "gpio_wf g0" "g' = HAL_GPIO_Init GPIOB uart_pin_init (enable_gpio_clock GPIOB g0)"
    using assms(2) i bus_pins_wf(1) [OF i(2)]
    by (auto simp: uart1_ensure_def uart1_take_over_def Let_def split: if_splits)
  then show ?thesis
    using assms(1) e by cases (auto simp: pins_ok_def bus_pins_view bus_pins_wf)
qed

lemma pins_uart_deinit:
  assumes "pins_ok st (s, g)" "uart1_deinit (s, g) t = Some ((s', g'), t')"
  shows "pins_ok (st \<or> bus_owner s = BUS_OWNER_I2C1) (s', g')"
proof -
  have i: "bus_inv s" "gpio_wf g" using assms(1) by (simp_all add: pins_ok_def)
  show ?thesis
    using uart1_deinit_inv [OF assms(2) i(1)] i(2) by (cases "bus_owner s") (auto simp: pins_ok_def bus_pins_view bus_pins_wf)
qed

lemma pins_i2c_deinit:
  assumes "pins_ok st (s, g)"
  shows "pins_ok (st \<or> bus_owner s = BUS_OWNER_UART1) (i2c1_deinit (s, g))"
proof -
  have i: "bus_inv s" "gpio_wf g" using assms by (simp_all add: pins_ok_def)
  show ?thesis
    using i2c1_deinit_inv [OF i(1), of g] i(2)
    by (cases "bus_owner s") (auto simp: pins_ok_def bus_pins_view bus_pins_wf i2c1_deinit_def Let_def)
qed

text \<open>The operations with a trace result, as postconditions.\<close>

lemma post_pins_i2c_ensure:
  assumes "pins_ok st b"
  shows "post (\<lambda>(ok, b', t'). pins_ok st b' \<and> ok) (i2c1_ensure hz b t)"
  unfolding post_def
proof (intro allI impI)
  fix r
  assume r: "i2c1_ensure hz b t = Some r"
  obtain s g ok s' g' t' where p: "b = (s, g)" "r = (ok, (s', g'), t')" by (cases b; cases r) auto
  have i: "bus_inv s" "gpio_wf g" using assms p by (simp_all add: pins_ok_def)
  note e = i2c1_ensure_inv [OF r [unfolded p] i(1)]
  consider "s' = s" "g' = g" | g0 where "gpio_wf g0" "g' = HAL_GPIO_Init GPIOB i2c_pin_init (enable_gpio_clock GPIOB g0)"
  proof (cases "bus_owner s = BUS_OWNER_UART1")
    case True
    then obtain s1 g1 t1 where d: "uart1_deinit (s, g) t = Some ((s1, g1), t1)"
      and f: "(s', g') = i2c1_configure (if hz = 0 then 100000 else hz) (s1, g1)"
      using r p by (auto simp: i2c1_ensure_def Let_def bind_eq_Some_conv split: if_splits)
    have "gpio_wf g1" using uart1_deinit_inv [OF d i(1)] bus_pins_wf(1) [OF i(2)] by simp
    with f that show ?thesis by (auto simp: i2c1_configure_def)
  next
    case False
    then show ?thesis using r p i that by (auto simp: i2c1_ensure_def i2c1_configure_def Let_def split: if_splits)
  qed
  then show "case r of (ok, b', t') \<Rightarrow> pins_ok st b' \<and> ok"
    using assms e unfolding p by cases (auto simp: pins_ok_def bus_pins_view bus_pins_wf)
qed

lemma post_wait: "post (\<lambda>r. True) (i2c1_wait_flag m v ms t)" "post (\<lambda>r. True) (wait_mask msk start tmo t)"
  "post (\<lambda>r. True) (uart_rx_loop n start tmo got t)"
  by (simp_all add: post_True)

lemma post_pins_i2c_loop: "pins_ok st (s, g) \<Longrightarrow> post (\<lambda>(ok, s', t'). pins_ok st (s', g)) (i2c_tx_loop d ms s t)"
  unfolding post_def using i2c_tx_loop_log by fastforce

lemma post_pins_i2c_write:
  assumes "pins_ok st b"
  shows "post (\<lambda>(ok, b', t'). pins_ok st b') (i2c1_write_then_maybe_stop addr d stop ms b t)"
  unfolding i2c1_write_then_maybe_stop_def Let_def
  by (rule post_bind, rule post_mono [OF post_pins_i2c_ensure [OF assms]])
    (auto intro!: post_rules post_mono [OF post_pins_i2c_loop] post_mono [OF post_wait(1)])

lemma post_pins_i2c_read:
  assumes "pins_ok st b"
  shows "post (\<lambda>(ok, out, b', t'). pins_ok st b') (i2c1_read_with_stop addr n ms b t)"
proof -
  have l: "post (\<lambda>r. True) (i2c_rx_loop n ms [] t)" for t by (simp add: post_True)
  show ?thesis
    unfolding i2c1_read_with_stop_def Let_def
    by (rule post_bind, rule post_mono [OF post_pins_i2c_ensure [OF assms]])
      (auto intro!: post_rules post_mono [OF l] post_mono [OF post_wait(1)])
qed

lemma post_pins_i2c_xfer:
  assumes "pins_ok st b"
  shows "post (\<lambda>(ok, out, b', t'). pins_ok st b') (i2c1_xfer addr d n ms b t)"
  unfolding i2c1_xfer_def Let_def
  by (rule post_bind, rule post_mono [OF post_pins_i2c_ensure [OF assms]])
    (auto intro!: post_rules post_mono [OF post_pins_i2c_write] post_pins_i2c_read)

lemma pins_uart_claim:
  assumes "pins_ok st b"
  obtains b1 where "uart1_ensure hck baud b = (True, b1)" "pins_ok st b1"
  using pins_uart_ensure [of st "fst b" "snd b" hck baud] assms
  by (cases "uart1_ensure hck baud b"; cases "snd (uart1_ensure hck baud b)") auto

lemma post_pins_uart_write:
  assumes "pins_ok st b"
  shows "post (\<lambda>(ok, n, b', t'). pins_ok st b') (uart1_write hck d ms b t)"
proof -
  obtain b1 where e: "uart1_ensure hck (uart1_baud (fst b)) b = (True, b1)" "pins_ok st b1"
    using pins_uart_claim [OF assms] .
  obtain s1 g1 where b1: "b1 = (s1, g1)" by (cases b1)
  have l: "post (\<lambda>(ok, n, s', t'). pins_ok st (s', g1)) (uart_tx_loop d 0 start ms s1 t)" for start t
    unfolding post_def using uart_tx_loop_log e(2) b1 by fastforce
  show ?thesis
    unfolding uart1_write_def Let_def e(1) b1 prod.case
    by (intro post_rules) (use assms e(2) b1 in \<open>auto intro!: post_rules post_mono [OF l] post_mono [OF post_wait(2)]\<close>)
qed

lemma post_pins_uart_read:
  assumes "pins_ok st b"
  shows "post (\<lambda>(ok, d, b', t'). pins_ok st b') (uart1_read hck n ms b t)"
proof -
  obtain b1 where e: "uart1_ensure hck (uart1_baud (fst b)) b = (True, b1)" "pins_ok st b1"
    using pins_uart_claim [OF assms] .
  show ?thesis
    unfolding uart1_read_def Let_def e(1) prod.case
    by (intro post_rules) (use assms e(2) in \<open>auto intro!: post_rules post_mono [OF post_wait(3)]\<close>)
qed

lemma pins_weaken: "pins_ok st b \<Longrightarrow> pins_ok (st \<or> c) b"
  by (auto simp: pins_ok_def)

lemma bus_step_pins: "bus_step b b' \<Longrightarrow> pins_ok st b \<Longrightarrow> pins_ok (st \<or> stray_close b b') b'"
proof (erule bus_stepE, goal_cases)
  case (1 hck baud ok)
  then show ?case using pins_uart_ensure [of st] pins_weaken by (cases b; cases b') fastforce
next
  case (2 t t')
  have "pins_ok (st \<or> bus_owner (fst b) = BUS_OWNER_I2C1) b'"
    using 2 pins_uart_deinit [of st] by (cases b; cases b') fastforce
  moreover have "bus_owner (fst b) = BUS_OWNER_I2C1 \<Longrightarrow> stray_close b b'" using 2 by (auto simp: stray_close_def)
  ultimately show ?case using pins_weaken by (cases "bus_owner (fst b) = BUS_OWNER_I2C1") auto
next
  case (4 hck d ms t ok n t')
  then show ?case using postD [OF post_pins_uart_write 4(2)] pins_weaken by fastforce
next
  case (5 hck n ms t ok d t')
  then show ?case using postD [OF post_pins_uart_read 5(2)] pins_weaken by fastforce
next
  case (6 hz t ok t')
  then show ?case using postD [OF post_pins_i2c_ensure 6(2)] pins_weaken by fastforce
next
  case 7
  have "pins_ok (st \<or> bus_owner (fst b) = BUS_OWNER_UART1) b'"
    using 7 pins_i2c_deinit [of st] by (cases b) fastforce
  moreover have "bus_owner (fst b) = BUS_OWNER_UART1 \<Longrightarrow> stray_close b b'" using 7 by (auto simp: stray_close_def)
  ultimately show ?case using pins_weaken by (cases "bus_owner (fst b) = BUS_OWNER_UART1") auto
next
  case (9 addr d stop ms t ok t')
  then show ?case using postD [OF post_pins_i2c_write 9(2)] pins_weaken by fastforce
next
  case (10 addr n ms t ok out t')
  then show ?case using postD [OF post_pins_i2c_read 10(2)] pins_weaken by fastforce
next
  case (11 addr d n ms t ok out t')
  then show ?case using postD [OF post_pins_i2c_xfer 11(2)] pins_weaken by fastforce
qed (auto intro: pins_weaken)

lemma bus_hist_inv: "bus_hist strayed b \<Longrightarrow> pins_ok strayed b"
proof (induction rule: bus_hist.induct)
  case (init g)
  then show ?case by (simp add: pins_ok_def bus_inv_def serial_reset_def)
next
  case (step strayed b b')
  then show ?case using bus_step_pins by blast
qed

lemma abs_diff_nat: "2 * p \<le> 2 * h + b \<Longrightarrow> 2 * h \<le> 2 * p + b \<Longrightarrow> 2 * \<bar>int p - int h\<bar> \<le> int b"
  by presburger

section \<open>Properties\<close>

text \<open>C27: The UART and the I2C controller own PB6, PB7, their clocks and their flags exclusively: after
  any sequence of opens, closes, rate changes and transfers (successful or timed out), at most one of
  the two peripherals is clocked, enabled and marked initialised, and it is the recorded owner; the
  alternate function of both pins is that of the recorded owner, so a peripheral that does not own
  the bus is never connected. The one exception is the close of a peripheral that does not own the
  bus: after such a close the owner's pins can be disconnected (but still belong to nobody else).
  Pins taken by a GPIO or PWM command in between are outside this statement.\<close>

theorem bus_exclusive:
  assumes "bus_hist strayed b" "j = 6 \<or> j = 7"
  shows "(bit (RCC_APB2ENR (fst b)) 14 \<longleftrightarrow> bus_owner (fst b) = BUS_OWNER_UART1) \<and>
    (bit (RCC_APB1ENR (fst b)) 21 \<longleftrightarrow> bus_owner (fst b) = BUS_OWNER_I2C1) \<and>
    (bit (USART1_CR1 (fst b)) 0 \<longleftrightarrow> uart1_initialized (fst b)) \<and>
    (bit (I2C1_CR1 (fst b)) 0 \<longleftrightarrow> i2c1_initialized (fst b)) \<and>
    \<not> (uart1_initialized (fst b) \<and> i2c1_initialized (fst b)) \<and>
    (pin_owner (pin_view (bank (snd b) GPIOB) j) = bus_owner (fst b) \<or>
     strayed \<and> pin_owner (pin_view (bank (snd b) GPIOB) j) = BUS_OWNER_NONE)"
  using bus_hist_inv [OF assms(1)] assms(2) by (auto simp: bus_inv_def pins_ok_def)

theorem bus_exclusive_witness:
  "bus_owner (fst (snd (uart1_ensure 48000000 9600 (serial_reset, gpio_reset_state)))) = BUS_OWNER_UART1 \<and>
   pin_owner (pin_view (bank (snd (snd (uart1_ensure 48000000 9600 (serial_reset, gpio_reset_state)))) GPIOB) 6) = BUS_OWNER_UART1 \<and>
   \<not> bit (RCC_APB1ENR (fst (snd (uart1_ensure 48000000 9600 (serial_reset, gpio_reset_state))))) 21"
proof -
  let ?b = "snd (uart1_ensure 48000000 9600 (serial_reset, gpio_reset_state))"
  have i: "bus_hist False (serial_reset, gpio_reset_state)"
    by (rule bus_hist.init [OF gpio_reset_wf]) (auto simp: pin_owner_def pin_view_def gpio_reset_state_def fld_def)
  have "bus_step (serial_reset, gpio_reset_state) ?b"
    by (rule bus_step.uart_open, rule prod.collapse [symmetric])
  from bus_hist.step [OF i this] have r: "bus_hist False ?b"
    by (simp add: stray_close_def serial_reset_def)
  have o: "bus_owner (fst ?b) = BUS_OWNER_UART1"
    by (simp add: uart1_ensure_def serial_reset_def uart1_take_over_def Let_def)
  show ?thesis using bus_exclusive [OF r, of 6] o by simp
qed

text \<open>A closing command for the UART while the I2C controller owns the bus puts both pins back into
  input mode but leaves the I2C controller recorded as owner and initialised, so the next opening at
  the same speed reports success and leaves the pins disconnected.\<close>

theorem stray_uart_close:
  assumes "bus_inv s" "bus_owner s = BUS_OWNER_I2C1" "gpio_wf g" "i2c1_hz s \<noteq> 0" "j = 6 \<or> j = 7"
  shows "\<exists>s' g'. uart1_deinit (s, g) t = Some ((s', g'), t) \<and>
    i2c1_ensure (i2c1_hz s) (s', g') t = Some (True, (s', g'), t) \<and>
    cf_mode (pin_view (bank g' GPIOB) j) = 0 \<and> cf_af (pin_view (bank g' GPIOB) j) = 0"
proof -
  have ue: "\<not> bit (USART1_CR1 s) 0" "i2c1_initialized s" using assms(1,2) by (simp_all add: bus_inv_def)
  define s' where "s' = s\<lparr>RCC_APB2ENR := RCC_APB2ENR s AND NOT 0x4000, uart1_initialized := False\<rparr>"
  have d: "uart1_deinit (s, g) t = Some ((s', gpio_release_pb6_pb7 g), t)"
    using assms(2) ue(1) by (simp add: uart1_deinit_def and_1_bit0 s'_def Let_def)
  have e: "i2c1_ensure (i2c1_hz s) (s', gpio_release_pb6_pb7 g) t = Some (True, (s', gpio_release_pb6_pb7 g), t)"
    using assms(2,4) ue(2) by (simp add: i2c1_ensure_def s'_def Let_def)
  have "pin_view (bank (gpio_release_pb6_pb7 g) GPIOB) j = cfg_reset (pin_view (bank g GPIOB) j)"
    using assms(3,5) gpio_deinit_view [of pb67 "enable_gpio_clock GPIOB g" j GPIOB GPIOB]
    by (auto simp: gpio_release_pb6_pb7_def pb67_def)
  then show ?thesis using d e by (auto simp: cfg_reset_def)
qed

theorem stray_uart_close_witness:
  "\<exists>s' g'. uart1_deinit (i2c1_configure 100000 (serial_reset, gpio_reset_state)) [] = Some ((s', g'), []) \<and>
    cf_mode (pin_view (bank g' GPIOB) 6) = 0"
proof -
  obtain s g where b: "i2c1_configure 100000 (serial_reset, gpio_reset_state) = (s, g)" by (metis prod.exhaust)
  have s: "bus_inv s" "bus_owner s = BUS_OWNER_I2C1" "i2c1_hz s \<noteq> 0"
    using b by (auto simp: i2c1_configure_def bus_inv_def serial_reset_def)
  have g: "g = HAL_GPIO_Init GPIOB i2c_pin_init (enable_gpio_clock GPIOB gpio_reset_state)"
    using b by (auto simp: i2c1_configure_def)
  have ok: "init_ok i2c_pin_init"
    by (simp add: init_ok_def i2c_pin_init_def gpio_mode_defs pb67_def)
  have w: "gpio_wf g" unfolding g by (rule gpio_init_wf [OF ok]) simp
  show ?thesis unfolding b using stray_uart_close [OF s(1,2) w s(3), of 6 "[]"] by auto
qed

text \<open>C28: An I2C transaction transmits a prefix of the bytes to write and returns at most the requested
  number of bytes; if it reports success, it transmitted exactly the bytes to write, in order, returned
  exactly the requested number of bytes, and the address was a 7-bit one.\<close>

theorem i2c_transaction:
  assumes "bus_reach g0 (s, g)" "i2c1_xfer addr d n ms (s, g) t = Some (ok, out, (s', g'), t')"
  shows "length out \<le> n \<and> (\<exists>k \<le> length d. i2c_tx s' = i2c_tx s @ take k d \<and>
    (ok \<longrightarrow> k = length d \<and> length out = n \<and> addr \<le> 0x7F))"
  using i2c_xfer_spec [OF assms(2)] bus_reach_inv [OF assms(1)] by simp

theorem i2c_transaction_witness:
  "\<exists>s' g'. i2c1_xfer 0x50 [0x10] 1 5 (i2c1_configure 100000 (serial_reset, gpio_reset_state)) [0, 2, 0, 0x40, 0, 4, 0xAB, 0, 0x20]
      = Some (True, [0xAB], (s', g'), []) \<and> i2c_tx s' = [0x10]"
proof -
  obtain s g where b: "i2c1_configure 100000 (serial_reset, gpio_reset_state) = (s, g)" by (metis prod.exhaust)
  have s: "bus_owner s = BUS_OWNER_I2C1" "i2c1_initialized s" "i2c1_hz s = 100000" "i2c_tx s = []"
    using b by (auto simp: i2c1_configure_def serial_reset_def)
  have "i2c1_ensure 100000 (serial_reset, gpio_reset_state) [] = Some (True, (s, g), [])"
    using b by (simp add: i2c1_ensure_def serial_reset_def)
  then have r: "bus_reach gpio_reset_state (s, g)" by (rule bus_reach.step [OF bus_reach.init bus_step.i2c_open])
  have e: "\<exists>s' g'. i2c1_xfer 0x50 [0x10] 1 5 (s, g) [0, 2, 0, 0x40, 0, 4, 0xAB, 0, 0x20] = Some (True, [0xAB], (s', g'), [])"
    using s by (simp add: i2c1_xfer_def i2c1_ensure_def i2c1_write_then_maybe_stop_def i2c1_clear_errors_def
        i2c1_read_with_stop_def i2c1_wait_flag_def Let_def)
  then obtain s' g' where x: "i2c1_xfer 0x50 [0x10] 1 5 (s, g) [0, 2, 0, 0x40, 0, 4, 0xAB, 0, 0x20] = Some (True, [0xAB], (s', g'), [])"
    by blast
  have "i2c_tx s' = [0x10]" using i2c_transaction [OF r x] s(4) by auto
  with x show ?thesis unfolding b by blast
qed

text \<open>The baud rate divisor is the core clock divided by the rate, rounded to the nearest integer: the
  bit time the UART produces differs from the requested one by at most half a clock cycle.\<close>

theorem uart_brr_nearest:
  assumes "0 < baud" "unat hck + unat baud div 2 < 2 ^ 32" "unat baud \<le> 2 * unat hck" "hck \<noteq> 0"
  shows "2 * \<bar>int (unat (uart_brr hck baud)) * int (unat baud) - int (unat hck)\<bar> \<le> int (unat baud)"
proof -
  let ?h = "unat hck" and ?b = "unat baud"
  have b: "0 < ?b" using assms(1) by (simp add: word_less_nat_alt)
  have q: "unat ((hck + baud div 2) div baud) = (?h + ?b div 2) div ?b"
    using assms(2) by (simp add: unat_div unat_word_ariths)
  have "?b - ?b div 2 \<le> ?h" using assms(3) by linarith
  then have "?b \<le> ?h + ?b div 2" by linarith
  then have "1 \<le> (?h + ?b div 2) div ?b" using b by (simp add: less_eq_div_iff_mult_less_eq)
  then have nz: "(hck + baud div 2) div baud \<noteq> 0" using q by (metis not_one_le_zero unat_0)
  have v: "unat (uart_brr hck baud) = (?h + ?b div 2) div ?b"
    using assms(4) nz q by (simp add: uart_brr_def Let_def)
  define m where "m = (?h + ?b div 2) mod ?b"
  have "(?h + ?b div 2) div ?b * ?b + m = ?h + ?b div 2" unfolding m_def by (rule div_mult_mod_eq)
  moreover have "m < ?b" unfolding m_def using b by simp
  moreover define P where "P = (?h + ?b div 2) div ?b * ?b"
  ultimately have "P + m = ?h + ?b div 2" "m < ?b" by simp_all
  then have "2 * P \<le> 2 * ?h + ?b" "2 * ?h \<le> 2 * P + ?b" by linarith+
  then have "2 * \<bar>int P - int ?h\<bar> \<le> int ?b" by (rule abs_diff_nat)
  then show ?thesis unfolding v P_def by simp
qed

theorem uart_brr_nearest_witness: "2 * \<bar>int (unat (uart_brr 48000000 115200)) * 115200 - 48000000\<bar> \<le> 115200"
  using uart_brr_nearest [of 115200 48000000] by simp

end
