(* ===== verification/Flash_Name.thy ===== *)
theory Flash_Name
  imports Emw_Prelude
begin

text \<open>
  The flash memory users of \<open>Core/Src/main.c\<close>: the device name kept in the last flash page, and
  the destructive entry into the ROM bootloader. The ST driver calls \<open>HAL_FLASHEx_Erase\<close> and
  \<open>HAL_FLASH_Program\<close> are below the model: their status is the next value of the trace, and a
  status of zero means the documented effect took place. \<open>name_page\<close> holds the bytes of the page,
  \<open>app_erased\<close> logs the pages erased through the registers by the bootloader entry.
\<close>

record flash =
  name_page :: "u8 list"
  flash_unlocked :: bool
  FLASH_CR :: u32
  FLASH_SR :: u32
  FLASH_AR :: u32
  FLASH_KEYR :: "u32 list"
  app_erased :: "u32 list"
  irqs_masked :: bool
  SysTick_CTRL :: u32
  SysTick_LOAD :: u32
  SysTick_VAL :: u32
  NVIC_ICER :: u32
  NVIC_ICPR :: u32

section \<open>The device name\<close>

definition DEVICE_NAME_MAX_LEN :: nat where "DEVICE_NAME_MAX_LEN = 32"

text \<open>The copy loop: it ends before \<open>n\<close> bytes at an erased or a terminating byte.\<close>

fun name_scan :: "nat \<Rightarrow> u8 list \<Rightarrow> u8 list" where
  "name_scan 0 bs = []"
| "name_scan (Suc n) bs =
     (case bs of [] \<Rightarrow> [] | b # bs \<Rightarrow> if b = 0xFF \<or> b = 0 then [] else b # name_scan n bs)"

definition get_device_name :: "nat \<Rightarrow> flash \<Rightarrow> u8 list" where
  "get_device_name max_len fl =
     (if name_page fl ! 0 = 0xFF then [] else name_scan (max_len - 1) (name_page fl))"

definition HAL_FLASHEx_Erase :: "flash \<Rightarrow> trace \<Rightarrow> (bool \<times> flash \<times> trace) option" where
  "HAL_FLASHEx_Erase fl t = do {
     (st, t) \<leftarrow> rd t;
     Some (st = 0, if st = 0 then fl\<lparr>name_page := replicate 1024 0xFF\<rparr> else fl, t) }"

definition HAL_FLASH_Program :: "nat \<Rightarrow> u16 \<Rightarrow> flash \<Rightarrow> trace \<Rightarrow> (bool \<times> flash \<times> trace) option" where
  "HAL_FLASH_Program off data fl t = do {
     (st, t) \<leftarrow> rd t;
     Some (st = 0, if st = 0 then fl\<lparr>name_page := blit (name_page fl) off (u16_bytes data)\<rparr> else fl, t) }"

text \<open>The lane bytes from position 2 on, two at a time; \<open>False\<close> is the exit after a failed write.\<close>

definition name_half :: "u8 list \<Rightarrow> nat \<Rightarrow> nat \<Rightarrow> u16" where
  "name_half lane len i =
     (let data = ucast (lane ! (2 + i))
      in if i + 1 < len then data OR push_bit 8 (ucast (lane ! (2 + i + 1))) else data)"

function name_program_loop :: "u8 list \<Rightarrow> nat \<Rightarrow> nat \<Rightarrow> flash \<Rightarrow> trace \<Rightarrow> (bool \<times> flash \<times> trace) option" where
  "name_program_loop lane len i fl t =
     (if \<not> i < len then Some (True, fl, t)
      else do {
        (ok, fl, t) \<leftarrow> HAL_FLASH_Program i (name_half lane len i) fl t;
        if \<not> ok then Some (False, fl, t) else name_program_loop lane len (i + 2) fl t })"
  by pat_completeness auto
termination
  by (relation "measure (\<lambda>(lane, len, i, fl, t). len - i)") auto

declare name_program_loop.simps [simp del]

definition name_len :: "u8 \<Rightarrow> nat" where
  "name_len requested =
     (let len = requested;
          len = (if len > 16 then 16 else len);
          len = (if unat len > DEVICE_NAME_MAX_LEN then of_nat DEVICE_NAME_MAX_LEN else len)
      in unat len)"

lemma name_len_le: "name_len n \<le> 16"
  by (auto simp: name_len_def Let_def DEVICE_NAME_MAX_LEN_def word_less_nat_alt)

text \<open>The bytes a name of \<open>len\<close> bytes leaves in the page: the name and a terminating zero.\<close>

lemma bit_u8_ge [simp]: "8 \<le> n \<Longrightarrow> \<not> bit (x :: u8) n"
  by (auto dest: bit_imp_le_length)

lemma name_half_bytes:
  "length lane = 18 \<Longrightarrow> i < len \<Longrightarrow> len \<le> 16 \<Longrightarrow>
   u16_bytes (name_half lane len i) = [lane ! (2 + i), if i + 1 < len then lane ! (3 + i) else 0]"
  unfolding u16_bytes_def name_half_def Let_def and_0xFF
  by (auto simp: bit_simps numeral_3_eq_3 intro!: bit_word_eqI dest: bit_imp_le_length)

definition name_bytes :: "u8 list \<Rightarrow> nat \<Rightarrow> nat \<Rightarrow> u8 list" where
  "name_bytes lane len i =
     (if i < len then take (len - i) (drop (2 + i) lane) @ (if odd len then [0] else []) else [])"

lemma drop_Cons2: "Suc n < length xs \<Longrightarrow> drop n xs = xs ! n # xs ! Suc n # drop (Suc (Suc n)) xs"
  by (simp add: Cons_nth_drop_Suc)

lemma name_bytes_step:
  assumes "length lane = 18" "i < len" "len \<le> 16" "even i"
  shows "name_bytes lane len i = u16_bytes (name_half lane len i) @ name_bytes lane len (i + 2)"
proof (cases "i + 1 < len")
  case True
  then have d: "drop (2 + i) lane = lane ! (2 + i) # lane ! (3 + i) # drop (2 + (i + 2)) lane"
    using drop_Cons2 [of "2 + i" lane] assms by (simp add: numeral_3_eq_3)
  show ?thesis
  proof (cases "i + 2 < len")
    case True
    then have "len - i = Suc (Suc (len - (i + 2)))" by simp
    then show ?thesis using assms True d name_half_bytes [OF assms(1-3)] by (simp add: name_bytes_def)
  next
    case False
    then have "len = i + 2" using True by simp
    then show ?thesis using assms d name_half_bytes [OF assms(1-3)] by (simp add: name_bytes_def)
  qed
next
  case False
  then have "len = Suc i" using assms(2) by simp
  moreover have "drop (2 + i) lane = lane ! (2 + i) # drop (3 + i) lane"
    using Cons_nth_drop_Suc [of "2 + i" lane] assms by (simp add: numeral_3_eq_3)
  ultimately show ?thesis using assms name_half_bytes [OF assms(1-3)] by (simp add: name_bytes_def)
qed

lemma length_name_bytes: "length lane = 18 \<Longrightarrow> len \<le> 16 \<Longrightarrow> i + length (name_bytes lane len i) \<le> max i 17"
  by (auto simp: name_bytes_def)

lemma blit_append:
  "i + length a + length b \<le> length xs \<Longrightarrow> blit (blit xs i a) (i + length a) b = blit xs i (a @ b)"
  by (simp add: blit_def ac_simps)

lemma name_program_loop_ok:
  assumes "length lane = 18" "len \<le> 16" "length (name_page fl) = 1024" "even i" "len - i \<le> 2 * n" "2 * n \<le> len - i + 1"
  shows "\<exists>fl'. name_program_loop lane len i fl (replicate n 0 @ t) = Some (True, fl', t) \<and>
    name_page fl' = blit (name_page fl) i (name_bytes lane len i)"
  using assms
proof (induction n arbitrary: i fl)
  case 0
  then show ?case by (simp add: name_program_loop.simps name_bytes_def)
next
  case (Suc n)
  then have i: "i < len" by simp
  let ?h = "name_half lane len i"
  let ?fl = "fl\<lparr>name_page := blit (name_page fl) i (u16_bytes ?h)\<rparr>"
  have p: "HAL_FLASH_Program i ?h fl (replicate (Suc n) 0 @ t) = Some (True, ?fl, replicate n 0 @ t)"
    by (simp add: HAL_FLASH_Program_def)
  have "length (name_page ?fl) = 1024" using Suc.prems(2,3) i by simp
  moreover have "even (i + 2)" "len - (i + 2) \<le> 2 * n" "2 * n \<le> len - (i + 2) + 1"
    using Suc.prems(4-6) i by auto
  ultimately obtain fl' where r: "name_program_loop lane len (i + 2) ?fl (replicate n 0 @ t) = Some (True, fl', t)"
    and n: "name_page fl' = blit (name_page ?fl) (i + 2) (name_bytes lane len (i + 2))"
    using Suc.IH [OF Suc.prems(1,2)] by blast
  have "i + length (u16_bytes ?h) + length (name_bytes lane len (i + 2)) \<le> length (name_page fl)"
    using length_name_bytes [OF Suc.prems(1,2), of "i + 2"] Suc.prems(2,3) i by simp
  from blit_append [OF this] have "name_page fl' = blit (name_page fl) i (name_bytes lane len i)"
    using n name_bytes_step [OF Suc.prems(1) i Suc.prems(2,4)] by simp
  moreover have "name_program_loop lane len i fl (replicate (Suc n) 0 @ t) = Some (True, fl', t)"
    using i p r by (subst name_program_loop.simps) simp
  ultimately show ?case by blast
qed

lemma name_scan_takeWhile:
  "length bs \<le> n \<Longrightarrow> name_scan n (bs @ 0 # rest) = takeWhile (\<lambda>b. b \<noteq> 0xFF \<and> b \<noteq> 0) bs"
proof (induction bs arbitrary: n)
  case Nil
  then show ?case by (cases n) simp_all
next
  case (Cons b bs)
  then show ?case by (cases n) auto
qed

section \<open>Entering the ROM bootloader\<close>

text \<open>\<open>while (FLASH->SR & FLASH_SR_BSY) {}\<close>.\<close>

fun flash_idle :: "trace \<Rightarrow> trace option" where
  "flash_idle [] = None"
| "flash_idle (sr # t) = (if sr AND 1 \<noteq> 0 then flash_idle t else Some t)"

fun dfu_erase_loop :: "u32 list \<Rightarrow> flash \<Rightarrow> trace \<Rightarrow> (flash \<times> trace) option" where
  "dfu_erase_loop [] fl t = Some (fl, t)"
| "dfu_erase_loop (i # is) fl t = do {
     let addr = 0x08000000 + i * 0x400;
     t \<leftarrow> flash_idle t;
     let fl = fl\<lparr>FLASH_CR := FLASH_CR fl OR 2\<rparr>;
     let fl = fl\<lparr>FLASH_AR := addr\<rparr>;
     let fl = fl\<lparr>FLASH_CR := FLASH_CR fl OR 0x40\<rparr>;
     let fl = (if FLASH_CR fl AND 0x80 = 0 then fl\<lparr>app_erased := app_erased fl @ [FLASH_AR fl]\<rparr> else fl);
     t \<leftarrow> flash_idle t;
     (sr, t) \<leftarrow> rd t;
     let fl = fl\<lparr>FLASH_SR := sr OR 0x20\<rparr>;
     let fl = fl\<lparr>FLASH_CR := (FLASH_CR fl AND NOT 0x40) AND NOT 2\<rparr>;
     dfu_erase_loop is fl t }"

text \<open>
  Writing the two keys in this order clears the lock bit; the start bit clears itself when the
  erase ends. The function ends in the system reset.
\<close>

definition emw_enter_rom_dfu_by_erasing_flash :: "flash \<Rightarrow> trace \<Rightarrow> (flash \<times> trace) option" where
  "emw_enter_rom_dfu_by_erasing_flash fl t = do {
     let fl = fl\<lparr>irqs_masked := True\<rparr>;
     let fl = fl\<lparr>SysTick_CTRL := 0, SysTick_LOAD := 0, SysTick_VAL := 0\<rparr>;
     let fl = fl\<lparr>NVIC_ICER := 0xFFFFFFFF, NVIC_ICPR := 0xFFFFFFFF\<rparr>;
     let fl = (if FLASH_CR fl AND 0x80 \<noteq> 0
               then fl\<lparr>FLASH_KEYR := FLASH_KEYR fl @ [0x45670123, 0xCDEF89AB], FLASH_CR := FLASH_CR fl AND NOT 0x80\<rparr>
               else fl);
     (sr, t) \<leftarrow> rd t;
     let fl = fl\<lparr>FLASH_SR := sr OR 0x34\<rparr>;
     t \<leftarrow> flash_idle t;
     (fl, t) \<leftarrow> dfu_erase_loop [0, 1, 2, 3] fl t;
     Some (fl\<lparr>FLASH_CR := FLASH_CR fl OR 0x80\<rparr>, t) }"

lemma and_80: "x AND 0x80 = (0 :: u32) \<longleftrightarrow> \<not> bit x 7"
  using and_exp_eq_0_iff_not_bit [of x 7] by simp

lemma cr_lock_bits:
  "bit (x OR 2 OR 0x40 :: u32) 7 = bit x 7" "bit ((x AND NOT 0x40) AND NOT 2 :: u32) 7 = bit x 7"
  "bit (x OR 2 :: u32) 7 = bit x 7" "bit (x OR 0x40 :: u32) 7 = bit x 7"
  "\<not> bit (x AND NOT 0x80 :: u32) 7"
  by (simp_all add: bit_or_iff bit_and_iff bit_not_iff)

lemmas cr_lock_bits_minus = cr_lock_bits [simplified]

lemma dfu_erase_loop_log:
  "dfu_erase_loop is fl t = Some (fl', t') \<Longrightarrow> \<not> bit (FLASH_CR fl) 7 \<Longrightarrow>
   app_erased fl' = app_erased fl @ map (\<lambda>i. 0x08000000 + i * 0x400) is \<and> \<not> bit (FLASH_CR fl') 7 \<and> name_page fl' = name_page fl
   \<and> irqs_masked fl' = irqs_masked fl"
proof (induction "is" arbitrary: fl t)
  case (Cons i "is")
  obtain fl1 t1 where r: "dfu_erase_loop is fl1 t1 = Some (fl', t')"
    and f: "\<not> bit (FLASH_CR fl1) 7"
      "app_erased fl1 = app_erased fl @ [0x08000000 + i * 0x400]" "name_page fl1 = name_page fl" "irqs_masked fl1 = irqs_masked fl"
    using Cons.prems by (auto simp: Let_def bind_eq_Some_conv and_80 cr_lock_bits_minus split: if_splits)
  from Cons.IH [OF r f(1)] f show ?case by simp
qed simp

lemma dfu_erase_loop_ends:
  "\<forall>sr \<in> set t. sr AND 1 = 0 \<Longrightarrow> 3 * length is \<le> length t \<Longrightarrow>
   \<exists>fl'. dfu_erase_loop is fl t = Some (fl', drop (3 * length is) t)"
proof (induction "is" arbitrary: fl t)
  case (Cons i "is")
  then obtain a b c t3 where t: "t = a # b # c # t3"
    by (auto simp: Suc_le_length_iff numeral_3_eq_3)
  have "drop (3 * length (i # is)) t = drop (3 * length is) t3" using t by (simp add: numeral_3_eq_3)
  then show ?case using Cons.IH [of t3] Cons.prems t by (auto simp: Let_def)
qed simp

definition flash_reset :: flash where
  "flash_reset = \<lparr>name_page = replicate 1024 0xFF, flash_unlocked = False, FLASH_CR = 0x80, FLASH_SR = 0, FLASH_AR = 0,
     FLASH_KEYR = [], app_erased = [], irqs_masked = False, SysTick_CTRL = 7, SysTick_LOAD = 47999, SysTick_VAL = 0,
     NVIC_ICER = 0, NVIC_ICPR = 0\<rparr>"

section \<open>Property\<close>

text \<open>Entering the bootloader erases exactly the first four pages of the application, in order,
  with the flash unlocked, leaves the page with the device name alone, masks interrupts, locks the
  flash again and reaches the reset, provided the flash controller gets idle.\<close>

theorem dfu_entry:
  assumes "\<forall>sr \<in> set t. sr AND 1 = 0" "14 \<le> length t"
  shows "\<exists>fl'. emw_enter_rom_dfu_by_erasing_flash fl t = Some (fl', drop 14 t) \<and>
    app_erased fl' = app_erased fl @ [0x08000000, 0x08000400, 0x08000800, 0x08000C00] \<and>
    name_page fl' = name_page fl \<and> irqs_masked fl' \<and> bit (FLASH_CR fl') 7"
proof -
  obtain a b t2 where t: "t = a # b # t2" using assms(2) by (auto simp: Suc_le_length_iff eval_nat_numeral)
  define fl1 where "fl1 = (let fl = fl\<lparr>irqs_masked := True\<rparr>; fl = fl\<lparr>SysTick_CTRL := 0, SysTick_LOAD := 0, SysTick_VAL := 0\<rparr>;
     fl = fl\<lparr>NVIC_ICER := 0xFFFFFFFF, NVIC_ICPR := 0xFFFFFFFF\<rparr>;
     fl = (if FLASH_CR fl AND 0x80 \<noteq> 0
               then fl\<lparr>FLASH_KEYR := FLASH_KEYR fl @ [0x45670123, 0xCDEF89AB], FLASH_CR := FLASH_CR fl AND NOT 0x80\<rparr>
               else fl) in fl\<lparr>FLASH_SR := a OR 0x34\<rparr>)"
  have f1: "\<not> bit (FLASH_CR fl1) 7" "app_erased fl1 = app_erased fl" "name_page fl1 = name_page fl" "irqs_masked fl1"
    by (auto simp: fl1_def Let_def and_80 cr_lock_bits_minus)
  obtain fl2 where l: "dfu_erase_loop [0, 1, 2, 3] fl1 t2 = Some (fl2, drop 12 t2)"
    using dfu_erase_loop_ends [of t2 "[0, 1, 2, 3]" fl1] assms t by (auto simp del: dfu_erase_loop.simps)
  have "emw_enter_rom_dfu_by_erasing_flash fl t = Some (fl2\<lparr>FLASH_CR := FLASH_CR fl2 OR 0x80\<rparr>, drop 12 t2)"
    using l assms(1) t unfolding fl1_def by (simp add: emw_enter_rom_dfu_by_erasing_flash_def Let_def del: dfu_erase_loop.simps)
  then show ?thesis using dfu_erase_loop_log [OF l f1(1)] f1 t by (auto simp: bit_or_iff)
qed

theorem dfu_entry_witness:
  "\<exists>fl'. emw_enter_rom_dfu_by_erasing_flash flash_reset (replicate 14 0) = Some (fl', []) \<and>
     app_erased fl' = [0x08000000, 0x08000400, 0x08000800, 0x08000C00]"
  using dfu_entry [of "replicate 14 0" flash_reset] by (auto simp: flash_reset_def)

end
