(* ===== verification/Stm_Main.thy ===== *)
theory Stm_Main
  imports Usb_Desc Playback Serial_Bus Flash_Name
begin

text \<open>
  The command interpreter of \<open>Core/Src/main.c\<close>: the firmware state as a whole, the response
  path, the timer interrupt and one definition per opcode of the binary protocol. A handler
  works on the 18-byte command lane \<open>midi_packet\<close>, which the receive interrupt leaves alone until
  the command is consumed. Handlers run with interrupts between their calls; the interrupts that
  matter to a handler are those during the two polling loops of TRANSMIT, which take a schedule
  of interrupts, one batch before each test of the loop condition. The ghost field \<open>responses\<close>
  logs every response lane, \<open>spi_tx\<close> what was sent on the SPI bus, \<open>has_reset\<close> the system reset.
\<close>

section \<open>State\<close>

datatype ism_mode_t = ISM_MODE_IDLE | ISM_MODE_RAW_SAMPLING

record fw =
  fusb :: usb
  fsamp :: sampler
  fplay :: playback
  fgpio :: gpio
  ftim :: timers
  fadc :: adc
  fser :: serial
  fflash :: flash
  ism_mode :: ism_mode_t
  uid_words :: "u32 \<times> u32 \<times> u32"
  selectedChannel :: u32
  spi_tx :: "u8 list list"
  responses :: "u8 list list"
  has_reset :: bool

definition midi_packet_consume :: "fw \<Rightarrow> fw" where
  "midi_packet_consume f = f\<lparr>fusb := (fusb f)\<lparr>midi_packet_ready := False, midi_packet := zeros 18\<rparr>\<rparr>"

definition free_bulk_packet :: "fw \<Rightarrow> fw" where
  "free_bulk_packet f = midi_packet_consume f"

section \<open>Responses\<close>

definition EMW_RESP_STATUS_OK :: u8 where "EMW_RESP_STATUS_OK = 0x80"
definition EMW_RESP_STATUS_ERR :: u8 where "EMW_RESP_STATUS_ERR = 0x81"

definition response_lane :: "u8 \<Rightarrow> u8 list \<Rightarrow> u8 list" where
  "response_lane status payload = blit (zeros 18) 0 (status # take 17 payload)"

definition command_send_status :: "u8 \<Rightarrow> u8 list \<Rightarrow> fw \<Rightarrow> trace \<Rightarrow> (fw \<times> trace) option" where
  "command_send_status status payload f t =
     (let f = f\<lparr>responses := responses f @ [response_lane status payload]\<rparr> in
      if ism_mode f = ISM_MODE_RAW_SAMPLING \<or> MIDI_GetBufferType_FS (fusb f) = EMW_BUFFER_CIRCULAR then
        Some (f\<lparr>fusb := (fusb f)\<lparr>pending_cmd_lane := response_lane status payload, pending_cmd_ready := True\<rparr>\<rparr>, t)
      else do {
        (res, u, t) \<leftarrow> MIDI_SendResponsePkt_FS (Some (blit (zeros 36) 0 (response_lane status payload))) 36 100 (fusb f) t;
        Some (f\<lparr>fusb := u\<rparr>, t) })"

definition command_send_ok :: "u8 list \<Rightarrow> fw \<Rightarrow> trace \<Rightarrow> (fw \<times> trace) option" where
  "command_send_ok data = command_send_status EMW_RESP_STATUS_OK data"

definition command_send_err :: "fw \<Rightarrow> trace \<Rightarrow> (fw \<times> trace) option" where
  "command_send_err = command_send_status EMW_RESP_STATUS_ERR []"

section \<open>Interrupts\<close>

definition EMW_TIM3_Tick_ISR :: "u32 \<Rightarrow> fw \<Rightarrow> fw" where
  "EMW_TIM3_Tick_ISR idr f =
     (if emw_buf_type (fusb f) = EMW_BUFFER_CIRCULAR then
        let (p, r, ccer) = ISR_Sampler_writing (fplay f, ring (fusb f), CCER (tims (ftim f) TIM2))
        in f\<lparr>fplay := p, fusb := (fusb f)\<lparr>ring := r\<rparr>, ftim := upd_tim TIM2 (\<lambda>x. x\<lparr>CCER := ccer\<rparr>) (ftim f)\<rparr>
      else if emw_buf_type (fusb f) = EMW_BUFFER_DOUBLE \<and> ism_mode f = ISM_MODE_RAW_SAMPLING then
        f\<lparr>fsamp := ISR_Sampler_raw idr (fsamp f)\<rparr>
      else f)"

definition TIM3_IRQHandler :: "u32 \<Rightarrow> fw \<Rightarrow> fw" where
  "TIM3_IRQHandler idr f =
     (if SR (tims (ftim f) TIM3) AND 1 \<noteq> 0
      then EMW_TIM3_Tick_ISR idr (f\<lparr>ftim := upd_tim TIM3 (\<lambda>r. r\<lparr>SR := clear16 1 (SR r)\<rparr>) (ftim f)\<rparr>)
      else f)"

text \<open>
  The interrupts: a USB transfer from the host, the completion of a transfer to the host, an update
  event of TIM3, which raises its flag and, with the counter and its interrupt enabled, runs the
  handler (\<open>idr\<close> is the value of the sampler's input register), and the two changes of the
  configuration: SET\_CONFIGURATION, which initialises the class of a device that is not configured, and
  a bus reset or SET\_CONFIGURATION with 0, which releases the class data of a configured one. The
  USB core dispatches transfers to a configured class only.
\<close>

datatype irq = Irq_Out u32 "u8 list" | Irq_In | Irq_Tim3 u32 | Irq_Configure | Irq_Deconfigure

fun irq_step :: "irq \<Rightarrow> fw \<Rightarrow> fw" where
  "irq_step (Irq_Out sz buf) f =
     (if pClassData (fusb f) = None then f
      else f\<lparr>fusb := USBD_MIDI_DataOut sz ((fusb f)\<lparr>midi_rx_buf := buf\<rparr>)\<rparr>)"
| "irq_step Irq_In f = f\<lparr>fusb := tx_poll 1 (fusb f)\<rparr>"
| "irq_step (Irq_Tim3 idr) f =
     (if CR1 (tims (ftim f) TIM3) AND 1 = 0 then f
      else
        let f = f\<lparr>ftim := upd_tim TIM3 (\<lambda>r. r\<lparr>SR := SR r OR 1\<rparr>) (ftim f)\<rparr>
        in if DIER (tims (ftim f) TIM3) AND 1 \<noteq> 0 then TIM3_IRQHandler idr f else f)"
| "irq_step Irq_Configure f =
     (if pClassData (fusb f) = None then f\<lparr>fusb := USBD_MIDI_Init (fusb f)\<rparr> else f)"
| "irq_step Irq_Deconfigure f = f\<lparr>fusb := USBD_MIDI_DeInit (fusb f)\<rparr>"

section \<open>System commands\<close>

definition handle_version :: "fw \<Rightarrow> trace \<Rightarrow> (fw \<times> trace) option" where
  "handle_version = command_send_ok [1, 0, 2]"

definition handle_reset :: "fw \<Rightarrow> trace \<Rightarrow> (fw \<times> trace) option" where
  "handle_reset f t = do {
     (f, t) \<leftarrow> command_send_ok [] f t;
     let f = midi_packet_consume f;
     Some (f\<lparr>has_reset := True\<rparr>, t) }"

definition handle_enter_dfu :: "fw \<Rightarrow> trace \<Rightarrow> (fw \<times> trace) option" where
  "handle_enter_dfu f t = do {
     (f, t) \<leftarrow> command_send_ok [] f t;
     let f = midi_packet_consume f;
     (fl, t) \<leftarrow> emw_enter_rom_dfu_by_erasing_flash (fflash f) t;
     Some (f\<lparr>fflash := fl, has_reset := True\<rparr>, t) }"

definition handle_uid :: "fw \<Rightarrow> trace \<Rightarrow> (fw \<times> trace) option" where
  "handle_uid f t =
     (case uid_words f of (uid0, uid1, uid2) \<Rightarrow>
        command_send_ok (u32_bytes uid0 @ u32_bytes uid1 @ u32_bytes uid2) f t)"

text \<open>The characters of \<open>stm32f042\<close>.\<close>

definition board_name :: "u8 list" where
  "board_name = map of_char ''stm32f042''"

definition handle_board :: "fw \<Rightarrow> trace \<Rightarrow> (fw \<times> trace) option" where
  "handle_board = command_send_ok board_name"

definition handle_name_get :: "fw \<Rightarrow> trace \<Rightarrow> (fw \<times> trace) option" where
  "handle_name_get f t = command_send_ok (get_device_name (DEVICE_NAME_MAX_LEN + 1) (fflash f)) f t"

definition handle_name_set :: "u8 list \<Rightarrow> fw \<Rightarrow> trace \<Rightarrow> (fw \<times> trace) option" where
  "handle_name_set lane f t = do {
     let len = name_len (lane ! 1);
     let f = f\<lparr>fflash := (fflash f)\<lparr>flash_unlocked := True\<rparr>\<rparr>;
     (ok, fl, t) \<leftarrow> HAL_FLASHEx_Erase (fflash f) t;
     let f = f\<lparr>fflash := fl\<rparr>;
     (f, t) \<leftarrow> (if \<not> ok then command_send_err f t
       else do {
         (ok, fl, t) \<leftarrow> name_program_loop lane len 0 (fflash f) t;
         let f = f\<lparr>fflash := fl\<rparr>;
         (f, t) \<leftarrow> (if \<not> ok then command_send_err f t else Some (f, t));
         (f, t) \<leftarrow> (if len mod 2 = 0
           then do {
             (ok, fl, t) \<leftarrow> HAL_FLASH_Program len 0 (fflash f) t;
             Some (f\<lparr>fflash := fl\<rparr>, t) }
           else Some (f, t));
         command_send_ok [] f t });
     Some (f\<lparr>fflash := (fflash f)\<lparr>flash_unlocked := False\<rparr>\<rparr>, t) }"

section \<open>GPIO and ADC commands\<close>

definition decode_pin :: "u8 \<Rightarrow> (gpio_port \<times> u16) option" where
  "decode_pin pin_enc = (if pin_enc > 31 then None else decode_encoded_pin (uint pin_enc))"

definition handle_gpio_sub :: "u8 \<Rightarrow> u8 \<Rightarrow> gpio_port \<Rightarrow> u16 \<Rightarrow> u8 \<Rightarrow> fw \<Rightarrow> trace \<Rightarrow> (fw \<times> trace) option" where
  "handle_gpio_sub sub pull_mode port pin_mask pin_index f t =
     (if sub = 0 then
        command_send_ok [] (f\<lparr>fgpio := gpio_set_mode port pin_mask GPIO_MODE_INPUT GPIO_NOPULL (fgpio f)\<rparr>) t
      else if sub = 1 then
        command_send_ok [] (f\<lparr>fgpio := gpio_set_mode port pin_mask GPIO_MODE_OUTPUT_PP GPIO_NOPULL (fgpio f)\<rparr>) t
      else if sub = 5 then
        (case (if pull_mode = 1 then Some GPIO_PULLUP
               else if pull_mode = 2 then Some GPIO_PULLDOWN
               else if pull_mode \<noteq> 0 then None
               else Some GPIO_NOPULL) of
           None \<Rightarrow> command_send_err f t
         | Some pull \<Rightarrow> command_send_ok [] (f\<lparr>fgpio := gpio_set_mode port pin_mask GPIO_MODE_INPUT pull (fgpio f)\<rparr>) t)
      else if sub = 2 then do {
        let f = f\<lparr>fgpio := gpio_set_mode port pin_mask GPIO_MODE_INPUT GPIO_NOPULL (fgpio f)\<rparr>;
        (idr, t) \<leftarrow> rd t;
        command_send_ok [HAL_GPIO_ReadPin idr pin_mask] f t }
      else if sub = 3 \<or> sub = 4 then do {
        let f = f\<lparr>fgpio := gpio_drive port pin_mask (sub = 3) (fgpio f)\<rparr>;
        (idr, t) \<leftarrow> rd t;
        command_send_ok [HAL_GPIO_ReadPin idr pin_mask] f t }
      else if sub = 6 then do {
        let f = f\<lparr>fgpio := enable_gpio_clock port (fgpio f)\<rparr>;
        let r = bank (fgpio f) port;
        (idr, t) \<leftarrow> rd t;
        let i = unat pin_index;
        let afr = (if pin_index < 8 then AFR r ! 0 else AFR r ! 1);
        command_send_ok
          [ucast (drop_bit (i * 2) (MODER r) AND 3), ucast (drop_bit i (OTYPER r) AND 1),
           ucast (drop_bit (i * 2) (PUPDR r) AND 3), ucast (drop_bit (i mod 8 * 4) afr AND 15),
           ucast (drop_bit i idr AND 1), ucast (drop_bit i (ODR r) AND 1)] f t }
      else command_send_err f t)"

definition handle_gpio :: "u8 list \<Rightarrow> fw \<Rightarrow> trace \<Rightarrow> (fw \<times> trace) option" where
  "handle_gpio lane f t =
     (case decode_pin (lane ! 2) of
        None \<Rightarrow> command_send_err f t
      | Some (port, pin_mask) \<Rightarrow>
          (case pin_mask_to_index pin_mask of
             None \<Rightarrow> command_send_err f t
           | Some pin_index \<Rightarrow>
               handle_gpio_sub (lane ! 1) (lane ! 3) port pin_mask pin_index
                 (f\<lparr>ftim := disable_tim2_output_if_needed port pin_index (ftim f)\<rparr>) t))"

text \<open>The channel of an ADC command; \<open>None\<close> after the error response.\<close>

definition adc_select :: "u8 \<Rightarrow> u8 \<Rightarrow> fw \<Rightarrow> u32 option \<times> fw" where
  "adc_select src pin_enc f =
     (if src = 0 then
        (case decode_pin pin_enc of
           None \<Rightarrow> (None, f)
         | Some (port, pin_mask) \<Rightarrow>
             (case pin_mask_to_index pin_mask of
                None \<Rightarrow> (None, f)
              | Some pin_index \<Rightarrow>
                  (adc_channel_from_pin port pin_index,
                   f\<lparr>ftim := disable_tim2_output_if_needed port pin_index (ftim f),
                     fgpio := gpio_set_mode port pin_mask GPIO_MODE_ANALOG GPIO_NOPULL (fgpio f)\<rparr>)))
      else
        (case adc_internal_source src (fadc f) of
           None \<Rightarrow> (None, f)
         | Some (chsel_bit, a) \<Rightarrow> (Some chsel_bit, f\<lparr>fadc := a\<rparr>)))"

definition handle_adc :: "u8 list \<Rightarrow> fw \<Rightarrow> trace \<Rightarrow> (fw \<times> trace) option" where
  "handle_adc lane f t =
     (let samples = clamp_samples (lane ! 3); (chsel, f) = adc_select (lane ! 1) (lane ! 2) f in
      case chsel of
        None \<Rightarrow> command_send_err f t
      | Some chsel_bit \<Rightarrow> do {
          (acc, a, t) \<leftarrow> adc_sample_loop (unat samples) chsel_bit 0 (fadc f) t;
          let f = f\<lparr>fadc := a\<rparr>;
          (case acc of
             None \<Rightarrow> command_send_err f t
           | Some acc \<Rightarrow> command_send_ok (u16_bytes (adc_average acc samples)) f t) })"

section \<open>Bus commands\<close>

definition set_bus :: "bus \<Rightarrow> fw \<Rightarrow> fw" where
  "set_bus b f = f\<lparr>fser := fst b, fgpio := snd b\<rparr>"

definition get_bus :: "fw \<Rightarrow> bus" where
  "get_bus f = (fser f, fgpio f)"

definition set_baud :: "u32 \<Rightarrow> fw \<Rightarrow> fw" where
  "set_baud baud f = f\<lparr>fser := (fser f)\<lparr>uart1_baud := baud\<rparr>\<rparr>"

text \<open>\<open>uart1_ensure(uart1_baud)\<close>.\<close>

definition uart_claim :: "fw \<Rightarrow> bool \<times> fw" where
  "uart_claim f =
     (let (ok, b) = uart1_ensure (hclk (ftim f)) (uart1_baud (fser f)) (get_bus f) in (ok, set_bus b f))"

definition handle_uart_write :: "u8 list \<Rightarrow> fw \<Rightarrow> trace \<Rightarrow> (fw \<times> trace) option" where
  "handle_uart_write lane f t =
     (let baud = emw_u32_le (drop 2 lane); timeout_ms = emw_u16_le (drop 6 lane); n_or_len = lane ! 8;
          f = (if baud \<noteq> 0 then set_baud baud f else f);
          (ok, f) = uart_claim f
      in if \<not> ok then command_send_err f t
         else
           let timeout_ms = (if timeout_ms = 0 then 1000 else timeout_ms);
               tx_len = (if n_or_len > 9 then 9 else n_or_len)
           in if tx_len = 0 then command_send_ok [0] f t
              else do {
                (ok, written, b, t) \<leftarrow> uart1_write (hclk (ftim f)) (take (unat tx_len) (drop 9 lane)) (ucast timeout_ms) (get_bus f) t;
                let f = set_bus b f;
                if \<not> ok then command_send_err f t else command_send_ok [of_nat written] f t })"

definition handle_uart_read :: "u8 list \<Rightarrow> fw \<Rightarrow> trace \<Rightarrow> (fw \<times> trace) option" where
  "handle_uart_read lane f t =
     (let baud = emw_u32_le (drop 2 lane); timeout_ms = emw_u16_le (drop 6 lane); n_or_len = lane ! 8;
          f = (if baud \<noteq> 0 then set_baud baud f else f);
          (ok, f) = uart_claim f
      in if \<not> ok then command_send_err f t
         else
           let timeout_ms = (if timeout_ms = 0 then 250 else timeout_ms);
               n = (if n_or_len > 16 then 16 else n_or_len)
           in if n = 0 then command_send_ok [] f t
              else do {
                (ok, rx_buf, b, t) \<leftarrow> uart1_read (hclk (ftim f)) (unat n) (ucast timeout_ms) (get_bus f) t;
                let f = set_bus b f;
                if \<not> ok then command_send_err f t
                else
                  let got = min (length rx_buf) 16
                  in command_send_ok (of_nat got # take got rx_buf) f t })"

definition handle_uart :: "u8 list \<Rightarrow> fw \<Rightarrow> trace \<Rightarrow> (fw \<times> trace) option" where
  "handle_uart lane f t =
     (let sub = lane ! 1; baud = emw_u32_le (drop 2 lane) in
      if sub = 0 then
        let baud = (if baud = 0 then 115200 else baud);
            f = set_baud baud f;
            (ok, f) = uart_claim f
        in if \<not> ok then command_send_err f t else command_send_ok [] f t
      else if sub = 1 then do {
        (b, t) \<leftarrow> uart1_deinit (get_bus f) t;
        command_send_ok [] (set_bus b f) t }
      else if sub = 2 then handle_uart_write lane f t
      else if sub = 3 then handle_uart_read lane f t
      else command_send_err f t)"

text \<open>The subcommands of I2C that transfer; the bus is already open.\<close>

definition handle_i2c_xfer :: "u8 list \<Rightarrow> u16 \<Rightarrow> fw \<Rightarrow> trace \<Rightarrow> (fw \<times> trace) option" where
  "handle_i2c_xfer lane timeout_ms f t =
     (let sub = lane ! 1; addr = lane ! 8 AND 0x7F; tx_len = lane ! 9; rx_len = lane ! 10 in
      if sub = 2 then
        (if tx_len = 0 then command_send_ok [] f t
         else do {
           let tx_len = (if tx_len > 7 then 7 else tx_len);
           (ok, b, t) \<leftarrow> i2c1_write_then_maybe_stop addr (take (unat tx_len) (drop 11 lane)) True (ucast timeout_ms) (get_bus f) t;
           let f = set_bus b f;
           if \<not> ok then command_send_err f t else command_send_ok [] f t })
      else if sub = 3 then
        (let n = (if tx_len > 17 then 17 else tx_len) in
         if n = 0 then command_send_ok [] f t
         else do {
           (ok, out, b, t) \<leftarrow> i2c1_read_with_stop addr (unat n) (ucast timeout_ms) (get_bus f) t;
           let f = set_bus b f;
           if \<not> ok then command_send_err f t else command_send_ok (take (unat n) (blit (zeros 64) 0 out)) f t })
      else if sub = 4 then do {
        let tx_len = (if tx_len > 7 then 7 else tx_len);
        let rx_len = (if rx_len > 17 then 17 else rx_len);
        (ok, out, b, t) \<leftarrow> i2c1_xfer addr (take (unat tx_len) (drop 11 lane)) (unat rx_len) (ucast timeout_ms) (get_bus f) t;
        let f = set_bus b f;
        if \<not> ok then command_send_err f t else command_send_ok (take (unat rx_len) (blit (zeros 64) 0 out)) f t }
      else command_send_err f t)"

definition set_hz :: "u32 \<Rightarrow> fw \<Rightarrow> fw" where
  "set_hz hz f = f\<lparr>fser := (fser f)\<lparr>i2c1_hz := hz\<rparr>\<rparr>"

definition handle_i2c :: "u8 list \<Rightarrow> fw \<Rightarrow> trace \<Rightarrow> (fw \<times> trace) option" where
  "handle_i2c lane f t = do {
     let sub = lane ! 1;
     let hz = emw_u32_le (drop 2 lane);
     let timeout_ms = emw_u16_le (drop 6 lane);
     let f = (if hz \<noteq> 0 then set_hz hz f else f);
     let timeout_ms = (if timeout_ms = 0 then 250 else timeout_ms);
     if sub = 0 then do {
       let f = (if i2c1_hz (fser f) = 0 then set_hz 100000 f else f);
       (ok, b, t) \<leftarrow> i2c1_ensure (i2c1_hz (fser f)) (get_bus f) t;
       let f = set_bus b f;
       if \<not> ok then command_send_err f t else command_send_ok [] f t }
     else if sub = 1 then command_send_ok [] (set_bus (i2c1_deinit (get_bus f)) f) t
     else do {
       (ok, b, t) \<leftarrow> i2c1_ensure (i2c1_hz (fser f)) (get_bus f) t;
       let f = set_bus b f;
       if \<not> ok then command_send_err f t else handle_i2c_xfer lane timeout_ms f t } }"

text \<open>
  \<open>HAL_SPI_TransmitReceive\<close> is below the model: its status is the next trace value, and after a
  success the received bytes follow.
\<close>

fun rd_bytes :: "nat \<Rightarrow> trace \<Rightarrow> (u8 list \<times> trace) option" where
  "rd_bytes 0 t = Some ([], t)"
| "rd_bytes (Suc n) t = do { (x, t) \<leftarrow> rd t; (xs, t) \<leftarrow> rd_bytes n t; Some (ucast x # xs, t) }"

definition HAL_SPI_TransmitReceive :: "u8 list \<Rightarrow> fw \<Rightarrow> trace \<Rightarrow> (bool \<times> u8 list \<times> fw \<times> trace) option" where
  "HAL_SPI_TransmitReceive tx f t = do {
     (st, t) \<leftarrow> rd t;
     let f = f\<lparr>spi_tx := spi_tx f @ [tx]\<rparr>;
     if st = 0 then do { (rx, t) \<leftarrow> rd_bytes (length tx) t; Some (True, rx, f, t) }
     else Some (False, [], f, t) }"

definition spi_select :: "gpio_port \<Rightarrow> u16 \<Rightarrow> gpio \<Rightarrow> gpio" where
  "spi_select port pin g =
     (let g = enable_gpio_clock port g;
          g = gpio_write_latch port pin True g;
          g = configurePin port pin GPIO_MODE_OUTPUT_PP GPIO_NOPULL 0 g;
          g = HAL_GPIO_WritePin port pin True g
      in HAL_GPIO_WritePin port pin False g)"

definition handle_spi :: "u8 list \<Rightarrow> fw \<Rightarrow> trace \<Rightarrow> (fw \<times> trace) option" where
  "handle_spi lane f t =
     (case decode_pin (lane ! 1) of
        None \<Rightarrow> command_send_err f t
      | Some (cs_port, cs_pin_mask) \<Rightarrow>
          let rx_req = lane ! 2; tx_len = lane ! 3;
              tx_len = (if tx_len > 14 then 14 else tx_len);
              requested_rx = (if rx_req = 0 then tx_len else rx_req);
              requested_rx = (if requested_rx > 17 then 17 else requested_rx);
              xfer_len = (if tx_len > requested_rx then tx_len else requested_rx)
          in if xfer_len = 0 \<or> requested_rx = 0 then command_send_ok [] f t
             else do {
               let tx_xfer = blit (zeros 64) 0 (take (unat tx_len) (drop 4 lane));
               let f = f\<lparr>fgpio := spi_select cs_port cs_pin_mask (fgpio f)\<rparr>;
               (ok, rx, f, t) \<leftarrow> HAL_SPI_TransmitReceive (take (unat xfer_len) tx_xfer) f t;
               let f = f\<lparr>fgpio := HAL_GPIO_WritePin cs_port cs_pin_mask True (fgpio f)\<rparr>;
               if \<not> ok then command_send_err f t
               else command_send_ok (take (unat requested_rx) (blit (zeros 64) 0 rx)) f t })"

section \<open>Sampling and PWM commands\<close>

definition stop_sampling :: "fw \<Rightarrow> fw" where
  "stop_sampling f =
     f\<lparr>ftim := HAL_TIM_Base_Stop_IT (ftim f), fusb := MIDI_SetBufferType_FS EMW_BUFFER_PACKET (fusb f),
       fsamp := sampler_stop_reset (fsamp f), ism_mode := ISM_MODE_IDLE\<rparr>"

definition start_sampling :: "gpio_port \<Rightarrow> u16 \<Rightarrow> u8 \<Rightarrow> fw \<Rightarrow> fw" where
  "start_sampling port pin_mask tick_us f =
     (let pull = (if port = GPIOA \<and> pin_mask = 2 then GPIO_NOPULL else GPIO_PULLDOWN);
          f = f\<lparr>fgpio := configurePin port pin_mask GPIO_MODE_INPUT pull 0 (fgpio f)\<rparr>;
          f = f\<lparr>fsamp := (fsamp f)\<lparr>samplerPort := port, samplerPin := pin_mask\<rparr>\<rparr>;
          f = (if tick_us \<noteq> 0 then f\<lparr>ftim := tim3_set_tick_us tick_us (ftim f)\<rparr> else f);
          f = f\<lparr>fsamp := sampler_start_reset (fsamp f)\<rparr>;
          f = f\<lparr>fusb := MIDI_SetBufferType_FS EMW_BUFFER_DOUBLE (fusb f)\<rparr>;
          f = f\<lparr>ism_mode := ISM_MODE_RAW_SAMPLING\<rparr>
      in f\<lparr>ftim := snd (HAL_TIM_Base_Start_IT (ftim f))\<rparr>)"

definition handle_sample :: "u8 list \<Rightarrow> fw \<Rightarrow> trace \<Rightarrow> (fw \<times> trace) option" where
  "handle_sample lane f t =
     (if lane ! 1 = 0 then
        (case decode_pin (lane ! 2) of
           None \<Rightarrow> command_send_err f t
         | Some (port, pin_mask) \<Rightarrow> command_send_ok [] (start_sampling port pin_mask (lane ! 3) f) t)
      else if lane ! 1 = 1 then command_send_ok [] (stop_sampling f) t
      else command_send_err f t)"

definition pwm_pin :: "u8 \<Rightarrow> (gpio_port \<times> u16 \<times> pwm_route) option" where
  "pwm_pin pin_enc = do {
     (port, pin_mask) \<leftarrow> decode_encoded_pin (uint pin_enc);
     pin_index \<leftarrow> pin_mask_to_index pin_mask;
     r \<leftarrow> pwm_route_from_pin port pin_index;
     Some (port, pin_mask, r) }"

definition pwm_static :: "gpio_port \<Rightarrow> u16 \<Rightarrow> pwm_route \<Rightarrow> bool \<Rightarrow> fw \<Rightarrow> fw" where
  "pwm_static port pin_mask r high f =
     f\<lparr>ftim := pwm_stop_route r (ftim f), fgpio := gpio_drive port pin_mask high (fgpio f)\<rparr>"

definition pwm_set_hz :: "pwm_route \<Rightarrow> u32 \<Rightarrow> timers \<Rightarrow> bool \<times> timers" where
  "pwm_set_hz r hz tm =
     (if timer_id r = TIM2 then tim2_set_pwm_hz hz tm
      else if timer_id r = TIM14 then tim14_set_pwm_hz hz tm
      else if timer_id r = TIM16 then tim16_17_set_pwm_hz TIM16 hz tm
      else if timer_id r = TIM17 then tim16_17_set_pwm_hz TIM17 hz tm
      else (False, tm))"

definition pwm_set_duty :: "gpio_port \<Rightarrow> u16 \<Rightarrow> pwm_route \<Rightarrow> u16 \<Rightarrow> fw \<Rightarrow> fw" where
  "pwm_set_duty port pin_mask r v f =
     (let f = f\<lparr>fgpio := configurePin port pin_mask GPIO_MODE_AF_PP GPIO_NOPULL (rt_af r) (fgpio f)\<rparr>;
          tm = (if timer_id r = TIM2 then tim2_set_ccr_from_u12 (rt_channel r) v (ftim f)
                else tim14_16_17_set_ccr_from_u12
                  (if timer_id r = TIM14 then TIM14 else if timer_id r = TIM16 then TIM16 else TIM17) v (ftim f))
      in f\<lparr>ftim := pwm_start_route r tm\<rparr>)"

definition handle_pwm_write :: "u8 list \<Rightarrow> fw \<Rightarrow> trace \<Rightarrow> (fw \<times> trace) option" where
  "handle_pwm_write lane f t =
     (let v = emw_u16_le (drop 3 lane); hz = emw_u32_le (drop 5 lane);
          v = (if v > 4095 then 4095 else v)
      in case pwm_pin (lane ! 2) of
           None \<Rightarrow> command_send_err f t
         | Some (port, pin_mask, r) \<Rightarrow>
             let (ok, tm) = (if hz \<noteq> 0 then pwm_set_hz r hz (ftim f) else (True, ftim f));
                 f = f\<lparr>ftim := tm\<rparr>
             in if \<not> ok then command_send_err f t
                else if v = 0 then command_send_ok [] (pwm_static port pin_mask r False f) t
                else if 4095 \<le> v then command_send_ok [] (pwm_static port pin_mask r True f) t
                else command_send_ok [] (pwm_set_duty port pin_mask r v f) t)"

definition handle_pwm :: "u8 list \<Rightarrow> fw \<Rightarrow> trace \<Rightarrow> (fw \<times> trace) option" where
  "handle_pwm lane f t =
     (if lane ! 1 = 0 then
        let hz = emw_u32_le (drop 2 lane); (ok, tm) = (if hz = 0 then (False, ftim f) else tim2_set_pwm_hz hz (ftim f));
            f = f\<lparr>ftim := tm\<rparr>
        in if \<not> ok then command_send_err f t else command_send_ok [] f t
      else if lane ! 1 = 2 then
        (case pwm_pin (lane ! 2) of
           None \<Rightarrow> command_send_err f t
         | Some (port, pin_mask, r) \<Rightarrow> command_send_ok [] (pwm_static port pin_mask r False f) t)
      else if lane ! 1 = 1 then handle_pwm_write lane f t
      else command_send_err f t)"

section \<open>Retransmission\<close>

definition tx_available :: "fw \<Rightarrow> u16" where
  "tx_available f = MIDI_GetRxBufferBytesAvailable_FS (ring (fusb f))"

text \<open>The prefill loop and the playback loop; each batch of the schedule precedes one test.\<close>

fun tx_fill_loop :: "irq list list \<Rightarrow> u32 \<Rightarrow> fw \<Rightarrow> trace \<Rightarrow> (irq list list \<times> fw \<times> trace) option" where
  "tx_fill_loop [] start f t = None"
| "tx_fill_loop (is # sch) start f t =
     (let f = fold irq_step is f in
      if \<not> tx_available f < 250 then Some (sch, f, t)
      else do {
        (u, t) \<leftarrow> MIDI_PollTx_FS (fusb f) t;
        let f = f\<lparr>fusb := u\<rparr>;
        (now, t) \<leftarrow> rd t;
        if 2000 < now - start then Some (sch, f, t) else tx_fill_loop sch start f t })"

fun tx_drain_loop :: "irq list list \<Rightarrow> fw \<Rightarrow> trace \<Rightarrow> (irq list list \<times> fw \<times> trace) option" where
  "tx_drain_loop [] f t = None"
| "tx_drain_loop (is # sch) f t =
     (let f = fold irq_step is f in
      if \<not> tx_available f \<noteq> 0 then Some (sch, f, t)
      else do {
        (u, t) \<leftarrow> MIDI_PollTx_FS (fusb f) t;
        tx_drain_loop sch (f\<lparr>fusb := u\<rparr>) t })"

definition tx_channel :: "u8 \<Rightarrow> u32 \<times> u16" where
  "tx_channel pin = (if pin = 0 then (TIM_CHANNEL_1, 1) else if pin = 1 then (TIM_CHANNEL_2, 2)
     else if pin = 2 then (TIM_CHANNEL_3, 4) else (TIM_CHANNEL_4, 8))"

text \<open>Everything before the loops: pin, carrier, playback state, tick and the empty ring.\<close>

definition transmit_setup :: "u8 list \<Rightarrow> u8 \<Rightarrow> fw \<Rightarrow> fw" where
  "transmit_setup lane pin f =
     (let duty = lane ! 3;
          duty = (if duty = 0 then 50 else duty);
          duty = (if duty > 100 then 100 else duty);
          pwm_hz = emw_u32_le (drop 4 lane);
          tick_us = lane ! 8;
          (tim_channel, gpio_pin) = tx_channel pin;
          f = f\<lparr>fgpio := configurePin GPIOA gpio_pin GPIO_MODE_AF_PP GPIO_PULLDOWN 2 (fgpio f)\<rparr>;
          f = (if pwm_hz \<noteq> 0 then f\<lparr>ftim := snd (tim2_set_pwm_hz pwm_hz (ftim f))\<rparr> else f);
          f = f\<lparr>ftim := setDutyCycle_TIM2 tim_channel duty (ftim f)\<rparr>;
          f = f\<lparr>selectedChannel := tim_channel,
                fplay := \<lparr>tx_bit_index = 0, tx_current_byte = 0, tx_out_enabled = False,
                          selectedChannelMask = tim2_ccer_mask_from_channel tim_channel\<rparr>\<rparr>;
          f = f\<lparr>ftim := snd (HAL_TIM_PWM_Start tim_channel (ftim f))\<rparr>;
          f = (if tick_us \<noteq> 0 then f\<lparr>ftim := tim3_set_tick_us tick_us (ftim f)\<rparr> else f);
          f = f\<lparr>fusb := (fusb f)\<lparr>ring := MIDI_InitRxBuffer_FS (ring (fusb f))\<rparr>\<rparr>
      in f\<lparr>fusb := MIDI_SetBufferType_FS EMW_BUFFER_CIRCULAR (fusb f)\<rparr>)"

definition transmit_finish :: "u8 \<Rightarrow> fw \<Rightarrow> fw" where
  "transmit_finish pin f =
     (let f = f\<lparr>ftim := HAL_TIM_Base_Stop_IT (ftim f)\<rparr>;
          f = f\<lparr>fusb := MIDI_SetBufferType_FS EMW_BUFFER_PACKET (fusb f)\<rparr>;
          f = f\<lparr>ftim := stopPWM_TIM2 (fst (tx_channel pin)) (ftim f)\<rparr>;
          f = f\<lparr>fusb := (fusb f)\<lparr>ring := MIDI_FlushRxBuffer_FS (ring (fusb f))\<rparr>\<rparr>
      in f\<lparr>fusb := (fusb f)\<lparr>ring := MIDI_FreeRxBuffer_FS (ring (fusb f))\<rparr>\<rparr>)"

definition handle_transmit :: "irq list list \<Rightarrow> u8 list \<Rightarrow> fw \<Rightarrow> trace \<Rightarrow> (irq list list \<times> fw \<times> trace) option" where
  "handle_transmit sch lane f t =
     (let sub = lane ! 1; pin = lane ! 2 in
      if sub = 1 then do { (f, t) \<leftarrow> command_send_ok [] f t; Some (sch, f, t) }
      else if sub \<noteq> 0 \<or> pin > 3 then do { (f, t) \<leftarrow> command_send_err f t; Some (sch, f, t) }
      else do {
        let f = transmit_setup lane pin f;
        (start, t) \<leftarrow> rd t;
        (sch, f, t) \<leftarrow> tx_fill_loop sch start f t;
        let f = f\<lparr>ftim := snd (HAL_TIM_Base_Start_IT (ftim f))\<rparr>;
        (sch, f, t) \<leftarrow> tx_drain_loop sch f t;
        (f, t) \<leftarrow> command_send_ok [] (transmit_finish pin f) t;
        Some (sch, f, t) })"

section \<open>The main loop\<close>

definition dispatch :: "u8 list \<Rightarrow> fw \<Rightarrow> trace \<Rightarrow> (fw \<times> trace) option" where
  "dispatch lane f t =
     (let opcode = lane ! 0 in
      if opcode = 0x00 then command_send_ok [] f t
      else if opcode = 0x01 then handle_version f t
      else if opcode = 0x02 then handle_reset f t
      else if opcode = 0x06 then handle_enter_dfu f t
      else if opcode = 0x03 then command_send_ok [] f t
      else if opcode = 0x08 then handle_uid f t
      else if opcode = 0x09 then handle_board f t
      else if opcode = 0x04 then handle_name_get f t
      else if opcode = 0x05 then handle_name_set lane f t
      else if opcode = 0x10 then handle_gpio lane f t
      else if opcode = 0x20 then handle_adc lane f t
      else if opcode = 0x30 then handle_uart lane f t
      else if opcode = 0x40 then handle_i2c lane f t
      else if opcode = 0x50 then handle_spi lane f t
      else if opcode = 0x60 then handle_sample lane f t
      else if opcode = 0x70 then handle_pwm lane f t
      else command_send_err f t)"

text \<open>Offering the oldest complete sampler lane to the sender.\<close>

definition main_drain :: "fw \<Rightarrow> trace \<Rightarrow> (fw \<times> trace) option" where
  "main_drain f t =
     (if ism_mode f = ISM_MODE_RAW_SAMPLING \<and> 0 < sampler_ring_count (fsamp f) then do {
        (ok, u, t) \<leftarrow> try_send_sampling_superframe (Some (drain_lane (fsamp f))) (fusb f) t;
        let f = f\<lparr>fusb := u\<rparr>;
        Some (if ok then f\<lparr>fsamp := drain_commit (fsamp f)\<rparr> else f, t) }
      else Some (f, t))"

text \<open>One iteration of the main loop.\<close>

definition main_iter :: "irq list list \<Rightarrow> fw \<Rightarrow> trace \<Rightarrow> (irq list list \<times> fw \<times> trace) option" where
  "main_iter sch f t = do {
     (f, t) \<leftarrow> main_drain f t;
     if \<not> midi_packet_ready (fusb f) then Some (sch, f, t)
     else do {
       let lane = midi_packet (fusb f);
       (sch, f, t) \<leftarrow> (if lane ! 0 = 0x80 then handle_transmit sch lane f t
                     else do { (f, t) \<leftarrow> dispatch lane f t; Some (sch, f, t) });
       Some (sch, if has_reset f then f else midi_packet_consume f, t) } }"

end
