(* ===== verification/Stm_Inv.thy ===== *)
theory Stm_Inv
  imports Stm_Main
begin

text \<open>
  The invariant of the whole firmware: the invariant of the USB
  side, of the pins and of the buses, and the effect every handler has on the response log.
\<close>

text \<open>Operations whose result is unconstrained.\<close>

lemmas post_waits = post_True [where m = "wait_mask msk start tmo t" for msk start tmo t]
  post_True [where m = "i2c1_wait_flag msk st tmo t" for msk st tmo t]
  post_True [where m = "uart_rx_loop n start tmo got t" for n start tmo got t]

section \<open>Pins\<close>

lemma pull_vals [simp]: "take_bit 2 GPIO_NOPULL = GPIO_NOPULL" "take_bit 2 GPIO_PULLUP = GPIO_PULLUP"
  "take_bit 2 GPIO_PULLDOWN = GPIO_PULLDOWN"
  by (simp_all add: GPIO_NOPULL_def GPIO_PULLUP_def GPIO_PULLDOWN_def)

lemma gpio_wf_ops [simp]:
  "gpio_wf g \<Longrightarrow> gpio_wf (gpio_write_latch port pin v g)"
  "gpio_wf g \<Longrightarrow> gpio_wf (HAL_GPIO_WritePin port pin v g)"
  "gpio_wf g \<Longrightarrow> take_bit 2 pull = pull \<Longrightarrow> gpio_wf (gpio_set_mode port pin mode pull g)"
  "gpio_wf g \<Longrightarrow> take_bit 2 pull = pull \<Longrightarrow> alternate < 16 \<Longrightarrow> gpio_wf (configurePin port pin mode pull alternate g)"
  using write_latch_view(2) [of g 0] WritePin_view(2) [of g 0] set_mode_view(2) [of pull g 0]
    configurePin_view(2) [of pull alternate g 0] by simp_all

lemma gpio_wf_drive [simp]: "gpio_wf g \<Longrightarrow> gpio_wf (gpio_drive port pin v g)"
  by (simp add: gpio_drive_eq)

lemma gpio_wf_spi [simp]: "gpio_wf g \<Longrightarrow> gpio_wf (spi_select port pin g)"
  by (simp add: spi_select_def Let_def)

lemma init_ok_bus [simp]: "init_ok uart_pin_init" "init_ok i2c_pin_init"
  by (simp_all add: init_ok_def uart_pin_init_def i2c_pin_init_def gpio_mode_defs pb67_def)

lemma gpio_wf_bus [simp]:
  "gpio_wf g \<Longrightarrow> gpio_wf (gpio_release_pb6_pb7 g)"
  "gpio_wf g \<Longrightarrow> gpio_wf (HAL_GPIO_Init GPIOB uart_pin_init (enable_gpio_clock GPIOB g))"
  "gpio_wf g \<Longrightarrow> gpio_wf (HAL_GPIO_Init GPIOB i2c_pin_init (enable_gpio_clock GPIOB g))"
  by (simp_all add: gpio_release_pb6_pb7_def gpio_deinit_wf gpio_init_wf pb67_def)

section \<open>Buses\<close>

definition bus_ok :: "bus \<Rightarrow> bool" where
  "bus_ok b \<longleftrightarrow> bus_inv (fst b) \<and> gpio_wf (snd b)"

lemma bus_ok_uart_ensure: "bus_ok b \<Longrightarrow> bus_ok (snd (uart1_ensure hck baud b)) \<and> fst (uart1_ensure hck baud b)"
proof -
  assume b: "bus_ok b"
  obtain s g where bp: "b = (s, g)" by (cases b)
  obtain ok s' g' where e: "uart1_ensure hck baud (s, g) = (ok, s', g')" by (metis prod_cases3)
  have "gpio_wf g'"
    using e b bp by (auto simp: uart1_ensure_def uart1_take_over_def bus_ok_def Let_def split: if_splits)
  then show ?thesis using uart1_ensure_inv [OF e] b bp e by (simp add: bus_ok_def)
qed

lemma post_uart_deinit: "bus_ok b \<Longrightarrow> post (\<lambda>(b', t'). bus_ok b') (uart1_deinit b t)"
  unfolding post_def
proof (intro allI impI)
  fix r
  assume b: "bus_ok b" and r: "uart1_deinit b t = Some r"
  obtain s g s' g' t' where p: "b = (s, g)" "r = ((s', g'), t')" by (cases b; cases r) auto
  show "case r of (b', t') \<Rightarrow> bus_ok b'"
    using uart1_deinit_inv [of s g t s' g' t'] r b p by (simp add: bus_ok_def)
qed

lemma bus_ok_i2c_deinit: "bus_ok b \<Longrightarrow> bus_ok (i2c1_deinit b)"
  using i2c1_deinit_inv [of "fst b" "snd b"] by (cases b) (simp add: bus_ok_def i2c1_deinit_def Let_def)

lemma post_i2c_ensure: "bus_ok b \<Longrightarrow> post (\<lambda>(ok, b', t'). bus_ok b' \<and> ok) (i2c1_ensure hz b t)"
proof -
  assume b: "bus_ok b"
  obtain s g where p: "b = (s, g)" by (cases b)
  have g: "post (\<lambda>(ok, b', t'). gpio_wf (snd b')) (i2c1_ensure hz b t)"
    unfolding i2c1_ensure_def Let_def p prod.case
  proof (intro post_rules)
    assume "bus_owner s = BUS_OWNER_UART1"
    show "post (\<lambda>r. post (\<lambda>(ok, b', t'). gpio_wf (snd b')) (case r of (b, t) \<Rightarrow>
        Some (True, i2c1_configure (if hz = 0 then 100000 else hz) b, t))) (uart1_deinit (s, g) t)"
      using post_mono [OF post_uart_deinit [of b t]] b p
      by (force simp: bus_ok_def i2c1_configure_def)
  qed (use b p in \<open>auto simp: bus_ok_def i2c1_configure_def\<close>)
  show ?thesis
    unfolding post_def
  proof (intro allI impI)
    fix r
    assume r: "i2c1_ensure hz b t = Some r"
    obtain ok s' g' t' where rp: "r = (ok, (s', g'), t')" by (cases r) auto
    show "case r of (ok, b', t') \<Rightarrow> bus_ok b' \<and> ok"
      using i2c1_ensure_inv [of hz s g t ok s' g' t'] r rp p b postD [OF g r] by (simp add: bus_ok_def)
  qed
qed

text \<open>The transfers: each starts with an \<open>ensure\<close> and leaves the pins to it.\<close>

lemma bus_post_uart_write: "bus_ok b \<Longrightarrow> post (\<lambda>(ok, n, b', t'). bus_ok b') (uart1_write hck d ms b t)"
proof -
  assume b: "bus_ok b"
  obtain s1 g1 where e: "uart1_ensure hck (uart1_baud (fst b)) b = (True, s1, g1)" "bus_inv s1" "gpio_wf g1"
    using bus_ok_uart_ensure [OF b, of hck "uart1_baud (fst b)"]
    by (cases "uart1_ensure hck (uart1_baud (fst b)) b") (auto simp: bus_ok_def)
  have l: "post (\<lambda>(ok, n, s', t'). bus_inv s') (uart_tx_loop d 0 start ms s1 t)" for start t
    unfolding post_def using uart_tx_loop_log e(2) by fastforce
  show ?thesis
    unfolding uart1_write_def Let_def e(1) prod.case
    by (intro post_rules) (auto intro!: post_mono [OF l] post_rules post_waits simp: b [unfolded bus_ok_def] bus_ok_def e)
qed

lemma bus_post_uart_read: "bus_ok b \<Longrightarrow> post (\<lambda>(ok, d, b', t'). bus_ok b') (uart1_read hck n ms b t)"
proof -
  assume b: "bus_ok b"
  obtain b1 where e: "uart1_ensure hck (uart1_baud (fst b)) b = (True, b1)" "bus_ok b1"
    using bus_ok_uart_ensure [OF b, of hck "uart1_baud (fst b)"]
    by (cases "uart1_ensure hck (uart1_baud (fst b)) b") auto
  show ?thesis
    unfolding uart1_read_def Let_def e(1) prod.case
    by (intro post_rules) (auto intro!: post_rules post_waits simp: b e(2))
qed

lemma post_i2c_write: "bus_ok b \<Longrightarrow> post (\<lambda>(ok, b', t'). bus_ok b') (i2c1_write_then_maybe_stop addr d stop ms b t)"
proof -
  assume b: "bus_ok b"
  have l: "post (\<lambda>(ok, s', t'). bus_inv s') (i2c_tx_loop d ms s t)" if "bus_inv s" for s t
    unfolding post_def using i2c_tx_loop_log that by fastforce
  show ?thesis
    unfolding i2c1_write_then_maybe_stop_def Let_def
    by (rule post_bind, rule post_mono [OF post_i2c_ensure [OF b]])
      (auto intro!: post_rules post_mono [OF l] post_waits simp: bus_ok_def i2c1_clear_errors_def)
qed

lemma post_i2c_read: "bus_ok b \<Longrightarrow> post (\<lambda>(ok, out, b', t'). bus_ok b' \<and> (ok \<longrightarrow> length out \<le> n)) (i2c1_read_with_stop addr n ms b t)"
proof -
  assume b: "bus_ok b"
  have l: "post (\<lambda>(ok, out, t'). length out \<le> n) (i2c_rx_loop n ms [] t)" for t
    unfolding post_def using i2c_rx_loop_length [of n ms "[]"] by fastforce
  show ?thesis
    unfolding i2c1_read_with_stop_def Let_def
    by (rule post_bind, rule post_mono [OF post_i2c_ensure [OF b]])
      (auto intro!: post_rules post_mono [OF l] post_waits simp: bus_ok_def i2c1_clear_errors_def)
qed

lemma bus_post_i2c_xfer: "bus_ok b \<Longrightarrow> post (\<lambda>(ok, out, b', t'). bus_ok b' \<and> (ok \<longrightarrow> length out \<le> n)) (i2c1_xfer addr d n ms b t)"
proof -
  assume b: "bus_ok b"
  show ?thesis
    unfolding i2c1_xfer_def Let_def
    by (rule post_bind, rule post_mono [OF post_i2c_ensure [OF b]])
      (auto intro!: post_rules post_mono [OF post_i2c_write] post_i2c_read)
qed

lemma bus_ok_rates [simp]: "bus_ok (s\<lparr>uart1_baud := x\<rparr>, g) = bus_ok (s, g)" "bus_ok (s\<lparr>i2c1_hz := x\<rparr>, g) = bus_ok (s, g)"
  by (simp_all add: bus_ok_def)

section \<open>The USB side\<close>

definition usb_wf :: "usb \<Rightarrow> bool" where
  "usb_wf u \<longleftrightarrow> rx_wf (ring u) \<and> length (midi_packet u) = 18 \<and> length (pending_cmd_lane u) = 18"

text \<open>
  The class data are there and nothing has been written through a missing pointer, unless a bus
  reset has taken them away at least once.
\<close>

definition class_ok :: "usb \<Rightarrow> bool" where
  "class_ok u \<longleftrightarrow> class_lost u \<or> configured u \<and> \<not> null_deref u"

definition usb_inv :: "usb \<Rightarrow> bool" where
  "usb_inv u \<longleftrightarrow> usb_wf u \<and> class_ok u"

lemmas usb_inv_defs = usb_inv_def usb_wf_def class_ok_def

lemma usb_inv_ring: "usb_inv u \<Longrightarrow> rx_wf (ring u)"
  by (simp add: usb_inv_defs)

lemma usb_inv_erase:
  "tx_erase u' = tx_erase u \<Longrightarrow> configured u' = configured u \<Longrightarrow> (configured u \<Longrightarrow> null_deref u' = null_deref u) \<Longrightarrow>
   usb_inv u \<Longrightarrow> usb_inv u'"
  using tx_erase_fields [of u' u] by (auto simp: usb_inv_defs)

lemma post_send:
  "usb_inv u \<Longrightarrow> post (\<lambda>(res, u', t'). usb_inv u' \<and> tx_erase u' = tx_erase u) (MIDI_SendResponsePkt_FS (Some p) 36 timeout u t)"
  unfolding post_def using send_erase [of p timeout u t] send_contract [of p timeout u t] usb_inv_erase [of _ u]
  by fastforce

lemma post_trysend:
  "usb_inv u \<Longrightarrow> post (\<lambda>(res, u', t'). usb_inv u' \<and> tx_erase u' = tx_erase u) (MIDI_TrySendResponsePkt_FS (Some p) 36 u t)"
  unfolding post_def using trysend_erase [of p u t] trysend_contract [of p u t] usb_inv_erase [of _ u]
  by fastforce

lemma usb_inv_upd [simp]:
  "usb_inv (u\<lparr>pending_cmd_ready := x\<rparr>) = usb_inv u" "usb_inv (u\<lparr>pending_bs_ready := x\<rparr>) = usb_inv u"
  "usb_inv (u\<lparr>midi_packet_ready := x\<rparr>) = usb_inv u" "usb_inv (u\<lparr>usb_rx_in := n\<rparr>) = usb_inv u"
  "usb_inv (u\<lparr>emw_buf_type := bt\<rparr>) = usb_inv u" "usb_inv (u\<lparr>midi_rx_buf := buf\<rparr>) = usb_inv u"
  "usb_inv (u\<lparr>pending_bs_status := st\<rparr>) = usb_inv u" "usb_inv (u\<lparr>rx_armed := n'\<rparr>) = usb_inv u"
  "usb_inv u \<Longrightarrow> rx_wf r \<Longrightarrow> usb_inv (u\<lparr>ring := r\<rparr>)"
  "usb_inv u \<Longrightarrow> length l = 18 \<Longrightarrow> usb_inv (u\<lparr>midi_packet := l\<rparr>)"
  "usb_inv u \<Longrightarrow> length l = 18 \<Longrightarrow> usb_inv (u\<lparr>pending_cmd_lane := l\<rparr>)"
  by (simp_all add: usb_inv_defs configured_def)

lemma usb_inv_tx_poll [simp]: "usb_inv u \<Longrightarrow> usb_inv (tx_poll d u)"
  by (rule usb_inv_erase [of _ u]) simp_all

lemma post_superframe:
  "usb_inv u \<Longrightarrow> post (\<lambda>(ok, u', t'). usb_inv u' \<and> midi_packet_ready u' = midi_packet_ready u \<and>
     midi_packet u' = midi_packet u \<and> emw_buf_type u' = emw_buf_type u) (try_send_sampling_superframe l u t)"
  unfolding try_send_sampling_superframe_def Let_def
  by (intro post_rules post_mono [OF post_trysend]) (auto dest: tx_erase_fields)

text \<open>What the polled sender leaves alone.\<close>

lemma post_poll_tx:
  "usb_inv u \<Longrightarrow> post (\<lambda>(u', t'). usb_inv u' \<and> ring u' = ring u \<and> emw_buf_type u' = emw_buf_type u \<and>
     midi_packet u' = midi_packet u \<and> midi_packet_ready u' = midi_packet_ready u) (MIDI_PollTx_FS u t)"
  unfolding post_def
proof (intro allI impI)
  fix r
  assume i: "usb_inv u" and r: "MIDI_PollTx_FS u t = Some r"
  show "case r of (u', t') \<Rightarrow> usb_inv u' \<and> ring u' = ring u \<and> emw_buf_type u' = emw_buf_type u \<and>
     midi_packet u' = midi_packet u \<and> midi_packet_ready u' = midi_packet_ready u"
  proof (cases "pending_bs_ready u")
    case False
    then show ?thesis using r i by (auto simp: MIDI_PollTx_FS_def)
  next
    case True
    then obtain d t0 where t: "t = d # t0" using r by (cases t) (auto simp: MIDI_PollTx_FS_def)
    note f = tx_erase_fields [OF tx_poll_frame(1) [of d u]]
    let ?v = "(tx_poll d u)\<lparr>pending_bs_ready := False\<rparr>"
    show ?thesis
    proof (cases "USBD_MIDI_IsTxBusy (tx_poll d u)")
      case True
      then show ?thesis using r i t \<open>pending_bs_ready u\<close> f by (auto simp: MIDI_PollTx_FS_def)
    next
      case False
      then obtain u' t' where s: "MIDI_SendStatusPacket_FS (pending_bs_status u) ?v t0 = Some (u', t')" "r = (u', t')"
        using r t \<open>pending_bs_ready u\<close> f by (cases r) (auto simp: MIDI_PollTx_FS_def Let_def)
      note k = send_status_erase [OF s(1)]
      then have e: "tx_erase u' = tx_erase (?v\<lparr>pending_cmd_ready := False\<rparr>)" by simp
      have "usb_inv (?v\<lparr>pending_cmd_ready := False\<rparr>)" using i by simp
      then have "usb_inv u'"
        by (rule usb_inv_erase [OF e, rotated 2])
          (use k send_status_contract [OF s(1)] in \<open>simp_all add: configured_def\<close>)
      then show ?thesis using tx_erase_fields [OF e] f s(2) by simp
    qed
  qed
qed

lemma append_lane_wf: "rx_wf r \<Longrightarrow> rx_wf (snd (rx_append_lane lane r))"
  using rx_append_fits [of r lane] rx_append_full [of r lane] by (cases "length (rx_contents r) + length lane < 512") auto

lemma usb_inv_receive_packet [simp]: "usb_inv u \<Longrightarrow> usb_inv (USBD_MIDI_ReceivePacket u)"
  by (auto simp: USBD_MIDI_ReceivePacket_def usb_inv_defs configured_def USBD_LL_PrepareReceive_def split: option.splits)

lemma usb_inv_dispatch [simp]: "usb_inv u \<Longrightarrow> length lane = 18 \<Longrightarrow> usb_inv (rx_dispatch lane u)"
  by (simp add: rx_dispatch_def)

lemma usb_inv_receive: "usb_inv u \<Longrightarrow> usb_inv (MIDI_Receive_FS buf sz u)"
proof -
  assume i: "usb_inv u"
  obtain d where d: "decode_payload_7bit_fixed (take 42 (drop 5 (usb_unpack buf))) = Some d" "length d = 36"
    by (simp add: decode_payload_spec length_dec7)
  show ?thesis
    using i d append_lane_wf [of "ring u" "take 18 (drop 18 d)"]
    by (auto simp: MIDI_Receive_FS_def Let_def MIDI_QueueStatusPacket_FS_def usb_inv_ring [of u] split: prod.splits bool.splits)
qed

lemma receive_buf_type [simp]: "emw_buf_type (MIDI_Receive_FS buf sz u) = emw_buf_type u"
  by (auto simp: MIDI_Receive_FS_def Let_def MIDI_QueueStatusPacket_FS_def split: option.splits prod.splits bool.splits)

lemma usb_inv_data_out:
  assumes "usb_inv u" "configured u"
  shows "usb_inv (USBD_MIDI_DataOut sz u) \<and> emw_buf_type (USBD_MIDI_DataOut sz u) = emw_buf_type u"
proof -
  obtain h where h: "pClassData u = Some h" using assms(2) by (auto simp: configured_def)
  have i: "usb_inv (u\<lparr>pClassData := Some (h\<lparr>RxLength := sz\<rparr>)\<rparr>)" using assms by (auto simp: usb_inv_defs)
  show ?thesis using usb_inv_receive [OF i] i h
    by (simp add: USBD_MIDI_DataOut_def Let_def USBD_LL_PrepareReceive_def)
qed

text \<open>Configuration changes touch nothing but the class data and the ghosts.\<close>

lemma class_init_frame [simp]:
  "configured (USBD_MIDI_Init u)" "null_deref (USBD_MIDI_Init u) = null_deref u" "wire (USBD_MIDI_Init u) = wire u"
  "ring (USBD_MIDI_Init u) = ring u" "emw_buf_type (USBD_MIDI_Init u) = emw_buf_type u"
  "midi_packet (USBD_MIDI_Init u) = midi_packet u" "midi_packet_ready (USBD_MIDI_Init u) = midi_packet_ready u"
  "pending_cmd_lane (USBD_MIDI_Init u) = pending_cmd_lane u" "pending_cmd_ready (USBD_MIDI_Init u) = pending_cmd_ready u"
  "pending_bs_ready (USBD_MIDI_Init u) = pending_bs_ready u" "class_lost (USBD_MIDI_Init u) = class_lost u"
  by (simp_all add: USBD_MIDI_Init_def MIDI_Init_FS_def Let_def emw_defs configured_def)

lemma class_deinit_frame [simp]:
  "wire (USBD_MIDI_DeInit u) = wire u" "null_deref (USBD_MIDI_DeInit u) = null_deref u"
  "ring (USBD_MIDI_DeInit u) = ring u" "emw_buf_type (USBD_MIDI_DeInit u) = emw_buf_type u"
  "midi_packet (USBD_MIDI_DeInit u) = midi_packet u" "midi_packet_ready (USBD_MIDI_DeInit u) = midi_packet_ready u"
  "pending_cmd_lane (USBD_MIDI_DeInit u) = pending_cmd_lane u" "pending_cmd_ready (USBD_MIDI_DeInit u) = pending_cmd_ready u"
  "pending_bs_ready (USBD_MIDI_DeInit u) = pending_bs_ready u"
  "class_lost (USBD_MIDI_DeInit u) = (class_lost u \<or> configured u)"
  by (simp_all add: USBD_MIDI_DeInit_def MIDI_DeInit_FS_def configured_def)

lemma usb_inv_class [simp]:
  "usb_inv u \<Longrightarrow> usb_inv (USBD_MIDI_Init u)" "usb_inv u \<Longrightarrow> usb_inv (USBD_MIDI_DeInit u)"
  by (auto simp: usb_inv_defs)

section \<open>The invariant of the firmware\<close>

definition fw_inv :: "fw \<Rightarrow> bool" where
  "fw_inv f \<longleftrightarrow> usb_inv (fusb f) \<and> samp_wf (fsamp f) \<and> bus_ok (get_bus f) \<and>
     length (name_page (fflash f)) = 1024 \<and> tx_bit_index (fplay f) < 8 \<and>
     (emw_buf_type (fusb f) = EMW_BUFFER_DOUBLE \<longrightarrow> ism_mode f = ISM_MODE_RAW_SAMPLING)"

text \<open>The same without the class data, and the state before the host has configured the device.\<close>

definition fw_wf :: "fw \<Rightarrow> bool" where
  "fw_wf f \<longleftrightarrow> usb_wf (fusb f) \<and> samp_wf (fsamp f) \<and> bus_ok (get_bus f) \<and>
     length (name_page (fflash f)) = 1024 \<and> tx_bit_index (fplay f) < 8 \<and>
     (emw_buf_type (fusb f) = EMW_BUFFER_DOUBLE \<longrightarrow> ism_mode f = ISM_MODE_RAW_SAMPLING)"

definition fw_waiting :: "fw \<Rightarrow> bool" where
  "fw_waiting f \<longleftrightarrow> fw_wf f \<and> \<not> configured (fusb f) \<and> \<not> null_deref (fusb f) \<and> \<not> class_lost (fusb f) \<and>
     \<not> midi_packet_ready (fusb f) \<and> ism_mode f = ISM_MODE_IDLE \<and> emw_buf_type (fusb f) = EMW_BUFFER_PACKET"

lemma fw_inv_wf: "fw_inv f \<longleftrightarrow> fw_wf f \<and> class_ok (fusb f)"
  by (auto simp: fw_inv_def fw_wf_def usb_inv_def)

lemma rx_read_wf: "rx_wf r \<Longrightarrow> rx_wf (snd (MIDI_ReadRxBuffer_FS n r))"
  using rx_read_none [of r n] rx_read_some [of r n] by (cases "length (rx_contents r) < unat n") auto

lemma playback_inv:
  assumes "ISR_Sampler_writing (p, r, ccer) = (p', r', ccer')" "rx_wf r"
  shows "rx_wf r' \<and> tx_bit_index p' < 8"
proof (cases "0 < MIDI_GetRxBufferBytesAvailable_FS r")
  case False
  then show ?thesis using assms by (auto simp: ISR_Sampler_writing_def Let_def split: prod.splits)
next
  case True
  obtain p1 r1 where f: "(if tx_bit_index p = 0
      then (case MIDI_ReadRxBuffer_FS 1 r of (Some bs, r') \<Rightarrow> (p\<lparr>tx_current_byte := bs ! 0\<rparr>, r')
            | (None, r') \<Rightarrow> (p, r')) else (p, r)) = (p1, r1)"
    by (rule prod.exhaust)
  have "rx_wf r1"
    using f assms(2) rx_read_wf [OF assms(2), of 1] by (auto split: if_splits prod.splits option.splits)
  moreover have "r' = r1" "tx_bit_index p' < 8"
    using assms(1) True f by (auto simp: ISR_Sampler_writing_def Let_def not_le split: prod.splits if_splits)
  ultimately show ?thesis by simp
qed

lemma samp_wf_start [simp]: "samp_wf s \<Longrightarrow> samp_wf (sampler_start_reset s)"
  by (simp add: samp_wf_def samp_shape_def sampler_start_reset_def)

lemma samp_wf_stop [simp]: "samp_wf s \<Longrightarrow> samp_wf (sampler_stop_reset s)"
  by (simp add: samp_wf_def samp_shape_def sampler_stop_reset_def)

lemma samp_wf_pin [simp]: "samp_wf (s\<lparr>samplerPort := p, samplerPin := q\<rparr>) = samp_wf s"
  by (simp add: samp_wf_def samp_shape_def)

lemma fw_inv_tim [simp]: "fw_inv (f\<lparr>ftim := tm\<rparr>) = fw_inv f"
  by (simp add: fw_inv_def get_bus_def)

lemma fw_inv_tick: "fw_inv f \<Longrightarrow> fw_inv (EMW_TIM3_Tick_ISR idr f)"
proof -
  assume i: "fw_inv f"
  obtain p r c where w: "ISR_Sampler_writing (fplay f, ring (fusb f), CCER (tims (ftim f) TIM2)) = (p, r, c)"
    by (metis prod_cases3)
  have "rx_wf (ring (fusb f))" using i by (simp add: fw_inv_def usb_inv_ring)
  then show ?thesis
    using playback_inv [OF w] i w isr_refines_lemma [of "fsamp f" idr]
    by (auto simp: EMW_TIM3_Tick_ISR_def fw_inv_def get_bus_def Let_def)
qed

lemma fw_inv_irq: "fw_inv f \<Longrightarrow> fw_inv (irq_step i f)"
proof (cases i)
  case (Irq_Out sz buf)
  assume "fw_inv f"
  then show ?thesis
    using usb_inv_data_out [of "(fusb f)\<lparr>midi_rx_buf := buf\<rparr>" sz] Irq_Out by (auto simp: fw_inv_def get_bus_def configured_def)
next
  case Irq_In
  assume "fw_inv f"
  then show ?thesis
    using Irq_In tx_erase_fields(2) [OF tx_poll_frame(1) [of 1 "fusb f"]] by (auto simp: fw_inv_def get_bus_def)
next
  case (Irq_Tim3 idr)
  assume "fw_inv f"
  then show ?thesis using Irq_Tim3 by (auto simp: Let_def TIM3_IRQHandler_def intro!: fw_inv_tick)
qed (simp_all add: fw_inv_def get_bus_def)

text \<open>Before the device is configured nothing happens but the configuration.\<close>

lemma fw_waiting_irq: "fw_waiting f \<Longrightarrow> fw_waiting (irq_step i f) \<or> fw_inv (irq_step i f)"
proof (cases i)
  case Irq_Configure
  assume "fw_waiting f"
  moreover from this have "pClassData (fusb f) = None" by (simp add: fw_waiting_def configured_def)
  ultimately have "fw_inv (irq_step i f)"
    using Irq_Configure by (simp add: fw_waiting_def fw_wf_def fw_inv_def usb_inv_defs get_bus_def)
  then show ?thesis ..
qed (auto simp: fw_waiting_def fw_wf_def get_bus_def configured_def tx_poll_def TIM3_IRQHandler_def EMW_TIM3_Tick_ISR_def
  USBD_MIDI_DeInit_def Let_def)

lemma fw_inv_irqs: "fw_inv f \<Longrightarrow> fw_inv (fold irq_step is f)"
  by (induction "is" arbitrary: f) (simp_all add: fw_inv_irq)

end
