(* ===== verification/Stm_Handlers.thy ===== *)
theory Stm_Handlers
  imports Stm_Inv
begin

text \<open>
  The main loop of the firmware: every handler answers its command with exactly one response
  lane and keeps the invariant of the firmware; the properties of whole command sequences.
\<close>

section \<open>Effects of a handler\<close>

definition good_lane :: "u8 list \<Rightarrow> bool" where
  "good_lane l \<longleftrightarrow> length l = 18 \<and> (l ! 0 = 0x80 \<or> l ! 0 = 0x81)"

definition circ :: "fw \<Rightarrow> bool" where
  "circ f \<longleftrightarrow> emw_buf_type (fusb f) = EMW_BUFFER_CIRCULAR"

text \<open>\<open>emits n\<close>: the invariant holds afterwards, \<open>n\<close> response lanes were added and the command is still
  there to be consumed; the stream buffer is not left in playback mode.\<close>

definition emits :: "nat \<Rightarrow> fw \<Rightarrow> fw \<Rightarrow> bool" where
  "emits n f f' \<longleftrightarrow> fw_inv f' \<and> has_reset f' = has_reset f \<and>
     midi_packet_ready (fusb f') = midi_packet_ready (fusb f) \<and> (circ f' \<longrightarrow> circ f) \<and>
     (\<exists>ls. responses f' = responses f @ ls \<and> length ls = n \<and> (\<forall>l \<in> set ls. good_lane l))"

lemma emits_refl: "fw_inv f \<Longrightarrow> emits 0 f f"
  by (simp add: emits_def)

lemma emits_trans: "emits m f f1 \<Longrightarrow> emits n f1 f2 \<Longrightarrow> emits (m + n) f f2"
  unfolding emits_def by (elim conjE exE, intro conjI) (auto intro!: exI [where x = "_ @ _"] simp: ball_Un)

lemma emits_inv: "emits n f f1 \<Longrightarrow> fw_inv f1"
  by (simp add: emits_def)

lemma emits_bus: "emits n f f1 \<Longrightarrow> bus_ok (get_bus f1)" "emits n f f1 \<Longrightarrow> gpio_wf (fgpio f1)"
  by (simp_all add: emits_def fw_inv_def bus_ok_def get_bus_def)

lemma emits_page: "emits n f f1 \<Longrightarrow> length (name_page (fflash f1)) = 1024"
  by (simp add: emits_def fw_inv_def)

text \<open>The updates the handlers make.\<close>

lemma emits_upd:
  "emits n f f1 \<Longrightarrow> emits n f (f1\<lparr>ftim := tm\<rparr>)"
  "emits n f f1 \<Longrightarrow> emits n f (f1\<lparr>fadc := a\<rparr>)"
  "emits n f f1 \<Longrightarrow> emits n f (f1\<lparr>spi_tx := x\<rparr>)"
  "emits n f f1 \<Longrightarrow> emits n f (f1\<lparr>selectedChannel := ch\<rparr>)"
  "emits n f f1 \<Longrightarrow> gpio_wf g \<Longrightarrow> emits n f (f1\<lparr>fgpio := g\<rparr>)"
  "emits n f f1 \<Longrightarrow> samp_wf s \<Longrightarrow> emits n f (f1\<lparr>fsamp := s\<rparr>)"
  "emits n f f1 \<Longrightarrow> length (name_page fl) = 1024 \<Longrightarrow> emits n f (f1\<lparr>fflash := fl\<rparr>)"
  "emits n f f1 \<Longrightarrow> tx_bit_index p < 8 \<Longrightarrow> emits n f (f1\<lparr>fplay := p\<rparr>)"
  "emits n f f1 \<Longrightarrow> emits n f (f1\<lparr>ism_mode := ISM_MODE_RAW_SAMPLING\<rparr>)"
  "emits n f f1 \<Longrightarrow> bus_ok b \<Longrightarrow> emits n f (set_bus b f1)"
  by (auto simp: emits_def fw_inv_def get_bus_def bus_ok_def set_bus_def circ_def)

lemma emits_rate: "emits n f f1 \<Longrightarrow> emits n f (set_baud x f1)" "emits n f f1 \<Longrightarrow> emits n f (set_hz x f1)"
  by (simp_all add: emits_def fw_inv_def set_baud_def set_hz_def get_bus_def circ_def)

section \<open>Responses\<close>

lemma response_lane_good: "status = 0x80 \<or> status = 0x81 \<Longrightarrow> good_lane (response_lane status p)"
  by (auto simp: good_lane_def response_lane_def blit_def)

lemma emits_one: "fw_inv f' \<Longrightarrow> has_reset f' = has_reset f \<Longrightarrow>
    midi_packet_ready (fusb f') = midi_packet_ready (fusb f) \<Longrightarrow> emw_buf_type (fusb f') = emw_buf_type (fusb f) \<Longrightarrow>
    responses f' = responses f @ [l] \<Longrightarrow> good_lane l \<Longrightarrow> emits (Suc 0) f f'"
  by (auto simp: emits_def circ_def)

lemma post_send_status:
  assumes "emits n f f1" "status = 0x80 \<or> status = 0x81"
  shows "post (\<lambda>(f', t'). emits (Suc n) f f') (command_send_status status p f1 t)"
proof -
  have i: "fw_inv f1" by (rule emits_inv [OF assms(1)])
  then have u: "usb_inv (fusb f1)" by (simp add: fw_inv_def)
  note g = response_lane_good [OF assms(2), of p]
  have l: "length (response_lane status p) = 18" using g by (simp add: good_lane_def)
  have "post (\<lambda>(f', t'). emits (Suc 0) f1 f') (command_send_status status p f1 t)"
    unfolding command_send_status_def Let_def
  proof (intro post_rules post_mono [OF post_send], goal_cases)
    case 1
    show ?case using i l by (auto intro!: emits_one [OF _ _ _ _ _ g] simp: fw_inv_def get_bus_def)
  next
    case 2
    show ?case using u by simp
  next
    case (3 r)
    then obtain x a b where r: "r = (x, a, b)" "usb_inv a" "tx_erase a = tx_erase (fusb f1)"
      by (cases r) auto
    show ?case
      using i r tx_erase_fields(2,4) [OF r(3)]
      by (auto intro!: emits_one [OF _ _ _ _ _ g] simp: fw_inv_def get_bus_def)
  qed
  then show ?thesis by (rule post_mono) (use emits_trans [OF assms(1), of "Suc 0"] in auto)
qed


lemma post_send_ok: "emits n f f1 \<Longrightarrow> post (\<lambda>(f', t'). emits (Suc n) f f') (command_send_ok p f1 t)"
  unfolding command_send_ok_def by (rule post_send_status) (simp_all add: EMW_RESP_STATUS_OK_def)

lemma post_send_err: "emits n f f1 \<Longrightarrow> post (\<lambda>(f', t'). emits (Suc n) f f') (command_send_err f1 t)"
  unfolding command_send_err_def by (rule post_send_status) (simp_all add: EMW_RESP_STATUS_ERR_def)

section \<open>Every handler answers once\<close>

named_theorems handler_post \<open>postconditions of the handlers\<close>

lemma post_version [handler_post]: "fw_inv f \<Longrightarrow> post (\<lambda>(f', t'). emits (Suc 0) f f') (handle_version f t)"
  unfolding handle_version_def by (intro post_send_ok emits_refl)

lemma post_uid [handler_post]: "fw_inv f \<Longrightarrow> post (\<lambda>(f', t'). emits (Suc 0) f f') (handle_uid f t)"
  unfolding handle_uid_def by (auto split: prod.splits intro!: post_send_ok emits_refl)

lemma post_board [handler_post]: "fw_inv f \<Longrightarrow> post (\<lambda>(f', t'). emits (Suc 0) f f') (handle_board f t)"
  unfolding handle_board_def by (intro post_send_ok emits_refl)

lemma post_name_get [handler_post]: "fw_inv f \<Longrightarrow> post (\<lambda>(f', t'). emits (Suc 0) f f') (handle_name_get f t)"
  unfolding handle_name_get_def by (intro post_send_ok emits_refl)

lemma post_gpio [handler_post]: "fw_inv f \<Longrightarrow> post (\<lambda>(f', t'). emits (Suc 0) f f') (handle_gpio lane f t)"
  unfolding handle_gpio_def handle_gpio_sub_def Let_def
  by (auto intro!: post_rules post_send_ok post_send_err emits_upd emits_refl gpio_wf_ops
      simp: emits_bus [OF emits_refl] split: prod.splits)

lemmas post_rd_bytes = post_True [where m = "rd_bytes n t" for n t]

lemma post_spi_xfer: "emits n f f1 \<Longrightarrow> post (\<lambda>(ok, rx, f', t'). emits n f f') (HAL_SPI_TransmitReceive tx f1 t)"
  unfolding HAL_SPI_TransmitReceive_def Let_def
  by (auto intro!: post_rules post_rd_bytes emits_upd)

lemma post_spi [handler_post]: "fw_inv f \<Longrightarrow> post (\<lambda>(f', t'). emits (Suc 0) f f') (handle_spi lane f t)"
proof -
  assume i: "fw_inv f"
  have x: "post (\<lambda>(f', t'). emits (Suc 0) f f') (do {
       (ok, rx, f, t) \<leftarrow> HAL_SPI_TransmitReceive tx (f\<lparr>fgpio := spi_select p m (fgpio f)\<rparr>) t;
       let f = f\<lparr>fgpio := HAL_GPIO_WritePin p m True (fgpio f)\<rparr>;
       if \<not> ok then command_send_err f t else command_send_ok (pl rx) f t })" for tx p m pl
    using i unfolding Let_def
    by (intro post_bind post_mono [OF post_spi_xfer [of 0 f]])
      (auto intro!: post_if post_send_ok post_send_err emits_upd emits_refl simp: emits_bus [OF emits_refl] emits_bus)
  show ?thesis
    unfolding handle_spi_def
    by (intro post_option post_prod post_let post_if post_send_ok post_send_err emits_refl i)
      (use x in \<open>simp_all add: Let_def\<close>)
qed

lemma emits_start: "fw_inv f \<Longrightarrow> emits 0 f (start_sampling port pm tick f)"
  by (auto simp: start_sampling_def Let_def emits_def fw_inv_def get_bus_def bus_ok_def MIDI_SetBufferType_FS_def circ_def)

lemma emits_stop: "fw_inv f \<Longrightarrow> emits 0 f (stop_sampling f)"
  by (auto simp: stop_sampling_def emits_def fw_inv_def get_bus_def MIDI_SetBufferType_FS_def circ_def)

lemma post_sample [handler_post]: "fw_inv f \<Longrightarrow> post (\<lambda>(f', t'). emits (Suc 0) f f') (handle_sample lane f t)"
  unfolding handle_sample_def
  by (intro post_if post_option post_prod post_send_ok post_send_err emits_start emits_stop emits_refl)

lemma post_adc [handler_post]: "fw_inv f \<Longrightarrow> post (\<lambda>(f', t'). emits (Suc 0) f f') (handle_adc lane f t)"
proof -
  assume i: "fw_inv f"
  have sel: "emits 0 f (snd (adc_select src pin f))" for src pin
    using i by (auto simp: adc_select_def intro!: emits_upd emits_refl gpio_wf_ops emits_bus [OF emits_refl] split: option.splits prod.splits)
  have loop: "post (\<lambda>r. True) (adc_sample_loop n c x a t)" for n c x a t by (simp add: post_def)
  show ?thesis
    unfolding handle_adc_def
  proof (intro post_let post_prod post_option post_send_err, goal_cases)
    case prems: (1 samples p chsel f1)
    then show ?case using sel [of "lane ! 1" "lane ! 2"] by (metis snd_conv)
  next
    case prems: (2 samples p chsel f1 bit)
    then have "emits 0 f f1" using sel [of "lane ! 1" "lane ! 2"] by (metis snd_conv)
    then show ?case
      by (intro post_bind post_mono [OF loop]) (auto intro!: post_let post_option post_send_ok post_send_err emits_upd)
  qed
qed

lemma emits_claim:
  assumes "emits n f f1" "uart_claim f1 = (ok, f2)"
  shows "ok \<and> emits n f f2"
proof -
  obtain b where e: "uart1_ensure (hclk (ftim f1)) (uart1_baud (fser f1)) (get_bus f1) = (ok, b)" "f2 = set_bus b f1"
    using assms(2) by (auto simp: uart_claim_def split: prod.splits)
  show ?thesis
    using bus_ok_uart_ensure [OF emits_bus(1) [OF assms(1)], of "hclk (ftim f1)" "uart1_baud (fser f1)"] e emits_upd(10) [OF assms(1)]
    by simp
qed

lemma post_uart_rest:
  "emits 0 f f1 \<Longrightarrow> post (\<lambda>(f', t'). emits (Suc 0) f f') (do {
      (ok, written, b, t) \<leftarrow> uart1_write hck d ms (get_bus f1) t;
      let f = set_bus b f1;
      if \<not> ok then command_send_err f t else command_send_ok [of_nat written] f t })"
  "emits 0 f f1 \<Longrightarrow> post (\<lambda>(f', t'). emits (Suc 0) f f') (do {
      (ok, rx_buf, b, t) \<leftarrow> uart1_read hck n ms (get_bus f1) t;
      let f = set_bus b f1;
      if \<not> ok then command_send_err f t
      else let got = min (length rx_buf) 16 in command_send_ok (of_nat got # take got rx_buf) f t })"
  unfolding Let_def
  by (intro post_bind post_mono [OF bus_post_uart_write [OF emits_bus(1)]];
      auto intro!: post_if post_send_ok post_send_err emits_upd)
    (intro post_bind post_mono [OF bus_post_uart_read [OF emits_bus(1)]];
      auto intro!: post_if post_send_ok post_send_err emits_upd)

lemma post_uart_write [handler_post]: "fw_inv f \<Longrightarrow> post (\<lambda>(f', t'). emits (Suc 0) f f') (handle_uart_write lane f t)"
proof -
  assume i: "fw_inv f"
  define f1 where "f1 = (if emw_u32_le (drop 2 lane) \<noteq> 0 then set_baud (emw_u32_le (drop 2 lane)) f else f)"
  have "emits 0 f f1" using i by (auto simp: f1_def intro!: emits_rate emits_refl)
  then obtain f2 where c: "uart_claim f1 = (True, f2)" and e: "emits 0 f f2"
    using emits_claim [of 0 f f1] by (cases "uart_claim f1") auto
  show ?thesis
    unfolding handle_uart_write_def f1_def [symmetric]
    using c by (simp only: Let_def f1_def [symmetric] prod.case not_True_eq_False if_False)
      (intro post_if post_send_ok e post_uart_rest(1) [unfolded Let_def])
qed

lemma post_uart_read [handler_post]: "fw_inv f \<Longrightarrow> post (\<lambda>(f', t'). emits (Suc 0) f f') (handle_uart_read lane f t)"
proof -
  assume i: "fw_inv f"
  define f1 where "f1 = (if emw_u32_le (drop 2 lane) \<noteq> 0 then set_baud (emw_u32_le (drop 2 lane)) f else f)"
  have "emits 0 f f1" using i by (auto simp: f1_def intro!: emits_rate emits_refl)
  then obtain f2 where c: "uart_claim f1 = (True, f2)" and e: "emits 0 f f2"
    using emits_claim [of 0 f f1] by (cases "uart_claim f1") auto
  show ?thesis
    unfolding handle_uart_read_def
    using c by (simp only: Let_def f1_def [symmetric] prod.case not_True_eq_False if_False)
      (intro post_if post_send_ok e post_uart_rest(2) [unfolded Let_def])
qed

lemma post_uart [handler_post]: "fw_inv f \<Longrightarrow> post (\<lambda>(f', t'). emits (Suc 0) f f') (handle_uart lane f t)"
proof -
  assume i: "fw_inv f"
  have c: "emits 0 f f2 \<and> ok" if "uart_claim (set_baud x f) = (ok, f2)" for x ok f2
    using emits_claim [OF emits_rate(1) [OF emits_refl [OF i]] that] by simp
  have o: "post (\<lambda>(f', t'). emits (Suc 0) f f') (let (ok, f) = uart_claim (set_baud x f) in
      if \<not> ok then command_send_err f t else command_send_ok [] f t)" for x
    using c by (cases "uart_claim (set_baud x f)") (auto intro!: post_send_ok)
  have d: "post (\<lambda>(f', t'). emits (Suc 0) f f') (do {
      (b, t) \<leftarrow> uart1_deinit (get_bus f) t; command_send_ok [] (set_bus b f) t })"
    by (intro post_bind post_mono [OF post_uart_deinit [OF emits_bus(1) [OF emits_refl [OF i]]]])
      (auto intro!: post_send_ok emits_upd emits_refl i)
  show ?thesis
    unfolding handle_uart_def
    using o [unfolded Let_def] d by (simp only: Let_def)
      (auto intro!: post_uart_write post_uart_read post_send_err emits_refl i)
qed

lemma post_i2c_xfer [handler_post]:
  assumes "emits 0 f f1"
  shows "post (\<lambda>(f', t'). emits (Suc 0) f f') (handle_i2c_xfer lane tmo f1 t)"
proof -
  have w: "post (\<lambda>(f', t'). emits (Suc 0) f f') (do {
      (ok, b, t) \<leftarrow> i2c1_write_then_maybe_stop addr d True ms (get_bus f1) t;
      let f = set_bus b f1;
      if \<not> ok then command_send_err f t else command_send_ok [] f t })" for addr d ms
    unfolding Let_def by (intro post_bind post_mono [OF post_i2c_write [OF emits_bus(1) [OF assms]]])
      (auto intro!: post_if post_send_ok post_send_err emits_upd assms)
  have r: "post (\<lambda>(f', t'). emits (Suc 0) f f') (do {
      (ok, out, b, t) \<leftarrow> i2c1_read_with_stop addr n ms (get_bus f1) t;
      let f = set_bus b f1;
      if \<not> ok then command_send_err f t else command_send_ok (g out) f t })" for addr n ms g
    unfolding Let_def by (intro post_bind post_mono [OF post_i2c_read [OF emits_bus(1) [OF assms]]])
      (auto intro!: post_if post_send_ok post_send_err emits_upd assms)
  have x: "post (\<lambda>(f', t'). emits (Suc 0) f f') (do {
      (ok, out, b, t) \<leftarrow> i2c1_xfer addr d n ms (get_bus f1) t;
      let f = set_bus b f1;
      if \<not> ok then command_send_err f t else command_send_ok (g out) f t })" for addr d n ms g
    unfolding Let_def by (intro post_bind post_mono [OF bus_post_i2c_xfer [OF emits_bus(1) [OF assms]]])
      (auto intro!: post_if post_send_ok post_send_err emits_upd assms)
  show ?thesis
    unfolding handle_i2c_xfer_def Let_def
    by (intro post_if post_send_ok post_send_err assms w [unfolded Let_def] r [unfolded Let_def] x [unfolded Let_def])
qed

lemma post_i2c [handler_post]: "fw_inv f \<Longrightarrow> post (\<lambda>(f', t'). emits (Suc 0) f f') (handle_i2c lane f t)"
proof -
  assume i: "fw_inv f"
  have o: "post (\<lambda>(f', t'). emits (Suc 0) f f') (do {
      (ok, b, t) \<leftarrow> i2c1_ensure (i2c1_hz (fser f1)) (get_bus f1) t;
      let f = set_bus b f1;
      if \<not> ok then command_send_err f t else command_send_ok [] f t })" if "emits 0 f f1" for f1
    unfolding Let_def by (intro post_bind post_mono [OF post_i2c_ensure [OF emits_bus(1) [OF that]]])
      (auto intro!: post_if post_send_ok post_send_err emits_upd that)
  have x: "post (\<lambda>(f', t'). emits (Suc 0) f f') (do {
      (ok, b, t) \<leftarrow> i2c1_ensure (i2c1_hz (fser f1)) (get_bus f1) t;
      let f = set_bus b f1;
      if \<not> ok then command_send_err f t else handle_i2c_xfer lane tmo f t })" if "emits 0 f f1" for f1 tmo
    unfolding Let_def by (intro post_bind post_mono [OF post_i2c_ensure [OF emits_bus(1) [OF that]]])
      (auto intro!: post_if post_i2c_xfer post_send_err emits_upd that)
  have h: "emits 0 f (if c then set_hz y f else f)" for c y using i by (auto intro: emits_rate emits_refl)
  then have h2: "emits 0 f (if c' then set_hz y' (if c then set_hz y f else f) else (if c then set_hz y f else f))" for c c' y y'
    by (cases c'; cases c) (auto intro: emits_rate emits_refl i)
  show ?thesis
    unfolding handle_i2c_def Let_def
    by (intro post_if post_send_ok emits_upd bus_ok_i2c_deinit emits_bus(1) [OF h] h
        o [unfolded Let_def] x [unfolded Let_def] h2)
qed

lemma emits_pwm: "emits 0 f f1 \<Longrightarrow> emits 0 f (pwm_static port pm r v f1)"
  unfolding pwm_static_def using emits_upd(5) [OF emits_upd(1), of 0 f f1 "gpio_drive port pm v (fgpio f1)"] emits_bus(2)
  by fastforce

lemma pwm_pin_af: "pwm_pin e = Some (port, pm, r) \<Longrightarrow> rt_af r < 16"
  by (auto simp: pwm_pin_def pwm_route_from_pin_def bind_eq_Some_conv split: if_splits)

lemma emits_pwm_duty: "emits 0 f f1 \<Longrightarrow> rt_af r < 16 \<Longrightarrow> emits 0 f (pwm_set_duty port pm r v f1)"
  unfolding pwm_set_duty_def Let_def by (intro emits_upd gpio_wf_ops emits_bus(2)) auto

lemma post_pwm_write [handler_post]: "fw_inv f \<Longrightarrow> post (\<lambda>(f', t'). emits (Suc 0) f f') (handle_pwm_write lane f t)"
  unfolding handle_pwm_write_def
  by (intro post_let post_prod post_option post_if post_send_ok post_send_err emits_pwm emits_pwm_duty emits_upd emits_refl)
    (auto intro!: emits_pwm emits_pwm_duty emits_upd emits_refl dest: pwm_pin_af)

lemma post_pwm [handler_post]: "fw_inv f \<Longrightarrow> post (\<lambda>(f', t'). emits (Suc 0) f f') (handle_pwm lane f t)"
  unfolding handle_pwm_def
  by (intro post_let post_prod post_option post_if post_send_ok post_send_err post_pwm_write)
    (auto intro!: emits_pwm emits_upd emits_refl)

text \<open>The name command answers twice when a flash write fails.\<close>

lemma erase_page: "post (\<lambda>(ok, fl', t'). length (name_page fl') = 1024) (HAL_FLASHEx_Erase fl t)"
  if "length (name_page fl) = 1024"
  unfolding HAL_FLASHEx_Erase_def by (intro post_rules) (auto simp: that)

lemma program_page: "post (\<lambda>(ok, fl', t'). length (name_page fl') = 1024) (HAL_FLASH_Program i d fl t)"
  if "length (name_page fl) = 1024" "i \<le> 16"
  unfolding HAL_FLASH_Program_def using that by (intro post_rules) auto

lemma program_loop_page:
  "length (name_page fl) = 1024 \<Longrightarrow> len \<le> 16 \<Longrightarrow>
   post (\<lambda>(ok, fl', t'). length (name_page fl') = 1024) (name_program_loop lane len i fl t)"
proof (induction lane len i fl t rule: name_program_loop.induct)
  case (1 lane len i fl t)
  show ?case
  proof (subst name_program_loop.simps, intro post_if post_bind)
    assume "\<not> \<not> i < len"
    then show "post (\<lambda>r. post (\<lambda>(ok, fl', t'). length (name_page fl') = 1024) (case r of (ok, fl, t) \<Rightarrow>
        if \<not> ok then Some (False, fl, t) else name_program_loop lane len (i + 2) fl t))
        (HAL_FLASH_Program i (name_half lane len i) fl t)"
      unfolding post_def [of _ "HAL_FLASH_Program i (name_half lane len i) fl t"]
    proof (intro allI impI)
      fix r
      assume i: "\<not> \<not> i < len" and r: "HAL_FLASH_Program i (name_half lane len i) fl t = Some r"
      obtain ok fl1 t1 where rp: "r = (ok, fl1, t1)" by (cases r)
      have l: "length (name_page fl1) = 1024" using postD [OF program_page r] "1.prems" i rp by auto
      then show "post (\<lambda>(ok, fl', t'). length (name_page fl') = 1024) (case r of (ok, fl, t) \<Rightarrow>
          if \<not> ok then Some (False, fl, t) else name_program_loop lane len (i + 2) fl t)"
        using "1.IH" [OF i r [unfolded rp] refl refl] "1.prems" rp by auto
    qed
  qed (use "1.prems" in simp)
qed

lemma emits_lock [simp]: "emits n f (f1\<lparr>fflash := (fflash f1)\<lparr>flash_unlocked := b\<rparr>\<rparr>) = emits n f f1"
  by (simp add: emits_def fw_inv_def get_bus_def circ_def)

lemma post_name_tail:
  assumes "emits n f f1"
  shows "post (\<lambda>(f', t'). emits (Suc n) f f') (do {
      (f, t) \<leftarrow> (if name_len x mod 2 = 0
        then do { (ok, fl, t) \<leftarrow> HAL_FLASH_Program (name_len x) 0 (fflash f1) t; Some (f1\<lparr>fflash := fl\<rparr>, t) }
        else Some (f1, t));
      command_send_ok [] f t })"
  by (intro post_if post_bind post_mono [OF program_page [OF emits_page [OF assms] name_len_le]])
    (auto intro!: post_send_ok emits_upd assms)

lemma post_name_program:
  assumes "emits 0 f f1"
  shows "post (\<lambda>(f', t'). emits 1 f f' \<or> emits 2 f f') (do {
         (ok, fl, t) \<leftarrow> name_program_loop lane (name_len x) 0 (fflash f1) t;
         let f = f1\<lparr>fflash := fl\<rparr>;
         (f, t) \<leftarrow> (if \<not> ok then command_send_err f t else Some (f, t));
         (f, t) \<leftarrow> (if name_len x mod 2 = 0
           then do { (ok, fl, t) \<leftarrow> HAL_FLASH_Program (name_len x) 0 (fflash f) t; Some (f\<lparr>fflash := fl\<rparr>, t) }
           else Some (f, t));
         command_send_ok [] f t })"
proof (intro post_bind post_mono [OF program_loop_page [OF emits_page [OF assms] name_len_le]], goal_cases)
  case (1 r)
  then obtain ok fl t1 where r: "r = (ok, fl, t1)" "length (name_page fl) = 1024" by (cases r) auto
  have e: "emits 0 f (f1\<lparr>fflash := fl\<rparr>)" by (intro emits_upd assms r(2))
  show ?case
  proof (cases ok)
    case True
    then have n: "\<not> \<not> ok" by simp
    show ?thesis
      unfolding r(1) prod.case Let_def if_not_P [OF n] Option.bind_lunit
      by (rule post_mono [OF post_name_tail [OF e]]) auto
  next
    case False
    have s: "post (\<lambda>(f', t'). emits (Suc 0) f f') (command_send_err (f1\<lparr>fflash := fl\<rparr>) t1)" by (rule post_send_err [OF e])
    show ?thesis
      unfolding r(1) prod.case Let_def if_P [OF False]
    proof (rule post_bind, rule post_mono [OF s], goal_cases)
      case (1 q)
      then obtain f2 t2 where q: "q = (f2, t2)" "emits (Suc 0) f f2" by (cases q) auto
      show ?case
        unfolding q(1) prod.case
        by (rule post_mono [OF post_name_tail [OF q(2)]]) (auto simp: numeral_2_eq_2)
    qed
  qed
qed

lemma post_name_set:
  assumes i: "fw_inv f"
  shows "post (\<lambda>(f', t'). emits 1 f f' \<or> emits 2 f f') (handle_name_set lane f t)"
proof -
  let ?f = "f\<lparr>fflash := (fflash f)\<lparr>flash_unlocked := True\<rparr>\<rparr>"
  have f: "emits 0 f ?f" using i by (simp add: emits_refl)
  show ?thesis
    unfolding handle_name_set_def
  proof (intro post_let post_bind post_mono [OF erase_page], goal_cases)
    case 1
    then show ?case using emits_page [OF f] by simp
  next
    case (2 len f1 r)
    then obtain ok fl t1 where r: "r = (ok, fl, t1)" "length (name_page fl) = 1024" by (cases r) auto
    have e: "emits 0 f (f1\<lparr>fflash := fl\<rparr>)" using 2 f by (auto intro!: emits_upd r(2))
    show ?case
      unfolding r(1) prod.case \<open>len = _\<close>
    proof (intro post_let, rule post_bind, intro post_if, goal_cases)
      case (1 f2)
      then show ?case by (auto intro: post_mono [OF post_send_err [OF e]])
    next
      case (2 f2)
      show ?case
        unfolding \<open>f2 = _\<close>
        by (rule post_mono [OF post_name_program [OF e]]) auto
    qed
  qed
qed

end
