(* ===== verification/Stm_Loop.thy ===== *)
theory Stm_Loop
  imports Stm_Handlers
begin

text \<open>
  The main loop of the firmware: retransmission, dispatch and one iteration of the loop on top of
  the handler lemmas, and the properties of whole command sequences.
\<close>

section \<open>Interrupts during a handler\<close>

lemma receive_ready:
  "midi_packet_ready u \<Longrightarrow> midi_packet_ready (MIDI_Receive_FS buf sz u) \<and> midi_packet (MIDI_Receive_FS buf sz u) = midi_packet u"
  by (auto simp: MIDI_Receive_FS_def Let_def MIDI_QueueStatusPacket_FS_def rx_dispatch_def split: option.splits prod.splits bool.splits)

lemma data_out_ready: "midi_packet_ready u \<Longrightarrow> midi_packet_ready (USBD_MIDI_DataOut sz u) \<and> midi_packet (USBD_MIDI_DataOut sz u) = midi_packet u"
  using receive_ready by (auto simp: USBD_MIDI_DataOut_def Let_def USBD_LL_PrepareReceive_def split: option.splits)

lemma tick_frame [simp]:
  "has_reset (EMW_TIM3_Tick_ISR idr f) = has_reset f" "responses (EMW_TIM3_Tick_ISR idr f) = responses f"
  "midi_packet_ready (fusb (EMW_TIM3_Tick_ISR idr f)) = midi_packet_ready (fusb f)"
  "midi_packet (fusb (EMW_TIM3_Tick_ISR idr f)) = midi_packet (fusb f)"
  "emw_buf_type (fusb (EMW_TIM3_Tick_ISR idr f)) = emw_buf_type (fusb f)"
  by (simp_all add: EMW_TIM3_Tick_ISR_def split: prod.splits)

lemma irq_frame [simp]:
  "has_reset (irq_step i f) = has_reset f" "responses (irq_step i f) = responses f"
  by (cases i; simp add: TIM3_IRQHandler_def Let_def)+

lemma emits_irq:
  assumes "emits n f f1" "midi_packet_ready (fusb f)"
  shows "emits n f (irq_step i f1)"
proof -
  have r: "midi_packet_ready (fusb f1)" "fw_inv f1" using assms by (simp_all add: emits_def)
  have u: "usb_inv (fusb f1)" using r(2) by (simp add: fw_inv_def)
  have "midi_packet_ready (fusb (irq_step i f1)) \<and> emw_buf_type (fusb (irq_step i f1)) = emw_buf_type (fusb f1)"
  proof (cases i)
    case (Irq_Out sz buf)
    then show ?thesis
      using data_out_ready [of "(fusb f1)\<lparr>midi_rx_buf := buf\<rparr>" sz] usb_inv_data_out [of "(fusb f1)\<lparr>midi_rx_buf := buf\<rparr>" sz] r u
      by (simp add: configured_def)
  next
    case Irq_In
    then show ?thesis using r tx_erase_fields [OF tx_poll_frame(1) [of 1 "fusb f1"]] by simp
  next
    case (Irq_Tim3 idr)
    then show ?thesis using r by (simp add: TIM3_IRQHandler_def Let_def)
  qed (use r in simp_all)
  then show ?thesis
    using assms fw_inv_irq [OF r(2), of i] by (auto simp: emits_def circ_def)
qed

section \<open>Retransmission\<close>

lemma emits_poll:
  assumes "emits n f f1"
  shows "post (\<lambda>(u, t'). emits n f (f1\<lparr>fusb := u\<rparr>)) (MIDI_PollTx_FS (fusb f1) t)"
proof -
  have i: "fw_inv f1" using assms by (rule emits_inv)
  then have "usb_inv (fusb f1)" by (simp add: fw_inv_def)
  from post_poll_tx [OF this] show ?thesis
    by (rule post_mono) (use assms i in \<open>auto simp: emits_def fw_inv_def get_bus_def circ_def\<close>)
qed

text \<open>Both loops keep whatever the interrupts and the polled sender keep.\<close>

lemma tx_loops_inv:
  assumes "\<And>i f. P f \<Longrightarrow> P (irq_step i f)" "\<And>f t. P f \<Longrightarrow> post (\<lambda>(u, t'). P (f\<lparr>fusb := u\<rparr>)) (MIDI_PollTx_FS (fusb f) t)"
  shows "P f \<Longrightarrow> post (\<lambda>(sch', f', t'). P f') (tx_fill_loop sch start f t)"
    "P f \<Longrightarrow> post (\<lambda>(sch', f', t'). P f') (tx_drain_loop sch f t)"
proof -
  have fold: "P f \<Longrightarrow> P (fold irq_step is f)" for "is" f
    by (induction "is" arbitrary: f) (simp_all add: assms(1))
  show "P f \<Longrightarrow> post (\<lambda>(sch', f', t'). P f') (tx_fill_loop sch start f t)"
  proof (induction sch arbitrary: f t)
    case (Cons "is" sch)
    note e = fold [OF Cons.prems]
    show ?case
      unfolding tx_fill_loop.simps Let_def
      by (intro post_if post_bind; (rule post_mono [OF assms(2) [OF e]])?) (use e Cons.IH in \<open>auto intro!: post_bind post_rd post_if\<close>)
  qed simp
  show "P f \<Longrightarrow> post (\<lambda>(sch', f', t'). P f') (tx_drain_loop sch f t)"
  proof (induction sch arbitrary: f t)
    case (Cons "is" sch)
    note e = fold [OF Cons.prems]
    show ?case
      unfolding tx_drain_loop.simps Let_def
      by (intro post_if post_bind; (rule post_mono [OF assms(2) [OF e]])?) (use e Cons.IH in auto)
  qed simp
qed

lemma post_fill:
  assumes "midi_packet_ready (fusb f)"
  shows "emits n f f1 \<Longrightarrow> post (\<lambda>(sch', f', t'). emits n f f') (tx_fill_loop sch start f1 t)"
    "emits n f f1 \<Longrightarrow> post (\<lambda>(sch', f', t'). emits n f f') (tx_drain_loop sch f1 t)"
  by (rule tx_loops_inv [where P = "emits n f"]; auto intro: emits_irq emits_poll assms)+

text \<open>The stream buffer is in playback mode from the end of the setup to the end of the command.\<close>

definition in_circ :: "fw \<Rightarrow> fw" where
  "in_circ f = f\<lparr>fusb := (fusb f)\<lparr>emw_buf_type := EMW_BUFFER_CIRCULAR\<rparr>\<rparr>"

lemma in_circ_ready [simp]: "midi_packet_ready (fusb (in_circ f)) = midi_packet_ready (fusb f)"
  by (simp add: in_circ_def)

lemma emits_enter: "emits n f f1 \<Longrightarrow> emits n (in_circ f) (f1\<lparr>fusb := MIDI_SetBufferType_FS EMW_BUFFER_CIRCULAR (fusb f1)\<rparr>)"
  by (auto simp: emits_def in_circ_def circ_def fw_inv_def get_bus_def MIDI_SetBufferType_FS_def)

lemma emits_ring: "emits n f f1 \<Longrightarrow> rx_wf r \<Longrightarrow> emits n f (f1\<lparr>fusb := (fusb f1)\<lparr>ring := r\<rparr>\<rparr>)"
  by (auto simp: emits_def circ_def fw_inv_def get_bus_def)

lemma emits_setup: "fw_inv f \<Longrightarrow> emits 0 (in_circ f) (transmit_setup lane pin f)"
  by (simp add: transmit_setup_def Let_def emits_def fw_inv_def get_bus_def bus_ok_def in_circ_def circ_def
      MIDI_SetBufferType_FS_def split: prod.split)

lemma emits_leave: "emits n (in_circ f) f1 \<Longrightarrow> emits n f (transmit_finish pin f1)"
proof -
  assume e: "emits n (in_circ f) f1"
  then have "rx_wf (ring (fusb f1))" by (simp add: emits_def fw_inv_def usb_inv_ring)
  then show ?thesis
    using e unfolding transmit_finish_def Let_def
    by (auto simp: emits_def in_circ_def circ_def fw_inv_def get_bus_def MIDI_SetBufferType_FS_def)
qed

lemma post_transmit:
  assumes "fw_inv f" "midi_packet_ready (fusb f)"
  shows "post (\<lambda>(sch', f', t'). emits (Suc 0) f f') (handle_transmit sch lane f t)"
  unfolding handle_transmit_def
proof (intro post_let post_if, goal_cases)
  case 1
  then show ?case by (intro post_bind) (auto intro: post_mono [OF post_send_ok [OF emits_refl [OF assms(1)]]])
next
  case 2
  then show ?case by (intro post_bind) (auto intro: post_mono [OF post_send_err [OF emits_refl [OF assms(1)]]])
next
  case (3 sub pin f0)
  then have e: "emits 0 (in_circ f) f0" using emits_setup [OF assms(1)] by simp
  have r: "midi_packet_ready (fusb (in_circ f))" using assms(2) by simp
  have send: "post (\<lambda>(sch :: irq list list, f', t'). emits (Suc 0) f f') (do { (f, t) \<leftarrow> command_send_ok [] (transmit_finish pin f1) t; Some (sch, f, t) })"
    if "emits 0 (in_circ f) f1" for f1 sch t
    by (rule post_bind) (rule post_mono [OF post_send_ok [OF emits_leave [OF that]]], auto)
  have drain: "post (\<lambda>(sch', f', t'). emits (Suc 0) f f') (do {
        (sch, f, t) \<leftarrow> tx_drain_loop sch f1 t;
        (f, t) \<leftarrow> command_send_ok [] (transmit_finish pin f) t;
        Some (sch, f, t) })" if "emits 0 (in_circ f) f1" for f1 sch t
    by (rule post_bind) (rule post_mono [OF post_fill(2) [OF r that]], use send in auto)
  show ?case
    unfolding Let_def
    by (rule post_bind, rule post_rd, unfold prod.case, rule post_bind, rule post_mono [OF post_fill(1) [OF r e]])
      (auto intro!: drain emits_upd)
qed

section \<open>The dispatcher\<close>

text \<open>The effect of a whole command: \<open>k\<close> response lanes and the command consumed.\<close>

definition answered :: "nat \<Rightarrow> fw \<Rightarrow> fw \<Rightarrow> bool" where
  "answered k f f' \<longleftrightarrow> fw_inv f' \<and> \<not> midi_packet_ready (fusb f') \<and> (circ f' \<longrightarrow> circ f) \<and>
     (\<exists>ls. responses f' = responses f @ ls \<and> length ls = k \<and> (\<forall>l \<in> set ls. good_lane l))"

lemma consume_frame [simp]: "fw_inv f \<Longrightarrow> fw_inv (midi_packet_consume f)" "circ (midi_packet_consume f) = circ f"
  "responses (midi_packet_consume f) = responses f" "\<not> midi_packet_ready (fusb (midi_packet_consume f))"
  "has_reset (midi_packet_consume f) = has_reset f" "ism_mode (midi_packet_consume f) = ism_mode f"
  by (simp_all add: midi_packet_consume_def fw_inv_def get_bus_def circ_def)

lemma answered_emits: "emits k f f' \<Longrightarrow> \<not> has_reset f \<Longrightarrow> answered k f (if has_reset f' then f' else midi_packet_consume f')"
  by (auto simp: emits_def answered_def)

lemma post_reset: "fw_inv f \<Longrightarrow> post (\<lambda>(f', t'). has_reset f' \<and> answered (Suc 0) f f') (handle_reset f t)"
  unfolding handle_reset_def
  by (intro post_bind, rule post_mono [OF post_send_ok [OF emits_refl]])
    (auto simp: Let_def answered_def emits_def fw_inv_def get_bus_def midi_packet_consume_def circ_def)

lemma dfu_loop_page: "dfu_erase_loop is fl t = Some (fl', t') \<Longrightarrow> name_page fl' = name_page fl"
proof (induction "is" arbitrary: fl t)
  case (Cons i "is")
  obtain fl1 t1 where "dfu_erase_loop is fl1 t1 = Some (fl', t')" "name_page fl1 = name_page fl"
    using Cons.prems by (auto simp: Let_def bind_eq_Some_conv split: if_splits)
  then show ?case using Cons.IH by simp
qed simp

lemma dfu_page: "post (\<lambda>(fl', t'). name_page fl' = name_page fl) (emw_enter_rom_dfu_by_erasing_flash fl t)"
proof -
  have loop: "post (\<lambda>(fl', t'). name_page fl' = name_page fl1) (dfu_erase_loop ps fl1 t1)" for ps fl1 t1
    by (auto simp: post_def dest: dfu_loop_page)
  have idle: "post (\<lambda>r. True) (flash_idle t1)" for t1 by (simp add: post_def)
  show ?thesis
    unfolding emw_enter_rom_dfu_by_erasing_flash_def
  proof (intro post_let post_bind post_rd, unfold prod.case, intro post_let post_bind post_mono [OF idle] post_mono [OF loop], goal_cases)
    case (1 f1 f2 f3 f4 sr t1 f5 t2 r)
    then have "name_page f5 = name_page fl" by simp
    then show ?case using 1 by (cases r) simp
  qed
qed

lemma post_dfu: "fw_inv f \<Longrightarrow> post (\<lambda>(f', t'). has_reset f' \<and> answered (Suc 0) f f') (handle_enter_dfu f t)"
  unfolding handle_enter_dfu_def Let_def
  by (intro post_bind, rule post_mono [OF post_send_ok [OF emits_refl]])
    (auto intro!: post_bind post_mono [OF dfu_page]
      simp: answered_def emits_def fw_inv_def get_bus_def midi_packet_consume_def circ_def)

definition lane_answers :: "u8 list \<Rightarrow> fw \<Rightarrow> fw \<Rightarrow> bool" where
  "lane_answers lane f f' \<longleftrightarrow> answered 1 f f' \<or> lane ! 0 = 0x05 \<and> answered 2 f f'"

lemma emits_answers: "emits (Suc 0) f f' \<Longrightarrow> \<not> has_reset f \<Longrightarrow>
    lane_answers lane f (if has_reset f' then f' else midi_packet_consume f')"
  using answered_emits [of "Suc 0" f f'] by (simp add: lane_answers_def)

lemma post_answers:
  assumes "post (\<lambda>(f', t'). emits (Suc 0) f f') m" "\<not> has_reset f"
  shows "post (\<lambda>(f', t'). lane_answers lane f (if has_reset f' then f' else midi_packet_consume f')) m"
  by (rule post_mono [OF assms(1)]) (auto intro!: emits_answers assms(2) split del: if_split)

lemma post_answers_reset:
  assumes "post (\<lambda>(f', t'). has_reset f' \<and> answered (Suc 0) f f') m"
  shows "post (\<lambda>(f', t'). lane_answers lane f (if has_reset f' then f' else midi_packet_consume f')) m"
  by (rule post_mono [OF assms(1)]) (auto simp: lane_answers_def)

lemma post_answers_name:
  assumes "fw_inv f" "\<not> has_reset f" "lane ! 0 = 0x05"
  shows "post (\<lambda>(f', t'). lane_answers lane f (if has_reset f' then f' else midi_packet_consume f')) (handle_name_set lane f t)"
  by (rule post_mono [OF post_name_set [OF assms(1)]]) (use answered_emits [OF _ assms(2)] assms(3) in \<open>auto simp: lane_answers_def\<close>)

lemma post_dispatch:
  assumes "fw_inv f" "\<not> has_reset f"
  shows "post (\<lambda>(f', t'). lane_answers lane f (if has_reset f' then f' else midi_packet_consume f')) (dispatch lane f t)"
  unfolding dispatch_def Let_def
  by (intro post_if; (rule post_answers_name [OF assms], assumption)?; (rule post_answers_reset, rule post_reset post_dfu, rule assms)?;
      (rule post_answers [OF _ assms(2)]; intro handler_post post_send_ok post_send_err emits_refl assms)?)

section \<open>One iteration\<close>

text \<open>The drain at the head of an iteration.\<close>

lemma post_main_drain:
  assumes "fw_inv f"
  shows "post (\<lambda>(f', t'). emits 0 f f' \<and> midi_packet (fusb f') = midi_packet (fusb f)) (main_drain f t)"
  unfolding main_drain_def
proof (intro post_if post_bind, goal_cases)
  case 1
  have u: "usb_inv (fusb f)" using assms by (simp add: fw_inv_def)
  have s: "samp_wf (drain_commit (fsamp f))"
    using drain_commit_spec [of "fsamp f"] 1 assms by (simp add: fw_inv_def word_less_nat_alt)
  show ?case
    by (rule post_mono [OF post_superframe [OF u]])
      (use assms s in \<open>auto simp: Let_def emits_def fw_inv_def get_bus_def circ_def\<close>)
qed (use assms in \<open>simp add: emits_refl\<close>)

lemma post_main_iter:
  assumes "fw_inv f" "\<not> has_reset f"
  shows "post (\<lambda>(sch', f', t'). if midi_packet_ready (fusb f) then lane_answers (midi_packet (fusb f)) f f' else emits 0 f f')
    (main_iter sch f t)"
  unfolding main_iter_def
proof (rule post_bind, rule post_mono [OF post_main_drain [OF assms(1)]], goal_cases)
  case (1 r)
  then obtain f1 t1 where r: "r = (f1, t1)" and e: "emits 0 f f1" and l: "midi_packet (fusb f1) = midi_packet (fusb f)"
    by (cases r) auto
  have i: "fw_inv f1" "\<not> has_reset f1" and rdy: "midi_packet_ready (fusb f1) = midi_packet_ready (fusb f)"
    and rs: "responses f1 = responses f" and c: "circ f1 \<longrightarrow> circ f"
    using e assms(2) by (auto simp: emits_def)
  have up: "lane_answers lane f f'" if "lane_answers lane f1 f'" for lane f'
    using that c rs by (auto simp: lane_answers_def answered_def)
  have tx: "post (\<lambda>(sch', f', t'). lane_answers lane f (if has_reset f' then f' else midi_packet_consume f'))
      (handle_transmit sch lane f1 t1)" if "midi_packet_ready (fusb f1)" for lane
    by (rule post_mono [OF post_transmit [OF i(1) that]])
      (auto intro!: up emits_answers i(2) split del: if_split)
  have dp: "post (\<lambda>(f', t'). lane_answers lane f (if has_reset f' then f' else midi_packet_consume f')) (dispatch lane f1 t1)" for lane
    by (rule post_mono [OF post_dispatch [OF i]]) (auto intro!: up split del: if_split)
  show ?case
    unfolding r prod.case
  proof (intro post_if post_let post_bind, goal_cases)
    case 1
    then show ?case using rdy e by simp
  next
    case (2 lane)
    then show ?case using rdy l by (auto intro!: post_mono [OF tx])
  next
    case (3 lane)
    then show ?case using rdy l by (auto intro!: post_mono [OF dp])
  qed
qed

end
