(* ===== verification/Stm_Run.thy ===== *)
theory Stm_Run
  imports Stm_Loop
begin

text \<open>
  Runs of the firmware: the state after initialisation, in which the host has not configured the
  device yet, arbitrary interleavings of interrupts (configuration changes included) with iterations
  of the main loop, and the properties of the command interpreter as a whole.
\<close>

section \<open>The initial state\<close>

definition GPIO_SPEED_FREQ_LOW :: u32 where "GPIO_SPEED_FREQ_LOW = 0"

text \<open>The output pins and the infrared input; \<open>PB0\<close> selects the antenna path.\<close>

definition MX_GPIO_Init :: "gpio \<Rightarrow> gpio" where
  "MX_GPIO_Init g =
     (let g = enable_gpio_clock GPIOB (enable_gpio_clock GPIOA g);
          g = HAL_GPIO_WritePin GPIOB 1 False g;
          g = HAL_GPIO_WritePin GPIOA 16 True g;
          s = \<lparr>Pin = 2, Mode = GPIO_MODE_INPUT, Pull = GPIO_NOPULL, Speed = 0, Alternate = 0\<rparr>;
          g = HAL_GPIO_Init GPIOA s g;
          s = s\<lparr>Pin := 16, Mode := GPIO_MODE_OUTPUT_PP, Pull := GPIO_NOPULL, Speed := GPIO_SPEED_FREQ_HIGH\<rparr>;
          g = HAL_GPIO_Init GPIOA s g;
          s = s\<lparr>Pin := 1, Mode := GPIO_MODE_OUTPUT_PP, Pull := GPIO_NOPULL, Speed := GPIO_SPEED_FREQ_LOW\<rparr>
      in HAL_GPIO_Init GPIOB s g)"

text \<open>
  The statically initialised variables and the registered USB interface, with the flash contents, the
  timers and the identifier as found. The device is not configured: there are no class data.
\<close>

definition fw_boot :: "flash \<Rightarrow> timers \<Rightarrow> u32 \<times> u32 \<times> u32 \<Rightarrow> fw" where
  "fw_boot fl tm uid = \<lparr>fusb = usb_boot,
     fsamp = \<lparr>samplerPort = GPIOA, samplerPin = 1, sampler_ring = replicate 16 (zeros 18),
       sampler_overflow_lane = zeros 18, sampler_ring_head = 0, sampler_ring_tail = 0, sampler_ring_count = 0,
       sampler_overflow_active = False, sampler_dropped_lanes = 0, sampler_bit_index = 0,
       sampler_byte_index = 0, sampler_current_byte = 0\<rparr>,
     fplay = \<lparr>tx_bit_index = 0, tx_current_byte = 0, tx_out_enabled = False, selectedChannelMask = 0x100\<rparr>,
     fgpio = MX_GPIO_Init gpio_reset_state, ftim = tm, fadc = adc_reset, fser = serial_reset, fflash = fl,
     ism_mode = ISM_MODE_IDLE, uid_words = uid, selectedChannel = TIM_CHANNEL_3, spi_tx = [], responses = [],
     has_reset = False\<rparr>"

lemma boot_gpio_wf: "gpio_wf (MX_GPIO_Init gpio_reset_state)"
  unfolding MX_GPIO_Init_def Let_def
  by (intro gpio_init_wf) (simp_all add: init_ok_def gpio_mode_defs GPIO_SPEED_FREQ_LOW_def)

lemma fw_boot_waits: "length (name_page fl) = 1024 \<Longrightarrow> fw_waiting (fw_boot fl tm uid)"
  by (simp add: fw_boot_def fw_waiting_def fw_wf_def usb_wf_def get_bus_def bus_ok_def boot_gpio_wf bus_inv_def serial_reset_def
      usb_boot_eq usb_static_def configured_def rx_wf_def samp_wf_def samp_shape_def)

section \<open>Runs\<close>

text \<open>\<open>fw_run f0 cmds f\<close>: the firmware can get from \<open>f0\<close> to \<open>f\<close>, having taken the lanes \<open>cmds\<close> from the host.\<close>

inductive fw_run :: "fw \<Rightarrow> u8 list list \<Rightarrow> fw \<Rightarrow> bool" for f0 where
  start: "fw_run f0 [] f0"
| irq: "fw_run f0 cmds f \<Longrightarrow> fw_run f0 cmds (irq_step i f)"
| iter: "fw_run f0 cmds f \<Longrightarrow> \<not> has_reset f \<Longrightarrow> main_iter sch f t = Some (sch', f', t') \<Longrightarrow>
    fw_run f0 (if midi_packet_ready (fusb f) then cmds @ [midi_packet (fusb f)] else cmds) f'"

text \<open>How many lanes answer a sequence of commands.\<close>

definition name_sets :: "u8 list list \<Rightarrow> nat" where
  "name_sets cmds = length (filter (\<lambda>l. l ! 0 = 0x05) cmds)"

definition run_inv :: "u8 list list \<Rightarrow> fw \<Rightarrow> bool" where
  "run_inv cmds f \<longleftrightarrow> (fw_inv f \<or> fw_waiting f) \<and> \<not> circ f \<and> (\<forall>l \<in> set (responses f). good_lane l) \<and>
     length cmds \<le> length (responses f) \<and> length (responses f) \<le> length cmds + name_sets cmds"

lemma data_out_buf_type [simp]: "emw_buf_type (USBD_MIDI_DataOut sz u) = emw_buf_type u"
  by (simp add: USBD_MIDI_DataOut_def Let_def USBD_LL_PrepareReceive_def split: option.splits)

lemma irq_circ: "circ (irq_step i f) = circ f"
proof (cases i)
  case Irq_In
  then show ?thesis using tx_erase_fields(2) [OF tx_poll_frame(1) [of 1 "fusb f"]] by (simp add: circ_def)
qed (simp_all add: circ_def TIM3_IRQHandler_def Let_def)

text \<open>An iteration without a command and without a sampled lane does nothing.\<close>

lemma waiting_iter: "fw_waiting f \<Longrightarrow> main_iter sch f t = Some (sch, f, t)"
  by (simp add: fw_waiting_def main_iter_def main_drain_def)

lemma run_inv_iter:
  assumes "run_inv cmds f" "\<not> has_reset f" "main_iter sch f t = Some (sch', f', t')"
  shows "run_inv (if midi_packet_ready (fusb f) then cmds @ [midi_packet (fusb f)] else cmds) f'"
proof (cases "fw_waiting f")
  case True
  then have "\<not> midi_packet_ready (fusb f)" "f' = f" using waiting_iter [of f sch t] assms(3) by (simp_all add: fw_waiting_def)
  then show ?thesis using assms(1) by simp
next
  case False
  then have "fw_inv f" using assms(1) by (simp add: run_inv_def)
  from postD [OF post_main_iter [OF this assms(2)] assms(3)] assms(1) show ?thesis
    by (cases "midi_packet_ready (fusb f)")
      (auto simp: run_inv_def lane_answers_def answered_def emits_def name_sets_def ball_Un)
qed

lemma run_inv_reach: "fw_run f0 cmds f \<Longrightarrow> run_inv [] f0 \<Longrightarrow> run_inv cmds f"
proof (induction rule: fw_run.induct)
  case (irq cmds f i)
  then show ?case using irq_circ [of i f] fw_inv_irq [of f i] fw_waiting_irq [of f i] by (auto simp: run_inv_def)
next
  case (iter cmds f sch t sch' f' t')
  then show ?case using run_inv_iter [of cmds f] by simp
qed simp

section \<open>Responses come to an end\<close>

text \<open>Without class data the sender gives up at once.\<close>

lemma send_unconfigured:
  assumes "\<not> configured u" "t \<noteq> []"
  shows "\<exists>u' t'. MIDI_SendResponsePkt_FS (Some p) 36 timeout u (start # t) = Some (- 1, u', t')"
proof -
  obtain d t1 where t: "t = d # t1" using assms(2) by (cases t) auto
  have "pClassData u = None" using assms(1) by (simp add: configured_def)
  then show ?thesis
    unfolding t by (simp add: MIDI_SendResponsePkt_FS_def Let_def emw_defs USBD_MIDI_TransmitPacket_def)
qed

lemma send_status_returns:
  assumes "\<And>k. K < k \<Longrightarrow> 2 * k + 1 < length t \<Longrightarrow> 100 \<le> t ! (2 * k + 1) - start" "2 * K + 6 \<le> length t"
  shows "\<exists>f' t'. command_send_status status p f (start # t) = Some (f', t')"
proof -
  have "t \<noteq> []" using assms(2) by auto
  then obtain ret u' t' where
    "MIDI_SendResponsePkt_FS (Some (blit (zeros 36) 0 (response_lane status p))) 36 100 (fusb f) (start # t) = Some (ret, u', t')"
    using send_returns_lemma [OF assms, of "fusb f"] send_unconfigured [of "fusb f" t]
    by (cases "configured (fusb f)") blast+
  then show ?thesis by (auto simp: command_send_status_def Let_def MIDI_GetBufferType_FS_def)
qed

text \<open>A clock that is past the deadline at the second poll.\<close>

definition late_clock :: trace where
  "late_clock = [0, 0, 100, 0, 100, 0, 100]"

lemma late_clock_returns: "\<exists>f' t'. command_send_status status p f late_clock = Some (f', t')"
  unfolding late_clock_def
proof (rule send_status_returns [where K = 0])
  fix k :: nat
  assume "0 < k" "2 * k + 1 < length [0, 100, 0, 100, 0, 100 :: u32]"
  then have "k = 1 \<or> k = 2" by auto
  then show "100 \<le> [0, 100, 0, 100, 0, 100 :: u32] ! (2 * k + 1) - 0"
    by (elim disjE) (simp_all add: eval_nat_numeral)
qed simp_all

text \<open>A device that the host has just configured.\<close>

definition fw_fresh :: fw where
  "fw_fresh = irq_step Irq_Configure (fw_boot flash_reset timers_reset (1, 2, 3))"

lemma fw_fresh_eq: "fw_fresh = (fw_boot flash_reset timers_reset (1, 2, 3))\<lparr>fusb := usb_idle\<rparr>"
  by (simp add: fw_fresh_def fw_boot_def usb_idle_def) (simp add: usb_boot_eq usb_static_def)

lemma fw_fresh_inv: "fw_inv fw_fresh"
  using fw_waiting_irq [OF fw_boot_waits [of flash_reset timers_reset "(1, 2, 3)"], of Irq_Configure, folded fw_fresh_def]
  by (auto simp: flash_reset_def fw_waiting_def fw_fresh_eq)

lemma fw_fresh_simps [simp]: "ism_mode fw_fresh = ISM_MODE_IDLE" "\<not> has_reset fw_fresh" "responses fw_fresh = []"
  "emw_buf_type (fusb fw_fresh) = EMW_BUFFER_PACKET" "\<not> midi_packet_ready (fusb fw_fresh)" "\<not> circ fw_fresh"
  "configured (fusb fw_fresh)"
  by (simp_all add: fw_fresh_eq fw_boot_def circ_def)

definition ask :: "u8 list \<Rightarrow> fw \<Rightarrow> fw" where
  "ask lane f = f\<lparr>fusb := (fusb f)\<lparr>midi_packet := lane, midi_packet_ready := True\<rparr>\<rparr>"

lemma ask_inv: "fw_inv f \<Longrightarrow> length lane = 18 \<Longrightarrow> fw_inv (ask lane f)"
  by (simp add: ask_def fw_inv_def get_bus_def)

lemma ask_simps [simp]: "ism_mode (ask l f) = ism_mode f" "has_reset (ask l f) = has_reset f" "responses (ask l f) = responses f"
  "midi_packet (fusb (ask l f)) = l" "midi_packet_ready (fusb (ask l f))" "circ (ask l f) = circ f"
  "configured (fusb (ask l f)) = configured (fusb f)"
  by (simp_all add: ask_def circ_def configured_def)

section \<open>Properties\<close>

text \<open>C2: A command that is waiting when an iteration of the main loop begins is consumed by it and
  answered by exactly one 18-byte response lane that starts with the OK or the error code; only
  NAME_SET can answer twice. The iteration keeps the invariant of the firmware and does not leave
  the stream buffer in playback mode.\<close>

theorem main_iter_answers:
  assumes "fw_inv f" "\<not> has_reset f" "midi_packet_ready (fusb f)" "main_iter sch f t = Some (sch', f', t')"
  shows "fw_inv f' \<and> \<not> midi_packet_ready (fusb f') \<and> (circ f' \<longrightarrow> circ f) \<and>
    (\<exists>ls. responses f' = responses f @ ls \<and> (\<forall>l \<in> set ls. good_lane l) \<and>
      (length ls = 1 \<or> length ls = 2 \<and> midi_packet (fusb f) ! 0 = 0x05))"
  using postD [OF post_main_iter [OF assms(1,2)] assms(4)] assms(3)
  by (auto simp: lane_answers_def answered_def)

theorem main_iter_answers_witness:
  "\<exists>f'. (\<exists>t'. main_iter [] (ask (1 # zeros 17) fw_fresh) late_clock = Some ([], f', t')) \<and> length (responses f') = 1"
proof -
  let ?f = "ask (1 # zeros 17) fw_fresh"
  have i: "fw_inv ?f" by (simp add: ask_inv fw_fresh_inv)
  from late_clock_returns [where f = ?f, of EMW_RESP_STATUS_OK "[1, 0, 2]"] obtain f1 t1
    where "main_iter [] ?f late_clock = Some ([], if has_reset f1 then f1 else midi_packet_consume f1, t1)"
    by (auto simp: main_iter_def main_drain_def dispatch_def handle_version_def command_send_ok_def)
  with main_iter_answers [OF i _ _ this] show ?thesis by auto
qed

text \<open>C1: From the state after initialisation, with no class data yet, whatever transfers, completions,
  timer events, configurations and bus resets interleave with the iterations of the main loop, the
  firmware stays well formed (receive ring, sampler ring, buses, pins, playback index, command and
  pending lane, name page), playback mode is over between iterations, the response lanes are as
  many as the commands taken, up to one more for each NAME_SET, and nothing is written through a
  missing class data pointer unless a bus reset or a deconfiguration has taken the class data away.\<close>

theorem firmware_invariant:
  assumes "fw_run (fw_boot fl tm uid) cmds f" "length (name_page fl) = 1024"
  shows "fw_wf f \<and> (null_deref (fusb f) \<longrightarrow> class_lost (fusb f)) \<and> \<not> circ f \<and> (\<forall>l \<in> set (responses f). good_lane l) \<and>
    length cmds \<le> length (responses f) \<and> length (responses f) \<le> length cmds + name_sets cmds"
proof -
  have "run_inv [] (fw_boot fl tm uid)"
    using fw_boot_waits [OF assms(2)]
    by (simp add: run_inv_def fw_boot_def circ_def name_sets_def usb_boot_eq usb_static_def)
  from run_inv_reach [OF assms(1) this] show ?thesis
    by (auto simp: run_inv_def fw_inv_wf class_ok_def fw_waiting_def)
qed

text \<open>The host configures the device, sends a command, and it is waiting in the slot.\<close>

theorem firmware_invariant_witness:
  "\<exists>f. fw_run (fw_boot flash_reset timers_reset (1, 2, 3)) [] f \<and> fw_wf f \<and> \<not> null_deref (fusb f) \<and>
     midi_packet_ready (fusb f) \<and> midi_packet (fusb f) = 1 # zeros 17"
proof -
  let ?c = "1 # zeros 17 :: u8 list"
  let ?f = "irq_step (Irq_Out 64 (usb_frame (?c @ zeros 18))) fw_fresh"
  have r: "fw_run (fw_boot flash_reset timers_reset (1, 2, 3)) [] ?f" unfolding fw_fresh_def by (intro fw_run.intros)
  have "?c \<noteq> replicate 18 0" by (simp add: list_eq_iff_nth_eq exI [of _ 0])
  then have "list_ex (\<lambda>b. b \<noteq> 0) ?c" by simp
  then have "midi_packet_ready (fusb ?f) \<and> midi_packet (fusb ?f) = ?c \<and> \<not> class_lost (fusb ?f)"
    using receive_valid [of ?c "zeros 18"]
    by (simp add: fw_fresh_eq fw_boot_def usb_idle_eq buf_bytes_def USBD_MIDI_DataOut_def Let_def rx_dispatch_def
        emw_defs)
  with firmware_invariant [OF r] show ?thesis using r by (auto simp: flash_reset_def)
qed

text \<open>C13: A bus reset while the sampler has a lane to send makes the next iteration of the main loop write
  through the missing class data pointer: the sender's busy check takes a device without class data
  for an idle one, and the transmit buffer is then set without another check.\<close>

theorem usb_reset_while_sampling:
  assumes "ism_mode f = ISM_MODE_RAW_SAMPLING" "0 < sampler_ring_count (fsamp f)" "\<not> midi_packet_ready (fusb f)"
    "configured (fusb f)"
  shows "\<exists>f'. main_iter sch (irq_step Irq_Deconfigure f) (d # t) = Some (sch, f', t) \<and> null_deref (fusb f') \<and>
    wire (fusb f') = wire (fusb f)"
proof -
  let ?u = "USBD_MIDI_DeInit (fusb f)"
  have n: "pClassData ?u = None" using assms(4) by (simp add: USBD_MIDI_DeInit_def configured_def)
  have s: "\<exists>u'. try_send_sampling_superframe (Some lane) ?u (d # t) = Some (False, u', t) \<and> null_deref u' \<and>
      wire u' = wire ?u \<and> \<not> midi_packet_ready u'" for lane
    using n assms(3) by (auto simp: try_send_sampling_superframe_def MIDI_TrySendResponsePkt_FS_def Let_def emw_defs
        USBD_MIDI_TransmitPacket_def)
  show ?thesis
    using s [of "drain_lane (fsamp f)"] assms(1,2) by (auto simp: main_iter_def main_drain_def)
qed

theorem usb_reset_while_sampling_witness:
  "\<exists>f'. main_iter [] (irq_step Irq_Deconfigure (fw_fresh\<lparr>ism_mode := ISM_MODE_RAW_SAMPLING,
      fsamp := (fsamp fw_fresh)\<lparr>sampler_ring_count := 1\<rparr>\<rparr>)) [0] = Some ([], f', []) \<and> null_deref (fusb f')"
  using usb_reset_while_sampling [of "fw_fresh\<lparr>ism_mode := ISM_MODE_RAW_SAMPLING, fsamp := (fsamp fw_fresh)\<lparr>sampler_ring_count := 1\<rparr>\<rparr>" "[]" 0 "[]"]
  by auto

end
