(* ===== verification/Stm_Commands.thy ===== *)
theory Stm_Commands
  imports Stm_Run
begin

text \<open>
  What single commands promise: the device name survives a round trip through the flash, a
  retransmission ends once its bytes are played, and the commands whose answer or effect differs
  from what the host can expect.
\<close>

section \<open>Sending a response changes the USB side and the log only\<close>

lemma send_frame:
  assumes "command_send_status status p f t = Some (f', t')"
  shows "fsamp f' = fsamp f" "fplay f' = fplay f" "fgpio f' = fgpio f" "ftim f' = ftim f" "fadc f' = fadc f"
    "fser f' = fser f" "fflash f' = fflash f" "ism_mode f' = ism_mode f" "has_reset f' = has_reset f"
    "responses f' = responses f @ [response_lane status p]"
  using assms by (auto simp: command_send_status_def Let_def bind_eq_Some_conv split: if_splits)

section \<open>The device name\<close>

lemma blit_zero: "length xs \<le> n \<Longrightarrow> blit (replicate n x) 0 xs = xs @ replicate (n - length xs) x"
  by (simp add: blit_def)

lemma name_pages:
  assumes "length lane = 18" "n \<le> 16"
  shows "odd n \<Longrightarrow> blit (replicate 1024 0xFF) 0 (name_bytes lane n 0) = take n (drop 2 lane) @ 0 # replicate (1023 - n) 0xFF"
    "even n \<Longrightarrow> blit (blit (replicate 1024 0xFF) 0 (name_bytes lane n 0)) n (u16_bytes 0) =
       take n (drop 2 lane) @ 0 # 0 # replicate (1022 - n) 0xFF"
proof -
  show "odd n \<Longrightarrow> blit (replicate 1024 0xFF) 0 (name_bytes lane n 0) = take n (drop 2 lane) @ 0 # replicate (1023 - n) 0xFF"
    using assms by (cases n) (simp_all add: blit_zero name_bytes_def)
  assume e: "even n"
  have b: "blit (replicate 1024 0xFF) 0 (name_bytes lane n 0) = take n (drop 2 lane) @ replicate (1024 - n) 0xFF"
    using assms e by (cases "n = 0") (simp_all add: blit_zero name_bytes_def)
  have u: "u16_bytes 0 = [0, 0]" by (simp add: u16_bytes_def)
  have l: "length (take n (drop 2 lane)) = n" using assms by simp
  show "blit (blit (replicate 1024 0xFF) 0 (name_bytes lane n 0)) n (u16_bytes 0) =
       take n (drop 2 lane) @ 0 # 0 # replicate (1022 - n) 0xFF"
    unfolding b u using l assms(2) by (simp add: blit_def)
qed

lemma device_name_lock [simp]: "get_device_name m (fl\<lparr>flash_unlocked := b\<rparr>) = get_device_name m fl"
  by (simp add: get_device_name_def)

lemma name_set_ok:
  assumes "fw_inv f" "length lane = 18" and n: "n = name_len (lane ! 1)"
  shows "\<exists>f1 rest. fw_inv f1 \<and> responses f1 = responses f \<and> name_page (fflash f1) = take n (drop 2 lane) @ 0 # rest \<and>
    handle_name_set lane f (replicate (2 + n div 2) 0 @ t) = (do {
      (f, t) \<leftarrow> command_send_ok [] f1 t;
      Some (f\<lparr>fflash := (fflash f)\<lparr>flash_unlocked := False\<rparr>\<rparr>, t) })"
proof -
  have n16: "n \<le> 16" using n name_len_le by simp
  define fl where "fl = (fflash f)\<lparr>flash_unlocked := True, name_page := replicate 1024 0xFF\<rparr>"
  define m where "m = (n + 1) div 2"
  define ts where "ts = (if even n then 0 # t else t)"
  have rep: "replicate (2 + n div 2) 0 @ t = 0 # replicate m 0 @ ts"
    by (cases "even n") (auto simp: m_def ts_def replicate_append_same elim!: evenE oddE simp flip: replicate_Suc)
  have len: "length (name_page fl) = 1024" "n - 0 \<le> 2 * m" "2 * m \<le> n - 0 + 1"
    unfolding fl_def m_def by (simp, presburger, presburger)
  obtain fl1 where p: "name_program_loop lane n 0 fl (replicate m 0 @ ts) = Some (True, fl1, ts)"
    and pg: "name_page fl1 = blit (replicate 1024 0xFF) 0 (name_bytes lane n 0)"
    using name_program_loop_ok [OF assms(2) n16 len(1) _ len(2,3), of ts] by (auto simp: fl_def)
  have page: "\<exists>rest. name_page fl2 = take n (drop 2 lane) @ 0 # rest \<and> length (name_page fl2) = 1024"
    if "fl2 = (if even n then fl1\<lparr>name_page := blit (name_page fl1) n (u16_bytes 0)\<rparr> else fl1)" for fl2
    using that name_pages [OF assms(2) n16] assms(2) n16 by (auto simp: pg)
  define fl2 where "fl2 = (if even n then fl1\<lparr>name_page := blit (name_page fl1) n (u16_bytes 0)\<rparr> else fl1)"
  let ?f = "f\<lparr>fflash := fl2\<rparr>"
  have "handle_name_set lane f (0 # replicate m 0 @ ts) = (do {
      (f, t) \<leftarrow> command_send_ok [] ?f t;
      Some (f\<lparr>fflash := (fflash f)\<lparr>flash_unlocked := False\<rparr>\<rparr>, t) })"
    unfolding handle_name_set_def n [symmetric]
    using p by (cases "even n") (simp_all add: HAL_FLASHEx_Erase_def HAL_FLASH_Program_def Let_def
        fl_def [symmetric] fl2_def ts_def even_iff_mod_2_eq_zero)
  moreover have "fw_inv ?f" using assms(1) page [OF fl2_def] by (auto simp: fw_inv_def get_bus_def)
  ultimately show ?thesis using page [OF fl2_def] rep by (intro exI [of _ ?f]) auto
qed

text \<open>C31: A name stored with NAME_SET is the name reported afterwards: when the flash accepts every
  write, the command ends with one OK response, and the stored name is the requested bytes (at
  most 16 of them) up to the first zero or 0xFF; the flash is locked again.\<close>

theorem name_roundtrip:
  assumes "fw_inv f" "length lane = 18" and n: "n = name_len (lane ! 1)"
    and "\<And>k. K < k \<Longrightarrow> 2 * k + 1 < length t \<Longrightarrow> 100 \<le> t ! (2 * k + 1) - now" "2 * K + 6 \<le> length t"
  shows "\<exists>f' t'. handle_name_set lane f (replicate (2 + n div 2) 0 @ now # t) = Some (f', t') \<and>
    get_device_name (DEVICE_NAME_MAX_LEN + 1) (fflash f') = takeWhile (\<lambda>b. b \<noteq> 0xFF \<and> b \<noteq> 0) (take n (drop 2 lane)) \<and>
    responses f' = responses f @ [response_lane 0x80 []] \<and> \<not> flash_unlocked (fflash f')"
proof -
  obtain f1 rest where f1: "fw_inv f1" "responses f1 = responses f" "name_page (fflash f1) = take n (drop 2 lane) @ 0 # rest"
    "handle_name_set lane f (replicate (2 + n div 2) 0 @ now # t) = (do {
      (f, t) \<leftarrow> command_send_ok [] f1 (now # t);
      Some (f\<lparr>fflash := (fflash f)\<lparr>flash_unlocked := False\<rparr>\<rparr>, t) })"
    using name_set_ok [OF assms(1-3), of "now # t"] by blast
  obtain f2 t2 where s: "command_send_status 0x80 [] f1 (now # t) = Some (f2, t2)"
    using send_status_returns [OF assms(4,5)] by blast
  note r = send_frame [OF s]
  have n16: "length (take n (drop 2 lane)) \<le> 32" using name_len_le [of "lane ! 1"] n by simp
  have "get_device_name (DEVICE_NAME_MAX_LEN + 1) (fflash f1) = takeWhile (\<lambda>b. b \<noteq> 0xFF \<and> b \<noteq> 0) (take n (drop 2 lane))"
    using name_scan_takeWhile [OF n16, of rest] f1(3)
    by (cases "take n (drop 2 lane)") (auto simp: get_device_name_def DEVICE_NAME_MAX_LEN_def)
  then show ?thesis
    using s f1(2,4) r(7,10) by (simp add: command_send_ok_def EMW_RESP_STATUS_OK_def)
qed

theorem name_roundtrip_witness:
  "\<exists>f' t'. handle_name_set ([5, 2, 0x4D, 0x69] @ zeros 14) fw_fresh (replicate 3 0 @ late_clock) = Some (f', t') \<and>
     get_device_name (DEVICE_NAME_MAX_LEN + 1) (fflash f') = [0x4D, 0x69]"
proof -
  let ?l = "[5, 2, 0x4D, 0x69] @ zeros 14 :: u8 list"
  have n: "name_len (?l ! 1) = 2" by (simp add: name_len_def DEVICE_NAME_MAX_LEN_def)
  have d: "100 \<le> [0, 100, 0, 100, 0, 100 :: u32] ! (2 * k + 1) - 0"
    if "0 < k" "2 * k + 1 < length [0, 100, 0, 100, 0, 100 :: u32]" for k
    using that by (cases "k = 1"; cases "k = 2") (auto simp: eval_nat_numeral)
  show ?thesis
    using name_roundtrip [OF fw_fresh_inv, of ?l 2 0 "[0, 100, 0, 100, 0, 100]" 0] n d
    by (auto simp: late_clock_def)
qed

lemma name_program_fails:
  "odd n \<Longrightarrow> st \<noteq> 0 \<Longrightarrow> name_program_loop lane n 0 fl (st # t) = Some (False, fl, t)"
  by (subst name_program_loop.simps) (auto simp: HAL_FLASH_Program_def elim!: oddE)

text \<open>When the flash refuses the first write of a new name, the command reports the error and then
  success: the host sees an ERR lane followed by an OK lane for one command, the old name is
  already erased, and the stored name is empty.\<close>

theorem name_set_error_then_ok:
  assumes "odd (name_len (lane ! 1))" "st \<noteq> 0" "handle_name_set lane f (0 # st # t) = Some (f', t')"
  shows "responses f' = responses f @ [response_lane 0x81 [], response_lane 0x80 []] \<and>
    name_page (fflash f') = replicate 1024 0xFF"
proof -
  define f1 where "f1 = f\<lparr>fflash := (fflash f)\<lparr>flash_unlocked := True, name_page := replicate 1024 0xFF\<rparr>\<rparr>"
  have o: "name_len (lane ! 1) mod 2 \<noteq> 0" using assms(1) by presburger
  obtain f2 t2 f3 where s: "command_send_status 0x81 [] f1 t = Some (f2, t2)" "command_send_status 0x80 [] f2 t2 = Some (f3, t')"
    "f' = f3\<lparr>fflash := (fflash f3)\<lparr>flash_unlocked := False\<rparr>\<rparr>"
    using assms(3) o name_program_fails [OF assms(1,2)]
    by (auto simp: handle_name_set_def HAL_FLASHEx_Erase_def Let_def f1_def
        command_send_ok_def command_send_err_def EMW_RESP_STATUS_OK_def EMW_RESP_STATUS_ERR_def bind_eq_Some_conv)
  show ?thesis using send_frame [OF s(1)] send_frame [OF s(2)] s(3) by (simp add: f1_def)
qed

definition fw_sampling :: fw where
  "fw_sampling = fw_fresh\<lparr>ism_mode := ISM_MODE_RAW_SAMPLING\<rparr>"

lemma sampling_pends:
  "ism_mode f = ISM_MODE_RAW_SAMPLING \<Longrightarrow> command_send_status s p f t =
     Some (f\<lparr>responses := responses f @ [response_lane s p],
             fusb := (fusb f)\<lparr>pending_cmd_lane := response_lane s p, pending_cmd_ready := True\<rparr>\<rparr>, t)"
  by (simp add: command_send_status_def Let_def)

theorem name_set_error_then_ok_witness:
  "\<exists>f'. handle_name_set ([5, 1, 0x4D] @ zeros 15) fw_sampling [0, 1] = Some (f', []) \<and> length (responses f') = 2"
proof -
  let ?l = "[5, 1, 0x4D] @ zeros 15 :: u8 list"
  have n: "name_len (?l ! 1) = 1" by (simp add: name_len_def DEVICE_NAME_MAX_LEN_def)
  have p: "name_program_loop ?l 1 0 fl [1] = Some (False, fl, [])" for fl
    using name_program_fails [of 1 1 ?l fl "[]"] by simp
  have "\<exists>f'. handle_name_set ?l fw_sampling [0, 1] = Some (f', [])"
    unfolding handle_name_set_def n Let_def
    by (simp add: HAL_FLASHEx_Erase_def p [simplified] command_send_err_def command_send_ok_def sampling_pends fw_sampling_def)
  then obtain f' where r: "handle_name_set ?l fw_sampling [0, 1] = Some (f', [])" by blast
  then show ?thesis using name_set_error_then_ok [of ?l 1 fw_sampling "[]" f' "[]"] n
    by (simp add: fw_sampling_def)
qed

section \<open>Reopening the serial port\<close>

text \<open>Opening the UART at a new rate while it is already open answers OK without touching the
  peripheral: the handler stores the new rate before the driver compares it with the stored one,
  so the bus keeps running at the old divisor.\<close>

theorem uart_reopen_keeps_rate:
  assumes "bus_owner (fser f) = BUS_OWNER_UART1" "uart1_initialized (fser f)" "lane ! 1 = 0"
    and "emw_u32_le (drop 2 lane) \<noteq> 0" "handle_uart lane f t = Some (f', t')"
  shows "fser f' = (fser f)\<lparr>uart1_baud := emw_u32_le (drop 2 lane)\<rparr> \<and> fgpio f' = fgpio f \<and>
    responses f' = responses f @ [response_lane 0x80 []]"
proof -
  have "command_send_status 0x80 [] (set_baud (emw_u32_le (drop 2 lane)) f) t = Some (f', t')"
    using assms by (auto simp: handle_uart_def Let_def uart_claim_def uart1_ensure_def set_baud_def get_bus_def set_bus_def
        command_send_ok_def EMW_RESP_STATUS_OK_def)
  from send_frame [OF this] show ?thesis by (simp add: set_baud_def)
qed

definition fw_uart_open :: fw where
  "fw_uart_open = fw_sampling\<lparr>fser := serial_reset\<lparr>bus_owner := BUS_OWNER_UART1, uart1_initialized := True, USART1_BRR := 417\<rparr>\<rparr>"

theorem uart_reopen_keeps_rate_witness:
  "\<exists>f'. handle_uart ([0x30, 0] @ u32_bytes 9600 @ zeros 12) fw_uart_open [] = Some (f', []) \<and>
     USART1_BRR (fser f') = 417 \<and> uart1_baud (fser f') = 9600"
proof -
  let ?l = "[0x30, 0] @ u32_bytes 9600 @ zeros 12"
  have b: "emw_u32_le (drop 2 ?l) = 9600" by (simp add: emw_u32_le_def u32_bytes_def)
  have "\<exists>f'. handle_uart ?l fw_uart_open [] = Some (f', [])"
    unfolding handle_uart_def b Let_def
    by (simp add: command_send_ok_def sampling_pends set_baud_def uart_claim_def uart1_ensure_def set_bus_def get_bus_def
        fw_uart_open_def fw_sampling_def)
  then obtain f' where r: "handle_uart ?l fw_uart_open [] = Some (f', [])" by blast
  have o: "bus_owner (fser fw_uart_open) = BUS_OWNER_UART1" "uart1_initialized (fser fw_uart_open)" "USART1_BRR (fser fw_uart_open) = 417"
    by (simp_all add: fw_uart_open_def)
  show ?thesis using uart_reopen_keeps_rate [OF o(1,2) _ _ r] r o(3) b by fastforce
qed

end
