(* ===== verification/Stm_Transmit.thy ===== *)
theory Stm_Transmit
  imports Stm_Commands
begin

text \<open>
  Retransmission as a whole command: what TRANSMIT sets up, recordings played back from there, the
  playback loop, which ends once the timer has played the queued bytes, and a retransmission
  started while sampling, which leaves the firmware unable to answer.
\<close>

section \<open>What TRANSMIT sets up\<close>

definition play_st :: "fw \<Rightarrow> playback \<times> rx_ring \<times> u32" where
  "play_st f = (fplay f, ring (fusb f), CCER (tims (ftim f) TIM2))"

text \<open>The channel and its enable bit; the carrier is on if the driver accepts the start or it already was.\<close>

definition tx_mask :: "u8 \<Rightarrow> u16" where
  "tx_mask pin = tim2_ccer_mask_from_channel (fst (tx_channel pin))"

definition carrier_starts :: "u8 \<Rightarrow> fw \<Rightarrow> bool" where
  "carrier_starts pin f \<longleftrightarrow> ChannelReady (htim2 (ftim f)) ! channel_slot (fst (tx_channel pin)) \<or>
     CCER (tims (ftim f) TIM2) AND ucast (tx_mask pin) \<noteq> 0"

lemma tx_channels: "fst (tx_channel pin) \<in> {TIM_CHANNEL_1, TIM_CHANNEL_2, TIM_CHANNEL_3, TIM_CHANNEL_4}"
  by (simp add: tx_channel_def)

lemma tx_mask_bit: "\<exists>k < 16. tx_mask pin = push_bit k 1 \<and> unat (fst (tx_channel pin) AND 0x1F) = k"
proof -
  have "\<exists>k \<in> {0, 4, 8, 12}. tx_mask pin = push_bit k 1 \<and> unat (fst (tx_channel pin) AND 0x1F) = k"
    using tx_channels [of pin] by (auto simp: tx_mask_def tim2_ccer_mask_from_channel_def tim_channel_defs)
  then show ?thesis by auto
qed

lemma one_bit_mask: "(x :: u32) AND push_bit k 1 = (if bit x k then push_bit k 1 else 0)"
  by (rule bit_eqI) (auto simp: bit_simps)

lemma ucast_push_16: "k < 16 \<Longrightarrow> (ucast (push_bit k 1 :: u16) :: u32) = push_bit k 1"
  by (rule bit_word_eqI) (auto simp: bit_simps)

lemma tx_mask_values: "(x :: u32) AND ucast (tx_mask pin) \<in> {0, ucast (tx_mask pin)}" "tx_mask pin \<noteq> 0"
proof -
  obtain k where k: "k < 16" "tx_mask pin = push_bit k 1" using tx_mask_bit by blast
  show "x AND ucast (tx_mask pin) \<in> {0, ucast (tx_mask pin)}"
    unfolding k(2) ucast_push_16 [OF k(1)] one_bit_mask by simp
  show "tx_mask pin \<noteq> 0" unfolding k(2) using push_bit_1_nonzero [OF k(1)] .
qed

lemma channel_cmd_mask: "CCER (TIM_CCxChannelCmd (fst (tx_channel pin)) 1 r) AND ucast (tx_mask pin) = ucast (tx_mask pin)"
proof -
  obtain k where k: "k < 16" "tx_mask pin = push_bit k 1" "unat (fst (tx_channel pin) AND 0x1F) = k" using tx_mask_bit by blast
  have "bit (CCER (TIM_CCxChannelCmd (fst (tx_channel pin)) 1 r)) k"
    using k(1,3) by (simp add: TIM_CCxChannelCmd_def Let_def bit_simps)
  then show ?thesis unfolding k(2) ucast_push_16 [OF k(1)] one_bit_mask by simp
qed

lemma ccer_kept [simp]:
  "CCER (tims (snd (tim2_set_pwm_hz hz tm)) TIM2) = CCER (tims tm TIM2)" "htim2 (snd (tim2_set_pwm_hz hz tm)) = htim2 tm"
  "CCER (tims (setDutyCycle_TIM2 ch d tm) TIM2) = CCER (tims tm TIM2)" "htim2 (setDutyCycle_TIM2 ch d tm) = htim2 tm"
  "CCER (tims (tim3_set_tick_us us tm) TIM2) = CCER (tims tm TIM2)"
  "htim3 (snd (tim2_set_pwm_hz hz tm)) = htim3 tm" "htim3 (setDutyCycle_TIM2 ch d tm) = htim3 tm"
  "htim3 (tim3_set_tick_us us tm) = htim3 tm" "htim3 (snd (HAL_TIM_PWM_Start ch tm)) = htim3 tm"
  "SMCR (tims (snd (tim2_set_pwm_hz hz tm)) TIM3) = SMCR (tims tm TIM3)" "SMCR (tims (setDutyCycle_TIM2 ch d tm) TIM3) = SMCR (tims tm TIM3)"
  "SMCR (tims (tim3_set_tick_us us tm) TIM3) = SMCR (tims tm TIM3)" "SMCR (tims (snd (HAL_TIM_PWM_Start ch tm)) TIM3) = SMCR (tims tm TIM3)"
  by (simp_all add: tim2_set_pwm_hz_def setDutyCycle_TIM2_def set_tim2_ccr_def tim3_set_tick_us_def HAL_TIM_PWM_Start_def upd_tim_def Let_def)

lemma pwm_start_ccer:
  "CCER (tims (snd (HAL_TIM_PWM_Start ch tm)) TIM2) =
     (if ChannelReady (htim2 tm) ! channel_slot ch then CCER (TIM_CCxChannelCmd ch 1 (tims tm TIM2)) else CCER (tims tm TIM2))"
  by (simp add: HAL_TIM_PWM_Start_def enable_unless_trigger_def HAL_TIM_ENABLE_def upd_tim_def Let_def)

text \<open>
  TRANSMIT clears the handler's output flag and then has the driver set the enable bit of the
  channel: the carrier is on although the flag says it is off.
\<close>

lemma setup_play:
  "play_wf (play_st (transmit_setup lane pin f))" "tx_bit_index (fplay (transmit_setup lane pin f)) = 0"
  "rx_contents (ring (fusb (transmit_setup lane pin f))) = []"
  "stuck_on (play_st (transmit_setup lane pin f)) = carrier_starts pin f"
proof -
  let ?g = "transmit_setup lane pin f"
  obtain ch gp where c: "tx_channel pin = (ch, gp)" by (cases "tx_channel pin")
  have play: "fplay ?g = \<lparr>tx_bit_index = 0, tx_current_byte = 0, tx_out_enabled = False, selectedChannelMask = tx_mask pin\<rparr>"
    "ring (fusb ?g) = MIDI_InitRxBuffer_FS (ring (fusb f))"
    by (simp_all add: transmit_setup_def Let_def c tx_mask_def MIDI_SetBufferType_FS_def)
  have ccer: "CCER (tims (ftim ?g) TIM2) = (if ChannelReady (htim2 (ftim f)) ! channel_slot (fst (tx_channel pin))
      then CCER (TIM_CCxChannelCmd (fst (tx_channel pin)) 1 (tims (ftim f) TIM2)) else CCER (tims (ftim f) TIM2))"
    by (simp add: transmit_setup_def Let_def c pwm_start_ccer) (simp add: TIM_CCxChannelCmd_def Let_def)
  show "play_wf (play_st ?g)" using tx_mask_values by (simp add: play_wf_def play_st_def play)
  show "tx_bit_index (fplay ?g) = 0" "rx_contents (ring (fusb ?g)) = []" by (simp_all add: play)
  have ne: "(ucast (tx_mask pin) :: u32) \<noteq> 0" using tx_mask_values(2) by simp
  show "stuck_on (play_st ?g) = carrier_starts pin f"
    using ne channel_cmd_mask [of pin "tims (ftim f) TIM2"]
    by (auto simp: stuck_on_def carrier_on_def carrier_starts_def play_st_def play ccer)
qed

text \<open>As many ticks as the handler still plays can be taken in a row.\<close>

lemma ticks_run: "play_wf st \<Longrightarrow> n \<le> play_ticks st \<Longrightarrow> \<exists>outs st'. feed_run (replicate n Tick) st = Some (outs, st') \<and> length outs = n"
proof (induction n arbitrary: st)
  case (Suc n)
  obtain p r c where st: "st = (p, r, c)" by (cases st)
  have ne: "rx_contents r \<noteq> []" using Suc.prems(2) by (auto simp: st play_ticks_def split: if_splits)
  have w: "play_wf (ISR_Sampler_writing st)" using playback_tick [OF Suc.prems(1) [unfolded st] ne] by (simp add: st)
  have "n \<le> play_ticks (ISR_Sampler_writing st)"
    using playback_ticks_step [OF Suc.prems(1) [unfolded st] ne] Suc.prems(2) by (simp add: st)
  from Suc.IH [OF w this] show ?case using ne by (auto simp: st Let_def)
next
  case (0 st)
  then show ?case by (cases st) simp
qed

text \<open>C8: Record and replay: if the sampler's lanes were all accepted without its ring ever filling up,
  and the host queues exactly those lanes after a TRANSMIT, while the playback runs or before, as
  fast as it can but never into a full ring, then as long as no tick finds the ring empty the ticks
  gate the carrier with the recorded samples, one per tick, in order and at the recorded alignment,
  for recordings of any length. Two things are lost: the last seven samples are never played (the
  ring is then already empty), and if the driver starts the carrier, or it runs already, the samples
  before the first 1 come out as 1, because TRANSMIT has marked the running carrier as off.\<close>

theorem record_replay:
  assumes "samp_reach bs out offered False s"
    and "feed_run es (play_st (transmit_setup lane pin f)) = Some (outs, st')" "fed es = out"
  shows "outs = gated (carrier_starts pin f) (take (length outs) bs) \<and> length outs \<le> 144 * length out - 7"
proof -
  let ?st = "play_st (transmit_setup lane pin f)" and ?b = "lane_bits (concat out)"
  note start = setup_play [where lane = lane and pin = pin and f = f]
  from samp_reach_inv [OF assms(1)] obtain ws where ws: "bs = concat ws @ samp_partial s"
    "\<forall>w \<in> set ws. length w = 144" "map lane_bits (out @ samp_queue s) = ws"
    unfolding samp_inv_def by blast
  have bs: "bs = ?b @ concat (map lane_bits (samp_queue s)) @ samp_partial s"
    unfolding lane_bits_concat by (simp add: ws(1) ws(3) [symmetric])
  have "length (lane_bits l) = 144" if "l \<in> set out" for l
  proof -
    have "lane_bits l \<in> set ws" unfolding ws(3) [symmetric] using that by simp
    then show ?thesis using ws(2) by blast
  qed
  then have len: "length ?b = 144 * length out"
    unfolding lane_bits_concat by (induction out) simp_all
  have none: "play_bits ?st = []" using start(2,3) by (simp add: play_bits_def play_st_def)
  from feed_run_spec [OF assms(2) start(1)]
  have run: "outs @ gated (stuck_on st') (play_bits st') = gated (carrier_starts pin f) ?b"
    and left: "outs \<noteq> [] \<longrightarrow> 7 \<le> length (play_bits st')"
    by (simp_all add: none start(4) assms(3))
  have total: "length outs + length (play_bits st') = 144 * length out"
    using arg_cong [OF run, of length] len by simp
  have "outs = take (length outs) (gated (carrier_starts pin f) ?b)" unfolding run [symmetric] by simp
  also have "\<dots> = gated (carrier_starts pin f) (take (length outs) bs)"
    unfolding take_gated bs using total len by simp
  finally show ?thesis using left total by (cases "outs = []") auto
qed

text \<open>On a device just configured the carrier starts, and the first sample, a 0, comes out as 1.\<close>

theorem record_replay_witness:
  "\<exists>s l outs st'. samp_reach (concat (replicate 72 [False, True])) [l] None False s \<and>
     feed_run (Lane l # replicate 137 Tick) (play_st (transmit_setup (0x80 # zeros 17) 0 fw_fresh)) = Some (outs, st') \<and>
     length outs = 137 \<and> outs = True # drop 1 (take 137 (concat (replicate 72 [False, True])))"
proof -
  let ?bs = "concat (replicate 72 [False, True])" and ?st = "play_st (transmit_setup (0x80 # zeros 17) 0 fw_fresh)"
  have "length ?bs = 144" by (simp add: length_concat sum_list_replicate)
  then obtain s l where r: "samp_reach ?bs [l] None False s" "length l = 18"
    using samp_reach_one_lane [of ?bs] by blast
  note start = setup_play [where lane = "0x80 # zeros 17" and pin = 0 and f = fw_fresh]
  obtain p q c where st: "?st = (p, q, c)" by (cases ?st)
  have q: "rx_wf q" "rx_contents q = []" "tx_bit_index p = 0" "play_wf (p, q, c)"
    using start st by (simp_all add: play_wf_def play_st_def)
  obtain q1 where a: "rx_append_lane l q = (True, q1)" "rx_wf q1" "rx_contents q1 = l"
    using rx_append_fits [OF q(1), of l] q(2) r(2) by (cases "rx_append_lane l q") auto
  have w: "play_wf (p, q1, c)" using q(4) a(2) by (simp add: play_wf_def)
  have "play_ticks (p, q1, c) = 137" using a(3) r(2) q(3) by (auto simp: play_ticks_def)
  then obtain outs st' where run: "feed_run (replicate 137 Tick) (p, q1, c) = Some (outs, st')" "length outs = 137"
    using ticks_run [OF w, of 137] by auto
  have f: "feed_run (Lane l # replicate 137 Tick) ?st = Some (outs, st')" using run(1) a(1) by (simp add: st)
  have fed: "fed (Lane l # replicate n Tick) = [l]" for n by (induction n) simp_all
  have c: "carrier_starts 0 fw_fresh"
    by (simp add: carrier_starts_def fw_fresh_eq fw_boot_def timers_reset_def channel_slot_def tx_channel_def)
  have "?bs = False # drop 1 ?bs" by (simp add: numeral_eq_Suc)
  moreover have "take 137 (False # drop 1 ?bs) = False # drop 1 (take 137 ?bs)"
    by (simp add: take_Cons' drop_take)
  moreover have "hd (drop 1 (take 137 ?bs)) \<and> drop 1 (take 137 ?bs) \<noteq> []" by (simp add: numeral_eq_Suc)
  moreover have "gated True (False # x) = True # x" if "hd x \<and> x \<noteq> []" for x using that by (cases x) auto
  ultimately have "gated True (take 137 ?bs) = True # drop 1 (take 137 ?bs)" by metis
  with record_replay [OF r(1) f fed] run(2) c have "outs = True # drop 1 (take 137 ?bs)" by simp
  then show ?thesis using r(1) f run(2) by blast
qed

section \<open>The playback loop ends\<close>

text \<open>The timer runs, or the start between the two loops sets it going.\<close>

definition tim3_running :: "timers \<Rightarrow> bool" where
  "tim3_running tm \<longleftrightarrow> CR1 (tims tm TIM3) AND 1 \<noteq> 0 \<and> DIER (tims tm TIM3) AND 1 \<noteq> 0"

definition tim3_starts :: "timers \<Rightarrow> bool" where
  "tim3_starts tm \<longleftrightarrow> BaseReady (htim3 tm) \<and> SMCR (tims tm TIM3) AND 7 \<noteq> 6 \<or> tim3_running tm"

definition streaming :: "fw \<Rightarrow> bool" where
  "streaming f \<longleftrightarrow> emw_buf_type (fusb f) = EMW_BUFFER_CIRCULAR \<and> play_wf (play_st f)"

lemma or_1_and_1: "(x OR 1) AND 1 \<noteq> (0 :: u32)"
  by (metis and_mask_or zero_neq_one)

lemma tim3_start: "tim3_starts tm \<Longrightarrow> tim3_running (snd (HAL_TIM_Base_Start_IT tm))"
  by (auto simp: tim3_starts_def tim3_running_def HAL_TIM_Base_Start_IT_def enable_unless_trigger_def HAL_TIM_ENABLE_def
      upd_tim_def or_1_and_1 Let_def)

lemma take_bit_and_1: "take_bit 16 (x :: u32) AND 1 = x AND 1"
  by (rule bit_word_eqI) (auto simp: bit_simps)

lemma tim3_kept:
  "tim3_starts (snd (tim2_set_pwm_hz hz tm)) = tim3_starts tm" "tim3_starts (setDutyCycle_TIM2 ch d tm) = tim3_starts tm"
  "tim3_starts (snd (HAL_TIM_PWM_Start ch tm)) = tim3_starts tm" "tim3_starts (tim3_set_tick_us us tm) = tim3_starts tm"
  by (simp_all add: tim3_starts_def tim3_running_def tim2_set_pwm_hz_def setDutyCycle_TIM2_def set_tim2_ccr_def
      HAL_TIM_PWM_Start_def tim3_set_tick_us_def upd_tim_def take_bit_and_1 Let_def)

lemma setup_streaming:
  "streaming (transmit_setup lane pin f)" "tim3_starts (ftim (transmit_setup lane pin f)) = tim3_starts (ftim f)"
  "pending_bs_ready (fusb (transmit_setup lane pin f)) = pending_bs_ready (fusb f)"
  using setup_play(1) [of lane pin f]
  by (simp_all add: streaming_def transmit_setup_def tim3_kept MIDI_SetBufferType_FS_def Let_def split: prod.splits)

text \<open>Interrupts and the polled sender.\<close>

lemma receive_ring_wf: "rx_wf (ring u) \<Longrightarrow> rx_wf (ring (MIDI_Receive_FS buf sz u))"
  using append_lane_wf
  by (auto simp: MIDI_Receive_FS_def MIDI_QueueStatusPacket_FS_def Let_def split: option.splits prod.splits bool.splits)
    (metis snd_conv)+

lemma data_out_ring_wf: "rx_wf (ring u) \<Longrightarrow> rx_wf (ring (USBD_MIDI_DataOut sz u))"
  using receive_ring_wf by (simp add: USBD_MIDI_DataOut_def USBD_LL_PrepareReceive_def Let_def split: option.splits)

lemma isr_wf: "play_wf st \<Longrightarrow> play_wf (ISR_Sampler_writing st) \<and> play_ticks (ISR_Sampler_writing st) = play_ticks st - 1"
proof -
  assume w: "play_wf st"
  obtain p r c where st: "st = (p, r, c)" by (cases st)
  show ?thesis
  proof (cases "rx_contents r = []")
    case True
    obtain p' r' c' where e: "ISR_Sampler_writing (p, r, c) = (p', r', c')" by (metis prod_cases3)
    show ?thesis using playback_idle [OF w [unfolded st] True] True by (auto simp: st e play_ticks_def)
  next
    case False
    then show ?thesis using playback_tick [OF w [unfolded st]] playback_ticks_step [OF w [unfolded st]] st by simp
  qed
qed

fun is_tick :: "irq \<Rightarrow> bool" where
  "is_tick (Irq_Tim3 idr) = True" | "is_tick _ = False"

fun is_out :: "irq \<Rightarrow> bool" where
  "is_out (Irq_Out sz buf) = True" | "is_out _ = False"

definition ticks :: "irq list \<Rightarrow> nat" where
  "ticks is = length (filter is_tick is)"

lemma tick_streams:
  assumes "streaming f"
  shows "streaming (irq_step (Irq_Tim3 idr) f)"
    "play_st (irq_step (Irq_Tim3 idr) f) = (if tim3_running (ftim f) then ISR_Sampler_writing (play_st f) else play_st f)"
    "tim3_running (ftim (irq_step (Irq_Tim3 idr) f)) = tim3_running (ftim f)"
    "tim3_starts (ftim (irq_step (Irq_Tim3 idr) f)) = tim3_starts (ftim f)"
    "pending_bs_ready (fusb (irq_step (Irq_Tim3 idr) f)) = pending_bs_ready (fusb f)"
proof -
  show "play_st (irq_step (Irq_Tim3 idr) f) = (if tim3_running (ftim f) then ISR_Sampler_writing (play_st f) else play_st f)"
    "tim3_running (ftim (irq_step (Irq_Tim3 idr) f)) = tim3_running (ftim f)"
    "tim3_starts (ftim (irq_step (Irq_Tim3 idr) f)) = tim3_starts (ftim f)"
    "pending_bs_ready (fusb (irq_step (Irq_Tim3 idr) f)) = pending_bs_ready (fusb f)"
    using assms or_1_and_1
    by (auto simp: streaming_def tim3_starts_def tim3_running_def play_st_def TIM3_IRQHandler_def EMW_TIM3_Tick_ISR_def
        upd_tim_def Let_def split: prod.splits)
  then show "streaming (irq_step (Irq_Tim3 idr) f)"
    using assms isr_wf [of "play_st f"] irq_circ [of "Irq_Tim3 idr" f] by (simp add: streaming_def circ_def)
qed

lemma irq_streams:
  assumes "streaming f"
  shows "streaming (irq_step i f) \<and> tim3_starts (ftim (irq_step i f)) = tim3_starts (ftim f) \<and>
    tim3_running (ftim (irq_step i f)) = tim3_running (ftim f)"
proof (cases i)
  case (Irq_Tim3 idr)
  then show ?thesis using tick_streams [OF assms] by simp
next
  case (Irq_Out sz buf)
  then show ?thesis
    using assms data_out_ring_wf [of "(fusb f)\<lparr>midi_rx_buf := buf\<rparr>" sz]
    by (auto simp: streaming_def play_st_def play_wf_def)
next
  case Irq_In
  then show ?thesis
    using assms tx_erase_fields [OF tx_poll_frame(1) [of 1 "fusb f"]] by (simp add: streaming_def play_st_def)
qed (use assms in \<open>simp_all add: streaming_def play_st_def\<close>)

lemma quiet_irq:
  assumes "streaming f" "tim3_running (ftim f)" "\<not> is_out i"
  shows "play_ticks (play_st (irq_step i f)) = play_ticks (play_st f) - ticks [i] \<and>
    pending_bs_ready (fusb (irq_step i f)) = pending_bs_ready (fusb f)"
proof (cases i)
  case (Irq_Tim3 idr)
  then show ?thesis
    using tick_streams [OF assms(1)] isr_wf [of "play_st f"] assms(1,2) by (simp add: streaming_def ticks_def)
next
  case Irq_In
  then show ?thesis
    using tx_erase_fields [OF tx_poll_frame(1) [of 1 "fusb f"]] by (simp add: play_st_def ticks_def)
qed (use assms in \<open>simp_all add: play_st_def ticks_def\<close>)

lemma quiet_irqs:
  "streaming f \<Longrightarrow> tim3_running (ftim f) \<Longrightarrow> list_all (\<lambda>i. \<not> is_out i) is \<Longrightarrow>
   streaming (fold irq_step is f) \<and> tim3_running (ftim (fold irq_step is f)) \<and>
   play_ticks (play_st (fold irq_step is f)) = play_ticks (play_st f) - ticks is \<and>
   pending_bs_ready (fusb (fold irq_step is f)) = pending_bs_ready (fusb f)"
proof (induction "is" arbitrary: f)
  case (Cons i "is")
  have "ticks (i # is) = ticks [i] + ticks is" by (simp add: ticks_def)
  then show ?case using Cons quiet_irq [of f i] irq_streams [of f i] by simp
qed (simp add: ticks_def)

lemma streaming_available: "streaming f \<Longrightarrow> (tx_available f \<noteq> 0) = (0 < play_ticks (play_st f))"
  using available_pos [of "ring (fusb f)"]
  by (auto simp: streaming_def play_st_def play_wf_def tx_available_def play_ticks_def word_gt_0)

text \<open>
  Values of a trace from which a pending buffer report can be sent: the millisecond clock passes
  the deadline of the blocking send.
\<close>

definition send_clock :: "trace \<Rightarrow> bool" where
  "send_clock t = (case t of d # start # t1 \<Rightarrow>
     (\<exists>K < length t1. 2 * K + 6 \<le> length t1 \<and>
        (\<forall>k < length t1. K < k \<and> 2 * k + 1 < length t1 \<longrightarrow> 100 \<le> t1 ! (2 * k + 1) - start)) | _ \<Rightarrow> False)"

lemma poll_returns:
  assumes "pending_bs_ready u \<longrightarrow> send_clock t"
  shows "\<exists>u' t'. MIDI_PollTx_FS u t = Some (u', t') \<and> ring u' = ring u \<and> emw_buf_type u' = emw_buf_type u \<and>
    (pending_bs_ready u' \<longrightarrow> pending_bs_ready u \<and> t' = tl t)"
proof (cases "pending_bs_ready u")
  case False
  then show ?thesis by (simp add: MIDI_PollTx_FS_def)
next
  case True
  then obtain d start t1 K where t: "t = d # start # t1" and K: "2 * K + 6 \<le> length t1"
    and late: "\<forall>k < length t1. K < k \<and> 2 * k + 1 < length t1 \<longrightarrow> 100 \<le> t1 ! (2 * k + 1) - start"
    using assms by (auto simp: send_clock_def split: list.splits)
  let ?u = "tx_poll d u"
  note f = tx_erase_fields [OF tx_poll_frame(1) [of d u]]
  show ?thesis
  proof (cases "USBD_MIDI_IsTxBusy ?u")
    case True
    then show ?thesis using \<open>pending_bs_ready u\<close> t f by (simp add: MIDI_PollTx_FS_def)
  next
    case False
    let ?v = "?u\<lparr>pending_bs_ready := False\<rparr>"
    have send: "\<exists>ret u' t'. MIDI_SendResponsePkt_FS (Some p) 36 100 w (start # t1) = Some (ret, u', t')" for p w
    proof (cases "configured w")
      case True
      then show ?thesis using send_returns_lemma [of K t1 100 start w p] late K by auto
    next
      case False
      have "t1 \<noteq> []" using K by auto
      then show ?thesis using send_unconfigured [OF False] by blast
    qed
    obtain u' t' where s: "MIDI_SendStatusPacket_FS (pending_bs_status u) ?v (start # t1) = Some (u', t')"
    proof -
      obtain p w where e: "(if pending_cmd_ready ?v then (bs_frame (pending_bs_status u) (pending_cmd_lane ?v), ?v\<lparr>pending_cmd_ready := False\<rparr>)
          else (bs_frame (pending_bs_status u) [], ?v)) = (p, w)" by fastforce
      from send [of p w] that show ?thesis unfolding MIDI_SendStatusPacket_FS_def e by auto
    qed
    have "MIDI_PollTx_FS u t = Some (u', t')"
      using \<open>pending_bs_ready u\<close> False t f s by (simp add: MIDI_PollTx_FS_def Let_def)
    moreover have "tx_erase u' = tx_erase (?v\<lparr>pending_cmd_ready := False\<rparr>)" using send_status_erase [OF s] by simp
    from tx_erase_fields [OF this] have "ring u' = ring u" "emw_buf_type u' = emw_buf_type u" "\<not> pending_bs_ready u'"
      using f by simp_all
    ultimately show ?thesis by blast
  qed
qed

lemma poll_frame:
  assumes "MIDI_PollTx_FS u t = Some (u', t')"
  shows "ring u' = ring u \<and> emw_buf_type u' = emw_buf_type u"
proof (cases "pending_bs_ready u")
  case False
  then show ?thesis using assms by (simp add: MIDI_PollTx_FS_def)
next
  case True
  then obtain d t0 where t: "t = d # t0" using assms by (cases t) (auto simp: MIDI_PollTx_FS_def)
  note f = tx_erase_fields [OF tx_poll_frame(1) [of d u]]
  show ?thesis
  proof (cases "USBD_MIDI_IsTxBusy (tx_poll d u)")
    case True
    then show ?thesis using assms t f by (auto simp: MIDI_PollTx_FS_def split: if_splits)
  next
    case False
    let ?v = "(tx_poll d u)\<lparr>pending_bs_ready := False\<rparr>"
    have "MIDI_SendStatusPacket_FS (pending_bs_status u) ?v t0 = Some (u', t')"
      using assms t True False f by (simp add: MIDI_PollTx_FS_def Let_def)
    then have "tx_erase u' = tx_erase (?v\<lparr>pending_cmd_ready := False\<rparr>)" using send_status_erase by blast
    from tx_erase_fields [OF this] show ?thesis using f by simp
  qed
qed

lemma drain_ends:
  assumes "streaming f" "tim3_running (ftim f)" "list_all (list_all (\<lambda>i. \<not> is_out i)) sch" "sch \<noteq> []"
    and "play_ticks (play_st f) \<le> ticks (concat sch)" "pending_bs_ready (fusb f) \<longrightarrow> (\<forall>n < length sch. send_clock (drop n t))"
  shows "\<exists>sch' f' t'. tx_drain_loop sch f t = Some (sch', f', t') \<and> tx_available f' = 0"
  using assms
proof (induction sch arbitrary: f t)
  case (Cons "is" sch)
  let ?f = "fold irq_step is f"
  have q: "streaming ?f" "tim3_running (ftim ?f)" "play_ticks (play_st ?f) = play_ticks (play_st f) - ticks is"
    "pending_bs_ready (fusb ?f) = pending_bs_ready (fusb f)"
    using quiet_irqs [OF Cons.prems(1,2), of "is"] Cons.prems(3) by simp_all
  show ?case
  proof (cases "tx_available ?f = 0")
    case True
    then show ?thesis by simp
  next
    case False
    have t: "ticks (concat (is # sch)) = ticks is + ticks (concat sch)" by (simp add: ticks_def)
    then have le: "play_ticks (play_st ?f) \<le> ticks (concat sch)" using q(3) Cons.prems(5) by simp
    have ne: "sch \<noteq> []" using le False streaming_available [OF q(1)] by (auto simp: ticks_def)
    have "pending_bs_ready (fusb ?f) \<longrightarrow> send_clock t"
      using Cons.prems(6) q(4) by (metis drop0 length_Cons zero_less_Suc)
    from poll_returns [OF this] obtain u t' where p: "MIDI_PollTx_FS (fusb ?f) t = Some (u, t')" "ring u = ring (fusb ?f)"
      "emw_buf_type u = emw_buf_type (fusb ?f)" "pending_bs_ready u \<longrightarrow> pending_bs_ready (fusb ?f) \<and> t' = tl t" by blast
    let ?g = "?f\<lparr>fusb := u\<rparr>"
    have g: "streaming ?g" "tim3_running (ftim ?g)" "play_st ?g = play_st ?f"
      using q p(2,3) by (simp_all add: streaming_def play_st_def)
    have late: "pending_bs_ready (fusb ?g) \<longrightarrow> (\<forall>n < length sch. send_clock (drop n t'))"
    proof (intro impI allI)
      fix n
      assume "pending_bs_ready (fusb ?g)" "n < length sch"
      then have "drop n t' = drop (Suc n) t" "pending_bs_ready (fusb f)" "Suc n < length (is # sch)"
        using p(4) q(4) by (simp_all add: drop_Suc)
      then show "send_clock (drop n t')" using Cons.prems(6) by metis
    qed
    from Cons.IH [OF g(1,2) _ ne _ late] Cons.prems(3) le g(3) show ?thesis using False p(1) by simp
  qed
qed simp

lemma fill_streams:
  assumes "tx_fill_loop sch0 start f t0 = Some (sch, f1, t)" "streaming f" "tim3_starts (ftim f)"
  shows "streaming f1 \<and> tim3_starts (ftim f1)"
proof -
  let ?P = "\<lambda>f. streaming f \<and> tim3_starts (ftim f)"
  have poll: "post (\<lambda>(u, t'). ?P (f\<lparr>fusb := u\<rparr>)) (MIDI_PollTx_FS (fusb f) t)" if "?P f" for f t
    using that poll_frame [of "fusb f" t] by (fastforce simp: post_def streaming_def play_st_def)
  have irq: "?P (irq_step i f)" if "?P f" for i f using irq_streams [of f i] that by blast
  have "post (\<lambda>(sch', f', t'). ?P f') (tx_fill_loop sch0 start f t0)"
    by (rule tx_loops_inv(1) [where P = ?P, OF irq poll]) (use assms(2,3) in auto)
  from postD [OF this assms(1)] show ?thesis by simp
qed

text \<open>C23: The playback loop of TRANSMIT ends. From whatever the setup and the filling of the ring have left,
  with the bytes and the buffer report that the host's transfers have put there, and with the timer
  running or ready to be started, the loop returns once the timer has ticked for every bit the handler
  still plays, if no more data come from the host: however the ticks, the completions of transfers
  and changes of the configuration are spread over the polls, and with the ring empty. If a buffer
  report is pending, the millisecond clock has to go on for its sender to return.\<close>

theorem playback_loop_ends:
  assumes "tx_fill_loop sch0 start (transmit_setup lane pin f) t0 = Some (sch, f1, t)"
    and "f2 = f1\<lparr>ftim := snd (HAL_TIM_Base_Start_IT (ftim f1))\<rparr>" "tim3_starts (ftim f)"
    and "list_all (list_all (\<lambda>i. \<not> is_out i)) sch" "sch \<noteq> []" "play_ticks (play_st f2) \<le> ticks (concat sch)"
    and "pending_bs_ready (fusb f2) \<longrightarrow> (\<forall>n < length sch. send_clock (drop n t))"
  shows "\<exists>sch' f' t'. tx_drain_loop sch f2 t = Some (sch', f', t') \<and> tx_available f' = 0"
proof (rule drain_ends [OF _ _ assms(4-7)])
  have "streaming f1" "tim3_starts (ftim f1)"
    using fill_streams [OF assms(1)] setup_streaming [of lane pin f] assms(3) by simp_all
  then show "streaming f2" "tim3_running (ftim f2)"
    using tim3_start assms(2) by (simp_all add: streaming_def play_st_def HAL_TIM_Base_Start_IT_def enable_unless_trigger_def HAL_TIM_ENABLE_def upd_tim_def Let_def)
qed

text \<open>The host queues fourteen lanes, and the report is sent while they play.\<close>

definition listening :: "usb \<Rightarrow> bool" where
  "listening u \<longleftrightarrow> pUserData u \<and> (case pClassData u of None \<Rightarrow> False | Some h \<Rightarrow> RxBuffer h = Some MidiRxBuf) \<and>
     emw_buf_type u = EMW_BUFFER_CIRCULAR \<and> rx_wf (ring u)"

lemma out_queues:
  assumes "listening u" "length (rx_contents (ring u)) + 18 < 512" "length l = 18"
  shows "\<exists>u'. irq_step (Irq_Out 64 (usb_frame (zeros 18 @ l))) (f\<lparr>fusb := u\<rparr>) = f\<lparr>fusb := u'\<rparr> \<and> listening u' \<and>
    rx_contents (ring u') = rx_contents (ring u) @ l \<and> pending_bs_ready u'"
proof -
  obtain h where h: "pClassData u = Some h" "RxBuffer h = Some MidiRxBuf" "pUserData u" "rx_wf (ring u)"
    "emw_buf_type u = EMW_BUFFER_CIRCULAR"
    using assms(1) by (auto simp: listening_def split: option.splits)
  obtain r where r: "rx_append_lane l (ring u) = (True, r)" "rx_wf r" "rx_contents r = rx_contents (ring u) @ l"
    using rx_append_fits [OF h(4), of l] assms(2,3) by (cases "rx_append_lane l (ring u)") auto
  have z: "\<not> list_ex (\<lambda>b. b \<noteq> 0) (zeros 18)" by (simp add: list_ex_iff zeros_def)
  show ?thesis
    using h r z assms(3) receive_valid [of "zeros 18" l]
    by (simp add: listening_def USBD_MIDI_DataOut_def USBD_LL_PrepareReceive_def buf_bytes_def rx_dispatch_def
        MIDI_QueueStatusPacket_FS_def USBD_MIDI_ReceivePacket_def Let_def) (rule exI, rule conjI, rule refl, simp)
qed

lemma fold_replicate_Suc: "fold g (replicate (Suc n) x) s = g x (fold g (replicate n x) s)"
  by (induction n arbitrary: s) simp_all

lemma outs_queue:
  assumes "listening (fusb f)" "rx_contents (ring (fusb f)) = []" "18 * n < 512" "length l = 18"
  shows "\<exists>u. fold irq_step (replicate n (Irq_Out 64 (usb_frame (zeros 18 @ l)))) f = f\<lparr>fusb := u\<rparr> \<and> listening u \<and>
    length (rx_contents (ring u)) = 18 * n \<and> (n \<noteq> 0 \<longrightarrow> pending_bs_ready u)"
  using assms(3)
proof (induction n)
  case 0
  then show ?case using assms by (intro exI [of _ "fusb f"]) simp
next
  case (Suc n)
  let ?o = "Irq_Out 64 (usb_frame (zeros 18 @ l))"
  obtain u where u: "fold irq_step (replicate n ?o) f = f\<lparr>fusb := u\<rparr>" "listening u" "length (rx_contents (ring u)) = 18 * n"
    using Suc by auto
  have "fold irq_step (replicate (Suc n) ?o) f = irq_step ?o (f\<lparr>fusb := u\<rparr>)"
    unfolding fold_replicate_Suc u(1) ..
  with out_queues [OF u(2) _ assms(4), of f] u(3) Suc.prems assms(4) show ?case by (auto simp del: irq_step.simps)
qed

lemma setup_usb: "fusb (transmit_setup lane pin f) =
    (fusb f)\<lparr>ring := MIDI_InitRxBuffer_FS (ring (fusb f)), emw_buf_type := EMW_BUFFER_CIRCULAR\<rparr>"
  by (simp add: transmit_setup_def MIDI_SetBufferType_FS_def Let_def split: prod.splits)

lemma setup_listening: "listening (fusb (transmit_setup lane pin fw_fresh))" "tim3_starts (ftim fw_fresh)"
proof -
  have "fusb fw_fresh = usb_idle" "ftim fw_fresh = timers_reset" by (simp_all add: fw_fresh_eq fw_boot_def)
  then show "listening (fusb (transmit_setup lane pin fw_fresh))" "tim3_starts (ftim fw_fresh)"
    unfolding setup_usb by (simp_all add: listening_def usb_idle_eq tim3_starts_def timers_reset_def tim_reset_def)
qed

definition ramp_clock :: trace where
  "ramp_clock = [0, 200, 400, 600, 800, 1000, 1200, 1400, 1600, 1800, 2000, 2200]"

lemma ramp_late: "send_clock ramp_clock" "send_clock (drop (Suc 0) ramp_clock)"
proof -
  let ?late = "\<lambda>t1 start. \<exists>K < length t1. 2 * K + 6 \<le> length t1 \<and>
      (\<forall>k < length t1. K < k \<and> 2 * k + 1 < length t1 \<longrightarrow> 100 \<le> t1 ! (2 * k + 1) - (start :: u32))"
  have k: "k = 1 \<or> k = 2 \<or> k = 3 \<or> k = 4" if "0 < k" "2 * k + 1 < 10" for k :: nat using that by auto
  have "?late [400, 600, 800, 1000, 1200, 1400, 1600, 1800, 2000, 2200] 200"
    by (rule exI [of _ 0]) (auto dest!: k)
  then show "send_clock ramp_clock" by (simp add: send_clock_def ramp_clock_def)
  have "?late [600, 800, 1000, 1200, 1400, 1600, 1800, 2000, 2200] 400"
    by (rule exI [of _ 0]) (auto dest!: k [OF _ less_trans])
  then show "send_clock (drop (Suc 0) ramp_clock)" by (simp add: send_clock_def ramp_clock_def)
qed

theorem playback_loop_ends_witness:
  "let sch = [[Irq_Tim3 0], replicate 2008 (Irq_Tim3 0)] in
   \<exists>f1. tx_fill_loop (replicate 14 (Irq_Out 64 (usb_frame (zeros 18 @ replicate 18 5))) # sch) 0
       (transmit_setup (0x80 # zeros 17) 0 fw_fresh) ramp_clock = Some (sch, f1, ramp_clock) \<and> pending_bs_ready (fusb f1) \<and>
     (\<exists>sch' f' t'. tx_drain_loop sch (f1\<lparr>ftim := snd (HAL_TIM_Base_Start_IT (ftim f1))\<rparr>) ramp_clock = Some (sch', f', t') \<and>
       tx_available f' = 0)"
proof -
  let ?f = "transmit_setup (0x80 # zeros 17) 0 fw_fresh"
  define outs where "outs = replicate 14 (Irq_Out 64 (usb_frame (zeros 18 @ replicate 18 5)))"
  define tl where "tl = replicate 2008 (Irq_Tim3 0)"
  have len: "18 * 14 < (512 :: nat)" "length (replicate 18 (5 :: u8)) = 18" by simp_all
  obtain u where o: "fold irq_step outs ?f = ?f\<lparr>fusb := u\<rparr>" and u: "listening u" "length (rx_contents (ring u)) = 18 * 14"
    and p: "14 \<noteq> (0 :: nat) \<longrightarrow> pending_bs_ready u"
    unfolding outs_def using outs_queue [OF setup_listening(1) setup_play(3) len] by blast
  let ?f1 = "?f\<lparr>fusb := u\<rparr>" and ?sch = "[[Irq_Tim3 0], tl]"
  let ?f2 = "?f1\<lparr>ftim := snd (HAL_TIM_Base_Start_IT (ftim ?f1))\<rparr>"
  have av: "MIDI_GetRxBufferBytesAvailable_FS (ring u) = 252"
    using available_used [of "ring u"] rx_contents_length [of "ring u"] u(1,2) by (simp add: listening_def word_unat_eq_iff)
  have fill: "tx_fill_loop (outs # ?sch) 0 ?f ramp_clock = Some (?sch, ?f1, ramp_clock)"
    unfolding tx_fill_loop.simps o Let_def by (simp add: tx_available_def av)
  have tl: "filter is_tick tl = tl" "length tl = 2008" "list_all (\<lambda>i. \<not> is_out i) tl"
    by (simp_all add: tl_def list_all_iff)
  have "play_ticks (play_st ?f2) \<le> 2009"
    using setup_play(2) [of "0x80 # zeros 17" 0 fw_fresh] u(2) by (auto simp: play_st_def play_ticks_def)
  moreover have "ticks (concat ?sch) = 2009" by (simp add: ticks_def tl)
  ultimately have n: "play_ticks (play_st ?f2) \<le> ticks (concat ?sch)" by simp
  have late: "pending_bs_ready (fusb ?f2) \<longrightarrow> (\<forall>n < length ?sch. send_clock (drop n ramp_clock))"
    using ramp_late by (auto simp: less_Suc_eq)
  have "\<exists>sch' f' t'. tx_drain_loop ?sch ?f2 ramp_clock = Some (sch', f', t') \<and> tx_available f' = 0"
    by (rule playback_loop_ends [OF fill refl setup_listening(2) _ _ n late]) (simp_all add: tl)
  moreover have "pending_bs_ready (fusb ?f1)" using p by simp
  ultimately show ?thesis unfolding Let_def outs_def [symmetric] tl_def [symmetric] using fill by blast
qed

section \<open>Retransmission while sampling\<close>

text \<open>
  The state such a command leaves behind: sampling is still on as far as the response path is
  concerned, but the buffer is not the sampler's and the timer interrupt is off.
\<close>

definition muted :: "fw \<Rightarrow> bool" where
  "muted f \<longleftrightarrow> ism_mode f = ISM_MODE_RAW_SAMPLING \<and> emw_buf_type (fusb f) = EMW_BUFFER_PACKET \<and>
     sampler_ring_count (fsamp f) = 0 \<and> \<not> has_reset f"

definition mute_wait :: "fw \<Rightarrow> bool" where
  "mute_wait f \<longleftrightarrow> ism_mode f = ISM_MODE_RAW_SAMPLING \<and> emw_buf_type (fusb f) = EMW_BUFFER_CIRCULAR \<and>
     sampler_ring_count (fsamp f) = 0 \<and> \<not> has_reset f"

lemma irq_mode [simp]: "ism_mode (irq_step i f) = ism_mode f"
  by (cases i; simp add: TIM3_IRQHandler_def EMW_TIM3_Tick_ISR_def Let_def split: prod.splits)

lemma irq_samp: "emw_buf_type (fusb f) \<noteq> EMW_BUFFER_DOUBLE \<Longrightarrow> fsamp (irq_step i f) = fsamp f"
  by (cases i; simp add: TIM3_IRQHandler_def EMW_TIM3_Tick_ISR_def Let_def split: prod.splits)

lemma irq_buf_type [simp]: "emw_buf_type (fusb (irq_step i f)) = emw_buf_type (fusb f)"
proof (cases i)
  case Irq_In
  then show ?thesis using tx_erase_fields(2) [OF tx_poll_frame(1) [of 1 "fusb f"]] by simp
qed (simp_all add: TIM3_IRQHandler_def Let_def)

lemma mute_wait_irq: "mute_wait f \<Longrightarrow> mute_wait (irq_step i f)"
  using irq_samp [of f i] by (simp add: mute_wait_def)

lemma mute_wait_poll: "mute_wait f \<Longrightarrow> post (\<lambda>(u, t'). mute_wait (f\<lparr>fusb := u\<rparr>)) (MIDI_PollTx_FS (fusb f) t)"
  using poll_frame [of "fusb f" t] by (fastforce simp: post_def mute_wait_def)

lemma setup_frame:
  "ism_mode (transmit_setup lane pin f) = ism_mode f" "fsamp (transmit_setup lane pin f) = fsamp f"
  "has_reset (transmit_setup lane pin f) = has_reset f"
  by (simp_all add: transmit_setup_def Let_def split: prod.splits)

lemma mute_setup: "ism_mode f = ISM_MODE_RAW_SAMPLING \<Longrightarrow> sampler_ring_count (fsamp f) = 0 \<Longrightarrow> \<not> has_reset f \<Longrightarrow>
    mute_wait (transmit_setup lane pin f)"
  by (simp add: mute_wait_def setup_frame setup_usb)

lemma mute_finish: "mute_wait f \<Longrightarrow> muted (transmit_finish pin f)"
  by (simp add: mute_wait_def muted_def transmit_finish_def Let_def MIDI_SetBufferType_FS_def)

lemma receive_wire [simp]: "wire (MIDI_Receive_FS buf sz u) = wire u"
  by (auto simp: MIDI_Receive_FS_def Let_def MIDI_QueueStatusPacket_FS_def split: option.splits prod.splits bool.splits)

lemma data_out_wire [simp]: "wire (USBD_MIDI_DataOut sz u) = wire u"
  by (simp add: USBD_MIDI_DataOut_def Let_def USBD_LL_PrepareReceive_def split: option.splits)

lemma irq_wire [simp]: "wire (fusb (irq_step i f)) = wire (fusb f)"
  by (cases i; simp add: TIM3_IRQHandler_def EMW_TIM3_Tick_ISR_def Let_def split: prod.splits)

lemma muted_irq: "muted f \<Longrightarrow> muted (irq_step i f)"
  using irq_samp [of f i] by (simp add: muted_def)

text \<open>A muted firmware takes the VERSION command and keeps the answer to itself.\<close>

definition swallow :: "fw \<Rightarrow> fw" where
  "swallow f = midi_packet_consume (f\<lparr>responses := responses f @ [response_lane 0x80 [1, 0, 2]],
     fusb := (fusb f)\<lparr>pending_cmd_lane := response_lane 0x80 [1, 0, 2], pending_cmd_ready := True\<rparr>\<rparr>)"

lemma muted_version:
  assumes "muted f" "midi_packet_ready (fusb f)" "midi_packet (fusb f) ! 0 = 1"
  shows "main_iter sch f t = Some (sch, swallow f, t)"
  using assms by (simp add: main_iter_def main_drain_def muted_def dispatch_def handle_version_def command_send_ok_def
      sampling_pends swallow_def EMW_RESP_STATUS_OK_def)

lemma muted_swallow: "muted f \<Longrightarrow> muted (swallow f) \<and> wire (fusb (swallow f)) = wire (fusb f)"
  by (simp add: swallow_def muted_def midi_packet_consume_def)

lemma muted_silent: "muted f \<Longrightarrow> \<not> midi_packet_ready (fusb f) \<Longrightarrow> main_iter sch f t = Some (sch, f, t)"
  by (simp add: main_iter_def main_drain_def muted_def)

text \<open>A host that asks for nothing but the version, whatever else happens on the bus and the timer.\<close>

inductive asking :: "fw \<Rightarrow> fw \<Rightarrow> bool" for f0 where
  ask_start: "asking f0 f0"
| ask_irq: "asking f0 f \<Longrightarrow> asking f0 (irq_step i f)"
| ask_iter: "asking f0 f \<Longrightarrow> midi_packet_ready (fusb f) \<longrightarrow> midi_packet (fusb f) ! 0 = 1 \<Longrightarrow>
    main_iter sch f t = Some (sch', f', t') \<Longrightarrow> asking f0 f'"

lemma asking_muted: "asking f0 f \<Longrightarrow> muted f0 \<Longrightarrow> muted f \<and> wire (fusb f) = wire (fusb f0)"
proof (induction rule: asking.induct)
  case (ask_iter f sch t sch' f' t')
  then show ?case
    using muted_version [of f sch t] muted_silent [of f sch t] muted_swallow [of f] by (cases "midi_packet_ready (fusb f)") auto
qed (simp_all add: muted_irq)

text \<open>What the command does with its answer.\<close>

definition park_ok :: "fw \<Rightarrow> fw" where
  "park_ok f = f\<lparr>responses := responses f @ [response_lane 0x80 []],
     fusb := (fusb f)\<lparr>pending_cmd_lane := response_lane 0x80 [], pending_cmd_ready := True\<rparr>\<rparr>"

lemma transmit_parks:
  assumes "ism_mode f = ISM_MODE_RAW_SAMPLING" "sampler_ring_count (fsamp f) = 0" "\<not> has_reset f"
    and "lane ! 1 = 0" "lane ! 2 \<le> 3"
  shows "post (\<lambda>(sch', f', t'). \<exists>f1. muted f1 \<and> f' = park_ok f1) (handle_transmit sch lane f t)"
proof -
  have loops: "mute_wait f \<Longrightarrow> post (\<lambda>(sch', f', t'). mute_wait f') (tx_fill_loop sch start f t)"
    "mute_wait f \<Longrightarrow> post (\<lambda>(sch', f', t'). mute_wait f') (tx_drain_loop sch f t)" for sch start f t
    by (rule tx_loops_inv [where P = mute_wait]; auto intro: mute_wait_irq mute_wait_poll)+
  show ?thesis
    unfolding handle_transmit_def
  proof (intro post_let post_if, goal_cases)
    case (3 sub pin f0)
    then have m: "mute_wait f0" using mute_setup [OF assms(1-3)] by simp
    have send: "post (\<lambda>(sch' :: irq list list, f', t'). \<exists>f1. muted f1 \<and> f' = park_ok f1)
        (do { (f, t) \<leftarrow> command_send_ok [] (transmit_finish pin f1) t; Some (sch, f, t) })" if "mute_wait f1" for f1 sch t
      using mute_finish [OF that, of pin] sampling_pends [of "transmit_finish pin f1" "0x80" "[]" t]
      by (auto simp: command_send_ok_def EMW_RESP_STATUS_OK_def muted_def park_ok_def)
    have drain: "post (\<lambda>(sch' :: irq list list, f', t'). \<exists>f1. muted f1 \<and> f' = park_ok f1)
        (do { (sch, f, t) \<leftarrow> tx_drain_loop sch f1 t; (f, t) \<leftarrow> command_send_ok [] (transmit_finish pin f) t; Some (sch, f, t) })"
      if "mute_wait f1" for f1 sch t
      by (rule post_bind, rule post_mono [OF loops(2) [OF that]]) (use send in auto)
    have st: "mute_wait f1 \<Longrightarrow> mute_wait (f1\<lparr>ftim := tm\<rparr>)" for f1 tm by (simp add: mute_wait_def)
    show ?case
      unfolding Let_def
      by (rule post_bind, rule post_rd, unfold prod.case, rule post_bind, rule post_mono [OF loops(1) [OF m]])
        (auto intro!: drain st)
  qed (use assms(4,5) in auto)
qed

text \<open>C32: A TRANSMIT that the main loop takes while sampling is on, with no sampled lane left to send, ends
  with its answer parked for the next sampling frame, and no such frame will come: the command has
  switched the stream buffer back to packets and stopped the timer but left the mode at sampling.
  From then on, as long as the host asks for nothing but the version, the firmware takes every such
  command and parks the answer, and nothing is ever sent, whatever transfers, timer events and changes
  of the configuration come in between.\<close>

theorem transmit_while_sampling_mutes:
  assumes "ism_mode f = ISM_MODE_RAW_SAMPLING" "sampler_ring_count (fsamp f) = 0" "\<not> has_reset f"
    and "midi_packet_ready (fusb f)" "midi_packet (fusb f) ! 0 = 0x80" "midi_packet (fusb f) ! 1 = 0"
    and "midi_packet (fusb f) ! 2 \<le> 3" "main_iter sch f t = Some (sch', f', t')" "asking f' g"
  shows "pending_cmd_ready (fusb f') \<and> pending_cmd_lane (fusb f') = response_lane 0x80 [] \<and> \<not> midi_packet_ready (fusb f') \<and>
    wire (fusb g) = wire (fusb f') \<and>
    (midi_packet_ready (fusb g) \<and> midi_packet (fusb g) ! 0 = 1 \<longrightarrow> (\<forall>s u. main_iter s g u = Some (s, swallow g, u)))"
proof -
  obtain f2 where h: "handle_transmit sch (midi_packet (fusb f)) f t = Some (sch', f2, t')"
    "f' = (if has_reset f2 then f2 else midi_packet_consume f2)"
    using assms(2,4,5,8) by (auto simp: main_iter_def main_drain_def Let_def bind_eq_Some_conv)
  from postD [OF transmit_parks [OF assms(1-3,6,7)] h(1)] obtain f1 where f1: "muted f1" "f2 = park_ok f1" by auto
  then have f': "f' = midi_packet_consume (park_ok f1)" using h(2) by (simp add: muted_def park_ok_def)
  then have m: "muted f'" using f1(1) by (simp add: muted_def midi_packet_consume_def park_ok_def)
  show ?thesis
    using asking_muted [OF assms(9) m] muted_version [of g] by (simp add: f' midi_packet_consume_def park_ok_def)
qed

text \<open>The device samples, the host retransmits nothing and then asks for the version.\<close>

theorem transmit_while_sampling_mutes_witness:
  "let f = ask (0x80 # zeros 17) (fw_sampling\<lparr>fusb := MIDI_SetBufferType_FS EMW_BUFFER_DOUBLE (fusb fw_sampling)\<rparr>) in
   \<exists>f'. main_iter [[], []] f [0, 3000] = Some ([], f', []) \<and>
     (let g = irq_step (Irq_Out 64 (usb_frame ((1 # zeros 17) @ zeros 18))) f' in
      midi_packet_ready (fusb g) \<and> main_iter [] g [] = Some ([], swallow g, []) \<and> wire (fusb g) = wire (fusb f'))"
proof -
  let ?l = "0x80 # zeros 17 :: u8 list" and ?v = "1 # zeros 17 :: u8 list"
  define f where "f = ask ?l (fw_sampling\<lparr>fusb := MIDI_SetBufferType_FS EMW_BUFFER_DOUBLE (fusb fw_sampling)\<rparr>)"
  have f: "ism_mode f = ISM_MODE_RAW_SAMPLING" "sampler_ring_count (fsamp f) = 0" "\<not> has_reset f"
    "midi_packet (fusb f) = ?l" "midi_packet_ready (fusb f)"
    by (simp_all add: f_def ask_def fw_sampling_def fw_fresh_eq fw_boot_def)
  have u: "pUserData (fusb f)" "case pClassData (fusb f) of None \<Rightarrow> False | Some h \<Rightarrow> RxBuffer h = Some MidiRxBuf"
    "\<not> pending_bs_ready (fusb f)"
    by (simp_all add: f_def fw_sampling_def fw_fresh_eq fw_boot_def usb_idle_eq ask_def MIDI_SetBufferType_FS_def)
  define s where "s = transmit_setup ?l 0 f"
  have su: "fusb s = (fusb f)\<lparr>ring := MIDI_InitRxBuffer_FS (ring (fusb f)), emw_buf_type := EMW_BUFFER_CIRCULAR\<rparr>"
    "ism_mode s = ISM_MODE_RAW_SAMPLING"
    by (simp_all add: s_def setup_usb setup_frame f)
  have same: "h\<lparr>fusb := fusb h\<rparr> = h" for h :: fw by (cases h) simp
  have empty: "tx_available s = 0"
    by (simp add: tx_available_def su MIDI_InitRxBuffer_FS_def MIDI_GetRxBufferBytesAvailable_FS_def)
  have poll: "MIDI_PollTx_FS (fusb s) t = Some (fusb s, t)" for t using u(3) by (simp add: MIDI_PollTx_FS_def su)
  define e where "e = transmit_finish 0 (s\<lparr>ftim := snd (HAL_TIM_Base_Start_IT (ftim s))\<rparr>)"
  have fill: "tx_fill_loop [[], []] 0 s [3000] = Some ([[]], s, [])" by (simp add: empty poll same)
  have drain: "tx_drain_loop [[]] (s\<lparr>ftim := tm\<rparr>) [] = Some ([], s\<lparr>ftim := tm\<rparr>, [])" for tm
    using empty by (simp add: tx_available_def)
  have e: "fusb e = (fusb s)\<lparr>emw_buf_type := EMW_BUFFER_PACKET, ring := ring (fusb e)\<rparr>" "ism_mode e = ISM_MODE_RAW_SAMPLING"
    "has_reset e = has_reset f"
    by (simp_all add: e_def transmit_finish_def MIDI_SetBufferType_FS_def Let_def su(2)) (simp add: s_def setup_frame)
  have "handle_transmit [[], []] ?l f [0, 3000] = Some ([], park_ok e, [])"
    unfolding handle_transmit_def using fill drain sampling_pends [OF e(2)]
    by (simp add: s_def [symmetric] e_def [symmetric] command_send_ok_def park_ok_def EMW_RESP_STATUS_OK_def Let_def del: tx_fill_loop.simps tx_drain_loop.simps)
  then have r: "main_iter [[], []] f [0, 3000] = Some ([], midi_packet_consume (park_ok e), [])"
    using f e(3) by (simp add: main_iter_def main_drain_def park_ok_def)
  let ?f' = "midi_packet_consume (park_ok e)"
  let ?g = "irq_step (Irq_Out 64 (usb_frame (?v @ zeros 18))) ?f'"
  have "list_ex (\<lambda>b. b \<noteq> 0) ?v" by simp
  moreover obtain h where "pClassData (fusb e) = Some h" "RxBuffer h = Some MidiRxBuf" "pUserData (fusb e)"
    "emw_buf_type (fusb e) = EMW_BUFFER_PACKET"
  proof -
    have "pClassData (fusb e) = pClassData (fusb f)" "pUserData (fusb e) = pUserData (fusb f)" "emw_buf_type (fusb e) = EMW_BUFFER_PACKET"
      by (subst e(1), simp add: su(1))+
    then show ?thesis using u(1,2) that by (auto split: option.splits)
  qed
  ultimately have ready: "midi_packet_ready (fusb ?g)" "midi_packet (fusb ?g) = ?v"
    using receive_valid [of ?v "zeros 18"]
    by (simp_all add: park_ok_def midi_packet_consume_def USBD_MIDI_DataOut_def USBD_LL_PrepareReceive_def buf_bytes_def Let_def)
  have "asking ?f' ?g" by (intro asking.intros)
  from transmit_while_sampling_mutes [OF f(1-3) _ _ _ _ r this] f(4,5) ready
  have "main_iter [] ?g [] = Some ([], swallow ?g, []) \<and> wire (fusb ?g) = wire (fusb ?f')" by simp
  then show ?thesis unfolding Let_def f_def [symmetric] using r ready(1) by blast
qed

end
