(* ===== verification/Esp_Session.thy ===== *)
theory Esp_Session
  imports Emw_Prelude
begin

text \<open>
  Which transport may command the ESP32 firmware (\<open>src/esp/main/libraries/transport_session.c\<close>): one
  source at a time holds a claim, which it renews with every command and loses after five seconds
  of silence. A tick count read from the scheduler is the next value of the trace; the tick rate is
  the 100 Hz of \<open>src/esp/sdkconfig\<close>.
\<close>

section \<open>Commands and the claim\<close>

record command_t =
  cmd_data :: "u8 list"
  cmd_length :: u16
  cmd_source :: u8

definition EMW_TRANSPORT_SOURCE_NONE :: u8 where "EMW_TRANSPORT_SOURCE_NONE = 0"
definition EMW_COMMAND_SOURCE_USB :: u8 where "EMW_COMMAND_SOURCE_USB = 1"
definition EMW_COMMAND_SOURCE_BLE :: u8 where "EMW_COMMAND_SOURCE_BLE = 2"
definition EMW_COMMAND_SOURCE_WIFI :: u8 where "EMW_COMMAND_SOURCE_WIFI = 3"

lemmas source_defs = EMW_TRANSPORT_SOURCE_NONE_def EMW_COMMAND_SOURCE_USB_def EMW_COMMAND_SOURCE_BLE_def EMW_COMMAND_SOURCE_WIFI_def

text \<open>\<open>pdMS_TO_TICKS(TRANSPORT_SESSION_TIMEOUT_MS)\<close>.\<close>

definition timeout_ticks :: u32 where
  "timeout_ticks = 5000 * 100 div 1000"

record session =
  s_active_source :: u8
  s_last_activity_tick :: u32

definition expire_stale_claim :: "session \<Rightarrow> trace \<Rightarrow> (session \<times> trace) option" where
  "expire_stale_claim s t =
     (if s_active_source s = EMW_TRANSPORT_SOURCE_NONE then Some (s, t)
      else do {
        (now, t) \<leftarrow> rd t;
        Some (if now - s_last_activity_tick s > timeout_ticks
              then s\<lparr>s_active_source := EMW_TRANSPORT_SOURCE_NONE\<rparr> else s, t) })"

definition is_transport_session_status :: "command_t \<Rightarrow> bool" where
  "is_transport_session_status cmd \<longleftrightarrow> cmd_length cmd = 18 \<and> cmd_data cmd ! 0 = 0x0B \<and> cmd_data cmd ! 1 = 0"

definition is_transport_session_connect :: "command_t \<Rightarrow> bool" where
  "is_transport_session_connect cmd \<longleftrightarrow> cmd_length cmd = 18 \<and> cmd_data cmd ! 0 = 0x0B \<and> cmd_data cmd ! 1 = 1"

definition is_allowed_discovery_command :: "command_t \<Rightarrow> bool" where
  "is_allowed_discovery_command cmd =
     (if cmd_length cmd \<noteq> 18 then False
      else let op = cmd_data cmd ! 0 in
        if op = 0x01 \<or> op = 0x08 \<or> op = 0x09 \<or> op = 0x04 then True
        else if op = 0x0A then cmd_data cmd ! 1 = 4
        else if op = 0x0B then cmd_data cmd ! 1 = 0
        else False)"

definition transport_session_allows_command :: "command_t \<Rightarrow> session \<Rightarrow> trace \<Rightarrow> (bool \<times> session \<times> trace) option" where
  "transport_session_allows_command cmd s t = do {
     (s, t) \<leftarrow> expire_stale_claim s t;
     if is_transport_session_connect cmd then
       Some (s_active_source s = EMW_TRANSPORT_SOURCE_NONE \<or> s_active_source s = cmd_source cmd, s, t)
     else if is_transport_session_status cmd \<or> is_allowed_discovery_command cmd then Some (True, s, t)
     else if s_active_source s = EMW_TRANSPORT_SOURCE_NONE then Some (False, s, t)
     else if s_active_source s \<noteq> cmd_source cmd then Some (False, s, t)
     else do {
       (now, t) \<leftarrow> rd t;
       Some (True, s\<lparr>s_last_activity_tick := now\<rparr>, t) } }"

definition transport_session_allows_stream :: "u8 \<Rightarrow> session \<Rightarrow> trace \<Rightarrow> (bool \<times> session \<times> trace) option" where
  "transport_session_allows_stream src s t = do {
     (s, t) \<leftarrow> expire_stale_claim s t;
     Some (s_active_source s \<noteq> EMW_TRANSPORT_SOURCE_NONE \<and> s_active_source s = src, s, t) }"

definition transport_session_active_source :: "session \<Rightarrow> trace \<Rightarrow> (u8 \<times> session \<times> trace) option" where
  "transport_session_active_source s t = do {
     (s, t) \<leftarrow> expire_stale_claim s t;
     Some (s_active_source s, s, t) }"

definition transport_session_connect :: "u8 \<Rightarrow> session \<Rightarrow> trace \<Rightarrow> (bool \<times> session \<times> trace) option" where
  "transport_session_connect src s t = do {
     (s, t) \<leftarrow> expire_stale_claim s t;
     if src = EMW_TRANSPORT_SOURCE_NONE then Some (False, s, t)
     else if s_active_source s \<noteq> EMW_TRANSPORT_SOURCE_NONE \<and> s_active_source s \<noteq> src then Some (False, s, t)
     else do {
       let s = s\<lparr>s_active_source := src\<rparr>;
       (now, t) \<leftarrow> rd t;
       Some (True, s\<lparr>s_last_activity_tick := now\<rparr>, t) } }"

definition transport_session_disconnect :: "u8 \<Rightarrow> session \<Rightarrow> trace \<Rightarrow> (bool \<times> session \<times> trace) option" where
  "transport_session_disconnect src s t = do {
     (s, t) \<leftarrow> expire_stale_claim s t;
     if s_active_source s = EMW_TRANSPORT_SOURCE_NONE then Some (True, s, t)
     else if s_active_source s \<noteq> src then Some (False, s, t)
     else Some (True, s\<lparr>s_active_source := EMW_TRANSPORT_SOURCE_NONE\<rparr>, t) }"

definition transport_session_heartbeat :: "u8 \<Rightarrow> session \<Rightarrow> trace \<Rightarrow> (bool \<times> session \<times> trace) option" where
  "transport_session_heartbeat src s t = do {
     (s, t) \<leftarrow> expire_stale_claim s t;
     if s_active_source s \<noteq> src \<or> src = EMW_TRANSPORT_SOURCE_NONE then Some (False, s, t)
     else do {
       (now, t) \<leftarrow> rd t;
       Some (True, s\<lparr>s_last_activity_tick := now\<rparr>, t) } }"

lemmas session_defs = expire_stale_claim_def transport_session_allows_command_def transport_session_allows_stream_def
  transport_session_active_source_def transport_session_connect_def transport_session_disconnect_def transport_session_heartbeat_def

section \<open>The abstract claim\<close>

text \<open>
  The promise: a claim belongs to one source and dates from an instant on an unbounded clock; it
  lapses when more than 500 ticks have passed. The calls are those of the other modules, each at
  one instant.
\<close>

datatype sess_call = Allow command_t | Stream u8 | Connect u8 | Disconnect u8 | Heartbeat u8

fun sess_do :: "sess_call \<Rightarrow> session \<Rightarrow> trace \<Rightarrow> (bool \<times> session \<times> trace) option" where
  "sess_do (Allow cmd) s t = transport_session_allows_command cmd s t"
| "sess_do (Stream src) s t = transport_session_allows_stream src s t"
| "sess_do (Connect src) s t = transport_session_connect src s t"
| "sess_do (Disconnect src) s t = transport_session_disconnect src s t"
| "sess_do (Heartbeat src) s t = transport_session_heartbeat src s t"

type_synonym claim = "(u8 \<times> nat) option"

definition lapse :: "nat \<Rightarrow> claim \<Rightarrow> claim" where
  "lapse now c = (case c of None \<Rightarrow> None | Some (src, since) \<Rightarrow> if now - since > 500 then None else c)"

definition holder :: "claim \<Rightarrow> u8 \<Rightarrow> bool" where
  "holder c src \<longleftrightarrow> (\<exists>since. c = Some (src, since))"

fun claim_do :: "nat \<Rightarrow> sess_call \<Rightarrow> claim \<Rightarrow> bool \<times> claim" where
  "claim_do now (Allow cmd) c =
     (let c = lapse now c in
      if is_transport_session_connect cmd then (c = None \<or> holder c (cmd_source cmd), c)
      else if is_transport_session_status cmd \<or> is_allowed_discovery_command cmd then (True, c)
      else if holder c (cmd_source cmd) then (True, Some (cmd_source cmd, now))
      else (False, c))"
| "claim_do now (Stream src) c = (holder (lapse now c) src, lapse now c)"
| "claim_do now (Connect src) c =
     (let c = lapse now c in
      if src \<noteq> 0 \<and> (c = None \<or> holder c src) then (True, Some (src, now)) else (False, c))"
| "claim_do now (Disconnect src) c =
     (let c = lapse now c in if c = None \<or> holder c src then (True, None) else (False, c))"
| "claim_do now (Heartbeat src) c =
     (let c = lapse now c in if holder c src then (True, Some (src, now)) else (False, c))"

text \<open>The 32-bit session represents a claim; the clock may have wrapped.\<close>

definition represents :: "session \<Rightarrow> claim \<Rightarrow> bool" where
  "represents s c \<longleftrightarrow>
     (case c of None \<Rightarrow> s_active_source s = 0
      | Some (src, since) \<Rightarrow> src \<noteq> 0 \<and> s_active_source s = src \<and> s_last_activity_tick s = of_nat since)"

lemma stale_iff:
  assumes "since \<le> now" "now - since < 2 ^ 32"
  shows "(of_nat now - of_nat since :: u32) > timeout_ticks \<longleftrightarrow> now - since > 500"
proof -
  have "(of_nat now - of_nat since :: u32) = of_nat (now - since)" using assms(1) by simp
  moreover have "unat timeout_ticks = 500" by (simp add: timeout_ticks_def)
  ultimately show ?thesis using assms(2) by (simp add: word_less_nat_alt unat_of_nat)
qed

text \<open>Every read of the clock during the call returns the same instant.\<close>

lemma sess_do_refines:
  assumes "represents s c" "\<And>src since. c = Some (src, since) \<Longrightarrow> since \<le> now \<and> now - since < 2 ^ 32"
  shows "\<exists>s' t'. sess_do k s (of_nat now # of_nat now # t) = Some (fst (claim_do now k c), s', t') \<and>
    represents s' (snd (claim_do now k c))"
proof (cases c)
  case None
  then show ?thesis
    using assms(1) by (cases k) (auto simp: represents_def session_defs lapse_def holder_def source_defs Let_def)
next
  case (Some p)
  obtain src since where p: "p = (src, since)" by (cases p)
  have s: "src \<noteq> 0" "s_active_source s = src" "s_last_activity_tick s = of_nat since"
    using assms(1) Some p by (simp_all add: represents_def)
  have st: "(of_nat now - of_nat since :: u32) > timeout_ticks \<longleftrightarrow> now - since > 500"
    using assms(2) Some p stale_iff by blast
  show ?thesis
    using s st Some p by (cases k) (auto simp: represents_def session_defs lapse_def holder_def source_defs Let_def)
qed

section \<open>Runs of calls\<close>

fun sess_run :: "(nat \<times> sess_call) list \<Rightarrow> session \<Rightarrow> (bool list \<times> session) option" where
  "sess_run [] s = Some ([], s)"
| "sess_run ((n, k) # ks) s = do {
     (r, s, t) \<leftarrow> sess_do k s [of_nat n, of_nat n];
     (rs, s) \<leftarrow> sess_run ks s;
     Some (r # rs, s) }"

fun claim_run :: "(nat \<times> sess_call) list \<Rightarrow> claim \<Rightarrow> bool list \<times> claim" where
  "claim_run [] c = ([], c)"
| "claim_run ((n, k) # ks) c =
     (let (r, c) = claim_do n k c; (rs, c) = claim_run ks c in (r # rs, c))"

text \<open>Calls in the order of time, never further apart than the 32-bit clock can tell.\<close>

fun paced :: "nat \<Rightarrow> (nat \<times> sess_call) list \<Rightarrow> bool" where
  "paced n [] \<longleftrightarrow> True"
| "paced n ((m, k) # ks) \<longleftrightarrow> n \<le> m \<and> m - n < 2 ^ 32 - 500 \<and> paced m ks"

definition recent :: "nat \<Rightarrow> claim \<Rightarrow> bool" where
  "recent n c \<longleftrightarrow> (\<forall>src since. c = Some (src, since) \<longrightarrow> since \<le> n \<and> n - since \<le> 500)"

lemma recent_lapse: "(\<And>src since. c = Some (src, since) \<Longrightarrow> since \<le> n) \<Longrightarrow> recent n (lapse n c)"
  by (auto simp: recent_def lapse_def split: option.splits if_splits)

lemma recent_claim_do: "(\<And>src since. c = Some (src, since) \<Longrightarrow> since \<le> n) \<Longrightarrow> recent n (snd (claim_do n k c))"
  using recent_lapse [of c n] by (cases k) (auto simp: Let_def recent_def)

lemma sess_run_refines:
  "paced n ks \<Longrightarrow> represents s c \<Longrightarrow> recent n c \<Longrightarrow>
   \<exists>s'. sess_run ks s = Some (fst (claim_run ks c), s') \<and> represents s' (snd (claim_run ks c))"
proof (induction ks arbitrary: n s c)
  case (Cons x ks)
  obtain m k where x: "x = (m, k)" by (cases x)
  have r: "since \<le> m \<and> m - since < 2 ^ 32" if "c = Some (src, since)" for src since
    using Cons.prems that x by (fastforce simp: recent_def)
  obtain s1 t1 where s1: "sess_do k s [of_nat m, of_nat m] = Some (fst (claim_do m k c), s1, t1)" "represents s1 (snd (claim_do m k c))"
    using sess_do_refines [OF Cons.prems(2), of m k "[]"] r by auto
  have "recent m (snd (claim_do m k c))" using recent_claim_do r by blast
  then obtain s2 where "sess_run ks s1 = Some (fst (claim_run ks (snd (claim_do m k c))), s2)"
    "represents s2 (snd (claim_run ks (snd (claim_do m k c))))"
    using Cons.IH [OF _ s1(2)] Cons.prems(1) x by auto
  then show ?case using s1(1) x by (simp add: Let_def split_beta)
qed simp

section \<open>Properties\<close>

text \<open>C16: The session code with its wrapping 32-bit clock refines the claim on an unbounded clock: for
  any sequence of calls by any sources, at most 2^32 - 501 ticks apart, every call returns exactly
  what the abstract claim grants.\<close>

theorem session_refines_claim:
  assumes "paced n ks" "s_active_source s = EMW_TRANSPORT_SOURCE_NONE"
  shows "\<exists>s'. sess_run ks s = Some (fst (claim_run ks None), s') \<and> represents s' (snd (claim_run ks None))"
  using sess_run_refines [OF assms(1), of s None] assms(2) by (simp add: represents_def recent_def source_defs)

definition no_claim :: session where
  "no_claim = \<lparr>s_active_source = 0, s_last_activity_tick = 0\<rparr>"

text \<open>A claim across the wrap of the clock, renewed, contested and taken over.\<close>

theorem session_refines_claim_witness:
  "\<exists>s'. sess_run [(4294967290, Connect 1), (4294967700, Heartbeat 1), (4294967800, Connect 3), (4294968300, Connect 3)] no_claim =
     Some ([True, True, False, True], s')"
  using session_refines_claim [of 4294967290 "[(4294967290, Connect 1), (4294967700, Heartbeat 1), (4294967800, Connect 3), (4294968300, Connect 3)]" no_claim]
  by (auto simp: no_claim_def source_defs Let_def lapse_def holder_def simp del: sess_run.simps)

text \<open>The source a call acts for, and the calls that are free for everybody.\<close>

fun caller :: "sess_call \<Rightarrow> u8" where
  "caller (Allow cmd) = cmd_source cmd"
| "caller (Stream src) = src"
| "caller (Connect src) = src"
| "caller (Disconnect src) = src"
| "caller (Heartbeat src) = src"

fun is_free :: "sess_call \<Rightarrow> bool" where
  "is_free (Allow cmd) = is_allowed_discovery_command cmd"
| "is_free _ = False"

lemma status_free: "is_transport_session_status cmd \<Longrightarrow> is_allowed_discovery_command cmd"
  by (simp add: is_transport_session_status_def is_allowed_discovery_command_def)

lemma connect_not_free: "is_transport_session_connect cmd \<Longrightarrow> \<not> is_allowed_discovery_command cmd"
  by (simp add: is_transport_session_connect_def is_allowed_discovery_command_def)

text \<open>While a source holds a claim that is less than five seconds old, no call made for another
  source changes the session, and none is granted except the read-only discovery commands.\<close>

theorem session_exclusive:
  assumes "s_active_source s = a" "a \<noteq> EMW_TRANSPORT_SOURCE_NONE" "\<forall>now \<in> set t. now - s_last_activity_tick s \<le> timeout_ticks"
    and "caller k \<noteq> a" "sess_do k s t = Some (r, s', t')"
  shows "s' = s \<and> (r \<longrightarrow> is_free k)"
proof -
  have e: "expire_stale_claim s t = Some (s, tl t) \<and> t \<noteq> []" if "expire_stale_claim s t \<noteq> None"
    using that assms(1-3) by (cases t) (auto simp: expire_stale_claim_def)
  show ?thesis
    using assms e status_free connect_not_free
    by (cases k; cases "expire_stale_claim s t") (auto simp: transport_session_allows_command_def transport_session_allows_stream_def
        transport_session_connect_def transport_session_disconnect_def transport_session_heartbeat_def split: if_splits)
qed

theorem session_exclusive_witness:
  "sess_do (Connect 3) \<lparr>s_active_source = 1, s_last_activity_tick = 100\<rparr> [600, 600] =
     Some (False, \<lparr>s_active_source = 1, s_last_activity_tick = 100\<rparr>, [600])"
proof -
  let ?s = "\<lparr>s_active_source = 1, s_last_activity_tick = 100\<rparr>"
  have "\<exists>r s'. sess_do (Connect 3) ?s [600, 600] = Some (r, s', [600])"
    by (auto simp: session_defs source_defs timeout_ticks_def)
  then obtain r s' where d: "sess_do (Connect 3) ?s [600, 600] = Some (r, s', [600])" by blast
  show ?thesis using session_exclusive [OF refl _ _ _ d] d by (simp add: source_defs timeout_ticks_def)
qed

end
