(* ===== verification/Esp_Usb.thy ===== *)
theory Esp_Usb
  imports Esp_Session Usb_Midi
begin

text \<open>
  The USB transport of the ESP32 firmware (\<open>src/esp/main/libraries/usb.c\<close>): its own copy of the
  7-bit codec, the assembler of SysEx frames from USB-MIDI event packets, the receive ring of the
  retransmit path and the sender with its parked response. TinyUSB is below the model: what the
  stack reports (mounted, mutex taken, bytes accepted) is read from the trace, and
  \<open>usb_stream\<close> logs the bytes the MIDI stream accepted. Buffer types are the enumeration of \<open>Usb_Midi\<close>.
\<close>

section \<open>State\<close>

datatype esp_err = ESP_OK | ESP_FAIL | ESP_ERR_TIMEOUT | ESP_ERR_INVALID_STATE

record esp_usb =
  sess :: session
  cmd_queue :: "command_t list"
  s_usb_ready :: bool
  s_rx_buffer :: "u8 list"
  s_rx_head :: u16
  s_rx_tail :: u16
  s_buffer_type :: EMW_Buffer_Type
  s_pending_cmd_lane :: "u8 list"
  s_pending_cmd_ready :: bool
  s_pending_bs_status :: u16
  s_pending_bs_ready :: bool
  usb_stream :: "u8 list list"

section \<open>The codec\<close>

function esp_decode_group :: "u8 list \<Rightarrow> u8 \<Rightarrow> nat \<Rightarrow> nat \<Rightarrow> u8 list \<Rightarrow> (nat \<times> u8 list) option" where
  "esp_decode_group inp prefix j in_pos out =
     (if \<not> (j < 7 \<and> length out < 36) then Some (in_pos, out)
      else if in_pos \<ge> 42 then None
      else
        let v = inp ! in_pos AND 0x7F;
            v = (if prefix AND push_bit j 1 \<noteq> 0 then v OR 0x80 else v)
        in esp_decode_group inp prefix (j + 1) (in_pos + 1) (out @ [v]))"
  by pat_completeness auto
termination
  by (relation "measure (\<lambda>(inp, prefix, j, in_pos, out). 7 - j)") auto

declare esp_decode_group.simps [simp del]

lemma esp_decode_group_eq: "esp_decode_group inp prefix j p out = decode_group inp prefix j p out"
proof (induction inp prefix j p out rule: esp_decode_group.induct)
  case (1 inp prefix j p out)
  then show ?case
    by (subst esp_decode_group.simps, subst decode_group.simps) (simp add: Let_def)
qed

function esp_decode_loop :: "u8 list \<Rightarrow> nat \<Rightarrow> u8 list \<Rightarrow> u8 list option" where
  "esp_decode_loop inp in_pos out =
     (if \<not> (in_pos < 42 \<and> length out < 36) then (if length out = 36 then Some out else None)
      else case esp_decode_group inp (inp ! in_pos) 0 (in_pos + 1) out of
             None \<Rightarrow> None
           | Some (in_pos, out) \<Rightarrow> esp_decode_loop inp in_pos out)"
  by pat_completeness auto
termination
  by (relation "measure (\<lambda>(inp, in_pos, out). 42 - in_pos)")
     (auto simp: esp_decode_group_eq dest!: decode_group_progress)

declare esp_decode_loop.simps [simp del]

definition esp_decode_payload_7bit_fixed :: "u8 list \<Rightarrow> u8 list option" where
  "esp_decode_payload_7bit_fixed inp = esp_decode_loop inp 0 []"

text \<open>One group of the encoder, with the chunk array of seven bytes and its length.\<close>

function esp_encode_group :: "u8 list \<Rightarrow> nat \<Rightarrow> nat \<Rightarrow> u8 \<Rightarrow> u8 list \<Rightarrow> nat \<Rightarrow> nat \<times> u8 \<times> u8 list \<times> nat" where
  "esp_encode_group inp j in_pos prefix chunk chunk_len =
     (if \<not> (j < 7 \<and> in_pos < 36) then (in_pos, prefix, chunk, chunk_len)
      else
        let val = inp ! in_pos;
            prefix = (if val AND 0x80 \<noteq> 0 then prefix OR push_bit j 1 else prefix);
            chunk = chunk[j := val AND 0x7F]
        in esp_encode_group inp (j + 1) (in_pos + 1) prefix chunk (chunk_len + 1))"
  by pat_completeness auto
termination
  by (relation "measure (\<lambda>(inp, j, in_pos, prefix, chunk, chunk_len). 7 - j)") auto

declare esp_encode_group.simps [simp del]

lemma esp_encode_group_eq:
  "length chunk = 7 \<Longrightarrow> j \<le> 7 \<Longrightarrow>
   (case esp_encode_group inp j p prefix chunk j of (p', prefix', chunk', n') \<Rightarrow>
      length chunk' = 7 \<and> n' \<le> 7 \<and> encode_group inp j p prefix (take j chunk) = (p', prefix', take n' chunk'))"
proof (induction "7 - j" arbitrary: j p prefix chunk)
  case 0
  then show ?case by (simp add: esp_encode_group.simps encode_group.simps)
next
  case (Suc m)
  have j: "j < 7" "m = 7 - (j + 1)" using Suc(2) by simp_all
  show ?case
  proof (cases "p < 36")
    case True
    have "take (j + 1) (chunk[j := inp ! p AND 0x7F]) = take j chunk @ [inp ! p AND 0x7F]"
      using Suc.prems j by (simp add: take_Suc_conv_app_nth)
    with Suc.hyps(1) [OF j(2), of "chunk[j := inp ! p AND 0x7F]" "p + 1" "if inp ! p AND 0x80 \<noteq> 0 then prefix OR push_bit j 1 else prefix"]
    show ?thesis
      using True j Suc.prems
      by (subst esp_encode_group.simps, subst encode_group.simps) (simp add: Let_def)
  next
    case False
    then show ?thesis using Suc.prems j by (simp add: esp_encode_group.simps encode_group.simps)
  qed
qed

lemma esp_encode_group_progress: "(q, x) = esp_encode_group inp 0 p 0 (zeros 7) 0 \<Longrightarrow> p < 36 \<Longrightarrow> p < q"
  using esp_encode_group_eq [of "zeros 7" 0 inp p 0] encode_group_progress [of inp p 0 "[]" q]
  by (cases x) (auto split: prod.splits)

function esp_encode_loop :: "u8 list \<Rightarrow> nat \<Rightarrow> u8 list \<Rightarrow> u8 list" where
  "esp_encode_loop inp in_pos out =
     (if \<not> (in_pos < 36 \<and> length out < 42) then out
      else case esp_encode_group inp 0 in_pos 0 (zeros 7) 0 of
             (in_pos, prefix, chunk, chunk_len) \<Rightarrow> esp_encode_loop inp in_pos ((out @ [prefix]) @ take chunk_len chunk))"
  by pat_completeness auto
termination
  by (relation "measure (\<lambda>(inp, in_pos, out). 36 - in_pos)")
     (auto dest!: esp_encode_group_progress)

declare esp_encode_loop.simps [simp del]

definition esp_encode_payload_7bit_fixed :: "u8 list \<Rightarrow> u8 list" where
  "esp_encode_payload_7bit_fixed inp = esp_encode_loop inp 0 []"

lemma esp_decode_loop_eq: "esp_decode_loop inp p out = decode_loop inp p out"
proof (induction inp p out rule: esp_decode_loop.induct)
  case (1 inp p out)
  then show ?case
    by (subst esp_decode_loop.simps, subst decode_loop.simps) (auto simp: esp_decode_group_eq split: option.splits)
qed

lemma esp_encode_loop_eq: "esp_encode_loop inp p out = encode_loop inp p out"
proof (induction inp p out rule: esp_encode_loop.induct)
  case (1 inp p out)
  show ?case
  proof (cases "p < 36 \<and> length out < 42")
    case False
    then show ?thesis by (subst esp_encode_loop.simps, subst encode_loop.simps) auto
  next
    case True
    obtain q prefix chunk n where g: "esp_encode_group inp 0 p 0 (zeros 7) 0 = (q, prefix, chunk, n)"
      by (metis prod_cases4)
    then have "encode_group inp 0 p 0 [] = (q, prefix, take n chunk)"
      using esp_encode_group_eq [of "zeros 7" 0 inp p 0] by simp
    with "1.IH" [OF _ g [symmetric] refl refl] g True show ?thesis
      by (subst esp_encode_loop.simps, subst encode_loop.simps) simp
  qed
qed

lemma esp_codec_eq:
  "esp_decode_payload_7bit_fixed = decode_payload_7bit_fixed" "esp_encode_payload_7bit_fixed = encode_payload_7bit_fixed"
  by (simp_all add: fun_eq_iff esp_decode_payload_7bit_fixed_def decode_payload_7bit_fixed_def esp_decode_loop_eq
      esp_encode_payload_7bit_fixed_def encode_payload_7bit_fixed_def esp_encode_loop_eq)

section \<open>The receive ring\<close>

definition usb_init_rx_buffer :: "esp_usb \<Rightarrow> esp_usb" where
  "usb_init_rx_buffer e = e\<lparr>s_rx_buffer := zeros 512, s_rx_head := 0, s_rx_tail := 0\<rparr>"

definition usb_flush_rx_buffer :: "esp_usb \<Rightarrow> esp_usb" where
  "usb_flush_rx_buffer e = usb_init_rx_buffer e"

definition usb_free_rx_buffer :: "esp_usb \<Rightarrow> esp_usb" where
  "usb_free_rx_buffer e = e\<lparr>s_rx_head := 0, s_rx_tail := 0\<rparr>"

definition usb_set_buffer_type :: "EMW_Buffer_Type \<Rightarrow> esp_usb \<Rightarrow> esp_usb" where
  "usb_set_buffer_type bt e = e\<lparr>s_buffer_type := bt\<rparr>"

text \<open>The index arithmetic is done in 32 bits.\<close>

definition usb_get_rx_buffer_bytes_available :: "esp_usb \<Rightarrow> u16" where
  "usb_get_rx_buffer_bytes_available e = ucast ((ucast (s_rx_head e) + 512 - ucast (s_rx_tail e) :: u32) mod 512)"

definition esp_next :: "u16 \<Rightarrow> u16" where
  "esp_next pos = ucast ((ucast pos + 1 :: u32) mod 512)"

fun esp_store :: "u8 list \<Rightarrow> u16 \<Rightarrow> u16 \<Rightarrow> u8 list \<Rightarrow> u8 list \<times> u16 option" where
  "esp_store buf tail next_head [] = (buf, Some next_head)"
| "esp_store buf tail next_head (b # bs) =
     (let buf = buf[unat next_head := b]; next_head = esp_next next_head
      in if next_head = tail then (buf, None) else esp_store buf tail next_head bs)"

text \<open>\<open>Some\<close> is \<open>true\<close> with the bytes available.\<close>

definition usb_ingest_stream_lane :: "u8 list \<Rightarrow> esp_usb \<Rightarrow> u16 option \<times> esp_usb" where
  "usb_ingest_stream_lane lane e =
     (if s_buffer_type e \<noteq> EMW_BUFFER_CIRCULAR then (None, e)
      else case esp_store (s_rx_buffer e) (s_rx_tail e) (s_rx_head e) lane of
             (buf, None) \<Rightarrow> (None, e\<lparr>s_rx_buffer := buf\<rparr>)
           | (buf, Some next_head) \<Rightarrow>
               let e = e\<lparr>s_rx_buffer := buf, s_rx_head := next_head\<rparr>
               in (Some (usb_get_rx_buffer_bytes_available e), e))"

fun esp_read :: "nat \<Rightarrow> esp_usb \<Rightarrow> u8 list \<times> esp_usb" where
  "esp_read 0 e = ([], e)"
| "esp_read (Suc n) e =
     (let b = s_rx_buffer e ! unat (s_rx_tail e); (bs, e) = esp_read n (e\<lparr>s_rx_tail := esp_next (s_rx_tail e)\<rparr>)
      in (b # bs, e))"

definition usb_read_rx_buffer :: "u16 \<Rightarrow> esp_usb \<Rightarrow> u8 list option \<times> esp_usb" where
  "usb_read_rx_buffer len e =
     (if usb_get_rx_buffer_bytes_available e < len then (None, e)
      else let (bs, e) = esp_read (unat len) e in (Some bs, e))"

text \<open>The ring of the STM32 firmware with the same contents.\<close>

definition as_ring :: "esp_usb \<Rightarrow> rx_ring" where
  "as_ring e = \<lparr>rxBuffer = s_rx_buffer e, rxBufferHeadPos = s_rx_head e, rxBufferTailPos = s_rx_tail e\<rparr>"

definition with_ring :: "esp_usb \<Rightarrow> rx_ring \<Rightarrow> esp_usb" where
  "with_ring e r = e\<lparr>s_rx_buffer := rxBuffer r, s_rx_head := rxBufferHeadPos r, s_rx_tail := rxBufferTailPos r\<rparr>"

lemma unat_ucast_16_32 [simp]: "unat (ucast (x :: u16) :: u32) = unat x"
proof -
  have "unat x < 2 ^ LENGTH(16)" by (rule unsigned_less)
  then show ?thesis by (simp add: unsigned_ucast_eq take_bit_nat_eq_self)
qed

lemma unat_ucast_32_16: "unat (y :: u32) < 65536 \<Longrightarrow> unat (ucast y :: u16) = unat y"
  by (simp add: unsigned_ucast_eq take_bit_nat_eq_self)

lemma esp_next_eq: "esp_next pos = (pos + 1) mod 512"
proof -
  have b: "unat pos < 65536" using unsigned_less [of pos] by simp
  have a: "unat ((ucast pos + 1 :: u32) mod 512) = (unat pos + 1) mod 512"
    using b by (simp add: unat_mod unat_word_ariths)
  have "unat (esp_next pos) = (unat pos + 1) mod 512"
    unfolding esp_next_def using a by (subst unat_ucast_32_16) auto
  moreover have "unat ((pos + 1) mod 512) = (unat pos + 1) mod 512"
    by (simp add: unat_mod unat_word_ariths mod_mod_cancel)
  ultimately show ?thesis by (metis unsigned_word_eqI)
qed

lemma esp_available_eq:
  assumes "rx_wf (as_ring e)"
  shows "usb_get_rx_buffer_bytes_available e = MIDI_GetRxBufferBytesAvailable_FS (as_ring e)"
proof -
  have w: "s_rx_head e < 512" "s_rx_tail e < 512" using assms by (simp_all add: rx_wf_def as_ring_def)
  then have b: "unat (s_rx_head e) < 512" "unat (s_rx_tail e) < 512" by (simp_all add: word_less_nat_alt)
  let ?x = "ucast (s_rx_head e) + 512 :: u32"
  have x: "unat ?x = unat (s_rx_head e) + 512" using b by (simp add: unat_word_ariths)
  have "unat (?x - ucast (s_rx_tail e)) = unat (s_rx_head e) + 512 - unat (s_rx_tail e)"
    using b x by (subst unat_sub) (simp_all add: word_le_nat_alt)
  then have y: "unat ((?x - ucast (s_rx_tail e)) mod 512) = (unat (s_rx_head e) + 512 - unat (s_rx_tail e)) mod 512"
    by (simp add: unat_mod)
  then have "unat (usb_get_rx_buffer_bytes_available e) = (unat (s_rx_head e) + 512 - unat (s_rx_tail e)) mod 512"
    unfolding usb_get_rx_buffer_bytes_available_def by (subst unat_ucast_32_16) auto
  then have "unat (usb_get_rx_buffer_bytes_available e) = unat (MIDI_GetRxBufferBytesAvailable_FS (as_ring e))"
    unfolding MIDI_GetRxBufferBytesAvailable_FS_def as_ring_def using unat_diff_mod512 [OF w] by simp
  then show ?thesis by (metis unsigned_word_eqI)
qed

lemma esp_store_eq: "esp_store buf tail temp bs = rx_store buf tail temp bs"
  by (induction bs arbitrary: buf temp) (simp_all add: esp_next_eq Let_def)

lemma esp_read_eq:
  "esp_read n e = (let (bs, t) = rx_take (s_rx_buffer e) (s_rx_tail e) n in (bs, e\<lparr>s_rx_tail := t\<rparr>))"
  by (induction n arbitrary: e) (simp_all add: esp_next_eq Let_def split_beta)

lemma with_ring_simps [simp]: "as_ring (with_ring e r) = r" "with_ring e (as_ring e) = e"
  by (simp_all add: as_ring_def with_ring_def)

text \<open>Both operations are those of the STM32 ring.\<close>

lemma esp_ingest_eq:
  assumes "s_buffer_type e = EMW_BUFFER_CIRCULAR"
  shows "fst (usb_ingest_stream_lane lane e) \<noteq> None \<longleftrightarrow> fst (rx_append_lane lane (as_ring e))"
    "snd (usb_ingest_stream_lane lane e) = with_ring e (snd (rx_append_lane lane (as_ring e)))"
  using assms by (auto simp: usb_ingest_stream_lane_def rx_append_lane_def esp_store_eq as_ring_def with_ring_def Let_def
      split: prod.splits option.splits)

lemma esp_read_ring_eq:
  assumes "rx_wf (as_ring e)"
  shows "usb_read_rx_buffer len e =
    (let (r, q) = MIDI_ReadRxBuffer_FS len (as_ring e) in (r, with_ring e q))"
  using esp_available_eq [OF assms] assms
  by (simp add: usb_read_rx_buffer_def MIDI_ReadRxBuffer_FS_def esp_read_eq as_ring_def with_ring_def Let_def split: prod.splits)

definition esp_fifo_inv :: "esp_usb \<Rightarrow> bool" where
  "esp_fifo_inv e \<longleftrightarrow> rx_wf (as_ring e) \<and> s_buffer_type e = EMW_BUFFER_CIRCULAR"

definition esp_push :: "u8 list \<Rightarrow> esp_usb \<Rightarrow> bool \<times> esp_usb" where
  "esp_push lane e = (let (r, e) = usb_ingest_stream_lane lane e in (r \<noteq> None, e))"

lemma esp_push_eq: "s_buffer_type e = EMW_BUFFER_CIRCULAR \<Longrightarrow>
    esp_push lane e = (fst (rx_append_lane lane (as_ring e)), with_ring e (snd (rx_append_lane lane (as_ring e))))"
  using esp_ingest_eq [of e lane] by (auto simp: esp_push_def split: prod.splits)

lemma with_ring_type [simp]: "s_buffer_type (with_ring e r) = s_buffer_type e"
  by (simp add: with_ring_def)

interpretation esp_ring: byte_fifo esp_fifo_inv "\<lambda>e. rx_contents (as_ring e)" esp_push
    "\<lambda>n. usb_read_rx_buffer (of_nat n)" 512 "\<lambda>_. True" "\<lambda>n. n < 65536"
proof (unfold_locales, goal_cases)
  case (1 e xs)
  then show ?case using stm_ring.inv_push [of "as_ring e" xs] by (simp add: esp_fifo_inv_def esp_push_eq)
next
  case (2 e xs)
  then show ?case using stm_ring.push_fits [of "as_ring e" xs] by (simp add: esp_fifo_inv_def esp_push_eq)
next
  case (3 e xs)
  then show ?case using stm_ring.push_full [of "as_ring e" xs] by (simp add: esp_fifo_inv_def esp_push_eq)
next
  case (4 e n)
  then show ?case
    using stm_ring.inv_pop [of "as_ring e" n] by (auto simp: esp_fifo_inv_def esp_read_ring_eq split: prod.splits)
next
  case (5 e n)
  then show ?case
    using stm_ring.pop_some [of "as_ring e" n] by (auto simp: esp_fifo_inv_def esp_read_ring_eq split: prod.splits)
next
  case (6 e n)
  then show ?case
    using stm_ring.pop_none [of "as_ring e" n] by (auto simp: esp_fifo_inv_def esp_read_ring_eq split: prod.splits)
qed

section \<open>Sending\<close>

definition usb_is_ready :: "esp_usb \<Rightarrow> trace \<Rightarrow> (bool \<times> trace) option" where
  "usb_is_ready e t = (if s_usb_ready e then do { (mounted, t) \<leftarrow> rd t; Some (mounted \<noteq> 0, t) } else Some (False, t))"

definition send_frame :: "u8 list \<Rightarrow> bool \<Rightarrow> esp_usb \<Rightarrow> trace \<Rightarrow> (esp_err \<times> esp_usb \<times> trace) option" where
  "send_frame frame nonblocking e t = do {
     (ready, t) \<leftarrow> usb_is_ready e t;
     if \<not> ready then Some (ESP_ERR_INVALID_STATE, e, t)
     else do {
       (taken, t) \<leftarrow> rd t;
       if taken \<noteq> 1 then Some (if nonblocking then ESP_ERR_TIMEOUT else ESP_FAIL, e, t)
       else do {
         let encoded = esp_encode_payload_7bit_fixed frame;
         let sysex = [0xF0, 0x7D, 0x45, 0x4D, 0x57] @ encoded @ [0xF7];
         (written, t) \<leftarrow> rd t;
         let e = e\<lparr>usb_stream := usb_stream e @ [take (unat written) sysex]\<rparr>;
         Some (if written = 48 then ESP_OK else if nonblocking then ESP_ERR_TIMEOUT else ESP_FAIL, e, t) } } }"

definition fill_frame_from_pending :: "u8 list \<Rightarrow> u8 list option \<Rightarrow> esp_usb \<Rightarrow> u8 list \<times> esp_usb" where
  "fill_frame_from_pending frame stream_lane e =
     (let (frame, e) = (if s_pending_cmd_ready e
                        then (blit frame 0 (s_pending_cmd_lane e), e\<lparr>s_pending_cmd_ready := False\<rparr>)
                        else (frame, e));
          frame = (case stream_lane of None \<Rightarrow> frame | Some lane \<Rightarrow> blit frame 18 lane)
      in (frame, e))"

definition usb_send_cmd_response :: "u8 \<Rightarrow> u8 list \<Rightarrow> esp_usb \<Rightarrow> trace \<Rightarrow> (esp_err \<times> esp_usb \<times> trace) option" where
  "usb_send_cmd_response status payload e t =
     (let lane = blit (zeros 18) 0 (status # take 17 payload) in
      if s_buffer_type e \<noteq> EMW_BUFFER_PACKET
      then Some (ESP_OK, e\<lparr>s_pending_cmd_lane := lane, s_pending_cmd_ready := True\<rparr>, t)
      else send_frame (blit (zeros 36) 0 lane) False e t)"

definition usb_send_stream_lane :: "u8 list \<Rightarrow> bool \<Rightarrow> esp_usb \<Rightarrow> trace \<Rightarrow> (esp_err \<times> esp_usb \<times> trace) option" where
  "usb_send_stream_lane stream_lane nonblocking e t =
     (let (frame, e) = fill_frame_from_pending (zeros 36) (Some stream_lane) e in send_frame frame nonblocking e t)"

definition usb_queue_status_packet :: "u16 \<Rightarrow> esp_usb \<Rightarrow> esp_usb" where
  "usb_queue_status_packet status e = e\<lparr>s_pending_bs_status := status, s_pending_bs_ready := True\<rparr>"

definition send_status_frame :: "u16 \<Rightarrow> bool \<Rightarrow> esp_usb \<Rightarrow> trace \<Rightarrow> (esp_err \<times> esp_usb \<times> trace) option" where
  "send_status_frame status nonblocking e t =
     (let frame = blit (zeros 36) 18 [0x42, 0x53, ucast (drop_bit 8 status), ucast (status AND 0xFF)];
          (frame, e) = fill_frame_from_pending frame None e
      in send_frame frame nonblocking e t)"

definition usb_poll_tx :: "esp_usb \<Rightarrow> trace \<Rightarrow> (esp_usb \<times> trace) option" where
  "usb_poll_tx e t =
     (if \<not> s_pending_bs_ready e then Some (e, t)
      else do {
        (err, e, t) \<leftarrow> send_status_frame (s_pending_bs_status e) True e t;
        Some (if err = ESP_OK then e\<lparr>s_pending_bs_ready := False\<rparr> else e, t) })"

section \<open>Receiving\<close>

text \<open>The command queue holds ten commands; a lane that finds it full is dropped.\<close>

definition queue_cmd :: "command_t \<Rightarrow> esp_usb \<Rightarrow> esp_usb" where
  "queue_cmd cmd e = (if length (cmd_queue e) < 10 then e\<lparr>cmd_queue := cmd_queue e @ [cmd]\<rparr> else e)"

definition usb_command :: "u8 list \<Rightarrow> command_t" where
  "usb_command lane = \<lparr>cmd_data = blit (zeros 256) 0 lane, cmd_length = 18, cmd_source = EMW_COMMAND_SOURCE_USB\<rparr>"

definition ingest_stream :: "u8 list \<Rightarrow> esp_usb \<Rightarrow> trace \<Rightarrow> (esp_usb \<times> trace) option" where
  "ingest_stream stream_lane e t =
     (if s_buffer_type e \<noteq> EMW_BUFFER_CIRCULAR then Some (e, t)
      else do {
        (ok, s, t) \<leftarrow> transport_session_allows_stream EMW_COMMAND_SOURCE_USB (sess e) t;
        let e = e\<lparr>sess := s\<rparr>;
        Some (if \<not> ok then e
              else case usb_ingest_stream_lane stream_lane e of
                     (None, e) \<Rightarrow> e
                   | (Some bytes_available, e) \<Rightarrow> usb_queue_status_packet bytes_available e, t) })"

definition process_sysex_frame :: "u8 list \<Rightarrow> esp_usb \<Rightarrow> trace \<Rightarrow> (esp_usb \<times> trace) option" where
  "process_sysex_frame sysex e t =
     (if sysex ! 0 \<noteq> 0xF0 \<or> sysex ! 1 \<noteq> 0x7D \<or> sysex ! 2 \<noteq> 0x45 \<or> sysex ! 3 \<noteq> 0x4D \<or> sysex ! 4 \<noteq> 0x57 \<or>
         sysex ! 47 \<noteq> 0xF7 then Some (e, t)
      else case esp_decode_payload_7bit_fixed (take 42 (drop 5 sysex)) of
        None \<Rightarrow> Some (e, t)
      | Some decoded \<Rightarrow> do {
          (e, t) \<leftarrow> ingest_stream (drop 18 decoded) e t;
          let cmd_any = list_ex (\<lambda>b. b \<noteq> 0) (take 18 decoded);
          Some (if \<not> cmd_any then e else queue_cmd (usb_command (take 18 decoded)) e, t) })"

text \<open>One event packet of the receive task, with the bytes assembled so far.\<close>

definition rx_packet :: "u8 list \<Rightarrow> u8 list \<times> esp_usb \<Rightarrow> trace \<Rightarrow> ((u8 list \<times> esp_usb) \<times> trace) option" where
  "rx_packet packet = (\<lambda>(sysex, e) t.
     if sysex = [] \<and> packet ! 1 \<noteq> 0xF0 then Some ((sysex, e), t)
     else if length sysex + 3 > 48 then Some (([], e), t)
     else
       let sysex = sysex @ [packet ! 1, packet ! 2, packet ! 3] in
       if length sysex = 48 then do {
         (e, t) \<leftarrow> process_sysex_frame sysex e t;
         Some (([], e), t) }
       else Some ((sysex, e), t))"

fun rx_packets :: "u8 list list \<Rightarrow> u8 list \<times> esp_usb \<Rightarrow> trace \<Rightarrow> ((u8 list \<times> esp_usb) \<times> trace) option" where
  "rx_packets [] st t = Some (st, t)"
| "rx_packets (p # ps) st t = do { (st, t) \<leftarrow> rx_packet p st t; rx_packets ps st t }"

text \<open>One round of the task: the packets available, then a queued status report.\<close>

definition usb_midi_rx_task :: "u8 list list \<Rightarrow> u8 list \<times> esp_usb \<Rightarrow> trace \<Rightarrow> ((u8 list \<times> esp_usb) \<times> trace) option" where
  "usb_midi_rx_task packets = (\<lambda>(sysex, e) t. do {
     (ready, t) \<leftarrow> rd t;
     ((sysex, e), t) \<leftarrow> rx_packets packets (sysex, e\<lparr>s_usb_ready := (ready \<noteq> 0)\<rparr>) t;
     (e, t) \<leftarrow> usb_poll_tx e t;
     Some ((sysex, e), t) })"

section \<open>Assembling frames\<close>

text \<open>The sixteen event packets that carry a message.\<close>

definition event_packet :: "u8 list \<Rightarrow> nat \<Rightarrow> u8 list" where
  "event_packet m i = [(if i = 15 then 0x7 else 0x4) AND 0x0F, m ! (i * 3), m ! (i * 3 + 1), m ! (i * 3 + 2)]"

lemma usb_pack_packets: "usb_pack m = concat (map (event_packet m) [0..<16])"
  by (simp add: usb_pack_def event_packet_def [abs_def])

lemma event_bytes:
  "a \<le> b \<Longrightarrow> 3 * b \<le> length m \<Longrightarrow>
   concat (map (\<lambda>i. [event_packet m i ! 1, event_packet m i ! 2, event_packet m i ! 3]) [a..<b]) = take (3 * (b - a)) (drop (3 * a) m)"
proof (induction b)
  case (Suc b)
  show ?case
  proof (cases "a = Suc b")
    case False
    then have a: "a \<le> b" using Suc.prems(1) by simp
    have "take (3 * (Suc b - a)) (drop (3 * a) m) = take (3 * (b - a)) (drop (3 * a) m) @ [m ! (3 * b), m ! (3 * b + 1), m ! (3 * b + 2)]"
      using a Suc.prems(2)
      by (simp add: Suc_diff_le take_add [of _ 3] take_Suc_conv_app_nth numeral_3_eq_3)
        (simp add: add.commute add.left_commute mult.commute)?
    then show ?thesis
      using Suc.IH [OF a] Suc.prems(2) a by (simp add: event_packet_def mult.commute numeral_3_eq_3)
  qed simp
qed simp

text \<open>While the frame is not complete, packets are appended; an idle assembler skips what does not start one.\<close>

lemma rx_append:
  assumes "length sysex + 3 * length ps < 48" "sysex \<noteq> [] \<or> (ps \<noteq> [] \<longrightarrow> hd ps ! 1 = 0xF0)"
  shows "rx_packets ps (sysex, e) t = Some ((sysex @ concat (map (\<lambda>p. [p ! 1, p ! 2, p ! 3]) ps), e), t)"
  using assms by (induction ps arbitrary: sysex) (auto simp: rx_packet_def Let_def)

lemma rx_skip: "\<forall>p \<in> set ps. p ! 1 \<noteq> 0xF0 \<Longrightarrow> rx_packets ps ([], e) t = Some (([], e), t)"
  by (induction ps) (simp_all add: rx_packet_def)

lemma rx_packets_append: "rx_packets (ps @ qs) st t = do { (st, t) \<leftarrow> rx_packets ps st t; rx_packets qs st t }"
proof (induction ps arbitrary: st t)
  case (Cons p ps)
  then show ?case by (cases "rx_packet p st t") auto
qed simp

text \<open>A frame message has its start byte at the start and its end byte at the end only.\<close>

lemma message_bytes:
  assumes "length frame = 36"
  defines "m \<equiv> sysex_message (encode_payload_7bit_fixed frame)"
  shows "length m = 48" "m ! 0 = 0xF0" "0 < i \<Longrightarrow> i < 48 \<Longrightarrow> m ! i \<noteq> 0xF0" "i < 47 \<Longrightarrow> m ! i \<noteq> 0xF7"
proof -
  show l: "length m = 48" "m ! 0 = 0xF0" using assms by (simp_all add: sysex_message_def)
  have b: "encode_payload_7bit_fixed frame ! j < 0x80" if "j < 42" for j
    using that assms(1) by (simp add: encode_payload_spec enc7_7bit [OF nth_mem] length_enc7)
  have g: "(as @ bs @ [z]) ! i = (if i < 5 then as ! i else if i < 47 then bs ! (i - 5) else z)"
    if "length as = 5" "length bs = 42" "i < 48" for as bs i and z :: u8
    using that by (auto simp: nth_append)
  have "m ! i = (if i < 5 then [0xF0, 0x7D, 0x45, 0x4D, 0x57] ! i else if i < 47 then encode_payload_7bit_fixed frame ! (i - 5) else 0xF7)" if "i < 48"
    using that g [of "[0xF0, 0x7D, 0x45, 0x4D, 0x57]" "encode_payload_7bit_fixed frame" i "0xF7"] assms
    unfolding m_def sysex_message_def by simp
  note m = this
  have low: "i < 5 \<Longrightarrow> i = 0 \<or> i = 1 \<or> i = 2 \<or> i = 3 \<or> i = 4" by presburger
  have mid: "encode_payload_7bit_fixed frame ! (i - 5) \<noteq> 0xF0 \<and> encode_payload_7bit_fixed frame ! (i - 5) \<noteq> 0xF7" if "\<not> i < 5" "i < 47"
  proof -
    have "i - 5 < 42" using that by simp
    from b [OF this] show ?thesis by auto
  qed
  show "0 < i \<Longrightarrow> i < 48 \<Longrightarrow> m ! i \<noteq> 0xF0" using m mid low by (cases "i < 5"; cases "i < 47") auto
  show "i < 47 \<Longrightarrow> m ! i \<noteq> 0xF7" using m mid low by (cases "i < 5") auto
qed

lemma rx_frame_idle:
  assumes "length frame = 36"
  defines "m \<equiv> sysex_message (encode_payload_7bit_fixed frame)"
  shows "rx_packets (map (event_packet m) [0..<16]) ([], e) t = do { (e, t) \<leftarrow> process_sysex_frame m e t; Some (([], e), t) }"
proof -
  note m = message_bytes [OF assms(1), folded m_def]
  have sp: "map (event_packet m) [0..<16] = map (event_packet m) [0..<15] @ [event_packet m 15]"
    by (simp add: upt_Suc_append [of 0 15, simplified])
  have b15: "concat (map (\<lambda>p. [p ! 1, p ! 2, p ! 3]) (map (event_packet m) [0..<15])) = take 45 m"
    using event_bytes [of 0 15 m] m(1) by (simp add: o_def)
  have hd15: "hd (map (event_packet m) [0..<15]) ! 1 = 0xF0" using m(2) by (simp add: upt_rec event_packet_def)
  have a: "rx_packets (map (event_packet m) [0..<15]) ([], e) t = Some ((take 45 m, e), t)"
    using rx_append [of "[]" "map (event_packet m) [0..<15]" e t] hd15 b15 by simp
  have full: "take 45 m @ [event_packet m 15 ! 1, event_packet m 15 ! 2, event_packet m 15 ! 3] = m"
    using event_bytes [of 15 16 m] m(1) append_take_drop_id [of 45 m] by simp
  have ne: "take 45 m \<noteq> []" using m(1) by force
  have l: "length (take 45 m) = 45" using m(1) by simp
  have "rx_packet (event_packet m 15) (take 45 m, e) t = do { (e, t) \<leftarrow> process_sysex_frame m e t; Some (([], e), t) }"
    unfolding rx_packet_def prod.case using ne l full m(1) by (simp add: Let_def)
  then show ?thesis unfolding sp rx_packets_append a by (cases "process_sysex_frame m e t") auto
qed

lemma rx_frame_busy:
  assumes "length frame = 36" "length sysex = 3 * k" "0 < k" "k < 16"
  defines "m \<equiv> sysex_message (encode_payload_7bit_fixed frame)"
  shows "rx_packets (map (event_packet m) [0..<16]) (sysex, e) t = Some (([], e), t)"
proof -
  note m = message_bytes [OF assms(1), folded m_def]
  let ?j = "15 - k"
  have sp: "map (event_packet m) [0..<16] = map (event_packet m) [0..<?j] @ event_packet m ?j # map (event_packet m) [Suc ?j..<16]"
    using upt_add_eq_append [of 0 ?j "16 - ?j"] assms(3) by (simp add: upt_conv_Cons)
  have bj: "concat (map (\<lambda>p. [p ! 1, p ! 2, p ! 3]) (map (event_packet m) [0..<?j])) = take (3 * ?j) m"
    using event_bytes [of 0 ?j m] m(1) assms(3,4) by (simp add: o_def)
  have ne: "sysex \<noteq> []" using assms(2,3) by auto
  have a: "rx_packets (map (event_packet m) [0..<?j]) (sysex, e) t = Some ((sysex @ take (3 * ?j) m, e), t)"
    using rx_append [of sysex "map (event_packet m) [0..<?j]" e t] ne bj assms(2-4) by simp
  let ?s = "sysex @ take (3 * ?j) m @ [m ! (3 * ?j), m ! (3 * ?j + 1), m ! (3 * ?j + 2)]"
  have l: "length (sysex @ take (3 * ?j) m) = 45" using m(1) assms(2-4) by simp
  have last: "?s ! 47 = m ! (3 * ?j + 2)"
    using nth_append [of "sysex @ take (3 * ?j) m" "[m ! (3 * ?j), m ! (3 * ?j + 1), m ! (3 * ?j + 2)]" 47] l by simp
  have "3 * ?j + 2 < 47" using assms(3,4) by simp
  then have "m ! (3 * ?j + 2) \<noteq> 0xF7" by (rule m(4))
  with last have bad: "process_sysex_frame ?s e t = Some (e, t)" by (simp add: process_sysex_frame_def)
  have ne2: "sysex @ take (3 * ?j) m \<noteq> []" using ne by simp
  have b: "rx_packet (event_packet m ?j) (sysex @ take (3 * ?j) m, e) t = Some (([], e), t)"
    unfolding rx_packet_def prod.case using ne2 l bad by (simp add: Let_def event_packet_def mult.commute)
  have c: "rx_packets (map (event_packet m) [Suc ?j..<16]) ([], e) t = Some (([], e), t)"
  proof (rule rx_skip, rule ballI)
    fix p
    assume "p \<in> set (map (event_packet m) [Suc ?j..<16])"
    then obtain i where i: "p = event_packet m i" "0 < i" "i < 16" by auto
    then show "p ! 1 \<noteq> 0xF0" using m(3) [of "i * 3"] by (simp add: event_packet_def)
  qed
  show ?thesis unfolding sp rx_packets_append a by (simp add: b c)
qed

section \<open>Properties\<close>

text \<open>What a received frame does: the stream lane goes to the ring, a nonzero command lane to the queue.\<close>

lemma process_frame:
  assumes "length cmd = 18" "length stream = 18"
  shows "process_sysex_frame (sysex_message (encode_payload_7bit_fixed (cmd @ stream))) e t =
    do { (e, t) \<leftarrow> ingest_stream stream e t;
         Some (if list_ex (\<lambda>b. b \<noteq> 0) cmd then queue_cmd (usb_command cmd) e else e, t) }"
proof -
  let ?m = "sysex_message (encode_payload_7bit_fixed (cmd @ stream))"
  have l: "length (cmd @ stream) = 36" using assms by simp
  have v: "sysex_valid ?m" "decode_payload_7bit_fixed (take 42 (drop 5 ?m)) = Some (cmd @ stream)"
    using usb_frame_valid [OF l] usb_frame_decodes [OF l] by (simp_all only: usb_frame_message [OF l])
  then show ?thesis
    using assms by (auto simp: process_sysex_frame_def esp_codec_eq sysex_valid_def Let_def intro!: bind_option_cong)
qed

text \<open>The sixteen event packets of a 64-byte transfer, as the stack hands them to the receive task.\<close>

definition packets_of :: "u8 list \<Rightarrow> u8 list list" where
  "packets_of buf = map (\<lambda>i. take 4 (drop (4 * i) buf)) [0..<16]"

lemma packets_of_pack: "packets_of (usb_pack m) = map (event_packet m) [0..<16]"
  by (simp add: packets_of_def usb_pack_packets upt_16 event_packet_def)

text \<open>C17: Both firmwares speak the same wire format, in both directions. The codec of the ESP32 computes
  the same functions as that of the STM32 on all inputs. A frame the ESP32 reports as sent has put
  exactly the message into the stream that the STM32 packs into its 64-byte transfer for the same
  frame. And the event packets of that transfer, given to the receive task with an empty assembler,
  deliver the frame: the assembler is empty again, the stream lane has gone to the retransmission
  ring (which takes it in playback mode from the session's transport) and the command lane, unless
  it is all zero, to the end of the command queue as a command from USB, if there is room.\<close>

theorem esp_wire_format:
  assumes "length cmd = 18" "length stream = 18"
  shows "esp_encode_payload_7bit_fixed = encode_payload_7bit_fixed \<and> esp_decode_payload_7bit_fixed = decode_payload_7bit_fixed \<and>
    (\<forall>nb e t e' t'. send_frame (cmd @ stream) nb e t = Some (ESP_OK, e', t') \<longrightarrow>
       usb_stream e' = usb_stream e @ [usb_unpack (usb_frame (cmd @ stream))]) \<and>
    (\<forall>e t. rx_packets (packets_of (usb_frame (cmd @ stream))) ([], e) t =
       do { (e, t) \<leftarrow> ingest_stream stream e t;
            Some (([], if list_ex (\<lambda>b. b \<noteq> 0) cmd then queue_cmd (usb_command cmd) e else e), t) })"
proof -
  let ?f = "cmd @ stream"
  have len: "length ?f = 36" using assms by simp
  have l: "length (usb_unpack (usb_frame ?f)) = 48" by simp
  have u: "usb_unpack (usb_frame ?f) = [0xF0, 0x7D, 0x45, 0x4D, 0x57] @ encode_payload_7bit_fixed ?f @ [0xF7]"
    using usb_frame_message [OF len] by (simp add: sysex_message_def)
  have send: "send_frame ?f nb e t = Some (ESP_OK, e', t') \<Longrightarrow> usb_stream e' = usb_stream e @ [usb_unpack (usb_frame ?f)]" for nb e t e' t'
    using l unfolding u
    by (auto simp: esp_codec_eq send_frame_def usb_is_ready_def bind_eq_Some_conv Let_def split: if_splits)
  have "packets_of (usb_frame ?f) = map (event_packet (sysex_message (encode_payload_7bit_fixed ?f))) [0..<16]"
    by (simp add: usb_frame_def packets_of_pack)
  then have "rx_packets (packets_of (usb_frame ?f)) ([], e) t =
      do { (e, t) \<leftarrow> ingest_stream stream e t;
           Some (([], if list_ex (\<lambda>b. b \<noteq> 0) cmd then queue_cmd (usb_command cmd) e else e), t) }" for e t
    by (cases "ingest_stream stream e t") (auto simp: rx_frame_idle [OF len] process_frame [OF assms])
  with send show ?thesis by (auto simp: esp_codec_eq)
qed

definition esp_usb_reset :: esp_usb where
  "esp_usb_reset = \<lparr>sess = no_claim, cmd_queue = [], s_usb_ready = True, s_rx_buffer = zeros 512, s_rx_head = 0, s_rx_tail = 0,
     s_buffer_type = EMW_BUFFER_PACKET, s_pending_cmd_lane = zeros 18, s_pending_cmd_ready = False, s_pending_bs_status = 0,
     s_pending_bs_ready = False, usb_stream = []\<rparr>"

text \<open>A frame sent, and the same frame received: its command lane is queued.\<close>

theorem esp_wire_format_witness:
  "\<exists>e'. send_frame (replicate 18 0x9C @ zeros 18) False esp_usb_reset [1, 1, 48] = Some (ESP_OK, e', []) \<and>
     usb_stream e' = [usb_unpack (usb_frame (replicate 18 0x9C @ zeros 18))] \<and>
     rx_packets (packets_of (usb_frame (replicate 18 0x9C @ zeros 18))) ([], esp_usb_reset) [] =
       Some (([], esp_usb_reset\<lparr>cmd_queue := [usb_command (replicate 18 0x9C)]\<rparr>), [])"
proof -
  let ?c = "replicate 18 0x9C :: u8 list"
  obtain e' where s: "send_frame (?c @ zeros 18) False esp_usb_reset [1, 1, 48] = Some (ESP_OK, e', [])"
    by (simp add: send_frame_def usb_is_ready_def esp_usb_reset_def Let_def)
  have l: "length ?c = 18" "length (zeros 18) = 18" by simp_all
  note w = esp_wire_format [OF l]
  have st: "usb_stream e' = usb_stream esp_usb_reset @ [usb_unpack (usb_frame (?c @ zeros 18))]" using w s by blast
  have any: "list_ex (\<lambda>b. b \<noteq> 0) ?c" by (simp add: list_ex_iff)
  have "rx_packets (packets_of (usb_frame (?c @ zeros 18))) ([], esp_usb_reset) [] =
      do { (e, t) \<leftarrow> ingest_stream (zeros 18) esp_usb_reset [];
           Some (([], if list_ex (\<lambda>b. b \<noteq> 0) ?c then queue_cmd (usb_command ?c) e else e), t) }"
    using w by blast
  also have "\<dots> = Some (([], esp_usb_reset\<lparr>cmd_queue := [usb_command ?c]\<rparr>), [])"
    using any by (simp add: ingest_stream_def queue_cmd_def esp_usb_reset_def)
  finally show ?thesis using s st by (auto simp: esp_usb_reset_def)
qed

text \<open>The frame assembler recovers from lost packets with the next frame: whatever multiple of three
  bytes an interrupted frame has left behind, the sixteen packets of a frame leave the assembler
  empty again; that frame is processed if nothing was left over and is discarded without any
  effect otherwise.\<close>

theorem esp_assembler_resyncs:
  assumes "length frame = 36" "length sysex = 3 * k" "k < 16"
  shows "rx_packets (map (event_packet (usb_unpack (usb_frame frame))) [0..<16]) (sysex, e) t =
    (if sysex = [] then do { (e, t) \<leftarrow> process_sysex_frame (usb_unpack (usb_frame frame)) e t; Some (([], e), t) }
     else Some (([], e), t))"
proof (cases "k = 0")
  case True
  then have "sysex = []" using assms(2) by simp
  then show ?thesis using rx_frame_idle [OF assms(1), of e t] by (simp only: usb_frame_message [OF assms(1)] if_True simp_thms)
next
  case False
  then have "sysex \<noteq> []" using assms(2) by auto
  then show ?thesis
    using rx_frame_busy [OF assms(1,2) _ assms(3), of e t] False by (simp only: usb_frame_message [OF assms(1)] if_False simp_thms)
qed

theorem esp_assembler_resyncs_witness:
  "rx_packets (map (event_packet (usb_unpack (usb_frame (zeros 36)))) [0..<16]) ([0xF0, 0x7D, 0x45], esp_usb_reset) [] =
     Some (([], esp_usb_reset), [])"
  using esp_assembler_resyncs [of "zeros 36" "[0xF0, 0x7D, 0x45]" 1 esp_usb_reset "[]"] by simp

text \<open>A response parked while sampling is lost if the frame that should carry it cannot be sent: the
  sender takes the response out of its slot before it tries, and does not put it back when the
  stack refuses the frame. The frame that retries the lane has an empty command lane.\<close>

theorem esp_parked_response_lost:
  assumes "s_pending_cmd_ready e" "usb_send_stream_lane lane nb e t = Some (err, e', t')" "err \<noteq> ESP_OK" "length lane = 18"
  shows "\<not> s_pending_cmd_ready e' \<and> fst (fill_frame_from_pending (zeros 36) (Some lane) e') = zeros 18 @ lane"
proof -
  have "\<not> s_pending_cmd_ready e'"
    using assms(1-3) by (auto simp: usb_send_stream_lane_def fill_frame_from_pending_def send_frame_def usb_is_ready_def
        bind_eq_Some_conv Let_def split: if_splits)
  then show ?thesis using assms(4) by (simp add: fill_frame_from_pending_def blit_def zeros_def)
qed

theorem esp_parked_response_lost_witness:
  "\<exists>e'. usb_send_stream_lane (zeros 18) True (esp_usb_reset\<lparr>s_pending_cmd_ready := True\<rparr>) [1, 0] = Some (ESP_ERR_TIMEOUT, e', []) \<and>
     \<not> s_pending_cmd_ready e' \<and> usb_stream e' = []"
proof -
  let ?e = "esp_usb_reset\<lparr>s_pending_cmd_ready := True\<rparr>"
  obtain e' where s: "usb_send_stream_lane (zeros 18) True ?e [1, 0] = Some (ESP_ERR_TIMEOUT, e', [])" "usb_stream e' = []"
    by (simp add: usb_send_stream_lane_def fill_frame_from_pending_def send_frame_def usb_is_ready_def esp_usb_reset_def Let_def)
  then show ?thesis using esp_parked_response_lost [OF _ s(1)] by (simp add: esp_usb_reset_def)
qed

end
