(* ===== verification/Esp_Ble.thy ===== *)
theory Esp_Ble
  imports Esp_Usb
begin

text \<open>
  The Bluetooth transport of the ESP32 firmware (\<open>src/esp/main/libraries/ble_server.c\<close>): the assembler
  of SysEx messages from writes of any size, the raw path for writes without SysEx bytes with its
  4096-byte ring, and the sender that pads short packets to 64 bytes and cuts long ones to the MTU.
  NimBLE is below the model: whether a buffer could be allocated, its result codes and the MTU are
  read from the trace, and \<open>notifications\<close> logs the packets it accepted. The connection events, which
  also drive the update session, are in \<open>Esp_Gatt\<close>.
\<close>

section \<open>State\<close>

text \<open>A result code of NimBLE, or one of the constants this file returns. The value 0 is success.\<close>

datatype ble_rc = Rc u32 | BLE_HS_ENOTCONN | BLE_HS_ENOMEM | BLE_ATT_ERR_UNLIKELY

text \<open>A connection handle is \<open>None\<close> for \<open>BLE_HS_CONN_HANDLE_NONE\<close>.\<close>

record ble =
  notification_handle :: u16
  notify_conn_handle :: "u16 option"
  cmd_queue_handle :: bool
  ble_rxBuffer :: "u8 list"
  ble_rxBufferHeadPos :: u16
  ble_rxBufferTailPos :: u16
  ble_transmitter_mode :: u8
  ble_sysex_fragment_buffer :: "u8 list"
  ble_sysex_fragment_len :: u16
  notifications :: "(u16 \<times> u8 list) list"

section \<open>Sending\<close>

text \<open>The loop over the chunks of a long packet; the offset is a 16-bit integer.\<close>

function notify_chunks :: "u16 \<Rightarrow> u16 \<Rightarrow> u8 list \<Rightarrow> u16 \<Rightarrow> u16 \<Rightarrow> ble \<Rightarrow> trace \<Rightarrow> (ble_rc \<times> ble \<times> trace) option" where
  "notify_chunks mtu attr_handle data len offset b t =
     (if \<not> offset < len then Some (Rc 0, b, t)
      else
        let max_chunk = (if mtu > 3 then mtu - 3 else 20);
            chunk_len = len - offset;
            chunk_len = (if chunk_len > max_chunk then max_chunk else chunk_len)
        in case rd t of
             None \<Rightarrow> None
           | Some (om, t) \<Rightarrow>
               if om = 0 then Some (BLE_HS_ENOMEM, b, t)
               else (case rd t of
                 None \<Rightarrow> None
               | Some (rc, t) \<Rightarrow>
                   if rc \<noteq> 0 then Some (Rc rc, b, t)
                   else notify_chunks mtu attr_handle data len (offset + chunk_len)
                     (b\<lparr>notifications := notifications b @ [(attr_handle, take (unat chunk_len) (drop (unat offset) data))]\<rparr>) t))"
  by pat_completeness auto

lemma chunk_bounds:
  assumes "(offset :: u16) < len" "0 < m"
  defines "c \<equiv> if len - offset > m then m else len - offset"
  shows "0 < unat c" "unat offset + unat c \<le> unat len" "unat (offset + c) = unat offset + unat c" "unat c \<le> unat m"
proof -
  have o: "unat offset < unat len" using assms(1) by (simp add: word_less_nat_alt)
  have d: "unat (len - offset) = unat len - unat offset" using assms(1) by (simp add: unat_sub order_less_imp_le)
  have m: "0 < unat m" using assms(2) by (simp add: word_less_nat_alt)
  show a: "0 < unat c" "unat c \<le> unat m" using o d m by (auto simp: c_def word_less_nat_alt not_less)
  show b: "unat offset + unat c \<le> unat len" using o d by (auto simp: c_def word_less_nat_alt)
  have "unat len < 65536" using unsigned_less [of len] by simp
  then show "unat (offset + c) = unat offset + unat c" using b by (simp add: unat_word_ariths)
qed

lemma max_chunk_pos: "0 < (if mtu > 3 then mtu - 3 else 20 :: u16)"
  by (auto simp: word_neq_0_conv [symmetric])

termination notify_chunks
proof (relation "measure (\<lambda>(mtu, attr_handle, data, len, offset, b, t). unat len - unat offset)", goal_cases)
  case (2 mtu attr_handle data len offset b t m c c')
  have m: "0 < m" using 2(2) max_chunk_pos [of mtu] by (simp only:)
  have c: "c' = (if len - offset > m then m else len - offset)" using 2(3,4) by (simp only:)
  have "offset < len" using 2(1) by simp
  from chunk_bounds [OF this m, folded c] show ?case by simp
qed simp

declare notify_chunks.simps [simp del]

definition ble_server_notify_attr :: "u16 \<Rightarrow> u8 list \<Rightarrow> ble \<Rightarrow> trace \<Rightarrow> (ble_rc \<times> ble \<times> trace) option" where
  "ble_server_notify_attr attr_handle data b t =
     (let len = of_nat (length data) :: u16 in
      if notify_conn_handle b = None then Some (BLE_HS_ENOTCONN, b, t)
      else if attr_handle = 0 then Some (BLE_ATT_ERR_UNLIKELY, b, t)
      else if len = 0 then Some (Rc 0, b, t)
      else if len \<le> 64 then do {
        let padded = blit (zeros 64) 0 data;
        (om, t) \<leftarrow> rd t;
        if om = 0 then Some (BLE_HS_ENOMEM, b, t)
        else do {
          (rc, t) \<leftarrow> rd t;
          Some (Rc rc, if rc = 0 then b\<lparr>notifications := notifications b @ [(attr_handle, padded)]\<rparr> else b, t) } }
      else do {
        (mtu, t) \<leftarrow> rd t;
        notify_chunks (ucast mtu) attr_handle data len 0 b t })"

definition ble_server_notify :: "u8 list \<Rightarrow> ble \<Rightarrow> trace \<Rightarrow> (ble_rc \<times> ble \<times> trace) option" where
  "ble_server_notify data b t = ble_server_notify_attr (notification_handle b) data b t"

text \<open>The codec is the text of that in \<open>usb.c\<close>.\<close>

definition ble_decode_payload_7bit_fixed :: "u8 list \<Rightarrow> u8 list option" where
  "ble_decode_payload_7bit_fixed inp = esp_decode_loop inp 0 []"

definition ble_encode_payload_7bit_fixed :: "u8 list \<Rightarrow> u8 list" where
  "ble_encode_payload_7bit_fixed inp = esp_encode_loop inp 0 []"

lemma ble_codec_eq:
  "ble_decode_payload_7bit_fixed = decode_payload_7bit_fixed" "ble_encode_payload_7bit_fixed = encode_payload_7bit_fixed"
  by (simp_all add: fun_eq_iff ble_decode_payload_7bit_fixed_def decode_payload_7bit_fixed_def esp_decode_loop_eq
      ble_encode_payload_7bit_fixed_def encode_payload_7bit_fixed_def esp_encode_loop_eq)

definition ble_server_send_superframe :: "u8 list \<Rightarrow> ble \<Rightarrow> trace \<Rightarrow> (ble_rc \<times> ble \<times> trace) option" where
  "ble_server_send_superframe frame b t =
     ble_server_notify ([0xF0, 0x7D, 0x45, 0x4D, 0x57] @ ble_encode_payload_7bit_fixed frame @ [0xF7]) b t"

definition ble_server_send_cmd_response :: "u8 \<Rightarrow> u8 list \<Rightarrow> ble \<Rightarrow> trace \<Rightarrow> (ble_rc \<times> ble \<times> trace) option" where
  "ble_server_send_cmd_response status payload b t =
     ble_server_send_superframe (blit (zeros 36) 0 (status # take 17 payload)) b t"

section \<open>Receiving messages\<close>

definition ble_command :: "u8 list \<Rightarrow> command_t" where
  "ble_command lane = \<lparr>cmd_data = blit (zeros 256) 0 lane, cmd_length = 18, cmd_source = EMW_COMMAND_SOURCE_BLE\<rparr>"

text \<open>The stream lane of the frame is not looked at.\<close>

definition ble_enqueue_superframe :: "u8 list \<Rightarrow> ble \<Rightarrow> esp_usb \<Rightarrow> bool \<times> esp_usb" where
  "ble_enqueue_superframe sysex b e =
     (if \<not> cmd_queue_handle b then (False, e)
      else if sysex ! 0 \<noteq> 0xF0 \<or> sysex ! 1 \<noteq> 0x7D \<or> sysex ! 2 \<noteq> 0x45 \<or> sysex ! 3 \<noteq> 0x4D \<or> sysex ! 4 \<noteq> 0x57 \<or>
         sysex ! 47 \<noteq> 0xF7 then (False, e)
      else case ble_decode_payload_7bit_fixed (take 42 (drop 5 sysex)) of
        None \<Rightarrow> (False, e)
      | Some decoded \<Rightarrow>
          if \<not> list_ex (\<lambda>v. v \<noteq> 0) (take 18 decoded) then (True, e)
          else (length (cmd_queue e) < 10, queue_cmd (ble_command (take 18 decoded)) e))"

text \<open>The loop over the bytes of one write, with the flags \<open>saw_sysex_byte\<close> and \<open>queued\<close>.\<close>

fun ingest_loop :: "u8 list \<Rightarrow> bool \<Rightarrow> bool \<Rightarrow> ble \<Rightarrow> esp_usb \<Rightarrow> bool \<times> bool \<times> ble \<times> esp_usb" where
  "ingest_loop [] saw queued b e = (saw, queued, b, e)"
| "ingest_loop (val # rest) saw queued b e =
     (let (b, saw) = (if val = 0xF0 then (b\<lparr>ble_sysex_fragment_len := 0\<rparr>, True) else (b, saw)) in
      if ble_sysex_fragment_len b = 0 \<and> val \<noteq> 0xF0 then ingest_loop rest saw queued b e
      else if ble_sysex_fragment_len b \<ge> 48 then ingest_loop rest True queued (b\<lparr>ble_sysex_fragment_len := 0\<rparr>) e
      else
        let b = b\<lparr>ble_sysex_fragment_buffer := (ble_sysex_fragment_buffer b)[unat (ble_sysex_fragment_len b) := val],
                  ble_sysex_fragment_len := ble_sysex_fragment_len b + 1\<rparr> in
        if val = 0xF7 then
          let (queued, e) = (if ble_sysex_fragment_len b = 48
                             then let (ok, e) = ble_enqueue_superframe (ble_sysex_fragment_buffer b) b e in (ok \<or> queued, e)
                             else (queued, e))
          in ingest_loop rest True queued (b\<lparr>ble_sysex_fragment_len := 0\<rparr>) e
        else ingest_loop rest True queued b e)"

text \<open>The results are \<open>queued\<close> and \<open>*handled\<close>.\<close>

definition ble_ingest_sysex_fragment :: "u8 list \<Rightarrow> ble \<Rightarrow> esp_usb \<Rightarrow> bool \<times> bool \<times> ble \<times> esp_usb" where
  "ble_ingest_sysex_fragment data b e =
     (if data = [] \<or> \<not> cmd_queue_handle b then (False, False, b, e)
      else let (saw, queued, b, e) = ingest_loop data False False b e in (queued, saw, b, e))"

section \<open>The raw path\<close>

definition BLE_InitRxBuffer :: "ble \<Rightarrow> ble" where
  "BLE_InitRxBuffer b = b\<lparr>ble_rxBuffer := zeros 4096, ble_rxBufferHeadPos := 0, ble_rxBufferTailPos := 0\<rparr>"

definition BLE_FlushRxBuffer :: "ble \<Rightarrow> ble" where
  "BLE_FlushRxBuffer b = b\<lparr>ble_rxBuffer := zeros 4096, ble_rxBufferHeadPos := 0, ble_rxBufferTailPos := 0\<rparr>"

definition BLE_GetRxBufferBytesAvailable :: "ble \<Rightarrow> u16" where
  "BLE_GetRxBufferBytesAvailable b =
     (if ble_rxBufferHeadPos b \<ge> ble_rxBufferTailPos b then ble_rxBufferHeadPos b - ble_rxBufferTailPos b
      else 4096 - (ble_rxBufferTailPos b - ble_rxBufferHeadPos b))"

text \<open>The loop of the reader counts in 8 bits against a 16-bit length.\<close>

partial_function (option) ble_read_loop :: "u8 \<Rightarrow> u16 \<Rightarrow> u8 list \<Rightarrow> ble \<Rightarrow> (u8 list \<times> ble) option" where
  "ble_read_loop i len buf b =
     (if ucast i < len
      then ble_read_loop (i + 1) len (buf[unat i := ble_rxBuffer b ! unat (ble_rxBufferTailPos b)])
             (b\<lparr>ble_rxBufferTailPos := (ble_rxBufferTailPos b + 1) mod 4096\<rparr>)
      else Some (buf, b))"

text \<open>\<open>None\<close> for a call that does not return; the flag is the result 1.\<close>

definition BLE_ReadRxBuffer :: "u8 list \<Rightarrow> u16 \<Rightarrow> ble \<Rightarrow> (bool \<times> u8 list \<times> ble) option" where
  "BLE_ReadRxBuffer buf len b =
     (let bytesAvailable = BLE_GetRxBufferBytesAvailable b in
      if bytesAvailable < len then Some (True, buf, b)
      else do { (buf, b) \<leftarrow> ble_read_loop 0 len buf b; Some (False, buf, b) })"

definition BLE_SendStatusPacket :: "ble \<Rightarrow> trace \<Rightarrow> (ble_rc \<times> ble \<times> trace) option" where
  "BLE_SendStatusPacket b t =
     (let status = BLE_GetRxBufferBytesAvailable b
      in ble_server_notify [0x42, 0x53, ucast (drop_bit 8 status), ucast (status AND 0xFF)] b t)"

fun ble_store :: "u8 list \<Rightarrow> u16 \<Rightarrow> u16 \<Rightarrow> u8 list \<Rightarrow> u8 list \<times> u16" where
  "ble_store buf tail temp [] = (buf, temp)"
| "ble_store buf tail temp (v # vs) =
     (let buf = buf[unat temp := v]; temp = (temp + 1) mod 4096
      in if temp = tail then (buf, temp) else ble_store buf tail temp vs)"

definition ble_matches_ascii_command_prefix :: "u8 list \<Rightarrow> u16 \<Rightarrow> string \<Rightarrow> bool" where
  "ble_matches_ascii_command_prefix data len prefix =
     (let prefix_len = length prefix in
      if unat len < prefix_len then False
      else if take prefix_len data \<noteq> List.map of_char prefix then False
      else if unat len = prefix_len then True
      else let nxt = data ! prefix_len in nxt = 0 \<or> nxt = 0x0A \<or> nxt = 0x0D \<or> nxt = 0x20 \<or> nxt = 0x09)"

text \<open>
  The source of a raw command is never assigned: it is what the stack holds, the next value of the
  trace. Of the data only the first \<open>length\<close> bytes are assigned; nothing reads the others, which
  are zero here.
\<close>

definition raw_command :: "u8 list \<Rightarrow> u32 \<Rightarrow> command_t" where
  "raw_command data garbage =
     \<lparr>cmd_data = blit (zeros 256) 0 data, cmd_length = of_nat (length data), cmd_source = ucast garbage\<rparr>"

datatype gatt_chr = gatt_cmd_chr | gatt_notif_chr

datatype gatt_op = WRITE_CHR | READ_CHR

text \<open>
  One access of a characteristic by the host: \<open>om\<close> is the packet, and the trace starts with the
  result of copying at most 256 bytes of it. The queue waits ten ticks for room; it is full for
  all of them or has room at once.
\<close>

definition gatt_svr_chr_access :: "gatt_chr \<Rightarrow> gatt_op \<Rightarrow> u8 list \<Rightarrow> ble \<Rightarrow> esp_usb \<Rightarrow> trace
    \<Rightarrow> (ble_rc \<times> ble \<times> esp_usb \<times> trace) option" where
  "gatt_svr_chr_access uuid op om b e t =
     (if uuid \<noteq> gatt_cmd_chr then Some (BLE_ATT_ERR_UNLIKELY, b, e, t)
      else if op \<noteq> WRITE_CHR then Some (BLE_ATT_ERR_UNLIKELY, b, e, t)
      else if \<not> cmd_queue_handle b then Some (Rc 0, b, e, t)
      else do {
        let data = take 256 om;
        (rc, t) \<leftarrow> rd t;
        if rc \<noteq> 0 then Some (BLE_ATT_ERR_UNLIKELY, b, e, t)
        else do {
          let (_, sysex_handled, b, e) = ble_ingest_sysex_fragment data b e;
          if sysex_handled then Some (Rc 0, b, e, t)
          else if ble_transmitter_mode b \<noteq> 0 then do {
            (ok, s, t) \<leftarrow> transport_session_allows_stream EMW_COMMAND_SOURCE_BLE (sess e) t;
            let e = e\<lparr>sess := s\<rparr>;
            if \<not> ok then Some (BLE_ATT_ERR_UNLIKELY, b, e, t)
            else if length data = 64 \<and> ble_matches_ascii_command_prefix data 64 ''transmit stop'' then do {
              (garbage, t) \<leftarrow> rd t;
              Some (Rc 0, b, queue_cmd (raw_command data garbage) e, t) }
            else do {
              let (buf, tempHeadPos) = ble_store (ble_rxBuffer b) (ble_rxBufferTailPos b) (ble_rxBufferHeadPos b) data;
              let b = b\<lparr>ble_rxBuffer := buf, ble_rxBufferHeadPos := tempHeadPos\<rparr>;
              (_, b, t) \<leftarrow> BLE_SendStatusPacket b t;
              Some (Rc 0, b, e, t) } }
          else do {
            (garbage, t) \<leftarrow> rd t;
            Some (Rc 0, b, queue_cmd (raw_command data garbage) e, t) } } })"

definition ble_set_transmitter_mode :: "u8 \<Rightarrow> ble \<Rightarrow> ble" where
  "ble_set_transmitter_mode mode b =
     (let b = b\<lparr>ble_transmitter_mode := mode\<rparr> in if mode \<noteq> 0 then BLE_InitRxBuffer b else BLE_FlushRxBuffer b)"

definition ble_get_rx_bytes_available :: "ble \<Rightarrow> u16" where
  "ble_get_rx_bytes_available b = BLE_GetRxBufferBytesAvailable b"

definition ble_read_rx_buffer :: "u8 list \<Rightarrow> u16 \<Rightarrow> ble \<Rightarrow> (bool \<times> u8 list \<times> ble) option" where
  "ble_read_rx_buffer buf len b = BLE_ReadRxBuffer buf len b"

section \<open>Assembling messages\<close>

text \<open>The state after the first \<open>n\<close> bytes of the messages for some frames.\<close>

definition message :: "u8 list \<Rightarrow> u8 list" where
  "message frame = sysex_message (encode_payload_7bit_fixed frame)"

definition lane_commands :: "u8 list list \<Rightarrow> command_t list" where
  "lane_commands frames = List.map (\<lambda>f. ble_command (take 18 f)) (List.filter (\<lambda>f. list_ex (\<lambda>v. v \<noteq> 0) (take 18 f)) frames)"

definition assembled :: "u8 list list \<Rightarrow> nat \<Rightarrow> ble \<Rightarrow> bool" where
  "assembled fs n b \<longleftrightarrow> cmd_queue_handle b \<and> length (ble_sysex_fragment_buffer b) = 48 \<and>
     unat (ble_sysex_fragment_len b) = n mod 48 \<and>
     take (n mod 48) (ble_sysex_fragment_buffer b) = take (n mod 48) (message (fs ! (n div 48)))"

definition queued_after :: "u8 list list \<Rightarrow> nat \<Rightarrow> esp_usb \<Rightarrow> esp_usb" where
  "queued_after fs n e = e\<lparr>cmd_queue := cmd_queue e @ lane_commands (take (n div 48) fs)\<rparr>"

lemma message_length [simp]: "length f = 36 \<Longrightarrow> length (message f) = 48"
  by (simp add: message_def)

lemma concat_messages_length: "\<forall>f \<in> set fs. length f = 36 \<Longrightarrow> length (concat (List.map message fs)) = 48 * length fs"
  by (induction fs) simp_all

lemma concat_messages_nth:
  "\<forall>f \<in> set fs. length f = 36 \<Longrightarrow> n < 48 * length fs \<Longrightarrow>
   concat (List.map message fs) ! n = message (fs ! (n div 48)) ! (n mod 48)"
proof (induction fs arbitrary: n)
  case (Cons f fs)
  then show ?case
    by (cases "n < 48") (auto simp: nth_append le_div_geq le_mod_geq not_less)
qed simp

text \<open>A complete message queues its command lane.\<close>

lemma enqueue_message:
  assumes "length f = 36" "cmd_queue_handle b" "length (cmd_queue e) < 10"
  shows "snd (ble_enqueue_superframe (message f) b e) = e\<lparr>cmd_queue := cmd_queue e @ lane_commands [f]\<rparr>"
proof -
  note m = message_bytes [OF assms(1), folded message_def]
  have "ble_decode_payload_7bit_fixed (take 42 (drop 5 (message f))) = Some f"
    using assms(1) by (simp add: ble_codec_eq message_def sysex_message_payload decode_payload_spec encode_payload_spec dec7_enc7 length_enc7)
  moreover have "message f ! 0 = 0xF0" "message f ! 1 = 0x7D" "message f ! 2 = 0x45" "message f ! 3 = 0x4D" "message f ! 4 = 0x57"
    "message f ! 47 = 0xF7"
    using assms(1) by (simp_all add: message_def sysex_message_def nth_append)
  ultimately show ?thesis
    using assms(2,3) by (simp add: ble_enqueue_superframe_def queue_cmd_def lane_commands_def)
qed

text \<open>One byte of a message, at a position other than the last and at the last.\<close>

lemma take_update_snoc: "r < length xs \<Longrightarrow> take (Suc r) (xs[r := v]) = take r xs @ [v]"
  by (simp add: take_Suc_conv_app_nth)

lemma fragment_room: "unat (l :: u16) < 48 \<Longrightarrow> \<not> l \<ge> 48 \<and> unat (l + 1) = Suc (unat l)"
  by (simp add: word_le_nat_alt unat_word_ariths)

abbreviation same_but_fragment :: "ble \<Rightarrow> ble \<Rightarrow> bool" where
  "same_but_fragment b b' \<equiv>
     b' = b\<lparr>ble_sysex_fragment_buffer := ble_sysex_fragment_buffer b', ble_sysex_fragment_len := ble_sysex_fragment_len b'\<rparr>"

lemma same_trans: "same_but_fragment b b1 \<Longrightarrow> same_but_fragment b1 b2 \<Longrightarrow> same_but_fragment b b2"
  by (cases b; cases b1; cases b2) simp

lemma ingest_inner:
  assumes f: "length (fs ! (n div 48)) = 36" and a: "assembled fs n b" and r: "n mod 48 < 47"
  defines "v \<equiv> message (fs ! (n div 48)) ! (n mod 48)"
  shows "\<exists>b'. ingest_loop (v # rest) saw queued b (queued_after fs n e) = ingest_loop rest True queued b' (queued_after fs (Suc n) e) \<and>
    assembled fs (Suc n) b' \<and> same_but_fragment b b'"
proof -
  note m = message_bytes [OF f, folded message_def]
  have d: "Suc n div 48 = n div 48" "Suc n mod 48 = Suc (n mod 48)" using r by (simp_all add: div_Suc mod_Suc)
  have l: "unat (ble_sysex_fragment_len b) = n mod 48" "length (ble_sysex_fragment_buffer b) = 48" "cmd_queue_handle b"
    "take (n mod 48) (ble_sysex_fragment_buffer b) = take (n mod 48) (message (fs ! (n div 48)))"
    using a by (simp_all add: assembled_def)
  have v: "v = 0xF0 \<longleftrightarrow> n mod 48 = 0" "v \<noteq> 0xF7"
    using m(2) m(3) [of "n mod 48"] m(4) [of "n mod 48"] r by (cases "n mod 48 = 0"; simp add: v_def)+
  have room: "\<not> ble_sysex_fragment_len b \<ge> 48" "unat (ble_sysex_fragment_len b + 1) = Suc (n mod 48)"
    using fragment_room [of "ble_sysex_fragment_len b"] l(1) r by simp_all
  have z: "ble_sysex_fragment_len b = 0 \<longleftrightarrow> n mod 48 = 0" using l(1) by (metis unat_eq_0)
  let ?b = "b\<lparr>ble_sysex_fragment_buffer := (ble_sysex_fragment_buffer b)[n mod 48 := v], ble_sysex_fragment_len := ble_sysex_fragment_len b + 1\<rparr>"
  have "ingest_loop (v # rest) saw queued b (queued_after fs n e) = ingest_loop rest True queued ?b (queued_after fs n e)"
    using v z room(1) l(1) by (cases "n mod 48 = 0") (simp_all add: Let_def)
  moreover have "assembled fs (Suc n) ?b"
    using l room(2) d m(1) r by (simp add: assembled_def take_update_snoc take_Suc_conv_app_nth v_def)
  ultimately show ?thesis using d by (intro exI [of _ ?b]) (simp add: queued_after_def)
qed

lemma ingest_last:
  assumes f: "length (fs ! (n div 48)) = 36" "n div 48 < length fs" and a: "assembled fs n b" and r: "n mod 48 = 47"
    and q: "length (cmd_queue (queued_after fs n e)) < 10"
  defines "v \<equiv> message (fs ! (n div 48)) ! (n mod 48)"
  shows "\<exists>b' queued'. ingest_loop (v # rest) saw queued b (queued_after fs n e) = ingest_loop rest True queued' b' (queued_after fs (Suc n) e) \<and>
    assembled fs (Suc n) b' \<and> same_but_fragment b b'"
proof -
  let ?f = "fs ! (n div 48)"
  note m = message_bytes [OF f(1), folded message_def]
  have d: "Suc n div 48 = Suc (n div 48)" "Suc n mod 48 = 0" using r by (simp_all add: div_Suc mod_Suc)
  have l: "unat (ble_sysex_fragment_len b) = 47" "length (ble_sysex_fragment_buffer b) = 48" "cmd_queue_handle b"
    "take 47 (ble_sysex_fragment_buffer b) = take 47 (message ?f)"
    using a r by (simp_all add: assembled_def)
  have v: "v = 0xF7" using f(1) r by (simp add: v_def message_def sysex_message_def nth_append)
  have len: "ble_sysex_fragment_len b = 47" using l(1) unsigned_word_eqI [of "ble_sysex_fragment_len b" 47] by simp
  have full: "(ble_sysex_fragment_buffer b)[47 := v] = message ?f"
  proof -
    have "take 48 ((ble_sysex_fragment_buffer b)[47 := v]) = take 47 (message ?f) @ [v]"
      using take_update_snoc [of 47 "ble_sysex_fragment_buffer b" v] l(2,4) by simp
    also have "\<dots> = take 48 (message ?f)"
      using take_Suc_conv_app_nth [of 47 "message ?f"] m(1) r by (simp add: v_def)
    finally show ?thesis using l(2) m(1) by simp
  qed
  let ?b = "b\<lparr>ble_sysex_fragment_buffer := message ?f, ble_sysex_fragment_len := 48\<rparr>"
  obtain ok e' where en: "ble_enqueue_superframe (message ?f) ?b (queued_after fs n e) = (ok, e')" by fastforce
  have "e' = queued_after fs (Suc n) e"
    using enqueue_message [OF f(1), of ?b "queued_after fs n e"] q l(3) en d f(2)
    by (simp add: queued_after_def take_Suc_conv_app_nth lane_commands_def)
  then have "ingest_loop (v # rest) saw queued b (queued_after fs n e) =
      ingest_loop rest True (ok \<or> queued) (?b\<lparr>ble_sysex_fragment_len := 0\<rparr>) (queued_after fs (Suc n) e)"
    using v len full en by (simp add: Let_def)
  moreover have "assembled fs (Suc n) (?b\<lparr>ble_sysex_fragment_len := 0\<rparr>)"
    using d m(1) l(3) by (simp add: assembled_def)
  ultimately show ?thesis by (intro exI [of _ "?b\<lparr>ble_sysex_fragment_len := 0\<rparr>"] exI [of _ "ok \<or> queued"]) simp
qed

text \<open>Any part of the stream of messages, from any position.\<close>

lemma ingest_part:
  assumes fs: "\<forall>f \<in> set fs. length f = 36" "length (cmd_queue e) + length fs \<le> 10"
  shows "n + length w \<le> 48 * length fs \<Longrightarrow> w = take (length w) (drop n (concat (List.map message fs))) \<Longrightarrow> assembled fs n b \<Longrightarrow>
    \<exists>b' queued'. ingest_loop w saw queued b (queued_after fs n e) = (saw \<or> w \<noteq> [], queued', b', queued_after fs (n + length w) e) \<and>
      assembled fs (n + length w) b' \<and> same_but_fragment b b'"
proof (induction w arbitrary: n b saw queued)
  case (Cons v w)
  let ?s = "concat (List.map message fs)"
  have n: "n < 48 * length fs" "n div 48 < length fs" using Cons.prems(1) by (simp_all add: div_less_iff_less_mult mult.commute)
  have f: "length (fs ! (n div 48)) = 36" using fs(1) n(2) by simp
  have ls: "length ?s = 48 * length fs" using fs(1) by (rule concat_messages_length)
  have "drop n ?s = ?s ! n # drop (Suc n) ?s" using Cons_nth_drop_Suc [of n ?s] n(1) ls by simp
  then have v: "v = message (fs ! (n div 48)) ! (n mod 48)" and w: "w = take (length w) (drop (Suc n) ?s)"
    using Cons.prems(2) concat_messages_nth [OF fs(1) n(1)] by simp_all
  have lc: "length (lane_commands (take (n div 48) fs)) \<le> n div 48"
    using length_filter_le [of "\<lambda>f. list_ex (\<lambda>v. v \<noteq> 0) (take 18 f)" "take (n div 48) fs"] by (simp add: lane_commands_def)
  have q: "length (cmd_queue (queued_after fs n e)) < 10" using fs(2) n(2) lc by (simp add: queued_after_def)
  have "\<exists>b' queued'. ingest_loop (v # w) saw queued b (queued_after fs n e) = ingest_loop w True queued' b' (queued_after fs (Suc n) e) \<and>
      assembled fs (Suc n) b' \<and> same_but_fragment b b'"
  proof (cases "n mod 48 = 47")
    case True
    then show ?thesis using ingest_last [OF f n(2) Cons.prems(3) True q] v by simp
  next
    case False
    then have "n mod 48 < 47" using mod_less_divisor [of 48 n] by linarith
    then show ?thesis using ingest_inner [OF f Cons.prems(3)] v by (metis (no_types))
  qed
  then obtain b1 queued1 where s: "ingest_loop (v # w) saw queued b (queued_after fs n e) = ingest_loop w True queued1 b1 (queued_after fs (Suc n) e)"
    "assembled fs (Suc n) b1" "same_but_fragment b b1" by blast
  have l: "Suc n + length w \<le> 48 * length fs" using Cons.prems(1) by simp
  obtain b2 queued2 where "ingest_loop w True queued1 b1 (queued_after fs (Suc n) e) = (True, queued2, b2, queued_after fs (Suc n + length w) e)"
    "assembled fs (Suc n + length w) b2" "same_but_fragment b1 b2"
    using Cons.IH [OF l w s(2), of True queued1] by auto
  then show ?case using s(1,3) by (intro exI [of _ b2] exI [of _ queued2]) (auto intro: same_trans)
qed simp

text \<open>Writes of the host one after the other, with their results.\<close>

fun ble_writes :: "u8 list list \<Rightarrow> ble \<Rightarrow> esp_usb \<Rightarrow> trace \<Rightarrow> (ble_rc list \<times> ble \<times> esp_usb \<times> trace) option" where
  "ble_writes [] b e t = Some ([], b, e, t)"
| "ble_writes (w # ws) b e t = do {
     (rc, b, e, t) \<leftarrow> gatt_svr_chr_access gatt_cmd_chr WRITE_CHR w b e t;
     (rcs, b, e, t) \<leftarrow> ble_writes ws b e t;
     Some (rc # rcs, b, e, t) }"

lemma access_part:
  assumes fs: "\<forall>f \<in> set fs. length f = 36" "length (cmd_queue e) + length fs \<le> 10"
    and w: "w \<noteq> []" "length w \<le> 256" "n + length w \<le> 48 * length fs" "w = take (length w) (drop n (concat (List.map message fs)))"
    and a: "assembled fs n b"
  shows "\<exists>b'. gatt_svr_chr_access gatt_cmd_chr WRITE_CHR w b (queued_after fs n e) (0 # t) = Some (Rc 0, b', queued_after fs (n + length w) e, t) \<and>
    assembled fs (n + length w) b' \<and> same_but_fragment b b'"
proof -
  obtain b' q where i: "ingest_loop w False False b (queued_after fs n e) = (True, q, b', queued_after fs (n + length w) e)"
    "assembled fs (n + length w) b'" "same_but_fragment b b'"
    using ingest_part [OF fs w(3,4) a, of False False] w(1) by auto
  have h: "cmd_queue_handle b" using a by (simp add: assembled_def)
  then show ?thesis
    using i w(1,2) by (intro exI [of _ b']) (simp add: gatt_svr_chr_access_def ble_ingest_sysex_fragment_def)
qed

lemma writes_parts:
  assumes fs: "\<forall>f \<in> set fs. length f = 36" "length (cmd_queue e) + length fs \<le> 10"
  shows "\<forall>w \<in> set ws. w \<noteq> [] \<and> length w \<le> 256 \<Longrightarrow> concat ws = drop n (concat (List.map message fs)) \<Longrightarrow> n \<le> 48 * length fs \<Longrightarrow>
    assembled fs n b \<Longrightarrow>
    \<exists>b'. ble_writes ws b (queued_after fs n e) (replicate (length ws) 0 @ t) =
      Some (replicate (length ws) (Rc 0), b', queued_after fs (48 * length fs) e, t) \<and> same_but_fragment b b' \<and> ble_sysex_fragment_len b' = 0"
proof (induction ws arbitrary: n b)
  case Nil
  have "n = 48 * length fs" using Nil(2,3) concat_messages_length [OF fs(1)] by simp
  moreover have "ble_sysex_fragment_len b = 0" using Nil(4) calculation by (simp add: assembled_def unat_eq_0)
  ultimately show ?case by (intro exI [of _ b]) simp
next
  case (Cons w ws)
  let ?s = "concat (List.map message fs)"
  have l: "length w + length (concat ws) = 48 * length fs - n"
    using arg_cong [OF Cons.prems(2), of length] concat_messages_length [OF fs(1)] by simp
  have n: "n + length w \<le> 48 * length fs" using l Cons.prems(3) by linarith
  have w: "w = take (length w) (drop n ?s)" using Cons.prems(2) by (metis append_eq_conv_conj concat.simps(2))
  have r: "concat ws = drop (n + length w) ?s"
    using Cons.prems(2) by (metis append_eq_conv_conj concat.simps(2) drop_drop add.commute)
  obtain b1 where s: "gatt_svr_chr_access gatt_cmd_chr WRITE_CHR w b (queued_after fs n e) (0 # replicate (length ws) 0 @ t) =
      Some (Rc 0, b1, queued_after fs (n + length w) e, replicate (length ws) 0 @ t)"
    "assembled fs (n + length w) b1" "same_but_fragment b b1"
    using access_part [OF fs _ _ n w Cons.prems(4)] Cons.prems(1) by auto
  obtain b2 where b2: "ble_writes ws b1 (queued_after fs (n + length w) e) (replicate (length ws) 0 @ t) =
      Some (replicate (length ws) (Rc 0), b2, queued_after fs (48 * length fs) e, t)" "same_but_fragment b1 b2" "ble_sysex_fragment_len b2 = 0"
    using Cons.IH [OF _ r n s(2)] Cons.prems(1) by auto
  show ?case using s(1) b2 same_trans [OF s(3) b2(2)] by (intro exI [of _ b2]) simp
qed

section \<open>The ring\<close>

text \<open>The reader does not leave its loop when the length does not fit into its counter.\<close>

lemma unat_ucast_8_16 [simp]: "unat (ucast (i :: u8) :: u16) = unat i"
proof -
  have "unat i < 2 ^ 8" using unsigned_less [of i] by simp
  then have "unat i < 2 ^ 16" by simp
  then show ?thesis by (simp add: unsigned_ucast_eq take_bit_nat_eq_self)
qed

lemma read_loop_long: "ble_read_loop i len buf b = Some r \<Longrightarrow> len < 256"
proof (erule ble_read_loop.raw_induct [where P = "\<lambda>i len buf b r. len < 256", rotated])
  fix rec :: "u8 \<Rightarrow> u16 \<Rightarrow> u8 list \<Rightarrow> ble \<Rightarrow> (u8 list \<times> ble) option" and i len buf b r
  assume ih: "\<And>i len buf b r. rec i len buf b = Some r \<Longrightarrow> len < (256 :: u16)"
    and s: "(if ucast i < len
      then rec (i + 1) len (buf[unat i := ble_rxBuffer b ! unat (ble_rxBufferTailPos b)])
             (b\<lparr>ble_rxBufferTailPos := (ble_rxBufferTailPos b + 1) mod 4096\<rparr>)
      else Some (buf, b)) = Some r"
  show "len < 256"
  proof (cases "ucast i < len")
    case True
    then show ?thesis using s ih by auto
  next
    case False
    then have "unat len \<le> unat i" by (simp add: word_less_nat_alt)
    moreover have "unat i < 256" using unsigned_less [of i] by simp
    ultimately show ?thesis by (simp add: word_less_nat_alt)
  qed
qed


lemma read_loop_short:
  "len < 256 \<Longrightarrow> unat i \<le> unat len \<Longrightarrow> \<exists>buf' b'. ble_read_loop i len buf b = Some (buf', b')"
proof (induction "unat len - unat i" arbitrary: i buf b)
  case 0
  then have "\<not> ucast i < len" by (simp add: word_less_nat_alt)
  then show ?case by (subst ble_read_loop.simps) simp
next
  case (Suc k)
  have l: "unat len < 256" using Suc.prems(1) by (simp add: word_less_nat_alt)
  have i: "unat (i + 1) = Suc (unat i)" using l Suc.hyps(2) by (simp add: unat_word_ariths)
  have "ucast i < len" using Suc.hyps(2) by (simp add: word_less_nat_alt)
  moreover have "\<exists>buf' b'. ble_read_loop (i + 1) len buf1 b1 = Some (buf', b')" for buf1 b1
    by (rule Suc.hyps(1)) (use i Suc.hyps(2) Suc.prems(1) in simp_all)
  ultimately show ?case by (subst ble_read_loop.simps) simp
qed

text \<open>When the bytes of a write reach the tail, the head stops there and the ring counts as empty.\<close>

definition room_for :: "u16 \<Rightarrow> u16 \<Rightarrow> nat" where
  "room_for tail temp = (if temp < tail then unat tail - unat temp else 4096 + unat tail - unat temp)"

lemma unat_Suc_mod4096: "x < 4096 \<Longrightarrow> unat ((x + 1) mod 4096 :: u16) = (if unat x = 4095 then 0 else Suc (unat x))"
  by (auto simp: unat_mod unat_word_ariths word_less_nat_alt)

lemma store_overflow:
  "temp < 4096 \<Longrightarrow> tail < 4096 \<Longrightarrow> room_for tail temp \<le> length vs \<Longrightarrow> vs \<noteq> [] \<Longrightarrow> snd (ble_store buf tail temp vs) = tail"
proof (induction vs arbitrary: buf temp)
  case (Cons v vs)
  let ?t = "(temp + 1) mod 4096"
  show ?case
  proof (cases "?t = tail")
    case False
    have t: "unat ?t = (if unat temp = 4095 then 0 else Suc (unat temp))" using Cons.prems(1) by (rule unat_Suc_mod4096)
    have b: "unat temp < 4096" "unat tail < 4096" using Cons.prems(1,2) by (simp_all add: word_less_nat_alt)
    have ne: "unat ?t \<noteq> unat tail" using False by (metis unsigned_word_eqI)
    have "Suc (room_for tail ?t) = room_for tail temp"
      using t b ne by (auto simp: room_for_def word_less_nat_alt split: if_splits)
    then have "room_for tail ?t \<le> length vs" using Cons.prems(3) by simp
    moreover have "0 < room_for tail ?t" using t b by (auto simp: room_for_def word_less_nat_alt)
    moreover have "?t < 4096" using t b by (simp add: word_less_nat_alt)
    moreover have "vs \<noteq> []" using calculation by auto
    ultimately show ?thesis using Cons.IH [of ?t] Cons.prems(2) False by (simp add: Let_def)
  qed (simp add: Let_def)
qed simp

lemma ring_overflow_empties:
  assumes "ble_rxBufferHeadPos b < 4096" "ble_rxBufferTailPos b < 4096" "data \<noteq> []"
    "room_for (ble_rxBufferTailPos b) (ble_rxBufferHeadPos b) \<le> length data"
  shows "BLE_GetRxBufferBytesAvailable (b\<lparr>ble_rxBuffer := buf,
    ble_rxBufferHeadPos := snd (ble_store (ble_rxBuffer b) (ble_rxBufferTailPos b) (ble_rxBufferHeadPos b) data)\<rparr>) = 0"
  using store_overflow [OF assms(1,2,4,3)] by (simp add: BLE_GetRxBufferBytesAvailable_def)

section \<open>Properties\<close>

text \<open>C35: The host may cut the stream of messages into writes as it likes: if the messages of some frames
  are sent in non-empty writes of at most 256 bytes, starting from an idle assembler and with room
  in the command queue, every write succeeds and the queue gets exactly the command lanes of the
  frames that have one, in order; nothing but the assembler's own buffer changes besides.\<close>

theorem ble_fragmentation:
  assumes "\<forall>f \<in> set fs. length f = 36" "concat ws = concat (List.map message fs)" "\<forall>w \<in> set ws. w \<noteq> [] \<and> length w \<le> 256"
    and "cmd_queue_handle b" "length (ble_sysex_fragment_buffer b) = 48" "ble_sysex_fragment_len b = 0"
    and "length (cmd_queue e) + length fs \<le> 10"
  shows "\<exists>b'. ble_writes ws b e (replicate (length ws) 0) =
      Some (replicate (length ws) (Rc 0), b', e\<lparr>cmd_queue := cmd_queue e @ lane_commands fs\<rparr>, []) \<and>
    same_but_fragment b b' \<and> ble_sysex_fragment_len b' = 0"
proof -
  have a: "assembled fs 0 b" using assms(4-6) by (simp add: assembled_def)
  have q: "queued_after fs 0 e = e" "queued_after fs (48 * length fs) e = e\<lparr>cmd_queue := cmd_queue e @ lane_commands fs\<rparr>"
    by (simp_all add: queued_after_def lane_commands_def)
  show ?thesis using writes_parts [OF assms(1,7,3) _ _ a, of "[]"] assms(2) q by simp
qed

definition ble_reset :: ble where
  "ble_reset = \<lparr>notification_handle = 0, notify_conn_handle = None, cmd_queue_handle = True, ble_rxBuffer = zeros 4096,
     ble_rxBufferHeadPos = 0, ble_rxBufferTailPos = 0, ble_transmitter_mode = 0, ble_sysex_fragment_buffer = zeros 48,
     ble_sysex_fragment_len = 0, notifications = []\<rparr>"

text \<open>Two frames in writes of 20 bytes, the payload of the default MTU; the second one has no command.\<close>

definition twenties :: "u8 list \<Rightarrow> u8 list list" where
  "twenties s = List.map (\<lambda>i. take 20 (drop (20 * i) s)) [0..<5]"

lemma concat_twenties: "length s = 96 \<Longrightarrow> concat (twenties s) = s"
proof -
  assume l: "length s = 96"
  have cut: "take 20 (drop n s) @ drop (n + 20) s = drop n s" for n
    by (metis append_take_drop_id drop_drop add.commute)
  have "take 20 s @ take 20 (drop 20 s) @ take 20 (drop 40 s) @ take 20 (drop 60 s) @ take 20 (drop 80 s) = s"
    using l cut [of 0] cut [of 20] cut [of 40] cut [of 60] by simp
  then show ?thesis by (simp add: twenties_def upt_rec)
qed

theorem ble_fragmentation_witness:
  "\<exists>b'. ble_writes (twenties (message (9 # zeros 35) @ message (zeros 36))) ble_reset esp_usb_reset (replicate 5 0) =
     Some (replicate 5 (Rc 0), b', esp_usb_reset\<lparr>cmd_queue := [ble_command (9 # zeros 17)]\<rparr>, [])"
proof -
  let ?fs = "[9 # zeros 35, zeros 36]" and ?s = "message (9 # zeros 35) @ message (zeros 36)"
  have c: "concat (twenties ?s) = concat (List.map message ?fs)" using concat_twenties [of ?s] by simp
  have w: "\<forall>w \<in> set (twenties ?s). w \<noteq> [] \<and> length w \<le> 256" by (auto simp: twenties_def)
  have l: "lane_commands ?fs = [ble_command (9 # zeros 17)]"
    by (simp add: lane_commands_def zeros_def list_ex_iff)
  show ?thesis
    using ble_fragmentation [of ?fs "twenties ?s" ble_reset esp_usb_reset] c w l
    by (auto simp: ble_reset_def esp_usb_reset_def twenties_def)
qed

text \<open>A read from the Bluetooth ring returns exactly when it asks for more than is there or for at
  most 255 bytes: the loop counter has eight bits, so a satisfiable request for 256 bytes or
  more, which the 4096-byte ring allows, never ends.\<close>

theorem ble_read_returns:
  "BLE_ReadRxBuffer buf len b \<noteq> None \<longleftrightarrow> BLE_GetRxBufferBytesAvailable b < len \<or> len < 256"
proof -
  have "len < 256 \<Longrightarrow> \<exists>r. ble_read_loop 0 len buf b = Some r"
    using read_loop_short [of len 0 buf b] by simp
  moreover have "\<not> len < 256 \<Longrightarrow> ble_read_loop 0 len buf b = None"
    using read_loop_long [of 0 len buf b] by (cases "ble_read_loop 0 len buf b") auto
  ultimately show ?thesis by (cases "len < 256") (auto simp: BLE_ReadRxBuffer_def Let_def)
qed

end
