(* ===== verification/Esp_Spi.thy ===== *)
theory Esp_Spi
  imports Emw_Prelude
begin

text \<open>
  The SPI bus of the ESP32 firmware (\<open>src/esp/main/libraries/spi.c\<close>): one default bus, a device
  handle for every transfer, and eight named profiles that remember a chip-select pin. What the
  SPI driver of ESP-IDF returns, and the bytes it receives, come from the trace; \<open>spi_log\<close> records
  the transfers it was asked for.
\<close>

datatype target = ESP32 | ESP32S2 | ESP32S3

fun EMW_TARGET_SPI_DEFAULT_CS :: "target \<Rightarrow> int" where
  "EMW_TARGET_SPI_DEFAULT_CS ESP32 = 21"
| "EMW_TARGET_SPI_DEFAULT_CS ESP32S2 = 10"
| "EMW_TARGET_SPI_DEFAULT_CS ESP32S3 = 10"

record spi_transfer =
  x_cs :: int
  x_mode :: int
  x_clock :: int
  x_lsb_first :: bool
  x_tx :: "u8 list"

record spi_profile =
  profile_name :: string
  cs_io :: int

record spi_st =
  bus_initialized :: bool
  spi_profiles :: "spi_profile option list"
  spi_log :: "spi_transfer list"

definition spi_init :: "spi_st \<Rightarrow> spi_st" where
  "spi_init s = s\<lparr>bus_initialized := False, spi_profiles := replicate 8 None\<rparr>"

text \<open>0x103 is \<open>ESP_ERR_INVALID_STATE\<close>, an already initialised bus.\<close>

definition spi_boot_init_defaults :: "spi_st \<Rightarrow> trace \<Rightarrow> (spi_st \<times> trace) option" where
  "spi_boot_init_defaults s t =
     (if bus_initialized s then Some (s, t)
      else do {
        (ret, t) \<leftarrow> rd t;
        if ret \<noteq> 0 \<and> ret \<noteq> 0x103 then Some (s, t) else Some (s\<lparr>bus_initialized := True\<rparr>, t) })"

fun find_profile :: "string \<Rightarrow> spi_profile option list \<Rightarrow> nat option" where
  "find_profile name [] = None"
| "find_profile name (slot # slots) =
     (if (case slot of Some p \<Rightarrow> take 64 (profile_name p) = take 64 name | None \<Rightarrow> False) then Some 0
      else map_option Suc (find_profile name slots))"

definition spi_find_profile :: "string \<Rightarrow> spi_st \<Rightarrow> nat option" where
  "spi_find_profile name s = (if name = [] then None else find_profile name (spi_profiles s))"

fun free_profile :: "spi_profile option list \<Rightarrow> nat option" where
  "free_profile [] = None"
| "free_profile (slot # slots) = (if slot = None then Some 0 else map_option Suc (free_profile slots))"

definition spi_alloc_profile :: "spi_st \<Rightarrow> nat option" where
  "spi_alloc_profile s = free_profile (spi_profiles s)"

text \<open>The bytes received, one trace element each.\<close>

fun rd_bytes :: "nat \<Rightarrow> trace \<Rightarrow> (u8 list \<times> trace) option" where
  "rd_bytes 0 t = Some ([], t)"
| "rd_bytes (Suc n) t = do { (b, t) \<leftarrow> rd t; (bs, t) \<leftarrow> rd_bytes n t; Some (ucast b # bs, t) }"

text \<open>\<open>tx\<close> is a buffer that holds at least the bytes clocked out; the result is the error code and the received bytes.\<close>

definition spi_transfer_once :: "target \<Rightarrow> int \<Rightarrow> int \<Rightarrow> int \<Rightarrow> bool \<Rightarrow> u8 list \<Rightarrow> nat \<Rightarrow> nat \<Rightarrow> spi_st \<Rightarrow> trace
    \<Rightarrow> (u32 \<times> u8 list \<times> spi_st \<times> trace) option" where
  "spi_transfer_once tg cs mode clock_hz lsb_first tx tx_len rx_len s t = do {
     (s, t) \<leftarrow> spi_boot_init_defaults s t;
     let cs = (if cs \<le> 0 then EMW_TARGET_SPI_DEFAULT_CS tg else cs);
     let mode = and (if mode < 0 then 0 else mode) 3;
     let clock_hz = (if clock_hz \<le> 0 then 1000000 else clock_hz);
     (ret, t) \<leftarrow> rd t;
     if ret \<noteq> 0 then Some (ret, [], s, t)
     else do {
       let total_len = max tx_len rx_len;
       if total_len = 0 then Some (0x102, [], s, t)
       else do {
         let s = s\<lparr>spi_log := spi_log s @ [\<lparr>x_cs = cs, x_mode = mode, x_clock = clock_hz, x_lsb_first = lsb_first, x_tx = take total_len tx\<rparr>]\<rparr>;
         (ret, t) \<leftarrow> rd t;
         (rx, t) \<leftarrow> rd_bytes (if rx_len > 0 then total_len else 0) t;
         (remove_ret, t) \<leftarrow> rd t;
         if ret \<noteq> 0 then Some (ret, rx, s, t)
         else if remove_ret \<noteq> 0 then Some (remove_ret, rx, s, t)
         else Some (0, rx, s, t) } } }"

section \<open>Text commands\<close>

text \<open>
  A handler of a text command ends with one call of \<open>command_send_ok\<close> or \<open>command_send_err\<close>: its value
  is that reply, which \<open>Esp_Task\<close> sends.
\<close>

datatype reply = CmdOk "u8 list" | CmdErr string

definition text_reply :: "string \<Rightarrow> reply" where
  "text_reply s = CmdOk (List.map of_char s)"

definition spi_open_command :: "string \<Rightarrow> int \<Rightarrow> spi_st \<Rightarrow> reply \<times> spi_st" where
  "spi_open_command name cs s =
     (if name = [] then (CmdErr ''spi open: name'', s)
      else if cs \<le> 0 then (CmdErr ''spi open: cs'', s)
      else case spi_find_profile name s of
        Some i \<Rightarrow>
          (CmdOk [], s\<lparr>spi_profiles := (spi_profiles s)[i := map_option (\<lambda>p. p\<lparr>cs_io := cs\<rparr>) (spi_profiles s ! i)]\<rparr>)
      | None \<Rightarrow>
          (case spi_alloc_profile s of
             None \<Rightarrow> (CmdErr ''spi open: slots'', s)
           | Some i \<Rightarrow> (CmdOk [], s\<lparr>spi_profiles := (spi_profiles s)[i := Some \<lparr>profile_name = take 63 name, cs_io = cs\<rparr>]\<rparr>)))"

definition spi_close_command :: "string \<Rightarrow> spi_st \<Rightarrow> reply \<times> spi_st" where
  "spi_close_command name s = (case spi_find_profile name s of
     None \<Rightarrow> (CmdErr ''spi close: not open'', s)
   | Some i \<Rightarrow> (CmdOk [], s\<lparr>spi_profiles := (spi_profiles s)[i := None]\<rparr>))"

text \<open>\<open>tx\<close> is \<open>None\<close> when the argument is missing. The receive buffer is zero before the transfer.\<close>

definition spi_transfer_command :: "target \<Rightarrow> string \<Rightarrow> u8 list option \<Rightarrow> int \<Rightarrow> int \<Rightarrow> int \<Rightarrow> int \<Rightarrow> bool \<Rightarrow> spi_st \<Rightarrow> trace
    \<Rightarrow> (reply \<times> spi_st \<times> trace) option" where
  "spi_transfer_command tg name tx rx_len cs mode clock_hz lsb_first s t =
     (let bytes = (case tx of None \<Rightarrow> [] | Some bs \<Rightarrow> bs); tx_len = length bytes in
      if tx_len > 64 then Some (CmdErr ''spi xfer: tx size'', s, t)
      else if rx_len < 0 then Some (CmdErr ''spi xfer: rx len'', s, t)
      else
        let rx_count = (if nat rx_len = 0 then tx_len else nat rx_len); total_len = max tx_len rx_count in
        if total_len = 0 then Some (CmdErr ''spi xfer: empty'', s, t)
        else if total_len > 64 then Some (CmdErr ''spi xfer: size'', s, t)
        else do {
          let cs = (if cs \<le> 0 then (case spi_find_profile name s of
                        Some i \<Rightarrow> (case spi_profiles s ! i of Some p \<Rightarrow> cs_io p | None \<Rightarrow> 0)
                      | None \<Rightarrow> EMW_TARGET_SPI_DEFAULT_CS tg)
                    else cs);
          let mode = and (if mode < 0 then 0 else mode) 3;
          let clock_hz = (if clock_hz \<le> 0 then 1000000 else clock_hz);
          (ret, rx, s, t) \<leftarrow> spi_transfer_once tg cs mode clock_hz lsb_first (blit (zeros 64) 0 bytes) total_len rx_count s t;
          if ret \<noteq> 0 then Some (CmdErr ''spi xfer: fail'', s, t)
          else if rx_count > 0 then Some (CmdOk (take rx_count (blit (zeros 64) 0 rx)), s, t)
          else Some (CmdOk [], s, t) })"

end
