(* ===== verification/Cli_Parse.thy ===== *)
theory Cli_Parse
  imports Emw_Prelude
begin

text \<open>
  The text helpers of \<open>Core/Src/main.c\<close>: bounded string building (\<open>strbuf_append\<close>), the in-place
  command line parser and its value parsers. Tokens are pointers into the line buffer in the
  code; every token is terminated in place and never rewritten, so the model keeps their
  values. A C string is its characters without the terminator.
\<close>

section \<open>Bounded string building\<close>

text \<open>The copy loop with the final terminator; \<open>out\<close> is a position inside the buffer.\<close>

fun strbuf_copy :: "char list \<Rightarrow> nat \<Rightarrow> nat \<Rightarrow> string \<Rightarrow> nat \<times> char list" where
  "strbuf_copy buf cap out [] = (out, buf[out := CHR 0x00])"
| "strbuf_copy buf cap out (c # src) =
     (if out + 1 < cap then strbuf_copy (buf[out := c]) cap (out + 1) src
      else (out, buf[out := CHR 0x00]))"

definition strbuf_append :: "char list option \<Rightarrow> nat \<Rightarrow> nat \<Rightarrow> string option \<Rightarrow> nat \<times> char list option" where
  "strbuf_append buf cap offset src =
     (if cap = 0 then (0, buf)
      else case buf of
        None \<Rightarrow> (0, None)
      | Some buf \<Rightarrow>
          (case src of
             None \<Rightarrow>
               let pos = (if offset < cap then offset else cap - 1)
               in (pos, Some (buf[pos := CHR 0x00]))
           | Some src \<Rightarrow>
               let out = (if cap \<le> offset then cap - 1 else offset); (out, buf) = strbuf_copy buf cap out src
               in (out, Some buf)))"

definition strbuf_append_char :: "char list option \<Rightarrow> nat \<Rightarrow> nat \<Rightarrow> char \<Rightarrow> nat \<times> char list option" where
  "strbuf_append_char buf cap offset c = strbuf_append buf cap offset (Some (if c = CHR 0x00 then [] else [c]))"

section \<open>Tokens\<close>

definition is_cli_space :: "char \<Rightarrow> bool" where
  "is_cli_space ch \<longleftrightarrow> ch = CHR '' '' \<or> ch = CHR 0x09 \<or> ch = CHR 0x0D \<or> ch = CHR 0x0A"

text \<open>The token and the new cursor.\<close>

definition next_token :: "string \<Rightarrow> string option \<times> string" where
  "next_token cursor =
     (let p = dropWhile is_cli_space cursor in
      if p = [] then (None, p)
      else
        let start = p;
            p = dropWhile (\<lambda>c. \<not> is_cli_space c) p;
            p' = (if p \<noteq> [] then tl p else p)
        in (Some (take (length start - length p) start), p'))"

record cli_command_view_t =
  verb :: string
  cli_args :: "(string \<times> string) list"
  positional :: "string list"

definition CLI_MAX_ARGS :: nat where "CLI_MAX_ARGS = 10"
definition CLI_MAX_POSITIONAL :: nat where "CLI_MAX_POSITIONAL = 4"

definition add_arg :: "string \<Rightarrow> string \<Rightarrow> cli_command_view_t \<Rightarrow> cli_command_view_t" where
  "add_arg key v out =
     (if length (cli_args out) < CLI_MAX_ARGS then out\<lparr>cli_args := cli_args out @ [(key, v)]\<rparr> else out)"

definition add_positional :: "string \<Rightarrow> cli_command_view_t \<Rightarrow> cli_command_view_t" where
  "add_positional tok out =
     (if length (positional out) < CLI_MAX_POSITIONAL then out\<lparr>positional := positional out @ [tok]\<rparr> else out)"

definition dashes :: "string \<Rightarrow> bool" where
  "dashes tok \<longleftrightarrow> take 2 tok = ''--''"

lemma next_token_length: "next_token s = (Some tok, s') \<Longrightarrow> length s' < length s"
proof -
  assume a: "next_token s = (Some tok, s')"
  let ?p = "dropWhile is_cli_space s"
  have ne: "?p \<noteq> []" using a by (auto simp: next_token_def Let_def split: if_splits)
  then have h: "\<not> is_cli_space (hd ?p)" by (rule hd_dropWhile)
  have "length (dropWhile (\<lambda>c. \<not> is_cli_space c) ?p) < length ?p"
    using ne h by (cases ?p) (auto intro: le_less_trans [OF length_dropWhile_le])
  moreover have "length ?p \<le> length s" by (rule length_dropWhile_le)
  moreover have "length s' \<le> length (dropWhile (\<lambda>c. \<not> is_cli_space c) ?p)"
    using a ne by (auto simp: next_token_def Let_def split: if_splits)
  ultimately show ?thesis by linarith
qed

lemma next_token_lengths:
  "(Some tok, s') = next_token s \<Longrightarrow> length s' < length s" "(None, s') = next_token s \<Longrightarrow> s' = []"
  using next_token_length [of s tok s'] by (auto simp: next_token_def Let_def split: if_splits)

text \<open>The token loop; the pending token is one that was read ahead as a value and turned out to be a key.\<close>

function cli_loop :: "string option \<Rightarrow> string \<Rightarrow> cli_command_view_t \<Rightarrow> cli_command_view_t" where
  "cli_loop pending cursor out =
     (case (case pending of Some tok \<Rightarrow> (Some tok, cursor) | None \<Rightarrow> next_token cursor) of
        (None, cursor) \<Rightarrow> out
      | (Some token, cursor) \<Rightarrow>
          if dashes token then
            let key = drop 2 token in
            if CHR ''='' \<in> set key
            then cli_loop None cursor
                   (add_arg (takeWhile (\<lambda>c. c \<noteq> CHR ''='') key) (tl (dropWhile (\<lambda>c. c \<noteq> CHR ''='') key)) out)
            else (case next_token cursor of
                    (None, cursor) \<Rightarrow> cli_loop None cursor (add_arg key ''1'' out)
                  | (Some nxt, cursor) \<Rightarrow>
                      if dashes nxt then cli_loop (Some nxt) cursor (add_arg key ''1'' out)
                      else cli_loop None cursor (add_arg key nxt out))
          else cli_loop None cursor (add_positional token out))"
  by pat_completeness auto
termination
  by (relation "measure (\<lambda>(pending, cursor, out). 2 * length cursor + (if pending = None then 0 else 1))")
    (auto dest!: next_token_lengths split: option.splits)

declare cli_loop.simps [simp del]

definition parse_cli_command_inplace :: "string \<Rightarrow> cli_command_view_t option" where
  "parse_cli_command_inplace line =
     (case next_token line of
        (None, _) \<Rightarrow> None
      | (Some v, cursor) \<Rightarrow> Some (cli_loop None cursor \<lparr>verb = v, cli_args = [], positional = []\<rparr>))"

definition cli_get_arg_view :: "cli_command_view_t \<Rightarrow> string \<Rightarrow> string option" where
  "cli_get_arg_view cmd key = map_of (cli_args cmd) key"

section \<open>Values\<close>

text \<open>
  \<open>strtol(str, &end, 0)\<close> on a machine with 32-bit \<open>long\<close>: white space, sign, base prefix, digits;
  the value saturates. Without digits the end pointer is the start of the string.
\<close>

definition from_hex :: "char \<Rightarrow> int" where
  "from_hex c =
     (let n = of_char c :: int in
      if 48 \<le> n \<and> n \<le> 57 then n - 48
      else if 97 \<le> n \<and> n \<le> 102 then 10 + (n - 97)
      else if 65 \<le> n \<and> n \<le> 70 then 10 + (n - 65)
      else - 1)"

definition strtol_space :: "char \<Rightarrow> bool" where
  "strtol_space c \<longleftrightarrow> c \<in> set [CHR '' '', CHR 0x09, CHR 0x0A, CHR 0x0B, CHR 0x0C, CHR 0x0D]"

definition is_digit :: "int \<Rightarrow> char \<Rightarrow> bool" where
  "is_digit base c \<longleftrightarrow> 0 \<le> from_hex c \<and> from_hex c < base"

definition digits_value :: "int \<Rightarrow> string \<Rightarrow> int" where
  "digits_value base ds = foldl (\<lambda>v c. v * base + from_hex c) 0 ds"

definition strtol0 :: "string \<Rightarrow> int \<times> string" where
  "strtol0 str =
     (let s = dropWhile strtol_space str;
          neg = (take 1 s = ''-'');
          s = (if take 1 s = ''-'' \<or> take 1 s = ''+'' then tl s else s);
          (base, s) = (if (take 2 s = ''0x'' \<or> take 2 s = ''0X'') \<and> is_digit 16 (hd (drop 2 s @ [CHR 0x00]))
                       then (16, drop 2 s) else if take 1 s = ''0'' then (8, s) else (10, s));
          ds = takeWhile (is_digit base) s;
          v = (if neg then - digits_value base ds else digits_value base ds)
      in if ds = [] then (0, str)
         else (max (- 2147483648) (min 2147483647 v), dropWhile (is_digit base) s))"

definition cli_parse_int :: "string \<Rightarrow> int option" where
  "cli_parse_int str =
     (let (v, rest) = strtol0 str in if length rest = length str \<or> rest \<noteq> [] then None else Some v)"

definition hex_separator :: "char \<Rightarrow> bool" where
  "hex_separator c \<longleftrightarrow> c \<in> set [CHR '' '', CHR 0x09, CHR 0x0D, CHR 0x0A, CHR '','', CHR '':'', CHR ''_'', CHR ''-'']"

text \<open>The character loop; \<open>pend\<close> is the pending high nibble or -1.\<close>

fun hex_loop :: "nat \<Rightarrow> int \<Rightarrow> u8 list \<Rightarrow> string \<Rightarrow> u8 list option" where
  "hex_loop max_len pend out [] = (if 0 \<le> pend then None else Some out)"
| "hex_loop max_len pend out (c # cs) =
     (if c = CHR ''0'' \<and> cs \<noteq> [] \<and> (hd cs = CHR ''x'' \<or> hd cs = CHR ''X'') then hex_loop max_len pend out (tl cs)
      else if hex_separator c then hex_loop max_len pend out cs
      else
        let nib = from_hex c in
        if nib < 0 then None
        else if pend < 0 then hex_loop max_len nib out cs
        else if max_len \<le> length out then None
        else hex_loop max_len (- 1) (out @ [word_of_int (or (push_bit 4 pend) nib)]) cs)"

definition cli_parse_hex_bytes :: "string \<Rightarrow> nat \<Rightarrow> u8 list option" where
  "cli_parse_hex_bytes str max_len = hex_loop max_len (- 1) [] str"

section \<open>Lemmas\<close>

lemma strbuf_copy_spec:
  assumes "out < cap" "length buf = cap"
  shows "strbuf_copy buf cap out src =
    (out + min (cap - 1 - out) (length src),
     blit buf out (take (cap - 1 - out) src @ [CHR 0x00]))"
  using assms
proof (induction src arbitrary: buf out)
  case Nil
  then show ?case by (simp add: list_update_is_blit)
next
  case (Cons c src)
  show ?case
  proof (cases "out + 1 < cap")
    case True
    then obtain m where m: "cap - 1 - out = Suc m" by (metis Suc_diff_Suc diff_diff_left add.commute)
    let ?b = "buf[out := c]"
    have t: "take (Suc out) ?b = take out buf @ [c]" "drop (Suc out + k) ?b = drop (Suc out + k) buf" for k
      using Cons.prems by (simp_all add: take_Suc_conv_app_nth)
    have m2: "cap - 1 - (out + 1) = m" using m by simp
    have "strbuf_copy ?b cap (out + 1) src =
        (out + 1 + min m (length src), blit ?b (out + 1) (take m src @ [CHR 0x00]))"
      using Cons.IH [of "out + 1" ?b] True Cons.prems m2 by simp
    moreover have "blit ?b (out + 1) (take m src @ [CHR 0x00]) = blit buf out (c # take m src @ [CHR 0x00])"
      using t by (simp add: blit_def ac_simps)
    ultimately show ?thesis using True m by simp
  next
    case False
    then have "cap - 1 - out = 0" by simp
    then show ?thesis using False Cons.prems by (simp add: list_update_is_blit)
  qed
qed

definition cli_word :: "string \<Rightarrow> bool" where
  "cli_word w \<longleftrightarrow> w \<noteq> [] \<and> (\<forall>c \<in> set w. \<not> is_cli_space c)"

definition unwords :: "string list \<Rightarrow> string" where
  "unwords ws = concat (map (\<lambda>w. w @ '' '') ws)"

lemma unwords_simps [simp]: "unwords [] = []" "unwords (w # ws) = w @ CHR '' '' # unwords ws"
  by (simp_all add: unwords_def)

lemma space_is_space [simp]: "is_cli_space (CHR '' '')"
  by (simp add: is_cli_space_def)

lemma next_token_Nil [simp]: "next_token [] = (None, [])"
  by (simp add: next_token_def)

lemma next_token_word:
  assumes "cli_word w"
  shows "next_token (w @ CHR '' '' # rest) = (Some w, rest)"
proof -
  obtain c w' where w: "w = c # w'" "\<not> is_cli_space c" "\<forall>c \<in> set w'. \<not> is_cli_space c"
    using assms by (cases w) (auto simp: cli_word_def)
  have d: "dropWhile (\<lambda>c. \<not> is_cli_space c) (w' @ CHR '' '' # rest) = CHR '' '' # rest"
    using w(3) by (subst dropWhile_append2) auto
  then show ?thesis using w by (simp add: next_token_def Let_def)
qed

lemma next_token_unwords: "cli_word w \<Longrightarrow> next_token (unwords (w # ws)) = (Some w, unwords ws)"
  by (simp add: next_token_word)

text \<open>The canonical spelling of bytes, and of a command.\<close>

definition hex_char :: "nat \<Rightarrow> char" where
  "hex_char n = ''0123456789abcdef'' ! n"

definition hex2 :: "u8 \<Rightarrow> string" where
  "hex2 b = [hex_char (unat (drop_bit 4 b)), hex_char (unat (take_bit 4 b))]"

lemma hex_char_table:
  "\<forall>n \<in> set [0..<16]. from_hex (hex_char n) = int n \<and> \<not> hex_separator (hex_char n) \<and>
     hex_char n \<noteq> CHR ''x'' \<and> hex_char n \<noteq> CHR ''X''"
  by code_simp

lemma hex_char_facts:
  assumes "n < 16"
  shows "from_hex (hex_char n) = int n" "\<not> hex_separator (hex_char n)" "hex_char n \<noteq> CHR ''x''" "hex_char n \<noteq> CHR ''X''"
  using hex_char_table assms by auto

lemma nibbles: "unat (drop_bit 4 (b :: u8)) < 16" "unat (take_bit 4 b) < 16"
proof -
  have "unat b < 2 ^ LENGTH(8)" by (rule unsigned_less)
  then show "unat (drop_bit 4 b) < 16" "unat (take_bit 4 b) < 16"
    by (simp_all add: drop_bit_eq_div take_bit_eq_mod unat_div unat_mod)
qed

lemma join_nibbles: "word_of_int (or (push_bit 4 (int (unat (drop_bit 4 b)))) (int (unat (take_bit 4 b)))) = (b :: u8)"
  by (rule bit_word_eqI) (auto simp: bit_simps unsigned_drop_bit_eq unsigned_take_bit_eq dest: bit_imp_le_length)

lemma join_nibbles_uint: "word_of_int (or (push_bit 4 (uint (drop_bit 4 b))) (uint (take_bit 4 b))) = (b :: u8)"
  using join_nibbles [of b] by simp

lemma hex_loop_step:
  assumes "n < 16" "cs = [] \<or> (hd cs \<noteq> CHR ''x'' \<and> hd cs \<noteq> CHR ''X'')"
  shows "hex_loop m pend out (hex_char n # cs) =
    (if pend < 0 then hex_loop m (int n) out cs
     else if m \<le> length out then None
     else hex_loop m (- 1) (out @ [word_of_int (or (push_bit 4 pend) (int n))]) cs)"
  using hex_char_facts [OF assms(1)] assms(2) by (auto simp: Let_def)

lemma hex_loop_bytes:
  "hex_loop m (- 1) out (concat (map hex2 bs)) = (if bs = [] \<or> length out + length bs \<le> m then Some (out @ bs) else None)"
proof (induction bs arbitrary: out)
  case (Cons b bs)
  let ?rest = "concat (map hex2 bs)"
  have r: "?rest = [] \<or> (hd ?rest \<noteq> CHR ''x'' \<and> hd ?rest \<noteq> CHR ''X'')"
    using hex_char_facts(3,4) [OF nibbles(1)] by (cases bs) (auto simp: hex2_def)
  have "hex_loop m (- 1) out (concat (map hex2 (b # bs))) =
      hex_loop m (int (unat (drop_bit 4 b))) out (hex_char (unat (take_bit 4 b)) # ?rest)"
    using hex_char_facts(3,4) [OF nibbles(2)] hex_loop_step [OF nibbles(1)] by (simp add: hex2_def del: hex_loop.simps)
  also have "\<dots> = (if m \<le> length out then None else hex_loop m (- 1) (out @ [b]) ?rest)"
    using hex_loop_step [OF nibbles(2) r] by (simp add: join_nibbles_uint del: hex_loop.simps)
  finally show ?case using Cons.IH by auto
qed simp

definition cli_tokens :: "(string \<times> string) list \<Rightarrow> string list \<Rightarrow> string list" where
  "cli_tokens args pos = concat (map (\<lambda>(k, v). [''--'' @ k, v]) args) @ pos"

definition cli_key :: "string \<Rightarrow> bool" where
  "cli_key k \<longleftrightarrow> CHR ''='' \<notin> set k \<and> (\<forall>c \<in> set k. \<not> is_cli_space c)"

lemma dashes_word: "cli_key k \<Longrightarrow> cli_word (''--'' @ k) \<and> dashes (''--'' @ k)"
  by (auto simp: cli_key_def cli_word_def dashes_def is_cli_space_def)

lemma cli_loop_positional:
  "\<forall>w \<in> set pos. cli_word w \<and> \<not> dashes w \<Longrightarrow> length (positional out) + length pos \<le> CLI_MAX_POSITIONAL \<Longrightarrow>
   cli_loop None (unwords pos) out = out\<lparr>positional := positional out @ pos\<rparr>"
proof (induction pos arbitrary: out)
  case Nil
  show ?case by (subst cli_loop.simps) simp
next
  case (Cons w pos)
  have "cli_loop None (unwords (w # pos)) out = cli_loop None (unwords pos) (add_positional w out)"
    using Cons.prems(1) by (subst cli_loop.simps) (simp add: next_token_word)
  then show ?case using Cons.IH [of "add_positional w out"] Cons.prems by (simp add: add_positional_def)
qed

lemma cli_loop_args:
  "\<forall>(k, v) \<in> set args. cli_key k \<and> cli_word v \<and> \<not> dashes v \<Longrightarrow>
   length (cli_args out) + length args \<le> CLI_MAX_ARGS \<Longrightarrow>
   cli_loop None (unwords (cli_tokens args pos)) out =
     cli_loop None (unwords pos) (out\<lparr>cli_args := cli_args out @ args\<rparr>)"
proof (induction args arbitrary: out)
  case Nil
  show ?case by (simp add: cli_tokens_def)
next
  case (Cons a args)
  obtain k v where a: "a = (k, v)" by (cases a)
  then have kv: "cli_key k" "cli_word v" "\<not> dashes v" using Cons.prems(1) by auto
  have u: "unwords (cli_tokens (a # args) pos) =
      (''--'' @ k) @ CHR '' '' # (v @ CHR '' '' # unwords (cli_tokens args pos))"
    by (simp add: cli_tokens_def a)
  have "cli_loop None (unwords (cli_tokens (a # args) pos)) out =
      cli_loop None (unwords (cli_tokens args pos)) (add_arg k v out)"
    unfolding u using dashes_word [OF kv(1)] kv next_token_word [of "''--'' @ k"] next_token_word [OF kv(2)]
    by (subst cli_loop.simps) (simp add: cli_key_def)
  then show ?case using Cons.IH [of "add_arg k v out"] Cons.prems a by (simp add: add_arg_def)
qed

section \<open>Properties\<close>

text \<open>String building is bounded: the buffer keeps its length, the text is copied from the offset as
  far as it fits with a terminator behind it, everything else is untouched, and the returned
  position is that of the terminator inside the buffer.\<close>

theorem strbuf_append_bounded:
  assumes "length buf = cap" "off < cap"
  shows "strbuf_append (Some buf) cap off (Some src) =
    (min (cap - 1) (off + length src), Some (blit buf off (take (cap - 1 - off) src @ [CHR 0x00]))) \<and>
    length (blit buf off (take (cap - 1 - off) src @ [CHR 0x00])) = cap"
  using strbuf_copy_spec [OF assms(2,1), of src] assms by (auto simp: strbuf_append_def min_def)

theorem strbuf_append_bounded_witness: "fst (strbuf_append (Some ''........'') 8 3 (Some ''emwaver'')) = 7"
  using strbuf_append_bounded [of "''........''" 8 3 "''emwaver''"] by simp

text \<open>A command line spelled from a verb, options and positional words parses back into exactly these,
  up to the ten options and four positional words that are kept.\<close>

theorem cli_parse_roundtrip:
  assumes "cli_word v" "\<forall>(k, x) \<in> set args. cli_key k \<and> cli_word x \<and> \<not> dashes x"
    and "\<forall>w \<in> set pos. cli_word w \<and> \<not> dashes w" "length args \<le> 10" "length pos \<le> 4"
  shows "parse_cli_command_inplace (unwords (v # cli_tokens args pos)) =
    Some \<lparr>verb = v, cli_args = args, positional = pos\<rparr>"
  using cli_loop_args [OF assms(2), of "\<lparr>verb = v, cli_args = [], positional = []\<rparr>" pos]
    cli_loop_positional [OF assms(3), of "\<lparr>verb = v, cli_args = args, positional = []\<rparr>"] assms
  by (simp add: parse_cli_command_inplace_def next_token_word CLI_MAX_ARGS_def CLI_MAX_POSITIONAL_def)

theorem cli_parse_roundtrip_witness:
  "parse_cli_command_inplace ''gpio --pin 4 high '' = Some \<lparr>verb = ''gpio'', cli_args = [(''pin'', ''4'')], positional = [''high'']\<rparr>"
  using cli_parse_roundtrip [of "''gpio''" "[(''pin'', ''4'')]" "[''high'']"]
  by (simp add: cli_word_def cli_key_def dashes_def is_cli_space_def cli_tokens_def)

text \<open>Bytes spelled as pairs of hexadecimal digits parse back into the same bytes when they fit into the
  destination, and are refused as a whole when they do not.\<close>

theorem cli_hex_roundtrip:
  "cli_parse_hex_bytes (concat (map hex2 bs)) max_len = (if length bs \<le> max_len then Some bs else None)"
  using hex_loop_bytes [of max_len "[]" bs] by (auto simp: cli_parse_hex_bytes_def)

end
