(* ===== verification/Esp_Wifi.thy ===== *)
theory Esp_Wifi
  imports Esp_Ble Esp_Spi Cli_Parse
begin

text \<open>
  The Wi-Fi transport of the ESP32 firmware (\<open>src/esp/main/libraries/wifi_transport.c\<close>): the stored
  configuration, the station with its reconnect task, the WebSocket server with its single session,
  and the frames it exchanges. ESP-IDF is below the model: its results are read from the trace. A
  failed \<open>ESP_ERROR_CHECK\<close> aborts the firmware, so the function does not return (\<open>None\<close>); where the
  code tolerates one error code, the trace has 1 for it. The non-volatile storage of the module is a
  map; logs record the station configurations, the frames accepted by the server and the sockets
  closed. Addresses are lists of four bytes.
\<close>

section \<open>State\<close>

record wifi_config =
  ssid :: string
  password :: string
  hostname :: string

record wifi =
  s_cmd_queue :: bool
  s_httpd :: bool
  s_active_fd :: int
  s_session_connected :: bool
  s_config :: wifi_config
  s_has_config :: bool
  s_netif_ready :: bool
  s_station_started :: bool
  s_station_online :: bool
  s_reconnect_attempt :: u8
  s_reconnect_pending :: bool
  s_suppress_next_disconnect_reconnect :: bool
  s_runtime_suspended :: bool
  s_last_disconnect_reason :: u16
  s_station_ip :: string
  s_station_ipv4 :: "u8 list"
  wifi_nvs :: "string \<Rightarrow> string option"
  sta_configs :: "(string \<times> string \<times> bool) list"
  mdns_txt :: "(string \<times> string) list"
  ws_sent :: "(int \<times> u8 list) list"
  closed_fds :: "int list"

definition blank_config :: wifi_config where
  "blank_config = \<lparr>ssid = [], password = [], hostname = []\<rparr>"

definition ESP_ERROR_CHECK :: "trace \<Rightarrow> (unit \<times> trace) option" where
  "ESP_ERROR_CHECK t = do { (err, t) \<leftarrow> rd t; if err = 0 then Some ((), t) else None }"

definition ESP_ERROR_CHECK_unless :: "trace \<Rightarrow> (unit \<times> trace) option" where
  "ESP_ERROR_CHECK_unless t = do { (err, t) \<leftarrow> rd t; if err = 0 \<or> err = 1 then Some ((), t) else None }"

section \<open>Names\<close>

text \<open>\<open>strlcpy\<close> to a buffer of \<open>n\<close> bytes.\<close>

definition strlcpy :: "nat \<Rightarrow> string \<Rightarrow> string" where
  "strlcpy n s = take (n - 1) s"

definition config_field_fits :: "string \<Rightarrow> nat \<Rightarrow> bool" where
  "config_field_fits s max_len \<longleftrightarrow> length s \<le> max_len"

text \<open>The last two bytes of the hardware address, if it can be read.\<close>

definition rd_mac45 :: "trace \<Rightarrow> ((u8 \<times> u8) option \<times> trace) option" where
  "rd_mac45 t = do {
     (err, t) \<leftarrow> rd t;
     if err \<noteq> 0 then Some (None, t)
     else do { (m4, t) \<leftarrow> rd t; (m5, t) \<leftarrow> rd t; Some (Some (ucast m4, ucast m5), t) } }"

definition default_hostname :: "nat \<Rightarrow> trace \<Rightarrow> (string \<times> trace) option" where
  "default_hostname out_len t = do {
     (mac, t) \<leftarrow> rd_mac45 t;
     Some (case mac of
             Some (m4, m5) \<Rightarrow> take (out_len - 1) (''emwaver-'' @ hex2 m4 @ hex2 m5)
           | None \<Rightarrow> strlcpy out_len ''emwaver-esp32'', t) }"

definition is_valid_hostname :: "string \<Rightarrow> bool" where
  "is_valid_hostname h =
     (if h = [] then False
      else if length h > 32 \<or> h ! 0 = CHR ''-'' \<or> h ! (length h - 1) = CHR ''-'' then False
      else list_all (\<lambda>c. let n = of_char c :: nat in (of_char CHR ''0'' \<le> n \<and> n \<le> of_char CHR ''9'') \<or>
              (of_char CHR ''a'' \<le> n \<and> n \<le> of_char CHR ''z'') \<or> c = CHR ''-'') h)"

section \<open>Stored configuration\<close>

text \<open>\<open>nvs_get_str\<close> fails for a missing key and for a buffer that is too small.\<close>

definition nvs_get_str :: "wifi \<Rightarrow> string \<Rightarrow> nat \<Rightarrow> string option" where
  "nvs_get_str w key len = (case wifi_nvs w key of None \<Rightarrow> None | Some v \<Rightarrow> if length v < len then Some v else None)"

definition load_config :: "wifi \<Rightarrow> trace \<Rightarrow> ((bool \<times> wifi_config) \<times> trace) option" where
  "load_config w t = do {
     (err, t) \<leftarrow> rd t;
     if err \<noteq> 0 then Some ((False, blank_config), t)
     else do {
       let s = nvs_get_str w ''ssid'' 33;
       let c = blank_config\<lparr>ssid := (case s of None \<Rightarrow> [] | Some v \<Rightarrow> v)\<rparr>;
       let c = (if s = None then c
                else c\<lparr>password := (case nvs_get_str w ''pass'' 65 of None \<Rightarrow> [] | Some v \<Rightarrow> v),
                       hostname := (case nvs_get_str w ''hostname'' 33 of None \<Rightarrow> [] | Some v \<Rightarrow> v)\<rparr>);
       (c, t) \<leftarrow> (if hostname c = [] \<or> \<not> is_valid_hostname (hostname c)
                  then do { (h, t) \<leftarrow> default_hostname 33 t; Some (c\<lparr>hostname := h\<rparr>, t) } else Some (c, t));
       Some ((s \<noteq> None \<and> ssid c \<noteq> [], c), t) } }"

text \<open>One \<open>nvs_set_str\<close>, skipped after an error.\<close>

definition nvs_put :: "string \<Rightarrow> string \<Rightarrow> u32 \<Rightarrow> wifi \<Rightarrow> trace \<Rightarrow> (u32 \<times> wifi \<times> trace) option" where
  "nvs_put key v err w t =
     (if err \<noteq> 0 then Some (err, w, t)
      else do {
        (err, t) \<leftarrow> rd t;
        Some (err, if err = 0 then w\<lparr>wifi_nvs := (wifi_nvs w)(key \<mapsto> v)\<rparr> else w, t) })"

definition save_config :: "wifi_config \<Rightarrow> wifi \<Rightarrow> trace \<Rightarrow> (u32 \<times> wifi \<times> trace) option" where
  "save_config c w t = do {
     (err, t) \<leftarrow> rd t;
     if err \<noteq> 0 then Some (err, w, t)
     else do {
       (err, w, t) \<leftarrow> nvs_put ''ssid'' (ssid c) 0 w t;
       (err, w, t) \<leftarrow> nvs_put ''pass'' (password c) err w t;
       (err, w, t) \<leftarrow> nvs_put ''hostname'' (hostname c) err w t;
       if err \<noteq> 0 then Some (err, w, t)
       else do { (err, t) \<leftarrow> rd t; Some (err, w, t) } } }"

section \<open>Session and server\<close>

definition clear_active_session_state :: "wifi \<Rightarrow> wifi" where
  "clear_active_session_state w = w\<lparr>s_active_fd := -1, s_session_connected := False\<rparr>"

definition close_session :: "int \<Rightarrow> wifi \<Rightarrow> wifi" where
  "close_session sockfd w =
     (let w = (if sockfd = s_active_fd w then clear_active_session_state w else w)
      in w\<lparr>closed_fds := closed_fds w @ [sockfd]\<rparr>)"

text \<open>The server closes the socket later, through \<open>close_session\<close>.\<close>

definition close_active_session :: "int \<Rightarrow> wifi \<Rightarrow> wifi" where
  "close_active_session sockfd w = (if sockfd = s_active_fd w then clear_active_session_state w else w)"

definition build_mdns_instance_name :: "wifi \<Rightarrow> string" where
  "build_mdns_instance_name w = strlcpy 48 (if hostname (s_config w) \<noteq> [] then hostname (s_config w) else ''emwaver-esp32'')"

definition upper_hex2 :: "u8 \<Rightarrow> string" where
  "upper_hex2 b = [''0123456789ABCDEF'' ! unat (drop_bit 4 b), ''0123456789ABCDEF'' ! unat (take_bit 4 b)]"

definition build_local_id_suffix :: "nat \<Rightarrow> trace \<Rightarrow> (string \<times> trace) option" where
  "build_local_id_suffix out_len t = do {
     (mac, t) \<leftarrow> rd_mac45 t;
     Some (case mac of Some (m4, m5) \<Rightarrow> take (out_len - 1) (upper_hex2 m4 @ upper_hex2 m5) | None \<Rightarrow> strlcpy out_len ''ESP32'', t) }"

text \<open>Board strings of \<open>emw_target.h\<close>, with Bluetooth enabled where the default configuration has it.\<close>

fun EMW_TARGET_BOARD_TYPE :: "target \<Rightarrow> string" where
  "EMW_TARGET_BOARD_TYPE ESP32 = ''esp32''"
| "EMW_TARGET_BOARD_TYPE ESP32S2 = ''esp32s2''"
| "EMW_TARGET_BOARD_TYPE ESP32S3 = ''esp32s3''"

fun EMW_TARGET_CAPABILITIES :: "target \<Rightarrow> string" where
  "EMW_TARGET_CAPABILITIES ESP32 = ''wifi,ble''"
| "EMW_TARGET_CAPABILITIES ESP32S2 = ''wifi,usb''"
| "EMW_TARGET_CAPABILITIES ESP32S3 = ''wifi,usb,ble''"

definition EMWAVER_FIRMWARE_VERSION_STRING :: string where
  "EMWAVER_FIRMWARE_VERSION_STRING = ''1.0.2''"

text \<open>The text records, until one cannot be set.\<close>

fun set_txt :: "(string \<times> string) list \<Rightarrow> wifi \<Rightarrow> trace \<Rightarrow> (wifi \<times> trace) option" where
  "set_txt [] w t = Some (w, t)"
| "set_txt (item # items) w t = do {
     (err, t) \<leftarrow> rd t;
     if err = 0 then set_txt items (w\<lparr>mdns_txt := mdns_txt w @ [item]\<rparr>) t else Some (w, t) }"

definition publish_mdns :: "target \<Rightarrow> wifi \<Rightarrow> trace \<Rightarrow> (bool \<times> wifi \<times> trace) option" where
  "publish_mdns tg w t = do {
     (local_id, t) \<leftarrow> build_local_id_suffix 8 t;
     (err, t) \<leftarrow> rd t;
     if err \<noteq> 0 \<and> err \<noteq> 1 then Some (False, w, t)
     else do {
       (err, t) \<leftarrow> rd t;
       if err \<noteq> 0 then Some (False, w\<lparr>mdns_txt := []\<rparr>, t)
       else do {
         (err, t) \<leftarrow> rd t;
         if err \<noteq> 0 then Some (False, w\<lparr>mdns_txt := []\<rparr>, t)
         else do {
           (err, t) \<leftarrow> rd t;
           if err \<noteq> 0 then Some (False, w\<lparr>mdns_txt := []\<rparr>, t)
           else do {
             (w, t) \<leftarrow> set_txt [(''proto'', ''1''), (''board'', EMW_TARGET_BOARD_TYPE tg), (''fw'', EMWAVER_FIRMWARE_VERSION_STRING),
                (''cap'', EMW_TARGET_CAPABILITIES tg), (''id'', local_id), (''host'', hostname (s_config w))] w t;
             Some (True, w, t) } } } } }"

definition start_server :: "target \<Rightarrow> wifi \<Rightarrow> trace \<Rightarrow> (wifi \<times> trace) option" where
  "start_server tg w t =
     (if s_httpd w then Some (w, t)
      else do {
        (err, t) \<leftarrow> rd t;
        if err \<noteq> 0 then Some (w, t)
        else do {
          (err, t) \<leftarrow> rd t;
          if err \<noteq> 0 then Some (w, t)
          else do {
            (_, w, t) \<leftarrow> publish_mdns tg (w\<lparr>s_httpd := True\<rparr>) t;
            Some (w, t) } } })"

definition stop_server :: "wifi \<Rightarrow> wifi" where
  "stop_server w = w\<lparr>s_httpd := False, mdns_txt := []\<rparr>"

section \<open>The station\<close>

text \<open>The sizes of the fields of \<open>wifi_sta_config_t\<close> in ESP-IDF.\<close>

definition sta_ssid_size :: nat where "sta_ssid_size = 32"
definition sta_password_size :: nat where "sta_password_size = 64"

definition netif_setup :: "wifi \<Rightarrow> trace \<Rightarrow> (wifi \<times> trace) option" where
  "netif_setup w t =
     (if s_netif_ready w then Some (w, t)
      else do {
        (_, t) \<leftarrow> ESP_ERROR_CHECK t;
        (_, t) \<leftarrow> ESP_ERROR_CHECK_unless t;
        (_, t) \<leftarrow> ESP_ERROR_CHECK t;
        (_, t) \<leftarrow> ESP_ERROR_CHECK t;
        (_, t) \<leftarrow> ESP_ERROR_CHECK t;
        Some (w\<lparr>s_netif_ready := True\<rparr>, t) })"

text \<open>The configuration handed to the station: name, password, and whether the network may be open.\<close>

definition station_config :: "wifi_config \<Rightarrow> string \<times> string \<times> bool" where
  "station_config c = (strlcpy sta_ssid_size (ssid c), strlcpy sta_password_size (password c), password c = [])"

definition reset_station :: "wifi \<Rightarrow> wifi" where
  "reset_station w = (clear_active_session_state w)\<lparr>s_station_online := False, s_reconnect_attempt := 0, s_reconnect_pending := False,
     s_last_disconnect_reason := 0, s_station_ip := [], s_station_ipv4 := zeros 4\<rparr>"

definition start_station :: "wifi \<Rightarrow> trace \<Rightarrow> (wifi \<times> trace) option" where
  "start_station w t =
     (if \<not> s_has_config w then Some (w, t)
      else do {
        (w, t) \<leftarrow> netif_setup w t;
        let wifi_config = station_config (s_config w);
        (_, t) \<leftarrow> ESP_ERROR_CHECK t;
        (_, t) \<leftarrow> ESP_ERROR_CHECK t;
        let w = (if s_station_started w
                 then stop_server ((reset_station w)\<lparr>s_suppress_next_disconnect_reconnect := True\<rparr>) else w);
        (_, t) \<leftarrow> ESP_ERROR_CHECK t;
        let w = w\<lparr>sta_configs := sta_configs w @ [wifi_config]\<rparr>;
        if \<not> s_station_started w then do {
          (_, t) \<leftarrow> ESP_ERROR_CHECK t;
          Some (w\<lparr>s_station_started := True\<rparr>, t) }
        else do {
          (_, t) \<leftarrow> ESP_ERROR_CHECK_unless t;
          Some (w, t) } })"

definition wifi_transport_init :: "wifi \<Rightarrow> trace \<Rightarrow> (wifi \<times> trace) option" where
  "wifi_transport_init w t = do {
     ((has, c), t) \<leftarrow> load_config w t;
     let w = w\<lparr>s_cmd_queue := True, s_config := c, s_has_config := has\<rparr>;
     if \<not> s_has_config w then Some (w, t) else start_station w t }"

datatype wifi_err = WIFI_OK | WIFI_INVALID_ARG | WIFI_INVALID_STATE | WIFI_ERR u32

definition wifi_transport_provision :: "string \<Rightarrow> string \<Rightarrow> wifi \<Rightarrow> trace \<Rightarrow> (wifi_err \<times> wifi \<times> trace) option" where
  "wifi_transport_provision name pass w t =
     (if \<not> config_field_fits name 32 \<or> \<not> config_field_fits pass 64 then Some (WIFI_INVALID_ARG, w, t)
      else do {
        let config = blank_config\<lparr>ssid := strlcpy 33 name, password := strlcpy 65 pass\<rparr>;
        (h, t) \<leftarrow> default_hostname 33 t;
        let config = config\<lparr>hostname := h\<rparr>;
        if ssid config = [] then Some (WIFI_INVALID_ARG, w, t)
        else do {
          (err, w, t) \<leftarrow> save_config config w t;
          if err \<noteq> 0 then Some (WIFI_ERR err, w, t)
          else do {
            (w, t) \<leftarrow> start_station (w\<lparr>s_config := config, s_has_config := True\<rparr>) t;
            Some (WIFI_OK, w, t) } } })"

definition wifi_transport_clear_config :: "wifi \<Rightarrow> trace \<Rightarrow> (wifi_err \<times> wifi \<times> trace) option" where
  "wifi_transport_clear_config w t = do {
     (err, t) \<leftarrow> rd t;
     if err \<noteq> 0 then Some (WIFI_ERR err, w, t)
     else do {
       (erased, t) \<leftarrow> rd t;
       let w = (if erased = 0 then w\<lparr>wifi_nvs := (\<lambda>_. None)\<rparr> else w);
       (err, t) \<leftarrow> rd t;
       if err \<noteq> 0 then Some (WIFI_ERR err, w, t)
       else
         let w = (reset_station w)\<lparr>s_config := blank_config, s_has_config := False, s_suppress_next_disconnect_reconnect := False\<rparr>
         in Some (WIFI_OK, (stop_server w)\<lparr>s_station_started := False\<rparr>, t) } }"

definition wifi_transport_suspend_runtime :: "wifi \<Rightarrow> wifi" where
  "wifi_transport_suspend_runtime w =
     stop_server ((reset_station (w\<lparr>s_runtime_suspended := True\<rparr>))\<lparr>s_station_started := False,
       s_suppress_next_disconnect_reconnect := True\<rparr>)"

definition wifi_transport_resume_runtime :: "wifi \<Rightarrow> trace \<Rightarrow> (wifi \<times> trace) option" where
  "wifi_transport_resume_runtime w t =
     (if \<not> s_runtime_suspended w then Some (w, t)
      else
        let w = w\<lparr>s_runtime_suspended := False, s_suppress_next_disconnect_reconnect := False\<rparr>
        in if s_has_config w then start_station w t else Some (w, t))"

definition wifi_transport_station_ipv4 :: "wifi \<Rightarrow> u8 list option" where
  "wifi_transport_station_ipv4 w = (if \<not> s_station_online w \<or> s_station_ip w = [] then None else Some (s_station_ipv4 w))"

section \<open>Events and the reconnect task\<close>

datatype wifi_event = WIFI_EVENT_STA_START | WIFI_EVENT_STA_DISCONNECTED "u8 option" | IP_EVENT_STA_GOT_IP "(u8 \<times> u8 \<times> u8 \<times> u8) option"

function decimal :: "nat \<Rightarrow> string" where
  "decimal n = (if n < 10 then [hex_char n] else decimal (n div 10) @ [hex_char (n mod 10)])"
  by pat_completeness auto
termination
  by (relation "measure id") auto

declare decimal.simps [simp del]

text \<open>The flag of the result tells whether a reconnect task was created.\<close>

definition wifi_event_handler :: "target \<Rightarrow> wifi_event \<Rightarrow> wifi \<Rightarrow> trace \<Rightarrow> (bool \<times> wifi \<times> trace) option" where
  "wifi_event_handler tg ev w t = (case ev of
     WIFI_EVENT_STA_START \<Rightarrow> Some (False, w\<lparr>s_station_started := True\<rparr>, t)
   | WIFI_EVENT_STA_DISCONNECTED disconnected \<Rightarrow>
       let w = w\<lparr>s_last_disconnect_reason := (case disconnected of Some reason \<Rightarrow> ucast reason | None \<Rightarrow> 0)\<rparr>;
           w = (clear_active_session_state w)\<lparr>s_station_online := False, s_station_ip := [], s_station_ipv4 := zeros 4\<rparr>;
           w = stop_server w
       in if s_suppress_next_disconnect_reconnect w
          then Some (False, w\<lparr>s_last_disconnect_reason := 0, s_suppress_next_disconnect_reconnect := False\<rparr>, t)
          else if s_has_config w \<and> \<not> s_reconnect_pending w then do {
            (created, t) \<leftarrow> rd t;
            if created \<noteq> 1 then Some (False, w\<lparr>s_reconnect_pending := False\<rparr>, t)
            else Some (True, w\<lparr>s_reconnect_pending := True\<rparr>, t) }
          else Some (False, w, t)
   | IP_EVENT_STA_GOT_IP got_ip \<Rightarrow> do {
       let w = (case got_ip of
                  Some (a, b, c, d) \<Rightarrow> w\<lparr>s_station_ip := take 15 (decimal (unat a) @ ''.'' @ decimal (unat b) @ ''.'' @
                    decimal (unat c) @ ''.'' @ decimal (unat d)), s_station_ipv4 := [a, b, c, d]\<rparr>
                | None \<Rightarrow> w\<lparr>s_station_ip := [], s_station_ipv4 := zeros 4\<rparr>);
       (w, t) \<leftarrow> start_server tg (w\<lparr>s_station_online := True, s_reconnect_attempt := 0, s_reconnect_pending := False,
         s_last_disconnect_reason := 0\<rparr>) t;
       Some (False, w, t) })"

text \<open>The loop that doubles the delay, and the two halves of the task around its sleep.\<close>

function backoff :: "u8 \<Rightarrow> u8 \<Rightarrow> u32 \<Rightarrow> u32" where
  "backoff i attempt delay_ms =
     (if i < attempt \<and> delay_ms < 30000
      then let delay_ms = delay_ms * 2; delay_ms = (if delay_ms > 30000 then 30000 else delay_ms)
           in backoff (i + 1) attempt delay_ms
      else delay_ms)"
  by pat_completeness auto

lemma u8_Suc: "i < (a :: u8) \<Longrightarrow> unat (i + 1) = Suc (unat i) \<and> unat (i + 1) \<le> unat a"
proof -
  assume "i < a"
  then have "unat i < unat a" by (simp add: word_less_nat_alt)
  moreover have "unat a < 256" using unsigned_less [of a] by simp
  ultimately show ?thesis by (simp add: unat_word_ariths)
qed

termination backoff
  by (relation "measure (\<lambda>(i, attempt, delay_ms). unat attempt - unat i)") (use u8_Suc in \<open>auto simp: word_less_nat_alt\<close>)

declare backoff.simps [simp del]

definition wifi_reconnect_delay :: "wifi \<Rightarrow> u32 \<times> wifi" where
  "wifi_reconnect_delay w =
     (backoff 0 (s_reconnect_attempt w) 1000,
      if s_reconnect_attempt w < 8 then w\<lparr>s_reconnect_attempt := s_reconnect_attempt w + 1\<rparr> else w)"

definition wifi_reconnect_wake :: "wifi \<Rightarrow> wifi" where
  "wifi_reconnect_wake w = w\<lparr>s_reconnect_pending := False\<rparr>"

section \<open>Frames\<close>

text \<open>The codec is the text of that in \<open>usb.c\<close>.\<close>

definition wifi_decode_payload_7bit_fixed :: "u8 list \<Rightarrow> u8 list option" where
  "wifi_decode_payload_7bit_fixed inp = esp_decode_loop inp 0 []"

definition wifi_encode_payload_7bit_fixed :: "u8 list \<Rightarrow> u8 list" where
  "wifi_encode_payload_7bit_fixed inp = esp_encode_loop inp 0 []"

lemma wifi_codec_eq:
  "wifi_decode_payload_7bit_fixed = decode_payload_7bit_fixed" "wifi_encode_payload_7bit_fixed = encode_payload_7bit_fixed"
  by (simp_all add: fun_eq_iff wifi_decode_payload_7bit_fixed_def decode_payload_7bit_fixed_def esp_decode_loop_eq
      wifi_encode_payload_7bit_fixed_def encode_payload_7bit_fixed_def esp_encode_loop_eq)

definition wifi_send_superframe :: "u8 list \<Rightarrow> wifi \<Rightarrow> trace \<Rightarrow> (wifi_err \<times> wifi \<times> trace) option" where
  "wifi_send_superframe frame w t = do {
     let sysex = [0xF0, 0x7D, 0x45, 0x4D, 0x57] @ wifi_encode_payload_7bit_fixed frame @ [0xF7];
     (err, t) \<leftarrow> rd t;
     if err \<noteq> 0 then Some (WIFI_ERR err, w, t)
     else Some (WIFI_OK, w\<lparr>ws_sent := ws_sent w @ [(s_active_fd w, sysex)]\<rparr>, t) }"

definition wifi_transport_send_cmd_response :: "u8 \<Rightarrow> u8 list \<Rightarrow> wifi \<Rightarrow> trace \<Rightarrow> (wifi_err \<times> wifi \<times> trace) option" where
  "wifi_transport_send_cmd_response status payload w t =
     (if \<not> s_httpd w \<or> s_active_fd w < 0 then Some (WIFI_INVALID_STATE, w, t)
      else wifi_send_superframe (blit (zeros 36) 0 (status # take 17 payload)) w t)"

definition wifi_transport_send_stream_lane :: "u8 list \<Rightarrow> wifi \<Rightarrow> trace \<Rightarrow> (wifi_err \<times> wifi \<times> trace) option" where
  "wifi_transport_send_stream_lane stream_lane w t =
     (if \<not> s_httpd w \<or> s_active_fd w < 0 then Some (WIFI_INVALID_STATE, w, t)
      else wifi_send_superframe (blit (zeros 36) 18 stream_lane) w t)"

definition wifi_transport_send_buffer_status :: "u16 \<Rightarrow> wifi \<Rightarrow> trace \<Rightarrow> (wifi_err \<times> wifi \<times> trace) option" where
  "wifi_transport_send_buffer_status status w t =
     (if \<not> s_httpd w \<or> s_active_fd w < 0 then Some (WIFI_INVALID_STATE, w, t)
      else wifi_send_superframe (blit (zeros 36) 18 [0x42, 0x53, ucast (drop_bit 8 status), ucast (status AND 0xFF)]) w t)"

definition wifi_command :: "u8 list \<Rightarrow> command_t" where
  "wifi_command lane = \<lparr>cmd_data = blit (zeros 256) 0 lane, cmd_length = 18, cmd_source = EMW_COMMAND_SOURCE_WIFI\<rparr>"

text \<open>The stream lane goes to the playback ring of \<open>usb.c\<close>.\<close>

definition wifi_ingest_stream :: "bool \<Rightarrow> u8 list \<Rightarrow> wifi \<Rightarrow> esp_usb \<Rightarrow> trace \<Rightarrow> (wifi \<times> esp_usb \<times> trace) option" where
  "wifi_ingest_stream wanted stream_lane w e t =
     (if \<not> wanted then Some (w, e, t)
      else do {
        (ok, s, t) \<leftarrow> transport_session_allows_stream EMW_COMMAND_SOURCE_WIFI (sess e) t;
        let e = e\<lparr>sess := s\<rparr>;
        if \<not> ok then Some (w, e, t)
        else case usb_ingest_stream_lane stream_lane e of
               (None, e) \<Rightarrow> Some (w, e, t)
             | (Some bytes_available, e) \<Rightarrow> do {
                 (_, w, t) \<leftarrow> wifi_transport_send_buffer_status bytes_available w t;
                 Some (w, e, t) } })"

definition enqueue_sysex :: "u8 list \<Rightarrow> wifi \<Rightarrow> esp_usb \<Rightarrow> trace \<Rightarrow> (bool \<times> wifi \<times> esp_usb \<times> trace) option" where
  "enqueue_sysex sysex w e t =
     (if \<not> s_cmd_queue w then Some (False, w, e, t)
      else if sysex ! 0 \<noteq> 0xF0 \<or> sysex ! 1 \<noteq> 0x7D \<or> sysex ! 2 \<noteq> 0x45 \<or> sysex ! 3 \<noteq> 0x4D \<or> sysex ! 4 \<noteq> 0x57 \<or>
         sysex ! 47 \<noteq> 0xF7 then Some (False, w, e, t)
      else case wifi_decode_payload_7bit_fixed (take 42 (drop 5 sysex)) of
        None \<Rightarrow> Some (False, w, e, t)
      | Some decoded \<Rightarrow> do {
          let cmd_any = list_ex (\<lambda>v. v \<noteq> 0) (take 18 decoded);
          let stream_lane = drop 18 decoded;
          let stream_any = list_ex (\<lambda>v. v \<noteq> 0) stream_lane;
          (w, e, t) \<leftarrow> wifi_ingest_stream (stream_any \<or> \<not> cmd_any) stream_lane w e t;
          if \<not> cmd_any then Some (True, w, e, t)
          else Some (length (cmd_queue e) < 10, w, queue_cmd (wifi_command (take 18 decoded)) e, t) })"

text \<open>
  A request of the WebSocket: its opening, or a frame with its type and payload. The trace has the
  results of receiving the header, the payload, and of the frames sent. The result is \<open>ESP_OK\<close>.
\<close>

datatype ws_request = WsOpen | WsFrame bool "u8 list"

definition ws_handler :: "int \<Rightarrow> ws_request \<Rightarrow> wifi \<Rightarrow> esp_usb \<Rightarrow> trace \<Rightarrow> (bool \<times> wifi \<times> esp_usb \<times> trace) option" where
  "ws_handler current_fd req w e t = (case req of
     WsOpen \<Rightarrow>
       if s_active_fd w \<ge> 0 \<and> s_active_fd w \<noteq> current_fd then Some (False, w, e, t)
       else Some (True, w\<lparr>s_active_fd := current_fd, s_session_connected := True\<rparr>, e, t)
   | WsFrame binary payload \<Rightarrow> do {
       (err, t) \<leftarrow> rd t;
       if err \<noteq> 0 \<or> length payload = 0 \<or> length payload > 256 then Some (False, close_active_session current_fd w, e, t)
       else do {
         (err, t) \<leftarrow> rd t;
         if err \<noteq> 0 then Some (False, close_active_session current_fd w, e, t)
         else if s_active_fd w \<ge> 0 \<and> s_active_fd w \<noteq> current_fd then Some (False, w, e, t)
         else if \<not> binary \<or> length payload \<noteq> 48 then Some (False, close_active_session current_fd w, e, t)
         else do {
           (ok, w, e, t) \<leftarrow> enqueue_sysex (blit (zeros 256) 0 payload) w e t;
           if \<not> ok then Some (False, close_active_session current_fd w, e, t) else Some (True, w, e, t) } } })"

section \<open>Reachable states\<close>

text \<open>
  What can happen to the module: calls of the command interpreter and of the update front end,
  events of the network stack, the reconnect task, and requests, which the server only delivers
  while it runs, on sockets with non-negative numbers.
\<close>

inductive wifi_step :: "target \<Rightarrow> wifi \<Rightarrow> wifi \<Rightarrow> bool" for tg where
  provision: "wifi_transport_provision name pass w t = Some (err, w', t') \<Longrightarrow> wifi_step tg w w'"
| clear: "wifi_transport_clear_config w t = Some (err, w', t') \<Longrightarrow> wifi_step tg w w'"
| suspend: "wifi_step tg w (wifi_transport_suspend_runtime w)"
| resume: "wifi_transport_resume_runtime w t = Some (w', t') \<Longrightarrow> wifi_step tg w w'"
| event: "wifi_event_handler tg ev w t = Some (c, w', t') \<Longrightarrow> wifi_step tg w w'"
| delay: "wifi_step tg w (snd (wifi_reconnect_delay w))"
| wake: "wifi_step tg w (wifi_reconnect_wake w)"
| request: "s_httpd w \<Longrightarrow> 0 \<le> fd \<Longrightarrow> ws_handler fd req w e t = Some (ok, w', e', t') \<Longrightarrow> wifi_step tg w w'"
| closed: "wifi_step tg w (close_session fd w)"
| response: "wifi_transport_send_cmd_response status payload w t = Some (err, w', t') \<Longrightarrow> wifi_step tg w w'"
| stream: "wifi_transport_send_stream_lane lane w t = Some (err, w', t') \<Longrightarrow> wifi_step tg w w'"

definition wifi_boot :: wifi where
  "wifi_boot = \<lparr>s_cmd_queue = False, s_httpd = False, s_active_fd = -1, s_session_connected = False, s_config = blank_config,
     s_has_config = False, s_netif_ready = False, s_station_started = False, s_station_online = False, s_reconnect_attempt = 0,
     s_reconnect_pending = False, s_suppress_next_disconnect_reconnect = False, s_runtime_suspended = False,
     s_last_disconnect_reason = 0, s_station_ip = [], s_station_ipv4 = zeros 4, wifi_nvs = (\<lambda>_. None), sta_configs = [],
     mdns_txt = [], ws_sent = [], closed_fds = []\<rparr>"

inductive wifi_reach :: "target \<Rightarrow> wifi \<Rightarrow> bool" for tg where
  init: "wifi_transport_init (wifi_boot\<lparr>wifi_nvs := nvs\<rparr>) t = Some (w, t') \<Longrightarrow> wifi_reach tg w"
| step: "wifi_reach tg w \<Longrightarrow> wifi_step tg w w' \<Longrightarrow> wifi_reach tg w'"

text \<open>
  The invariant: the two session variables agree, a session needs the server, the server a station
  that is online, the reconnect counter stops at eight, and the strings fit their buffers.
\<close>

definition wifi_inv :: "wifi \<Rightarrow> bool" where
  "wifi_inv w \<longleftrightarrow> (s_session_connected w \<longleftrightarrow> 0 \<le> s_active_fd w) \<and> (0 \<le> s_active_fd w \<longrightarrow> s_httpd w) \<and>
     (s_httpd w \<longrightarrow> s_station_online w) \<and> s_reconnect_attempt w \<le> 8 \<and>
     length (ssid (s_config w)) \<le> 32 \<and> length (password (s_config w)) \<le> 64 \<and> length (hostname (s_config w)) \<le> 32 \<and>
     length (s_station_ip w) \<le> 15 \<and> length (s_station_ipv4 w) = 4 \<and> (s_has_config w \<longrightarrow> ssid (s_config w) \<noteq> [])"

lemma nvs_get_short: "nvs_get_str w k n = Some v \<Longrightarrow> length v < n"
  by (simp add: nvs_get_str_def split: option.splits if_splits)

lemma default_hostname_short: "default_hostname 33 t = Some (h, t') \<Longrightarrow> length h \<le> 32"
  by (auto simp: default_hostname_def strlcpy_def bind_eq_Some_conv split: option.splits)

lemma load_config_bounds:
  assumes "load_config w t = Some ((has, c), t')"
  shows "length (ssid c) \<le> 32" "length (password c) \<le> 64" "length (hostname c) \<le> 32" "has \<Longrightarrow> ssid c \<noteq> []"
  using assms
  by (auto simp: load_config_def blank_config_def bind_eq_Some_conv Let_def dest!: nvs_get_short default_hostname_short
      split: option.splits if_splits)

text \<open>Preservation, operation by operation.\<close>

lemma inv_frame [simp]: "wifi_inv (w\<lparr>mdns_txt := m\<rparr>) = wifi_inv w" "wifi_inv (w\<lparr>wifi_nvs := n\<rparr>) = wifi_inv w"
  "wifi_inv (w\<lparr>s_netif_ready := r\<rparr>) = wifi_inv w" "wifi_inv (w\<lparr>sta_configs := c\<rparr>) = wifi_inv w"
  "wifi_inv (w\<lparr>ws_sent := x\<rparr>) = wifi_inv w" "wifi_inv (w\<lparr>s_station_started := b\<rparr>) = wifi_inv w"
  "wifi_inv (w\<lparr>closed_fds := f\<rparr>) = wifi_inv w" "wifi_inv (w\<lparr>s_reconnect_pending := b\<rparr>) = wifi_inv w"
  "wifi_inv (w\<lparr>s_cmd_queue := b\<rparr>) = wifi_inv w"
  "wifi_inv (w\<lparr>s_suppress_next_disconnect_reconnect := b\<rparr>) = wifi_inv w" "wifi_inv (w\<lparr>s_last_disconnect_reason := u\<rparr>) = wifi_inv w"
  "wifi_inv (w\<lparr>s_runtime_suspended := b\<rparr>) = wifi_inv w"
  by (simp_all add: wifi_inv_def)

lemma inv_clear_session: "wifi_inv w \<Longrightarrow> wifi_inv (clear_active_session_state w)"
  by (simp add: wifi_inv_def clear_active_session_state_def)

lemma inv_close: "wifi_inv w \<Longrightarrow> wifi_inv (close_active_session fd w)" "wifi_inv w \<Longrightarrow> wifi_inv (close_session fd w)"
  by (simp_all add: close_active_session_def close_session_def Let_def inv_clear_session)

lemma set_txt_inv: "wifi_inv w \<Longrightarrow> set_txt items w t = Some (w', t') \<Longrightarrow> wifi_inv w' \<and> s_station_online w' = s_station_online w"
proof (induction items arbitrary: w t)
  case (Cons item items)
  from Cons.prems(2) consider "w' = w" | t1 where "set_txt items (w\<lparr>mdns_txt := mdns_txt w @ [item]\<rparr>) t1 = Some (w', t')"
    by (auto simp: bind_eq_Some_conv split: if_splits)
  then show ?case
  proof cases
    case 2
    then show ?thesis using Cons.IH [OF _ 2] Cons.prems(1) by simp
  qed (use Cons.prems(1) in simp)
qed simp

abbreviation keeps2 :: "(wifi \<times> trace) option \<Rightarrow> bool" where
  "keeps2 \<equiv> post (\<lambda>(w', t'). wifi_inv w')"

abbreviation keeps3 :: "('a \<times> wifi \<times> trace) option \<Rightarrow> bool" where
  "keeps3 \<equiv> post (\<lambda>(r, w', t'). wifi_inv w')"

lemma set_txt_post: "wifi_inv w \<Longrightarrow> keeps2 (set_txt items w t)"
  using set_txt_inv by (auto simp: post_def)

lemma publish_inv: "wifi_inv w \<Longrightarrow> keeps3 (publish_mdns tg w t)"
proof -
  assume w: "wifi_inv w"
  have l: "post (\<lambda>_. True) (build_local_id_suffix 8 t)" by (simp add: post_def)
  show ?thesis unfolding publish_mdns_def
    by (auto intro!: post_rules post_mono [OF l] post_mono [OF set_txt_post] w simp del: set_txt.simps simp: w)
qed

lemma start_server_inv:
  assumes "wifi_inv w" "s_station_online w"
  shows "keeps2 (start_server tg w t)"
proof -
  have "wifi_inv (w\<lparr>s_httpd := True\<rparr>)" using assms by (simp add: wifi_inv_def)
  then show ?thesis unfolding start_server_def
    by (auto intro!: post_rules post_mono [OF publish_inv] simp: assms)
qed

lemma nvs_put_inv: "wifi_inv w \<Longrightarrow> nvs_put k v err w t = Some (err', w', t') \<Longrightarrow> wifi_inv w'"
  by (auto simp: nvs_put_def bind_eq_Some_conv split: if_splits)

lemma save_config_inv: "wifi_inv w \<Longrightarrow> save_config c w t = Some (err', w', t') \<Longrightarrow> wifi_inv w'"
  by (auto simp: save_config_def bind_eq_Some_conv dest!: nvs_put_inv [rotated] del: rd_length split: if_splits)

lemma netif_setup_inv: "wifi_inv w \<Longrightarrow> netif_setup w t = Some (w', t') \<Longrightarrow> wifi_inv w'"
  by (auto simp: netif_setup_def bind_eq_Some_conv split: if_splits)

lemma inv_reset: "wifi_inv w \<Longrightarrow> wifi_inv (stop_server ((reset_station w)\<lparr>s_suppress_next_disconnect_reconnect := b\<rparr>))"
  by (simp add: wifi_inv_def stop_server_def reset_station_def clear_active_session_state_def)

lemma netif_setup_post: "wifi_inv w \<Longrightarrow> keeps2 (netif_setup w t)"
  using netif_setup_inv by (auto simp: post_def)

lemma start_station_post: "wifi_inv w \<Longrightarrow> keeps2 (start_station w t)"
  unfolding start_station_def ESP_ERROR_CHECK_def ESP_ERROR_CHECK_unless_def Let_def
  by (auto intro!: post_rules post_mono [OF netif_setup_post] simp: inv_reset)

lemma start_station_inv: "wifi_inv w \<Longrightarrow> start_station w t = Some (w', t') \<Longrightarrow> wifi_inv w'"
  using postD [OF start_station_post] by auto

lemma inv_configured:
  "wifi_inv w \<Longrightarrow> length (ssid c) \<le> 32 \<Longrightarrow> length (password c) \<le> 64 \<Longrightarrow> length (hostname c) \<le> 32 \<Longrightarrow> ssid c \<noteq> [] \<Longrightarrow>
   wifi_inv (w\<lparr>s_config := c, s_has_config := True\<rparr>)"
  by (simp add: wifi_inv_def)

lemma provision_post: "wifi_inv w \<Longrightarrow> keeps3 (wifi_transport_provision name pass w t)"
proof -
  assume w: "wifi_inv w"
  have h: "post (\<lambda>(h, t'). length h \<le> 32) (default_hostname 33 t)"
    using default_hostname_short by (auto simp: post_def)
  have sv: "keeps3 (save_config c w t1)" for c t1
    using save_config_inv [OF w] by (auto simp: post_def)
  show ?thesis
    unfolding wifi_transport_provision_def Let_def
    by (auto intro!: post_rules post_mono [OF h] post_mono [OF sv] post_mono [OF start_station_post] inv_configured w
        simp: blank_config_def strlcpy_def)
qed

lemma provision_inv: "wifi_inv w \<Longrightarrow> wifi_transport_provision name pass w t = Some (err, w', t') \<Longrightarrow> wifi_inv w'"
  using postD [OF provision_post] by auto

lemma clear_inv: "wifi_inv w \<Longrightarrow> wifi_transport_clear_config w t = Some (err, w', t') \<Longrightarrow> wifi_inv w'"
proof -
  assume w: "wifi_inv w" and s: "wifi_transport_clear_config w t = Some (err, w', t')"
  have c: "wifi_inv (stop_server ((reset_station v)\<lparr>s_config := blank_config, s_has_config := False, s_suppress_next_disconnect_reconnect := False\<rparr>))"
    if "wifi_inv v" for v
    using that by (simp add: wifi_inv_def stop_server_def reset_station_def clear_active_session_state_def blank_config_def)
  have "keeps3 (wifi_transport_clear_config w t)"
    unfolding wifi_transport_clear_config_def Let_def by (auto intro!: post_rules simp: w c)
  from postD [OF this s] show "wifi_inv w'" by simp
qed

lemma suspend_inv: "wifi_inv w \<Longrightarrow> wifi_inv (wifi_transport_suspend_runtime w)"
  by (simp add: wifi_transport_suspend_runtime_def wifi_inv_def stop_server_def reset_station_def clear_active_session_state_def)

lemma resume_inv: "wifi_inv w \<Longrightarrow> wifi_transport_resume_runtime w t = Some (w', t') \<Longrightarrow> wifi_inv w'"
  by (auto simp: wifi_transport_resume_runtime_def Let_def elim: start_station_inv [rotated] split: if_splits)

lemma init_inv: "wifi_transport_init (wifi_boot\<lparr>wifi_nvs := nvs\<rparr>) t = Some (w, t') \<Longrightarrow> wifi_inv w"
proof -
  assume a: "wifi_transport_init (wifi_boot\<lparr>wifi_nvs := nvs\<rparr>) t = Some (w, t')"
  then obtain has c t1 where l: "load_config (wifi_boot\<lparr>wifi_nvs := nvs\<rparr>) t = Some ((has, c), t1)"
    by (auto simp: wifi_transport_init_def bind_eq_Some_conv)
  let ?w = "wifi_boot\<lparr>wifi_nvs := nvs, s_cmd_queue := True, s_config := c, s_has_config := has\<rparr>"
  have "wifi_inv ?w" using load_config_bounds [OF l] by (simp add: wifi_inv_def wifi_boot_def)
  moreover have "?w = w \<or> (\<exists>t2 t3. start_station ?w t2 = Some (w, t3))"
    using a l by (auto simp: wifi_transport_init_def bind_eq_Some_conv Let_def split: if_splits)
  ultimately show ?thesis using start_station_inv by blast
qed

lemma event_inv:
  assumes "wifi_inv w" "wifi_event_handler tg ev w t = Some (c, w', t')"
  shows "wifi_inv w'"
proof (cases ev)
  case (IP_EVENT_STA_GOT_IP got_ip)
  obtain ip ip4 t1 where s: "start_server tg (w\<lparr>s_station_ip := ip, s_station_ipv4 := ip4, s_station_online := True, s_reconnect_attempt := 0,
      s_reconnect_pending := False, s_last_disconnect_reason := 0\<rparr>) t = Some (w', t1)" "length ip \<le> 15" "length ip4 = 4"
    using assms(2) IP_EVENT_STA_GOT_IP by (auto simp: wifi_event_handler_def bind_eq_Some_conv split: option.splits)
  have "wifi_inv (w\<lparr>s_station_ip := ip, s_station_ipv4 := ip4, s_station_online := True, s_reconnect_attempt := 0,
      s_reconnect_pending := False, s_last_disconnect_reason := 0\<rparr>)"
    using assms(1) s(2,3) by (simp add: wifi_inv_def)
  from postD [OF start_server_inv [OF this] s(1)] show ?thesis by simp
next
  case (WIFI_EVENT_STA_DISCONNECTED d)
  have "wifi_inv (stop_server (clear_active_session_state v\<lparr>s_station_online := False, s_station_ip := [], s_station_ipv4 := zeros 4\<rparr>))"
    if "wifi_inv v" for v
    using that by (simp add: wifi_inv_def stop_server_def clear_active_session_state_def)
  then show ?thesis
    using assms WIFI_EVENT_STA_DISCONNECTED by (auto simp: wifi_event_handler_def bind_eq_Some_conv Let_def split: if_splits)
next
  case WIFI_EVENT_STA_START
  then show ?thesis using assms by (auto simp: wifi_event_handler_def)
qed

lemma send_inv:
  "wifi_inv w \<Longrightarrow> wifi_transport_send_cmd_response status payload w t = Some (err, w', t') \<Longrightarrow> wifi_inv w'"
  "wifi_inv w \<Longrightarrow> wifi_transport_send_stream_lane lane w t = Some (err, w', t') \<Longrightarrow> wifi_inv w'"
  "wifi_inv w \<Longrightarrow> wifi_transport_send_buffer_status n w t = Some (err, w', t') \<Longrightarrow> wifi_inv w'"
  by (auto simp: wifi_transport_send_cmd_response_def wifi_transport_send_stream_lane_def wifi_transport_send_buffer_status_def
      wifi_send_superframe_def bind_eq_Some_conv Let_def split: if_splits)

lemma ingest_inv: "wifi_inv w \<Longrightarrow> wifi_ingest_stream wanted lane w e t = Some (w', e', t') \<Longrightarrow> wifi_inv w'"
  by (auto simp: wifi_ingest_stream_def bind_eq_Some_conv Let_def dest: send_inv split: if_splits option.splits prod.splits)

lemma enqueue_inv: "wifi_inv w \<Longrightarrow> enqueue_sysex s w e t = Some (ok, w', e', t') \<Longrightarrow> wifi_inv w'"
  by (auto simp: enqueue_sysex_def bind_eq_Some_conv Let_def dest: ingest_inv split: if_splits option.splits)

lemma ws_inv:
  assumes "wifi_inv w" "s_httpd w" "0 \<le> fd" "ws_handler fd req w e t = Some (ok, w', e', t')"
  shows "wifi_inv w'"
proof -
  have "wifi_inv (w\<lparr>s_active_fd := fd, s_session_connected := True\<rparr>)" using assms(1-3) by (simp add: wifi_inv_def)
  then show ?thesis
    using assms by (auto simp: ws_handler_def bind_eq_Some_conv dest: enqueue_inv intro: inv_close split: ws_request.splits if_splits)
qed

lemma delay_inv: "wifi_inv w \<Longrightarrow> wifi_inv (snd (wifi_reconnect_delay w))" "wifi_inv w \<Longrightarrow> wifi_inv (wifi_reconnect_wake w)"
  by (auto simp: wifi_reconnect_delay_def wifi_reconnect_wake_def wifi_inv_def word_less_nat_alt word_le_nat_alt unat_word_ariths)

lemma step_inv: "wifi_step tg w w' \<Longrightarrow> wifi_inv w \<Longrightarrow> wifi_inv w'"
  by (induction rule: wifi_step.induct)
    (fast intro: provision_inv clear_inv suspend_inv resume_inv event_inv delay_inv ws_inv inv_close send_inv)+

lemma reach_inv: "wifi_reach tg w \<Longrightarrow> wifi_inv w"
  by (induction rule: wifi_reach.induct) (fast intro: init_inv step_inv)+

section \<open>Storing and loading\<close>

lemma nvs_put_ok: "nvs_put k v err w t = Some (0, w', t') \<Longrightarrow> w' = w\<lparr>wifi_nvs := (wifi_nvs w)(k \<mapsto> v)\<rparr>"
  by (auto simp: nvs_put_def bind_eq_Some_conv split: if_splits)

lemma nvs_put_err: "nvs_put k v err w t = Some (0, w', t') \<Longrightarrow> err = 0"
  by (auto simp: nvs_put_def split: if_splits)

lemma save_config_ok:
  assumes "save_config c w t = Some (0, w', t')"
  shows "w' = w\<lparr>wifi_nvs := (wifi_nvs w)(''ssid'' \<mapsto> ssid c, ''pass'' \<mapsto> password c, ''hostname'' \<mapsto> hostname c)\<rparr>"
proof -
  obtain e1 w1 t1 e2 w2 t2 e3 w3 t3 t0 where s: "nvs_put ''ssid'' (ssid c) 0 w t0 = Some (e1, w1, t1)"
    "nvs_put ''pass'' (password c) e1 w1 t1 = Some (e2, w2, t2)" "nvs_put ''hostname'' (hostname c) e2 w2 t2 = Some (e3, w3, t3)"
    "e3 = 0" "w' = w3"
    using assms by (auto simp: save_config_def bind_eq_Some_conv del: rd_length split: if_splits)
  have "e2 = 0" using s(3,4) nvs_put_err by blast
  moreover have "e1 = 0" using s(2) calculation nvs_put_err by blast
  ultimately show ?thesis
    using nvs_put_ok [of "''ssid''" "ssid c" 0 w t0 w1 t1] nvs_put_ok [of "''pass''" "password c" 0 w1 t1 w2 t2]
      nvs_put_ok [of "''hostname''" "hostname c" 0 w2 t2 w3 t3] s by simp
qed

lemma start_station_stored: "post (\<lambda>(w', t'). wifi_nvs w' = wifi_nvs w \<and> s_config w' = s_config w \<and> s_has_config w' = s_has_config w \<and>
    (s_has_config w \<longrightarrow> sta_configs w' = sta_configs w @ [station_config (s_config w)])) (start_station w t)"
proof -
  have n: "post (\<lambda>(w', t'). wifi_nvs w' = wifi_nvs w \<and> s_config w' = s_config w \<and> s_has_config w' = s_has_config w \<and>
      sta_configs w' = sta_configs w) (netif_setup w t)"
    unfolding netif_setup_def ESP_ERROR_CHECK_def ESP_ERROR_CHECK_unless_def by (auto intro!: post_rules)
  show ?thesis
    unfolding start_station_def ESP_ERROR_CHECK_def ESP_ERROR_CHECK_unless_def Let_def
    by (auto intro!: post_rules post_mono [OF n] simp: stop_server_def reset_station_def clear_active_session_state_def)
qed

text \<open>The default host name is a valid one.\<close>

definition host_char :: "char \<Rightarrow> bool" where
  "host_char c \<longleftrightarrow> (let n = of_char c :: nat in (of_char CHR ''0'' \<le> n \<and> n \<le> of_char CHR ''9'') \<or>
     (of_char CHR ''a'' \<le> n \<and> n \<le> of_char CHR ''z'') \<or> c = CHR ''-'')"

lemma is_valid_hostname_iff: "is_valid_hostname h \<longleftrightarrow>
    h \<noteq> [] \<and> length h \<le> 32 \<and> h ! 0 \<noteq> CHR ''-'' \<and> h ! (length h - 1) \<noteq> CHR ''-'' \<and> list_all host_char h"
  unfolding is_valid_hostname_def host_char_def [abs_def] by auto

lemma host_hex_table: "\<forall>n \<in> set [0..<16]. host_char (hex_char n) \<and> hex_char n \<noteq> CHR ''-''"
  by (simp add: upt_rec hex_char_def host_char_def)

lemma host_hex: "n < 16 \<Longrightarrow> host_char (hex_char n) \<and> hex_char n \<noteq> CHR ''-''"
  using host_hex_table by simp

lemma default_hostname_valid: "default_hostname 33 t = Some (h, t') \<Longrightarrow> is_valid_hostname h"
proof -
  have fallback: "is_valid_hostname ''emwaver-esp32''" by (simp add: is_valid_hostname_iff host_char_def)
  have "is_valid_hostname (''emwaver-'' @ hex2 a @ hex2 b)" for a b
    using host_hex [OF nibbles(1)] host_hex [OF nibbles(2)]
    by (simp add: is_valid_hostname_iff hex2_def) (simp add: host_char_def)
  then show "default_hostname 33 t = Some (h, t') \<Longrightarrow> is_valid_hostname h"
    using fallback by (auto simp: default_hostname_def strlcpy_def hex2_def bind_eq_Some_conv split: option.splits)
qed

text \<open>What a successful provisioning leaves behind.\<close>

lemma provision_ok:
  assumes "wifi_transport_provision name pass w t = Some (WIFI_OK, w', t')"
  shows "\<exists>h. length h \<le> 32 \<and> is_valid_hostname h \<and> s_config w' = \<lparr>ssid = name, password = pass, hostname = h\<rparr> \<and> length name \<le> 32 \<and>
    length pass \<le> 64 \<and> name \<noteq> [] \<and>
    wifi_nvs w' = (wifi_nvs w)(''ssid'' \<mapsto> name, ''pass'' \<mapsto> pass, ''hostname'' \<mapsto> h) \<and>
    (\<exists>cs. sta_configs w' = cs @ [(take 31 name, take 63 pass, pass = [])])"
proof -
  obtain h t1 c where c: "default_hostname 33 t = Some (h, t1)" "c = blank_config\<lparr>ssid := strlcpy 33 name, password := strlcpy 65 pass, hostname := h\<rparr>"
    and l: "length name \<le> 32" "length pass \<le> 64" and ne: "ssid c \<noteq> []"
    and "\<exists>w1 t2. save_config c w t1 = Some (0, w1, t2) \<and> start_station (w1\<lparr>s_config := c, s_has_config := True\<rparr>) t2 = Some (w', t')"
    using assms by (auto simp: wifi_transport_provision_def config_field_fits_def bind_eq_Some_conv Let_def del: rd_length split: if_splits)
  then obtain w1 t2 where s: "save_config c w t1 = Some (0, w1, t2)"
    "start_station (w1\<lparr>s_config := c, s_has_config := True\<rparr>) t2 = Some (w', t')" by blast
  have c': "c = \<lparr>ssid = name, password = pass, hostname = h\<rparr>" using c(2) l by (simp add: strlcpy_def blank_config_def)
  have v: "is_valid_hostname h" using default_hostname_valid c(1) by blast
  show ?thesis
    using postD [OF start_station_stored s(2)] save_config_ok [OF s(1)] v default_hostname_short [OF c(1)] c' l ne
    by (intro exI [of _ h]) (simp add: station_config_def strlcpy_def sta_ssid_size_def sta_password_size_def)
qed

lemma load_stored:
  assumes "wifi_nvs w ''ssid'' = Some (ssid c)" "wifi_nvs w ''pass'' = Some (password c)" "wifi_nvs w ''hostname'' = Some (hostname c)"
    "length (ssid c) \<le> 32" "length (password c) \<le> 64" "is_valid_hostname (hostname c)" "ssid c \<noteq> []"
  shows "load_config w (0 # t) = Some ((True, c), t)"
proof -
  have "length (hostname c) \<le> 32" "hostname c \<noteq> []" using assms(6) by (simp_all add: is_valid_hostname_iff)
  then show ?thesis using assms by (simp add: load_config_def nvs_get_str_def blank_config_def Let_def)
qed

section \<open>Properties\<close>

text \<open>C36: In every reachable state of the Wi-Fi transport a session is connected exactly when it has a
  socket, it only exists while the server runs, and the server only while the station is online; the
  reconnect counter is at most eight, the strings fit their buffers, and a stored configuration has a
  network name.\<close>

theorem wifi_session_invariant:
  assumes "wifi_reach tg w"
  shows "(s_session_connected w \<longleftrightarrow> 0 \<le> s_active_fd w) \<and> (0 \<le> s_active_fd w \<longrightarrow> s_httpd w) \<and> (s_httpd w \<longrightarrow> s_station_online w) \<and>
    s_reconnect_attempt w \<le> 8 \<and> length (ssid (s_config w)) \<le> 32 \<and> length (password (s_config w)) \<le> 64 \<and>
    length (hostname (s_config w)) \<le> 32 \<and> length (s_station_ip w) \<le> 15 \<and> (s_has_config w \<longrightarrow> ssid (s_config w) \<noteq> [])"
  using reach_inv [OF assms] by (simp add: wifi_inv_def)

text \<open>Provisioned after a boot without a configuration, then online, then a client.\<close>

definition wifi_up :: wifi where
  "wifi_up = wifi_boot\<lparr>s_cmd_queue := True, s_has_config := True, s_config := \<lparr>ssid = ''home'', password = ''secret'', hostname = ''emwaver-0000''\<rparr>,
     s_netif_ready := True, s_station_started := True,
     wifi_nvs := [''ssid'' \<mapsto> ''home'', ''pass'' \<mapsto> ''secret'', ''hostname'' \<mapsto> ''emwaver-0000''], sta_configs := [(''home'', ''secret'', False)]\<rparr>"

lemma provision_home:
  "wifi_transport_provision ''home'' ''secret'' (wifi_boot\<lparr>s_cmd_queue := True\<rparr>) (replicate 17 0) = Some (WIFI_OK, wifi_up, [])"
  by (simp add: wifi_transport_provision_def wifi_boot_def wifi_up_def config_field_fits_def default_hostname_def rd_mac45_def
      save_config_def nvs_put_def start_station_def netif_setup_def ESP_ERROR_CHECK_def ESP_ERROR_CHECK_unless_def station_config_def
      sta_ssid_size_def sta_password_size_def strlcpy_def blank_config_def hex2_def hex_char_def numeral_nat)

lemma wifi_up_reach: "wifi_reach tg wifi_up"
proof (rule wifi_reach.step [OF wifi_reach.init wifi_step.provision [OF provision_home]])
  show "wifi_transport_init (wifi_boot\<lparr>wifi_nvs := Map.empty\<rparr>) [1] = Some (wifi_boot\<lparr>s_cmd_queue := True\<rparr>, [])"
    by (simp add: wifi_transport_init_def load_config_def wifi_boot_def Let_def)
qed

theorem wifi_session_invariant_witness:
  "\<exists>w. wifi_reach ESP32 w \<and> s_session_connected w \<and> s_active_fd w = 5 \<and> s_httpd w \<and> s_station_online w"
proof -
  let ?w1 = "wifi_up\<lparr>s_station_ip := ''10.0.0.7'', s_station_ipv4 := [10, 0, 0, 7], s_station_online := True, s_httpd := True,
    s_reconnect_attempt := 0, s_reconnect_pending := False, s_last_disconnect_reason := 0\<rparr>"
  have d: "decimal 10 = ''10''" "decimal 0 = ''0''" "decimal 7 = ''7''" by (simp_all add: decimal.simps hex_char_def)
  have "wifi_event_handler ESP32 (IP_EVENT_STA_GOT_IP (Some (10, 0, 0, 7))) wifi_up [0, 0, 1, 2] = Some (False, ?w1, [])"
    by (simp add: wifi_event_handler_def start_server_def publish_mdns_def build_local_id_suffix_def rd_mac45_def d wifi_up_def wifi_boot_def)
  note s1 = wifi_step.event [OF this]
  have "ws_handler 5 WsOpen ?w1 esp_usb_reset [] = Some (True, ?w1\<lparr>s_active_fd := 5, s_session_connected := True\<rparr>, esp_usb_reset, [])"
    by (simp add: ws_handler_def wifi_up_def wifi_boot_def)
  note s2 = wifi_step.request [OF _ _ this]
  have r: "wifi_reach ESP32 (?w1\<lparr>s_active_fd := 5, s_session_connected := True\<rparr>)"
    by (rule wifi_reach.step [OF wifi_reach.step [OF wifi_up_reach s1] s2]) (simp_all add: wifi_up_def)
  show ?thesis using r wifi_session_invariant [OF r] by (intro exI [of _ "?w1\<lparr>s_active_fd := 5, s_session_connected := True\<rparr>"]) simp
qed

text \<open>C37: A configuration that was provisioned successfully is the one loaded at the next start: same
  network name, password and host name, however many times the device was provisioned before.\<close>

theorem wifi_config_survives_restart:
  assumes "wifi_transport_provision name pass w t = Some (WIFI_OK, w', t')"
  shows "\<exists>h. s_config w' = \<lparr>ssid = name, password = pass, hostname = h\<rparr> \<and>
    load_config (wifi_boot\<lparr>wifi_nvs := wifi_nvs w'\<rparr>) (0 # u) = Some ((True, s_config w'), u)"
proof -
  obtain h where h: "is_valid_hostname h" "s_config w' = \<lparr>ssid = name, password = pass, hostname = h\<rparr>" "length name \<le> 32"
    "length pass \<le> 64" "name \<noteq> []" "wifi_nvs w' = (wifi_nvs w)(''ssid'' \<mapsto> name, ''pass'' \<mapsto> pass, ''hostname'' \<mapsto> h)"
    using provision_ok [OF assms] by blast
  then show ?thesis by (intro exI [of _ h] conjI load_stored) simp_all
qed

theorem wifi_config_survives_restart_witness:
  "load_config (wifi_boot\<lparr>wifi_nvs := wifi_nvs wifi_up\<rparr>) [0] = Some ((True, s_config wifi_up), [])"
  using wifi_config_survives_restart [OF provision_home, of "[]"] by blast

text \<open>A network name of 32 characters, or a password of 64, is accepted and stored, but the station
  is configured with its first 31 characters, respectively 63: a successful provisioning configures
  the station with the given credentials exactly when both are shorter.\<close>

theorem wifi_longest_credentials_cut:
  assumes "wifi_transport_provision name pass w t = Some (WIFI_OK, w', t')"
  shows "last (sta_configs w') = (take 31 name, take 63 pass, pass = []) \<and>
    (last (sta_configs w') = (name, pass, pass = []) \<longleftrightarrow> length name < 32 \<and> length pass < 64)"
proof -
  have l: "last (sta_configs w') = (take 31 name, take 63 pass, pass = [])"
    using provision_ok [OF assms] by auto
  have t: "take n s = s \<longleftrightarrow> length s < Suc n" for n and s :: string by (auto simp: take_all_iff less_Suc_eq_le)
  show ?thesis
    unfolding l using t [of 31 name] t [of 63 pass] by simp
qed

text \<open>A name of 32 letters.\<close>

theorem wifi_longest_credentials_cut_witness:
  "\<exists>w'. wifi_transport_provision (replicate 32 CHR ''n'') ''secret'' wifi_boot (replicate 17 0) = Some (WIFI_OK, w', []) \<and>
     last (sta_configs w') = (replicate 31 CHR ''n'', ''secret'', False)"
proof -
  obtain w' where p: "wifi_transport_provision (replicate 32 CHR ''n'') ''secret'' wifi_boot (replicate 17 0) = Some (WIFI_OK, w', [])"
    by (simp add: wifi_transport_provision_def wifi_boot_def config_field_fits_def default_hostname_def rd_mac45_def
        save_config_def nvs_put_def start_station_def netif_setup_def ESP_ERROR_CHECK_def ESP_ERROR_CHECK_unless_def station_config_def
        sta_ssid_size_def sta_password_size_def strlcpy_def blank_config_def hex2_def hex_char_def numeral_nat)
  then show ?thesis using wifi_longest_credentials_cut [OF p] by simp
qed

text \<open>A frame with a command and no stream.\<close>

lemma enqueue_frame:
  assumes "length f = 36" "list_ex (\<lambda>v. v \<noteq> 0) (take 18 f)" "drop 18 f = zeros 18" "s_cmd_queue w"
  shows "enqueue_sysex (blit (zeros 256) 0 (message f)) w e t =
    Some (length (cmd_queue e) < 10, w, queue_cmd (wifi_command (take 18 f)) e, t)"
proof -
  let ?s = "blit (zeros 256) 0 (message f)"
  have l: "length (message f) = 48" using assms(1) by simp
  have n: "?s ! i = message f ! i" if "i < 48" for i using that l by (simp add: blit_def nth_append)
  have c: "take 42 (drop 5 ?s) = take 42 (drop 5 (message f))" using l by (simp add: blit_def)
  have d: "wifi_decode_payload_7bit_fixed (take 42 (drop 5 ?s)) = Some f"
    using assms(1) unfolding c
    by (simp add: wifi_codec_eq message_def sysex_message_payload decode_payload_spec encode_payload_spec dec7_enc7 length_enc7)
  have h: "message f ! 0 = 0xF0" "message f ! 1 = 0x7D" "message f ! 2 = 0x45" "message f ! 3 = 0x4D" "message f ! 4 = 0x57"
    "message f ! 47 = 0xF7"
    using assms(1) by (simp_all add: message_def sysex_message_def nth_append)
  have z: "\<not> list_ex (\<lambda>v. v \<noteq> 0) (zeros 18)" by (simp add: zeros_def list_ex_iff)
  show ?thesis
    unfolding enqueue_sysex_def d using assms(2-4) h z by (simp add: n wifi_ingest_stream_def)
qed

text \<open>The client of the Wi-Fi session loses it when the command queue is full: a command frame that
  finds ten commands waiting is not only refused, its session is closed, and from then on responses,
  also those to the ten commands, are not sent. With room in the queue the command is queued and the
  session stays.\<close>

theorem wifi_full_queue_closes_session:
  assumes "length f = 36" "list_ex (\<lambda>v. v \<noteq> 0) (take 18 f)" "drop 18 f = zeros 18" "s_cmd_queue w" "s_active_fd w = fd" "0 \<le> fd"
  shows "ws_handler fd (WsFrame True (message f)) w e (0 # 0 # t) =
      (if length (cmd_queue e) < 10 then Some (True, w, e\<lparr>cmd_queue := cmd_queue e @ [wifi_command (take 18 f)]\<rparr>, t)
       else Some (False, clear_active_session_state w, e, t))
    \<and> wifi_transport_send_cmd_response status payload (clear_active_session_state w) u =
      Some (WIFI_INVALID_STATE, clear_active_session_state w, u)"
proof -
  have "message f \<noteq> []" using message_length [OF assms(1)] by force
  then show ?thesis
    using assms(1,5,6) enqueue_frame [OF assms(1-4), of e t]
    by (simp add: ws_handler_def queue_cmd_def close_active_session_def wifi_transport_send_cmd_response_def clear_active_session_state_def)
qed

theorem wifi_full_queue_closes_session_witness:
  "ws_handler 5 (WsFrame True (message (9 # zeros 35))) (wifi_up\<lparr>s_active_fd := 5\<rparr>)
       (esp_usb_reset\<lparr>cmd_queue := replicate 10 (wifi_command (zeros 18))\<rparr>) [0, 0] =
     Some (False, clear_active_session_state (wifi_up\<lparr>s_active_fd := 5\<rparr>), esp_usb_reset\<lparr>cmd_queue := replicate 10 (wifi_command (zeros 18))\<rparr>, [])"
  using wifi_full_queue_closes_session [of "9 # zeros 35" "wifi_up\<lparr>s_active_fd := 5\<rparr>" 5 "esp_usb_reset\<lparr>cmd_queue := replicate 10 (wifi_command (zeros 18))\<rparr>" "[]"]
  by (simp add: wifi_up_def wifi_boot_def zeros_def)

lemma backoff_value:
  "i \<le> a \<Longrightarrow> unat d = min 30000 (1000 * 2 ^ unat i) \<Longrightarrow> unat (backoff i a d) = min 30000 (1000 * 2 ^ unat a)"
proof (induction i a d rule: backoff.induct)
  case (1 i a d)
  show ?case
  proof (cases "i < a \<and> d < 30000")
    case True
    have i: "unat (i + 1) = Suc (unat i)" "i + 1 \<le> a" using u8_Suc [of i a] True by (simp_all add: word_le_nat_alt)
    have "unat d < 30000" using True by (simp add: word_less_nat_alt)
    then have d: "unat d = 1000 * 2 ^ unat i" "unat (d * 2) = 2 * unat d" using 1(3) by (simp_all add: unat_word_ariths)
    have "unat (if d * 2 > 30000 then 30000 else d * 2) = min 30000 (1000 * 2 ^ unat (i + 1))"
      using d i by (auto simp: word_less_nat_alt)
    then show ?thesis using 1(1) [OF True refl refl i(2)] True by (subst backoff.simps) (simp add: Let_def)
  next
    case False
    have p: "1000 * 2 ^ unat i \<le> (1000 :: nat) * 2 ^ unat a" using 1(2) by (simp add: word_le_nat_alt)
    consider "unat i = unat a" | "30000 \<le> unat d" using False 1(2) by (auto simp: word_less_nat_alt word_le_nat_alt)
    then have "unat d = min 30000 (1000 * 2 ^ unat a)"
    proof cases
      case 2
      then have "unat d = 30000" "30000 \<le> (1000 :: nat) * 2 ^ unat i" using 1(3) by linarith+
      then show ?thesis using p by linarith
    qed (use 1(3) in simp)
    then show ?thesis by (subst backoff.simps) (simp only: False if_False)
  qed
qed

text \<open>The reconnect task waits 1000 ms times two to the number of failed attempts, at most 30000 ms:
  its 32-bit loop never overflows, and as the counter of attempts stops at eight the delay stays at
  the maximum until an address is obtained.\<close>

theorem wifi_backoff_bounded:
  "unat (fst (wifi_reconnect_delay w)) = min 30000 (1000 * 2 ^ unat (s_reconnect_attempt w))"
  using backoff_value [of 0 "s_reconnect_attempt w" 1000] by (simp add: wifi_reconnect_delay_def)

end
