(* ===== verification/Esp_Double.thy ===== *)
theory Esp_Double
  imports Esp_Wifi "HOL-Library.Log_Nat"
begin

text \<open>
  The floating-point arithmetic of the two radio drivers. A finite \<open>double\<close> is its value, a rational;
  every operation of the code is the exact one followed by \<open>fl\<close>, rounding to 53 bits, ties to even.
  A value of at least 2^1024 stands for an infinity. \<open>strtod\<close>, \<open>llround\<close> and the conversions
  \<open>%.Nf\<close> and \<open>%d\<close> of \<open>snprintf\<close> are those of the C standard.
\<close>

section \<open>Rounding\<close>

definition rnd_even :: "rat \<Rightarrow> int" where
  "rnd_even x =
     (let f = \<lfloor>x\<rfloor>; d = x - of_int f in if d < 1 / 2 \<or> d = 1 / 2 \<and> even f then f else f + 1)"

text \<open>The binary exponent of a number other than 0.\<close>

definition ilog2 :: "rat \<Rightarrow> int" where
  "ilog2 x =
     (let (p, q) = quotient_of \<bar>x\<bar>; k = bitlen p - bitlen q
      in if \<bar>x\<bar> < 2 powi k then k - 1 else k)"

definition ulp :: "rat \<Rightarrow> rat" where
  "ulp x = 2 powi (max (ilog2 x - 52) (- 1074))"

definition fl :: "rat \<Rightarrow> rat" where
  "fl x = (if x = 0 then 0 else of_int (rnd_even (x / ulp x)) * ulp x)"

definition llround :: "rat \<Rightarrow> int" where
  "llround x = (if 0 \<le> x then \<lfloor>x + 1 / 2\<rfloor> else - \<lfloor>- x + 1 / 2\<rfloor>)"

text \<open>\<open>(uint32_t)llround(x)\<close>. Outside \<open>long long\<close> the standard leaves the result open: it is read from the trace.\<close>

definition llround_u32 :: "rat \<Rightarrow> trace \<Rightarrow> (u32 \<times> trace) option" where
  "llround_u32 x t = (if \<bar>llround x\<bar> < 2 ^ 63 then Some (word_of_int (llround x), t) else rd t)"

section \<open>Text\<close>

text \<open>Digits with an optional point and an optional exponent; the value before rounding, and the rest.\<close>

definition strtod_body :: "int \<Rightarrow> string \<Rightarrow> int \<Rightarrow> string \<Rightarrow> (rat \<times> string) option" where
  "strtod_body base marks ebase s =
     (let i = takeWhile (is_digit base) s; r = dropWhile (is_digit base) s;
          (f, r) = (if take 1 r = ''.'' then (takeWhile (is_digit base) (tl r), dropWhile (is_digit base) (tl r)) else ([], r));
          mant = of_int (digits_value base (i @ f)) / of_int base ^ length f
      in if i = [] \<and> f = [] then None
         else
           let x = tl r; neg = (take 1 x = ''-''); x = (if take 1 x = ''-'' \<or> take 1 x = ''+'' then tl x else x);
               ds = takeWhile (is_digit 10) x; n = digits_value 10 ds
           in if r \<noteq> [] \<and> hd r \<in> set marks \<and> ds \<noteq> []
              then Some (mant * of_int ebase powi (if neg then - n else n), dropWhile (is_digit 10) x)
              else Some (mant, r))"

text \<open>
  The number a string consists of: \<open>strtod\<close> stops at the end of the string with a finite result, which is
  what both drivers test. Infinities and NaNs, which \<open>strtod\<close> also accepts, fail that test.
\<close>

definition finite_double :: "string \<Rightarrow> rat option" where
  "finite_double str =
     (let s = dropWhile strtol_space str;
          neg = (take 1 s = ''-'');
          s = (if take 1 s = ''-'' \<or> take 1 s = ''+'' then tl s else s);
          hex = (if take 2 s = ''0x'' \<or> take 2 s = ''0X'' then strtod_body 16 ''pP'' 2 (drop 2 s) else None)
      in case (if hex = None then strtod_body 10 ''eE'' 10 s else hex) of
           None \<Rightarrow> None
         | Some (v, rest) \<Rightarrow> if rest \<noteq> [] \<or> fl v \<ge> 2 ^ 1024 then None else Some (if neg then - fl v else fl v))"

text \<open>A number with exactly \<open>n\<close> decimal digits.\<close>

fun pad_decimal :: "nat \<Rightarrow> nat \<Rightarrow> string" where
  "pad_decimal 0 v = []"
| "pad_decimal (Suc n) v = pad_decimal n (v div 10) @ [hex_char (v mod 10)]"

text \<open>\<open>%.Nf\<close> of a value that is not negative, and \<open>%d\<close>.\<close>

definition print_fixed :: "nat \<Rightarrow> rat \<Rightarrow> string" where
  "print_fixed prec x =
     (let n = nat (rnd_even (x * 10 ^ prec)) in decimal (n div 10 ^ prec) @ ''.'' @ pad_decimal prec (n mod 10 ^ prec))"

definition print_int :: "int \<Rightarrow> string" where
  "print_int v = (if v < 0 then ''-'' @ decimal (nat (- v)) else decimal (nat v))"

section \<open>Error bounds\<close>

lemma rnd_even_of_int [simp]: "rnd_even (of_int n) = n"
  by (simp add: rnd_even_def)

lemma rnd_even_error: "\<bar>of_int (rnd_even x) - x\<bar> \<le> 1 / 2"
proof -
  have "of_int \<lfloor>x\<rfloor> \<le> x" "x < of_int \<lfloor>x\<rfloor> + 1" by linarith+
  then show ?thesis by (auto simp: rnd_even_def Let_def abs_le_iff)
qed

lemma llround_error: "\<bar>of_int (llround x) - x\<bar> \<le> 1 / 2"
proof (cases "0 \<le> x")
  case True
  have "of_int \<lfloor>x + 1 / 2\<rfloor> \<le> x + 1 / 2" "x + 1 / 2 < of_int \<lfloor>x + 1 / 2\<rfloor> + 1" by linarith+
  then show ?thesis unfolding llround_def abs_le_iff if_P [OF True] by linarith
next
  case False
  have "of_int \<lfloor>- x + 1 / 2\<rfloor> \<le> - x + 1 / 2" "- x + 1 / 2 < of_int \<lfloor>- x + 1 / 2\<rfloor> + 1" by linarith+
  then show ?thesis unfolding llround_def abs_le_iff if_not_P [OF False] of_int_minus by linarith
qed

lemma llround_of_int [simp]: "llround (of_int n) = n"
proof -
  have "of_int (llround (of_int n)) - (of_int n :: rat) = of_int (llround (of_int n) - n)" by simp
  moreover have "\<bar>of_int (llround (of_int n)) - (of_int n :: rat)\<bar> \<le> 1 / 2" by (rule llround_error)
  ultimately have "\<bar>of_int (llround (of_int n) - n) :: rat\<bar> < 1" by simp
  then have "\<bar>llround (of_int n) - n\<bar> < 1" by (metis of_int_abs of_int_less_1_iff)
  then show ?thesis by simp
qed

lemma powi_bounds:
  assumes "1 \<le> n" "2 ^ (n - 1) \<le> v" "v < 2 ^ n"
  shows "(2 :: rat) powi (int n - 1) \<le> of_nat v" "of_nat v < (2 :: rat) powi int n"
proof -
  have "int n - 1 = int (n - 1)" using assms(1) by simp
  moreover have "(of_nat (2 ^ (n - 1)) :: rat) \<le> of_nat v" "(of_nat v :: rat) < of_nat (2 ^ n)"
    using assms(2,3) by (simp_all only: of_nat_le_iff of_nat_less_iff)
  ultimately show "(2 :: rat) powi (int n - 1) \<le> of_nat v" "of_nat v < (2 :: rat) powi int n"
    by (simp_all only: power_int_of_nat of_nat_power of_nat_numeral)
qed

lemma ilog2_bounds:
  assumes "x \<noteq> 0"
  shows "2 powi ilog2 x \<le> \<bar>x\<bar>" "\<bar>x\<bar> < 2 powi (ilog2 x + 1)"
proof -
  obtain p' q' where pq': "quotient_of \<bar>x\<bar> = (p', q')" by fastforce
  have q': "0 < q'" using quotient_of_denom_pos [OF pq'] .
  have x': "\<bar>x\<bar> = of_int p' / of_int q'" by (rule quotient_of_div [OF pq'])
  have "0 < (of_int p' / of_int q' :: rat)" using x' assms by (metis zero_less_abs_iff)
  then have p': "0 < p'" using q' by (simp add: zero_less_divide_iff)
  obtain p q where pq: "p' = int p" "q' = int q" using p' q' by (metis nonneg_int_cases order_less_imp_le)
  have p: "0 < p" and q: "0 < q" using p' q' pq by simp_all
  have x: "\<bar>x\<bar> = of_nat p / of_nat q" using x' pq by simp
  define a b where "a = floorlog 2 p" and "b = floorlog 2 q"
  have pb: "2 ^ (a - 1) \<le> p" "p < 2 ^ a" and qb: "2 ^ (b - 1) \<le> q" "q < 2 ^ b"
    using floorlog_bounds [of p 2] floorlog_bounds [of q 2] p q by (simp_all add: a_def b_def)
  have a1: "1 \<le> a" "1 \<le> b" using p q by (simp_all add: a_def b_def floorlog_ge_SucI Suc_le_eq floorlog_eq_zero_iff neq0_conv [symmetric] del: neq0_conv)
  note P = powi_bounds [OF a1(1) pb] and Q = powi_bounds [OF a1(2) qb]
  have q0: "(0 :: rat) < of_nat q" using q by simp
  have lower: "(2 :: rat) powi (int a - int b - 1) < \<bar>x\<bar>"
  proof -
    have "(2 :: rat) powi (int a - 1 - int b) = 2 powi (int a - 1) / 2 powi int b" by (rule power_int_diff) simp
    also have "\<dots> < of_nat p / of_nat q"
      by (rule frac_less2) (use P Q q0 in simp_all)
    finally show ?thesis by (simp only: x diff_right_commute)
  qed
  have upper: "\<bar>x\<bar> < (2 :: rat) powi (int a - int b + 1)"
  proof -
    have "of_nat p / of_nat q < (2 :: rat) powi int a / 2 powi (int b - 1)"
      by (rule frac_less) (use P Q q0 in simp_all)
    also have "\<dots> = (2 :: rat) powi (int a - (int b - 1))" by (rule power_int_diff [symmetric]) simp
    also have "int a - (int b - 1) = int a - int b + 1" by simp
    finally show ?thesis by (simp only: x)
  qed
  have "ilog2 x = (if \<bar>x\<bar> < 2 powi (int a - int b) then int a - int b - 1 else int a - int b)"
    unfolding ilog2_def pq' Let_def prod.case pq bitlen_def nat_int a_def b_def ..
  then show "2 powi ilog2 x \<le> \<bar>x\<bar>" "\<bar>x\<bar> < 2 powi (ilog2 x + 1)"
    using lower upper by (simp_all split: if_splits)
qed

lemma powi_less_cancel: "(2 :: rat) powi m < 2 powi n \<Longrightarrow> m < n"
  using power_int_increasing [of n m "2 :: rat"] by (cases "m < n") auto

lemma ulp_pos: "0 < ulp x"
  by (simp add: ulp_def)

lemma fl_ulp: "\<bar>fl x - x\<bar> \<le> ulp x / 2"
proof (cases "x = 0")
  case False
  have "fl x - x = (of_int (rnd_even (x / ulp x)) - x / ulp x) * ulp x"
    using False ulp_pos [of x] by (simp add: fl_def field_simps)
  then have "\<bar>fl x - x\<bar> = \<bar>of_int (rnd_even (x / ulp x)) - x / ulp x\<bar> * ulp x"
    using ulp_pos [of x] by (simp add: abs_mult)
  also have "\<dots> \<le> 1 / 2 * ulp x"
    using rnd_even_error [of "x / ulp x"] ulp_pos [of x] by (intro mult_right_mono) simp_all
  finally show ?thesis by simp
qed (use ulp_pos [of 0] in \<open>simp add: fl_def\<close>)

lemma fl_error:
  assumes "1 \<le> \<bar>x\<bar>"
  shows "\<bar>fl x - x\<bar> \<le> \<bar>x\<bar> / 2 ^ 53"
proof -
  have x: "x \<noteq> 0" using assms by auto
  have "(2 :: rat) powi 0 < 2 powi (ilog2 x + 1)" using ilog2_bounds(2) [OF x] assms by simp
  then have "0 < ilog2 x + 1" by (rule powi_less_cancel)
  then have "ulp x = 2 powi ilog2 x / 2 ^ 52"
    by (simp add: ulp_def power_int_diff max_def)
  also have "\<dots> \<le> \<bar>x\<bar> / 2 ^ 52" using ilog2_bounds(1) [OF x] by (intro divide_right_mono) simp_all
  finally show ?thesis using fl_ulp [of x] by simp
qed

text \<open>Numbers with at most 53 bits are not changed.\<close>

lemma fl_exact:
  assumes "x = of_int m * 2 powi k" "\<bar>m\<bar> < 2 ^ 53" "- 1074 \<le> k"
  shows "fl x = x"
proof (cases "x = 0")
  case False
  have "\<bar>x\<bar> = of_int \<bar>m\<bar> * 2 powi k" by (simp add: assms(1) abs_mult)
  also have "\<dots> < 2 ^ 53 * 2 powi k"
  proof (rule mult_strict_right_mono)
    have "(of_int \<bar>m\<bar> :: rat) < of_int (2 ^ 53)" using assms(2) by (simp only: of_int_less_iff)
    then show "(of_int \<bar>m\<bar> :: rat) < 2 ^ 53" by simp
  qed simp
  also have "\<dots> = 2 powi (53 + k)" by (simp add: power_int_add)
  finally have "(2 :: rat) powi ilog2 x < 2 powi (53 + k)" using ilog2_bounds(1) [OF False] by simp
  then have "ilog2 x < 53 + k" by (rule powi_less_cancel)
  then have "max (ilog2 x - 52) (- 1074) \<le> k" using assms(3) by simp
  moreover define u where "u = max (ilog2 x - 52) (- 1074)"
  ultimately obtain d where d: "k = u + int d" by (metis zle_iff_zadd)
  have ulp: "ulp x = 2 powi u" by (simp add: ulp_def u_def)
  have "of_int m * 2 powi k = of_int (m * 2 ^ d) * (2 powi u :: rat)" by (simp add: d power_int_add)
  then have "x = of_int (m * 2 ^ d) * ulp x" using assms(1) ulp by (simp only:)
  then have "x / ulp x = of_int (m * 2 ^ d)" using ulp_pos [of x] by (metis nonzero_mult_div_cancel_right order_less_irrefl)
  then have "fl x = of_int (m * 2 ^ d) * ulp x" using False unfolding fl_def by (simp only: rnd_even_of_int if_False)
  then show ?thesis using \<open>x = of_int (m * 2 ^ d) * ulp x\<close> by (simp only:)
qed (simp add: fl_def)

end
