(* ===== verification/Esp_Cc1101.thy ===== *)
theory Esp_Cc1101
  imports Esp_Double
begin

text \<open>
  The driver of the CC1101 radio (\<open>src/esp/main/libraries/cc1101.c\<close>): register accesses over the SPI bus
  of \<open>Esp_Spi\<close> and the text commands. The chip is what the
  trace answers; \<open>chip\<close> is its register file after a log of transfers.
\<close>

section \<open>State and transfers\<close>

text \<open>The state of both radio drivers. \<open>rfm69_handle\<close> has the chip select of the device, if there is one.\<close>

record radio =
  bus :: spi_st
  cc1101_did_reset :: bool
  rfm69_miso :: int
  rfm69_mosi :: int
  rfm69_sck :: int
  rfm69_cs :: int
  rfm69_handle :: "int option"
  rfm69_initialized :: bool

fun EMW_TARGET_SPI_DEFAULT_MISO :: "target \<Rightarrow> int" where
  "EMW_TARGET_SPI_DEFAULT_MISO ESP32 = 19"
| "EMW_TARGET_SPI_DEFAULT_MISO ESP32S2 = 13"
| "EMW_TARGET_SPI_DEFAULT_MISO ESP32S3 = 13"

fun EMW_TARGET_SPI_DEFAULT_MOSI :: "target \<Rightarrow> int" where
  "EMW_TARGET_SPI_DEFAULT_MOSI ESP32 = 23"
| "EMW_TARGET_SPI_DEFAULT_MOSI ESP32S2 = 11"
| "EMW_TARGET_SPI_DEFAULT_MOSI ESP32S3 = 11"

fun EMW_TARGET_SPI_DEFAULT_SCK :: "target \<Rightarrow> int" where
  "EMW_TARGET_SPI_DEFAULT_SCK ESP32 = 18"
| "EMW_TARGET_SPI_DEFAULT_SCK ESP32S2 = 12"
| "EMW_TARGET_SPI_DEFAULT_SCK ESP32S3 = 12"

definition radio_boot :: "target \<Rightarrow> radio" where
  "radio_boot tg = \<lparr>bus = \<lparr>bus_initialized = False, spi_profiles = replicate 8 None, spi_log = []\<rparr>, cc1101_did_reset = False,
     rfm69_miso = EMW_TARGET_SPI_DEFAULT_MISO tg, rfm69_mosi = EMW_TARGET_SPI_DEFAULT_MOSI tg,
     rfm69_sck = EMW_TARGET_SPI_DEFAULT_SCK tg, rfm69_cs = EMW_TARGET_SPI_DEFAULT_CS tg,
     rfm69_handle = None, rfm69_initialized = False\<rparr>"

text \<open>\<open>spi_transfer_once\<close> with the constants of this driver.\<close>

definition cc1101_xfer :: "target \<Rightarrow> u8 list \<Rightarrow> nat \<Rightarrow> radio \<Rightarrow> trace \<Rightarrow> (u32 \<times> u8 list \<times> radio \<times> trace) option" where
  "cc1101_xfer tg tx rx_len r t = do {
     (ret, rx, s, t) \<leftarrow> spi_transfer_once tg (EMW_TARGET_SPI_DEFAULT_CS tg) 0 8000000 False tx (length tx) rx_len (bus r) t;
     Some (ret, rx, r\<lparr>bus := s\<rparr>, t) }"

definition cc1101_strobe :: "target \<Rightarrow> u8 \<Rightarrow> radio \<Rightarrow> trace \<Rightarrow> (radio \<times> trace) option" where
  "cc1101_strobe tg cmd r t = do { (_, _, r, t) \<leftarrow> cc1101_xfer tg [cmd] 0 r t; Some (r, t) }"

definition cc1101_read_reg :: "target \<Rightarrow> u8 \<Rightarrow> radio \<Rightarrow> trace \<Rightarrow> (u8 \<times> radio \<times> trace) option" where
  "cc1101_read_reg tg addr r t = do {
     let cmd = (if addr \<ge> 0x30 \<and> addr \<le> 0x3D then addr OR 0xC0 else addr OR 0x80);
     (ret, rx, r, t) \<leftarrow> cc1101_xfer tg [cmd, 0] 2 r t;
     Some (if ret \<noteq> 0 then 0 else rx ! 1, r, t) }"

definition cc1101_write_reg :: "target \<Rightarrow> u8 \<Rightarrow> u8 \<Rightarrow> radio \<Rightarrow> trace \<Rightarrow> (radio \<times> trace) option" where
  "cc1101_write_reg tg addr value r t = do { (_, _, r, t) \<leftarrow> cc1101_xfer tg [addr, value] 0 r t; Some (r, t) }"

text \<open>The receive buffer is zero before the transfer, whose result is ignored.\<close>

definition cc1101_read_burst :: "target \<Rightarrow> u8 \<Rightarrow> nat \<Rightarrow> radio \<Rightarrow> trace \<Rightarrow> (u8 list \<times> radio \<times> trace) option" where
  "cc1101_read_burst tg addr len r t =
     (if len = 0 then Some ([], r, t)
      else do {
        let len = (if len > 64 then 64 else len);
        (_, rx, r, t) \<leftarrow> cc1101_xfer tg ((addr OR 0xC0) # zeros len) (1 + len) r t;
        Some (take len (drop 1 (blit (zeros 65) 0 rx)), r, t) })"

definition cc1101_write_burst :: "target \<Rightarrow> u8 \<Rightarrow> u8 list \<Rightarrow> radio \<Rightarrow> trace \<Rightarrow> (radio \<times> trace) option" where
  "cc1101_write_burst tg addr data r t =
     (if data = [] then Some (r, t)
      else do { (_, _, r, t) \<leftarrow> cc1101_xfer tg ((addr OR 0x40) # take 64 data) 0 r t; Some (r, t) })"

text \<open>Several registers in order.\<close>

fun cc1101_write_regs :: "target \<Rightarrow> (u8 \<times> u8) list \<Rightarrow> radio \<Rightarrow> trace \<Rightarrow> (radio \<times> trace) option" where
  "cc1101_write_regs tg [] r t = Some (r, t)"
| "cc1101_write_regs tg ((addr, value) # rest) r t = do {
     (r, t) \<leftarrow> cc1101_write_reg tg addr value r t;
     cc1101_write_regs tg rest r t }"

section \<open>Helpers\<close>

definition cc1101_ensure_ready :: "target \<Rightarrow> radio \<Rightarrow> trace \<Rightarrow> (radio \<times> trace) option" where
  "cc1101_ensure_ready tg r t =
     (if \<not> cc1101_did_reset r then do {
        (r, t) \<leftarrow> cc1101_strobe tg 0x30 r t;
        Some (r\<lparr>cc1101_did_reset := True\<rparr>, t) }
      else Some (r, t))"

definition cc1101_defaults :: "(u8 \<times> u8) list" where
  "cc1101_defaults = [(0x0B, 0x06), (0x13, 0x02), (0x14, 0xF8), (0x0A, 0x00), (0x15, 0x47), (0x21, 0x56), (0x18, 0x18),
     (0x19, 0x16), (0x1A, 0x1C), (0x1B, 0xC7), (0x1C, 0x00), (0x1D, 0xB2), (0x23, 0xE9), (0x24, 0x2A), (0x25, 0x00),
     (0x26, 0x1F), (0x29, 0x59), (0x2C, 0x81), (0x2D, 0x35), (0x2E, 0x09), (0x08, 0x00), (0x07, 0x04), (0x09, 0x00),
     (0x06, 0xFF)]"

definition cc1101_apply_defaults :: "target \<Rightarrow> radio \<Rightarrow> trace \<Rightarrow> (radio \<times> trace) option" where
  "cc1101_apply_defaults tg r t = cc1101_write_regs tg cc1101_defaults r t"

text \<open>The three reads are one expression of C, which leaves their order open; they are made in the order written.\<close>

definition cc1101_get_frequency_mhz :: "target \<Rightarrow> radio \<Rightarrow> trace \<Rightarrow> (rat \<times> radio \<times> trace) option" where
  "cc1101_get_frequency_mhz tg r t = do {
     (f2, r, t) \<leftarrow> cc1101_read_reg tg 0x0D r t;
     (f1, r, t) \<leftarrow> cc1101_read_reg tg 0x0E r t;
     (f0, r, t) \<leftarrow> cc1101_read_reg tg 0x0F r t;
     let freq_word = (push_bit 16 (ucast f2) OR push_bit 8 (ucast f1) OR ucast f0 :: u32);
     let freq_hz = fl (of_nat (unat freq_word) * fl (26000000 / 65536));
     Some (fl (freq_hz / 1000000), r, t) }"

text \<open>The second half of both calibrations.\<close>

definition cc1101_raise_fscal2 :: "target \<Rightarrow> radio \<Rightarrow> trace \<Rightarrow> (radio \<times> trace) option" where
  "cc1101_raise_fscal2 tg r t = do {
     (r, t) \<leftarrow> cc1101_write_reg tg 0x2E 0x09 r t;
     (fscal2, r, t) \<leftarrow> cc1101_read_reg tg 0x24 r t;
     if fscal2 < 32 then cc1101_write_reg tg 0x24 (fscal2 + 32) r t else Some (r, t) }"

definition band_315 :: "rat \<Rightarrow> bool" where "band_315 mhz \<longleftrightarrow> mhz \<ge> 300 \<and> mhz \<le> 348"
definition band_433 :: "rat \<Rightarrow> bool" where "band_433 mhz \<longleftrightarrow> mhz \<ge> 378 \<and> mhz \<le> 464"
definition band_868 :: "rat \<Rightarrow> bool" where "band_868 mhz \<longleftrightarrow> mhz \<ge> 779 \<and> mhz \<le> fl (89999 / 100)"
definition band_915 :: "rat \<Rightarrow> bool" where "band_915 mhz \<longleftrightarrow> mhz \<ge> 900 \<and> mhz \<le> 928"

definition cc1101_calibrate_for_freq :: "target \<Rightarrow> rat \<Rightarrow> radio \<Rightarrow> trace \<Rightarrow> (radio \<times> trace) option" where
  "cc1101_calibrate_for_freq tg mhz r t =
     (if band_315 mhz \<or> band_433 mhz \<or> band_868 mhz then
        let boundary = (if band_315 mhz then fl (32288 / 100) else if band_433 mhz then fl (4305 / 10) else 861)
        in if mhz < boundary then cc1101_write_reg tg 0x2E 0x0B r t else cc1101_raise_fscal2 tg r t
      else if band_915 mhz then cc1101_raise_fscal2 tg r t
      else Some (r, t))"

definition cc1101_set_frequency_mhz :: "target \<Rightarrow> rat \<Rightarrow> radio \<Rightarrow> trace \<Rightarrow> (bool \<times> radio \<times> trace) option" where
  "cc1101_set_frequency_mhz tg mhz r t =
     (if mhz \<le> 0 then Some (False, r, t)
      else do {
        let freq_hz = fl (mhz * 1000000);
        (freq_word, t) \<leftarrow> llround_u32 (fl (fl (freq_hz * 65536) / 26000000)) t;
        (r, t) \<leftarrow> cc1101_write_reg tg 0x0D (ucast (drop_bit 16 freq_word AND 0xFF)) r t;
        (r, t) \<leftarrow> cc1101_write_reg tg 0x0E (ucast (drop_bit 8 freq_word AND 0xFF)) r t;
        (r, t) \<leftarrow> cc1101_write_reg tg 0x0F (ucast (freq_word AND 0xFF)) r t;
        (r, t) \<leftarrow> cc1101_calibrate_for_freq tg mhz r t;
        Some (True, r, t) })"

text \<open>The rate of a pair of register fields, the two loops of the search, and the search.\<close>

definition cc1101_bitrate :: "nat \<Rightarrow> nat \<Rightarrow> rat" where
  "cc1101_bitrate m e = fl (fl (fl (fl (256 + of_nat m) * 2 ^ e) * 26000000) / 2 ^ 28)"

fun drate_m_loop :: "rat \<Rightarrow> nat \<Rightarrow> nat list \<Rightarrow> rat \<times> nat \<times> nat \<Rightarrow> rat \<times> nat \<times> nat" where
  "drate_m_loop tgt e [] best = best"
| "drate_m_loop tgt e (m # ms) (best_error, best_m, best_e) =
     (let error = \<bar>fl (cc1101_bitrate m e - tgt)\<bar>
      in drate_m_loop tgt e ms (if error < best_error then (error, m, e) else (best_error, best_m, best_e)))"

fun drate_e_loop :: "rat \<Rightarrow> nat list \<Rightarrow> rat \<times> nat \<times> nat \<Rightarrow> rat \<times> nat \<times> nat" where
  "drate_e_loop tgt [] best = best"
| "drate_e_loop tgt (e # es) best = drate_e_loop tgt es (drate_m_loop tgt e [0..<256] best)"

definition drate_search :: "int \<Rightarrow> nat \<times> nat" where
  "drate_search bps = snd (drate_e_loop (of_int bps) [0..<16] (fl (10 ^ 30), 0, 0))"

definition cc1101_set_datarate :: "target \<Rightarrow> int \<Rightarrow> radio \<Rightarrow> trace \<Rightarrow> (bool \<times> radio \<times> trace) option" where
  "cc1101_set_datarate tg bps r t =
     (if bps \<le> 0 then Some (False, r, t)
      else do {
        let (best_m, best_e) = drate_search bps;
        (mdmcfg4, r, t) \<leftarrow> cc1101_read_reg tg 0x10 r t;
        let preserved_bw = mdmcfg4 AND 0xF0;
        (r, t) \<leftarrow> cc1101_write_reg tg 0x10 (preserved_bw OR (of_nat best_e AND 0x0F)) r t;
        (r, t) \<leftarrow> cc1101_write_reg tg 0x11 (of_nat best_m AND 0xFF) r t;
        Some (True, r, t) })"

definition cc1101_set_gdo :: "target \<Rightarrow> u8 \<Rightarrow> u8 \<Rightarrow> u8 \<Rightarrow> radio \<Rightarrow> trace \<Rightarrow> (radio \<times> trace) option" where
  "cc1101_set_gdo tg gdo2 gdo1 gdo0 r t = cc1101_write_regs tg [(0x00, gdo2), (0x01, gdo1), (0x02, gdo0)] r t"

definition power_levels :: "int list" where "power_levels = [-30, -20, -15, -10, 0, 5, 7, 10]"
definition power_315 :: "u8 list" where "power_315 = [0x12, 0x0D, 0x1C, 0x34, 0x51, 0x85, 0xCB, 0xC2]"
definition power_433 :: "u8 list" where "power_433 = [0x12, 0x0E, 0x1D, 0x34, 0x60, 0x84, 0xC8, 0xC0]"
definition power_868 :: "u8 list" where "power_868 = [0x03, 0x0F, 0x1E, 0x27, 0x50, 0x81, 0xCB, 0xC2]"
definition power_915 :: "u8 list" where "power_915 = [0x03, 0x0E, 0x1E, 0x27, 0x8E, 0xCD, 0xC7, 0xC0]"

fun power_index :: "int \<Rightarrow> int list \<Rightarrow> nat \<Rightarrow> nat option" where
  "power_index dbm [] i = None"
| "power_index dbm (l # ls) i = (if l = dbm then Some i else power_index dbm ls (i + 1))"

definition power_table :: "rat \<Rightarrow> u8 list option" where
  "power_table mhz = (if band_315 mhz then Some power_315 else if band_433 mhz then Some power_433
     else if band_868 mhz then Some power_868 else if band_915 mhz then Some power_915 else None)"

text \<open>The two registers of a modulation.\<close>

definition mdmcfg2_with :: "u8 \<Rightarrow> int \<Rightarrow> u8" where
  "mdmcfg2_with current modulation = (current AND 0x0F) OR word_of_int (push_bit 4 (and modulation 7))"

definition frend0_for :: "int \<Rightarrow> u8" where
  "frend0_for modulation = (if modulation = 3 then 0x11 else 0x10)"

definition cc1101_set_modulation_and_power :: "target \<Rightarrow> int \<Rightarrow> int \<Rightarrow> radio \<Rightarrow> trace \<Rightarrow> (bool \<times> radio \<times> trace) option" where
  "cc1101_set_modulation_and_power tg modulation dbm r t = (case power_index dbm power_levels 0 of
     None \<Rightarrow> Some (False, r, t)
   | Some i \<Rightarrow> do {
       (mhz, r, t) \<leftarrow> cc1101_get_frequency_mhz tg r t;
       case power_table mhz of
         None \<Rightarrow> Some (False, r, t)
       | Some tab \<Rightarrow> do {
           let power_setting = tab ! i;
           (current, r, t) \<leftarrow> cc1101_read_reg tg 0x12 r t;
           (r, t) \<leftarrow> cc1101_write_reg tg 0x12 (mdmcfg2_with current modulation) r t;
           (r, t) \<leftarrow> cc1101_write_reg tg 0x22 (frend0_for modulation) r t;
           let pa_table = (if modulation = 3 then (zeros 8)[0 := 0, 1 := power_setting] else (zeros 8)[0 := power_setting, 1 := 0]);
           (r, t) \<leftarrow> cc1101_write_burst tg 0x3E pa_table r t;
           Some (True, r, t) } })"

section \<open>Commands\<close>

definition cc1101_cmd_init :: "int \<Rightarrow> int \<Rightarrow> int \<Rightarrow> int \<Rightarrow> reply" where
  "cc1101_cmd_init ignored0 ignored1 ignored2 ignored3 = CmdOk []"

definition cc1101_cmd_write_reg :: "target \<Rightarrow> int \<Rightarrow> int \<Rightarrow> radio \<Rightarrow> trace \<Rightarrow> (reply \<times> radio \<times> trace) option" where
  "cc1101_cmd_write_reg tg reg val r t = do {
     (r, t) \<leftarrow> cc1101_ensure_ready tg r t;
     if reg < 0 \<or> reg > 0x3F then Some (CmdErr ''cc1101 reg range'', r, t)
     else do {
       (r, t) \<leftarrow> cc1101_write_reg tg (word_of_int reg) (word_of_int val) r t;
       Some (CmdOk [], r, t) } }"

definition cc1101_cmd_read_reg :: "target \<Rightarrow> int \<Rightarrow> radio \<Rightarrow> trace \<Rightarrow> (reply \<times> radio \<times> trace) option" where
  "cc1101_cmd_read_reg tg reg r t = do {
     (r, t) \<leftarrow> cc1101_ensure_ready tg r t;
     if reg < 0 \<or> reg > 0x3F then Some (CmdErr ''cc1101 reg range'', r, t)
     else do {
       (v, r, t) \<leftarrow> cc1101_read_reg tg (word_of_int reg) r t;
       Some (CmdOk [v], r, t) } }"

definition cc1101_cmd_strobe :: "target \<Rightarrow> int \<Rightarrow> radio \<Rightarrow> trace \<Rightarrow> (reply \<times> radio \<times> trace) option" where
  "cc1101_cmd_strobe tg cmd r t = do {
     (r, t) \<leftarrow> cc1101_ensure_ready tg r t;
     if cmd < 0 \<or> cmd > 0x3D then Some (CmdErr ''cc1101 strobe range'', r, t)
     else do {
       (r, t) \<leftarrow> cc1101_strobe tg (word_of_int cmd) r t;
       Some (CmdOk [], r, t) } }"

definition cc1101_cmd_read_burst :: "target \<Rightarrow> int \<Rightarrow> int \<Rightarrow> radio \<Rightarrow> trace \<Rightarrow> (reply \<times> radio \<times> trace) option" where
  "cc1101_cmd_read_burst tg reg len r t = do {
     (r, t) \<leftarrow> cc1101_ensure_ready tg r t;
     if reg < 0 \<or> reg > 0x3F then Some (CmdErr ''cc1101 reg range'', r, t)
     else if len \<le> 0 \<or> len > 64 then Some (CmdErr ''cc1101 len range'', r, t)
     else do {
       (bs, r, t) \<leftarrow> cc1101_read_burst tg (word_of_int reg) (nat len) r t;
       Some (CmdOk bs, r, t) } }"

text \<open>\<open>None\<close> is the null pointer of a missing argument.\<close>

definition cc1101_cmd_write_burst :: "target \<Rightarrow> int \<Rightarrow> u8 list option \<Rightarrow> radio \<Rightarrow> trace \<Rightarrow> (reply \<times> radio \<times> trace) option" where
  "cc1101_cmd_write_burst tg reg data r t = do {
     (r, t) \<leftarrow> cc1101_ensure_ready tg r t;
     if reg < 0 \<or> reg > 0x3F then Some (CmdErr ''cc1101 reg range'', r, t)
     else case data of
       None \<Rightarrow> Some (CmdErr ''cc1101 data empty'', r, t)
     | Some bs \<Rightarrow>
         if bs = [] then Some (CmdErr ''cc1101 data empty'', r, t)
         else if length bs > 64 then Some (CmdErr ''cc1101 data too long'', r, t)
         else do {
           (r, t) \<leftarrow> cc1101_write_burst tg (word_of_int reg) bs r t;
           Some (CmdOk [], r, t) } }"

definition cc1101_cmd_apply_defaults :: "target \<Rightarrow> radio \<Rightarrow> trace \<Rightarrow> (reply \<times> radio \<times> trace) option" where
  "cc1101_cmd_apply_defaults tg r t = do {
     (r, t) \<leftarrow> cc1101_ensure_ready tg r t;
     (r, t) \<leftarrow> cc1101_apply_defaults tg r t;
     Some (CmdOk [], r, t) }"

definition cc1101_cmd_set_freq :: "target \<Rightarrow> string \<Rightarrow> radio \<Rightarrow> trace \<Rightarrow> (reply \<times> radio \<times> trace) option" where
  "cc1101_cmd_set_freq tg freq_str r t = do {
     (r, t) \<leftarrow> cc1101_ensure_ready tg r t;
     if freq_str = [] then Some (CmdErr ''freq missing'', r, t)
     else case finite_double freq_str of
       None \<Rightarrow> Some (CmdErr ''invalid freq'', r, t)
     | Some mhz \<Rightarrow> do {
         (ok, r, t) \<leftarrow> cc1101_set_frequency_mhz tg mhz r t;
         Some (if \<not> ok then CmdErr ''freq range'' else CmdOk [], r, t) } }"

definition cc1101_cmd_get_freq :: "target \<Rightarrow> radio \<Rightarrow> trace \<Rightarrow> (reply \<times> radio \<times> trace) option" where
  "cc1101_cmd_get_freq tg r t = do {
     (r, t) \<leftarrow> cc1101_ensure_ready tg r t;
     (mhz, r, t) \<leftarrow> cc1101_get_frequency_mhz tg r t;
     Some (text_reply (print_fixed 6 mhz), r, t) }"

definition cc1101_cmd_set_datarate :: "target \<Rightarrow> int \<Rightarrow> radio \<Rightarrow> trace \<Rightarrow> (reply \<times> radio \<times> trace) option" where
  "cc1101_cmd_set_datarate tg bps r t = do {
     (r, t) \<leftarrow> cc1101_ensure_ready tg r t;
     (ok, r, t) \<leftarrow> cc1101_set_datarate tg bps r t;
     Some (if \<not> ok then CmdErr ''invalid datarate'' else CmdOk [], r, t) }"

definition cc1101_cmd_get_datarate :: "target \<Rightarrow> radio \<Rightarrow> trace \<Rightarrow> (reply \<times> radio \<times> trace) option" where
  "cc1101_cmd_get_datarate tg r t = do {
     (r, t) \<leftarrow> cc1101_ensure_ready tg r t;
     (mdmcfg4, r, t) \<leftarrow> cc1101_read_reg tg 0x10 r t;
     (mdmcfg3, r, t) \<leftarrow> cc1101_read_reg tg 0x11 r t;
     let drate_e = unat (mdmcfg4 AND 0x0F);
     let drate_m = unat (mdmcfg3 AND 0xFF);
     Some (text_reply (print_int (llround (cc1101_bitrate drate_m drate_e))), r, t) }"

definition cc1101_parse_modulation :: "string \<Rightarrow> int" where
  "cc1101_parse_modulation mod_str =
     (if mod_str = ''2fsk'' then 0 else if mod_str = ''gfsk'' then 1 else if mod_str = ''ask'' then 3
      else if mod_str = ''ook'' then 3 else if mod_str = ''4fsk'' then 4 else if mod_str = ''msk'' then 7 else -1)"

definition cc1101_cmd_set_mod :: "target \<Rightarrow> string \<Rightarrow> radio \<Rightarrow> trace \<Rightarrow> (reply \<times> radio \<times> trace) option" where
  "cc1101_cmd_set_mod tg mod_str r t = do {
     (r, t) \<leftarrow> cc1101_ensure_ready tg r t;
     let m = cc1101_parse_modulation mod_str;
     if m < 0 then Some (CmdErr ''invalid mod'', r, t)
     else do {
       (current, r, t) \<leftarrow> cc1101_read_reg tg 0x12 r t;
       (r, t) \<leftarrow> cc1101_write_reg tg 0x12 (mdmcfg2_with current m) r t;
       (r, t) \<leftarrow> cc1101_write_reg tg 0x22 (frend0_for m) r t;
       Some (CmdOk [], r, t) } }"

definition cc1101_cmd_get_mod :: "target \<Rightarrow> radio \<Rightarrow> trace \<Rightarrow> (reply \<times> radio \<times> trace) option" where
  "cc1101_cmd_get_mod tg r t = do {
     (r, t) \<leftarrow> cc1101_ensure_ready tg r t;
     (mdmcfg2, r, t) \<leftarrow> cc1101_read_reg tg 0x12 r t;
     Some (CmdOk [drop_bit 4 mdmcfg2 AND 0x07], r, t) }"

definition cc1101_cmd_set_mod_power :: "target \<Rightarrow> int \<Rightarrow> int \<Rightarrow> radio \<Rightarrow> trace \<Rightarrow> (reply \<times> radio \<times> trace) option" where
  "cc1101_cmd_set_mod_power tg modulation dbm r t = do {
     (r, t) \<leftarrow> cc1101_ensure_ready tg r t;
     if modulation < 0 \<or> modulation > 7 then Some (CmdErr ''mod range'', r, t)
     else do {
       (ok, r, t) \<leftarrow> cc1101_set_modulation_and_power tg modulation dbm r t;
       Some (if \<not> ok then CmdErr ''invalid power'' else CmdOk [], r, t) } }"

definition cc1101_cmd_set_gdo :: "target \<Rightarrow> u8 list option \<Rightarrow> radio \<Rightarrow> trace \<Rightarrow> (reply \<times> radio \<times> trace) option" where
  "cc1101_cmd_set_gdo tg data r t = do {
     (r, t) \<leftarrow> cc1101_ensure_ready tg r t;
     case data of
       None \<Rightarrow> Some (CmdErr ''gdo needs 3 bytes'', r, t)
     | Some bs \<Rightarrow>
         if length bs < 3 then Some (CmdErr ''gdo needs 3 bytes'', r, t)
         else do {
           (r, t) \<leftarrow> cc1101_set_gdo tg (bs ! 0) (bs ! 1) (bs ! 2) r t;
           Some (CmdOk [], r, t) } }"

section \<open>The chip\<close>

text \<open>
  The configuration registers of a CC1101 with chip select \<open>cs\<close> after a log of transfers: a header
  byte below 0x30 followed by a value writes that register, as its data sheet says.
\<close>

definition chip_step :: "int \<Rightarrow> spi_transfer \<Rightarrow> (u8 \<Rightarrow> u8) \<Rightarrow> u8 \<Rightarrow> u8" where
  "chip_step cs x regs =
     (if x_cs x = cs \<and> length (x_tx x) = 2 \<and> x_tx x ! 0 < 0x30 then regs(x_tx x ! 0 := x_tx x ! 1) else regs)"

definition chip :: "target \<Rightarrow> radio \<Rightarrow> (u8 \<Rightarrow> u8) \<Rightarrow> u8 \<Rightarrow> u8" where
  "chip tg r regs = fold (chip_step (EMW_TARGET_SPI_DEFAULT_CS tg)) (spi_log (bus r)) regs"

text \<open>A transfer on a bus in order succeeds when the driver reports no error.\<close>

definition logged :: "target \<Rightarrow> u8 list \<Rightarrow> radio \<Rightarrow> radio" where
  "logged tg tx r = r\<lparr>bus := (bus r)\<lparr>spi_log := spi_log (bus r) @
     [\<lparr>x_cs = EMW_TARGET_SPI_DEFAULT_CS tg, x_mode = 0, x_clock = 8000000, x_lsb_first = False, x_tx = tx\<rparr>]\<rparr>\<rparr>"

lemma default_cs_pos: "0 < EMW_TARGET_SPI_DEFAULT_CS tg"
  by (cases tg) simp_all

lemma xfer_ok:
  assumes "bus_initialized (bus r)" "tx \<noteq> []"
  shows "cc1101_xfer tg tx 0 r (0 # 0 # 0 # t) = Some (0, [], logged tg tx r, t)"
  using assms default_cs_pos [of tg]
  by (simp add: cc1101_xfer_def spi_transfer_once_def spi_boot_init_defaults_def logged_def)

lemma write_reg_ok:
  "bus_initialized (bus r) \<Longrightarrow> cc1101_write_reg tg a v r (0 # 0 # 0 # t) = Some (logged tg [a, v] r, t)"
  by (simp add: cc1101_write_reg_def xfer_ok)

lemma logged_simps [simp]:
  "bus_initialized (bus (logged tg tx r)) = bus_initialized (bus r)" "cc1101_did_reset (logged tg tx r) = cc1101_did_reset r"
  by (simp_all add: logged_def)

lemma chip_logged: "chip tg (logged tg tx r) regs =
    (if length tx = 2 \<and> tx ! 0 < 0x30 then (chip tg r regs)(tx ! 0 := tx ! 1) else chip tg r regs)"
  by (simp add: chip_def logged_def chip_step_def)

text \<open>Whatever the driver reports, a write changes at most its register and a read none.\<close>

lemma boot_bind:
  "(\<And>s' t'. spi_log s' = spi_log s \<Longrightarrow> post Q (f (s', t'))) \<Longrightarrow> post Q (spi_boot_init_defaults s t \<bind> f)"
  unfolding spi_boot_init_defaults_def by (auto intro!: post_rules)

lemmas spi_binds = boot_bind post_any_bind [where m = "rd t" for t] post_any_bind [where m = "rd_bytes n t" for n t]

lemma transfer_log:
  "0 < cs \<Longrightarrow> post (\<lambda>(ret, rx, s', t'). spi_log s' \<in> {spi_log s, spi_log s @
     [\<lparr>x_cs = cs, x_mode = 0, x_clock = 8000000, x_lsb_first = False, x_tx = take (max n m) tx\<rparr>]})
     (spi_transfer_once tg cs 0 8000000 False tx n m s t)"
  unfolding spi_transfer_once_def Let_def
  by (auto intro!: spi_binds)

lemma xfer_log:
  "post (\<lambda>(ret, rx, r', t'). \<forall>regs. chip tg r' regs \<in> {chip tg r regs, chip tg (logged tg (take (max (length tx) n) tx) r) regs})
    (cc1101_xfer tg tx n r t)"
  unfolding cc1101_xfer_def
  by (auto intro!: post_bind post_mono [OF transfer_log [OF default_cs_pos]] simp: chip_def logged_def)

lemma write_reg_chip:
  "post (\<lambda>(r', t'). \<forall>regs b. b \<noteq> a \<longrightarrow> chip tg r' regs b = chip tg r regs b) (cc1101_write_reg tg a v r t)"
  unfolding cc1101_write_reg_def
  by (rule post_bind, rule post_mono [OF xfer_log]) (auto simp: chip_logged split: if_splits, metis fun_upd_other)

lemma read_reg_chip: "post (\<lambda>(v, r', t'). chip tg r' = chip tg r) (cc1101_read_reg tg a r t)"
proof -
  have "0xC0 \<le> a OR 0xC0" "0x80 \<le> a OR 0x80" by (rule le_word_or1)+
  then have c: "\<not> (if a \<ge> 0x30 \<and> a \<le> 0x3D then a OR 0xC0 else a OR 0x80) < 0x30"
    unfolding not_less by (auto elim: order_trans [rotated])
  show ?thesis
    unfolding cc1101_read_reg_def Let_def
    by (intro post_bind post_mono [OF xfer_log]) (auto simp: chip_logged c fun_eq_iff split del: if_split)
qed

section \<open>Frequency\<close>

text \<open>The frequency word in a register file.\<close>

definition freq_word :: "(u8 \<Rightarrow> u8) \<Rightarrow> u32" where
  "freq_word regs = push_bit 16 (ucast (regs 0x0D)) OR push_bit 8 (ucast (regs 0x0E)) OR ucast (regs 0x0F)"

lemma three_bytes:
  assumes "w < 2 ^ 24"
  shows "push_bit 16 (ucast (ucast (drop_bit 16 w AND 0xFF) :: u8)) OR push_bit 8 (ucast (ucast (drop_bit 8 w AND 0xFF) :: u8)) OR
    ucast (ucast (w AND 0xFF) :: u8) = (w :: u32)"
proof (rule bit_word_eqI)
  fix n :: nat
  assume "n < LENGTH(32)"
  then have n: "n < 8 \<or> (8 \<le> n \<and> n < 16) \<or> (16 \<le> n \<and> n < 24) \<or> (24 \<le> n \<and> n < 32)" by (intro byte_positions) simp
  have "unat w < 2 ^ 24" using assms by (simp add: word_less_nat_alt)
  then have "unat (take_bit 24 w) = unat w" by (simp add: unsigned_take_bit_eq take_bit_nat_eq_self)
  then have "take_bit 24 w = w" by (metis unsigned_word_eqI)
  then have "\<not> bit w k" if "24 \<le> k" for k using that by (metis bit_take_bit_iff not_less)
  then show "bit (push_bit 16 (ucast (ucast (drop_bit 16 w AND 0xFF) :: u8)) OR push_bit 8 (ucast (ucast (drop_bit 8 w AND 0xFF) :: u8)) OR
    ucast (ucast (w AND 0xFF) :: u8) :: u32) n = bit w n"
    using n unfolding and_0xFF by (elim disjE) (auto simp: bit_simps)
qed

text \<open>The rounding errors of the chain of operations are far below the resolution of the chip.\<close>

lemma frequency_chain:
  assumes "1 \<le> mhz" "mhz \<le> 6655"
  defines "n \<equiv> llround (fl (fl (fl (mhz * 1000000) * 65536) / 26000000))"
  shows "\<bar>of_int n * 26000000 / 65536 - mhz * 1000000\<bar> \<le> 1985 / 10" "0 \<le> n" "n < 2 ^ 24"
proof -
  define A B C where "A = fl (mhz * 1000000)" and "B = fl (A * 65536)" and "C = fl (B / 26000000)"
  have "\<bar>A - mhz * 1000000\<bar> \<le> \<bar>mhz * 1000000\<bar> / 2 ^ 53"
    unfolding A_def by (rule fl_error) (use assms(1) in simp)
  also have "\<dots> \<le> 1 / 1000000" using assms by (simp add: field_simps)
  finally have a: "\<bar>A - mhz * 1000000\<bar> \<le> 1 / 1000000" .
  then have a': "999999 \<le> A" "A \<le> 6655000001" using assms(1,2) by linarith+
  have "\<bar>B - A * 65536\<bar> \<le> \<bar>A * 65536\<bar> / 2 ^ 53"
    unfolding B_def by (rule fl_error) (use a' in simp)
  also have "\<dots> \<le> 1 / 10" using a' by (simp add: field_simps)
  finally have b: "\<bar>B - A * 65536\<bar> \<le> 1 / 10" .
  then have b': "65535000000 \<le> B" "B \<le> 436142080065537" using a' by linarith+
  have "\<bar>C - B / 26000000\<bar> \<le> \<bar>B / 26000000\<bar> / 2 ^ 53"
    unfolding C_def by (rule fl_error) (use b' in simp)
  also have "\<dots> \<le> 1 / 1000000" using b' by (simp add: field_simps)
  finally have c: "\<bar>C - B / 26000000\<bar> \<le> 1 / 1000000" .
  have n: "\<bar>of_int n - C\<bar> \<le> 1 / 2" unfolding n_def A_def [symmetric] B_def [symmetric] C_def [symmetric] by (rule llround_error)
  show "\<bar>of_int n * 26000000 / 65536 - mhz * 1000000\<bar> \<le> 1985 / 10"
    using a b c n by linarith
  have "(0 :: rat) < of_int n" using n c b' by linarith
  moreover have "of_int n < (16777216 :: rat)" using n c b' by linarith
  then have "of_int n < (of_int (2 ^ 24) :: rat)" by simp
  ultimately have "0 < n" "n < 2 ^ 24" by (simp_all only: of_int_less_iff of_int_0_less_iff)
  then show "0 \<le> n" "n < 2 ^ 24" by simp_all
qed

lemma read_reg_ok:
  assumes "bus_initialized (bus r)"
  shows "cc1101_read_reg tg a r (0 # 0 # x # v # 0 # t) =
    Some (ucast v, logged tg [if a \<ge> 0x30 \<and> a \<le> 0x3D then a OR 0xC0 else a OR 0x80, 0] r, t)"
  using assms default_cs_pos [of tg]
  by (simp add: cc1101_read_reg_def cc1101_xfer_def spi_transfer_once_def spi_boot_init_defaults_def logged_def Let_def
      numeral_2_eq_2)

text \<open>What a chip with registers \<open>regs\<close> answers to the reads of \<open>get_freq\<close>, with no error reported.\<close>

definition freq_answers :: "(u8 \<Rightarrow> u8) \<Rightarrow> trace" where
  "freq_answers regs = concat (List.map (\<lambda>a. [0, 0, 0, ucast (regs a), 0]) [0x0D, 0x0E, 0x0F])"

lemma get_frequency_ok:
  assumes "bus_initialized (bus r)"
  shows "\<exists>r'. cc1101_get_frequency_mhz tg r (freq_answers regs @ t) =
    Some (fl (fl (of_nat (unat (freq_word regs)) * fl (26000000 / 65536)) / 1000000), r', t)"
proof -
  have u: "ucast (ucast (b :: u8) :: u32) = b" for b by (simp add: ucast_down_ucast_id is_down)
  show ?thesis
    using assms by (simp add: cc1101_get_frequency_mhz_def freq_answers_def read_reg_ok freq_word_def u)
qed

lemma step_exact: "fl (26000000 / 65536) = 26000000 / 65536"
  by (rule fl_exact [of _ 203125 "- 9"]) (simp_all add: power_int_minus)

lemma freq_word_mhz:
  assumes "unat w < 2 ^ 24" "2 \<le> mhz" "mhz \<le> 6655" "\<bar>of_nat (unat w) * 26000000 / 65536 - mhz * 1000000\<bar> \<le> 1985 / 10"
  shows "\<bar>fl (fl (of_nat (unat w) * fl (26000000 / 65536)) / 1000000) - mhz\<bar> \<le> 2 / 10000"
proof -
  define F where "F = (of_nat (unat w) * (26000000 / 65536) :: rat)"
  have "fl F = F"
  proof (rule fl_exact [of _ "int (unat w) * 203125" "- 9"])
    show "F = of_int (int (unat w) * 203125) * 2 powi - 9" by (simp add: F_def power_int_minus)
    have "int (unat w) < int (2 ^ 24)" using assms(1) by (simp only: of_nat_less_iff)
    then show "\<bar>int (unat w) * 203125\<bar> < 2 ^ 53" by simp
  qed simp
  then have f: "fl (of_nat (unat w) * fl (26000000 / 65536)) = F" by (simp only: step_exact F_def [symmetric] \<open>fl F = F\<close>)
  have d: "\<bar>F - mhz * 1000000\<bar> \<le> 1985 / 10" using assms(4) by (simp add: F_def mult.commute)
  then have b: "1000000 \<le> F" "F \<le> 6656000000" using assms(2,3) by linarith+
  have "\<bar>fl (F / 1000000) - F / 1000000\<bar> \<le> \<bar>F / 1000000\<bar> / 2 ^ 53" by (rule fl_error) (use b in simp)
  also have "\<dots> \<le> 1 / 1000000" using b by (simp add: field_simps)
  finally show ?thesis unfolding f using d by linarith
qed

abbreviation keeps_freq :: "target \<Rightarrow> radio \<Rightarrow> (radio \<times> trace) option \<Rightarrow> bool" where
  "keeps_freq tg r \<equiv> post (\<lambda>(r', t'). \<forall>regs. freq_word (chip tg r' regs) = freq_word (chip tg r regs))"

lemma write_keeps: "a \<notin> {0x0D, 0x0E, 0x0F} \<Longrightarrow> keeps_freq tg r (cc1101_write_reg tg a v r t)"
  by (rule post_mono [OF write_reg_chip]) (auto simp: freq_word_def)

lemma write_keeps_from:
  "a \<notin> {0x0D, 0x0E, 0x0F} \<Longrightarrow> \<forall>regs. freq_word (chip tg r' regs) = freq_word (chip tg r regs) \<Longrightarrow>
   keeps_freq tg r (cc1101_write_reg tg a v r' t)"
  by (rule post_mono [OF write_keeps]) auto

lemma raise_keeps: "keeps_freq tg r (cc1101_raise_fscal2 tg r t)"
  unfolding cc1101_raise_fscal2_def
  by (auto intro!: post_if post_bind post_mono [OF write_keeps [where a = "0x2E"]] post_mono [OF read_reg_chip] write_keeps_from)

lemma calibrate_keeps: "keeps_freq tg r (cc1101_calibrate_for_freq tg mhz r t)"
  unfolding cc1101_calibrate_for_freq_def Let_def
  by (intro post_if raise_keeps write_keeps) simp_all

lemma set_frequency_word:
  assumes "2 \<le> mhz" "mhz \<le> 6655" "bus_initialized (bus r)"
    and s: "cc1101_set_frequency_mhz tg mhz r (replicate 9 0 @ u) = Some (ok, r', t')"
  shows "ok" "\<bar>of_nat (unat (freq_word (chip tg r' regs))) * 26000000 / 65536 - mhz * 1000000\<bar> \<le> 1985 / 10"
    "unat (freq_word (chip tg r' regs)) < 2 ^ 24"
proof -
  define x where "x = fl (fl (fl (mhz * 1000000) * 65536) / 26000000)"
  define n where "n = llround x"
  define w where "w = (word_of_int n :: u32)"
  have m: "1 \<le> mhz" "\<not> mhz \<le> 0" using assms(1) by simp_all
  note c = frequency_chain [OF m(1) assms(2), folded x_def, folded n_def]
  obtain k where nk: "n = int k" using c(2) by (auto elim: nonneg_int_cases)
  then have "k < 2 ^ 24" using c(3) by simp
  then have w: "unat w = nat n" by (simp add: w_def nk unsigned_of_nat take_bit_nat_eq_self)
  have l: "llround_u32 x t = Some (w, t)" for t
    using c(2,3) by (simp add: llround_u32_def n_def [symmetric] w_def)
  have nine: "replicate 9 0 @ u = 0 # 0 # 0 # 0 # 0 # 0 # 0 # 0 # 0 # u" by (simp add: numeral_eq_Suc)
  let ?r = "logged tg [0x0F, ucast (w AND 0xFF)] (logged tg [0x0E, ucast (drop_bit 8 w AND 0xFF)]
    (logged tg [0x0D, ucast (drop_bit 16 w AND 0xFF)] r))"
  have "cc1101_set_frequency_mhz tg mhz r (replicate 9 0 @ u) =
      do { (r, t) \<leftarrow> cc1101_calibrate_for_freq tg mhz ?r u; Some (True, r, t) }"
    using assms(3) unfolding nine cc1101_set_frequency_mhz_def Let_def x_def [symmetric] if_not_P [OF m(2)]
    by (simp add: l write_reg_ok)
  with s have k: "cc1101_calibrate_for_freq tg mhz ?r u = Some (r', t')" "ok" by (auto simp: bind_eq_Some_conv)
  have "freq_word (chip tg r' regs) = freq_word (chip tg ?r regs)" using postD [OF calibrate_keeps k(1)] by simp
  also have "\<dots> = w"
  proof -
    have "w < 2 ^ 24" using c(2,3) w by (simp add: word_less_nat_alt nat_less_iff)
    then show ?thesis unfolding freq_word_def by (subst three_bytes [symmetric]) (simp_all add: chip_logged)
  qed
  finally have e: "freq_word (chip tg r' regs) = w" .
  have "(of_nat (unat w) :: rat) = of_int n" using c(2) w by simp
  then show "\<bar>of_nat (unat (freq_word (chip tg r' regs))) * 26000000 / 65536 - mhz * 1000000\<bar> \<le> 1985 / 10"
    using c(1) by (simp only: e)
  show "unat (freq_word (chip tg r' regs)) < 2 ^ 24" unfolding e w using c(2,3) by (simp add: nat_less_iff)
  show ok by (rule k(2))
qed

lemma frequency_set_and_got:
  assumes "finite_double s = Some mhz" "2 \<le> mhz" "mhz \<le> 6655" "bus_initialized (bus r)" "cc1101_did_reset r"
    and "cc1101_cmd_set_freq tg s r (replicate 9 0 @ u) = Some (rep, r', t')"
    and "bus_initialized (bus q)" "cc1101_did_reset q"
  shows "rep = CmdOk []"
    and "\<bar>of_nat (unat (freq_word (chip tg r' regs))) * 26000000 / 65536 - mhz * 1000000\<bar> \<le> 1985 / 10"
    and "\<exists>f q'. cc1101_cmd_get_freq tg q (freq_answers (chip tg r' regs) @ v) = Some (text_reply (print_fixed 6 f), q', v) \<and>
      \<bar>f - mhz\<bar> \<le> 2 / 10000"
proof -
  have "s \<noteq> []" using assms(1) by (auto simp: finite_double_def strtod_body_def Let_def)
  then obtain ok where k: "cc1101_set_frequency_mhz tg mhz r (replicate 9 0 @ u) = Some (ok, r', t')"
    and rep: "rep = (if \<not> ok then CmdErr ''freq range'' else CmdOk [])"
    using assms by (auto simp: cc1101_cmd_set_freq_def cc1101_ensure_ready_def bind_eq_Some_conv del: rd_length)
  note w = set_frequency_word [OF assms(2-4) k]
  show "rep = CmdOk []" using rep w(1) by simp
  show "\<bar>of_nat (unat (freq_word (chip tg r' regs))) * 26000000 / 65536 - mhz * 1000000\<bar> \<le> 1985 / 10" by (rule w(2))
  show "\<exists>f q'. cc1101_cmd_get_freq tg q (freq_answers (chip tg r' regs) @ v) = Some (text_reply (print_fixed 6 f), q', v) \<and>
      \<bar>f - mhz\<bar> \<le> 2 / 10000"
    using get_frequency_ok [OF assms(7), of tg "chip tg r' regs" v] freq_word_mhz [OF w(3) assms(2,3) w(2)] assms(8)
    by (auto simp: cc1101_cmd_get_freq_def cc1101_ensure_ready_def)
qed

text \<open>C20: A frequency set on the CC1101 is within 198.5 Hz of the one asked for, half a step of the chip,
  and the frequency reported from these registers is within 200 Hz of it: any text that reads as 2 to 6655 MHz,
  on a bus whose driver reports no error.\<close>

theorem cc1101_frequency_roundtrip:
  assumes "finite_double s = Some mhz" "2 \<le> mhz" "mhz \<le> 6655" "bus_initialized (bus r)" "cc1101_did_reset r"
    and "cc1101_cmd_set_freq tg s r (replicate 9 0 @ u) = Some (rep, r', t')"
    and "bus_initialized (bus q)" "cc1101_did_reset q"
  shows "rep = CmdOk [] \<and>
    \<bar>of_nat (unat (freq_word (chip tg r' regs))) * 26000000 / 65536 - mhz * 1000000\<bar> \<le> 1985 / 10 \<and>
    (\<exists>f q'. cc1101_cmd_get_freq tg q (freq_answers (chip tg r' regs) @ v) = Some (text_reply (print_fixed 6 f), q', v) \<and>
      \<bar>f - mhz\<bar> \<le> 2 / 10000)"
  by (intro conjI frequency_set_and_got [OF assms])

section \<open>Data rate\<close>

text \<open>The rate of the data sheet; the code computes it without rounding error.\<close>

definition data_rate :: "nat \<Rightarrow> nat \<Rightarrow> rat" where
  "data_rate m e = (256 + of_nat m) * 2 ^ e * 26000000 / 2 ^ 28"

lemma fl_int: "\<bar>i\<bar> < 2 ^ 53 \<Longrightarrow> x = of_int i \<Longrightarrow> fl x = x"
  by (rule fl_exact [of _ i 0]) simp_all

lemma pow_le_16: "e < 16 \<Longrightarrow> (2 :: int) ^ e \<le> 2 ^ 15"
  by (rule power_increasing) simp_all

lemma rate_numerator:
  assumes "m < 256" "e < 16"
  shows "0 \<le> (256 + int m) * 2 ^ e" "(256 + int m) * 2 ^ e \<le> 511 * 2 ^ 15"
proof -
  have "(256 + int m) * 2 ^ e \<le> 511 * 2 ^ 15"
    by (rule mult_mono) (use assms pow_le_16 in simp_all)
  then show "0 \<le> (256 + int m) * 2 ^ e" "(256 + int m) * 2 ^ e \<le> 511 * 2 ^ 15" by simp_all
qed

lemma rate_small:
  assumes "0 \<le> N" "N \<le> 511 * 2 ^ 15"
  shows "\<bar>N * 26000000\<bar> < (2 :: int) ^ 53"
  using assms by simp

lemma bitrate_exact:
  assumes "m < 256" "e < 16"
  shows "cc1101_bitrate m e = data_rate m e"
proof -
  define N where "N = (256 + int m) * 2 ^ e"
  have N: "0 \<le> N" "N \<le> 511 * 2 ^ 15" using rate_numerator [OF assms] by (simp_all add: N_def)
  have n: "(256 + of_nat m) * 2 ^ e = (of_int N :: rat)" by (simp add: N_def)
  have a: "fl (256 + of_nat m) = 256 + of_nat m" by (rule fl_int [of "256 + int m"]) (use assms in simp_all)
  have c: "fl (of_int N) = of_int N" by (rule fl_int [OF _ refl]) (use N in simp)
  have d: "fl (of_int N * 26000000) = of_int N * 26000000" by (rule fl_int [OF rate_small [OF N]]) simp
  have "fl (of_int N * 26000000 / 2 ^ 28) = of_int N * 26000000 / 2 ^ 28"
    by (rule fl_exact [OF _ rate_small [OF N], where k = "- 28"]) (simp_all add: power_int_minus field_simps)
  then show ?thesis unfolding cc1101_bitrate_def data_rate_def a n c d .
qed

lemma rate_error_exact:
  assumes "m < 256" "e < 16" "0 < bps" "bps < 2 ^ 31"
  shows "fl (cc1101_bitrate m e - of_int bps) = data_rate m e - of_int bps"
proof -
  note b = rate_numerator [OF assms(1,2)]
  have "fl (data_rate m e - of_int bps) = data_rate m e - of_int bps"
  proof (rule fl_exact [of _ "(256 + int m) * 2 ^ e * 203125 - bps * 2 ^ 21" "- 21"])
    show "data_rate m e - of_int bps = of_int ((256 + int m) * 2 ^ e * 203125 - bps * 2 ^ 21) * 2 powi - 21"
      by (simp add: data_rate_def power_int_minus field_simps)
    have "\<bar>N * 203125 - bps * 2 ^ 21\<bar> < 2 ^ 53" if "0 \<le> N" "N \<le> 511 * 2 ^ 15" for N
      using that assms(3,4) by simp
    then show "\<bar>(256 + int m) * 2 ^ e * 203125 - bps * 2 ^ 21\<bar> < 2 ^ 53" using b by blast
  qed simp
  then show ?thesis by (simp only: bitrate_exact [OF assms(1,2)])
qed

text \<open>The loops keep the best pair seen.\<close>

lemma m_loop_min:
  "drate_m_loop tgt e ms (b, bm, be) = (b', m', e') \<Longrightarrow>
   b' \<le> b \<and> (\<forall>m \<in> set ms. b' \<le> \<bar>fl (cc1101_bitrate m e - tgt)\<bar>) \<and>
   ((b', m', e') = (b, bm, be) \<or> m' \<in> set ms \<and> e' = e \<and> b' = \<bar>fl (cc1101_bitrate m' e - tgt)\<bar>)"
proof (induction ms arbitrary: b bm be)
  case (Cons m ms)
  let ?err = "\<bar>fl (cc1101_bitrate m e - tgt)\<bar>"
  show ?case
  proof (cases "?err < b")
    case True
    with Cons.prems have "drate_m_loop tgt e ms (?err, m, e) = (b', m', e')" by (simp add: Let_def)
    from Cons.IH [OF this] True show ?thesis by auto
  next
    case False
    with Cons.prems have "drate_m_loop tgt e ms (b, bm, be) = (b', m', e')" by (simp add: Let_def)
    from Cons.IH [OF this] False show ?thesis by auto
  qed
qed simp

lemma e_loop_min:
  "drate_e_loop tgt es (b, bm, be) = (b', m', e') \<Longrightarrow>
   b' \<le> b \<and> (\<forall>e \<in> set es. \<forall>m < 256. b' \<le> \<bar>fl (cc1101_bitrate m e - tgt)\<bar>) \<and>
   ((b', m', e') = (b, bm, be) \<or> m' < 256 \<and> e' \<in> set es \<and> b' = \<bar>fl (cc1101_bitrate m' e' - tgt)\<bar>)"
proof (induction es arbitrary: b bm be)
  case (Cons e es)
  obtain b1 m1 e1 where l: "drate_m_loop tgt e [0..<256] (b, bm, be) = (b1, m1, e1)" by (metis prod_cases3)
  have n: "drate_e_loop tgt es (b1, m1, e1) = (b', m', e')" using Cons.prems by (simp only: drate_e_loop.simps l)
  note m = m_loop_min [OF l]
  note i = Cons.IH [OF n]
  show ?case
  proof (intro conjI)
    show "b' \<le> b" using m i by linarith
    show "\<forall>e' \<in> set (e # es). \<forall>m < 256. b' \<le> \<bar>fl (cc1101_bitrate m e' - tgt)\<bar>"
      using m i by (auto intro: order_trans)
    show "(b', m', e') = (b, bm, be) \<or> m' < 256 \<and> e' \<in> set (e # es) \<and> b' = \<bar>fl (cc1101_bitrate m' e' - tgt)\<bar>"
      using m i by auto
  qed
qed simp

lemma drate_search_nearest:
  assumes "0 < bps" "bps < 2 ^ 31" "drate_search bps = (m, e)"
  shows "m < 256" "e < 16" "\<And>m' e'. m' < 256 \<Longrightarrow> e' < 16 \<Longrightarrow> \<bar>data_rate m e - of_int bps\<bar> \<le> \<bar>data_rate m' e' - of_int bps\<bar>"
proof -
  obtain b where l: "drate_e_loop (of_int bps) [0..<16] (fl (10 ^ 30), 0, 0) = (b, m, e)"
    using assms(3) unfolding drate_search_def by (metis prod.collapse)
  note k = e_loop_min [OF l]
  have "b \<le> \<bar>fl (cc1101_bitrate 0 0 - of_int bps)\<bar>" using k by simp
  also have "\<dots> = \<bar>data_rate 0 0 - of_int bps\<bar>" by (simp only: rate_error_exact [of 0 0, OF _ _ assms(1,2)])
  also have "\<dots> \<le> 2 ^ 32"
  proof -
    have "(of_int bps :: rat) < of_int (2 ^ 31)" "(0 :: rat) < of_int bps" using assms(1,2) by (simp_all only: of_int_less_iff of_int_0_less_iff)
    moreover have "data_rate 0 0 = 203125 / 8192" by (simp add: data_rate_def)
    ultimately show ?thesis by (simp add: abs_le_iff)
  qed
  also have "(2 :: rat) ^ 32 < fl (10 ^ 30)"
  proof -
    have "\<bar>fl (10 ^ 30) - 10 ^ 30\<bar> \<le> \<bar>10 ^ 30\<bar> / 2 ^ 53" by (rule fl_error) simp
    then have "\<bar>fl (10 ^ 30) - 10 ^ 30\<bar> \<le> 10 ^ 15" by (rule order_trans) simp
    then show ?thesis by simp
  qed
  finally have "b < fl (10 ^ 30)" .
  then have be: "m < 256" "e < 16" "b = \<bar>fl (cc1101_bitrate m e - of_int bps)\<bar>" using k by auto
  then show "m < 256" "e < 16" by simp_all
  show "\<bar>data_rate m e - of_int bps\<bar> \<le> \<bar>data_rate m' e' - of_int bps\<bar>" if "m' < 256" "e' < 16" for m' e'
    using k that be rate_error_exact [OF _ _ assms(1,2)] by auto
qed

text \<open>The rate a register file stands for.\<close>

definition rate_of :: "(u8 \<Rightarrow> u8) \<Rightarrow> rat" where
  "rate_of regs = data_rate (unat (regs 0x11)) (unat (regs 0x10 AND 0x0F))"

lemma low_nibble: "e < 16 \<Longrightarrow> unat ((v AND 0xF0 OR (of_nat e AND 0x0F)) AND 0x0F :: u8) = e"
proof -
  assume e: "e < 16"
  have m: "0x0F = (mask 4 :: u8)" by (simp add: mask_eq_exp_minus_1)
  have "(v AND 0xF0 OR (of_nat e AND 0x0F)) AND 0x0F = (of_nat e AND 0x0F :: u8)"
  proof (rule bit_word_eqI)
    fix n :: nat
    assume "n < LENGTH(8)"
    then have "n \<in> {0, 1, 2, 3, 4, 5, 6, 7}" by auto
    then show "bit ((v AND 0xF0 OR (of_nat e AND 0x0F)) AND 0x0F) n = bit (of_nat e AND 0x0F :: u8) n"
      by (elim insertE) (auto simp: bit_simps)
  qed
  also have "\<dots> = take_bit 4 (of_nat e)" unfolding m by (simp add: take_bit_eq_mask)
  finally show ?thesis using e by (simp add: unsigned_take_bit_eq unsigned_of_nat take_bit_nat_eq_self)
qed

lemma low_byte: "m < 256 \<Longrightarrow> unat (of_nat m AND 0xFF :: u8) = m"
  by (simp add: and_0xFF unsigned_take_bit_eq unsigned_of_nat take_bit_nat_eq_self)

lemma datarate_set_and_got:
  fixes regs :: "u8 \<Rightarrow> u8"
  assumes "0 < bps" "bps < 2 ^ 31" "bus_initialized (bus r)" "cc1101_did_reset r"
    and "cc1101_cmd_set_datarate tg bps r ([0, 0, x, ucast v, 0] @ replicate 6 0 @ u) = Some (rep, r', t')"
    and "bus_initialized (bus q)" "cc1101_did_reset q"
  defines "after \<equiv> chip tg r' regs"
  shows "rep = CmdOk []" "after 0x10 AND 0xF0 = v AND 0xF0"
    and "\<forall>m < 256. \<forall>e < 16. \<bar>rate_of after - of_int bps\<bar> \<le> \<bar>data_rate m e - of_int bps\<bar>"
    and "\<exists>q'. cc1101_cmd_get_datarate tg q ([0, 0, x, ucast (after 0x10), 0, 0, 0, y, ucast (after 0x11), 0] @ w) =
      Some (text_reply (print_int (llround (rate_of after))), q', w)"
proof -
  obtain m e where s: "drate_search bps = (m, e)" by fastforce
  note n = drate_search_nearest [OF assms(1,2) s]
  have u: "ucast (ucast (b :: u8) :: u32) = b" for b by (simp add: ucast_down_ucast_id is_down)
  have six: "replicate 6 0 @ u = 0 # 0 # 0 # 0 # 0 # 0 # u" by (simp add: numeral_eq_Suc)
  have r: "rep = CmdOk []" "r' = logged tg [0x11, of_nat m AND 0xFF] (logged tg [0x10, (v AND 0xF0) OR (of_nat e AND 0x0F)] (logged tg [0x90, 0] r))"
    using assms(1,3-5) unfolding six
    by (auto simp: cc1101_cmd_set_datarate_def cc1101_ensure_ready_def cc1101_set_datarate_def s read_reg_ok write_reg_ok u)
  have a: "after 0x10 = (v AND 0xF0) OR (of_nat e AND 0x0F)" "after 0x11 = of_nat m AND 0xFF"
    by (simp_all add: after_def r(2) chip_logged)
  have rate: "rate_of after = data_rate m e" by (simp only: rate_of_def a low_nibble [OF n(2)] low_byte [OF n(1)])
  show "rep = CmdOk []" by (rule r(1))
  show "after 0x10 AND 0xF0 = v AND 0xF0"
  proof (rule bit_word_eqI)
    fix k :: nat
    assume "k < LENGTH(8)"
    then have "k \<in> {0, 1, 2, 3, 4, 5, 6, 7}" by auto
    then show "bit (after 0x10 AND 0xF0) k = bit (v AND 0xF0) k" unfolding a by (elim insertE) (auto simp: bit_simps)
  qed
  show "\<forall>m < 256. \<forall>e < 16. \<bar>rate_of after - of_int bps\<bar> \<le> \<bar>data_rate m e - of_int bps\<bar>" using n(3) rate by simp
  have f: "unat (after 0x11 AND 0xFF) = m" "unat (after 0x10 AND 0x0F) = e"
    using low_byte [OF n(1)] low_nibble [OF n(2)] by (simp_all add: a)
  show "\<exists>q'. cc1101_cmd_get_datarate tg q ([0, 0, x, ucast (after 0x10), 0, 0, 0, y, ucast (after 0x11), 0] @ w) =
      Some (text_reply (print_int (llround (rate_of after))), q', w)"
    using assms(6,7) by (simp add: cc1101_cmd_get_datarate_def cc1101_ensure_ready_def read_reg_ok u f bitrate_exact n(1,2) rate)
qed

text \<open>C39: The search for a data rate finds the best one the CC1101 has: for every rate asked for, the
  registers written keep the bandwidth bits and encode a rate at least as close as that of any mantissa
  and exponent, and \<open>get_datarate\<close> reports exactly that rate, rounded.\<close>

theorem cc1101_datarate_nearest:
  fixes regs :: "u8 \<Rightarrow> u8"
  assumes "0 < bps" "bps < 2 ^ 31" "bus_initialized (bus r)" "cc1101_did_reset r"
    and "cc1101_cmd_set_datarate tg bps r ([0, 0, x, ucast v, 0] @ replicate 6 0 @ u) = Some (rep, r', t')"
    and "bus_initialized (bus q)" "cc1101_did_reset q"
  shows "rep = CmdOk [] \<and> chip tg r' regs 0x10 AND 0xF0 = v AND 0xF0 \<and>
    (\<forall>m < 256. \<forall>e < 16. \<bar>rate_of (chip tg r' regs) - of_int bps\<bar> \<le> \<bar>data_rate m e - of_int bps\<bar>) \<and>
    (\<exists>q'. cc1101_cmd_get_datarate tg q ([0, 0, x, ucast (chip tg r' regs 0x10), 0, 0, 0, y, ucast (chip tg r' regs 0x11), 0] @ w) =
      Some (text_reply (print_int (llround (rate_of (chip tg r' regs)))), q', w))"
  by (intro conjI datarate_set_and_got [OF assms])

text \<open>A radio whose bus is up and which has been reset.\<close>

definition radio_ready :: radio where
  "radio_ready = (radio_boot ESP32)\<lparr>bus := (bus (radio_boot ESP32))\<lparr>bus_initialized := True\<rparr>, cc1101_did_reset := True\<rparr>"

lemma radio_ready_simps [simp]: "bus_initialized (bus radio_ready)" "cc1101_did_reset radio_ready"
  by (simp_all add: radio_ready_def)

text \<open>434 MHz: the calibration finds 42 in its register and leaves it.\<close>

theorem cc1101_frequency_roundtrip_witness:
  "\<exists>r' f q'. cc1101_cmd_set_freq ESP32 ''434'' radio_ready (replicate 9 0 @ [0, 0, 0, 0, 0, 0, 42, 0]) = Some (CmdOk [], r', []) \<and>
     cc1101_cmd_get_freq ESP32 radio_ready (freq_answers (chip ESP32 r' (\<lambda>_. 0)) @ []) = Some (text_reply (print_fixed 6 f), q', []) \<and>
     \<bar>f - 434\<bar> \<le> 2 / 10000"
proof -
  have f: "fl 434 = 434" by (rule fl_int [of 434]) simp_all
  have s: "finite_double ''434'' = Some 434"
    by (simp add: finite_double_def strtod_body_def strtol_space_def is_digit_def from_hex_def digits_value_def f Let_def)
  have b: "fl (861 / 2) = 861 / 2" by (rule fl_exact [of _ 861 "- 1"]) (simp_all add: power_int_minus)
  have nine: "replicate 9 0 @ u = 0 # 0 # 0 # 0 # 0 # 0 # 0 # 0 # 0 # u" for u :: trace by (simp add: numeral_eq_Suc)
  have l: "llround_u32 (fl (fl (fl 434000000 * 65536) / 26000000)) t =
      Some (word_of_int (llround (fl (fl (fl 434000000 * 65536) / 26000000))), t)" for t
    using frequency_chain(2,3) [of 434] by (simp add: llround_u32_def)
  obtain r' where r: "cc1101_cmd_set_freq ESP32 ''434'' radio_ready (replicate 9 0 @ [0, 0, 0, 0, 0, 0, 42, 0]) = Some (CmdOk [], r', [])"
    unfolding nine by (simp add: cc1101_cmd_set_freq_def cc1101_ensure_ready_def s l cc1101_set_frequency_mhz_def write_reg_ok
      cc1101_calibrate_for_freq_def band_315_def band_433_def b cc1101_raise_fscal2_def read_reg_ok del: replicate.simps)
  show ?thesis
    using cc1101_frequency_roundtrip [OF s _ _ _ _ r, where q = radio_ready and regs = "\<lambda>_. 0" and v = "[]"] r by fastforce
qed

text \<open>9600 bits per second.\<close>

theorem cc1101_datarate_nearest_witness:
  "\<exists>r'. cc1101_cmd_set_datarate ESP32 9600 radio_ready ([0, 0, 0, 0x8C, 0] @ replicate 6 0 @ []) = Some (CmdOk [], r', []) \<and>
     \<bar>rate_of (chip ESP32 r' (\<lambda>_. 0)) - 9600\<bar> \<le> \<bar>data_rate 131 8 - 9600\<bar>"
proof -
  have "\<exists>r'. cc1101_cmd_set_datarate ESP32 9600 radio_ready ([0, 0, 0, ucast (0x8C :: u8), 0] @ replicate 6 0 @ []) = Some (CmdOk [], r', [])"
  proof -
    obtain m e where "drate_search 9600 = (m, e)" by fastforce
    moreover have "replicate 6 0 @ [] = [0, 0, 0, 0, 0, 0 :: u32]" by (simp add: numeral_eq_Suc)
    ultimately show ?thesis
      by (simp add: cc1101_cmd_set_datarate_def cc1101_ensure_ready_def cc1101_set_datarate_def read_reg_ok write_reg_ok)
  qed
  then obtain r' where r: "cc1101_cmd_set_datarate ESP32 9600 radio_ready ([0, 0, 0, ucast (0x8C :: u8), 0] @ replicate 6 0 @ []) = Some (CmdOk [], r', [])"
    by blast
  from cc1101_datarate_nearest [OF _ _ _ _ r, where q = radio_ready and regs = "\<lambda>_. 0"] have
    "\<bar>rate_of (chip ESP32 r' (\<lambda>_. 0)) - 9600\<bar> \<le> \<bar>data_rate 131 8 - 9600\<bar>" by simp
  then show ?thesis using r by auto
qed

end
