(* ===== verification/Esp_Rfm69.thy ===== *)
theory Esp_Rfm69
  imports Esp_Cc1101
begin

text \<open>
  The driver of the RFM69 radio (\<open>src/esp/main/libraries/rfm69.c\<close>), on its own SPI device handle. The
  results of transfers are not looked at by the code; a read takes the two bytes received from the
  trace. The loops that wait for the chip are partial functions: no value stands for not returning.
\<close>

section \<open>Registers\<close>

definition rfm69_log :: "u8 list \<Rightarrow> radio \<Rightarrow> radio" where
  "rfm69_log tx r = (case rfm69_handle r of None \<Rightarrow> r
     | Some cs \<Rightarrow> r\<lparr>bus := (bus r)\<lparr>spi_log := spi_log (bus r) @
         [\<lparr>x_cs = cs, x_mode = 0, x_clock = 8000000, x_lsb_first = False, x_tx = tx\<rparr>]\<rparr>\<rparr>)"

definition rfm69_write_reg :: "u8 \<Rightarrow> u8 \<Rightarrow> radio \<Rightarrow> radio" where
  "rfm69_write_reg addr value r =
     (if rfm69_handle r = None then r else rfm69_log [addr OR 0x80, value] r)"

definition rfm69_read_reg :: "u8 \<Rightarrow> radio \<Rightarrow> trace \<Rightarrow> (u8 \<times> radio \<times> trace) option" where
  "rfm69_read_reg addr r t =
     (if rfm69_handle r = None then Some (0, r, t)
      else do { (rx, t) \<leftarrow> rd_bytes 2 t; Some (rx ! 1, rfm69_log [addr AND 0x7F, 0] r, t) })"

text \<open>\<open>while ((rfm69_read_reg(reg) & mask) == 0)\<close>.\<close>

partial_function (option) rfm69_wait :: "u8 \<Rightarrow> u8 \<Rightarrow> radio \<Rightarrow> trace \<Rightarrow> (radio \<times> trace) option" where
  "rfm69_wait reg mask_bits r t = do {
     (v, r, t) \<leftarrow> rfm69_read_reg reg r t;
     if v AND mask_bits = 0 then rfm69_wait reg mask_bits r t else Some (r, t) }"

text \<open>The bus may have been initialised by another driver: 0x103 is \<open>ESP_ERR_INVALID_STATE\<close>.\<close>

definition rfm69_init_device :: "radio \<Rightarrow> trace \<Rightarrow> (u32 \<times> radio \<times> trace) option" where
  "rfm69_init_device r t =
     (if rfm69_initialized r then Some (0, r, t)
      else do {
        (ret, t) \<leftarrow> rd t;
        if ret \<noteq> 0 \<and> ret \<noteq> 0x103 then Some (ret, r, t)
        else do {
          (ret, t) \<leftarrow> rd t;
          if ret \<noteq> 0 then Some (ret, r, t)
          else Some (0, r\<lparr>rfm69_handle := Some (rfm69_cs r), rfm69_initialized := True\<rparr>, t) } })"

section \<open>Settings\<close>

definition rfm69_set_mode :: "u8 \<Rightarrow> radio \<Rightarrow> trace \<Rightarrow> (radio \<times> trace) option" where
  "rfm69_set_mode mode r t = do {
     (current_opmode, r, t) \<leftarrow> rfm69_read_reg 0x01 r t;
     let new_opmode = current_opmode AND 0xE3;
     let new_opmode = new_opmode OR (mode AND 0x1C);
     let r = rfm69_write_reg 0x01 new_opmode r;
     let r = (if mode AND 0x1C = 0x10
              then rfm69_write_reg 0x13 0x1A (rfm69_write_reg 0x5C 0x70 (rfm69_write_reg 0x5A 0x55 r)) else r);
     if current_opmode AND 0x1C = 0x00 then rfm69_wait 0x27 0x80 r t else Some (r, t) }"

definition FSTEP :: rat where "FSTEP = 6103515625 / 100000000"

definition rfm69_set_frequency_hz :: "u32 \<Rightarrow> radio \<Rightarrow> trace \<Rightarrow> (radio \<times> trace) option" where
  "rfm69_set_frequency_hz freq_hz r t = do {
     (frf, t) \<leftarrow> llround_u32 (fl (of_nat (unat freq_hz) / FSTEP)) t;
     let r = rfm69_write_reg 0x07 (ucast (drop_bit 16 frf)) r;
     let r = rfm69_write_reg 0x08 (ucast (drop_bit 8 frf)) r;
     Some (rfm69_write_reg 0x09 (ucast frf) r, t) }"

definition rfm69_get_frequency_mhz :: "radio \<Rightarrow> trace \<Rightarrow> (rat \<times> radio \<times> trace) option" where
  "rfm69_get_frequency_mhz r t = do {
     (msb, r, t) \<leftarrow> rfm69_read_reg 0x07 r t;
     (mid, r, t) \<leftarrow> rfm69_read_reg 0x08 r t;
     (lsb, r, t) \<leftarrow> rfm69_read_reg 0x09 r t;
     let frf = (push_bit 16 (ucast msb) OR push_bit 8 (ucast mid) OR ucast lsb :: u32);
     Some (fl (fl (FSTEP * of_nat (unat frf)) / 1000000), r, t) }"

text \<open>The conversion of a \<open>double\<close> to an integer drops the fraction.\<close>

definition rfm69_set_bitrate :: "int \<Rightarrow> radio \<Rightarrow> radio" where
  "rfm69_set_bitrate bps r =
     (if bps \<le> 0 then r
      else
        let bitrate = (word_of_int \<lfloor>fl (32000000 / of_int bps)\<rfloor> :: u32);
            bitrate = (if bitrate = 0 then 1 else bitrate)
        in rfm69_write_reg 0x04 (ucast bitrate) (rfm69_write_reg 0x03 (ucast (drop_bit 8 bitrate)) r))"

definition rfm69_get_bitrate :: "radio \<Rightarrow> trace \<Rightarrow> (int \<times> radio \<times> trace) option" where
  "rfm69_get_bitrate r t = do {
     (msb, r, t) \<leftarrow> rfm69_read_reg 0x03 r t;
     (lsb, r, t) \<leftarrow> rfm69_read_reg 0x04 r t;
     let bitrate_reg = (push_bit 8 (ucast msb) OR ucast lsb :: u32);
     Some (if bitrate_reg = 0 then 0 else \<lfloor>fl (32000000 / of_nat (unat bitrate_reg))\<rfloor>, r, t) }"

definition rfm69_set_deviation_hz :: "int \<Rightarrow> radio \<Rightarrow> radio" where
  "rfm69_set_deviation_hz deviation_hz r =
     (let deviation_hz = (if deviation_hz < 0 then 0 else deviation_hz);
          deviation = (word_of_int (deviation_hz div 61) :: u32)
      in rfm69_write_reg 0x06 (ucast deviation) (rfm69_write_reg 0x05 (ucast (drop_bit 8 deviation)) r))"

definition rfm69_get_deviation_hz :: "radio \<Rightarrow> trace \<Rightarrow> (int \<times> radio \<times> trace) option" where
  "rfm69_get_deviation_hz r t = do {
     (msb, r, t) \<leftarrow> rfm69_read_reg 0x05 r t;
     (lsb, r, t) \<leftarrow> rfm69_read_reg 0x06 r t;
     let v = (push_bit 8 (ucast msb) OR ucast lsb :: u32);
     Some (sint (v * 61), r, t) }"

definition rfm69_set_bandwidth_raw :: "u8 \<Rightarrow> radio \<Rightarrow> trace \<Rightarrow> (radio \<times> trace) option" where
  "rfm69_set_bandwidth_raw bw r t = do {
     (current, r, t) \<leftarrow> rfm69_read_reg 0x19 r t;
     Some (rfm69_write_reg 0x19 (current AND 0xE0 OR (bw AND 0x1F)) r, t) }"

definition rfm69_get_bandwidth_raw :: "radio \<Rightarrow> trace \<Rightarrow> (u8 \<times> radio \<times> trace) option" where
  "rfm69_get_bandwidth_raw r t = rfm69_read_reg 0x19 r t"

text \<open>The bandwidth of a mantissa and an exponent.\<close>

definition rfm69_bw_hz :: "rat \<Rightarrow> nat \<Rightarrow> rat" where
  "rfm69_bw_hz mant ex = fl (32000000 / fl (mant * 2 ^ (ex + 2)))"

definition rfm69_get_bandwidth_khz :: "radio \<Rightarrow> trace \<Rightarrow> (rat \<times> radio \<times> trace) option" where
  "rfm69_get_bandwidth_khz r t = do {
     (reg, r, t) \<leftarrow> rfm69_read_reg 0x19 r t;
     let mant_bits = drop_bit 3 (reg AND 0x18);
     let ex = reg AND 0x07;
     let mant = (if mant_bits = 0 then 16 else if mant_bits = 1 then 20 else if mant_bits = 2 then 24 else 24);
     Some (fl (rfm69_bw_hz mant (unat ex) / 1000), r, t) }"

text \<open>The search over mantissas and exponents; 2^1024 stands for \<open>HUGE_VAL\<close>.\<close>

fun bw_loop :: "rat \<Rightarrow> (nat \<times> nat) list \<Rightarrow> rat \<times> nat \<times> nat \<Rightarrow> rat \<times> nat \<times> nat" where
  "bw_loop target_hz [] best = best"
| "bw_loop target_hz ((mant_bits, ex) # rest) (best_diff, best_mant, best_exp) =
     (let mant = (if mant_bits = 0 then 16 else if mant_bits = 1 then 20 else 24);
          diff = \<bar>fl (rfm69_bw_hz mant ex - target_hz)\<bar>
      in bw_loop target_hz rest (if diff < best_diff then (diff, mant_bits, ex) else (best_diff, best_mant, best_exp)))"

definition rfm69_set_bandwidth_khz :: "rat \<Rightarrow> radio \<Rightarrow> trace \<Rightarrow> (radio \<times> trace) option" where
  "rfm69_set_bandwidth_khz bw_khz r t = do {
     let target_hz = fl (bw_khz * 1000);
     let (best_diff, best_mant, best_exp) = bw_loop target_hz (List.product [0..<3] [0..<8]) (2 ^ 1024, 0, 0);
     (current, r, t) \<leftarrow> rfm69_read_reg 0x19 r t;
     let bw = (push_bit 3 (of_nat best_mant) AND 0x18) OR (of_nat best_exp AND 0x07);
     Some (rfm69_write_reg 0x19 (current AND 0xE0 OR bw) r, t) }"

definition rfm69_set_modulation :: "u8 \<Rightarrow> radio \<Rightarrow> radio" where
  "rfm69_set_modulation m r =
     (if m = 1 then rfm69_write_reg 0x02 (0x40 OR 0x08 OR 0x00) r else rfm69_write_reg 0x02 (0x40 OR 0x00 OR 0x00) r)"

definition rfm69_set_threshold_type_fixed :: "bool \<Rightarrow> radio \<Rightarrow> radio" where
  "rfm69_set_threshold_type_fixed fixed r =
     (if fixed then rfm69_write_reg 0x1B (0x00 OR 0x00 OR 0x00) r else rfm69_write_reg 0x1B (0x40 OR 0x00 OR 0x00) r)"

definition rfm69_set_lna_gain :: "u8 \<Rightarrow> radio \<Rightarrow> radio" where
  "rfm69_set_lna_gain gain r = rfm69_write_reg 0x18 (0x00 OR gain) r"

definition rfm69_set_rssi_threshold :: "u8 \<Rightarrow> radio \<Rightarrow> radio" where
  "rfm69_set_rssi_threshold thresh r = rfm69_write_reg 0x29 thresh r"

definition rfm69_set_fixed_threshold :: "u8 \<Rightarrow> radio \<Rightarrow> radio" where
  "rfm69_set_fixed_threshold thresh r = rfm69_write_reg 0x1D thresh r"

definition rfm69_set_sensitivity_boost :: "bool \<Rightarrow> radio \<Rightarrow> radio" where
  "rfm69_set_sensitivity_boost enabled r = rfm69_write_reg 0x58 (if enabled then 0x2D else 0x1B) r"

text \<open>The power modes are 1 to 4; any other mode is taken for the last.\<close>

definition rfm69_set_transmit_power :: "int \<Rightarrow> int \<Rightarrow> bool \<Rightarrow> radio \<Rightarrow> radio" where
  "rfm69_set_transmit_power dbm pa_mode ocp r =
     (let dbm = (if dbm < -18 then -18 else dbm);
          dbm = (if dbm > 20 then 20 else dbm);
          normal = (\<lambda>r. rfm69_write_reg 0x5C 0x70 (rfm69_write_reg 0x5A 0x55 r));
          (pa_level, r) =
            (if pa_mode = 1 then (0x80 OR word_of_int (if dbm > 13 then 31 else dbm + 18), normal r)
             else if pa_mode = 2 then (0x40 OR word_of_int (if dbm > 13 then 31 else dbm + 18), normal r)
             else if pa_mode = 3 then (0x40 OR 0x20 OR word_of_int (if dbm > 17 then 31 else dbm + 14), normal r)
             else (0x40 OR 0x20 OR word_of_int (if dbm > 20 then 31 else dbm + 11),
                   rfm69_write_reg 0x5C 0x7C (rfm69_write_reg 0x5A 0x5D r)));
          r = rfm69_write_reg 0x11 pa_level r
      in rfm69_write_reg 0x13 (if ocp then 0x1A else 0x0F) r)"

definition rfm69_get_power_dbm :: "radio \<Rightarrow> trace \<Rightarrow> (int \<times> radio \<times> trace) option" where
  "rfm69_get_power_dbm r t = do {
     (pa_level, r, t) \<leftarrow> rfm69_read_reg 0x11 r t;
     let output_power = uint (pa_level AND 0x1F);
     let pa0 = (pa_level AND 0x80 \<noteq> 0);
     let pa1 = (pa_level AND 0x40 \<noteq> 0);
     let pa2 = (pa_level AND 0x20 \<noteq> 0);
     (test_pa1, r, t) \<leftarrow> rfm69_read_reg 0x5A r t;
     (test_pa2, r, t) \<leftarrow> rfm69_read_reg 0x5C r t;
     let is_20dbm = (test_pa1 = 0x5D \<and> test_pa2 = 0x7C);
     Some (if pa0 \<and> \<not> pa1 \<and> \<not> pa2 then output_power - 18
           else if \<not> pa0 \<and> pa1 \<and> \<not> pa2 then output_power - 18
           else if \<not> pa0 \<and> pa1 \<and> pa2 then (if is_20dbm then output_power - 11 else output_power - 14)
           else 0, r, t) }"

definition rfm69_read_rssi_dbm :: "bool \<Rightarrow> radio \<Rightarrow> trace \<Rightarrow> (int \<times> radio \<times> trace) option" where
  "rfm69_read_rssi_dbm force_trigger r t = do {
     (r, t) \<leftarrow> (if force_trigger then rfm69_wait 0x23 0x02 (rfm69_write_reg 0x23 0x01 r) t else Some (r, t));
     (v, r, t) \<leftarrow> rfm69_read_reg 0x24 r t;
     Some (- uint (drop_bit 1 v), r, t) }"

section \<open>Commands\<close>

text \<open>The text of a failure, which in C names the error code, is only logged.\<close>

definition rfm69_cmd_init :: "int \<Rightarrow> int \<Rightarrow> int \<Rightarrow> int \<Rightarrow> radio \<Rightarrow> trace \<Rightarrow> (reply \<times> radio \<times> trace) option" where
  "rfm69_cmd_init miso mosi sck cs r t = do {
     let r = (if miso > 0 then r\<lparr>rfm69_miso := miso\<rparr> else r);
     let r = (if mosi > 0 then r\<lparr>rfm69_mosi := mosi\<rparr> else r);
     let r = (if sck > 0 then r\<lparr>rfm69_sck := sck\<rparr> else r);
     let r = (if cs > 0 then r\<lparr>rfm69_cs := cs\<rparr> else r);
     let r = (if rfm69_handle r \<noteq> None then r\<lparr>rfm69_handle := None, rfm69_initialized := False\<rparr> else r);
     (ret, r, t) \<leftarrow> rfm69_init_device r t;
     Some (if ret = 0 then CmdOk [] else CmdErr ''rfm69 init failed'', r, t) }"

text \<open>Every other command starts with the same test.\<close>

definition rfm69_if_ready :: "(radio \<Rightarrow> trace \<Rightarrow> (reply \<times> radio \<times> trace) option) \<Rightarrow> radio \<Rightarrow> trace \<Rightarrow> (reply \<times> radio \<times> trace) option" where
  "rfm69_if_ready f r t = (if \<not> rfm69_initialized r then Some (CmdErr ''rfm69 not initialized'', r, t) else f r t)"

definition rfm69_cmd_apply_defaults :: "radio \<Rightarrow> trace \<Rightarrow> (reply \<times> radio \<times> trace) option" where
  "rfm69_cmd_apply_defaults = rfm69_if_ready (\<lambda>r t. do {
     (r, t) \<leftarrow> rfm69_set_mode 0x04 r t;
     let r = rfm69_set_threshold_type_fixed False r;
     let r = rfm69_set_transmit_power 10 3 True r;
     (r, t) \<leftarrow> rfm69_set_bandwidth_raw 0x09 r t;
     let r = rfm69_set_fixed_threshold 115 r;
     (r, t) \<leftarrow> rfm69_set_frequency_hz 433920000 r t;
     let r = rfm69_set_rssi_threshold 255 r;
     let r = rfm69_set_lna_gain 0 r;
     let r = rfm69_set_modulation 1 r;
     let r = rfm69_set_deviation_hz 5002 r;
     let r = rfm69_set_bitrate 100000 r;
     Some (CmdOk [], r, t) })"

definition rfm69_cmd_write_reg :: "int \<Rightarrow> int \<Rightarrow> radio \<Rightarrow> trace \<Rightarrow> (reply \<times> radio \<times> trace) option" where
  "rfm69_cmd_write_reg reg val = rfm69_if_ready (\<lambda>r t.
     Some (CmdOk [], rfm69_write_reg (word_of_int reg) (word_of_int val) r, t))"

definition rfm69_cmd_read_reg :: "int \<Rightarrow> radio \<Rightarrow> trace \<Rightarrow> (reply \<times> radio \<times> trace) option" where
  "rfm69_cmd_read_reg reg = rfm69_if_ready (\<lambda>r t. do {
     (v, r, t) \<leftarrow> rfm69_read_reg (word_of_int reg) r t;
     Some (CmdOk [v], r, t) })"

definition rfm69_mode_of :: "string \<Rightarrow> u8 option" where
  "rfm69_mode_of mode_str =
     (if mode_str = ''tx'' then Some 0x0C else if mode_str = ''rx'' then Some 0x10 else if mode_str = ''synth'' then Some 0x08
      else if mode_str = ''standby'' then Some 0x04 else if mode_str = ''sleep'' then Some 0x00 else None)"

definition rfm69_cmd_set_mode :: "string \<Rightarrow> radio \<Rightarrow> trace \<Rightarrow> (reply \<times> radio \<times> trace) option" where
  "rfm69_cmd_set_mode mode_str = rfm69_if_ready (\<lambda>r t. case rfm69_mode_of mode_str of
     None \<Rightarrow> Some (CmdErr ''invalid mode'', r, t)
   | Some mode \<Rightarrow> do { (r, t) \<leftarrow> rfm69_set_mode mode r t; Some (CmdOk [], r, t) })"

definition rfm69_cmd_set_freq :: "string \<Rightarrow> radio \<Rightarrow> trace \<Rightarrow> (reply \<times> radio \<times> trace) option" where
  "rfm69_cmd_set_freq freq_str = rfm69_if_ready (\<lambda>r t. case finite_double freq_str of
     None \<Rightarrow> Some (CmdErr ''invalid freq'', r, t)
   | Some freq_mhz \<Rightarrow>
       if freq_mhz \<le> 0 then Some (CmdErr ''invalid freq'', r, t)
       else do {
         (freq_hz, t) \<leftarrow> llround_u32 (fl (freq_mhz * 1000000)) t;
         (r, t) \<leftarrow> rfm69_set_frequency_hz freq_hz r t;
         Some (CmdOk [], r, t) })"

definition rfm69_cmd_get_freq :: "radio \<Rightarrow> trace \<Rightarrow> (reply \<times> radio \<times> trace) option" where
  "rfm69_cmd_get_freq = rfm69_if_ready (\<lambda>r t. do {
     (freq_mhz, r, t) \<leftarrow> rfm69_get_frequency_mhz r t;
     Some (text_reply (print_fixed 6 freq_mhz), r, t) })"

definition rfm69_cmd_set_bitrate :: "int \<Rightarrow> radio \<Rightarrow> trace \<Rightarrow> (reply \<times> radio \<times> trace) option" where
  "rfm69_cmd_set_bitrate bps = rfm69_if_ready (\<lambda>r t.
     if bps \<le> 0 then Some (CmdErr ''invalid bitrate'', r, t) else Some (CmdOk [], rfm69_set_bitrate bps r, t))"

definition rfm69_cmd_get_bitrate :: "radio \<Rightarrow> trace \<Rightarrow> (reply \<times> radio \<times> trace) option" where
  "rfm69_cmd_get_bitrate = rfm69_if_ready (\<lambda>r t. do {
     (bitrate, r, t) \<leftarrow> rfm69_get_bitrate r t;
     Some (text_reply (print_int bitrate), r, t) })"

definition rfm69_cmd_set_dev :: "int \<Rightarrow> radio \<Rightarrow> trace \<Rightarrow> (reply \<times> radio \<times> trace) option" where
  "rfm69_cmd_set_dev hz = rfm69_if_ready (\<lambda>r t. Some (CmdOk [], rfm69_set_deviation_hz hz r, t))"

definition rfm69_cmd_get_dev :: "radio \<Rightarrow> trace \<Rightarrow> (reply \<times> radio \<times> trace) option" where
  "rfm69_cmd_get_dev = rfm69_if_ready (\<lambda>r t. do {
     (deviation, r, t) \<leftarrow> rfm69_get_deviation_hz r t;
     Some (text_reply (print_int deviation), r, t) })"

definition rfm69_cmd_set_power :: "int \<Rightarrow> int \<Rightarrow> bool \<Rightarrow> radio \<Rightarrow> trace \<Rightarrow> (reply \<times> radio \<times> trace) option" where
  "rfm69_cmd_set_power dbm pa_mode ocp = rfm69_if_ready (\<lambda>r t.
     if pa_mode = 0 then
       let pa_mode = (if dbm \<le> 13 then 2 else if dbm \<le> 17 then 3 else 4); ocp_auto = (pa_mode \<noteq> 4)
       in Some (CmdOk [], rfm69_set_transmit_power dbm pa_mode ocp_auto r, t)
     else Some (CmdOk [], rfm69_set_transmit_power dbm pa_mode ocp r, t))"

definition rfm69_cmd_get_power :: "radio \<Rightarrow> trace \<Rightarrow> (reply \<times> radio \<times> trace) option" where
  "rfm69_cmd_get_power = rfm69_if_ready (\<lambda>r t. do {
     (dbm, r, t) \<leftarrow> rfm69_get_power_dbm r t;
     Some (text_reply (print_int dbm), r, t) })"

definition rfm69_cmd_set_bw :: "int \<Rightarrow> radio \<Rightarrow> trace \<Rightarrow> (reply \<times> radio \<times> trace) option" where
  "rfm69_cmd_set_bw bw = rfm69_if_ready (\<lambda>r t. do {
     (r, t) \<leftarrow> rfm69_set_bandwidth_raw (word_of_int bw) r t;
     Some (CmdOk [], r, t) })"

definition rfm69_cmd_get_bw :: "radio \<Rightarrow> trace \<Rightarrow> (reply \<times> radio \<times> trace) option" where
  "rfm69_cmd_get_bw = rfm69_if_ready (\<lambda>r t. do {
     (bw, r, t) \<leftarrow> rfm69_get_bandwidth_raw r t;
     Some (text_reply (print_int (uint (bw AND 0x1F))), r, t) })"

definition rfm69_cmd_set_bw_khz :: "string \<Rightarrow> radio \<Rightarrow> trace \<Rightarrow> (reply \<times> radio \<times> trace) option" where
  "rfm69_cmd_set_bw_khz khz_str = rfm69_if_ready (\<lambda>r t. case finite_double khz_str of
     None \<Rightarrow> Some (CmdErr ''invalid bw'', r, t)
   | Some bw_khz \<Rightarrow>
       if bw_khz \<le> 0 then Some (CmdErr ''invalid bw'', r, t)
       else do { (r, t) \<leftarrow> rfm69_set_bandwidth_khz bw_khz r t; Some (CmdOk [], r, t) })"

definition rfm69_cmd_get_bw_khz :: "radio \<Rightarrow> trace \<Rightarrow> (reply \<times> radio \<times> trace) option" where
  "rfm69_cmd_get_bw_khz = rfm69_if_ready (\<lambda>r t. do {
     (bw_khz, r, t) \<leftarrow> rfm69_get_bandwidth_khz r t;
     Some (text_reply (print_fixed 1 bw_khz), r, t) })"

definition rfm69_cmd_set_mod :: "string \<Rightarrow> radio \<Rightarrow> trace \<Rightarrow> (reply \<times> radio \<times> trace) option" where
  "rfm69_cmd_set_mod mod_str = rfm69_if_ready (\<lambda>r t.
     Some (CmdOk [], rfm69_set_modulation (if mod_str = ''ook'' then 1 else 0) r, t))"

definition rfm69_cmd_get_mod :: "radio \<Rightarrow> trace \<Rightarrow> (reply \<times> radio \<times> trace) option" where
  "rfm69_cmd_get_mod = rfm69_if_ready (\<lambda>r t. do {
     (v, r, t) \<leftarrow> rfm69_read_reg 0x02 r t;
     Some (text_reply (if v AND 0x08 \<noteq> 0 then ''ook'' else ''fsk''), r, t) })"

definition rfm69_cmd_thresh_fixed :: "bool \<Rightarrow> radio \<Rightarrow> trace \<Rightarrow> (reply \<times> radio \<times> trace) option" where
  "rfm69_cmd_thresh_fixed fixed = rfm69_if_ready (\<lambda>r t. Some (CmdOk [], rfm69_set_threshold_type_fixed fixed r, t))"

definition rfm69_cmd_set_lna_gain :: "int \<Rightarrow> radio \<Rightarrow> trace \<Rightarrow> (reply \<times> radio \<times> trace) option" where
  "rfm69_cmd_set_lna_gain gain = rfm69_if_ready (\<lambda>r t.
     if gain < 0 \<or> gain > 0x30 then Some (CmdErr ''invalid gain'', r, t)
     else Some (CmdOk [], rfm69_set_lna_gain (word_of_int gain) r, t))"

definition rfm69_cmd_set_rssi_threshold :: "int \<Rightarrow> radio \<Rightarrow> trace \<Rightarrow> (reply \<times> radio \<times> trace) option" where
  "rfm69_cmd_set_rssi_threshold thresh = rfm69_if_ready (\<lambda>r t.
     if thresh < 0 \<or> thresh > 255 then Some (CmdErr ''invalid thresh'', r, t)
     else Some (CmdOk [], rfm69_set_rssi_threshold (word_of_int thresh) r, t))"

definition rfm69_cmd_set_fixed_threshold :: "int \<Rightarrow> radio \<Rightarrow> trace \<Rightarrow> (reply \<times> radio \<times> trace) option" where
  "rfm69_cmd_set_fixed_threshold thresh = rfm69_if_ready (\<lambda>r t.
     if thresh < 0 \<or> thresh > 255 then Some (CmdErr ''invalid thresh'', r, t)
     else Some (CmdOk [], rfm69_set_fixed_threshold (word_of_int thresh) r, t))"

definition rfm69_cmd_set_sensitivity_boost :: "bool \<Rightarrow> radio \<Rightarrow> trace \<Rightarrow> (reply \<times> radio \<times> trace) option" where
  "rfm69_cmd_set_sensitivity_boost enabled = rfm69_if_ready (\<lambda>r t. Some (CmdOk [], rfm69_set_sensitivity_boost enabled r, t))"

definition rfm69_cmd_read_rssi :: "bool \<Rightarrow> radio \<Rightarrow> trace \<Rightarrow> (reply \<times> radio \<times> trace) option" where
  "rfm69_cmd_read_rssi force_trigger = rfm69_if_ready (\<lambda>r t. do {
     (rssi_dbm, r, t) \<leftarrow> rfm69_read_rssi_dbm force_trigger r t;
     Some (text_reply (print_int rssi_dbm), r, t) })"

section \<open>The chip\<close>

text \<open>
  The registers of an RFM69 after a log of transfers: a header byte with the top bit set and a
  value write the register of the other seven bits, as its data sheet says.
\<close>

definition rfm69_chip_step :: "int \<Rightarrow> spi_transfer \<Rightarrow> (u8 \<Rightarrow> u8) \<Rightarrow> u8 \<Rightarrow> u8" where
  "rfm69_chip_step cs x regs =
     (if x_cs x = cs \<and> length (x_tx x) = 2 \<and> x_tx x ! 0 \<ge> 0x80 then regs(x_tx x ! 0 AND 0x7F := x_tx x ! 1) else regs)"

definition rfm69_chip :: "int \<Rightarrow> radio \<Rightarrow> (u8 \<Rightarrow> u8) \<Rightarrow> u8 \<Rightarrow> u8" where
  "rfm69_chip cs r regs = fold (rfm69_chip_step cs) (spi_log (bus r)) regs"

text \<open>A module in use: initialised, with a device whose chip select is \<open>cs\<close>.\<close>

definition in_use :: "int \<Rightarrow> radio \<Rightarrow> bool" where
  "in_use cs r \<longleftrightarrow> rfm69_initialized r \<and> rfm69_handle r = Some cs"

lemma in_use_log [simp]: "in_use cs (rfm69_log tx r) = in_use cs r"
  by (auto simp: in_use_def rfm69_log_def split: option.splits)

lemma in_use_write [simp]: "in_use cs (rfm69_write_reg a v r) = in_use cs r"
  by (simp add: rfm69_write_reg_def)

lemma rfm69_chip_write:
  "in_use cs r \<Longrightarrow> rfm69_chip cs (rfm69_write_reg a v r) regs = (rfm69_chip cs r regs)((a OR 0x80) AND 0x7F := v)"
  using le_word_or1 [of "0x80 :: u8" a]
  by (simp add: in_use_def rfm69_write_reg_def rfm69_log_def rfm69_chip_def rfm69_chip_step_def)

lemma rfm69_read_in_use:
  "in_use cs r \<Longrightarrow> rfm69_read_reg a r (x # ucast (v :: u8) # t) = Some (v, rfm69_log [a AND 0x7F, 0] r, t)"
  by (simp add: in_use_def rfm69_read_reg_def ucast_down_ucast_id is_down numeral_2_eq_2)

lemma rfm69_if_ready_in_use: "in_use cs r \<Longrightarrow> rfm69_if_ready f r t = f r t"
  by (simp add: rfm69_if_ready_def in_use_def)

section \<open>Output power\<close>

text \<open>What a chip with registers \<open>regs\<close> answers to the reads of \<open>get_power\<close>.\<close>

definition power_answers :: "(u8 \<Rightarrow> u8) \<Rightarrow> trace" where
  "power_answers regs = concat (List.map (\<lambda>a. [0, ucast (regs a)]) [0x11, 0x5A, 0x5C])"

text \<open>The power \<open>get_power\<close> reads from a level and the two test registers.\<close>

definition power_of :: "u8 \<Rightarrow> u8 \<Rightarrow> u8 \<Rightarrow> int" where
  "power_of level test1 test2 =
     (let p = uint (level AND 0x1F); pa0 = (level AND 0x80 \<noteq> 0); pa1 = (level AND 0x40 \<noteq> 0); pa2 = (level AND 0x20 \<noteq> 0) in
      if pa0 \<and> \<not> pa1 \<and> \<not> pa2 then p - 18 else if \<not> pa0 \<and> pa1 \<and> \<not> pa2 then p - 18
      else if \<not> pa0 \<and> pa1 \<and> pa2 then (if test1 = 0x5D \<and> test2 = 0x7C then p - 11 else p - 14) else 0)"

lemma get_power_ok:
  assumes "in_use cs r"
  shows "\<exists>r'. rfm69_cmd_get_power r (power_answers regs @ t) = Some (text_reply (print_int (power_of (regs 0x11) (regs 0x5A) (regs 0x5C))), r', t)"
  using assms
  by (simp add: rfm69_cmd_get_power_def rfm69_if_ready_in_use rfm69_get_power_dbm_def power_answers_def rfm69_read_in_use power_of_def Let_def)

text \<open>The registers written by each power mode; \<open>dbm\<close> is in the range of the chip.\<close>

lemma set_power_chip:
  assumes "in_use cs r" "- 18 \<le> dbm" "dbm \<le> 20"
  shows "in_use cs (rfm69_set_transmit_power dbm pa_mode ocp r)"
    "rfm69_chip cs (rfm69_set_transmit_power dbm pa_mode ocp r) regs 0x11 =
       (if pa_mode = 1 then 0x80 OR word_of_int (if dbm > 13 then 31 else dbm + 18)
        else if pa_mode = 2 then 0x40 OR word_of_int (if dbm > 13 then 31 else dbm + 18)
        else if pa_mode = 3 then 0x60 OR word_of_int (if dbm > 17 then 31 else dbm + 14) else 0x60 OR word_of_int (dbm + 11))"
    "rfm69_chip cs (rfm69_set_transmit_power dbm pa_mode ocp r) regs 0x5A = (if pa_mode \<in> {1, 2, 3} then 0x55 else 0x5D)"
    "rfm69_chip cs (rfm69_set_transmit_power dbm pa_mode ocp r) regs 0x5C = (if pa_mode \<in> {1, 2, 3} then 0x70 else 0x7C)"
    "rfm69_chip cs (rfm69_set_transmit_power dbm pa_mode ocp r) regs 0x13 = (if ocp then 0x1A else 0x0F)"
  using assms by (simp_all add: rfm69_set_transmit_power_def rfm69_chip_write or.assoc [of 64 32, symmetric] Let_def)

lemma clamped: "rfm69_set_transmit_power dbm pa_mode ocp r = rfm69_set_transmit_power (max (- 18) (min 20 dbm)) pa_mode ocp r"
  by (cases "dbm < - 18"; cases "20 < dbm") (simp_all add: rfm69_set_transmit_power_def)

lemma power_levels_agree:
  "\<forall>d \<in> set [-18..13]. power_of (0x40 OR word_of_int (d + 18)) 0x55 0x70 = d"
  "\<forall>d \<in> set [14..17]. power_of (0x60 OR word_of_int (d + 14)) 0x55 0x70 = d"
  "\<forall>d \<in> set [18..20]. power_of (0x60 OR word_of_int (d + 11)) 0x5D 0x7C = d"
  by code_simp+

lemma power_set_and_got:
  fixes regs :: "u8 \<Rightarrow> u8"
  assumes "in_use cs r" "rfm69_cmd_set_power dbm 0 ocp r t = Some (rep, r', t')"
  defines "after \<equiv> rfm69_chip cs r' regs" and "granted \<equiv> max (- 18) (min 20 dbm)"
  shows "rep = CmdOk []" "after 0x13 = (if dbm \<le> 17 then 0x1A else 0x0F)"
    and "\<exists>r''. rfm69_cmd_get_power r' (power_answers after @ u) = Some (text_reply (print_int granted), r'', u)"
proof -
  define m where "m = (if dbm \<le> 13 then 2 else if dbm \<le> 17 then 3 else 4 :: int)"
  have "rep = CmdOk []" "r' = rfm69_set_transmit_power dbm m (m \<noteq> 4) r"
    using assms(2) by (simp_all add: rfm69_cmd_set_power_def rfm69_if_ready_in_use [OF assms(1)] m_def Let_def)
  then have r: "rep = CmdOk []" "r' = rfm69_set_transmit_power granted m (m \<noteq> 4) r"
    unfolding granted_def by (simp_all only: clamped [of dbm, symmetric])
  have g: "- 18 \<le> granted" "granted \<le> 20" by (simp_all add: granted_def)
  note c = set_power_chip [OF assms(1) g, of m "m \<noteq> 4", folded r(2)]
  show "rep = CmdOk []" by (rule r(1))
  show "after 0x13 = (if dbm \<le> 17 then 0x1A else 0x0F)" using c(5) [of regs] by (simp add: after_def m_def)
  have "power_of (after 0x11) (after 0x5A) (after 0x5C) = granted"
  proof -
    consider "m = 2" "granted \<in> set [-18..13]" | "m = 3" "granted \<in> set [14..17]" | "m = 4" "granted \<in> set [18..20]"
      unfolding m_def granted_def set_upto atLeastAtMost_iff by (cases "dbm \<le> 13"; cases "dbm \<le> 17") auto
    then show ?thesis
    proof cases
      case 1
      then have "granted \<le> 13" unfolding set_upto by simp
      with bspec [OF power_levels_agree(1) 1(2)] 1(1) c(2-4) show ?thesis by (simp add: after_def)
    next
      case 2
      then have "granted \<le> 17" unfolding set_upto by simp
      with bspec [OF power_levels_agree(2) 2(2)] 2(1) c(2-4) show ?thesis by (simp add: after_def)
    next
      case 3
      with bspec [OF power_levels_agree(3) 3(2)] c(2-4) show ?thesis by (simp add: after_def)
    qed
  qed
  then show "\<exists>r''. rfm69_cmd_get_power r' (power_answers after @ u) = Some (text_reply (print_int granted), r'', u)"
    using get_power_ok [OF c(1), of after u] by simp
qed

text \<open>The output power set on the RFM69 is the one it reports, for every power asked for: with the
  amplifiers left to the firmware, the level written and the amplifiers switched on mean the power asked
  for, brought into the range of -18 to 20 dBm, and over-current protection is off only above 17 dBm.\<close>

theorem rfm69_power_roundtrip:
  fixes regs :: "u8 \<Rightarrow> u8"
  assumes "in_use cs r" "rfm69_cmd_set_power dbm 0 ocp r t = Some (rep, r', t')"
  shows "rep = CmdOk [] \<and> rfm69_chip cs r' regs 0x13 = (if dbm \<le> 17 then 0x1A else 0x0F) \<and>
    (\<exists>r''. rfm69_cmd_get_power r' (power_answers (rfm69_chip cs r' regs) @ u) =
      Some (text_reply (print_int (max (- 18) (min 20 dbm))), r'', u))"
  by (intro conjI power_set_and_got [OF assms])

text \<open>With the two amplifiers asked for explicitly, a power below -14 dBm makes the level negative:
  its upper bits switch the third amplifier on as well, a combination the chip does not have, and the
  power reported is 0 dBm.\<close>

theorem rfm69_low_power_wraps:
  fixes regs :: "u8 \<Rightarrow> u8"
  assumes "in_use cs r" "dbm < -14" "rfm69_cmd_set_power dbm 3 ocp r t = Some (rep, r', t')"
  defines "after \<equiv> rfm69_chip cs r' regs"
  shows "rep = CmdOk []" "after 0x11 AND 0xE0 = 0xE0"
    and "\<exists>r''. rfm69_cmd_get_power r' (power_answers after @ u) = Some (text_reply ''0'', r'', u)"
proof -
  define d where "d = max (- 18) (min 20 dbm)"
  have "rep = CmdOk []" "r' = rfm69_set_transmit_power dbm 3 ocp r"
    using assms(3) by (simp_all add: rfm69_cmd_set_power_def rfm69_if_ready_in_use [OF assms(1)])
  then have r: "rep = CmdOk []" "r' = rfm69_set_transmit_power d 3 ocp r"
    unfolding d_def by (simp_all only: clamped [of dbm, symmetric])
  have d: "- 18 \<le> d" "d \<le> 20" "d \<in> set [-18..-15]" "\<not> 17 < d"
    using assms(2) unfolding d_def set_upto atLeastAtMost_iff by auto
  note c = set_power_chip [OF assms(1) d(1,2), of 3 ocp, folded r(2)]
  have l: "after 0x11 = 0x60 OR word_of_int (d + 14)" using c(2) [of regs] d(4) by (simp add: after_def)
  have e: "\<forall>d \<in> set [-18..-15]. (0x60 OR word_of_int (d + 14)) AND 0xE0 = (0xE0 :: u8) \<and> power_of (0x60 OR word_of_int (d + 14)) 0x55 0x70 = 0"
    by code_simp
  show "rep = CmdOk []" by (rule r(1))
  show "after 0x11 AND 0xE0 = 0xE0" using e d(3) unfolding l by blast
  have "power_of (after 0x11) (after 0x5A) (after 0x5C) = 0" using bspec [OF e d(3)] c(3,4) l by (simp add: after_def)
  moreover have "print_int 0 = ''0''" by (simp add: print_int_def decimal.simps hex_char_def)
  ultimately show "\<exists>r''. rfm69_cmd_get_power r' (power_answers after @ u) = Some (text_reply ''0'', r'', u)"
    using get_power_ok [OF c(1), of after u] by simp
qed

text \<open>A module with chip select 21; the power is read back from the registers written.\<close>

definition module_in_use :: radio where
  "module_in_use = (radio_boot ESP32)\<lparr>rfm69_handle := Some 21, rfm69_initialized := True\<rparr>"

lemma module_in_use [simp]: "in_use 21 module_in_use"
  by (simp add: in_use_def module_in_use_def)

theorem rfm69_power_roundtrip_witness:
  "\<exists>r' r''. rfm69_cmd_set_power (- 30) 0 False module_in_use [] = Some (CmdOk [], r', []) \<and>
     rfm69_cmd_get_power r' (power_answers (rfm69_chip 21 r' (\<lambda>_. 0)) @ []) = Some (text_reply (print_int (- 18)), r'', [])"
proof -
  obtain r' where r: "rfm69_cmd_set_power (- 30) 0 False module_in_use [] = Some (CmdOk [], r', [])"
    by (simp add: rfm69_cmd_set_power_def rfm69_if_ready_def module_in_use_def)
  from rfm69_power_roundtrip [OF module_in_use r, where regs = "\<lambda>_. 0" and u = "[]"] r show ?thesis by auto
qed

theorem rfm69_low_power_wraps_witness:
  "\<exists>r' r''. rfm69_cmd_set_power (- 18) 3 True module_in_use [] = Some (CmdOk [], r', []) \<and>
     rfm69_chip 21 r' (\<lambda>_. 0) 0x11 AND 0xE0 = 0xE0 \<and>
     rfm69_cmd_get_power r' (power_answers (rfm69_chip 21 r' (\<lambda>_. 0)) @ []) = Some (text_reply ''0'', r'', [])"
proof -
  obtain r' where r: "rfm69_cmd_set_power (- 18) 3 True module_in_use [] = Some (CmdOk [], r', [])"
    by (simp add: rfm69_cmd_set_power_def rfm69_if_ready_def module_in_use_def)
  from rfm69_low_power_wraps(2) [OF module_in_use _ r, where regs = "\<lambda>_. 0"]
    rfm69_low_power_wraps(3) [OF module_in_use _ r, where regs = "\<lambda>_. 0" and u = "[]"] r show ?thesis by auto
qed

section \<open>Waiting for the module\<close>

text \<open>Bytes read from a bus on which no module answers.\<close>

lemma rd_zeros: "rd_bytes 2 (replicate (Suc (Suc n)) 0) = Some ([0, 0], replicate n 0)" "rd_bytes 2 [] = None" "rd_bytes 2 [0] = None"
  by (simp_all add: numeral_2_eq_2)

lemma wait_zeros: "rfm69_handle r = Some cs \<Longrightarrow> rfm69_wait reg m r (replicate n 0) = None"
proof (induction n arbitrary: r rule: less_induct)
  case (less n)
  consider "n = 0" | "n = 1" | k where "n = Suc (Suc k)" by (cases n; cases "n - 1") auto
  then show ?case
  proof cases
    case 3
    have "rfm69_handle (rfm69_log [reg AND 0x7F, 0] r) = Some cs" using less.prems by (simp add: rfm69_log_def)
    with less.IH [of k] 3 have i: "rfm69_wait reg m (rfm69_log [reg AND 0x7F, 0] r) (replicate k 0) = None" by simp
    show ?thesis
      unfolding 3 using less.prems by (subst rfm69_wait.simps) (simp add: rfm69_read_reg_def rd_zeros i del: replicate.simps)
  qed (use less.prems in \<open>subst rfm69_wait.simps, simp add: rfm69_read_reg_def rd_zeros\<close>)+
qed

lemma rd_two: "rd_bytes 2 (a # b # t) = Some ([ucast a, ucast b], t)"
  by (simp add: numeral_2_eq_2)

lemma wait_polls:
  "rfm69_handle r = Some cs \<Longrightarrow> ucast v AND m \<noteq> 0 \<Longrightarrow> \<exists>r'. rfm69_handle r' = Some cs \<and> rfm69_wait reg m r (replicate (2 * k) 0 @ 0 # v # t) = Some (r', t)"
proof (induction k arbitrary: r)
  case 0
  then show ?case by (subst rfm69_wait.simps) (simp add: rfm69_read_reg_def rd_two rfm69_log_def)
next
  case (Suc k)
  have "rfm69_handle (rfm69_log [reg AND 0x7F, 0] r) = Some cs" using Suc.prems(1) by (simp add: rfm69_log_def)
  from Suc.IH [OF this Suc.prems(2)] Suc.prems(1) show ?case
    by (subst rfm69_wait.simps) (simp add: rfm69_read_reg_def rd_two)
qed

text \<open>C40: A forced measurement ends when the module reports it done, after however many polls, with half
  the value of the register as the reply; and it never returns while every register reads as zero,
  as without a module: there is no limit on the number of polls, and the task of all commands waits
  with it.\<close>

theorem rfm69_measurement_returns:
  assumes "rfm69_initialized r" "rfm69_handle r = Some cs"
  shows "rfm69_cmd_read_rssi True r (replicate n 0) = None \<and>
    (\<exists>r'. rfm69_cmd_read_rssi True r (replicate (2 * k) 0 @ [0, 2, 0, v]) = Some (text_reply (print_int (- uint (drop_bit 1 (ucast v :: u8)))), r', []))"
proof -
  have h: "rfm69_handle (rfm69_write_reg 0x23 0x01 r) = Some cs" using assms(2) by (simp add: rfm69_write_reg_def rfm69_log_def)
  obtain r' where r': "rfm69_handle r' = Some cs"
      "rfm69_wait 0x23 2 (rfm69_write_reg 0x23 0x01 r) (replicate (2 * k) 0 @ 0 # 2 # [0, v]) = Some (r', [0, v])"
    using wait_polls [OF h, of 2 2 "0x23" k "[0, v]"] by auto
  show ?thesis
    using assms(1) r' wait_zeros [OF h, of "0x23" 2 n]
    by (simp add: rfm69_cmd_read_rssi_def rfm69_if_ready_def rfm69_read_rssi_dbm_def rfm69_read_reg_def rd_two)
qed

text \<open>One poll in vain, and a register that reads 0xB4: -90 dBm.\<close>

theorem rfm69_measurement_returns_witness:
  "\<exists>r'. rfm69_cmd_read_rssi True module_in_use [0, 0, 0, 2, 0, 0xB4] = Some (CmdOk (List.map of_char ''-90''), r', []) \<and>
     rfm69_cmd_read_rssi True module_in_use (replicate 1000 0) = None"
proof -
  have u: "rfm69_initialized module_in_use" "rfm69_handle module_in_use = Some 21" by (simp_all add: module_in_use_def)
  have p: "print_int (- uint (drop_bit 1 (0xB4 :: u8))) = ''-90''" by code_simp
  have "replicate (2 * 1) (0 :: u32) @ [0, 2, 0, 0xB4] = [0, 0, 0, 2, 0, 0xB4]" by code_simp
  with rfm69_measurement_returns [OF u, where n = 1000 and k = 1 and v = "0xB4"] p show ?thesis by (auto simp: text_reply_def)
qed

end
