(* ===== verification/Esp_Sampler.thy ===== *)
theory Esp_Sampler
  imports Esp_Usb Sampler Playback
begin

text \<open>
  Sampling and retransmission on the ESP32 (\<open>src/esp/main/libraries/sampler.c\<close>): the two timer
  interrupts, the task that drains sampled lanes, the monitor of a retransmission and the
  start and stop functions. The timer, GPIO, LEDC and task calls of ESP-IDF are below the model: an
  error code or a pin level is read from the trace, and the parts of their effect that the code
  relies on (timer running, interrupt handler installed, task existing and notified, level and
  carrier of the output pin) are fields of the state.
\<close>

section \<open>State\<close>

record hw_timer =
  alarm_us :: u32
  auto_reload :: bool
  intr_enabled :: bool
  running :: bool

record esp_rt =
  eu :: esp_usb
  e_ring :: "u8 list list"
  e_overflow_lane :: "u8 list"
  e_head :: u8
  e_tail :: u8
  e_count :: u8
  e_overflow :: bool
  e_bit :: u8
  e_byte :: u8
  e_current :: u8
  e_stream_source :: u8
  e_tx_bit :: u8
  e_tx_byte :: u8
  e_tx_out :: bool
  sampling_isr_installed :: bool
  transmission_isr_installed :: bool
  sampler_task_exists :: bool
  sampler_task_notified :: bool
  monitor_task_exists :: bool
  e_pin :: u16
  sampling_active :: bool
  transmission_active :: bool
  sampling_tick_us :: u32
  transmit_tick_us :: u32
  transmit_use_pwm :: bool
  transmit_pwm_freq_hz :: u32
  transmit_pwm_duty_percent :: u8
  transmit_pwm_configured :: bool
  transmit_pwm_enabled_state :: bool
  sample_timer :: hw_timer
  transmit_timer :: hw_timer
  ledc_duty :: u32
  ledc_freq :: u32
  ledc_sig_out :: bool
  out_level :: bool

section \<open>Timers and resets\<close>

definition configure_timer :: "u32 \<Rightarrow> bool \<Rightarrow> hw_timer" where
  "configure_timer interval_us reload = \<lparr>alarm_us = interval_us, auto_reload = reload, intr_enabled = True, running = False\<rparr>"

definition normalize_tick_us :: "u8 \<Rightarrow> u32" where
  "normalize_tick_us requested_us =
     (if requested_us = 0 then 10 else if requested_us < 5 then 5 else ucast requested_us)"

definition reset_sampler_state :: "esp_rt \<Rightarrow> esp_rt" where
  "reset_sampler_state r = r\<lparr>e_head := 0, e_tail := 0, e_count := 0, e_overflow := False, e_bit := 0, e_byte := 0,
     e_current := 0, e_stream_source := 0, e_ring := replicate 16 (zeros 18), e_overflow_lane := zeros 18\<rparr>"

definition reset_transmission_state :: "esp_rt \<Rightarrow> esp_rt" where
  "reset_transmission_state r = r\<lparr>e_tx_bit := 0, e_tx_byte := 0, e_tx_out := False\<rparr>"

definition sampler_module_init :: "esp_rt \<Rightarrow> esp_rt" where
  "sampler_module_init r = reset_transmission_state (reset_sampler_state (r\<lparr>sampling_isr_installed := False,
     transmission_isr_installed := False, sampler_task_exists := False, monitor_task_exists := False,
     sampling_active := False, transmission_active := False, e_pin := 0, sampling_tick_us := 10, transmit_tick_us := 10,
     transmit_use_pwm := True, transmit_pwm_freq_hz := 38000, transmit_pwm_duty_percent := 50,
     transmit_pwm_configured := False, transmit_pwm_enabled_state := False\<rparr>))"

definition sampler_set_stream_source :: "u8 \<Rightarrow> esp_rt \<Rightarrow> esp_rt" where
  "sampler_set_stream_source src r = r\<lparr>e_stream_source := src\<rparr>"

section \<open>The sampling interrupt\<close>

definition sampling_isr :: "bool \<Rightarrow> esp_rt \<Rightarrow> esp_rt" where
  "sampling_isr level r =
     (let r = (if level then r\<lparr>e_current := e_current r OR push_bit (unat (e_bit r)) 1\<rparr> else r);
          r = r\<lparr>e_bit := e_bit r + 1\<rparr>
      in if e_bit r < 8 then r
         else
           let r = r\<lparr>e_bit := 0\<rparr>;
               r = (if e_overflow r then r\<lparr>e_overflow_lane := (e_overflow_lane r)[unat (e_byte r) := e_current r]\<rparr>
                    else r\<lparr>e_ring := (e_ring r)[unat (e_head r) := (e_ring r ! unat (e_head r))[unat (e_byte r) := e_current r]]\<rparr>);
               r = r\<lparr>e_current := 0, e_byte := e_byte r + 1\<rparr>
           in if e_byte r < 18 then r
              else
                let r = r\<lparr>e_byte := 0\<rparr> in
                if e_overflow r then (if e_count r < 16 then r\<lparr>e_overflow := False\<rparr> else r)
                else if 16 \<le> e_count r then r\<lparr>e_overflow := True\<rparr>
                else
                  let r = r\<lparr>e_count := e_count r + 1, e_head := (e_head r + 1) AND 15\<rparr>
                  in if 16 \<le> e_count r then r\<lparr>e_overflow := True\<rparr> else r)"

section \<open>The retransmission interrupt\<close>

definition transmit_pwm_set_enabled_isr :: "bool \<Rightarrow> esp_rt \<Rightarrow> esp_rt" where
  "transmit_pwm_set_enabled_isr enabled r =
     (if \<not> transmit_pwm_configured r \<or> enabled = transmit_pwm_enabled_state r then r
      else r\<lparr>ledc_sig_out := enabled, transmit_pwm_enabled_state := enabled, e_tx_out := enabled\<rparr>)"

definition drive_bit :: "bool \<Rightarrow> esp_rt \<Rightarrow> esp_rt" where
  "drive_bit b r =
     (if transmit_use_pwm r \<and> transmit_pwm_configured r then
        let r = transmit_pwm_set_enabled_isr b r in if \<not> b then r\<lparr>out_level := False\<rparr> else r
      else r\<lparr>out_level := b\<rparr>)"

definition transmission_isr :: "esp_rt \<Rightarrow> esp_rt" where
  "transmission_isr r =
     (if usb_get_rx_buffer_bytes_available (eu r) > 0 then
        let (ok, r) = (if e_tx_bit r = 0
            then (case usb_read_rx_buffer 1 (eu r) of
                    (None, u) \<Rightarrow> (False, r\<lparr>eu := u\<rparr>)
                  | (Some bs, u) \<Rightarrow> (True, r\<lparr>eu := u, e_tx_byte := bs ! 0\<rparr>))
            else (True, r))
        in if \<not> ok then r
           else
             let b = (drop_bit (unat (e_tx_bit r)) (e_tx_byte r) AND 1 \<noteq> 0);
                 r = drive_bit b r;
                 r = r\<lparr>e_tx_bit := e_tx_bit r + 1\<rparr>
             in if e_tx_bit r \<ge> 8 then r\<lparr>e_tx_bit := 0\<rparr> else r
      else
        let r = (if transmit_use_pwm r \<and> transmit_pwm_configured r then transmit_pwm_set_enabled_isr False r else r)
        in r\<lparr>out_level := False, e_tx_bit := 0\<rparr>)"

section \<open>Starting and stopping\<close>

definition gpio_claim :: "int \<Rightarrow> esp_rt \<Rightarrow> esp_rt" where
  "gpio_claim pin r = r\<lparr>e_pin := word_of_int pin\<rparr>"

definition set_buf :: "EMW_Buffer_Type \<Rightarrow> esp_rt \<Rightarrow> esp_rt" where
  "set_buf bt r = r\<lparr>eu := usb_set_buffer_type bt (eu r)\<rparr>"

text \<open>The result is the error message of a failed start; \<open>None\<close> is success.\<close>

definition sampler_start_impl :: "int \<Rightarrow> u8 \<Rightarrow> esp_rt \<Rightarrow> trace \<Rightarrow> (string option \<times> esp_rt \<times> trace) option" where
  "sampler_start_impl pin tick_us r t =
     (if pin < 0 then Some (Some ''sample start: pin'', r, t)
      else if sampling_active r then Some (Some ''sample start: active'', r, t)
      else do {
        let r = gpio_claim pin r;
        let r = reset_sampler_state (r\<lparr>sampling_tick_us := normalize_tick_us tick_us\<rparr>);
        let r = set_buf EMW_BUFFER_DOUBLE r;
        let r = r\<lparr>sample_timer := configure_timer (sampling_tick_us r) True\<rparr>;
        (err, t) \<leftarrow> rd t;
        if err \<noteq> 0 then Some (Some ''sample start: isr'', r, t)
        else do {
          let r = r\<lparr>sampling_isr_installed := True, sampling_active := True, sample_timer := (sample_timer r)\<lparr>running := True\<rparr>\<rparr>;
          if sampler_task_exists r then Some (None, r, t)
          else do {
            (created, t) \<leftarrow> rd t;
            if created \<noteq> 1 then
              let r = r\<lparr>sampling_active := False, sample_timer := (sample_timer r)\<lparr>running := False, intr_enabled := False\<rparr>,
                        sampling_isr_installed := False\<rparr>
              in Some (Some ''sample start: task'', set_buf EMW_BUFFER_PACKET r, t)
            else Some (None, r\<lparr>sampler_task_exists := True, sampler_task_notified := False\<rparr>, t) } } })"

definition sampler_stop_impl :: "esp_rt \<Rightarrow> esp_rt" where
  "sampler_stop_impl r =
     (if \<not> sampling_active r then r
      else
        let r = r\<lparr>sample_timer := (sample_timer r)\<lparr>running := False, intr_enabled := False\<rparr>, sampling_isr_installed := False,
                  sampling_active := False\<rparr>;
            r = reset_sampler_state (set_buf EMW_BUFFER_PACKET r)
        in if sampler_task_exists r then r\<lparr>sampler_task_notified := True\<rparr> else r)"

definition transmit_pwm_stop :: "esp_rt \<Rightarrow> esp_rt" where
  "transmit_pwm_stop r = r\<lparr>ledc_sig_out := False, transmit_pwm_enabled_state := False, transmit_pwm_configured := False, e_tx_out := False\<rparr>"

definition transmit_pwm_configure :: "u32 \<Rightarrow> u8 \<Rightarrow> esp_rt \<Rightarrow> trace \<Rightarrow> (string option \<times> esp_rt \<times> trace) option" where
  "transmit_pwm_configure freq_hz duty_percent r t = do {
     (err, t) \<leftarrow> rd t;
     if err \<noteq> 0 then Some (Some ''transmit pwm: timer'', r, t)
     else do {
       let r = r\<lparr>ledc_freq := freq_hz\<rparr>;
       let duty = 1023 * ucast duty_percent div 100;
       (err, t) \<leftarrow> rd t;
       if err \<noteq> 0 then Some (Some ''transmit pwm: channel'', r, t)
       else Some (None, r\<lparr>ledc_duty := duty, ledc_sig_out := False, transmit_pwm_enabled_state := False,
                          transmit_pwm_configured := True\<rparr>, t) } }"

definition transmit_unwind :: "esp_rt \<Rightarrow> esp_rt" where
  "transmit_unwind r = (if transmit_pwm_configured r then transmit_pwm_stop r else r)"

definition transmit_start_impl :: "int \<Rightarrow> bool \<Rightarrow> int \<Rightarrow> int \<Rightarrow> u8 \<Rightarrow> esp_rt \<Rightarrow> trace \<Rightarrow> (string option \<times> esp_rt \<times> trace) option" where
  "transmit_start_impl pin pwm freq_hz duty_percent tick_us r t =
     (if pin < 0 then Some (Some ''transmit start: pin'', r, t)
      else if transmission_active r then Some (Some ''transmit start: active'', r, t)
      else
        let freq = (if freq_hz > 0 then word_of_int freq_hz else 38000 :: u32);
            duty = (if duty_percent > 0 then word_of_int duty_percent else 50 :: u8)
        in if freq < 1 \<or> freq > 1000000 then Some (Some ''transmit start: freq'', r, t)
           else if duty < 1 \<or> duty > 100 then Some (Some ''transmit start: duty'', r, t)
           else do {
             let r = gpio_claim pin r;
             let r = r\<lparr>transmit_use_pwm := pwm, transmit_tick_us := normalize_tick_us tick_us, transmit_pwm_freq_hz := freq,
                       transmit_pwm_duty_percent := duty\<rparr>;
             let r = (reset_transmission_state r)\<lparr>transmit_pwm_configured := False\<rparr>;
             (e, r, t) \<leftarrow> (if pwm then transmit_pwm_configure freq duty r t else Some (None, r, t));
             if e \<noteq> None then Some (e, r, t)
             else do {
               let r = set_buf EMW_BUFFER_CIRCULAR (r\<lparr>eu := usb_init_rx_buffer (eu r)\<rparr>);
               let r = r\<lparr>transmit_timer := configure_timer (transmit_tick_us r) True\<rparr>;
               (err, t) \<leftarrow> rd t;
               if err \<noteq> 0 then Some (Some ''transmit start: isr'', transmit_unwind (set_buf EMW_BUFFER_PACKET r), t)
               else do {
                 let r = r\<lparr>transmission_isr_installed := True, transmission_active := True\<rparr>;
                 if monitor_task_exists r then Some (None, r, t)
                 else do {
                   (created, t) \<leftarrow> rd t;
                   if created \<noteq> 1 then
                     let r = r\<lparr>transmission_active := False, transmit_timer := (transmit_timer r)\<lparr>running := False, intr_enabled := False\<rparr>,
                               transmission_isr_installed := False\<rparr>;
                         r = set_buf EMW_BUFFER_PACKET r;
                         r = r\<lparr>eu := usb_free_rx_buffer (eu r)\<rparr>
                     in Some (Some ''transmit start: task'', transmit_unwind r, t)
                   else Some (None, r\<lparr>monitor_task_exists := True\<rparr>, t) } } } })"

definition transmit_stop_impl :: "esp_rt \<Rightarrow> esp_rt" where
  "transmit_stop_impl r =
     (if \<not> transmission_active r then r
      else
        let r = r\<lparr>transmit_timer := (transmit_timer r)\<lparr>running := False, intr_enabled := False\<rparr>, transmission_isr_installed := False,
                  transmission_active := False\<rparr>;
            r = transmit_unwind r;
            r = r\<lparr>out_level := False\<rparr>;
            r = set_buf EMW_BUFFER_PACKET r;
            r = r\<lparr>eu := usb_free_rx_buffer (usb_flush_rx_buffer (eu r))\<rparr>
        in reset_transmission_state r)"

definition sampler_stop_all :: "esp_rt \<Rightarrow> esp_rt" where
  "sampler_stop_all r = transmit_stop_impl (sampler_stop_impl r)"

section \<open>The tasks\<close>

definition drain_step :: "esp_rt \<Rightarrow> esp_rt" where
  "drain_step r = (if e_count r > 0 then r\<lparr>e_tail := (e_tail r + 1) AND 15, e_count := e_count r - 1\<rparr> else r)"

text \<open>The lane goes to Wi-Fi, whose status comes from the trace, or to USB.\<close>

definition send_lane :: "u8 list \<Rightarrow> esp_rt \<Rightarrow> trace \<Rightarrow> (bool \<times> esp_rt \<times> trace) option" where
  "send_lane lane r t =
     (if e_stream_source r = EMW_COMMAND_SOURCE_WIFI then do { (err, t) \<leftarrow> rd t; Some (err = 0, r, t) }
      else do { (err, u, t) \<leftarrow> usb_send_stream_lane lane True (eu r) t; Some (err = ESP_OK, r\<lparr>eu := u\<rparr>, t) })"

text \<open>One round of the drain task; it ends when it has been notified.\<close>

definition sampler_task :: "esp_rt \<Rightarrow> trace \<Rightarrow> (esp_rt \<times> trace) option" where
  "sampler_task r t =
     (if sampler_task_notified r then Some (r\<lparr>sampler_task_notified := False, sampler_task_exists := False\<rparr>, t)
      else do {
        (r, t) \<leftarrow> (if sampling_active r \<and> e_count r > 0 then do {
            (ok, r, t) \<leftarrow> send_lane (e_ring r ! unat (e_tail r)) r t;
            Some (if ok then drain_step r else r, t) }
          else Some (r, t));
        (u, t) \<leftarrow> usb_poll_tx (eu r) t;
        Some (r\<lparr>eu := u\<rparr>, t) })"

record monitor =
  last_bytes_available :: u16
  unchanged_time_ms :: u32
  idle_zero_time_ms :: u32
  fill_wait_time_ms :: u32
  timer_started :: bool

definition monitor_start :: monitor where
  "monitor_start = \<lparr>last_bytes_available = 0, unchanged_time_ms = 0, idle_zero_time_ms = 0, fill_wait_time_ms = 0, timer_started = False\<rparr>"

text \<open>What the monitor decides in a round: the new local state, and whether to start the timer or to stop.\<close>

definition monitor_decide :: "u16 \<Rightarrow> monitor \<Rightarrow> monitor \<times> bool \<times> bool" where
  "monitor_decide current m =
     (if \<not> timer_started m then
        (if current \<ge> 250 \<or> fill_wait_time_ms m \<ge> 2000
         then (m\<lparr>timer_started := True, unchanged_time_ms := 0, idle_zero_time_ms := 0, last_bytes_available := current\<rparr>, True, False)
         else (m\<lparr>fill_wait_time_ms := fill_wait_time_ms m + 10\<rparr>, False, False))
      else
        let m = (if current = 0 then m\<lparr>idle_zero_time_ms := idle_zero_time_ms m + 10\<rparr> else m\<lparr>idle_zero_time_ms := 0\<rparr>)
        in if current = 0 \<and> idle_zero_time_ms m \<ge> 100 then (m, False, True)
           else if current \<noteq> last_bytes_available m then (m\<lparr>unchanged_time_ms := 0, last_bytes_available := current\<rparr>, False, False)
           else
             let m = m\<lparr>unchanged_time_ms := unchanged_time_ms m + 10\<rparr>
             in (m, False, unchanged_time_ms m \<ge> 2000))"

text \<open>One round of the monitor task; \<open>None\<close> in the first component is its end.\<close>

definition transmission_monitor_task :: "monitor \<Rightarrow> esp_rt \<Rightarrow> trace \<Rightarrow> (monitor option \<times> esp_rt \<times> trace) option" where
  "transmission_monitor_task m r t =
     (if \<not> transmission_active r then Some (None, r\<lparr>monitor_task_exists := False\<rparr>, t)
      else
        let (m, start, stop) = monitor_decide (usb_get_rx_buffer_bytes_available (eu r)) m;
            r = (if start then r\<lparr>transmit_timer := (transmit_timer r)\<lparr>running := True\<rparr>\<rparr> else r)
        in if stop then Some (None, (transmit_stop_impl r)\<lparr>monitor_task_exists := False\<rparr>, t)
           else do { (u, t) \<leftarrow> usb_poll_tx (eu r) t; Some (Some m, r\<lparr>eu := u\<rparr>, t) })"

section \<open>The interrupts are those of the STM32 firmware\<close>

text \<open>The sampler state of the STM32 firmware with the same contents.\<close>

definition as_sampler :: "gpio_port \<Rightarrow> u16 \<Rightarrow> u32 \<Rightarrow> esp_rt \<Rightarrow> sampler" where
  "as_sampler port pin dropped r = \<lparr>samplerPort = port, samplerPin = pin, sampler_ring = e_ring r,
     sampler_overflow_lane = e_overflow_lane r, sampler_ring_head = e_head r, sampler_ring_tail = e_tail r,
     sampler_ring_count = e_count r, sampler_overflow_active = e_overflow r, sampler_dropped_lanes = dropped,
     sampler_bit_index = e_bit r, sampler_byte_index = e_byte r, sampler_current_byte = e_current r\<rparr>"

lemma sampling_isr_eq:
  assumes "level = (idr AND ucast pin \<noteq> 0)" "samp_wf (as_sampler port pin d r)"
  shows "as_sampler port pin d (sampling_isr level r) = ISR_Sampler_raw idr (as_sampler port pin d r)"
proof -
  have "e_overflow r \<or> \<not> 16 \<le> e_count r"
    using assms(2) by (auto simp: samp_wf_def samp_shape_def as_sampler_def not_le)
  then show ?thesis
    unfolding assms(1)
    by (cases "idr AND ucast pin \<noteq> 0"; cases "e_bit r + 1 < 8"; cases "e_byte r + 1 < 18"; cases "e_overflow r")
      (simp_all add: sampling_isr_def ISR_Sampler_raw_def samp_store_def samp_commit_def as_sampler_def Let_def)
qed

lemma drain_step_eq: "0 < e_count r \<Longrightarrow> as_sampler port pin d (drain_step r) = drain_commit (as_sampler port pin d r)"
  by (simp add: drain_step_def drain_commit_def as_sampler_def Let_def)

text \<open>The playback state, and whether the output is on.\<close>

definition esp_plays :: "esp_rt \<Rightarrow> playback \<Rightarrow> bool" where
  "esp_plays r p \<longleftrightarrow> tx_bit_index p = e_tx_bit r \<and> tx_current_byte p = e_tx_byte r"

definition out_on :: "esp_rt \<Rightarrow> bool" where
  "out_on r = (if transmit_use_pwm r \<and> transmit_pwm_configured r then ledc_sig_out r else out_level r)"

text \<open>The cached output state of a configured carrier is true; every start of a retransmission makes it so.\<close>

definition out_wf :: "esp_rt \<Rightarrow> bool" where
  "out_wf r \<longleftrightarrow> (transmit_pwm_configured r \<longrightarrow> transmit_pwm_enabled_state r = ledc_sig_out r)"

lemma transmit_start_out_wf:
  assumes "transmit_start_impl pin pwm freq_hz duty tick_us r t = Some (None, r', t')"
  shows "out_wf r' \<and> e_tx_bit r' = 0"
  using assms
  by (auto simp: transmit_start_impl_def transmit_pwm_configure_def Let_def out_wf_def set_buf_def gpio_claim_def
      reset_transmission_state_def bind_eq_Some_conv split: if_splits)

lemma drive_bit_out: "out_wf r \<Longrightarrow> out_on (drive_bit b r) = b \<and> out_wf (drive_bit b r)"
  by (auto simp: drive_bit_def out_on_def out_wf_def transmit_pwm_set_enabled_isr_def Let_def)

lemma out_index [simp]: "out_on (r\<lparr>e_tx_bit := n\<rparr>) = out_on r" "out_wf (r\<lparr>e_tx_bit := n\<rparr>) = out_wf r"
  by (simp_all add: out_on_def out_wf_def)

lemma drive_bit_frame [simp]: "e_tx_bit (drive_bit b r) = e_tx_bit r" "e_tx_byte (drive_bit b r) = e_tx_byte r" "eu (drive_bit b r) = eu r"
  by (simp_all add: drive_bit_def transmit_pwm_set_enabled_isr_def Let_def)

lemma transmission_isr_eq:
  assumes "esp_plays r p" "play_wf (p, as_ring (eu r), ccer)" "out_wf r"
    and "ISR_Sampler_writing (p, as_ring (eu r), ccer) = (p', q', c')"
  shows "esp_plays (transmission_isr r) p' \<and> as_ring (eu (transmission_isr r)) = q' \<and>
    carrier_on (p', q', c') = (out_on (transmission_isr r) \<or> stuck_on (p, as_ring (eu r), ccer)) \<and>
    stuck_on (p', q', c') = (stuck_on (p, as_ring (eu r), ccer) \<and> \<not> out_on (transmission_isr r)) \<and>
    play_wf (p', q', c') \<and> out_wf (transmission_isr r)"
proof -
  let ?q = "as_ring (eu r)"
  have w: "rx_wf ?q" "tx_bit_index p < 8" using assms(2) by (simp_all add: play_wf_def)
  have i: "e_tx_bit r = tx_bit_index p" "e_tx_byte r = tx_current_byte p" using assms(1) by (simp_all add: esp_plays_def)
  note av = esp_available_eq [OF w(1)]
  show ?thesis
  proof (cases "0 < MIDI_GetRxBufferBytesAvailable_FS ?q")
    case False
    obtain p1 c1 where g: "gate_output False p ccer = (p1, c1)" by (cases "gate_output False p ccer")
    note gs = gate_output_spec [OF g assms(2) w(1)]
    have stm: "p' = p1\<lparr>tx_bit_index := 0\<rparr>" "q' = ?q" "c' = c1"
      using assms(4) False g by (simp_all add: ISR_Sampler_writing_def)
    have "\<not> out_on (transmission_isr r)" "out_wf (transmission_isr r)" "esp_plays (transmission_isr r) p'"
      "as_ring (eu (transmission_isr r)) = q'"
      using False av i assms(3) gs(1,2) stm
      by (auto simp: transmission_isr_def Let_def esp_plays_def out_on_def out_wf_def transmit_pwm_set_enabled_isr_def)
    then show ?thesis
      using gs(5,6) [of ?q] play_wf_index [OF gs(4), of 0] unfolding stm by (simp add: out_index_byte [where q = ?q])
  next
    case True
    have l1: "unat (1 :: u16) \<le> length (rx_contents ?q)" using True available_pos [OF w(1)] by (cases "rx_contents ?q") auto
    obtain bs q1 where rd: "MIDI_ReadRxBuffer_FS 1 ?q = (Some bs, q1)" and q1: "rx_wf q1" using rx_read_some [OF w(1) l1]
      by (cases "MIDI_ReadRxBuffer_FS 1 ?q") auto
    define pf where "pf = (if tx_bit_index p = 0 then p\<lparr>tx_current_byte := bs ! 0\<rparr> else p)"
    define qf where "qf = (if tx_bit_index p = 0 then q1 else ?q)"
    define rf where "rf = (if tx_bit_index p = 0 then r\<lparr>eu := with_ring (eu r) q1, e_tx_byte := bs ! 0\<rparr> else r)"
    have f: "esp_plays rf pf" "as_ring (eu rf) = qf" "out_wf rf" "tx_bit_index pf = tx_bit_index p"
      "play_wf (pf, qf, ccer)" "rx_wf qf" "stuck_on (pf, qf, ccer) = stuck_on (p, ?q, ccer)"
      using i assms(2,3) w q1 play_wf_byte [OF assms(2) q1]
      by (simp_all add: pf_def qf_def rf_def esp_plays_def out_wf_def out_index_byte [where q = ?q])
    let ?b = "drop_bit (unat (tx_bit_index pf)) (tx_current_byte pf) AND 1 \<noteq> 0"
    obtain p2 c2 where g: "gate_output ?b pf ccer = (p2, c2)" by (cases "gate_output ?b pf ccer")
    note gs = gate_output_spec [OF g f(5,6)]
    let ?n = "if 8 \<le> tx_bit_index p + 1 then 0 else tx_bit_index p + 1"
    have n: "?n < 8" by (simp add: not_le)
    have stm: "p' = p2\<lparr>tx_bit_index := ?n\<rparr>" "q' = qf" "c' = c2"
      using assms(4) True rd g gs f
      by (auto simp: ISR_Sampler_writing_def Let_def pf_def qf_def split: if_splits)
    have b: "?b = (drop_bit (unat (e_tx_bit rf)) (e_tx_byte rf) AND 1 \<noteq> 0)" using f(1) by (simp add: esp_plays_def)
    have rfb: "e_tx_bit rf = tx_bit_index p" using f(1,4) by (simp add: esp_plays_def)
    have esp: "transmission_isr r = (drive_bit ?b rf)\<lparr>e_tx_bit := ?n\<rparr>"
      using True av rd i rfb esp_read_ring_eq [OF w(1), of 1] unfolding b
      by (simp add: transmission_isr_def Let_def rf_def)
    have "out_on (transmission_isr r) = ?b" "out_wf (transmission_isr r)"
      using drive_bit_out [OF f(3), of ?b] unfolding esp by simp_all
    moreover have "carrier_on (p', q', c') = (?b \<or> stuck_on (p, ?q, ccer))"
      "stuck_on (p', q', c') = (stuck_on (p, ?q, ccer) \<and> \<not> ?b)"
      using gs(5,6) [of qf] f(7) unfolding stm by (simp_all add: out_index_byte [where q = qf])
    moreover have "play_wf (p', q', c')" using play_wf_index [OF gs(4) n] unfolding stm .
    ultimately show ?thesis using gs f stm(1,2) unfolding esp by (simp add: esp_plays_def)
  qed
qed

section \<open>Properties\<close>

text \<open>C18: The two timer interrupts of the ESP32 firmware do what those of the STM32 firmware do: on
  well-formed states with the same contents a sample ends in the same window state, and a
  playback tick takes the same bit from the same ring. The ESP32 drives its output with exactly this
  bit; the STM32 does so too, except that it leaves a carrier on that its handler does not know of
  (which is how its TRANSMIT starts) until the first 1 bit. The corresponding states stay
  well formed, so the correspondence holds tick after tick.\<close>

theorem esp_interrupts_equivalent:
  assumes "samp_wf (as_sampler port pin d r)" "level = (idr AND ucast pin \<noteq> 0)"
    and "esp_plays r p" "play_wf (p, as_ring (eu r), ccer)" "out_wf r"
  shows "as_sampler port pin d (sampling_isr level r) = ISR_Sampler_raw idr (as_sampler port pin d r) \<and>
    (let (p', q', c') = ISR_Sampler_writing (p, as_ring (eu r), ccer); r' = transmission_isr r;
         stuck = stuck_on (p, as_ring (eu r), ccer)
     in esp_plays r' p' \<and> as_ring (eu r') = q' \<and> carrier_on (p', q', c') = (out_on r' \<or> stuck) \<and>
        stuck_on (p', q', c') = (stuck \<and> \<not> out_on r') \<and> play_wf (p', q', c') \<and> out_wf r')"
proof -
  obtain p' q' c' where w: "ISR_Sampler_writing (p, as_ring (eu r), ccer) = (p', q', c')" by (metis prod_cases3)
  show ?thesis using sampling_isr_eq [OF assms(2,1)] transmission_isr_eq [OF assms(3-5) w] w by (simp add: Let_def)
qed

definition esp_idle :: esp_rt where
  "esp_idle = sampler_module_init \<lparr>eu = esp_usb_reset, e_ring = [], e_overflow_lane = [], e_head = 0, e_tail = 0, e_count = 0,
     e_overflow = False, e_bit = 0, e_byte = 0, e_current = 0, e_stream_source = 0, e_tx_bit = 0, e_tx_byte = 0, e_tx_out = False,
     sampling_isr_installed = False, transmission_isr_installed = False, sampler_task_exists = False, sampler_task_notified = False,
     monitor_task_exists = False, e_pin = 0, sampling_active = False, transmission_active = False, sampling_tick_us = 0,
     transmit_tick_us = 0, transmit_use_pwm = False, transmit_pwm_freq_hz = 0, transmit_pwm_duty_percent = 0,
     transmit_pwm_configured = False, transmit_pwm_enabled_state = False, sample_timer = configure_timer 10 True,
     transmit_timer = configure_timer 10 True, ledc_duty = 0, ledc_freq = 0, ledc_sig_out = False, out_level = False\<rparr>"

lemma esp_idle_simps [simp]: "eu esp_idle = esp_usb_reset" "sampling_active esp_idle = False" "transmission_active esp_idle = False"
  "sampler_task_exists esp_idle = False" "e_tx_bit esp_idle = 0" "e_tx_byte esp_idle = 0" "e_count esp_idle = 0"
  by (simp_all add: esp_idle_def sampler_module_init_def reset_transmission_state_def reset_sampler_state_def)

lemma esp_idle_wf: "samp_wf (as_sampler GPIOA 1 0 esp_idle)" "out_wf esp_idle" "esp_plays esp_idle play_start"
  "play_wf (play_start, as_ring (eu esp_idle), 0)"
  by (simp_all add: esp_idle_def sampler_module_init_def reset_transmission_state_def reset_sampler_state_def as_sampler_def
      samp_wf_def samp_shape_def out_wf_def esp_plays_def play_start_def play_wf_def as_ring_def esp_usb_reset_def rx_wf_def)

theorem esp_interrupts_equivalent_witness:
  "e_current (sampling_isr True esp_idle) = 1 \<and> \<not> out_on (transmission_isr esp_idle) \<and>
   carrier_on (ISR_Sampler_writing (play_start, as_ring (eu esp_idle), 0x100))"
proof -
  have hot: "play_wf (play_start, as_ring (eu esp_idle), 0x100)" "stuck_on (play_start, as_ring (eu esp_idle), 0x100)"
    using esp_idle_wf(4) by (simp_all add: play_wf_def stuck_on_def carrier_on_def play_start_def)
  obtain p' q' c' where w: "ISR_Sampler_writing (play_start, as_ring (eu esp_idle), 0) = (p', q', c')" by (metis prod_cases3)
  obtain p2 q2 c2 where w2: "ISR_Sampler_writing (play_start, as_ring (eu esp_idle), 0x100) = (p2, q2, c2)" by (metis prod_cases3)
  from w have "\<not> carrier_on (p', q', c')"
    by (auto simp: ISR_Sampler_writing_def MIDI_GetRxBufferBytesAvailable_FS_def as_ring_def esp_usb_reset_def gate_output_def
        play_start_def carrier_on_def)
  moreover have "sampler_current_byte (ISR_Sampler_raw 1 (as_sampler GPIOA 1 0 esp_idle)) = 1"
    by (simp add: ISR_Sampler_raw_def Let_def as_sampler_def esp_idle_def sampler_module_init_def reset_transmission_state_def
        reset_sampler_state_def)
  moreover have "e_current (sampling_isr True esp_idle) = sampler_current_byte (as_sampler GPIOA 1 0 (sampling_isr True esp_idle))"
    by (simp add: as_sampler_def)
  ultimately show ?thesis
    using esp_interrupts_equivalent [OF esp_idle_wf(1) _ esp_idle_wf(3,4,2), of True 1] w
      esp_interrupts_equivalent [OF esp_idle_wf(1) _ esp_idle_wf(3) hot(1) esp_idle_wf(2), of True 1] w2 hot(2)
    by (simp add: Let_def)
qed

text \<open>If the interrupt handler of the sampler cannot be installed, the command that asked for it is
  refused, but the stream buffer stays in sampling mode: the refusal and every later response are
  parked for a sampling frame although sampling is off, and nothing is sent.\<close>

theorem esp_sample_failure_mutes:
  assumes "0 \<le> pin" "\<not> sampling_active r" "code \<noteq> 0" "sampler_start_impl pin tick r (code # t) = Some (err, r', t')"
  shows "err \<noteq> None \<and> \<not> sampling_active r' \<and>
    (\<exists>u. usb_send_cmd_response status payload (eu r') t' = Some (ESP_OK, u, t') \<and> usb_stream u = usb_stream (eu r) \<and>
       s_buffer_type u = EMW_BUFFER_DOUBLE)"
  using assms by (auto simp: sampler_start_impl_def Let_def gpio_claim_def reset_sampler_state_def set_buf_def
      usb_set_buffer_type_def usb_send_cmd_response_def)

theorem esp_sample_failure_mutes_witness:
  "\<exists>r' u. sampler_start_impl 4 10 esp_idle [0x103] = Some (Some ''sample start: isr'', r', []) \<and>
     usb_send_cmd_response 0x81 [] (eu r') [] = Some (ESP_OK, u, []) \<and> usb_stream u = []"
proof -
  obtain r' where s: "sampler_start_impl 4 10 esp_idle [0x103] = Some (Some ''sample start: isr'', r', [])"
    by (simp add: sampler_start_impl_def Let_def)
  show ?thesis using esp_sample_failure_mutes [OF _ _ _ s, of "0x81" "[]"] s by (auto simp: esp_usb_reset_def)
qed

text \<open>Stopping and restarting the sampler before the drain task has run leaves sampling without a
  task to drain it: the restart finds the old task still there and creates no new one, and the
  old task then takes the pending notification and ends, so no sampled lane is ever sent.\<close>

theorem esp_restart_loses_task:
  assumes "sampling_active r" "sampler_task_exists r" "0 \<le> pin"
    and "sampler_start_impl pin tick (sampler_stop_impl r) (0 # t) = Some (err, r', t')"
  shows "err = None \<and> sampling_active r' \<and> running (sample_timer r') \<and>
    (\<exists>r''. sampler_task r' t' = Some (r'', t') \<and> sampling_active r'' \<and> \<not> sampler_task_exists r'')"
  using assms by (auto simp: sampler_start_impl_def sampler_stop_impl_def Let_def gpio_claim_def reset_sampler_state_def
      set_buf_def sampler_task_def)

theorem esp_restart_loses_task_witness:
  "\<exists>r1 r2 r3. sampler_start_impl 4 10 esp_idle [0, 1] = Some (None, r1, []) \<and>
     sampler_start_impl 4 10 (sampler_stop_impl r1) [0] = Some (None, r2, []) \<and>
     sampler_task r2 [] = Some (r3, []) \<and> sampling_active r3 \<and> \<not> sampler_task_exists r3"
proof -
  obtain r1 where s: "sampler_start_impl 4 10 esp_idle [0, 1] = Some (None, r1, [])" "sampling_active r1" "sampler_task_exists r1"
    by (simp add: sampler_start_impl_def Let_def set_buf_def reset_sampler_state_def gpio_claim_def)
  have "\<exists>r2. sampler_start_impl 4 10 (sampler_stop_impl r1) [0] = Some (None, r2, [])"
    using s(2,3) by (simp add: sampler_start_impl_def sampler_stop_impl_def Let_def set_buf_def reset_sampler_state_def gpio_claim_def)
  then obtain r2 where r2: "sampler_start_impl 4 10 (sampler_stop_impl r1) [0] = Some (None, r2, [])" by blast
  show ?thesis using esp_restart_loses_task [OF s(2,3) _ r2] s(1) r2 by auto
qed

end
