(* ===== verification/Esp_Registry.thy ===== *)
theory Esp_Registry
  imports Cli_Parse Esp_Session
begin

text \<open>
  The ASCII command registry of the ESP32 firmware (\<open>src/esp/main/libraries/command_registry.c\<close>):
  registration, the line parser, conversion of arguments and the call through a cast function
  pointer. A handler is named by its C function; the outcome of a command line is the call that is
  made, with the arguments in order, or the text of the error. C strings are their characters
  without the terminator, \<open>strtok_r\<close> and \<open>strtol\<close> are as in the command parser of the STM32.
\<close>

section \<open>Registration\<close>

datatype cmd_arg_type = CMD_ARG_DONE | CMD_ARG_INT | CMD_ARG_STRING | CMD_ARG_HEX | CMD_ARG_BOOL

record cmd_arg_spec =
  spec_name :: "string option"
  spec_type :: cmd_arg_type
  spec_required :: bool

record command_entry =
  entry_verb :: string
  entry_types :: "cmd_arg_type list"
  entry_required :: "bool list"
  entry_names :: "string option list"
  entry_positional :: "int list"
  entry_handler :: string

type_synonym registry = "command_entry option list"

definition command_registry_init :: registry where
  "command_registry_init = replicate 64 None"

text \<open>The specifications up to \<open>CMD_ARG_DONE\<close>, with the positional index of each; \<open>None\<close> if there are too many.\<close>

fun scan_specs :: "cmd_arg_spec list \<Rightarrow> nat \<Rightarrow> int \<Rightarrow> (cmd_arg_spec \<times> int) list option" where
  "scan_specs [] argc positional_count = Some []"
| "scan_specs (s # specs) argc positional_count =
     (if spec_type s = CMD_ARG_DONE then Some []
      else if argc \<ge> 10 then None
      else if spec_name s = None then
        (if positional_count \<ge> 16 then None
         else map_option ((#) (s, positional_count)) (scan_specs specs (argc + 1) (positional_count + 1)))
      else map_option ((#) (s, - 1)) (scan_specs specs (argc + 1) positional_count))"

fun registered :: "string \<Rightarrow> registry \<Rightarrow> bool" where
  "registered v [] = False"
| "registered v (slot # slots) =
     ((case slot of Some e \<Rightarrow> take 16 (entry_verb e) = take 16 v | None \<Rightarrow> False) \<or> registered v slots)"

fun first_free :: "registry \<Rightarrow> nat option" where
  "first_free [] = None"
| "first_free (slot # slots) = (if slot = None then Some 0 else map_option Suc (first_free slots))"

definition register_command :: "string \<Rightarrow> string \<Rightarrow> cmd_arg_spec list \<Rightarrow> registry \<Rightarrow> bool \<times> registry" where
  "register_command v handler args reg =
     (case scan_specs args 0 0 of
        None \<Rightarrow> (False, reg)
      | Some as \<Rightarrow>
          if registered v reg then (False, reg)
          else (case first_free reg of
                  None \<Rightarrow> (False, reg)
                | Some slot \<Rightarrow>
                    (True, reg[slot := Some \<lparr>entry_verb = v, entry_types = map (spec_type \<circ> fst) as,
                       entry_required = map (spec_required \<circ> fst) as, entry_names = map (spec_name \<circ> fst) as,
                       entry_positional = map snd as, entry_handler = handler\<rparr>])))"

fun find_entry :: "string \<Rightarrow> registry \<Rightarrow> command_entry option" where
  "find_entry v [] = None"
| "find_entry v (slot # slots) =
     (case slot of Some e \<Rightarrow> if entry_verb e = v then Some e else find_entry v slots | None \<Rightarrow> find_entry v slots)"

definition command_registry_is_ascii :: "command_t \<Rightarrow> bool" where
  "command_registry_is_ascii cmd \<longleftrightarrow> cmd_length cmd \<noteq> 0 \<and>
     list_all (\<lambda>ch. ch = 0x0D \<or> ch = 0x0A \<or> ch = 0x09 \<or> ch = 0x20 \<or> \<not> (ch < 0x20 \<or> ch > 0x7E))
       (take (unat (cmd_length cmd)) (cmd_data cmd))"

section \<open>The line parser\<close>

record esp_cli =
  esp_verb :: string
  esp_args :: "(string \<times> string) list"
  esp_positional :: "string list"

definition strtok_r :: "(char \<Rightarrow> bool) \<Rightarrow> string \<Rightarrow> string option \<times> string" where
  "strtok_r delim cursor =
     (let p = dropWhile delim cursor in
      if p = [] then (None, p)
      else let rest = dropWhile (\<lambda>c. \<not> delim c) p
           in (Some (takeWhile (\<lambda>c. \<not> delim c) p), if rest \<noteq> [] then tl rest else rest))"

definition parse_option :: "string \<Rightarrow> string \<times> string" where
  "parse_option token =
     (if CHR ''='' \<in> set token
      then (take 15 (takeWhile (\<lambda>c. c \<noteq> CHR ''='') token), take 63 (tl (dropWhile (\<lambda>c. c \<noteq> CHR ''='') token)))
      else (take 15 token, []))"

lemma strtok_r_length: "strtok_r delim s = (Some tok, s') \<Longrightarrow> length s' < length s"
proof -
  assume a: "strtok_r delim s = (Some tok, s')"
  let ?p = "dropWhile delim s"
  have ne: "?p \<noteq> []" using a by (auto simp: strtok_r_def Let_def split: if_splits)
  then have h: "\<not> delim (hd ?p)" by (rule hd_dropWhile)
  have "length (dropWhile (\<lambda>c. \<not> delim c) ?p) < length ?p"
    using ne h by (cases ?p) (auto intro: le_less_trans [OF length_dropWhile_le])
  moreover have "length ?p \<le> length s" by (rule length_dropWhile_le)
  moreover have "length s' \<le> length (dropWhile (\<lambda>c. \<not> delim c) ?p)"
    using a ne by (auto simp: strtok_r_def Let_def split: if_splits)
  ultimately show ?thesis by linarith
qed

function esp_parse_loop :: "string \<Rightarrow> esp_cli \<Rightarrow> esp_cli" where
  "esp_parse_loop cursor out =
     (case strtok_r is_cli_space cursor of
        (None, _) \<Rightarrow> out
      | (Some token, cursor) \<Rightarrow>
          if dashes token then
            let out = out\<lparr>esp_args := esp_args out @ [parse_option (drop 2 token)]\<rparr>
            in if length (esp_args out) \<ge> 10 then out else esp_parse_loop cursor out
          else
            let out = out\<lparr>esp_positional := esp_positional out @ [take 63 token]\<rparr>
            in if length (esp_positional out) \<ge> 16 then out else esp_parse_loop cursor out)"
  by pat_completeness auto
termination
  by (relation "measure (\<lambda>(cursor, out). length cursor)") (auto dest: strtok_r_length [OF sym])

declare esp_parse_loop.simps [simp del]

definition c_string :: "u8 list \<Rightarrow> string" where
  "c_string bs = map (\<lambda>b. char_of (uint b)) (takeWhile (\<lambda>b. b \<noteq> 0) bs)"

definition parse_cli_command :: "command_t \<Rightarrow> esp_cli option" where
  "parse_cli_command cmd =
     (if cmd_length cmd = 0 then None
      else
        let copy_len = (if cmd_length cmd \<ge> 256 then 255 else unat (cmd_length cmd));
            buffer = c_string (take copy_len (cmd_data cmd))
        in case strtok_r is_cli_space buffer of
             (None, _) \<Rightarrow> None
           | (Some token, cursor) \<Rightarrow>
               Some (esp_parse_loop cursor \<lparr>esp_verb = take 15 token, esp_args = [], esp_positional = []\<rparr>))"

fun cli_get_arg :: "string \<Rightarrow> (string \<times> string) list \<Rightarrow> string option" where
  "cli_get_arg key [] = None"
| "cli_get_arg key ((k, v) # args) = (if take 16 k = take 16 key then Some v else cli_get_arg key args)"

section \<open>Argument values\<close>

definition esp_parse_int :: "string \<Rightarrow> int option" where
  "esp_parse_int str =
     (let (v, rest) = strtol0 str in if length rest = length str \<or> rest \<noteq> [] then None else Some v)"

definition tolower :: "char \<Rightarrow> char" where
  "tolower c = (let n = of_char c :: int in if 65 \<le> n \<and> n \<le> 90 then char_of (n + 32) else c)"

definition cli_parse_bool :: "string \<Rightarrow> bool option" where
  "cli_parse_bool str =
     (if str = ''0'' then Some False
      else if str = ''1'' then Some True
      else if length str \<ge> 8 then None
      else
        let lowered = List.map tolower str in
        if lowered = ''true'' then Some True else if lowered = ''false'' then Some False else None)"

definition hex_delim :: "char \<Rightarrow> bool" where
  "hex_delim c \<longleftrightarrow> c = CHR '','' \<or> c = CHR '':'' \<or> c = CHR '' ''"

function hex_tokens :: "nat \<Rightarrow> u8 list \<Rightarrow> string \<Rightarrow> u8 list option" where
  "hex_tokens max_len out cursor =
     (case strtok_r hex_delim cursor of
        (None, _) \<Rightarrow> Some out
      | (Some token, cursor) \<Rightarrow>
          if length out \<ge> max_len then None
          else (case esp_parse_int token of
                  None \<Rightarrow> None
                | Some v \<Rightarrow> hex_tokens max_len (out @ [word_of_int v]) cursor))"
  by pat_completeness auto
termination
  by (relation "measure (\<lambda>(max_len, out, cursor). length cursor)") (auto dest: strtok_r_length [OF sym])

declare hex_tokens.simps [simp del]

definition esp_parse_hex_bytes :: "string \<Rightarrow> nat \<Rightarrow> u8 list option" where
  "esp_parse_hex_bytes str max_len = (if max_len = 0 then None else hex_tokens max_len [] (take 63 str))"

text \<open>The union of argument values; \<open>None\<close> as hexadecimal data is the null pointer.\<close>

datatype arg_value = IntV int | BoolV bool | StrV string | HexV "u8 list option"

datatype outcome = SendErr string | Call string "arg_value list"

fun default_value :: "cmd_arg_type \<Rightarrow> arg_value" where
  "default_value CMD_ARG_INT = IntV 0"
| "default_value CMD_ARG_STRING = StrV []"
| "default_value CMD_ARG_BOOL = BoolV False"
| "default_value CMD_ARG_HEX = HexV None"
| "default_value CMD_ARG_DONE = IntV 0"

fun convert :: "cmd_arg_type \<Rightarrow> string \<Rightarrow> string + arg_value" where
  "convert CMD_ARG_INT raw = (case esp_parse_int raw of None \<Rightarrow> Inl ''invalid int'' | Some i \<Rightarrow> Inr (IntV i))"
| "convert CMD_ARG_STRING raw = Inr (StrV raw)"
| "convert CMD_ARG_BOOL raw =
     (if raw = [] then Inr (BoolV True)
      else case cli_parse_bool raw of None \<Rightarrow> Inl ''invalid bool'' | Some b \<Rightarrow> Inr (BoolV b))"
| "convert CMD_ARG_HEX raw = (case esp_parse_hex_bytes raw 64 of None \<Rightarrow> Inl ''invalid hex'' | Some bs \<Rightarrow> Inr (HexV (Some bs)))"
| "convert CMD_ARG_DONE raw = Inl ''unsupported type''"

definition raw_arg :: "esp_cli \<Rightarrow> int \<Rightarrow> string option \<Rightarrow> string option" where
  "raw_arg parsed pos key =
     (if pos \<ge> 0 then (if nat pos < length (esp_positional parsed) then Some (esp_positional parsed ! nat pos) else None)
      else case key of None \<Rightarrow> None | Some k \<Rightarrow> cli_get_arg k (esp_args parsed))"

text \<open>The argument loop; the lists are those of the entry.\<close>

fun convert_args :: "esp_cli \<Rightarrow> cmd_arg_type list \<Rightarrow> bool list \<Rightarrow> string option list \<Rightarrow> int list \<Rightarrow> string + arg_value list" where
  "convert_args parsed (ty # tys) (req # reqs) (key # keys) (pos # poss) =
     (let v = (case raw_arg parsed pos key of
                 None \<Rightarrow> if req then Inl ''missing arg'' else Inr (default_value ty)
               | Some raw \<Rightarrow> convert ty raw)
      in case v of
           Inl err \<Rightarrow> Inl err
         | Inr v \<Rightarrow> (case convert_args parsed tys reqs keys poss of Inl err \<Rightarrow> Inl err | Inr vs \<Rightarrow> Inr (v # vs)))"
| "convert_args parsed _ _ _ _ = Inr []"

section \<open>The call\<close>

definition types_match :: "command_entry \<Rightarrow> cmd_arg_type list \<Rightarrow> bool" where
  "types_match entry types \<longleftrightarrow> entry_types entry = types"

definition patterns2 :: "cmd_arg_type list list" where
  "patterns2 =
    [[CMD_ARG_INT, CMD_ARG_INT], [CMD_ARG_INT, CMD_ARG_STRING], [CMD_ARG_INT, CMD_ARG_BOOL], [CMD_ARG_INT, CMD_ARG_HEX],
     [CMD_ARG_STRING, CMD_ARG_INT], [CMD_ARG_STRING, CMD_ARG_STRING], [CMD_ARG_STRING, CMD_ARG_BOOL], [CMD_ARG_STRING, CMD_ARG_HEX],
     [CMD_ARG_BOOL, CMD_ARG_INT], [CMD_ARG_BOOL, CMD_ARG_STRING], [CMD_ARG_BOOL, CMD_ARG_BOOL], [CMD_ARG_BOOL, CMD_ARG_HEX],
     [CMD_ARG_HEX, CMD_ARG_INT], [CMD_ARG_HEX, CMD_ARG_STRING], [CMD_ARG_HEX, CMD_ARG_BOOL], [CMD_ARG_HEX, CMD_ARG_HEX]]"

definition patterns3 :: "cmd_arg_type list list" where
  "patterns3 =
    [[CMD_ARG_INT, CMD_ARG_INT, CMD_ARG_INT], [CMD_ARG_INT, CMD_ARG_INT, CMD_ARG_BOOL], [CMD_ARG_INT, CMD_ARG_INT, CMD_ARG_STRING],
     [CMD_ARG_STRING, CMD_ARG_INT, CMD_ARG_INT], [CMD_ARG_STRING, CMD_ARG_HEX, CMD_ARG_INT], [CMD_ARG_INT, CMD_ARG_INT, CMD_ARG_HEX]]"

definition patterns_long :: "cmd_arg_type list list" where
  "patterns_long =
    [[CMD_ARG_INT, CMD_ARG_INT, CMD_ARG_HEX, CMD_ARG_HEX], [CMD_ARG_INT, CMD_ARG_BOOL, CMD_ARG_INT, CMD_ARG_INT],
     [CMD_ARG_INT, CMD_ARG_INT, CMD_ARG_INT, CMD_ARG_INT], [CMD_ARG_STRING, CMD_ARG_STRING, CMD_ARG_STRING, CMD_ARG_STRING],
     [CMD_ARG_INT, CMD_ARG_INT, CMD_ARG_INT, CMD_ARG_INT, CMD_ARG_INT],
     CMD_ARG_STRING # replicate 7 CMD_ARG_INT, CMD_ARG_STRING # replicate 8 CMD_ARG_INT]"

definition invoke_handler :: "command_entry \<Rightarrow> arg_value list \<Rightarrow> outcome" where
  "invoke_handler entry values =
     (let argc = length (entry_types entry) in
      if argc = 0 then Call (entry_handler entry) []
      else if argc = 1 then
        (if hd (entry_types entry) \<noteq> CMD_ARG_DONE then Call (entry_handler entry) values else SendErr ''unsupported signature'')
      else if argc = 2 then
        (if list_ex (types_match entry) patterns2 then Call (entry_handler entry) values else SendErr ''unsupported signature'')
      else if argc = 3 then
        (if list_ex (types_match entry) patterns3 then Call (entry_handler entry) values else SendErr ''unsupported signature'')
      else if list_ex (types_match entry) patterns_long then Call (entry_handler entry) values
      else SendErr ''unsupported signature'')"

text \<open>The signatures that have a call pattern.\<close>

definition supported :: "cmd_arg_type list \<Rightarrow> bool" where
  "supported tys \<longleftrightarrow> tys = [] \<or> (length tys = 1 \<and> hd tys \<noteq> CMD_ARG_DONE) \<or> tys \<in> set (patterns2 @ patterns3 @ patterns_long)"

lemma supported_invoke: "invoke_handler e vs =
    (if supported (entry_types e) then Call (entry_handler e) (if entry_types e = [] then [] else vs)
     else SendErr ''unsupported signature'')"
proof -
  have p: "list_all (\<lambda>p. length p = 2) patterns2" "list_all (\<lambda>p. length p = 3) patterns3" "list_all (\<lambda>p. length p > 3) patterns_long"
    by code_simp+
  have m: "list_ex (types_match e) ps \<longleftrightarrow> entry_types e \<in> set ps" for ps
    by (auto simp: list_ex_iff types_match_def)
  have "length (entry_types e) = 1 \<Longrightarrow> entry_types e \<notin> set (patterns2 @ patterns3 @ patterns_long)"
    "length (entry_types e) = 2 \<Longrightarrow> entry_types e \<notin> set (patterns3 @ patterns_long)"
    "length (entry_types e) = 3 \<Longrightarrow> entry_types e \<notin> set (patterns2 @ patterns_long)"
    "length (entry_types e) > 3 \<Longrightarrow> entry_types e \<notin> set (patterns2 @ patterns3)"
    using p by (auto simp: list_all_iff)
  then show ?thesis unfolding invoke_handler_def supported_def Let_def m
    by (cases "entry_types e = []"; cases "length (entry_types e) = 1"; cases "length (entry_types e) = 2";
        cases "length (entry_types e) = 3") (auto simp: nat_neq_iff)
qed

definition select_entry :: "esp_cli \<Rightarrow> registry \<Rightarrow> command_entry option \<times> esp_cli" where
  "select_entry parsed reg =
     (let composite = esp_verb parsed @ '' '' @ hd (esp_positional parsed);
          sub = (if esp_positional parsed \<noteq> [] \<and> 0 < length composite \<and> length composite < 82
                 then find_entry composite reg else None)
      in case sub of
           Some e \<Rightarrow> (Some e, parsed\<lparr>esp_positional := tl (esp_positional parsed)\<rparr>)
         | None \<Rightarrow> (find_entry (esp_verb parsed) reg, parsed))"

definition command_registry_handle :: "command_t \<Rightarrow> registry \<Rightarrow> outcome" where
  "command_registry_handle cmd reg =
     (case parse_cli_command cmd of
        None \<Rightarrow> SendErr ''parse error''
      | Some parsed \<Rightarrow>
          (case select_entry parsed reg of
             (None, _) \<Rightarrow> SendErr ''unknown command''
           | (Some entry, parsed) \<Rightarrow>
               (case convert_args parsed (entry_types entry) (entry_required entry) (entry_names entry) (entry_positional entry) of
                  Inl err \<Rightarrow> SendErr err
                | Inr values \<Rightarrow> invoke_handler entry values)))"

section \<open>Spelling a command\<close>

lemma strtok_next_token: "strtok_r is_cli_space s = next_token s"
proof -
  have "take (length p - length (dropWhile P p)) p = takeWhile P p" for P and p :: string
    by (metis append_eq_conv_conj diff_add_inverse2 length_append takeWhile_dropWhile_id)
  then show ?thesis by (simp add: strtok_r_def next_token_def Let_def)
qed

fun hex_digits :: "nat \<Rightarrow> nat \<Rightarrow> string" where
  "hex_digits 0 n = []"
| "hex_digits (Suc k) n = hex_digits k (n div 16) @ [hex_char (n mod 16)]"

fun spell_bytes :: "u8 list \<Rightarrow> string" where
  "spell_bytes [] = []"
| "spell_bytes (b # bs) = ''0x'' @ hex_digits 2 (unat b) @ '','' @ spell_bytes bs"

text \<open>Integers in hexadecimal with eight digits, bytes with two each, truth values as 1 and 0.\<close>

fun spell :: "arg_value \<Rightarrow> string" where
  "spell (IntV i) = (if i < 0 then ''-'' else []) @ ''0x'' @ hex_digits 8 (nat (abs i))"
| "spell (BoolV b) = (if b then ''1'' else ''0'')"
| "spell (StrV s) = s"
| "spell (HexV None) = []"
| "spell (HexV (Some bs)) = spell_bytes bs"

lemma is_digit_hex_char: "n < 16 \<Longrightarrow> is_digit 16 (hex_char n)"
  by (simp add: is_digit_def hex_char_facts)

lemma hex_digits_digits: "c \<in> set (hex_digits k n) \<Longrightarrow> is_digit 16 c"
  by (induction k n rule: hex_digits.induct) (auto simp: is_digit_hex_char)

lemma hex_digits_length [simp]: "length (hex_digits k n) = k"
  by (induction k n rule: hex_digits.induct) simp_all

lemma digits_value_snoc: "digits_value b (ds @ [c]) = digits_value b ds * b + from_hex c"
  by (simp add: digits_value_def)

lemma hex_digits_value: "digits_value 16 (hex_digits k n) = int (n mod 16 ^ k)"
proof (induction k n rule: hex_digits.induct)
  case (2 k n)
  have "n mod 16 ^ Suc k = 16 * (n div 16 mod 16 ^ k) + n mod 16" by (simp add: mod_mult2_eq)
  then show ?case using 2 by (simp add: digits_value_snoc hex_char_facts)
qed (simp add: digits_value_def)

lemma strtol0_hex:
  assumes "n < 16 ^ k" "0 < k" "k \<le> 8"
  shows "strtol0 ((if neg then ''-'' else []) @ ''0x'' @ hex_digits k n) =
    (max (- 2147483648) (min 2147483647 (if neg then - int n else int n)), [])"
proof -
  let ?ds = "hex_digits k n"
  have h: "is_digit 16 (hd (?ds @ [CHR 0x00]))" using hex_digits_digits [of "hd ?ds" k n] assms(2) hex_digits_length [of k n] by (cases ?ds) auto
  have t: "takeWhile (is_digit 16) ?ds = ?ds" "dropWhile (is_digit 16) ?ds = []"
    using hex_digits_digits by (auto simp: takeWhile_eq_all_conv dropWhile_eq_Nil_conv)
  have "digits_value 16 ?ds = int n" using hex_digits_value [of k n] assms(1) by simp
  moreover have "?ds \<noteq> []" using assms(2) by (metis hex_digits_length less_numeral_extra(3) list.size(3))
  ultimately show ?thesis
    using h by (cases neg) (simp_all add: strtol0_def Let_def strtol_space_def t del: takeWhile_eq_all_conv)
qed

lemma esp_parse_int_hex:
  assumes "n < 16 ^ k" "0 < k" "k \<le> 8"
  shows "esp_parse_int ((if neg then ''-'' else []) @ ''0x'' @ hex_digits k n) =
    Some (max (- 2147483648) (min 2147483647 (if neg then - int n else int n)))"
  unfolding esp_parse_int_def Let_def strtol0_hex [OF assms] by simp

lemma hex_char_not_delim: "n < 16 \<Longrightarrow> \<not> hex_delim (hex_char n)"
  using hex_char_facts(2) by (auto simp: hex_delim_def hex_separator_def)

lemma hex_tokens_bytes: "length out + length bs \<le> m \<Longrightarrow> hex_tokens m out (spell_bytes bs) = Some (out @ bs)"
proof (induction bs arbitrary: out)
  case Nil
  show ?case by (subst hex_tokens.simps) (simp add: strtok_r_def)
next
  case (Cons b bs)
  let ?tok = "''0x'' @ hex_digits 2 (unat b)"
  have b: "unat b < 16 ^ 2" using unsigned_less [of b] by simp
  have "\<forall>c \<in> set ?tok. \<not> hex_delim c"
    using hex_char_not_delim by (auto simp: numeral_2_eq_2 hex_delim_def)
  then have tok: "strtok_r hex_delim (?tok @ '','' @ spell_bytes bs) = (Some ?tok, spell_bytes bs)"
    by (auto simp: strtok_r_def Let_def hex_delim_def takeWhile_append2 dropWhile_append2)
  have "esp_parse_int ?tok = Some (int (unat b))"
    using esp_parse_int_hex [OF b, of False] unsigned_less [of b, where 'a = int] unsigned_greater_eq [of b, where 'a = int]
    by (simp del: unsigned_greater_eq)
  then have "hex_tokens m out (spell_bytes (b # bs)) = hex_tokens m (out @ [word_of_int (int (unat b))]) (spell_bytes bs)"
    using Cons.prems tok by (subst hex_tokens.simps) (simp del: hex_digits.simps)
  then show ?case using Cons.IH [of "out @ [b]"] Cons.prems by (simp del: hex_digits.simps spell_bytes.simps)
qed

text \<open>A value in range: what \<open>int\<close> holds, a text without blanks, what fits in the value buffer.\<close>

definition in_range :: "arg_value \<Rightarrow> bool" where
  "in_range v \<longleftrightarrow> length (spell v) \<le> 63 \<and>
     (case v of IntV i \<Rightarrow> - 2147483648 \<le> i \<and> i \<le> 2147483647
      | StrV s \<Rightarrow> \<forall>c \<in> set s. \<not> is_cli_space c \<and> c \<noteq> CHR 0x00 | BoolV b \<Rightarrow> True | HexV bs \<Rightarrow> bs \<noteq> None)"

fun type_of :: "arg_value \<Rightarrow> cmd_arg_type" where
  "type_of (IntV i) = CMD_ARG_INT"
| "type_of (BoolV b) = CMD_ARG_BOOL"
| "type_of (StrV s) = CMD_ARG_STRING"
| "type_of (HexV bs) = CMD_ARG_HEX"

lemma spell_bytes_length [simp]: "length (spell_bytes bs) = 5 * length bs"
  by (induction bs) (simp_all del: hex_digits.simps)

lemma convert_spell:
  assumes "in_range v"
  shows "convert (type_of v) (spell v) = Inr v"
proof (cases v)
  case (IntV i)
  then have i: "- 2147483648 \<le> i" "i \<le> 2147483647" using assms by (simp_all add: in_range_def)
  then have n: "nat (abs i) < 16 ^ 8" by auto
  show ?thesis using esp_parse_int_hex [OF n, of "i < 0"] i IntV by (auto simp del: hex_digits.simps)
next
  case (HexV bs)
  then obtain b where "bs = Some b" "length (spell_bytes b) \<le> 63" using assms by (auto simp: in_range_def)
  then show ?thesis using HexV hex_tokens_bytes [of "[]" b 64] by (simp add: esp_parse_hex_bytes_def)
next
  case (BoolV b)
  then show ?thesis by (simp add: cli_parse_bool_def)
next
  case (StrV s)
  then show ?thesis by simp
qed

lemma hex_char_plain: "n < 16 \<Longrightarrow> \<not> is_cli_space (hex_char n) \<and> hex_char n \<noteq> CHR 0x00"
proof -
  have "list_all (\<lambda>n. \<not> is_cli_space (hex_char n) \<and> hex_char n \<noteq> CHR 0x00) [0..<16]" by code_simp
  then show "n < 16 \<Longrightarrow> ?thesis" by (simp add: list_all_iff)
qed

lemma hex_digits_plain: "c \<in> set (hex_digits k n) \<Longrightarrow> \<not> is_cli_space c \<and> c \<noteq> CHR 0x00"
  by (induction k n rule: hex_digits.induct) (auto simp: hex_char_plain)

lemma spell_plain: "in_range v \<Longrightarrow> c \<in> set (spell v) \<Longrightarrow> \<not> is_cli_space c \<and> c \<noteq> CHR 0x00"
proof -
  have b: "c \<in> set (spell_bytes bs) \<Longrightarrow> \<not> is_cli_space c \<and> c \<noteq> CHR 0x00" for bs
    by (induction bs) (auto simp: is_cli_space_def dest: hex_digits_plain simp del: hex_digits.simps)
  assume "in_range v" "c \<in> set (spell v)"
  then show ?thesis
    using b by (cases v) (auto simp: in_range_def is_cli_space_def dest: hex_digits_plain split: if_splits simp del: hex_digits.simps)
qed

text \<open>A verb of two words with named arguments.\<close>

definition option_word :: "string \<Rightarrow> arg_value \<Rightarrow> string" where
  "option_word key v = ''--'' @ key @ ''='' @ spell v"

definition spell_line :: "string \<Rightarrow> string \<Rightarrow> (string \<times> arg_value) list \<Rightarrow> string" where
  "spell_line v s opts = unwords (v # s # map (\<lambda>(k, x). option_word k x) opts)"

definition plain_word :: "nat \<Rightarrow> string \<Rightarrow> bool" where
  "plain_word n w \<longleftrightarrow> w \<noteq> [] \<and> length w \<le> n \<and> (\<forall>c \<in> set w. \<not> is_cli_space c \<and> c \<noteq> CHR 0x00 \<and> c \<noteq> CHR ''='')"

lemma plain_word_cli: "plain_word n w \<Longrightarrow> cli_word w"
  by (auto simp: plain_word_def cli_word_def)

lemma option_word_facts:
  assumes "plain_word 15 k" "in_range x"
  shows "cli_word (option_word k x)" "dashes (option_word k x)" "parse_option (drop 2 (option_word k x)) = (k, spell x)"
    "CHR 0x00 \<notin> set (option_word k x)"
proof -
  have p: "takeWhile (\<lambda>c. c \<noteq> CHR ''='') (k @ CHR ''='' # y) = k"
    "dropWhile (\<lambda>c. c \<noteq> CHR ''='') (k @ CHR ''='' # y) = CHR ''='' # y" for y
    using assms(1) by (auto simp: plain_word_def takeWhile_append2 dropWhile_append2)
  show "cli_word (option_word k x)" "CHR 0x00 \<notin> set (option_word k x)"
    using assms spell_plain by (auto simp: option_word_def cli_word_def plain_word_def is_cli_space_def)
  show "dashes (option_word k x)" by (simp add: option_word_def dashes_def)
  show "parse_option (drop 2 (option_word k x)) = (k, spell x)"
    using assms p by (simp add: option_word_def parse_option_def plain_word_def in_range_def)
qed

lemma parse_options:
  "\<forall>(k, x) \<in> set opts. plain_word 15 k \<and> in_range x \<Longrightarrow> length (esp_args out) + length opts \<le> 10 \<Longrightarrow>
   esp_parse_loop (unwords (map (\<lambda>(k, x). option_word k x) opts)) out =
     out\<lparr>esp_args := esp_args out @ map (\<lambda>(k, x). (k, spell x)) opts\<rparr>"
proof (induction opts arbitrary: out)
  case Nil
  show ?case by (subst esp_parse_loop.simps) (simp add: strtok_next_token)
next
  case (Cons o' opts)
  obtain k x where o': "o' = (k, x)" by (cases o')
  let ?out = "out\<lparr>esp_args := esp_args out @ [(k, spell x)]\<rparr>"
  note f = option_word_facts [of k x]
  have step: "esp_parse_loop (unwords (map (\<lambda>(k, x). option_word k x) (o' # opts))) out =
      (if length (esp_args ?out) \<ge> 10 then ?out else esp_parse_loop (unwords (map (\<lambda>(k, x). option_word k x) opts)) ?out)"
    using Cons.prems(1) f o'
    by (subst esp_parse_loop.simps) (simp add: strtok_next_token next_token_word Let_def)
  show ?case
  proof (cases "length (esp_args ?out) \<ge> 10")
    case True
    then have "9 \<le> length (esp_args out)" by simp
    moreover have "length (esp_args out) + length opts \<le> 9" using Cons.prems(2) by simp
    ultimately have "length opts = 0" by linarith
    then have "opts = []" by (rule length_0_conv [THEN iffD1])
    then show ?thesis using step True o' by simp
  next
    case False
    then show ?thesis using step Cons.IH [of ?out] Cons.prems o' by simp
  qed
qed

lemma char_byte: "char_of (uint (of_char c :: u8)) = c"
proof -
  have "uint (of_nat n :: u8) = int n" if "n < 256" for n
    using that by (simp add: unsigned_of_nat take_bit_nat_eq_self)
  then have "uint (of_nat (of_char c) :: u8) = int (of_char c)" using nat_of_char_less_256 by blast
  then have "uint (of_char c :: u8) = of_char c" by (simp only: of_nat_of_char)
  then show ?thesis by simp
qed

lemma zero_unwords: "\<forall>w \<in> set ws. CHR 0x00 \<notin> set w \<Longrightarrow> CHR 0x00 \<notin> set (unwords ws)"
  by (induction ws) auto

lemma c_string_bytes: "CHR 0x00 \<notin> set s \<Longrightarrow> c_string (List.map of_char s) = s"
proof (induction s)
  case (Cons c s)
  have "(of_char c :: u8) \<noteq> 0" using char_byte [of c] Cons.prems by (auto simp: char_of_def)
  then show ?case using Cons by (simp add: c_string_def char_byte)
qed (simp add: c_string_def)

text \<open>A command holding a line, with anything behind it in the buffer.\<close>

definition holds_line :: "command_t \<Rightarrow> string \<Rightarrow> bool" where
  "holds_line cmd line \<longleftrightarrow> length line \<le> 255 \<and> cmd_length cmd = of_nat (length line) \<and>
     take (length line) (cmd_data cmd) = List.map of_char line"

lemma parse_cli_line:
  assumes "holds_line cmd (spell_line v s opts)" "plain_word 15 v" "plain_word 63 s" "\<not> dashes s"
    and "\<forall>(k, x) \<in> set opts. plain_word 15 k \<and> in_range x" "length opts \<le> 10"
  shows "parse_cli_command cmd =
    Some \<lparr>esp_verb = v, esp_args = map (\<lambda>(k, x). (k, spell x)) opts, esp_positional = [s]\<rparr>"
proof -
  let ?rest = "map (\<lambda>(k, x). option_word k x) opts"
  let ?out = "\<lparr>esp_verb = v, esp_args = [], esp_positional = []\<rparr>"
  define line where "line = spell_line v s opts"
  have line: "line = v @ CHR '' '' # unwords (s # ?rest)" by (simp add: line_def spell_line_def)
  have l: "length line \<le> 255" "cmd_length cmd = of_nat (length line)" "take (length line) (cmd_data cmd) = List.map of_char line"
    using assms(1) by (simp_all add: holds_line_def line_def)
  have ne: "0 < length line" by (simp add: line)
  have u: "unat (cmd_length cmd) = length line" using l by (simp add: unat_of_nat)
  then have n: "cmd_length cmd \<noteq> 0" "\<not> cmd_length cmd \<ge> 256" using l(1) ne by (auto simp: word_le_nat_alt)
  have z: "CHR 0x00 \<notin> set line"
  proof -
    have "CHR 0x00 \<notin> set v" "CHR 0x00 \<notin> set s" using assms(2,3) unfolding plain_word_def by blast+
    moreover have "CHR 0x00 \<notin> set w" if "w \<in> set ?rest" for w using that assms(5) option_word_facts(4) by fastforce
    ultimately show ?thesis unfolding line_def spell_line_def by (intro zero_unwords) simp
  qed
  have buf: "c_string (take (if cmd_length cmd \<ge> 256 then 255 else unat (cmd_length cmd)) (cmd_data cmd)) = line"
    using n u l(3) c_string_bytes [OF z] by simp
  have t1: "strtok_r is_cli_space line = (Some v, unwords (s # ?rest))"
    unfolding strtok_next_token line by (rule next_token_word) (rule plain_word_cli [OF assms(2)])
  have t2: "strtok_r is_cli_space (unwords (s # ?rest)) = (Some s, unwords ?rest)"
    unfolding strtok_next_token by (rule next_token_unwords) (rule plain_word_cli [OF assms(3)])
  have s: "take 63 s = s" "take 15 v = v" using assms(2,3) by (simp_all add: plain_word_def)
  have "esp_parse_loop (unwords (s # ?rest)) ?out = esp_parse_loop (unwords ?rest) (?out\<lparr>esp_positional := [s]\<rparr>)"
    using assms(4) by (subst esp_parse_loop.simps) (simp only: t2, simp add: s)
  also have "\<dots> = \<lparr>esp_verb = v, esp_args = map (\<lambda>(k, x). (k, spell x)) opts, esp_positional = [s]\<rparr>"
    using parse_options [OF assms(5), of "?out\<lparr>esp_positional := [s]\<rparr>"] assms(6) by simp
  finally show ?thesis
    unfolding parse_cli_command_def Let_def buf t1 using n(1) s by simp
qed

lemma cli_get_arg_map_of:
  "\<forall>(k, x) \<in> set args. length k \<le> 15 \<Longrightarrow> length key \<le> 15 \<Longrightarrow> cli_get_arg key args = map_of args key"
  by (induction key args rule: cli_get_arg.induct) auto

lemma convert_named:
  assumes "\<forall>k \<in> set keys. length k \<le> 15" "esp_args parsed = map (\<lambda>(k, x). (k, spell x)) (zip keys' vs')"
    and "\<forall>k \<in> set keys'. length k \<le> 15" "distinct keys'" "length keys' = length vs'"
    and "length keys = length vs" "set (zip keys vs) \<subseteq> set (zip keys' vs')" "\<forall>v \<in> set vs. in_range v" "length reqs = length vs"
  shows "convert_args parsed (map type_of vs) reqs (map Some keys) (map (\<lambda>_. - 1) vs) = Inr vs"
  using assms(1,6,7,8,9)
proof (induction vs arbitrary: keys reqs)
  case (Cons v vs)
  obtain k ks where k: "keys = k # ks" using Cons.prems(2) by (cases keys) auto
  obtain r rs where r: "reqs = r # rs" using Cons.prems(5) by (cases reqs) auto
  let ?args = "map (\<lambda>(k, x). (k, spell x)) (zip keys' vs')"
  have "(k, spell v) \<in> set ?args" using Cons.prems(3) k by force
  moreover have "distinct (map fst ?args)"
    using assms(4,5) by (simp add: comp_def case_prod_beta)
  ultimately have "map_of ?args k = Some (spell v)" by simp
  moreover have "\<forall>(k, x) \<in> set ?args. length k \<le> 15" using assms(3) by (auto dest: set_zip_leftD)
  ultimately have "cli_get_arg k (esp_args parsed) = Some (spell v)"
    using cli_get_arg_map_of [of ?args k] Cons.prems(1) k assms(2) by simp
  then show ?case using Cons.IH [of ks rs] Cons.prems k r convert_spell [of v] by (simp add: raw_arg_def)
qed simp

lemma select_sub:
  assumes "find_entry (v @ '' '' @ s) reg = Some e" "plain_word 15 v" "plain_word 63 s"
  shows "select_entry \<lparr>esp_verb = v, esp_args = args, esp_positional = [s]\<rparr> reg =
    (Some e, \<lparr>esp_verb = v, esp_args = args, esp_positional = []\<rparr>)"
  using assms by (simp add: select_entry_def Let_def plain_word_def)

text \<open>
  The call a spelled line makes: the options may stand in any order and there may be more of them
  than the handler has parameters.
\<close>

lemma line_calls:
  assumes e: "find_entry (v @ '' '' @ s) reg = Some e" "entry_names e = map Some keys" "entry_types e = map type_of vs"
      "entry_positional e = map (\<lambda>_. - 1) vs" "length (entry_required e) = length vs" "length keys = length vs" "supported (entry_types e)"
    and line: "holds_line cmd (spell_line v s opts)" "plain_word 15 v" "plain_word 63 s" "\<not> dashes s"
      "\<forall>(k, x) \<in> set opts. plain_word 15 k \<and> in_range x" "length opts \<le> 10" "distinct (map fst opts)"
    and given: "set (zip keys vs) \<subseteq> set opts"
  shows "command_registry_handle cmd reg = Call (entry_handler e) vs"
proof -
  let ?parsed = "\<lparr>esp_verb = v, esp_args = map (\<lambda>(k, x). (k, spell x)) opts, esp_positional = []\<rparr>"
  have z: "zip (map fst opts) (map snd opts) = opts" by (simp add: zip_map_fst_snd)
  have k: "(k, x) \<in> set opts \<Longrightarrow> length k \<le> 15 \<and> in_range x" for k x using line(5) by (auto simp: plain_word_def)
  have kv: "\<forall>k \<in> set keys. length k \<le> 15"
    using given e(6) k by (metis in_set_impl_in_set_zip1 subsetD)
  have vk: "\<forall>x \<in> set vs. in_range x"
    using given e(6) k by (metis in_set_impl_in_set_zip2 subsetD)
  have "convert_args ?parsed (map type_of vs) (entry_required e) (map Some keys) (map (\<lambda>_. - 1) vs) = Inr vs"
    by (rule convert_named [where keys' = "map fst opts" and vs' = "map snd opts"]) (use z k kv vk e given line(7) in auto)
  then show ?thesis
    using select_sub [OF e(1) line(2,3)] parse_cli_line [OF line(1-6)] e
    by (auto simp: command_registry_handle_def supported_invoke)
qed

end
