(* ===== verification/Esp_Catalogue.thy ===== *)
theory Esp_Catalogue
  imports Esp_Registry
begin

text \<open>
  What the modules of the ESP32 firmware register with the command registry, call by call in the
  order of \<open>emwaver_init\<close> and \<open>app_main\<close>, and the parameter types of the handlers as their C
  prototypes declare them; what a command line of the running firmware therefore calls.
\<close>

section \<open>Registrations\<close>

definition arg :: "string \<Rightarrow> cmd_arg_type \<Rightarrow> bool \<Rightarrow> cmd_arg_spec" where
  "arg n ty req = \<lparr>spec_name = Some n, spec_type = ty, spec_required = req\<rparr>"

definition pos_arg :: "cmd_arg_type \<Rightarrow> bool \<Rightarrow> cmd_arg_spec" where
  "pos_arg ty req = \<lparr>spec_name = None, spec_type = ty, spec_required = req\<rparr>"

definition end_args :: cmd_arg_spec where
  "end_args = \<lparr>spec_name = None, spec_type = CMD_ARG_DONE, spec_required = False\<rparr>"

type_synonym catalogue = "(string \<times> string \<times> cmd_arg_spec list) list"

fun register_all :: "catalogue \<Rightarrow> registry \<Rightarrow> bool \<times> registry" where
  "register_all [] reg = (True, reg)"
| "register_all ((v, h, args) # cs) reg =
     (let (ok, reg) = register_command v h args reg; (oks, reg) = register_all cs reg in (ok \<and> oks, reg))"

definition spi_commands :: catalogue where
  "spi_commands =
    [(''spi open'', ''spi_open_command'', [arg ''name'' CMD_ARG_STRING True, arg ''cs'' CMD_ARG_INT True, end_args]),
     (''spi close'', ''spi_close_command'', [arg ''name'' CMD_ARG_STRING True, end_args]),
     (''spi xfer'', ''spi_transfer_command'', [arg ''name'' CMD_ARG_STRING False, arg ''tx'' CMD_ARG_HEX False,
        arg ''rx'' CMD_ARG_INT False, arg ''cs'' CMD_ARG_INT False, arg ''mode'' CMD_ARG_INT False,
        arg ''clock'' CMD_ARG_INT False, arg ''lsb'' CMD_ARG_BOOL False, end_args])]"

definition spi_register_commands :: "registry \<Rightarrow> bool \<times> registry" where
  "spi_register_commands = register_all spi_commands"

definition spi_prototypes :: "(string \<times> cmd_arg_type list) list" where
  "spi_prototypes =
    [(''spi_open_command'', [CMD_ARG_STRING, CMD_ARG_INT]),
     (''spi_close_command'', [CMD_ARG_STRING]),
     (''spi_transfer_command'', [CMD_ARG_STRING, CMD_ARG_HEX, CMD_ARG_INT, CMD_ARG_INT, CMD_ARG_INT, CMD_ARG_INT,
        CMD_ARG_BOOL])]"

definition rfm69_commands :: catalogue where
  "rfm69_commands =
    [(''rfm69 init'', ''rfm69_cmd_init'', [arg ''miso'' CMD_ARG_INT False, arg ''mosi'' CMD_ARG_INT False,
        arg ''sck'' CMD_ARG_INT False, arg ''cs'' CMD_ARG_INT False, end_args]),
     (''rfm69 apply_defaults'', ''rfm69_cmd_apply_defaults'', [end_args]),
     (''rfm69 write'', ''rfm69_cmd_write_reg'', [arg ''reg'' CMD_ARG_INT True, arg ''val'' CMD_ARG_INT True, end_args]),
     (''rfm69 read'', ''rfm69_cmd_read_reg'', [arg ''reg'' CMD_ARG_INT True, end_args]),
     (''rfm69 set_mode'', ''rfm69_cmd_set_mode'', [arg ''mode'' CMD_ARG_STRING True, end_args]),
     (''rfm69 set_freq'', ''rfm69_cmd_set_freq'', [arg ''mhz'' CMD_ARG_STRING True, end_args]),
     (''rfm69 get_freq'', ''rfm69_cmd_get_freq'', [end_args]),
     (''rfm69 set_bitrate'', ''rfm69_cmd_set_bitrate'', [arg ''bps'' CMD_ARG_INT True, end_args]),
     (''rfm69 get_bitrate'', ''rfm69_cmd_get_bitrate'', [end_args]),
     (''rfm69 set_dev'', ''rfm69_cmd_set_dev'', [arg ''hz'' CMD_ARG_INT True, end_args]),
     (''rfm69 get_dev'', ''rfm69_cmd_get_dev'', [end_args]),
     (''rfm69 set_power'', ''rfm69_cmd_set_power'', [arg ''dbm'' CMD_ARG_INT True, arg ''pa_mode'' CMD_ARG_INT False,
        arg ''ocp'' CMD_ARG_BOOL False, end_args]),
     (''rfm69 get_power'', ''rfm69_cmd_get_power'', [end_args]),
     (''rfm69 set_bw'', ''rfm69_cmd_set_bw'', [arg ''val'' CMD_ARG_INT True, end_args]),
     (''rfm69 get_bw'', ''rfm69_cmd_get_bw'', [end_args]),
     (''rfm69 set_bw_khz'', ''rfm69_cmd_set_bw_khz'', [arg ''khz'' CMD_ARG_STRING True, end_args]),
     (''rfm69 get_bw_khz'', ''rfm69_cmd_get_bw_khz'', [end_args]),
     (''rfm69 set_mod'', ''rfm69_cmd_set_mod'', [arg ''mod'' CMD_ARG_STRING True, end_args]),
     (''rfm69 get_mod'', ''rfm69_cmd_get_mod'', [end_args]),
     (''rfm69 thresh_fixed'', ''rfm69_cmd_thresh_fixed'', [arg ''fixed'' CMD_ARG_BOOL True, end_args]),
     (''rfm69 set_lna_gain'', ''rfm69_cmd_set_lna_gain'', [arg ''gain'' CMD_ARG_INT True, end_args]),
     (''rfm69 set_rssi_thresh'', ''rfm69_cmd_set_rssi_threshold'', [arg ''thresh'' CMD_ARG_INT True, end_args]),
     (''rfm69 set_fixed_thresh'', ''rfm69_cmd_set_fixed_threshold'', [arg ''thresh'' CMD_ARG_INT True, end_args]),
     (''rfm69 set_sens_boost'', ''rfm69_cmd_set_sensitivity_boost'', [arg ''enabled'' CMD_ARG_BOOL True, end_args]),
     (''rfm69 read_rssi'', ''rfm69_cmd_read_rssi'', [arg ''force'' CMD_ARG_BOOL False, end_args])]"

definition rfm69_register_commands :: "registry \<Rightarrow> bool \<times> registry" where
  "rfm69_register_commands = register_all rfm69_commands"

definition rfm69_prototypes :: "(string \<times> cmd_arg_type list) list" where
  "rfm69_prototypes =
    [(''rfm69_cmd_init'', [CMD_ARG_INT, CMD_ARG_INT, CMD_ARG_INT, CMD_ARG_INT]),
     (''rfm69_cmd_apply_defaults'', []),
     (''rfm69_cmd_write_reg'', [CMD_ARG_INT, CMD_ARG_INT]),
     (''rfm69_cmd_read_reg'', [CMD_ARG_INT]),
     (''rfm69_cmd_set_mode'', [CMD_ARG_STRING]),
     (''rfm69_cmd_set_freq'', [CMD_ARG_STRING]),
     (''rfm69_cmd_get_freq'', []),
     (''rfm69_cmd_set_bitrate'', [CMD_ARG_INT]),
     (''rfm69_cmd_get_bitrate'', []),
     (''rfm69_cmd_set_dev'', [CMD_ARG_INT]),
     (''rfm69_cmd_get_dev'', []),
     (''rfm69_cmd_set_power'', [CMD_ARG_INT, CMD_ARG_INT, CMD_ARG_BOOL]),
     (''rfm69_cmd_get_power'', []),
     (''rfm69_cmd_set_bw'', [CMD_ARG_INT]),
     (''rfm69_cmd_get_bw'', []),
     (''rfm69_cmd_set_bw_khz'', [CMD_ARG_STRING]),
     (''rfm69_cmd_get_bw_khz'', []),
     (''rfm69_cmd_set_mod'', [CMD_ARG_STRING]),
     (''rfm69_cmd_get_mod'', []),
     (''rfm69_cmd_thresh_fixed'', [CMD_ARG_BOOL]),
     (''rfm69_cmd_set_lna_gain'', [CMD_ARG_INT]),
     (''rfm69_cmd_set_rssi_threshold'', [CMD_ARG_INT]),
     (''rfm69_cmd_set_fixed_threshold'', [CMD_ARG_INT]),
     (''rfm69_cmd_set_sensitivity_boost'', [CMD_ARG_BOOL]),
     (''rfm69_cmd_read_rssi'', [CMD_ARG_BOOL])]"

definition cc1101_commands :: catalogue where
  "cc1101_commands =
    [(''cc1101 init'', ''cc1101_cmd_init'', [arg ''miso'' CMD_ARG_INT False, arg ''mosi'' CMD_ARG_INT False,
        arg ''sck'' CMD_ARG_INT False, arg ''cs'' CMD_ARG_INT False, end_args]),
     (''cc1101 write'', ''cc1101_cmd_write_reg'', [arg ''reg'' CMD_ARG_INT True, arg ''val'' CMD_ARG_INT True, end_args]),
     (''cc1101 read'', ''cc1101_cmd_read_reg'', [arg ''reg'' CMD_ARG_INT True, end_args]),
     (''cc1101 strobe'', ''cc1101_cmd_strobe'', [arg ''cmd'' CMD_ARG_INT True, end_args]),
     (''cc1101 read_burst'', ''cc1101_cmd_read_burst'', [arg ''reg'' CMD_ARG_INT True, arg ''len'' CMD_ARG_INT True, end_args]),
     (''cc1101 write_burst'', ''cc1101_cmd_write_burst'', [arg ''reg'' CMD_ARG_INT True, arg ''data'' CMD_ARG_HEX True,
        end_args]),
     (''cc1101 apply_defaults'', ''cc1101_cmd_apply_defaults'', [end_args]),
     (''cc1101 set_freq'', ''cc1101_cmd_set_freq'', [arg ''mhz'' CMD_ARG_STRING True, end_args]),
     (''cc1101 get_freq'', ''cc1101_cmd_get_freq'', [end_args]),
     (''cc1101 set_datarate'', ''cc1101_cmd_set_datarate'', [arg ''bps'' CMD_ARG_INT True, end_args]),
     (''cc1101 get_datarate'', ''cc1101_cmd_get_datarate'', [end_args]),
     (''cc1101 set_mod'', ''cc1101_cmd_set_mod'', [arg ''mod'' CMD_ARG_STRING True, end_args]),
     (''cc1101 get_mod'', ''cc1101_cmd_get_mod'', [end_args]),
     (''cc1101 set_mod_power'', ''cc1101_cmd_set_mod_power'', [arg ''mod'' CMD_ARG_INT True, arg ''dbm'' CMD_ARG_INT True,
        end_args]),
     (''cc1101 set_gdo'', ''cc1101_cmd_set_gdo'', [arg ''data'' CMD_ARG_HEX True, end_args])]"

definition cc1101_register_commands :: "registry \<Rightarrow> bool \<times> registry" where
  "cc1101_register_commands = register_all cc1101_commands"

definition cc1101_prototypes :: "(string \<times> cmd_arg_type list) list" where
  "cc1101_prototypes =
    [(''cc1101_cmd_init'', [CMD_ARG_INT, CMD_ARG_INT, CMD_ARG_INT, CMD_ARG_INT]),
     (''cc1101_cmd_write_reg'', [CMD_ARG_INT, CMD_ARG_INT]),
     (''cc1101_cmd_read_reg'', [CMD_ARG_INT]),
     (''cc1101_cmd_strobe'', [CMD_ARG_INT]),
     (''cc1101_cmd_read_burst'', [CMD_ARG_INT, CMD_ARG_INT]),
     (''cc1101_cmd_write_burst'', [CMD_ARG_INT, CMD_ARG_HEX]),
     (''cc1101_cmd_apply_defaults'', []),
     (''cc1101_cmd_set_freq'', [CMD_ARG_STRING]),
     (''cc1101_cmd_get_freq'', []),
     (''cc1101_cmd_set_datarate'', [CMD_ARG_INT]),
     (''cc1101_cmd_get_datarate'', []),
     (''cc1101_cmd_set_mod'', [CMD_ARG_STRING]),
     (''cc1101_cmd_get_mod'', []),
     (''cc1101_cmd_set_mod_power'', [CMD_ARG_INT, CMD_ARG_INT]),
     (''cc1101_cmd_set_gdo'', [CMD_ARG_HEX])]"

definition gpio_commands :: catalogue where
  "gpio_commands =
    [(''gpio in'', ''gpio_in_command'', [arg ''pin'' CMD_ARG_INT True, end_args]),
     (''gpio out'', ''gpio_out_command'', [arg ''pin'' CMD_ARG_INT True, end_args]),
     (''gpio pull'', ''gpio_pull_command'', [arg ''pin'' CMD_ARG_INT True, arg ''mode'' CMD_ARG_INT True, end_args]),
     (''gpio high'', ''gpio_high_command'', [arg ''pin'' CMD_ARG_INT True, end_args]),
     (''gpio low'', ''gpio_low_command'', [arg ''pin'' CMD_ARG_INT True, end_args]),
     (''gpio read'', ''gpio_read_command'', [arg ''pin'' CMD_ARG_INT True, end_args])]"

definition gpio_register_commands :: "registry \<Rightarrow> bool \<times> registry" where
  "gpio_register_commands = register_all gpio_commands"

definition gpio_prototypes :: "(string \<times> cmd_arg_type list) list" where
  "gpio_prototypes =
    [(''gpio_in_command'', [CMD_ARG_INT]),
     (''gpio_out_command'', [CMD_ARG_INT]),
     (''gpio_pull_command'', [CMD_ARG_INT, CMD_ARG_INT]),
     (''gpio_high_command'', [CMD_ARG_INT]),
     (''gpio_low_command'', [CMD_ARG_INT]),
     (''gpio_read_command'', [CMD_ARG_INT])]"

definition sampler_commands :: catalogue where
  "sampler_commands =
    [(''sample start'', ''sampler_start_command'', [arg ''pin'' CMD_ARG_INT True, end_args]),
     (''sample stop'', ''sampler_stop_command'', [end_args]),
     (''transmit start'', ''transmit_start_command'', [arg ''pin'' CMD_ARG_INT True, arg ''pwm'' CMD_ARG_BOOL False,
        arg ''freq'' CMD_ARG_INT False, arg ''duty'' CMD_ARG_INT False, end_args]),
     (''transmit stop'', ''transmit_stop_command'', [end_args])]"

definition sampler_register_commands :: "registry \<Rightarrow> bool \<times> registry" where
  "sampler_register_commands = register_all sampler_commands"

definition sampler_prototypes :: "(string \<times> cmd_arg_type list) list" where
  "sampler_prototypes =
    [(''sampler_start_command'', [CMD_ARG_INT]),
     (''sampler_stop_command'', []),
     (''transmit_start_command'', [CMD_ARG_INT, CMD_ARG_BOOL, CMD_ARG_INT, CMD_ARG_INT]),
     (''transmit_stop_command'', [])]"

definition core_commands :: catalogue where
  "core_commands =
    [(''version'', ''version_command'', [end_args]),
     (''ble?'', ''ble_status_command'', [end_args]),
     (''stop'', ''stop_command'', [end_args])]"

definition register_core_commands :: "registry \<Rightarrow> bool \<times> registry" where
  "register_core_commands = register_all core_commands"

definition core_prototypes :: "(string \<times> cmd_arg_type list) list" where
  "core_prototypes =
    [(''version_command'', []),
     (''ble_status_command'', []),
     (''stop_command'', [])]"

definition debug_commands :: catalogue where
  "debug_commands =
    [(''debug transport'', ''debug_transport_command'', [arg ''mode'' CMD_ARG_STRING True, end_args])]"

definition transport_debug_register_commands :: "registry \<Rightarrow> bool \<times> registry" where
  "transport_debug_register_commands = register_all debug_commands"

definition debug_prototypes :: "(string \<times> cmd_arg_type list) list" where
  "debug_prototypes =
    [(''debug_transport_command'', [CMD_ARG_STRING])]"

definition wifi_commands :: catalogue where
  "wifi_commands =
    [(''wifi provision'', ''wifi_provision_command'', [arg ''ssid'' CMD_ARG_STRING True,
        arg ''password'' CMD_ARG_STRING True, end_args]),
     (''wifi clear'', ''wifi_clear_command'', [end_args]),
     (''wifi status'', ''wifi_status_command'', [end_args])]"

definition wifi_register_commands :: "registry \<Rightarrow> bool \<times> registry" where
  "wifi_register_commands = register_all wifi_commands"

definition wifi_prototypes :: "(string \<times> cmd_arg_type list) list" where
  "wifi_prototypes =
    [(''wifi_provision_command'', [CMD_ARG_STRING, CMD_ARG_STRING]),
     (''wifi_clear_command'', []),
     (''wifi_status_command'', [])]"

definition quick_commands :: catalogue where
  "quick_commands =
    [(''rfm69'', ''rfm69_quick_command'', [pos_arg CMD_ARG_STRING False, end_args])]"

definition register_debug_commands :: "registry \<Rightarrow> bool \<times> registry" where
  "register_debug_commands = register_all quick_commands"

definition quick_prototypes :: "(string \<times> cmd_arg_type list) list" where
  "quick_prototypes =
    [(''rfm69_quick_command'', [CMD_ARG_STRING])]"

definition handler_prototypes :: "(string \<times> cmd_arg_type list) list" where
  "handler_prototypes = spi_prototypes @ rfm69_prototypes @ cc1101_prototypes @ gpio_prototypes @ sampler_prototypes @
     core_prototypes @ debug_prototypes @ wifi_prototypes @ quick_prototypes"

text \<open>The registry once \<open>app_main\<close> has run, and whether every registration succeeded.\<close>

fun register_modules :: "(registry \<Rightarrow> bool \<times> registry) list \<Rightarrow> registry \<Rightarrow> bool \<times> registry" where
  "register_modules [] reg = (True, reg)"
| "register_modules (m # ms) reg = (let (ok, reg) = m reg; (oks, reg) = register_modules ms reg in (ok \<and> oks, reg))"

definition firmware_commands :: "bool \<times> registry" where
  "firmware_commands = register_modules
     [spi_register_commands, rfm69_register_commands, cc1101_register_commands, gpio_register_commands,
      sampler_register_commands, register_core_commands, transport_debug_register_commands,
      wifi_register_commands, register_debug_commands] command_registry_init"

fun entries :: "registry \<Rightarrow> command_entry list" where
  "entries [] = []"
| "entries (slot # slots) = (case slot of Some e \<Rightarrow> e # entries slots | None \<Rightarrow> entries slots)"

definition has_type :: "cmd_arg_type \<Rightarrow> arg_value \<Rightarrow> bool" where
  "has_type ty v = (case v of IntV _ \<Rightarrow> ty = CMD_ARG_INT | StrV _ \<Rightarrow> ty = CMD_ARG_STRING | BoolV _ \<Rightarrow> ty = CMD_ARG_BOOL
     | HexV _ \<Rightarrow> ty = CMD_ARG_HEX)"

section \<open>The registry of the running firmware\<close>

definition commands :: catalogue where
  "commands = spi_commands @ rfm69_commands @ cc1101_commands @ gpio_commands @ sampler_commands @ core_commands @
     debug_commands @ wifi_commands @ quick_commands"

definition mk_entry :: "string \<times> string \<times> cmd_arg_spec list \<Rightarrow> command_entry" where
  "mk_entry = (\<lambda>(v, h, args). let as = the (scan_specs args 0 0) in
     \<lparr>entry_verb = v, entry_types = map (spec_type \<circ> fst) as, entry_required = map (spec_required \<circ> fst) as,
      entry_names = map (spec_name \<circ> fst) as, entry_positional = map snd as, entry_handler = h\<rparr>)"

lemma mk_entry_verb [simp]: "entry_verb (mk_entry (v, h, args)) = v" "entry_handler (mk_entry (v, h, args)) = h"
  by (simp_all add: mk_entry_def Let_def)

lemma registered_iff: "registered v (map Some es @ replicate n None) \<longleftrightarrow> take 16 v \<in> set (map (take 16 \<circ> entry_verb) es)"
proof (induction es)
  case Nil
  show ?case by (induction n) simp_all
qed auto

lemma first_free_append: "first_free (map Some es @ replicate (Suc n) None) = Some (length es)"
  by (induction es) simp_all

lemma register_command_fresh:
  assumes "scan_specs args 0 0 \<noteq> None" "take 16 v \<notin> set (map (take 16 \<circ> entry_verb) es)"
  shows "register_command v h args (map Some es @ replicate (Suc n) None) =
    (True, map Some (es @ [mk_entry (v, h, args)]) @ replicate n None)"
proof -
  obtain as where as: "scan_specs args 0 0 = Some as" using assms(1) by blast
  have "\<not> registered v (map Some es @ replicate (Suc n) None)" using assms(2) by (simp add: registered_iff del: replicate_Suc)
  then show ?thesis
    using as first_free_append [of es n]
    by (simp add: register_command_def mk_entry_def Let_def list_update_append)
qed

lemma register_all_fresh:
  "\<forall>(v, h, args) \<in> set cs. scan_specs args 0 0 \<noteq> None \<Longrightarrow>
   distinct (map (take 16 \<circ> entry_verb) es @ map (take 16 \<circ> fst) cs) \<Longrightarrow> length cs \<le> n \<Longrightarrow>
   register_all cs (map Some es @ replicate n None) = (True, map Some (es @ map mk_entry cs) @ replicate (n - length cs) None)"
proof (induction cs arbitrary: es n)
  case (Cons c cs)
  obtain v h args where c: "c = (v, h, args)" by (cases c)
  obtain m where n: "n = Suc m" using Cons.prems(3) by (cases n) auto
  have "register_command v h args (map Some es @ replicate n None) = (True, map Some (es @ [mk_entry c]) @ replicate m None)"
    using Cons.prems(1,2) unfolding n c by (intro register_command_fresh) auto
  moreover have "register_all cs (map Some (es @ [mk_entry c]) @ replicate m None) =
      (True, map Some ((es @ [mk_entry c]) @ map mk_entry cs) @ replicate (m - length cs) None)"
    using Cons.prems c n by (intro Cons.IH) auto
  ultimately show ?case using c n by simp
qed simp

lemma register_all_append: "register_all (cs @ ds) reg =
    (let (ok, reg) = register_all cs reg; (oks, reg) = register_all ds reg in (ok \<and> oks, reg))"
  by (induction cs arbitrary: reg) (auto simp: Let_def split: prod.splits)

lemma firmware_commands_eq: "firmware_commands = register_all commands command_registry_init"
  by (simp add: firmware_commands_def commands_def register_all_append spi_register_commands_def rfm69_register_commands_def
      cc1101_register_commands_def gpio_register_commands_def sampler_register_commands_def register_core_commands_def
      transport_debug_register_commands_def wifi_register_commands_def register_debug_commands_def Let_def split: prod.splits)

text \<open>Strings are told apart by evaluation through a number that happens to differ on those of the catalogue.\<close>

definition number :: "string \<Rightarrow> int" where
  "number s = foldl (\<lambda>n c. n + n + of_char c) 0 s"

lemma distinct_number: "distinct (map (number \<circ> f) xs) \<Longrightarrow> distinct (map f xs)"
  by (metis distinct_map map_map)

lemmas catalogue_defs = commands_def spi_commands_def rfm69_commands_def cc1101_commands_def gpio_commands_def
  sampler_commands_def core_commands_def debug_commands_def wifi_commands_def quick_commands_def

lemma commands_table:
  "distinct (map (number \<circ> (take 16 \<circ> fst)) commands)" "list_all (\<lambda>(v, h, args). scan_specs args 0 0 \<noteq> None) commands"
  "length commands = 61" "distinct (map (number \<circ> fst) handler_prototypes)"
  "map (\<lambda>(v, h, args). (h, entry_types (mk_entry (v, h, args)))) commands = handler_prototypes"
     apply (code_simp, code_simp, code_simp, code_simp)
  by (simp add: catalogue_defs handler_prototypes_def spi_prototypes_def rfm69_prototypes_def cc1101_prototypes_def gpio_prototypes_def
      sampler_prototypes_def core_prototypes_def debug_prototypes_def wifi_prototypes_def quick_prototypes_def mk_entry_def Let_def
      arg_def pos_arg_def end_args_def)

lemma commands_distinct: "distinct (map (take 16 \<circ> fst) commands)" "distinct (map fst handler_prototypes)"
  using commands_table(1,4) distinct_number by blast+

lemma firmware_registry:
  "firmware_commands = (True, map Some (map mk_entry commands) @ replicate 3 None)"
proof -
  have "register_all commands (map Some [] @ replicate 64 None) =
      (True, map Some ([] @ map mk_entry commands) @ replicate (64 - length commands) None)"
    using commands_table(2,3) commands_distinct(1)
    by (intro register_all_fresh) (auto simp: list_all_iff)
  then show ?thesis by (simp add: firmware_commands_eq command_registry_init_def commands_table(3))
qed

lemma find_entry_Some: "find_entry v reg = Some e \<Longrightarrow> Some e \<in> set reg \<and> entry_verb e = v"
  by (induction v reg rule: find_entry.induct) (auto split: option.splits if_splits)

lemma find_entry_distinct:
  "distinct (map entry_verb es) \<Longrightarrow> e \<in> set es \<Longrightarrow> find_entry (entry_verb e) (map Some es @ rest) = Some e"
  by (induction es) auto

lemma entries_firmware: "entries (snd firmware_commands) = map mk_entry commands"
proof -
  have "entries (map Some es @ replicate n None) = es" for es :: "command_entry list" and n
  proof (induction es)
    case Nil
    show ?case by (induction n) simp_all
  qed simp
  from this [of "map mk_entry commands" 3] show ?thesis by (simp add: firmware_registry del: map_map)
qed

lemma in_entries: "Some e \<in> set reg \<longleftrightarrow> e \<in> set (entries reg)"
  by (induction reg) (auto split: option.splits)

lemma entry_prototype:
  assumes "e \<in> set (entries (snd firmware_commands))"
  shows "map_of handler_prototypes (entry_handler e) = Some (entry_types e)"
proof -
  obtain v h args where c: "(v, h, args) \<in> set commands" "e = mk_entry (v, h, args)" using assms by (auto simp: entries_firmware)
  then have "(h, entry_types e) \<in> set (map (\<lambda>(v, h, args). (h, entry_types (mk_entry (v, h, args)))) commands)" by force
  then show ?thesis using c commands_table(5) commands_distinct(2) by simp
qed

lemma supported_table: "list_all (\<lambda>c. supported (entry_types (mk_entry c)) \<longleftrightarrow> fst c \<noteq> ''spi xfer'') commands"
  by code_simp

lemma types_table: "list_all (\<lambda>c. CMD_ARG_DONE \<notin> set (entry_types (mk_entry c))) commands"
  by code_simp

lemma convert_typed: "convert ty raw = Inr v \<Longrightarrow> has_type ty v"
  by (cases ty) (auto simp: has_type_def split: option.splits if_splits)

lemma default_typed: "ty \<noteq> CMD_ARG_DONE \<Longrightarrow> has_type ty (default_value ty)"
  by (cases ty) (auto simp: has_type_def)

lemma convert_args_typed:
  "convert_args parsed tys reqs keys poss = Inr vs \<Longrightarrow> CMD_ARG_DONE \<notin> set tys \<Longrightarrow> length reqs = length tys \<Longrightarrow>
   length keys = length tys \<Longrightarrow> length poss = length tys \<Longrightarrow> list_all2 has_type tys vs"
proof (induction parsed tys reqs keys poss arbitrary: vs rule: convert_args.induct)
  case (1 parsed ty tys req reqs key keys pos poss)
  then show ?case
    by (auto simp: Let_def default_typed convert_typed split: option.splits sum.splits if_splits)
qed auto

lemma select_entry_in: "select_entry parsed reg = (Some e, p) \<Longrightarrow> Some e \<in> set reg"
  by (auto simp: select_entry_def Let_def dest: find_entry_Some split: option.splits if_splits)

lemma mk_entry_lengths: "length (entry_required (mk_entry c)) = length (entry_types (mk_entry c))"
  "length (entry_names (mk_entry c)) = length (entry_types (mk_entry c))"
  "length (entry_positional (mk_entry c)) = length (entry_types (mk_entry c))"
  by (cases c, simp add: mk_entry_def Let_def)+

lemma firmware_find:
  assumes "e \<in> set (entries (snd firmware_commands))"
  shows "find_entry (entry_verb e) (snd firmware_commands) = Some e"
proof -
  have "map entry_verb (map mk_entry commands) = map fst commands" by auto
  then have "distinct (map entry_verb (map mk_entry commands))" using commands_distinct(1) by (metis distinct_map map_map)
  then show ?thesis using find_entry_distinct assms unfolding entries_firmware by (simp add: firmware_registry del: map_map)
qed

text \<open>A line for the witnesses.\<close>

definition ascii_command :: "string \<Rightarrow> command_t" where
  "ascii_command line = \<lparr>cmd_data = List.map of_char line, cmd_length = of_nat (length line), cmd_source = EMW_COMMAND_SOURCE_BLE\<rparr>"

definition gpio_pull_line :: string where
  "gpio_pull_line = ''gpio pull --mode=0x00000002 --pin=0x00000011 ''"

definition gpio_pull_options :: "(string \<times> arg_value) list" where
  "gpio_pull_options = [(''mode'', IntV 2), (''pin'', IntV 17)]"

definition gpio_pull_entry :: command_entry where
  "gpio_pull_entry = \<lparr>entry_verb = ''gpio pull'', entry_types = [CMD_ARG_INT, CMD_ARG_INT], entry_required = [True, True],
     entry_names = [Some ''pin'', Some ''mode''], entry_positional = [- 1, - 1], entry_handler = ''gpio_pull_command''\<rparr>"

lemma gpio_pull_found: "find_entry (''gpio'' @ '' '' @ ''pull'') (snd firmware_commands) = Some gpio_pull_entry"
proof -
  let ?c = "(''gpio pull'', ''gpio_pull_command'', [arg ''pin'' CMD_ARG_INT True, arg ''mode'' CMD_ARG_INT True, end_args])"
  have "?c \<in> set commands" unfolding commands_def gpio_commands_def set_append list.set by blast
  then have "mk_entry ?c \<in> set (entries (snd firmware_commands))" unfolding entries_firmware set_map by (rule imageI)
  from firmware_find [OF this] show ?thesis
    by (simp add: gpio_pull_entry_def mk_entry_def Let_def arg_def end_args_def)
qed

lemma gpio_pull_facts:
  "holds_line (ascii_command gpio_pull_line) (spell_line ''gpio'' ''pull'' gpio_pull_options)"
  "supported (entry_types gpio_pull_entry)" "\<forall>(k, x) \<in> set gpio_pull_options. plain_word 15 k \<and> in_range x"
  "plain_word 15 ''gpio''" "plain_word 63 ''pull''" "\<not> dashes ''pull''" "length gpio_pull_options \<le> 10"
  "distinct (map fst gpio_pull_options)" "set (zip [''pin'', ''mode''] [IntV 17, IntV 2]) \<subseteq> set gpio_pull_options"
  by code_simp+

section \<open>Properties\<close>

text \<open>C33: A command line never calls a handler through a function pointer of the wrong type: whatever
  the line, the arguments passed have, in number, order and type, the parameters that the C
  prototype of the handler declares.\<close>

theorem esp_calls_well_typed:
  assumes "command_registry_handle cmd (snd firmware_commands) = Call h vs"
  shows "\<exists>tys. map_of handler_prototypes h = Some tys \<and> list_all2 has_type tys vs"
proof -
  obtain parsed e p vs' where e: "select_entry parsed (snd firmware_commands) = (Some e, p)"
      "convert_args p (entry_types e) (entry_required e) (entry_names e) (entry_positional e) = Inr vs'"
      "invoke_handler e vs' = Call h vs"
    using assms by (auto simp: command_registry_handle_def split: option.splits prod.splits sum.splits)
  then have i: "e \<in> set (entries (snd firmware_commands))" using select_entry_in in_entries by blast
  then obtain c where c: "c \<in> set commands" "e = mk_entry c" by (auto simp: entries_firmware)
  then have "list_all2 has_type (entry_types e) vs'"
    using convert_args_typed [OF e(2)] types_table mk_entry_lengths by (auto simp: list_all_iff)
  then show ?thesis using entry_prototype [OF i] e(3) by (auto simp: supported_invoke split: if_splits)
qed

theorem esp_calls_well_typed_witness:
  "command_registry_handle (ascii_command gpio_pull_line) (snd firmware_commands) = Call ''gpio_pull_command'' [IntV 17, IntV 2] \<and>
   map_of handler_prototypes ''gpio_pull_command'' = Some [CMD_ARG_INT, CMD_ARG_INT]"
proof -
  have e: "command_registry_handle (ascii_command gpio_pull_line) (snd firmware_commands) =
      Call ''gpio_pull_command'' [IntV 17, IntV 2]"
    using line_calls [OF gpio_pull_found, of "[''pin'', ''mode'']" "[IntV 17, IntV 2]" _ gpio_pull_options] gpio_pull_facts
    by (simp add: gpio_pull_entry_def)
  show ?thesis using esp_calls_well_typed [OF e] e by (auto simp: list_all2_Cons2 has_type_def)
qed

text \<open>C34: Spelling a command and reading it back: for any values in range, the line of the verb and
  its options, in any order, calls the handler with exactly those values.\<close>

theorem esp_command_roundtrip:
  assumes "find_entry (v @ '' '' @ s) reg = Some e" "entry_names e = map Some keys" "entry_types e = map type_of vs"
      "entry_positional e = map (\<lambda>_. - 1) vs" "length (entry_required e) = length vs" "length keys = length vs" "supported (entry_types e)"
    and "holds_line cmd (spell_line v s opts)" "plain_word 15 v" "plain_word 63 s" "\<not> dashes s"
      "\<forall>(k, x) \<in> set opts. plain_word 15 k \<and> in_range x" "length opts \<le> 10" "distinct (map fst opts)"
    and "set (zip keys vs) \<subseteq> set opts"
  shows "command_registry_handle cmd reg = Call (entry_handler e) vs"
  by (rule line_calls [OF assms])

theorem esp_command_roundtrip_witness:
  "command_registry_handle (ascii_command gpio_pull_line) (snd firmware_commands) = Call ''gpio_pull_command'' [IntV 17, IntV 2]"
  using esp_command_roundtrip [OF gpio_pull_found, of "[''pin'', ''mode'']" "[IntV 17, IntV 2]" _ gpio_pull_options] gpio_pull_facts
  by (simp add: gpio_pull_entry_def)

text \<open>Every registration of the firmware succeeds and every registered verb is found again, none
  hidden by another; all handlers can be called except that of \<open>spi xfer\<close>, whose seven arguments
  match no call pattern, so the command is always refused.\<close>

theorem esp_commands_reachable:
  "fst firmware_commands \<and>
   map (\<lambda>e. find_entry (entry_verb e) (snd firmware_commands)) (entries (snd firmware_commands)) =
     map Some (entries (snd firmware_commands)) \<and>
   map entry_verb (filter (\<lambda>e. \<exists>err. invoke_handler e = (\<lambda>vs. SendErr err)) (entries (snd firmware_commands))) = [''spi xfer'']"
proof -
  let ?R = "snd firmware_commands"
  have u: "(\<exists>err. invoke_handler e = (\<lambda>vs. SendErr err)) \<longleftrightarrow> \<not> supported (entry_types e)" for e
    by (auto simp: fun_eq_iff supported_invoke)
  have s: "supported (entry_types (mk_entry c)) \<longleftrightarrow> fst c \<noteq> ''spi xfer''" if "c \<in> set commands" for c
    using supported_table that by (auto simp: list_all_iff)
  have "filter (\<lambda>e. \<not> supported (entry_types e)) (map mk_entry commands) =
      map mk_entry (filter (\<lambda>c. fst c = ''spi xfer'') commands)"
    using s by (auto simp: filter_map intro!: arg_cong [where f = "map mk_entry"] filter_cong)
  moreover have "map fst (filter (\<lambda>c. fst c = ''spi xfer'') commands) = [''spi xfer'']" by code_simp
  moreover have "map entry_verb (map mk_entry cs) = map fst cs" for cs by auto
  ultimately have "map entry_verb (filter (\<lambda>e. \<not> supported (entry_types e)) (entries ?R)) = [''spi xfer'']"
    unfolding entries_firmware by (simp only:)
  moreover have "map (\<lambda>e. find_entry (entry_verb e) ?R) (entries ?R) = map Some (entries ?R)"
    using firmware_find by (intro map_cong) auto
  moreover have "fst firmware_commands" by (simp add: firmware_registry)
  ultimately show ?thesis unfolding u by blast
qed

end
