(* ===== verification/Esp_Core.thy ===== *)
theory Esp_Core
  imports Esp_Rfm69 Esp_Sampler Esp_Catalogue
begin

text \<open>
  The command interpreter of the ESP32 firmware, first part (\<open>src/esp/main/libraries/init.c\<close>): its
  state, the three kinds of answer, and one definition per opcode. Calls of ESP-IDF whose result the
  code uses read it from the trace; \<open>io_log\<close> records the calls to the GPIO and LED-control drivers,
  and \<open>answers\<close> every lane with the source it is meant for, as the transport log of
  \<open>transport_debug.c\<close> does.
\<close>

section \<open>State\<close>

datatype io_call = GpioReset int | GpioDirection int bool | GpioLevel int bool | GpioPull int u8 | GpioConfigOutput int
  | LedcTimer u32 | LedcChannel int u16 | LedcDuty u16 | LedcStop

record esp =
  rtm :: esp_rt
  eble :: ble
  ewifi :: wifi
  eradio :: radio
  ereg :: registry
  active_command_source :: u8
  pwm_freq_hz :: u32
  pwm_active_pin :: int
  pwm_configured :: bool
  staged_ssid :: "u8 list"
  staged_password :: "u8 list"
  staged_active :: bool
  device_name :: "u8 list option"
  transport_debug_enabled :: bool
  restart_task_created :: bool
  quick_initialized :: bool
  io_log :: "io_call list"
  answers :: "(u8 \<times> u8 list) list"

definition upd_usb :: "esp_usb \<Rightarrow> esp \<Rightarrow> esp" where
  "upd_usb u e = e\<lparr>rtm := (rtm e)\<lparr>eu := u\<rparr>\<rparr>"

definition upd_sess :: "session \<Rightarrow> esp \<Rightarrow> esp" where
  "upd_sess s e = upd_usb ((eu (rtm e))\<lparr>sess := s\<rparr>) e"

text \<open>A driver call whose result is used, and one whose result is ignored.\<close>

definition io :: "io_call \<Rightarrow> esp \<Rightarrow> trace \<Rightarrow> (u32 \<times> esp \<times> trace) option" where
  "io c e t = do { (err, t) \<leftarrow> rd t; Some (err, e\<lparr>io_log := io_log e @ [c]\<rparr>, t) }"

definition note_io :: "io_call \<Rightarrow> esp \<Rightarrow> esp" where
  "note_io c e = e\<lparr>io_log := io_log e @ [c]\<rparr>"

section \<open>Answers\<close>

text \<open>The lane goes to the transport the command came from, and to USB for any other source.\<close>

definition send_binary :: "u8 \<Rightarrow> u8 list \<Rightarrow> esp \<Rightarrow> trace \<Rightarrow> (esp \<times> trace) option" where
  "send_binary status payload e t = do {
     let lane = blit (zeros 18) 0 (status # take 17 payload);
     let e = e\<lparr>answers := answers e @ [(active_command_source e, lane)]\<rparr>;
     if active_command_source e = EMW_COMMAND_SOURCE_BLE then do {
       (_, b, t) \<leftarrow> ble_server_send_cmd_response status payload (eble e) t;
       Some (e\<lparr>eble := b\<rparr>, t) }
     else if active_command_source e = EMW_COMMAND_SOURCE_WIFI then do {
       (_, w, t) \<leftarrow> wifi_transport_send_cmd_response status payload (ewifi e) t;
       Some (e\<lparr>ewifi := w\<rparr>, t) }
     else do {
       (_, u, t) \<leftarrow> usb_send_cmd_response status payload (eu (rtm e)) t;
       Some (upd_usb u e, t) } }"

definition send_binary_ok :: "u8 list \<Rightarrow> esp \<Rightarrow> trace \<Rightarrow> (esp \<times> trace) option" where
  "send_binary_ok payload e t = send_binary 0x80 payload e t"

definition send_binary_err :: "esp \<Rightarrow> trace \<Rightarrow> (esp \<times> trace) option" where
  "send_binary_err e t = send_binary 0x81 [] e t"

definition send_binary_busy :: "esp \<Rightarrow> trace \<Rightarrow> (esp \<times> trace) option" where
  "send_binary_busy e t = send_binary 0x82 [] e t"

section \<open>Identity and names\<close>

definition handle_hardware_uid_get :: "esp \<Rightarrow> trace \<Rightarrow> (esp \<times> trace) option" where
  "handle_hardware_uid_get e t = do {
     (err, t) \<leftarrow> rd t;
     if err \<noteq> 0 then send_binary_err e t
     else do { (mac, t) \<leftarrow> rd_bytes 6 t; send_binary_ok mac e t } }"

fun EMW_TARGET_DEVICE_NAME_PREFIX :: "target \<Rightarrow> string" where
  "EMW_TARGET_DEVICE_NAME_PREFIX ESP32 = ''ESP32''"
| "EMW_TARGET_DEVICE_NAME_PREFIX ESP32S2 = ''ESP32-S2''"
| "EMW_TARGET_DEVICE_NAME_PREFIX ESP32S3 = ''ESP32-S3''"

definition bytes_of :: "string \<Rightarrow> u8 list" where
  "bytes_of s = List.map of_char s"

definition get_default_device_name :: "target \<Rightarrow> nat \<Rightarrow> trace \<Rightarrow> (u8 list \<times> trace) option" where
  "get_default_device_name tg out_len t = do {
     (mac, t) \<leftarrow> rd_mac45 t;
     Some (case mac of
             None \<Rightarrow> bytes_of (strlcpy out_len (EMW_TARGET_DEVICE_NAME_PREFIX tg))
           | Some (m4, m5) \<Rightarrow>
               bytes_of (take (out_len - 1) (EMW_TARGET_DEVICE_NAME_PREFIX tg @ ''-'' @ upper_hex2 m4 @ upper_hex2 m5)), t) }"

text \<open>The stored name is the text without its terminator; reading it fails for a buffer that is too small.\<close>

definition load_device_name :: "target \<Rightarrow> nat \<Rightarrow> esp \<Rightarrow> trace \<Rightarrow> (u8 list \<times> trace) option" where
  "load_device_name tg out_len e t = do {
     (err, t) \<leftarrow> rd t;
     if err \<noteq> 0 then get_default_device_name tg out_len t
     else case device_name e of
            Some name \<Rightarrow> if \<not> length name < out_len \<or> name = [] then get_default_device_name tg out_len t else Some (name, t)
          | None \<Rightarrow> get_default_device_name tg out_len t }"

definition esp_name_get :: "target \<Rightarrow> esp \<Rightarrow> trace \<Rightarrow> (esp \<times> trace) option" where
  "esp_name_get tg e t = do {
     (name, t) \<leftarrow> load_device_name tg 17 e t;
     send_binary_ok name e t }"

definition esp_name_set :: "u8 list \<Rightarrow> esp \<Rightarrow> trace \<Rightarrow> (esp \<times> trace) option" where
  "esp_name_set data e t = do {
     let len = data ! 1;
     let len = (if len > 16 then 16 else len);
     let len = (if len > 16 then 16 else len);
     let name = blit (zeros 17) 0 (take (unat len) (drop 2 data));
     (err, t) \<leftarrow> rd t;
     if err \<noteq> 0 then send_binary_err e t
     else do {
       (err, t) \<leftarrow> rd t;
       if err \<noteq> 0 then send_binary_err e t
       else do {
         let e = e\<lparr>device_name := Some (takeWhile (\<lambda>b. b \<noteq> 0) name)\<rparr>;
         (err, t) \<leftarrow> rd t;
         if err \<noteq> 0 then send_binary_err e t
         else send_binary_ok [] e t } } }"

section \<open>Wi-Fi configuration and the transport session\<close>

text \<open>The bytes of a field; \<open>None\<close> when they are refused.\<close>

definition stage_field :: "u8 list \<Rightarrow> u8 list \<Rightarrow> u8 list option" where
  "stage_field data target_buf =
     (let offset = data ! 3; len = data ! 4 in
      if len > 13 \<or> unat offset + unat len \<ge> length target_buf then None
      else Some ((blit target_buf (unat offset) (take (unat len) (drop 5 data)))[unat offset + unat len := 0]))"

definition reset_staging :: "esp \<Rightarrow> esp" where
  "reset_staging e = e\<lparr>staged_ssid := zeros 33, staged_password := zeros 65\<rparr>"

definition handle_wifi_config_opcode :: "u8 list \<Rightarrow> esp \<Rightarrow> trace \<Rightarrow> (esp \<times> trace) option" where
  "handle_wifi_config_opcode data e t =
     (let sub = data ! 1 in
      if sub = 0 then send_binary_ok [] ((reset_staging e)\<lparr>staged_active := True\<rparr>) t
      else if sub = 1 then
        (if \<not> staged_active e then send_binary_err e t
         else if data ! 2 = 0 then
           (case stage_field data (staged_ssid e) of
              None \<Rightarrow> send_binary_err e t
            | Some buf \<Rightarrow> send_binary_ok [] (e\<lparr>staged_ssid := buf\<rparr>) t)
         else if data ! 2 = 1 then
           (case stage_field data (staged_password e) of
              None \<Rightarrow> send_binary_err e t
            | Some buf \<Rightarrow> send_binary_ok [] (e\<lparr>staged_password := buf\<rparr>) t)
         else send_binary_err e t)
      else if sub = 2 then
        (if \<not> staged_active e then send_binary_err e t
         else do {
           (err, w, t) \<leftarrow> wifi_transport_provision (c_string (staged_ssid e)) (c_string (staged_password e)) (ewifi e) t;
           let e = e\<lparr>ewifi := w\<rparr>;
           if err \<noteq> WIFI_OK then send_binary_err e t
           else send_binary_ok [] ((reset_staging e)\<lparr>staged_active := False\<rparr>) t })
      else if sub = 3 then do {
        (err, w, t) \<leftarrow> wifi_transport_clear_config (ewifi e) t;
        let e = e\<lparr>ewifi := w\<rparr>;
        if err \<noteq> WIFI_OK then send_binary_err e t
        else send_binary_ok [] ((reset_staging e)\<lparr>staged_active := False\<rparr>) t }
      else if sub = 4 then
        (let w = ewifi e; reason = s_last_disconnect_reason w;
             ip = wifi_transport_station_ipv4 w;
             station_ip = (case ip of Some a \<Rightarrow> a | None \<Rightarrow> zeros 4);
             runtime_running = (sampling_active (rtm e) \<or> transmission_active (rtm e));
             b = (\<lambda>x. if x then 1 else 0)
         in send_binary_ok ([b (s_has_config w), b (s_session_connected w), b (s_station_online w), b (s_reconnect_pending w)]
              @ u16_bytes reason @ [b (ip \<noteq> None)] @ station_ip @ [b runtime_running]) e t)
      else send_binary_err e t)"

definition handle_transport_session_opcode :: "u8 list \<Rightarrow> u8 \<Rightarrow> esp \<Rightarrow> trace \<Rightarrow> (esp \<times> trace) option" where
  "handle_transport_session_opcode data src e t =
     (let sub = data ! 1; requested_source = data ! 2; s = sess (eu (rtm e)) in
      if sub = 0 then do {
        (active, s, t) \<leftarrow> transport_session_active_source s t;
        send_binary_ok [active] (upd_sess s e) t }
      else if sub = 1 then
        (if requested_source \<noteq> src then send_binary_busy e t
         else do {
           (ok, s, t) \<leftarrow> transport_session_connect src s t;
           if \<not> ok then send_binary_busy (upd_sess s e) t else send_binary_ok [] (upd_sess s e) t })
      else if sub = 2 then
        (if requested_source \<noteq> src then send_binary_busy e t
         else do {
           (ok, s, t) \<leftarrow> transport_session_disconnect src s t;
           if \<not> ok then send_binary_busy (upd_sess s e) t else send_binary_ok [] (upd_sess s e) t })
      else if sub = 3 then
        (if requested_source \<noteq> src then send_binary_busy e t
         else do {
           (ok, s, t) \<leftarrow> transport_session_heartbeat src s t;
           if \<not> ok then send_binary_busy (upd_sess s e) t else send_binary_ok [] (upd_sess s e) t })
      else send_binary_err e t)"

section \<open>Pins, converter and SPI\<close>

definition validate_gpio_pin :: "u8 \<Rightarrow> int option" where
  "validate_gpio_pin pin = (if pin > 48 then None else Some (uint pin))"

text \<open>What remains after the calls on a pin: the error code decides the answer.\<close>

definition answer_err :: "u32 \<Rightarrow> u8 list \<Rightarrow> esp \<Rightarrow> trace \<Rightarrow> (esp \<times> trace) option" where
  "answer_err err payload e t = (if err \<noteq> 0 then send_binary_err e t else send_binary_ok payload e t)"

definition handle_gpio_opcode :: "u8 list \<Rightarrow> esp \<Rightarrow> trace \<Rightarrow> (esp \<times> trace) option" where
  "handle_gpio_opcode data e t = (case validate_gpio_pin (data ! 2) of
     None \<Rightarrow> send_binary_err e t
   | Some gpio \<Rightarrow>
       (let sub = data ! 1 in
        if sub = 0 then do {
          (err, e, t) \<leftarrow> io (GpioDirection gpio False) (note_io (GpioReset gpio) e) t;
          answer_err err [] e t }
        else if sub = 1 then do {
          (err, e, t) \<leftarrow> io (GpioDirection gpio True) (note_io (GpioReset gpio) e) t;
          answer_err err [] e t }
        else if sub = 5 then
          (let pull = data ! 3 in
           if pull \<noteq> 1 \<and> pull \<noteq> 2 \<and> pull \<noteq> 0 then send_binary_err e t
           else do {
             (err, e, t) \<leftarrow> io (GpioDirection gpio False) (note_io (GpioReset gpio) e) t;
             (err, e, t) \<leftarrow> (if err = 0 then io (GpioPull gpio pull) e t else Some (err, e, t));
             answer_err err [] e t })
        else if sub = 2 then do {
          (err, e, t) \<leftarrow> io (GpioDirection gpio False) e t;
          if err \<noteq> 0 then send_binary_err e t
          else do { (level, t) \<leftarrow> rd t; send_binary_ok [if level \<noteq> 0 then 1 else 0] e t } }
        else if sub = 3 \<or> sub = 4 then do {
          let level = (sub = 3);
          (err, e, t) \<leftarrow> io (GpioDirection gpio True) e t;
          (err, e, t) \<leftarrow> (if err = 0 then io (GpioLevel gpio level) e t else Some (err, e, t));
          answer_err err [if level then 1 else 0] e t }
        else if sub = 6 then do {
          (level, t) \<leftarrow> rd t;
          let l = (if level \<noteq> 0 then 1 else 0);
          send_binary_ok [0, 0, 0, 0, l, l] e t }
        else send_binary_err e t))"

text \<open>The sampling loop; \<open>None\<close> for a failed conversion. A raw value is a signed integer.\<close>

fun adc_samples :: "nat \<Rightarrow> u32 \<Rightarrow> trace \<Rightarrow> (u32 option \<times> trace) option" where
  "adc_samples 0 total_sum t = Some (Some total_sum, t)"
| "adc_samples (Suc n) total_sum t = do {
     (err, t) \<leftarrow> rd t;
     if err \<noteq> 0 then Some (None, t)
     else do {
       (raw, t) \<leftarrow> rd t;
       let raw = (if sint raw < 0 then 0 else raw);
       adc_samples n (total_sum + raw) t } }"

text \<open>The trace has the results of looking up the channel, creating the unit and configuring the channel.\<close>

definition handle_adc_opcode :: "u8 list \<Rightarrow> esp \<Rightarrow> trace \<Rightarrow> (esp \<times> trace) option" where
  "handle_adc_opcode data e t =
     (if data ! 1 \<noteq> 0 then send_binary_err e t
      else case validate_gpio_pin (data ! 2) of
        None \<Rightarrow> send_binary_err e t
      | Some gpio \<Rightarrow> do {
          let samples = data ! 3;
          let samples = (if samples < 1 then 1 else samples);
          let samples = (if samples > 64 then 64 else samples);
          (err, t) \<leftarrow> rd t;
          if err \<noteq> 0 then send_binary_err e t
          else do {
            (err, t) \<leftarrow> rd t;
            if err \<noteq> 0 then send_binary_err e t
            else do {
              (err, t) \<leftarrow> rd t;
              if err \<noteq> 0 then send_binary_err e t
              else do {
                (r, t) \<leftarrow> adc_samples (unat samples) 0 t;
                case r of
                  None \<Rightarrow> send_binary_err e t
                | Some total_sum \<Rightarrow>
                    let avg = ucast ((total_sum + ucast (samples div 2)) div ucast samples) :: u16
                    in send_binary_ok [ucast (avg AND 0xFF), ucast (drop_bit 8 avg AND 0xFF)] e t } } } })"

definition handle_spi_opcode :: "target \<Rightarrow> u8 list \<Rightarrow> esp \<Rightarrow> trace \<Rightarrow> (esp \<times> trace) option" where
  "handle_spi_opcode tg data e t = (case validate_gpio_pin (data ! 1) of
     None \<Rightarrow> send_binary_err e t
   | Some cs_gpio \<Rightarrow> do {
       let requested_rx = data ! 2;
       let tx_len = data ! 3;
       let tx_len = (if tx_len > 14 then 14 else tx_len);
       let requested_rx = (if requested_rx = 0 then tx_len else requested_rx);
       let requested_rx = (if requested_rx > 17 then 17 else requested_rx);
       let total_len = (if tx_len > requested_rx then tx_len else requested_rx);
       if total_len = 0 \<or> requested_rx = 0 then send_binary_ok [] e t
       else do {
         let tx_buf = blit (zeros 17) 0 (take (unat tx_len) (drop 4 data));
         (err, rx, s, t) \<leftarrow> spi_transfer_once tg cs_gpio 0 0 False tx_buf (unat total_len) (unat requested_rx) (bus (eradio e)) t;
         let e = e\<lparr>eradio := (eradio e)\<lparr>bus := s\<rparr>\<rparr>;
         if err \<noteq> 0 then send_binary_err e t
         else send_binary_ok (take (unat requested_rx) rx) e t } })"

section \<open>Sampling and transmission\<close>

definition sampler_start_sampling :: "int \<Rightarrow> u8 \<Rightarrow> esp \<Rightarrow> trace \<Rightarrow> (bool \<times> esp \<times> trace) option" where
  "sampler_start_sampling pin tick_us e t = do {
     (msg, r, t) \<leftarrow> sampler_start_impl pin tick_us (rtm e) t;
     Some (msg = None, e\<lparr>rtm := r\<rparr>, t) }"

definition sampler_stop_sampling :: "esp \<Rightarrow> bool \<times> esp" where
  "sampler_stop_sampling e = (True, e\<lparr>rtm := sampler_stop_impl (rtm e)\<rparr>)"

definition sampler_start_transmission :: "int \<Rightarrow> u8 \<Rightarrow> int \<Rightarrow> u8 \<Rightarrow> esp \<Rightarrow> trace \<Rightarrow> (bool \<times> esp \<times> trace) option" where
  "sampler_start_transmission pin duty_percent freq_hz tick_us e t = do {
     (msg, r, t) \<leftarrow> transmit_start_impl pin True freq_hz (uint duty_percent) tick_us (rtm e) t;
     Some (msg = None, e\<lparr>rtm := r\<rparr>, t) }"

definition sampler_stop_transmission :: "esp \<Rightarrow> bool \<times> esp" where
  "sampler_stop_transmission e = (True, e\<lparr>rtm := transmit_stop_impl (rtm e)\<rparr>)"

definition set_stream_source :: "u8 \<Rightarrow> esp \<Rightarrow> esp" where
  "set_stream_source src e = e\<lparr>rtm := sampler_set_stream_source src (rtm e)\<rparr>"

definition handle_sample_opcode :: "u8 list \<Rightarrow> esp \<Rightarrow> trace \<Rightarrow> (esp \<times> trace) option" where
  "handle_sample_opcode data e t =
     (let sub = data ! 1 in
      if sub = 0 then
        (case validate_gpio_pin (data ! 2) of
           None \<Rightarrow> send_binary_err e t
         | Some gpio \<Rightarrow> do {
             (ok, e, t) \<leftarrow> sampler_start_sampling gpio (data ! 3) e t;
             if \<not> ok then send_binary_err e t
             else send_binary_ok [] (set_stream_source (active_command_source e) e) t })
      else if sub = 1 then
        (let (ok, e) = sampler_stop_sampling e in
         if \<not> ok then send_binary_err e t
         else send_binary_ok [] (set_stream_source 0 e) t)
      else send_binary_err e t)"

definition handle_transmit_opcode :: "u8 list \<Rightarrow> esp \<Rightarrow> trace \<Rightarrow> (esp \<times> trace) option" where
  "handle_transmit_opcode data e t =
     (let sub = data ! 1 in
      if sub = 1 then
        (let (ok, e) = sampler_stop_transmission e in
         if \<not> ok then send_binary_err e t else send_binary_ok [] e t)
      else if sub = 0 then
        (let freq_hz = emw_u32_le (drop 4 data) in
         case validate_gpio_pin (data ! 2) of
           None \<Rightarrow> send_binary_err e t
         | Some gpio \<Rightarrow> do {
             (ok, e, t) \<leftarrow> sampler_start_transmission gpio (data ! 3) (sint freq_hz) (data ! 8) e t;
             if \<not> ok then send_binary_err e t else send_binary_ok [] e t })
      else send_binary_err e t)"

section \<open>PWM\<close>

definition pwm_apply_output :: "int \<Rightarrow> u16 \<Rightarrow> u32 \<Rightarrow> esp \<Rightarrow> trace \<Rightarrow> (bool \<times> esp \<times> trace) option" where
  "pwm_apply_output gpio duty_u12 hz e t =
     (if hz = 0 then Some (False, e, t)
      else if duty_u12 = 0 \<or> duty_u12 \<ge> 4095 then do {
        let e = (if pwm_configured e then (note_io LedcStop e)\<lparr>pwm_configured := False\<rparr> else e);
        let e = e\<lparr>pwm_active_pin := -1\<rparr>;
        (err, e, t) \<leftarrow> io (GpioReset gpio) e t;
        if err \<noteq> 0 then Some (False, e, t)
        else do {
          (err, e, t) \<leftarrow> io (GpioDirection gpio True) e t;
          if err \<noteq> 0 then Some (False, e, t)
          else do {
            (err, e, t) \<leftarrow> io (GpioLevel gpio (duty_u12 \<ge> 4095)) e t;
            Some (err = 0, e, t) } } }
      else do {
        (err, e, t) \<leftarrow> io (LedcTimer hz) e t;
        if err \<noteq> 0 then Some (False, e, t)
        else do {
          (err, e, t) \<leftarrow> io (LedcChannel gpio duty_u12) e t;
          if err \<noteq> 0 then Some (False, e, t)
          else do {
            (err, e, t) \<leftarrow> io (LedcDuty duty_u12) e t;
            if err \<noteq> 0 then Some (False, e, t)
            else do {
              (err, t) \<leftarrow> rd t;
              if err \<noteq> 0 then Some (False, e, t)
              else Some (True, e\<lparr>pwm_freq_hz := hz, pwm_active_pin := gpio, pwm_configured := True\<rparr>, t) } } } })"

definition esp_pwm_opcode :: "u8 list \<Rightarrow> esp \<Rightarrow> trace \<Rightarrow> (esp \<times> trace) option" where
  "esp_pwm_opcode data e t =
     (let sub = data ! 1 in
      if sub = 0 then
        (let hz = emw_u32_le (drop 2 data) in
         if hz = 0 then send_binary_err e t else send_binary_ok [] (e\<lparr>pwm_freq_hz := hz\<rparr>) t)
      else case validate_gpio_pin (data ! 2) of
        None \<Rightarrow> send_binary_err e t
      | Some gpio \<Rightarrow>
          if sub = 2 then do {
            let e = (if pwm_active_pin e = gpio \<and> pwm_configured e
                     then (note_io LedcStop e)\<lparr>pwm_configured := False, pwm_active_pin := -1\<rparr> else e);
            (err, e, t) \<leftarrow> io (GpioDirection gpio True) (note_io (GpioReset gpio) e) t;
            if err \<noteq> 0 then send_binary_err e t
            else do {
              (err, e, t) \<leftarrow> io (GpioLevel gpio False) e t;
              answer_err err [] e t } }
          else if sub = 1 then do {
            let val = emw_u16_le (drop 3 data);
            let hz = emw_u32_le (drop 5 data);
            let val = (if val > 4095 then 4095 else val);
            let hz = (if hz = 0 then pwm_freq_hz e else hz);
            (ok, e, t) \<leftarrow> pwm_apply_output gpio val hz e t;
            if \<not> ok then send_binary_err e t else send_binary_ok [] e t }
          else send_binary_err e t)"

section \<open>Dispatch\<close>

definition EMW_USB_CMD_LANE_SIZE :: u16 where "EMW_USB_CMD_LANE_SIZE = 18"

text \<open>The flag is the result \<open>true\<close>: the packet was handled.\<close>

definition handle_binary_packet :: "target \<Rightarrow> command_t \<Rightarrow> esp \<Rightarrow> trace \<Rightarrow> (bool \<times> esp \<times> trace) option" where
  "handle_binary_packet tg cmd e t =
     (if cmd_length cmd \<noteq> EMW_USB_CMD_LANE_SIZE then Some (False, e, t)
      else do {
        let data = cmd_data cmd;
        let opcode = data ! 0;
        (e, t) \<leftarrow>
          (if opcode = 0x01 then send_binary_ok [1, 0, 2] e t
           else if opcode = 0x02 \<or> opcode = 0x03 then do {
             (e, t) \<leftarrow> send_binary_ok [] e t;
             Some (if opcode = 0x02 then e\<lparr>restart_task_created := True\<rparr> else e, t) }
           else if opcode = 0x08 then handle_hardware_uid_get e t
           else if opcode = 0x09 then send_binary_ok (bytes_of (EMW_TARGET_BOARD_TYPE tg)) e t
           else if opcode = 0x0A then handle_wifi_config_opcode data e t
           else if opcode = 0x0B then handle_transport_session_opcode data (cmd_source cmd) e t
           else if opcode = 0x04 then esp_name_get tg e t
           else if opcode = 0x05 then esp_name_set data e t
           else if opcode = 0x10 then handle_gpio_opcode data e t
           else if opcode = 0x20 then handle_adc_opcode data e t
           else if opcode = 0x50 then handle_spi_opcode tg data e t
           else if opcode = 0x60 then handle_sample_opcode data e t
           else if opcode = 0x70 then esp_pwm_opcode data e t
           else if opcode = 0x80 then handle_transmit_opcode data e t
           else send_binary_err e t);
        Some (True, e, t) })"

end
