(* ===== verification/Esp_Answer.thy ===== *)
theory Esp_Answer
  imports Esp_Core "HOL-Library.Sublist"
begin

text \<open>
  What the opcodes of \<open>Esp_Core\<close> have in common: each sends exactly one answer, to the transport the
  command came from, and puts nothing on the other two. The calculus of \<open>Emw_Prelude\<close> carries a
  relation between the state at the arrival of the command and the present one through each handler.
\<close>

section \<open>What is on the wires\<close>

text \<open>What a host on USB sees, or will see with the next stream lane, and the commands still waiting.\<close>

definition usb_wire :: "esp_usb \<Rightarrow> u8 list list \<times> u8 list \<times> bool \<times> command_t list" where
  "usb_wire u = (usb_stream u, s_pending_cmd_lane u, s_pending_cmd_ready u, cmd_queue u)"

text \<open>The message that carries a response lane.\<close>

definition carried :: "u8 list \<Rightarrow> u8 list" where
  "carried lane = [0xF0, 0x7D, 0x45, 0x4D, 0x57] @ encode_payload_7bit_fixed (blit (zeros 36) 0 lane) @ [0xF7]"

lemma length_carried [simp]: "length lane \<le> 36 \<Longrightarrow> length (carried lane) = 48"
  by (simp add: carried_def)

definition still :: "esp \<Rightarrow> esp \<Rightarrow> bool" where
  "still e e' \<longleftrightarrow> active_command_source e' = active_command_source e \<and> answers e' = answers e \<and> eble e' = eble e \<and>
     ws_sent (ewifi e') = ws_sent (ewifi e) \<and> usb_wire (eu (rtm e')) = usb_wire (eu (rtm e)) \<and> ereg e' = ereg e"

text \<open>The lane leaves by the transport of its source, or not at all when that transport refuses it.\<close>

definition sent_by :: "u8 \<Rightarrow> u8 list \<Rightarrow> esp \<Rightarrow> esp \<Rightarrow> bool" where
  "sent_by src lane e e' \<longleftrightarrow>
     (if src = EMW_COMMAND_SOURCE_BLE then
        eble e' \<in> {eble e, (eble e)\<lparr>notifications := notifications (eble e) @ [(notification_handle (eble e), blit (zeros 64) 0 (carried lane))]\<rparr>}
      else eble e' = eble e) \<and>
     (if src = EMW_COMMAND_SOURCE_WIFI then
        ws_sent (ewifi e') = ws_sent (ewifi e) \<or> (\<exists>fd. ws_sent (ewifi e') = ws_sent (ewifi e) @ [(fd, carried lane)])
      else ws_sent (ewifi e') = ws_sent (ewifi e)) \<and>
     (if src = EMW_COMMAND_SOURCE_BLE \<or> src = EMW_COMMAND_SOURCE_WIFI then usb_wire (eu (rtm e')) = usb_wire (eu (rtm e))
      else case usb_wire (eu (rtm e)) of (stream, pending, ready, queue) \<Rightarrow>
        usb_wire (eu (rtm e')) \<in> {(stream, pending, ready, queue), (stream, lane, True, queue)} \<or>
        (\<exists>piece. prefix piece (carried lane) \<and> usb_wire (eu (rtm e')) = (stream @ [piece], pending, ready, queue)))"

definition has_answered :: "esp \<Rightarrow> esp \<Rightarrow> bool" where
  "has_answered e e' \<longleftrightarrow> active_command_source e' = active_command_source e \<and> ereg e' = ereg e \<and>
     (\<exists>lane. length lane = 18 \<and> lane ! 0 \<in> {0x80, 0x81, 0x82} \<and> answers e' = answers e @ [(active_command_source e, lane)] \<and>
        sent_by (active_command_source e) lane e e')"

lemma still_refl [simp]: "still e e"
  by (simp add: still_def)

section \<open>Sending\<close>

lemma lane18: "length (blit (zeros 18) 0 (status # take 17 payload)) = 18"
  "blit (zeros 18) 0 (status # take 17 payload) ! 0 = status"
  by (simp_all add: blit_def)

lemma blit_lane36: "blit (zeros 36) 0 (blit (zeros 18) 0 (status # take 17 payload)) = blit (zeros 36) 0 (status # take 17 payload)"
  by (simp add: blit_def zeros_def replicate_add [symmetric])

text \<open>The three senders.\<close>

lemma ble_send_post:
  "post (\<lambda>(rc, b', t'). b' \<in> {b, b\<lparr>notifications := notifications b @
     [(notification_handle b, blit (zeros 64) 0 (carried (blit (zeros 18) 0 (status # take 17 payload))))]\<rparr>})
     (ble_server_send_cmd_response status payload b t)"
  unfolding ble_server_send_cmd_response_def ble_server_send_superframe_def ble_server_notify_def ble_server_notify_attr_def Let_def
  by (auto intro!: post_rules simp: carried_def blit_lane36 ble_codec_eq)

lemma wifi_send_post:
  "post (\<lambda>(err, w', t'). ws_sent w' = ws_sent w \<or> (\<exists>fd. ws_sent w' = ws_sent w @
     [(fd, carried (blit (zeros 18) 0 (status # take 17 payload)))]))
     (wifi_transport_send_cmd_response status payload w t)"
  unfolding wifi_transport_send_cmd_response_def wifi_send_superframe_def Let_def
  by (auto intro!: post_rules simp: carried_def blit_lane36 wifi_codec_eq)

lemma usb_send_post:
  "post (\<lambda>(err, u', t'). case usb_wire u of (stream, pending, ready, queue) \<Rightarrow>
     usb_wire u' \<in> {(stream, pending, ready, queue), (stream, blit (zeros 18) 0 (status # take 17 payload), True, queue)} \<or>
     (\<exists>piece. prefix piece (carried (blit (zeros 18) 0 (status # take 17 payload))) \<and> usb_wire u' = (stream @ [piece], pending, ready, queue)))
     (usb_send_cmd_response status payload u t)"
  unfolding usb_send_cmd_response_def send_frame_def usb_is_ready_def Let_def
  by (auto intro!: post_rules take_is_prefix [where xs = "carried (blit (zeros 18) 0 (status # take 17 payload))", unfolded carried_def]
      simp: carried_def blit_lane36 esp_codec_eq usb_wire_def take_is_prefix)

lemma send_binary_post:
  assumes "still e0 e" "status \<in> {0x80, 0x81, 0x82}"
  shows "post (\<lambda>(e', t'). has_answered e0 e') (send_binary status payload e t)"
proof -
  let ?lane = "blit (zeros 18) 0 (status # take 17 payload)"
  have l: "length ?lane = 18" "?lane ! 0 \<in> {0x80, 0x81, 0x82}" using assms(2) by (simp_all add: lane18)
  have s: "active_command_source e = active_command_source e0" "answers e = answers e0" "eble e = eble e0" "ereg e = ereg e0"
    "ws_sent (ewifi e) = ws_sent (ewifi e0)" "usb_wire (eu (rtm e)) = usb_wire (eu (rtm e0))"
    using assms(1) by (simp_all add: still_def)
  let ?Q = "\<lambda>e'. sent_by (active_command_source e0) ?lane e0 e' \<longrightarrow> answers e' = answers e0 @ [(active_command_source e0, ?lane)] \<longrightarrow>
    active_command_source e' = active_command_source e0 \<longrightarrow> ereg e' = ereg e0 \<longrightarrow> has_answered e0 e'"
  have Q: "?Q e'" for e'
    using l by (auto simp: has_answered_def)
  show ?thesis
    unfolding send_binary_def Let_def
    by (auto intro!: post_if post_bind post_mono [OF ble_send_post] post_mono [OF wifi_send_post] post_mono [OF usb_send_post] Q [rule_format]
        simp: sent_by_def s upd_usb_def source_defs)
qed

interpretation esp_link: answering still has_answered send_binary
  by unfold_locales (simp_all add: send_binary_post)

lemma send_ok_post: "still e0 e \<Longrightarrow> post (\<lambda>(e', t'). has_answered e0 e') (send_binary_ok payload e t)"
  unfolding send_binary_ok_def by (rule esp_link.send_ok)

lemma send_err_post: "still e0 e \<Longrightarrow> post (\<lambda>(e', t'). has_answered e0 e') (send_binary_err e t)"
  unfolding send_binary_err_def by (rule esp_link.send_err)

lemma send_busy_post: "still e0 e \<Longrightarrow> post (\<lambda>(e', t'). has_answered e0 e') (send_binary_busy e t)"
  unfolding send_binary_busy_def by (rule esp_link.send_busy)

lemma answer_err_post: "still e0 e \<Longrightarrow> post (\<lambda>(e', t'). has_answered e0 e') (answer_err err payload e t)"
  unfolding answer_err_def by (simp add: send_ok_post send_err_post)

lemmas send_posts = send_ok_post send_err_post send_busy_post answer_err_post

section \<open>Steps that answer nothing\<close>

lemma still_upd [simp]:
  "still e0 (e\<lparr>eradio := q\<rparr>) = still e0 e" "still e0 (e\<lparr>quick_initialized := c\<rparr>) = still e0 e" "still e0 (e\<lparr>pwm_freq_hz := f\<rparr>) = still e0 e"
  "still e0 (e\<lparr>pwm_active_pin := p\<rparr>) = still e0 e" "still e0 (e\<lparr>pwm_configured := c\<rparr>) = still e0 e"
  "still e0 (e\<lparr>staged_ssid := b\<rparr>) = still e0 e" "still e0 (e\<lparr>staged_password := b\<rparr>) = still e0 e"
  "still e0 (e\<lparr>staged_active := c\<rparr>) = still e0 e" "still e0 (e\<lparr>device_name := n\<rparr>) = still e0 e"
  "still e0 (e\<lparr>io_log := l\<rparr>) = still e0 e" "still e0 (note_io c' e) = still e0 e" "still e0 (reset_staging e) = still e0 e"
  by (simp_all add: still_def note_io_def reset_staging_def)

lemma still_rtm: "still e0 e \<Longrightarrow> usb_wire (eu r) = usb_wire (eu (rtm e)) \<Longrightarrow> still e0 (e\<lparr>rtm := r\<rparr>)"
  by (simp add: still_def)

lemma still_wifi: "still e0 e \<Longrightarrow> ws_sent w = ws_sent (ewifi e) \<Longrightarrow> still e0 (e\<lparr>ewifi := w\<rparr>)"
  by (simp add: still_def)

lemma still_sess [simp]: "still e0 (upd_sess s e) = still e0 e"
  by (simp add: still_def upd_sess_def upd_usb_def usb_wire_def)

lemma still_stream [simp]: "still e0 (set_stream_source src e) = still e0 e"
  by (simp add: still_def set_stream_source_def sampler_set_stream_source_def)

lemma still_if: "still e0 a \<Longrightarrow> still e0 b \<Longrightarrow> still e0 (if c then a else b)"
  by simp

lemma io_bind:
  "still e0 e \<Longrightarrow> (\<And>err e' t'. still e0 e' \<Longrightarrow> post Q (f (err, e', t'))) \<Longrightarrow> post Q (io c e t \<bind> f)"
  unfolding io_def by (auto intro!: post_rules simp: bind_assoc)

lemma io_if_bind:
  "still e0 e \<Longrightarrow> (\<And>err e' t'. still e0 e' \<Longrightarrow> post Q (f (err, e', t'))) \<Longrightarrow>
   post Q ((if err = 0 then io c e t else Some (err, e, t)) \<bind> f)"
  using io_bind [of e0 e Q f c t] by simp

lemmas skip_binds = post_any_bind [where m = "rd t" for t] post_any_bind [where m = "rd_bytes n t" for n t]
  post_any_bind [where m = "rd_mac45 t" for t] post_any_bind [where m = "load_device_name tg n e t" for tg n e t]
  post_any_bind [where m = "adc_samples n s t" for n s t] post_any_bind [where m = "spi_transfer_once tg c m k l x n r s t" for tg c m k l x n r s t]
  post_any_bind [where m = "transport_session_active_source s t" for s t] post_any_bind [where m = "transport_session_connect src s t" for src s t]
  post_any_bind [where m = "transport_session_disconnect src s t" for src s t] post_any_bind [where m = "transport_session_heartbeat src s t" for src s t]

text \<open>The Wi-Fi configuration calls send no frame.\<close>

lemma nvs_put_sent: "post (\<lambda>(err', w', t'). ws_sent w' = ws_sent w) (nvs_put k v err w t)"
  unfolding nvs_put_def by (auto intro!: post_rules)

lemma save_config_sent: "post (\<lambda>(err', w', t'). ws_sent w' = ws_sent w) (save_config c w t)"
  unfolding save_config_def by (auto intro!: post_rules post_mono [OF nvs_put_sent])

lemma netif_setup_sent: "post (\<lambda>(w', t'). ws_sent w' = ws_sent w) (netif_setup w t)"
  unfolding netif_setup_def ESP_ERROR_CHECK_def ESP_ERROR_CHECK_unless_def by (auto intro!: post_rules)

lemma start_station_sent: "post (\<lambda>(w', t'). ws_sent w' = ws_sent w) (start_station w t)"
  unfolding start_station_def ESP_ERROR_CHECK_def ESP_ERROR_CHECK_unless_def Let_def
  by (auto intro!: post_rules post_mono [OF netif_setup_sent] simp: stop_server_def reset_station_def clear_active_session_state_def)

lemma provision_sent: "post (\<lambda>(err, w', t'). ws_sent w' = ws_sent w) (wifi_transport_provision name pass w t)"
  unfolding wifi_transport_provision_def Let_def
  by (auto intro!: post_if post_bind post_any_bind [where m = "default_hostname n t" for n t] post_mono [OF save_config_sent] post_mono [OF start_station_sent])

lemma clear_sent: "post (\<lambda>(err, w', t'). ws_sent w' = ws_sent w) (wifi_transport_clear_config w t)"
  unfolding wifi_transport_clear_config_def Let_def
  by (auto intro!: post_rules simp: stop_server_def reset_station_def clear_active_session_state_def split: if_splits)

text \<open>Starting and stopping the sampler and the playback leaves what is on the wire alone.\<close>

lemma wire_simps [simp]:
  "usb_wire (usb_set_buffer_type bt u) = usb_wire u" "usb_wire (usb_init_rx_buffer u) = usb_wire u"
  "usb_wire (usb_free_rx_buffer u) = usb_wire u" "usb_wire (usb_flush_rx_buffer u) = usb_wire u"
  by (simp_all add: usb_wire_def usb_set_buffer_type_def usb_init_rx_buffer_def usb_free_rx_buffer_def usb_flush_rx_buffer_def)

lemmas run_defs = set_buf_def gpio_claim_def reset_sampler_state_def reset_transmission_state_def transmit_unwind_def transmit_pwm_stop_def

lemma sampler_start_wire: "post (\<lambda>(m, r', t'). usb_wire (eu r') = usb_wire (eu r)) (sampler_start_impl pin tick r t)"
  unfolding sampler_start_impl_def Let_def by (auto intro!: post_rules simp: run_defs)

lemma sampler_stop_wire: "usb_wire (eu (sampler_stop_impl r)) = usb_wire (eu r)"
  by (simp add: sampler_stop_impl_def run_defs Let_def)

lemma pwm_configure_wire: "post (\<lambda>(m, r', t'). usb_wire (eu r') = usb_wire (eu r)) (transmit_pwm_configure freq duty r t)"
  unfolding transmit_pwm_configure_def Let_def by (auto intro!: post_rules)

lemma transmit_start_wire: "post (\<lambda>(m, r', t'). usb_wire (eu r') = usb_wire (eu r)) (transmit_start_impl pin pwm freq duty tick r t)"
  unfolding transmit_start_impl_def Let_def
  by (auto intro!: post_rules post_mono [OF pwm_configure_wire] simp: run_defs)

lemma transmit_stop_wire: "usb_wire (eu (transmit_stop_impl r)) = usb_wire (eu r)"
  by (simp add: transmit_stop_impl_def run_defs Let_def)

section \<open>The opcodes\<close>

abbreviation answers_to :: "esp \<Rightarrow> (esp \<times> trace) option \<Rightarrow> bool" where
  "answers_to \<equiv> esp_link.replies"

lemma identity_answers:
  "answers_to e (handle_hardware_uid_get e t)" "answers_to e (esp_name_get tg e t)" "answers_to e (esp_name_set data e t)"
  unfolding handle_hardware_uid_get_def esp_name_get_def esp_name_set_def Let_def
  by (auto intro!: post_if skip_binds send_posts)

lemma provision_bind:
  "still e0 e \<Longrightarrow> (\<And>err w t'. ws_sent w = ws_sent (ewifi e) \<Longrightarrow> post Q (f (err, w, t'))) \<Longrightarrow>
   post Q (wifi_transport_provision name pass (ewifi e) t \<bind> f)"
  by (rule post_bind, rule post_mono [OF provision_sent]) auto

lemma clear_bind:
  "still e0 e \<Longrightarrow> (\<And>err w t'. ws_sent w = ws_sent (ewifi e) \<Longrightarrow> post Q (f (err, w, t'))) \<Longrightarrow>
   post Q (wifi_transport_clear_config (ewifi e) t \<bind> f)"
  by (rule post_bind, rule post_mono [OF clear_sent]) auto

lemma wifi_config_answers: "answers_to e (handle_wifi_config_opcode data e t)"
  unfolding handle_wifi_config_opcode_def Let_def
  by (auto intro!: post_if post_option send_posts provision_bind [where e = e, OF still_refl] clear_bind [where e = e, OF still_refl] still_wifi split del: if_split)

lemma session_answers: "answers_to e (handle_transport_session_opcode data src e t)"
  unfolding handle_transport_session_opcode_def Let_def
  by (auto intro!: post_if skip_binds send_posts)

lemma gpio_answers: "answers_to e (handle_gpio_opcode data e t)"
  unfolding handle_gpio_opcode_def Let_def
  by (intro post_option post_if; auto intro!: post_if skip_binds send_posts io_bind [of e] io_if_bind [of e] split del: if_split)

lemma adc_answers: "answers_to e (handle_adc_opcode data e t)"
  unfolding handle_adc_opcode_def Let_def
  by (auto intro!: post_if post_option skip_binds send_posts)

lemma spi_answers: "answers_to e (handle_spi_opcode tg data e t)"
  unfolding handle_spi_opcode_def Let_def
  by (auto intro!: post_if post_option skip_binds send_posts)

lemma sample_answers: "answers_to e (handle_sample_opcode data e t)"
  unfolding handle_sample_opcode_def Let_def sampler_start_sampling_def sampler_stop_sampling_def
  by (auto intro!: post_if post_option post_bind post_mono [OF sampler_start_wire] send_posts still_rtm
      simp: sampler_stop_wire)

lemma transmit_answers: "answers_to e (handle_transmit_opcode data e t)"
  unfolding handle_transmit_opcode_def Let_def sampler_start_transmission_def sampler_stop_transmission_def
  by (auto intro!: post_if post_option post_bind post_mono [OF transmit_start_wire] send_posts still_rtm
      simp: transmit_stop_wire)

lemma pwm_output_still: "still e0 e \<Longrightarrow> post (\<lambda>(ok, e', t'). still e0 e') (pwm_apply_output gpio duty hz e t)"
  unfolding pwm_apply_output_def Let_def
  by (auto intro!: post_if skip_binds io_bind)

lemma pwm_output_bind:
  "still e0 e \<Longrightarrow> (\<And>ok e' t'. still e0 e' \<Longrightarrow> post Q (f (ok, e', t'))) \<Longrightarrow> post Q (pwm_apply_output gpio duty hz e t \<bind> f)"
  by (rule post_bind, rule post_mono [OF pwm_output_still]) auto

lemma pwm_answers: "answers_to e (esp_pwm_opcode data e t)"
  unfolding esp_pwm_opcode_def Let_def
  by (auto intro!: post_if post_option pwm_output_bind [of e] send_posts io_bind [of e] still_if split del: if_split)

lemmas handler_answers = identity_answers wifi_config_answers session_answers gpio_answers adc_answers spi_answers
  sample_answers transmit_answers pwm_answers

end
