(* ===== verification/Esp_Text.thy ===== *)
theory Esp_Text
  imports Esp_Answer
begin

text \<open>
  The text commands of the ESP32 firmware: the handlers of \<open>gpio_commands.c\<close>, \<open>sampler.c\<close>,
  \<open>wifi_transport.c\<close>, \<open>transport_debug.c\<close>, \<open>init.c\<close> and \<open>main.c\<close>, the call of a handler with its
  converted arguments, and the two forms of reply, which only Bluetooth carries. The value of a handler
  is its reply; those of the sampler have none.
\<close>

section \<open>Pins\<close>

definition gpio_validate_pin :: "int \<Rightarrow> int option" where
  "gpio_validate_pin pin = (if pin < 0 \<or> pin > 48 then None else Some pin)"

definition gpio_in_command :: "int \<Rightarrow> esp \<Rightarrow> reply \<times> esp" where
  "gpio_in_command pin e = (case gpio_validate_pin pin of
     None \<Rightarrow> (CmdErr ''gpio in: pin'', e)
   | Some gpio \<Rightarrow> (CmdOk [], note_io (GpioDirection gpio False) (note_io (GpioReset gpio) e)))"

definition gpio_out_command :: "int \<Rightarrow> esp \<Rightarrow> reply \<times> esp" where
  "gpio_out_command pin e = (case gpio_validate_pin pin of
     None \<Rightarrow> (CmdErr ''gpio out: pin'', e)
   | Some gpio \<Rightarrow> (CmdOk [], note_io (GpioDirection gpio True) (note_io (GpioReset gpio) e)))"

definition gpio_pull_command :: "int \<Rightarrow> int \<Rightarrow> esp \<Rightarrow> trace \<Rightarrow> (reply \<times> esp \<times> trace) option" where
  "gpio_pull_command pin pull e t = (case gpio_validate_pin pin of
     None \<Rightarrow> Some (CmdErr ''gpio pull: pin'', e, t)
   | Some gpio \<Rightarrow>
       if pull \<noteq> 0 \<and> pull \<noteq> 1 \<and> pull \<noteq> 2 then Some (CmdErr ''gpio pull: mode'', e, t)
       else do {
         (ret, e, t) \<leftarrow> io (GpioPull gpio (word_of_int pull)) e t;
         Some (if ret \<noteq> 0 then CmdErr ''gpio pull: fail'' else CmdOk [], e, t) })"

definition gpio_high_command :: "int \<Rightarrow> esp \<Rightarrow> reply \<times> esp" where
  "gpio_high_command pin e = (case gpio_validate_pin pin of
     None \<Rightarrow> (CmdErr ''gpio high: pin'', e)
   | Some gpio \<Rightarrow> (CmdOk [1], note_io (GpioLevel gpio True) (note_io (GpioDirection gpio True) e)))"

definition gpio_low_command :: "int \<Rightarrow> esp \<Rightarrow> reply \<times> esp" where
  "gpio_low_command pin e = (case gpio_validate_pin pin of
     None \<Rightarrow> (CmdErr ''gpio low: pin'', e)
   | Some gpio \<Rightarrow> (CmdOk [0], note_io (GpioLevel gpio False) (note_io (GpioDirection gpio True) e)))"

definition gpio_read_command :: "int \<Rightarrow> esp \<Rightarrow> trace \<Rightarrow> (reply \<times> esp \<times> trace) option" where
  "gpio_read_command pin e t = (case gpio_validate_pin pin of
     None \<Rightarrow> Some (CmdErr ''gpio read: pin'', e, t)
   | Some gpio \<Rightarrow> do {
       (level, t) \<leftarrow> rd t;
       if sint level < 0 then Some (CmdErr ''gpio read: fail'', e, t)
       else Some (CmdOk [if level \<noteq> 0 then 1 else 0], e, t) })"

section \<open>Sampler and playback\<close>

text \<open>Failures are only logged, with the tick of 10 microseconds.\<close>

definition sampler_start_command :: "int \<Rightarrow> esp \<Rightarrow> trace \<Rightarrow> (esp \<times> trace) option" where
  "sampler_start_command pin e t = do {
     (_, r, t) \<leftarrow> sampler_start_impl pin 10 (rtm e) t;
     Some (e\<lparr>rtm := r\<rparr>, t) }"

definition sampler_stop_command :: "esp \<Rightarrow> esp" where
  "sampler_stop_command e = e\<lparr>rtm := sampler_stop_impl (rtm e)\<rparr>"

definition transmit_start_command :: "int \<Rightarrow> bool \<Rightarrow> int \<Rightarrow> int \<Rightarrow> esp \<Rightarrow> trace \<Rightarrow> (esp \<times> trace) option" where
  "transmit_start_command pin pwm freq_hz duty_percent e t = do {
     (_, r, t) \<leftarrow> transmit_start_impl pin pwm freq_hz duty_percent 10 (rtm e) t;
     Some (e\<lparr>rtm := r\<rparr>, t) }"

definition transmit_stop_command :: "esp \<Rightarrow> esp" where
  "transmit_stop_command e = e\<lparr>rtm := transmit_stop_impl (rtm e)\<rparr>"

section \<open>Status, Wi-Fi and the transport log\<close>

definition version_command :: reply where
  "version_command = text_reply (''Welcome to EMWaver firmware'' @ '' '' @ EMWAVER_FIRMWARE_VERSION_STRING)"

definition ble_status_command :: reply where
  "ble_status_command = text_reply ''off''"

definition stop_command :: "esp \<Rightarrow> reply \<times> esp" where
  "stop_command e = (CmdOk [], e\<lparr>rtm := sampler_stop_all (rtm e)\<rparr>)"

definition debug_transport_command :: "string \<Rightarrow> esp \<Rightarrow> reply \<times> esp" where
  "debug_transport_command mode e =
     (if mode = ''on'' \<or> mode = ''1'' \<or> mode = ''true'' then
        (text_reply ''transport debug on'', e\<lparr>transport_debug_enabled := True\<rparr>)
      else if mode = ''off'' \<or> mode = ''0'' \<or> mode = ''false'' then
        (text_reply ''transport debug off'', e\<lparr>transport_debug_enabled := False\<rparr>)
      else if mode = ''status'' then
        (text_reply (if transport_debug_enabled e then ''transport debug on'' else ''transport debug off''), e)
      else (CmdErr ''debug mode'', e))"

definition wifi_provision_command :: "string \<Rightarrow> string \<Rightarrow> esp \<Rightarrow> trace \<Rightarrow> (reply \<times> esp \<times> trace) option" where
  "wifi_provision_command name pass e t = do {
     (err, w, t) \<leftarrow> wifi_transport_provision name pass (ewifi e) t;
     Some (if err \<noteq> WIFI_OK then CmdErr ''wifi nvs'' else text_reply ''wifi provisioned'', e\<lparr>ewifi := w\<rparr>, t) }"

definition wifi_clear_command :: "esp \<Rightarrow> trace \<Rightarrow> (reply \<times> esp \<times> trace) option" where
  "wifi_clear_command e t = do {
     (err, w, t) \<leftarrow> wifi_transport_clear_config (ewifi e) t;
     Some (if err \<noteq> WIFI_OK then CmdErr ''wifi clear'' else text_reply ''wifi cleared'', e\<lparr>ewifi := w\<rparr>, t) }"

definition wifi_status_command :: "esp \<Rightarrow> reply" where
  "wifi_status_command e =
     (let w = ewifi e; ip = (if s_station_ip w \<noteq> [] then s_station_ip w else ''none'');
          runtime_running = (sampling_active (rtm e) \<or> transmission_active (rtm e))
      in text_reply (take 159 (''wifi:'' @ (if s_has_config w then ''provisioned'' else ''unprovisioned'') @ '':'' @
           (if s_station_online w then ''online'' else ''offline'') @ '':'' @
           (if s_session_connected w then ''connected'' else ''idle'') @ '':'' @
           (if s_reconnect_pending w then ''reconnecting'' else ''stable'') @ '':runtime='' @
           (if runtime_running then ''running'' else ''idle'') @ '':host='' @
           (if hostname (s_config w) \<noteq> [] then hostname (s_config w) else ''none'') @ '':ip='' @ ip @ '':reason='' @
           decimal (unat (s_last_disconnect_reason w)))))"

text \<open>
  The probe of \<open>main.c\<close>. Its device has no chip select of its own: the log has -1 for it, and the pin is
  driven by the two calls around the transfer.
\<close>

definition rfm69_quick_command :: "target \<Rightarrow> esp \<Rightarrow> trace \<Rightarrow> (reply \<times> esp \<times> trace) option" where
  "rfm69_quick_command tg e t = do {
     let cs = EMW_TARGET_SPI_DEFAULT_CS tg;
     (err, e, t) \<leftarrow>
       (if quick_initialized e then Some (None, e, t)
        else do {
          (ret, t) \<leftarrow> rd t;
          if ret \<noteq> 0 \<and> ret \<noteq> 0x103 then Some (Some ''rfm69: bus'', e, t)
          else do {
            (ret, t) \<leftarrow> rd t;
            if ret \<noteq> 0 then Some (Some ''rfm69: add'', e, t)
            else Some (None, (note_io (GpioLevel cs False) (note_io (GpioDirection cs True) (note_io (GpioReset cs) e)))\<lparr>quick_initialized := True\<rparr>, t) } });
     case err of
       Some msg \<Rightarrow> Some (CmdErr msg, e, t)
     | None \<Rightarrow> do {
         let e = note_io (GpioLevel cs True) e;
         let b = bus (eradio e);
         let e = e\<lparr>eradio := (eradio e)\<lparr>bus := b\<lparr>spi_log := spi_log b @
           [\<lparr>x_cs = -1, x_mode = 0, x_clock = 8000000, x_lsb_first = False, x_tx = [0x10, 0]\<rparr>]\<rparr>\<rparr>\<rparr>;
         (ret, t) \<leftarrow> rd t;
         (rx, t) \<leftarrow> rd_bytes 2 t;
         let e = note_io (GpioLevel cs False) e;
         Some (if ret \<noteq> 0 then CmdErr ''rfm69: xfer'' else CmdOk [rx ! 1], e, t) } }"

section \<open>Calling a handler\<close>

text \<open>The member of the union that an argument of the given type is read from.\<close>

definition int_arg :: "arg_value list \<Rightarrow> nat \<Rightarrow> int" where
  "int_arg args i = (case args ! i of IntV v \<Rightarrow> v | _ \<Rightarrow> 0)"

definition bool_arg :: "arg_value list \<Rightarrow> nat \<Rightarrow> bool" where
  "bool_arg args i = (case args ! i of BoolV b \<Rightarrow> b | _ \<Rightarrow> False)"

definition str_arg :: "arg_value list \<Rightarrow> nat \<Rightarrow> string" where
  "str_arg args i = (case args ! i of StrV s \<Rightarrow> s | _ \<Rightarrow> [])"

definition hex_arg :: "arg_value list \<Rightarrow> nat \<Rightarrow> u8 list option" where
  "hex_arg args i = (case args ! i of HexV h \<Rightarrow> h | _ \<Rightarrow> None)"

type_synonym called = "(reply option \<times> esp \<times> trace) option"

definition says :: "reply \<times> esp \<Rightarrow> trace \<Rightarrow> called" where
  "says p t = Some (Some (fst p), snd p, t)"

definition replied :: "(reply \<times> esp \<times> trace) option \<Rightarrow> called" where
  "replied m = do { (rep, e, t) \<leftarrow> m; Some (Some rep, e, t) }"

definition silent :: "(esp \<times> trace) option \<Rightarrow> called" where
  "silent m = do { (e, t) \<leftarrow> m; Some (None, e, t) }"

definition on_radio :: "(radio \<Rightarrow> trace \<Rightarrow> (reply \<times> radio \<times> trace) option) \<Rightarrow> esp \<Rightarrow> trace \<Rightarrow> called" where
  "on_radio f e t = do { (rep, r, t) \<leftarrow> f (eradio e) t; Some (Some rep, e\<lparr>eradio := r\<rparr>, t) }"

definition on_bus :: "reply \<times> spi_st \<Rightarrow> esp \<Rightarrow> trace \<Rightarrow> called" where
  "on_bus p e t = Some (Some (fst p), e\<lparr>eradio := (eradio e)\<lparr>bus := snd p\<rparr>\<rparr>, t)"

definition call_gpio :: "string \<Rightarrow> arg_value list \<Rightarrow> esp \<Rightarrow> trace \<Rightarrow> called" where
  "call_gpio h a e t =
     (if h = ''gpio_in_command'' then says (gpio_in_command (int_arg a 0) e) t
      else if h = ''gpio_out_command'' then says (gpio_out_command (int_arg a 0) e) t
      else if h = ''gpio_pull_command'' then replied (gpio_pull_command (int_arg a 0) (int_arg a 1) e t)
      else if h = ''gpio_high_command'' then says (gpio_high_command (int_arg a 0) e) t
      else if h = ''gpio_low_command'' then says (gpio_low_command (int_arg a 0) e) t
      else replied (gpio_read_command (int_arg a 0) e t))"

definition call_spi :: "target \<Rightarrow> string \<Rightarrow> arg_value list \<Rightarrow> esp \<Rightarrow> trace \<Rightarrow> called" where
  "call_spi tg h a e t =
     (if h = ''spi_open_command'' then on_bus (spi_open_command (str_arg a 0) (int_arg a 1) (bus (eradio e))) e t
      else if h = ''spi_close_command'' then on_bus (spi_close_command (str_arg a 0) (bus (eradio e))) e t
      else do {
        (rep, s, t) \<leftarrow> spi_transfer_command tg (str_arg a 0) (hex_arg a 1) (int_arg a 2) (int_arg a 3) (int_arg a 4)
          (int_arg a 5) (bool_arg a 6) (bus (eradio e)) t;
        on_bus (rep, s) e t })"

definition call_sampler :: "string \<Rightarrow> arg_value list \<Rightarrow> esp \<Rightarrow> trace \<Rightarrow> called" where
  "call_sampler h a e t =
     (if h = ''sampler_start_command'' then silent (sampler_start_command (int_arg a 0) e t)
      else if h = ''sampler_stop_command'' then silent (Some (sampler_stop_command e, t))
      else if h = ''transmit_start_command''
      then silent (transmit_start_command (int_arg a 0) (bool_arg a 1) (int_arg a 2) (int_arg a 3) e t)
      else silent (Some (transmit_stop_command e, t)))"

definition call_core :: "string \<Rightarrow> arg_value list \<Rightarrow> esp \<Rightarrow> trace \<Rightarrow> called" where
  "call_core h a e t =
     (if h = ''version_command'' then says (version_command, e) t
      else if h = ''ble_status_command'' then says (ble_status_command, e) t
      else if h = ''stop_command'' then says (stop_command e) t
      else if h = ''debug_transport_command'' then says (debug_transport_command (str_arg a 0) e) t
      else if h = ''wifi_provision_command'' then replied (wifi_provision_command (str_arg a 0) (str_arg a 1) e t)
      else if h = ''wifi_clear_command'' then replied (wifi_clear_command e t)
      else says (wifi_status_command e, e) t)"

definition call_rfm69 :: "string \<Rightarrow> arg_value list \<Rightarrow> radio \<Rightarrow> trace \<Rightarrow> (reply \<times> radio \<times> trace) option" where
  "call_rfm69 h a =
     (if h = ''rfm69_cmd_init'' then rfm69_cmd_init (int_arg a 0) (int_arg a 1) (int_arg a 2) (int_arg a 3)
      else if h = ''rfm69_cmd_apply_defaults'' then rfm69_cmd_apply_defaults
      else if h = ''rfm69_cmd_write_reg'' then rfm69_cmd_write_reg (int_arg a 0) (int_arg a 1)
      else if h = ''rfm69_cmd_read_reg'' then rfm69_cmd_read_reg (int_arg a 0)
      else if h = ''rfm69_cmd_set_mode'' then rfm69_cmd_set_mode (str_arg a 0)
      else if h = ''rfm69_cmd_set_freq'' then rfm69_cmd_set_freq (str_arg a 0)
      else if h = ''rfm69_cmd_get_freq'' then rfm69_cmd_get_freq
      else if h = ''rfm69_cmd_set_bitrate'' then rfm69_cmd_set_bitrate (int_arg a 0)
      else if h = ''rfm69_cmd_get_bitrate'' then rfm69_cmd_get_bitrate
      else if h = ''rfm69_cmd_set_dev'' then rfm69_cmd_set_dev (int_arg a 0)
      else if h = ''rfm69_cmd_get_dev'' then rfm69_cmd_get_dev
      else if h = ''rfm69_cmd_set_power'' then rfm69_cmd_set_power (int_arg a 0) (int_arg a 1) (bool_arg a 2)
      else if h = ''rfm69_cmd_get_power'' then rfm69_cmd_get_power
      else if h = ''rfm69_cmd_set_bw'' then rfm69_cmd_set_bw (int_arg a 0)
      else if h = ''rfm69_cmd_get_bw'' then rfm69_cmd_get_bw
      else if h = ''rfm69_cmd_set_bw_khz'' then rfm69_cmd_set_bw_khz (str_arg a 0)
      else if h = ''rfm69_cmd_get_bw_khz'' then rfm69_cmd_get_bw_khz
      else if h = ''rfm69_cmd_set_mod'' then rfm69_cmd_set_mod (str_arg a 0)
      else if h = ''rfm69_cmd_get_mod'' then rfm69_cmd_get_mod
      else if h = ''rfm69_cmd_thresh_fixed'' then rfm69_cmd_thresh_fixed (bool_arg a 0)
      else if h = ''rfm69_cmd_set_lna_gain'' then rfm69_cmd_set_lna_gain (int_arg a 0)
      else if h = ''rfm69_cmd_set_rssi_threshold'' then rfm69_cmd_set_rssi_threshold (int_arg a 0)
      else if h = ''rfm69_cmd_set_fixed_threshold'' then rfm69_cmd_set_fixed_threshold (int_arg a 0)
      else if h = ''rfm69_cmd_set_sensitivity_boost'' then rfm69_cmd_set_sensitivity_boost (bool_arg a 0)
      else rfm69_cmd_read_rssi (bool_arg a 0))"

definition call_cc1101 :: "target \<Rightarrow> string \<Rightarrow> arg_value list \<Rightarrow> radio \<Rightarrow> trace \<Rightarrow> (reply \<times> radio \<times> trace) option" where
  "call_cc1101 tg h a =
     (if h = ''cc1101_cmd_init''
      then (\<lambda>r t. Some (cc1101_cmd_init (int_arg a 0) (int_arg a 1) (int_arg a 2) (int_arg a 3), r, t))
      else if h = ''cc1101_cmd_write_reg'' then cc1101_cmd_write_reg tg (int_arg a 0) (int_arg a 1)
      else if h = ''cc1101_cmd_read_reg'' then cc1101_cmd_read_reg tg (int_arg a 0)
      else if h = ''cc1101_cmd_strobe'' then cc1101_cmd_strobe tg (int_arg a 0)
      else if h = ''cc1101_cmd_read_burst'' then cc1101_cmd_read_burst tg (int_arg a 0) (int_arg a 1)
      else if h = ''cc1101_cmd_write_burst'' then cc1101_cmd_write_burst tg (int_arg a 0) (hex_arg a 1)
      else if h = ''cc1101_cmd_apply_defaults'' then cc1101_cmd_apply_defaults tg
      else if h = ''cc1101_cmd_set_freq'' then cc1101_cmd_set_freq tg (str_arg a 0)
      else if h = ''cc1101_cmd_get_freq'' then cc1101_cmd_get_freq tg
      else if h = ''cc1101_cmd_set_datarate'' then cc1101_cmd_set_datarate tg (int_arg a 0)
      else if h = ''cc1101_cmd_get_datarate'' then cc1101_cmd_get_datarate tg
      else if h = ''cc1101_cmd_set_mod'' then cc1101_cmd_set_mod tg (str_arg a 0)
      else if h = ''cc1101_cmd_get_mod'' then cc1101_cmd_get_mod tg
      else if h = ''cc1101_cmd_set_mod_power'' then cc1101_cmd_set_mod_power tg (int_arg a 0) (int_arg a 1)
      else cc1101_cmd_set_gdo tg (hex_arg a 0))"

text \<open>The handler registered under a name, called with the arguments of its prototype in \<open>Esp_Catalogue\<close>.\<close>

definition call_handler :: "target \<Rightarrow> string \<Rightarrow> arg_value list \<Rightarrow> esp \<Rightarrow> trace \<Rightarrow> called" where
  "call_handler tg h a e t =
     (if h \<in> fst ` set spi_prototypes then call_spi tg h a e t
      else if h \<in> fst ` set rfm69_prototypes then on_radio (call_rfm69 h a) e t
      else if h \<in> fst ` set cc1101_prototypes then on_radio (call_cc1101 tg h a) e t
      else if h \<in> fst ` set gpio_prototypes then call_gpio h a e t
      else if h \<in> fst ` set sampler_prototypes then call_sampler h a e t
      else if h \<in> fst ` set quick_prototypes then replied (rfm69_quick_command tg e t)
      else call_core h a e t)"

section \<open>Replies\<close>

definition esp_send_ok :: "u8 list \<Rightarrow> esp \<Rightarrow> trace \<Rightarrow> (esp \<times> trace) option" where
  "esp_send_ok data e t = do {
     (_, b, t) \<leftarrow> ble_server_notify (if data \<noteq> [] then data else [0x00]) (eble e) t;
     Some (e\<lparr>eble := b\<rparr>, t) }"

text \<open>The message is only logged.\<close>

definition esp_send_err :: "string \<Rightarrow> esp \<Rightarrow> trace \<Rightarrow> (esp \<times> trace) option" where
  "esp_send_err msg e t = do {
     (_, b, t) \<leftarrow> ble_server_notify [0xFF] (eble e) t;
     Some (e\<lparr>eble := b\<rparr>, t) }"

fun send_reply :: "reply option \<Rightarrow> esp \<Rightarrow> trace \<Rightarrow> (esp \<times> trace) option" where
  "send_reply None e t = Some (e, t)"
| "send_reply (Some (CmdOk data)) e t = esp_send_ok data e t"
| "send_reply (Some (CmdErr msg)) e t = esp_send_err msg e t"

end
