(* ===== verification/Esp_Ota.thy ===== *)
theory Esp_Ota
  imports Emw_Prelude
begin

text \<open>
  The update session of the ESP32 (\<open>src/esp/main/libraries/ota_core.c\<close>). The digest of mbedTLS is a
  parameter \<open>sha\<close>, a function of all bytes fed to the context; what \<open>esp_ota_ops\<close> and mbedTLS return
  is read from the trace. Fields without a counterpart in the code record what reached the update
  partition since it was opened (\<open>image\<close>), whether a digest update failed since then
  (\<open>hash_failed\<close>), and what was selected for the next boot, with the size and the digest
  announced for it (\<open>boot\<close>).
\<close>

section \<open>The session\<close>

datatype ota_err = OTA_OK | OTA_FAIL | OTA_INVALID_STATE | OTA_INVALID_ARG | OTA_NOT_FOUND | OTA_INVALID_SIZE | OTA_INVALID_CRC
  | OTA_ERR u32

record ota =
  o_active :: bool
  total_size :: u32
  received :: u32
  expected_sha256 :: "u8 list"
  sha256 :: "u8 list"
  sha256_active :: bool
  image :: "u8 list"
  hash_failed :: bool
  boot :: "(u8 list \<times> u32 \<times> u8 list \<times> bool) option"

definition ota_core_init :: "ota \<Rightarrow> ota" where
  "ota_core_init g = g\<lparr>o_active := False, total_size := 0, received := 0, expected_sha256 := zeros 32, sha256 := [],
     sha256_active := False\<rparr>"

definition ota_core_is_active :: "ota \<Rightarrow> bool" where
  "ota_core_is_active g = o_active g"

definition ota_core_total_size :: "ota \<Rightarrow> u32" where
  "ota_core_total_size g = total_size g"

definition ota_core_received_size :: "ota \<Rightarrow> u32" where
  "ota_core_received_size g = received g"

definition ota_core_abort :: "ota \<Rightarrow> ota" where
  "ota_core_abort g = ota_core_init (if o_active g then g\<lparr>image := []\<rparr> else g)"

definition ota_core_start :: "u32 \<Rightarrow> u8 list \<Rightarrow> ota \<Rightarrow> trace \<Rightarrow> (ota_err \<times> ota \<times> trace) option" where
  "ota_core_start tot expected g t =
     (if o_active g then Some (OTA_INVALID_STATE, g, t)
      else if tot = 0 then Some (OTA_INVALID_ARG, g, t)
      else do {
        (partition, t) \<leftarrow> rd t;
        if partition = 0 then Some (OTA_NOT_FOUND, g, t)
        else do {
          (err, t) \<leftarrow> rd t;
          if err \<noteq> 0 then Some (OTA_ERR err, g, t)
          else do {
            let g = ota_core_init (g\<lparr>image := [], hash_failed := False\<rparr>);
            let g = g\<lparr>o_active := True, total_size := tot, received := 0, expected_sha256 := expected\<rparr>;
            (st, t) \<leftarrow> rd t;
            if st \<noteq> 0 then Some (OTA_FAIL, ota_core_abort g, t)
            else Some (OTA_OK, g\<lparr>sha256_active := True\<rparr>, t) } } })"

definition ota_core_write :: "u8 list \<Rightarrow> ota \<Rightarrow> trace \<Rightarrow> (ota_err \<times> ota \<times> trace) option" where
  "ota_core_write data g t =
     (if \<not> o_active g then Some (OTA_INVALID_STATE, g, t)
      else if length data = 0 then Some (OTA_OK, g, t)
      else if received g + of_nat (length data) > total_size g then Some (OTA_INVALID_SIZE, g, t)
      else do {
        (err, t) \<leftarrow> rd t;
        if err \<noteq> 0 then Some (OTA_ERR err, g, t)
        else do {
          let g = g\<lparr>image := image g @ data\<rparr>;
          (st, t) \<leftarrow> rd t;
          if st \<noteq> 0 then Some (OTA_FAIL, g\<lparr>hash_failed := True\<rparr>, t)
          else
            let g = g\<lparr>sha256 := sha256 g @ data\<rparr>
            in Some (OTA_OK, g\<lparr>received := received g + of_nat (length data)\<rparr>, t) } })"

definition ota_core_finish :: "(u8 list \<Rightarrow> u8 list) \<Rightarrow> ota \<Rightarrow> trace \<Rightarrow> (ota_err \<times> ota \<times> trace) option" where
  "ota_core_finish sha g t =
     (if \<not> o_active g then Some (OTA_INVALID_STATE, g, t)
      else if received g \<noteq> total_size g then Some (OTA_INVALID_SIZE, ota_core_abort g, t)
      else do {
        (st, t) \<leftarrow> rd t;
        if st \<noteq> 0 then Some (OTA_FAIL, ota_core_abort g, t)
        else do {
          let computed_sha = sha (sha256 g);
          let g = g\<lparr>sha256_active := False\<rparr>;
          if computed_sha \<noteq> expected_sha256 g then Some (OTA_INVALID_CRC, ota_core_abort g, t)
          else do {
            (err, t) \<leftarrow> rd t;
            if err \<noteq> 0 then Some (OTA_ERR err, ota_core_abort g, t)
            else do {
              (err, t) \<leftarrow> rd t;
              if err \<noteq> 0 then Some (OTA_ERR err, ota_core_abort g, t)
              else
                let g = g\<lparr>boot := Some (image g, total_size g, expected_sha256 g, hash_failed g)\<rparr>
                in Some (OTA_OK, g\<lparr>o_active := False\<rparr>, t) } } } })"

section \<open>Runs\<close>

text \<open>
  The transports call in any order. They write at most 64 KiB at a time, and an announced size
  leaves room for that below 4 GiB (\<open>esp_ota_begin\<close> refuses a size larger than the partition).
\<close>

inductive ota_run :: "(u8 list \<Rightarrow> u8 list) \<Rightarrow> ota \<Rightarrow> ota \<Rightarrow> bool" for sha g0 where
  init: "ota_run sha g0 (ota_core_init g0)"
| start: "ota_run sha g0 g \<Longrightarrow> unat tot + 65536 < 2 ^ 32 \<Longrightarrow> ota_core_start tot expected g t = Some (e, g', t') \<Longrightarrow> ota_run sha g0 g'"
| feed: "ota_run sha g0 g \<Longrightarrow> length data \<le> 65536 \<Longrightarrow> ota_core_write data g t = Some (e, g', t') \<Longrightarrow> ota_run sha g0 g'"
| finish: "ota_run sha g0 g \<Longrightarrow> ota_core_finish sha g t = Some (e, g', t') \<Longrightarrow> ota_run sha g0 g'"
| abort: "ota_run sha g0 g \<Longrightarrow> ota_run sha g0 (ota_core_abort g)"

definition session_inv :: "ota \<Rightarrow> bool" where
  "session_inv g \<longleftrightarrow> (o_active g \<longrightarrow> unat (total_size g) + 65536 < 2 ^ 32 \<and> unat (received g) = length (sha256 g) \<and>
     received g \<le> total_size g \<and> (\<not> hash_failed g \<longrightarrow> image g = sha256 g))"

definition boot_inv :: "(u8 list \<Rightarrow> u8 list) \<Rightarrow> ota \<Rightarrow> bool" where
  "boot_inv sha g \<longleftrightarrow> (\<forall>img n h failed. boot g = Some (img, n, h, failed) \<longrightarrow>
     (\<exists>data. length data = unat n \<and> sha data = h \<and> (\<not> failed \<longrightarrow> img = data)))"

lemma abort_fields [simp]: "boot (ota_core_abort g) = boot g" "o_active (ota_core_abort g) = False" "boot (ota_core_init g) = boot g"
  "o_active (ota_core_init g) = False" "sha256 (ota_core_init g) = []" "image (ota_core_init g) = image g"
  "hash_failed (ota_core_init g) = hash_failed g"
  by (simp_all add: ota_core_abort_def ota_core_init_def)

lemma start_inv:
  assumes "session_inv g" "boot_inv sha g" "unat tot + 65536 < 2 ^ 32" "ota_core_start tot expected g t = Some (e, g', t')"
  shows "session_inv g' \<and> boot_inv sha g'"
  using assms by (auto simp: ota_core_start_def Let_def bind_eq_Some_conv session_inv_def boot_inv_def split: if_splits)

lemma write_inv:
  assumes "session_inv g" "boot_inv sha g" "length data \<le> 65536" "ota_core_write data g t = Some (e, g', t')"
  shows "session_inv g' \<and> boot_inv sha g'"
proof (cases "o_active g")
  case False
  then show ?thesis using assms by (simp add: ota_core_write_def)
next
  case True
  have i: "unat (total_size g) + 65536 < 2 ^ 32" "unat (received g) = length (sha256 g)" "received g \<le> total_size g"
    using assms(1) True by (simp_all add: session_inv_def)
  have r: "unat (received g) + length data < 2 ^ 32" using i assms(3) by (simp add: word_le_nat_alt)
  have l: "unat (of_nat (length data) :: u32) = length data" using assms(3) by (simp add: unat_of_nat)
  have "unat (received g + of_nat (length data)) = unat (received g) + length data"
    using r l by (subst unat_add_lem [THEN iffD1]) simp_all
  then show ?thesis
    using assms i by (auto simp: ota_core_write_def Let_def bind_eq_Some_conv session_inv_def boot_inv_def not_less split: if_splits)
qed

lemma finish_cases:
  assumes "ota_core_finish sha g t = Some (e, g', t')"
  obtains "g' = g" | "\<not> o_active g'" "boot g' = boot g"
  | "o_active g" "received g = total_size g" "sha (sha256 g) = expected_sha256 g" "\<not> o_active g'"
    "boot g' = Some (image g, total_size g, expected_sha256 g, hash_failed g)"
  using assms by (auto simp: ota_core_finish_def Let_def bind_eq_Some_conv split: if_split_asm)

lemma finish_inv:
  assumes "session_inv g" "boot_inv sha g" "ota_core_finish sha g t = Some (e, g', t')"
  shows "session_inv g' \<and> boot_inv sha g'"
proof (rule finish_cases [OF assms(3)], goal_cases)
  case 3
  then have "length (sha256 g) = unat (total_size g)" "\<not> hash_failed g \<longrightarrow> image g = sha256 g"
    using assms(1) by (simp_all add: session_inv_def)
  then show ?case using 3 by (auto simp: session_inv_def boot_inv_def)
next
  case 1
  then show ?case using assms(1,2) by simp
next
  case 2
  then show ?case using assms(2) by (simp add: session_inv_def boot_inv_def)
qed

lemma ota_run_inv: "ota_run sha g0 g \<Longrightarrow> boot g0 = None \<Longrightarrow> session_inv g \<and> boot_inv sha g"
proof (induction rule: ota_run.induct)
  case init
  then show ?case by (simp add: session_inv_def boot_inv_def)
next
  case (abort g)
  then show ?case by (simp add: session_inv_def boot_inv_def)
next
  case (start g tot expected t e g' t')
  then show ?case using start_inv by metis
next
  case (feed g data t e g' t')
  then show ?case using write_inv by metis
next
  case (finish g t e g' t')
  then show ?case using finish_inv by metis
qed

section \<open>Properties\<close>

text \<open>C21: Whatever the order of the calls and wherever one of them fails, an image is only selected for
  the next boot after exactly the announced number of bytes with the announced digest has been
  accepted, and those bytes are the image, unless a digest update had failed in that session.\<close>

theorem ota_boot_is_verified:
  assumes "ota_run sha g0 g" "boot g0 = None" "boot g = Some (img, n, h, failed)"
  shows "\<exists>data. length data = unat n \<and> sha data = h \<and> (\<not> failed \<longrightarrow> img = data)"
  using ota_run_inv [OF assms(1,2)] assms(3) by (simp add: boot_inv_def)

definition ota_blank :: ota where
  "ota_blank = \<lparr>o_active = False, total_size = 0, received = 0, expected_sha256 = zeros 32, sha256 = [], sha256_active = False,
     image = [], hash_failed = False, boot = None\<rparr>"

text \<open>For the witness the digest is the first byte.\<close>

theorem ota_boot_is_verified_witness:
  "\<exists>g. ota_run (take 1) ota_blank g \<and> boot g = Some ([7, 8], 2, [7], False) \<and> take 1 [7, 8 :: u8] = [7]"
proof -
  let ?sha = "take 1 :: u8 list \<Rightarrow> u8 list"
  let ?g0 = "ota_core_init ota_blank"
  obtain g1 where s: "ota_core_start 2 [7] ?g0 [1, 0, 0] = Some (OTA_OK, g1, [])"
    and g1: "g1 = ?g0\<lparr>o_active := True, total_size := 2, expected_sha256 := [7], sha256_active := True\<rparr>"
    by (simp add: ota_core_start_def Let_def ota_core_init_def ota_blank_def)
  obtain g2 where w: "ota_core_write [7, 8] g1 [0, 0] = Some (OTA_OK, g2, [])"
    and g2: "g2 = g1\<lparr>image := [7, 8], sha256 := [7, 8], received := 2\<rparr>"
    by (simp add: ota_core_write_def Let_def g1 ota_core_init_def ota_blank_def)
  obtain g3 where f: "ota_core_finish ?sha g2 [0, 0, 0] = Some (OTA_OK, g3, [])"
    and g3: "boot g3 = Some ([7, 8], 2, [7], False)"
    by (simp add: ota_core_finish_def Let_def g2 g1 ota_core_init_def ota_blank_def)
  have "ota_run ?sha ota_blank g3"
    by (rule ota_run.finish [OF ota_run.feed [OF ota_run.start [OF ota_run.init _ s] _ w] f]) simp_all
  from ota_boot_is_verified [OF this _ g3] this g3 show ?thesis by (auto simp: ota_blank_def)
qed

end
