(* ===== verification/Esp_Gatt.thy ===== *)
theory Esp_Gatt
  imports Esp_Wifi Esp_Ota
begin

text \<open>
  The front ends of the update session and the Bluetooth connection events that drive one of them:
  the GATT service for updates (\<open>src/esp/main/libraries/ota_ble_gatt.c\<close>, \<open>ota_ble.c\<close>), its status
  notifications (\<open>ota_status.c\<close>), the soft access point with its HTTP upload (\<open>ota_wifi.c\<close>), and the
  start-up and connection events of \<open>ble_server.c\<close>. The digest is the parameter of \<open>Esp_Ota\<close>.
\<close>

section \<open>State\<close>

record gatt =
  gble :: ble
  gusb :: esp_usb
  gota :: ota
  gwifi :: wifi
  g_status_attr_handle :: u16
  g_ota_status_handle :: u16
  g_ble_session_active :: bool
  g_last_notified_received :: u32
  g_netif_inited :: bool
  g_ap_netif :: bool
  g_httpd :: bool
  g_running :: bool
  restart_created :: bool
  advertisements :: nat
  responses_http :: "(nat \<times> string) list"

section \<open>Status notifications\<close>

definition ota_status_init :: "gatt \<Rightarrow> gatt" where
  "ota_status_init g = g\<lparr>g_status_attr_handle := 0\<rparr>"

definition ota_status_set_attr_handle :: "u16 \<Rightarrow> gatt \<Rightarrow> gatt" where
  "ota_status_set_attr_handle attr_handle g = g\<lparr>g_status_attr_handle := attr_handle\<rparr>"

definition ota_status_notify :: "u8 \<Rightarrow> u8 \<Rightarrow> u32 \<Rightarrow> u32 \<Rightarrow> gatt \<Rightarrow> trace \<Rightarrow> (gatt \<times> trace) option" where
  "ota_status_notify status_code err_code rcvd tot g t =
     (if g_status_attr_handle g = 0 then Some (g, t)
      else do {
        let packet = [0x4F, 0x54, 0x41, 1, status_code] @ u32_bytes rcvd @ u32_bytes tot @ [err_code];
        (_, b, t) \<leftarrow> ble_server_notify_attr (g_status_attr_handle g) packet (gble g) t;
        Some (g\<lparr>gble := b\<rparr>, t) })"

section \<open>Updates over Bluetooth\<close>

definition ota_ble_init :: "gatt \<Rightarrow> gatt" where
  "ota_ble_init g = ota_status_init (g\<lparr>g_ble_session_active := False, g_last_notified_received := 0, gota := ota_core_init (gota g)\<rparr>)"

definition ota_ble_on_disconnect :: "gatt \<Rightarrow> trace \<Rightarrow> (gatt \<times> trace) option" where
  "ota_ble_on_disconnect g t =
     (if \<not> g_ble_session_active g then Some (g, t)
      else do {
        (g, t) \<leftarrow> ota_status_notify 0x15 0x01 (ota_core_received_size (gota g)) (ota_core_total_size (gota g)) g t;
        Some (g\<lparr>gota := ota_core_abort (gota g), g_ble_session_active := False\<rparr>, t) })"

text \<open>The results are \<open>true\<close> for 0.\<close>

definition ota_ble_start :: "u8 list \<Rightarrow> gatt \<Rightarrow> trace \<Rightarrow> (bool \<times> gatt \<times> trace) option" where
  "ota_ble_start data g t =
     (if length data < 1 + 4 + 32 then Some (False, g, t)
      else if ota_core_is_active (gota g) then Some (False, g, t)
      else
        let tot = emw_u32_le (drop 1 data) in
        if tot = 0 then Some (False, g, t)
        else do {
          (err, o', t) \<leftarrow> ota_core_start tot (take 32 (drop 5 data)) (gota g) t;
          let g = g\<lparr>gota := o'\<rparr>;
          if err \<noteq> OTA_OK then Some (False, g, t)
          else do {
            let g = g\<lparr>g_ble_session_active := True, g_last_notified_received := 0\<rparr>;
            (g, t) \<leftarrow> ota_status_notify 0x10 0x00 0 tot g t;
            Some (True, g, t) } })"

definition ota_ble_end :: "(u8 list \<Rightarrow> u8 list) \<Rightarrow> gatt \<Rightarrow> trace \<Rightarrow> (bool \<times> gatt \<times> trace) option" where
  "ota_ble_end sha g t =
     (if \<not> ota_core_is_active (gota g) then Some (False, g, t)
      else do {
        (g, t) \<leftarrow> ota_status_notify 0x12 0x00 (ota_core_received_size (gota g)) (ota_core_total_size (gota g)) g t;
        (err, o', t) \<leftarrow> ota_core_finish sha (gota g) t;
        let g = g\<lparr>gota := o'\<rparr>;
        if err \<noteq> OTA_OK then do {
          (g, t) \<leftarrow> ota_status_notify 0x14 0x05 (ota_core_received_size (gota g)) (ota_core_total_size (gota g)) g t;
          Some (False, g, t) }
        else do {
          (g, t) \<leftarrow> ota_status_notify 0x13 0x00 (ota_core_total_size (gota g)) (ota_core_total_size (gota g)) g t;
          Some (True, g\<lparr>g_ble_session_active := False, restart_created := True\<rparr>, t) } })"

section \<open>The access point and its upload\<close>

definition hex_nibble :: "char \<Rightarrow> u8 option" where
  "hex_nibble c =
     (let n = of_char c :: nat in
      if of_char CHR ''0'' \<le> n \<and> n \<le> of_char CHR ''9'' then Some (of_nat (n - of_char CHR ''0''))
      else if of_char CHR ''a'' \<le> n \<and> n \<le> of_char CHR ''f'' then Some (of_nat (10 + (n - of_char CHR ''a'')))
      else if of_char CHR ''A'' \<le> n \<and> n \<le> of_char CHR ''F'' then Some (of_nat (10 + (n - of_char CHR ''A'')))
      else None)"

fun sha_digits :: "nat \<Rightarrow> string \<Rightarrow> u8 list option" where
  "sha_digits 0 hex = Some []"
| "sha_digits (Suc n) hex = do {
     hi \<leftarrow> hex_nibble (hex ! 0);
     lo \<leftarrow> hex_nibble (hex ! 1);
     rest \<leftarrow> sha_digits n (drop 2 hex);
     Some ((push_bit 4 hi OR lo) # rest) }"

definition parse_sha256_hex :: "string \<Rightarrow> int \<Rightarrow> u8 list option" where
  "parse_sha256_hex hex hex_len = (if hex_len \<noteq> 64 then None else sha_digits 32 hex)"

definition send_simple_response :: "nat \<Rightarrow> string \<Rightarrow> gatt \<Rightarrow> gatt" where
  "send_simple_response status body g = g\<lparr>responses_http := responses_http g @ [(status, body)]\<rparr>"

definition nl :: string where
  "nl = [CHR 0x0A]"

text \<open>
  The receive loop: the trace has the number of bytes of each read, as a signed integer, and then
  the bytes. The result is \<open>true\<close> when all bytes were written; otherwise the response was sent.
\<close>

partial_function (option) ota_recv_loop :: "u32 \<Rightarrow> u32 \<Rightarrow> u32 \<Rightarrow> gatt \<Rightarrow> trace \<Rightarrow> (bool \<times> gatt \<times> trace) option" where
  "ota_recv_loop tot remaining last_notified g t =
     (if \<not> remaining > 0 then Some (True, g, t)
      else do {
        (n, t) \<leftarrow> rd t;
        if sint n \<le> 0 then do {
          (g, t) \<leftarrow> ota_status_notify 0x14 0x21 (ota_core_received_size (gota g)) tot g t;
          Some (False, send_simple_response 500 (''read failed'' @ nl) (g\<lparr>gota := ota_core_abort (gota g)\<rparr>), t) }
        else do {
          (buf, t) \<leftarrow> rd_bytes (unat n) t;
          (err, o', t) \<leftarrow> ota_core_write buf (gota g) t;
          let g = g\<lparr>gota := o'\<rparr>;
          if err \<noteq> OTA_OK then do {
            (g, t) \<leftarrow> ota_status_notify 0x14 0x22 (ota_core_received_size (gota g)) tot g t;
            Some (False, send_simple_response 500 (''write failed'' @ nl) (g\<lparr>gota := ota_core_abort (gota g)\<rparr>), t) }
          else do {
            let remaining = remaining - n;
            let rcvd = ota_core_received_size (gota g);
            if rcvd - last_notified \<ge> 4096 \<or> rcvd = tot then do {
              (g, t) \<leftarrow> ota_status_notify 0x11 0x00 rcvd tot g t;
              ota_recv_loop tot remaining rcvd g t }
            else ota_recv_loop tot remaining last_notified g t } } })"

text \<open>
  One upload: the announced length, and the value of the digest header with what the function
  that fetches it returned, as a signed integer, in the trace.
\<close>

definition ota_post_handler :: "(u8 list \<Rightarrow> u8 list) \<Rightarrow> nat \<Rightarrow> string \<Rightarrow> gatt \<Rightarrow> trace \<Rightarrow> (gatt \<times> trace) option" where
  "ota_post_handler sha content_len sha_hex g t =
     (if content_len = 0 then Some (send_simple_response 400 (''missing content'' @ nl) g, t)
      else if content_len > 2 ^ 32 - 1 then Some (send_simple_response 413 (''firmware too large'' @ nl) g, t)
      else if ota_core_is_active (gota g) then Some (send_simple_response 409 (''ota already in progress'' @ nl) g, t)
      else do {
        (hdr_len, t) \<leftarrow> rd t;
        if sint hdr_len \<le> 0 then Some (send_simple_response 400 (''missing X-Emwaver-Sha256 header'' @ nl) g, t)
        else case parse_sha256_hex sha_hex (sint hdr_len) of
          None \<Rightarrow> Some (send_simple_response 400 (''invalid X-Emwaver-Sha256 header'' @ nl) g, t)
        | Some expected_sha \<Rightarrow> do {
            let tot = of_nat content_len;
            (err, o', t) \<leftarrow> ota_core_start tot expected_sha (gota g) t;
            let g = g\<lparr>gota := o'\<rparr>;
            if err \<noteq> OTA_OK then do {
              (g, t) \<leftarrow> ota_status_notify 0x14 0x20 0 tot g t;
              Some (send_simple_response 500 (''ota start failed'' @ nl) g, t) }
            else do {
              (g, t) \<leftarrow> ota_status_notify 0x10 0x00 0 tot g t;
              (complete, g, t) \<leftarrow> ota_recv_loop tot tot 0 g t;
              if \<not> complete then Some (g, t)
              else do {
                (g, t) \<leftarrow> ota_status_notify 0x12 0x00 tot tot g t;
                (err, o', t) \<leftarrow> ota_core_finish sha (gota g) t;
                let g = g\<lparr>gota := o'\<rparr>;
                if err \<noteq> OTA_OK then do {
                  (g, t) \<leftarrow> ota_status_notify 0x14 0x23 tot tot g t;
                  Some (send_simple_response 500 (''finish failed'' @ nl) g, t) }
                else do {
                  (g, t) \<leftarrow> ota_status_notify 0x13 0x00 tot tot g t;
                  Some ((send_simple_response 200 (''ok'' @ nl) g)\<lparr>restart_created := True\<rparr>, t) } } } } })"

definition ota_http_server_start :: "gatt \<Rightarrow> trace \<Rightarrow> (u32 \<times> gatt \<times> trace) option" where
  "ota_http_server_start g t =
     (if g_httpd g then Some (0, g, t)
      else do {
        (err, t) \<leftarrow> rd t;
        if err \<noteq> 0 then Some (err, g, t) else Some (0, g\<lparr>g_httpd := True\<rparr>, t) })"

definition ota_wifi_stop :: "gatt \<Rightarrow> trace \<Rightarrow> (gatt \<times> trace) option" where
  "ota_wifi_stop g t = do {
     let g = g\<lparr>g_httpd := False, g_ap_netif := False, g_running := False\<rparr>;
     (w, t) \<leftarrow> wifi_transport_resume_runtime (gwifi g) t;
     Some (g\<lparr>gwifi := w\<rparr>, t) }"

definition ota_wifi_start_softap :: "gatt \<Rightarrow> trace \<Rightarrow> (u32 \<times> gatt \<times> trace) option" where
  "ota_wifi_start_softap g t =
     (if g_running g then Some (0, g, t)
      else do {
        let g = g\<lparr>gwifi := wifi_transport_suspend_runtime (gwifi g)\<rparr>;
        (g, t) \<leftarrow> (if g_netif_inited g then Some (g, t)
                   else do {
                     (_, t) \<leftarrow> ESP_ERROR_CHECK t;
                     (_, t) \<leftarrow> ESP_ERROR_CHECK_unless t;
                     Some (g\<lparr>g_netif_inited := True\<rparr>, t) });
        let g = g\<lparr>g_ap_netif := True\<rparr>;
        (_, t) \<leftarrow> ESP_ERROR_CHECK_unless t;
        (_, t) \<leftarrow> ESP_ERROR_CHECK t;
        (_, t) \<leftarrow> ESP_ERROR_CHECK t;
        (_, t) \<leftarrow> ESP_ERROR_CHECK t;
        (_, t) \<leftarrow> ESP_ERROR_CHECK t;
        let g = g\<lparr>g_running := True\<rparr>;
        (err, g, t) \<leftarrow> ota_http_server_start g t;
        if err \<noteq> 0 then do { (g, t) \<leftarrow> ota_wifi_stop g t; Some (err, g, t) }
        else do {
          (g, t) \<leftarrow> ota_status_notify 0x20 0x00 0 0 g t;
          Some (0, g, t) } })"

definition ota_wifi_is_running :: "gatt \<Rightarrow> bool" where
  "ota_wifi_is_running g = g_running g"

section \<open>Writes of the update characteristics\<close>

definition ota_ble_handle_control_write :: "(u8 list \<Rightarrow> u8 list) \<Rightarrow> u8 list \<Rightarrow> gatt \<Rightarrow> trace \<Rightarrow> (bool \<times> gatt \<times> trace) option" where
  "ota_ble_handle_control_write sha data g t =
     (if length data < 1 then Some (True, g, t)
      else let cmd = data ! 0 in
        if cmd = 0x01 then ota_ble_start data g t
        else if cmd = 0x02 then do {
          (g, t) \<leftarrow> ota_status_notify 0x15 0x00 (ota_core_received_size (gota g)) (ota_core_total_size (gota g)) g t;
          Some (True, g\<lparr>gota := ota_core_abort (gota g), g_ble_session_active := False\<rparr>, t) }
        else if cmd = 0x10 then do {
          (err, g, t) \<leftarrow> ota_wifi_start_softap g t;
          if err \<noteq> 0 then do {
            (g, t) \<leftarrow> ota_status_notify 0x14 0x30 0 0 g t;
            Some (False, g, t) }
          else Some (True, g, t) }
        else if cmd = 0x11 then do { (g, t) \<leftarrow> ota_wifi_stop g t; Some (True, g, t) }
        else if cmd = 0x03 then ota_ble_end sha g t
        else Some (False, g, t))"

definition ota_ble_handle_data_write :: "u8 list \<Rightarrow> gatt \<Rightarrow> trace \<Rightarrow> (bool \<times> gatt \<times> trace) option" where
  "ota_ble_handle_data_write data g t =
     (if \<not> ota_core_is_active (gota g) \<or> \<not> g_ble_session_active g then Some (False, g, t)
      else if length data = 0 then Some (True, g, t)
      else do {
        (err, o', t) \<leftarrow> ota_core_write data (gota g) t;
        let g = g\<lparr>gota := o'\<rparr>;
        if err \<noteq> OTA_OK then do {
          (g, t) \<leftarrow> ota_status_notify 0x14 0x08 (ota_core_received_size (gota g)) (ota_core_total_size (gota g)) g t;
          Some (False, g\<lparr>gota := ota_core_abort (gota g), g_ble_session_active := False\<rparr>, t) }
        else
          let rcvd = ota_core_received_size (gota g); tot = ota_core_total_size (gota g) in
          if rcvd - g_last_notified_received g \<ge> 4096 \<or> rcvd = tot then do {
            (g, t) \<leftarrow> ota_status_notify 0x11 0x00 rcvd tot (g\<lparr>g_last_notified_received := rcvd\<rparr>) t;
            Some (True, g, t) }
          else Some (True, g, t) })"

datatype ota_chr = ota_ctrl_chr | ota_data_chr | ota_status_chr

text \<open>The trace starts with the result of copying the packet to the buffer of 64, or 256, bytes.\<close>

definition ota_gatt_access :: "(u8 list \<Rightarrow> u8 list) \<Rightarrow> ota_chr \<Rightarrow> gatt_op \<Rightarrow> u8 list \<Rightarrow> gatt \<Rightarrow> trace \<Rightarrow> (ble_rc \<times> gatt \<times> trace) option" where
  "ota_gatt_access sha uuid op om g t =
     (if uuid = ota_ctrl_chr then
        (if op \<noteq> WRITE_CHR then Some (BLE_ATT_ERR_UNLIKELY, g, t)
         else do {
           (rc, t) \<leftarrow> rd t;
           if rc \<noteq> 0 then Some (BLE_ATT_ERR_UNLIKELY, g, t)
           else do {
             (ok, g, t) \<leftarrow> ota_ble_handle_control_write sha (take 64 om) g t;
             Some (if ok then Rc 0 else BLE_ATT_ERR_UNLIKELY, g, t) } })
      else if uuid = ota_data_chr then
        (if op \<noteq> WRITE_CHR then Some (BLE_ATT_ERR_UNLIKELY, g, t)
         else do {
           (rc, t) \<leftarrow> rd t;
           if rc \<noteq> 0 then Some (BLE_ATT_ERR_UNLIKELY, g, t)
           else do {
             (ok, g, t) \<leftarrow> ota_ble_handle_data_write (take 256 om) g t;
             Some (if ok then Rc 0 else BLE_ATT_ERR_UNLIKELY, g, t) } })
      else Some (BLE_ATT_ERR_UNLIKELY, g, t))"

definition ota_ble_gatt_init :: "gatt \<Rightarrow> gatt" where
  "ota_ble_gatt_init g = ota_status_set_attr_handle (g_ota_status_handle g) (ota_ble_init g)"

definition ota_ble_gatt_on_disconnect :: "gatt \<Rightarrow> trace \<Rightarrow> (gatt \<times> trace) option" where
  "ota_ble_gatt_on_disconnect g t = ota_ble_on_disconnect g t"

section \<open>Start-up and connection events\<close>

text \<open>Three calls that can fail; the last one starts advertising.\<close>

definition ble_server_advertise :: "gatt \<Rightarrow> trace \<Rightarrow> (gatt \<times> trace) option" where
  "ble_server_advertise g t = do {
     (rc, t) \<leftarrow> rd t;
     if rc \<noteq> 0 then Some (g, t)
     else do {
       (rc, t) \<leftarrow> rd t;
       if rc \<noteq> 0 then Some (g, t)
       else do {
         (rc, t) \<leftarrow> rd t;
         if rc \<noteq> 0 then Some (g, t) else Some (g\<lparr>advertisements := advertisements g + 1\<rparr>, t) } } }"

definition gatt_svr_init :: "trace \<Rightarrow> (u32 \<times> trace) option" where
  "gatt_svr_init t = do {
     (rc, t) \<leftarrow> rd t;
     if rc \<noteq> 0 then Some (rc, t)
     else do {
       (rc, t) \<leftarrow> rd t;
       if rc \<noteq> 0 then Some (rc, t)
       else do {
         (rc, t) \<leftarrow> rd t;
         if rc \<noteq> 0 then Some (rc, t) else rd t } } }"

text \<open>The flag of the result tells whether the host task was started.\<close>

definition ble_server_init :: "gatt \<Rightarrow> trace \<Rightarrow> (bool \<times> gatt \<times> trace) option" where
  "ble_server_init g t = do {
     let g = g\<lparr>gble := (gble g)\<lparr>cmd_queue_handle := True\<rparr>\<rparr>;
     (ret, t) \<leftarrow> rd t;
     if ret \<noteq> 0 then Some (False, g, t)
     else do {
       (ret, t) \<leftarrow> gatt_svr_init t;
       if ret \<noteq> 0 then Some (False, g, t)
       else do {
         let g = ota_ble_gatt_init g;
         (ret, t) \<leftarrow> rd t;
         if ret \<noteq> 0 then Some (False, g, t) else Some (True, g, t) } } }"

text \<open>The host reports its handles, and then that it is in sync.\<close>

definition on_sync :: "gatt \<Rightarrow> trace \<Rightarrow> (gatt \<times> trace) option" where
  "on_sync g t = do {
     (rc, t) \<leftarrow> rd t;
     if rc \<noteq> 0 then Some (g, t) else ble_server_advertise g t }"

datatype gap_event = GAP_CONNECT u32 u16 | GAP_DISCONNECT | GAP_ADV_COMPLETE | GAP_SUBSCRIBE | GAP_MTU

definition ble_gap_event :: "gap_event \<Rightarrow> gatt \<Rightarrow> trace \<Rightarrow> (gatt \<times> trace) option" where
  "ble_gap_event ev g t = (case ev of
     GAP_CONNECT status handle \<Rightarrow>
       if status = 0 then Some (g\<lparr>gble := (gble g)\<lparr>notify_conn_handle := Some handle, ble_sysex_fragment_len := 0\<rparr>\<rparr>, t)
       else ble_server_advertise g t
   | GAP_DISCONNECT \<Rightarrow> do {
       let g = g\<lparr>gble := (gble g)\<lparr>notify_conn_handle := None, ble_sysex_fragment_len := 0\<rparr>\<rparr>;
       (g, t) \<leftarrow> ota_ble_gatt_on_disconnect g t;
       ble_server_advertise g t }
   | GAP_ADV_COMPLETE \<Rightarrow> ble_server_advertise g t
   | GAP_SUBSCRIBE \<Rightarrow> Some (g, t)
   | GAP_MTU \<Rightarrow> Some (g, t))"

section \<open>What the operations keep\<close>

text \<open>A predicate that no operation can change: it only looks at the handle of the status attribute.\<close>

abbreviation same_handle :: "gatt \<Rightarrow> gatt \<Rightarrow> bool" where
  "same_handle g g' \<equiv> g_status_attr_handle g' = g_status_attr_handle g"

lemmas any_binds = post_any_bind [where m = "rd t" for t] post_any_bind [where m = "ota_core_start n h w t" for n h w t]
  post_any_bind [where m = "ota_core_write d w t" for d w t] post_any_bind [where m = "ota_core_finish f w t" for f w t]
  post_any_bind [where m = "ble_server_notify_attr a d b t" for a d b t] post_any_bind [where m = "ESP_ERROR_CHECK t" for t]
  post_any_bind [where m = "ESP_ERROR_CHECK_unless t" for t] post_any_bind [where m = "gatt_svr_init t" for t]
  post_any_bind [where m = "wifi_transport_resume_runtime w t" for w t] post_any_bind [where m = "rd_bytes n t" for n t]

lemma notify_handle: "post (\<lambda>(g', t'). same_handle g g') (ota_status_notify s e r n g t)"
  unfolding ota_status_notify_def Let_def by (auto intro!: any_binds)

lemma bind_notify: "(\<And>g' t'. same_handle g g' \<Longrightarrow> post Q (f (g', t'))) \<Longrightarrow> post Q (ota_status_notify s e r n g t \<bind> f)"
  by (rule post_bind, rule post_mono [OF notify_handle]) auto

lemma bind_keep2:
  "post (\<lambda>(g', t'). same_handle g g') m \<Longrightarrow> (\<And>g' t'. same_handle g g' \<Longrightarrow> post Q (f (g', t'))) \<Longrightarrow> post Q (m \<bind> f)"
  by (cases m) auto

lemma bind_keep3:
  "post (\<lambda>(r, g', t'). same_handle g g') m \<Longrightarrow> (\<And>r g' t'. same_handle g g' \<Longrightarrow> post Q (f (r, g', t'))) \<Longrightarrow> post Q (m \<bind> f)"
  by (cases m) auto

lemma disconnect_handle: "post (\<lambda>(g', t'). same_handle g g') (ota_ble_on_disconnect g t)"
  unfolding ota_ble_on_disconnect_def by (auto intro!: bind_notify)

lemma start_handle: "post (\<lambda>(r, g', t'). same_handle g g') (ota_ble_start data g t)"
  unfolding ota_ble_start_def Let_def by (auto intro!: any_binds bind_notify)

lemma end_handle: "post (\<lambda>(r, g', t'). same_handle g g') (ota_ble_end sha g t)"
  unfolding ota_ble_end_def Let_def by (auto intro!: any_binds bind_notify)

lemma recv_loop_handle: "ota_recv_loop tot remaining noted g t = Some r \<Longrightarrow> same_handle g (fst (snd r))"
proof (erule ota_recv_loop.raw_induct [where P = "\<lambda>tot remaining noted g t r. same_handle g (fst (snd r))", rotated])
  fix rec :: "u32 \<Rightarrow> u32 \<Rightarrow> u32 \<Rightarrow> gatt \<Rightarrow> trace \<Rightarrow> (bool \<times> gatt \<times> trace) option" and tot remaining noted g t r
  assume ih: "\<And>tot remaining noted g t r. rec tot remaining noted g t = Some r \<Longrightarrow> same_handle g (fst (snd r))"
  have rec: "post (\<lambda>r. same_handle g (fst (snd r))) (rec tot remaining noted g1 t)" if "same_handle g g1" for tot remaining noted g1 t
    using ih that by (auto simp: post_def)
  assume "(if \<not> remaining > 0 then Some (True, g, t)
      else do {
        (n, t) \<leftarrow> rd t;
        if sint n \<le> 0 then do {
          (g, t) \<leftarrow> ota_status_notify 0x14 0x21 (ota_core_received_size (gota g)) tot g t;
          Some (False, send_simple_response 500 (''read failed'' @ nl) (g\<lparr>gota := ota_core_abort (gota g)\<rparr>), t) }
        else do {
          (buf, t) \<leftarrow> rd_bytes (unat n) t;
          (err, o', t) \<leftarrow> ota_core_write buf (gota g) t;
          let g = g\<lparr>gota := o'\<rparr>;
          if err \<noteq> OTA_OK then do {
            (g, t) \<leftarrow> ota_status_notify 0x14 0x22 (ota_core_received_size (gota g)) tot g t;
            Some (False, send_simple_response 500 (''write failed'' @ nl) (g\<lparr>gota := ota_core_abort (gota g)\<rparr>), t) }
          else do {
            let remaining = remaining - n;
            let rcvd = ota_core_received_size (gota g);
            if rcvd - noted \<ge> 4096 \<or> rcvd = tot then do {
              (g, t) \<leftarrow> ota_status_notify 0x11 0x00 rcvd tot g t;
              rec tot remaining rcvd g t }
            else rec tot remaining noted g t } } }) = Some r" (is "?body = _")
  moreover have "post (\<lambda>r. same_handle g (fst (snd r))) ?body"
    unfolding Let_def by (auto intro!: any_binds bind_notify rec simp: send_simple_response_def)
  ultimately show "same_handle g (fst (snd r))" by (simp add: post_def)
qed

lemma bind_recv: "(\<And>ok g' t'. same_handle g g' \<Longrightarrow> post Q (f (ok, g', t'))) \<Longrightarrow> post Q (ota_recv_loop tot remaining noted g t \<bind> f)"
  using recv_loop_handle by (intro post_bind) (fastforce simp: post_def)

lemma post_handle: "post (\<lambda>(g', t'). same_handle g g') (ota_post_handler sha n hex g t)"
  unfolding ota_post_handler_def Let_def
  by (auto intro!: any_binds bind_notify bind_recv post_option simp: send_simple_response_def)

lemma stop_handle: "post (\<lambda>(g', t'). same_handle g g') (ota_wifi_stop g t)"
  unfolding ota_wifi_stop_def by (auto intro!: any_binds)

lemma server_handle: "post (\<lambda>(r, g', t'). same_handle g g') (ota_http_server_start g t)"
  unfolding ota_http_server_start_def by (auto intro!: any_binds)

lemma softap_handle: "post (\<lambda>(r, g', t'). same_handle g g') (ota_wifi_start_softap g t)"
  unfolding ota_wifi_start_softap_def Let_def
  by (auto intro!: any_binds bind_notify bind_keep3 [OF server_handle] bind_keep2 [OF stop_handle])

lemma control_handle: "post (\<lambda>(r, g', t'). same_handle g g') (ota_ble_handle_control_write sha data g t)"
  unfolding ota_ble_handle_control_write_def Let_def
  by (auto intro!: bind_notify start_handle end_handle bind_keep3 [OF softap_handle] bind_keep2 [OF stop_handle])

lemma data_handle: "post (\<lambda>(r, g', t'). same_handle g g') (ota_ble_handle_data_write data g t)"
  unfolding ota_ble_handle_data_write_def Let_def by (auto intro!: any_binds bind_notify)

lemma access_handle: "post (\<lambda>(r, g', t'). same_handle g g') (ota_gatt_access sha uuid op om g t)"
  unfolding ota_gatt_access_def
  by (auto intro!: any_binds bind_keep3 [OF control_handle] bind_keep3 [OF data_handle])

lemma advertise_handle: "post (\<lambda>(g', t'). same_handle g g') (ble_server_advertise g t)"
  unfolding ble_server_advertise_def by (auto intro!: any_binds)

lemma gap_handle: "post (\<lambda>(g', t'). same_handle g g') (ble_gap_event ev g t)"
  unfolding ble_gap_event_def ota_ble_gatt_on_disconnect_def Let_def
  by (auto intro!: bind_keep2 [OF disconnect_handle] advertise_handle
      post_mono [OF advertise_handle] split: gap_event.split)

lemma sync_handle: "post (\<lambda>(g', t'). same_handle g g') (on_sync g t)"
  unfolding on_sync_def by (auto intro!: any_binds advertise_handle)

section \<open>Runs\<close>

text \<open>
  What happens to the Bluetooth host after start-up: it registers the characteristics, whose
  handles it stores through the pointers of the service tables, reports that it is in sync, and
  delivers connection events and accesses; the HTTP server of the access point delivers uploads.
\<close>

inductive gatt_step :: "(u8 list \<Rightarrow> u8 list) \<Rightarrow> gatt \<Rightarrow> gatt \<Rightarrow> bool" for sha where
  registered: "gatt_step sha g (g\<lparr>g_ota_status_handle := h, gble := (gble g)\<lparr>notification_handle := h'\<rparr>\<rparr>)"
| sync: "on_sync g t = Some (g', t') \<Longrightarrow> gatt_step sha g g'"
| gap: "ble_gap_event ev g t = Some (g', t') \<Longrightarrow> gatt_step sha g g'"
| core: "gatt_svr_chr_access uuid op om (gble g) (gusb g) t = Some (rc, b, e, t') \<Longrightarrow> gatt_step sha g (g\<lparr>gble := b, gusb := e\<rparr>)"
| update: "ota_gatt_access sha ouuid op om g t = Some (rc, g', t') \<Longrightarrow> gatt_step sha g g'"
| upload: "g_httpd g \<Longrightarrow> ota_post_handler sha n hex g t = Some (g', t') \<Longrightarrow> gatt_step sha g g'"

lemma step_handle: "gatt_step sha g g' \<Longrightarrow> same_handle g g'"
proof (induction rule: gatt_step.induct)
  case (sync g t g' t')
  then show ?case using postD [OF sync_handle] by auto
next
  case (gap ev g t g' t')
  then show ?case using postD [OF gap_handle] by auto
next
  case (update ouuid op om g t rc g' t')
  then show ?case using postD [OF access_handle] by fastforce
next
  case (upload g n hex t g' t')
  then show ?case using postD [OF post_handle] by fastforce
qed simp_all

lemma run_handle: "rtranclp (gatt_step sha) g g' \<Longrightarrow> same_handle g g'"
  by (induction rule: rtranclp_induct) (auto dest: step_handle)

lemma init_handle: "ble_server_init g t = Some (True, g', t') \<Longrightarrow> g_status_attr_handle g' = g_ota_status_handle g"
  by (auto simp: ble_server_init_def ota_ble_gatt_init_def ota_ble_init_def ota_status_init_def ota_status_set_attr_handle_def
      bind_eq_Some_conv Let_def del: rd_length split: if_splits)

section \<open>A complete update\<close>

text \<open>Data writes one after the other, each with three successful calls below it.\<close>

fun data_writes :: "(u8 list \<Rightarrow> u8 list) \<Rightarrow> u8 list list \<Rightarrow> gatt \<Rightarrow> trace \<Rightarrow> (ble_rc list \<times> gatt \<times> trace) option" where
  "data_writes sha [] g t = Some ([], g, t)"
| "data_writes sha (c # cs) g t = do {
     (rc, g, t) \<leftarrow> ota_gatt_access sha ota_data_chr WRITE_CHR c g t;
     (rcs, g, t) \<leftarrow> data_writes sha cs g t;
     Some (rc # rcs, g, t) }"

definition receiving :: "u8 list \<Rightarrow> u8 list \<Rightarrow> nat \<Rightarrow> gatt \<Rightarrow> bool" where
  "receiving h got n g \<longleftrightarrow> g_status_attr_handle g = 0 \<and> g_ble_session_active g \<and> o_active (gota g) \<and> received (gota g) = of_nat (length got) \<and>
     total_size (gota g) = of_nat n \<and> expected_sha256 (gota g) = h \<and> sha256 (gota g) = got \<and> image (gota g) = got \<and> \<not> hash_failed (gota g)"

lemma receive_chunk:
  assumes "receiving h got n g" "c \<noteq> []" "length c \<le> 256" "length got + length c \<le> n" "n < 2 ^ 32"
  shows "\<exists>g'. ota_gatt_access sha ota_data_chr WRITE_CHR c g (0 # 0 # 0 # t) = Some (Rc 0, g', t) \<and> receiving h (got @ c) n g'"
proof -
  have r: "\<not> received (gota g) + of_nat (length c) > total_size (gota g)"
  proof -
    have e: "received (gota g) + of_nat (length c) = of_nat (length got + length c)" "total_size (gota g) = of_nat n"
      using assms(1) by (simp_all add: receiving_def)
    have u: "unat (of_nat m :: u32) = m" if "m \<le> n" for m
      using that assms(5) by (simp add: unat_of_nat take_bit_nat_eq_self)
    show ?thesis using assms(4) unfolding word_less_nat_alt e u [OF assms(4)] u [OF order_refl] by simp
  qed
  let ?o = "(gota g)\<lparr>image := got @ c, sha256 := got @ c, received := received (gota g) + of_nat (length c)\<rparr>"
  have w: "ota_core_write c (gota g) (0 # 0 # t) = Some (OTA_OK, ?o, t)"
    using assms(1,2) r by (simp add: ota_core_write_def receiving_def Let_def)
  show ?thesis
    using assms(1-3) w
    by (auto simp: ota_gatt_access_def ota_ble_handle_data_write_def ota_core_is_active_def ota_status_notify_def receiving_def Let_def)
qed

lemma receive_chunks:
  "receiving h got n g \<Longrightarrow> \<forall>c \<in> set cs. c \<noteq> [] \<and> length c \<le> 256 \<Longrightarrow> length got + length (concat cs) = n \<Longrightarrow> n < 2 ^ 32 \<Longrightarrow>
   \<exists>g'. data_writes sha cs g (replicate (3 * length cs) 0 @ t) = Some (replicate (length cs) (Rc 0), g', t) \<and> receiving h (got @ concat cs) n g'"
proof (induction cs arbitrary: got g)
  case (Cons c cs)
  have "length got + length c \<le> n" using Cons.prems(3) by simp
  then obtain g1 where g1: "ota_gatt_access sha ota_data_chr WRITE_CHR c g (0 # 0 # 0 # replicate (3 * length cs) 0 @ t) =
      Some (Rc 0, g1, replicate (3 * length cs) 0 @ t)" "receiving h (got @ c) n g1"
    using receive_chunk [OF Cons.prems(1)] Cons.prems(2,4) by (metis list.set_intros(1))
  have "length (got @ c) + length (concat cs) = n" using Cons.prems(3) by simp
  from Cons.IH [OF g1(2) _ this Cons.prems(4)] Cons.prems(2)
  obtain g2 where "data_writes sha cs g1 (replicate (3 * length cs) 0 @ t) = Some (replicate (length cs) (Rc 0), g2, t)"
    "receiving h (got @ c @ concat cs) n g2" by auto
  then show ?case using g1(1) by (intro exI [of _ g2]) (simp add: numeral_3_eq_3)
qed simp

section \<open>Properties\<close>

text \<open>C38: An update over Bluetooth installs the image it is sent: if START announces the size and digest
  of an image, the image follows in writes of at most 256 bytes, and END is written, with every call
  below succeeding, all writes succeed, and the next boot is from exactly those bytes, verified
  against that digest, with a restart on its way.\<close>

theorem ble_update_installs:
  assumes "\<forall>c \<in> set cs. c \<noteq> [] \<and> length c \<le> 256" "length (concat cs) = n" "0 < n" "n < 2 ^ 32" "sha (concat cs) = h" "length h = 32"
    and "\<not> o_active (gota g)" "g_status_attr_handle g = 0"
  shows "\<exists>g1 g2 g3.
    ota_gatt_access sha ota_ctrl_chr WRITE_CHR (0x01 # u32_bytes (of_nat n) @ h) g [0, 1, 0, 0] = Some (Rc 0, g1, []) \<and>
    data_writes sha cs g1 (replicate (3 * length cs) 0) = Some (replicate (length cs) (Rc 0), g2, []) \<and>
    ota_gatt_access sha ota_ctrl_chr WRITE_CHR [0x03] g2 [0, 0, 0, 0] = Some (Rc 0, g3, []) \<and>
    boot (gota g3) = Some (concat cs, of_nat n, h, False) \<and> restart_created g3"
proof -
  let ?s = "0x01 # u32_bytes (of_nat n) @ h"
  have l: "length ?s = 37" "take 64 ?s = ?s" "take 32 (drop 5 ?s) = h" using assms(6) by simp_all
  have tot: "emw_u32_le (drop 1 ?s) = of_nat n" using emw_u32_le_bytes [of "of_nat n" h] by simp
  have "unat (of_nat n :: u32) = n" using assms(4) by (simp add: unat_of_nat take_bit_nat_eq_self)
  then have nz: "of_nat n \<noteq> (0 :: u32)" using assms(3) by (metis less_irrefl unat_0)
  obtain o1 where o1: "ota_core_start (of_nat n) h (gota g) [1, 0, 0] = Some (OTA_OK, o1, [])"
    "o_active o1" "received o1 = 0" "total_size o1 = of_nat n" "expected_sha256 o1 = h" "sha256 o1 = []" "image o1 = []" "\<not> hash_failed o1"
    using assms(7) nz by (simp add: ota_core_start_def Let_def ota_core_init_def)
  let ?g1 = "g\<lparr>gota := o1, g_ble_session_active := True, g_last_notified_received := 0\<rparr>"
  have s1: "ota_gatt_access sha ota_ctrl_chr WRITE_CHR ?s g [0, 1, 0, 0] = Some (Rc 0, ?g1, [])"
    using o1(1) l tot nz assms(7,8)
    by (simp add: ota_gatt_access_def ota_ble_handle_control_write_def ota_ble_start_def ota_core_is_active_def ota_status_notify_def Let_def)
  have "receiving h [] n ?g1" using o1 assms(8) by (simp add: receiving_def)
  from receive_chunks [OF this assms(1) _ assms(4), of sha "[]"]
  obtain g2 where s2: "data_writes sha cs ?g1 (replicate (3 * length cs) 0) = Some (replicate (length cs) (Rc 0), g2, [])"
    and r: "receiving h (concat cs) n g2" using assms(2) by auto
  obtain o3 where o3: "ota_core_finish sha (gota g2) [0, 0, 0] = Some (OTA_OK, o3, [])" "boot o3 = Some (concat cs, of_nat n, h, False)"
    using r assms(2,5) by (simp add: ota_core_finish_def receiving_def Let_def)
  have s3: "ota_gatt_access sha ota_ctrl_chr WRITE_CHR [0x03] g2 [0, 0, 0, 0] =
      Some (Rc 0, g2\<lparr>gota := o3, g_ble_session_active := False, restart_created := True\<rparr>, [])"
    using o3(1) r
    by (simp add: ota_gatt_access_def ota_ble_handle_control_write_def ota_ble_end_def ota_core_is_active_def ota_status_notify_def
        receiving_def Let_def)
  show ?thesis
    by (rule exI [of _ ?g1], rule exI [of _ g2],
        rule exI [of _ "g2\<lparr>gota := o3, g_ble_session_active := False, restart_created := True\<rparr>"]) (simp add: s1 s2 s3 o3(2))
qed

definition gatt_boot :: gatt where
  "gatt_boot = \<lparr>gble = ble_reset, gusb = esp_usb_reset, gota = ota_blank, gwifi = wifi_boot, g_status_attr_handle = 0,
     g_ota_status_handle = 0, g_ble_session_active = False, g_last_notified_received = 0, g_netif_inited = False, g_ap_netif = False,
     g_httpd = False, g_running = False, restart_created = False, advertisements = 0, responses_http = []\<rparr>"

text \<open>Three bytes in two writes; for the witness the digest repeats the first byte.\<close>

theorem ble_update_installs_witness:
  "\<exists>g1 g2 g3. ota_gatt_access (\<lambda>d. replicate 32 (d ! 0)) ota_ctrl_chr WRITE_CHR (0x01 # u32_bytes 3 @ replicate 32 7) gatt_boot [0, 1, 0, 0] = Some (Rc 0, g1, []) \<and>
    data_writes (\<lambda>d. replicate 32 (d ! 0)) [[7, 8], [9]] g1 (replicate 6 0) = Some (replicate 2 (Rc 0), g2, []) \<and>
    ota_gatt_access (\<lambda>d. replicate 32 (d ! 0)) ota_ctrl_chr WRITE_CHR [0x03] g2 [0, 0, 0, 0] = Some (Rc 0, g3, []) \<and>
    boot (gota g3) = Some ([7, 8, 9], 3, replicate 32 7, False)"
proof -
  have h: "\<not> o_active (gota gatt_boot)" "g_status_attr_handle gatt_boot = 0" by (simp_all add: gatt_boot_def ota_blank_def)
  show ?thesis
    using ble_update_installs [of "[[7, 8], [9]]" 3 "\<lambda>d. replicate 32 (d ! 0)" "replicate 32 7" gatt_boot, OF _ _ _ _ _ _ h]
    by (auto simp del: data_writes.simps simp: numeral_2_eq_2 [symmetric])
qed

text \<open>No update status is ever notified: the handle of the status characteristic is copied when the
  services are queued, before the host registers them and fills the handle in, so if it is still
  zero then, every status notification in every later state does nothing.\<close>

theorem update_status_never_notified:
  assumes "ble_server_init g0 t = Some (True, g1, t1)" "g_ota_status_handle g0 = 0" "rtranclp (gatt_step sha) g1 g2"
  shows "ota_status_notify status_code err_code rcvd tot g2 u = Some (g2, u)"
  using init_handle [OF assms(1)] assms(2) run_handle [OF assms(3)] by (simp add: ota_status_notify_def)

text \<open>The handle is filled in afterwards, as 21.\<close>

theorem update_status_never_notified_witness:
  "\<exists>g1 g2. ble_server_init gatt_boot (replicate 6 0) = Some (True, g1, []) \<and> rtranclp (gatt_step (take 1)) g1 g2 \<and>
     g_ota_status_handle g2 = 21 \<and> ota_status_notify 0x10 0 0 3 g2 [] = Some (g2, [])"
proof -
  obtain g1 where i: "ble_server_init gatt_boot (replicate 6 0) = Some (True, g1, [])"
    by (simp add: ble_server_init_def gatt_svr_init_def numeral_nat)
  let ?g2 = "g1\<lparr>g_ota_status_handle := 21, gble := (gble g1)\<lparr>notification_handle := 16\<rparr>\<rparr>"
  have s: "rtranclp (gatt_step (take 1)) g1 ?g2" using gatt_step.registered by blast
  have "g_ota_status_handle gatt_boot = 0" by (simp add: gatt_boot_def)
  from update_status_never_notified [OF i this s] i s show ?thesis by (intro exI [of _ g1] exI [of _ ?g2]) simp
qed

lemma notify_only_ble: "ota_status_notify s e r n g t = Some (g', t') \<Longrightarrow> \<exists>b. g' = g\<lparr>gble := b\<rparr>"
  by (cases "g_status_attr_handle g = 0") (auto simp: ota_status_notify_def bind_eq_Some_conv intro: exI [of _ "gble g"])

lemma finish_inactive: "ota_core_finish sha w t = Some (err, w', t') \<Longrightarrow> \<not> o_active w'"
  by (auto simp: ota_core_finish_def bind_eq_Some_conv Let_def del: rd_length split: if_splits)

text \<open>A failed END leaves the Bluetooth front end with a claim on a session that no longer exists:
  the session is aborted but the flag stays, so that the next disconnect aborts whatever session is
  active then, also one that an HTTP upload has started in between.\<close>

theorem failed_end_keeps_claim:
  assumes "ota_ble_end sha g t = Some (False, g1, t1)" "o_active (gota g)" "g_ble_session_active g"
    and "ota_core_start tot h (gota g1) u = Some (OTA_OK, o2, u1)" "ota_ble_on_disconnect (g1\<lparr>gota := o2\<rparr>) v = Some (g3, v1)"
  shows "\<not> o_active (gota g1) \<and> g_ble_session_active g1 \<and> o_active o2 \<and> \<not> o_active (gota g3)"
proof -
  have "\<not> o_active (gota g1) \<and> g_ble_session_active g1"
    using assms(1-3) finish_inactive
    by (fastforce simp: ota_ble_end_def ota_core_is_active_def bind_eq_Some_conv Let_def dest!: notify_only_ble split: if_splits)
  moreover have "o_active o2"
    using assms(4) by (auto simp: ota_core_start_def bind_eq_Some_conv Let_def ota_core_init_def del: rd_length split: if_splits)
  moreover have "\<not> o_active (gota g3)"
    using assms(5) calculation(1) by (auto simp: ota_ble_on_disconnect_def bind_eq_Some_conv)
  ultimately show ?thesis by blast
qed

text \<open>END after START without data; then an upload of five bytes starts, and the host disconnects.\<close>

theorem failed_end_keeps_claim_witness:
  "\<exists>g1 o2 g3. ota_ble_end (take 1) (gatt_boot\<lparr>gota := ota_blank\<lparr>o_active := True, total_size := 3\<rparr>, g_ble_session_active := True\<rparr>) [] =
       Some (False, g1, []) \<and>
     ota_core_start 5 [7] (gota g1) [1, 0, 0] = Some (OTA_OK, o2, []) \<and>
     ota_ble_on_disconnect (g1\<lparr>gota := o2\<rparr>) [] = Some (g3, []) \<and> o_active o2 \<and> \<not> o_active (gota g3)"
proof -
  let ?g = "gatt_boot\<lparr>gota := ota_blank\<lparr>o_active := True, total_size := 3\<rparr>, g_ble_session_active := True\<rparr>"
  obtain g1 where e: "ota_ble_end (take 1) ?g [] = Some (False, g1, [])" "g_status_attr_handle g1 = 0" "\<not> o_active (gota g1)" "g_ble_session_active g1"
    by (simp add: ota_ble_end_def ota_core_is_active_def ota_status_notify_def ota_core_finish_def gatt_boot_def ota_blank_def Let_def)
  obtain o2 where s: "ota_core_start 5 [7] (gota g1) [1, 0, 0] = Some (OTA_OK, o2, [])"
    using e(3) by (simp add: ota_core_start_def Let_def)
  obtain g3 where d: "ota_ble_on_disconnect (g1\<lparr>gota := o2\<rparr>) [] = Some (g3, [])"
    using e(2,4) by (simp add: ota_ble_on_disconnect_def ota_status_notify_def)
  have "o_active (gota ?g)" "g_ble_session_active ?g" by simp_all
  from failed_end_keeps_claim [OF e(1) this s d] e(1) s d show ?thesis by blast
qed

text \<open>An upload over HTTP starts a session only if fetching the digest header returns 64. The code
  takes the result for the length of the header; but \<open>httpd_req_get_hdr_value_str\<close> returns an error
  code, 0 when the header was found, and with that result, as with every other one, the upload is
  refused with status 400 and no session is started.\<close>

theorem upload_needs_64:
  assumes "0 < content_len" "content_len < 2 ^ 32" "\<not> o_active (gota g)" "sint hdr \<noteq> 64"
  shows "ota_post_handler sha content_len sha_hex g (hdr # t) =
    Some (send_simple_response 400 ((if sint hdr \<le> 0 then ''missing X-Emwaver-Sha256 header'' else ''invalid X-Emwaver-Sha256 header'') @ nl) g, t)"
  using assms by (simp add: ota_post_handler_def ota_core_is_active_def parse_sha256_hex_def)

theorem upload_needs_64_witness:
  "ota_post_handler (take 1) 3 (replicate 64 CHR ''0'') gatt_boot [0] =
     Some (send_simple_response 400 (''missing X-Emwaver-Sha256 header'' @ nl) gatt_boot, [])"
  using upload_needs_64 [of 3 gatt_boot 0 "take 1" "replicate 64 CHR ''0''" "[]"] by (simp add: gatt_boot_def ota_blank_def)

end
