(* ===== verification/Esp_Boot.thy ===== *)
theory Esp_Boot
  imports Esp_Text Esp_Gatt
begin

text \<open>
  The start-up of the ESP32 firmware: \<open>app_main\<close> of \<open>main.c\<close>, \<open>emwaver_init\<close> and \<open>init_ir_tx_pins\<close> of
  \<open>init.c\<close>, and \<open>usb_init\<close> of \<open>usb.c\<close>. A failed \<open>ESP_ERROR_CHECK\<close> or \<open>configASSERT\<close> resets the chip:
  its value is \<open>None\<close>.
\<close>

section \<open>Pins of the board\<close>

text \<open>-1 is \<open>GPIO_NUM_NC\<close>, a pin the board does not have.\<close>

fun EMW_TARGET_IR_TX_PIN_SHIELD :: "target \<Rightarrow> int" where
  "EMW_TARGET_IR_TX_PIN_SHIELD ESP32S3 = 37"
| "EMW_TARGET_IR_TX_PIN_SHIELD _ = -1"

fun EMW_TARGET_STARTUP_LED :: "target \<Rightarrow> int" where
  "EMW_TARGET_STARTUP_LED ESP32 = 2"
| "EMW_TARGET_STARTUP_LED _ = 1"

text \<open>\<open>CONFIG_BT_NIMBLE_ENABLED\<close> is a setting of the build.\<close>

fun EMW_TARGET_HAS_BLE :: "target \<Rightarrow> bool \<Rightarrow> bool" where
  "EMW_TARGET_HAS_BLE ESP32S2 nimble = False"
| "EMW_TARGET_HAS_BLE _ nimble = nimble"

fun init_pins_loop :: "int list \<Rightarrow> esp \<Rightarrow> esp" where
  "init_pins_loop [] e = e"
| "init_pins_loop (p # ps) e =
     init_pins_loop ps (if p = -1 then e else note_io (GpioLevel p False) (note_io (GpioDirection p True) (note_io (GpioReset p) e)))"

definition init_ir_tx_pins :: "target \<Rightarrow> esp \<Rightarrow> esp" where
  "init_ir_tx_pins tg = init_pins_loop [4, EMW_TARGET_IR_TX_PIN_SHIELD tg, 5]"

fun blink :: "nat \<Rightarrow> int \<Rightarrow> esp \<Rightarrow> esp" where
  "blink 0 led e = e"
| "blink (Suc n) led e = blink n led (note_io (GpioLevel led False) (note_io (GpioLevel led True) e))"

section \<open>Initialisation\<close>

text \<open>The serial number for the descriptor; the loop of \<open>snprintf\<close> over the six bytes of the address.\<close>

definition build_serial_string :: "trace \<Rightarrow> (string \<times> trace) option" where
  "build_serial_string t = do {
     (_, t) \<leftarrow> ESP_ERROR_CHECK t;
     (mac, t) \<leftarrow> rd_bytes 6 t;
     Some (concat (List.map upper_hex2 mac), t) }"

text \<open>The first call. The second result of \<open>tinyusb_driver_install\<close> is that of creating the task.\<close>

definition usb_init :: "esp_usb \<Rightarrow> trace \<Rightarrow> (string \<times> esp_usb \<times> trace) option" where
  "usb_init u t = do {
     (mutex, t) \<leftarrow> rd t;
     if mutex = 0 then None
     else do {
       let u = usb_init_rx_buffer u;
       (serial, t) \<leftarrow> build_serial_string t;
       (_, t) \<leftarrow> ESP_ERROR_CHECK t;
       (created, t) \<leftarrow> rd t;
       if created \<noteq> 1 then None else Some (serial, u, t) } }"

text \<open>0x110D and 0x1110 are a storage without free pages and one of a newer version: it is erased.\<close>

definition init_storage :: "esp \<Rightarrow> trace \<Rightarrow> (esp \<times> trace) option" where
  "init_storage e t = do {
     (ret, t) \<leftarrow> rd t;
     (ret, e, t) \<leftarrow>
       (if ret = 0x110D \<or> ret = 0x1110 then do {
          (_, t) \<leftarrow> ESP_ERROR_CHECK t;
          let e = e\<lparr>device_name := None, ewifi := (ewifi e)\<lparr>wifi_nvs := (\<lambda>_. None)\<rparr>\<rparr>;
          (ret, t) \<leftarrow> rd t;
          Some (ret, e, t) }
        else Some (ret, e, t));
     if ret \<noteq> 0 then None else Some (e, t) }"

definition register_commands :: "(registry \<Rightarrow> bool \<times> registry) list \<Rightarrow> esp \<Rightarrow> esp" where
  "register_commands ms e = e\<lparr>ereg := snd (register_modules ms (ereg e))\<rparr>"

definition emwaver_init :: "target \<Rightarrow> bool \<Rightarrow> esp \<Rightarrow> gatt \<Rightarrow> trace \<Rightarrow> (esp \<times> gatt \<times> trace) option" where
  "emwaver_init tg nimble e g t = do {
     let e = init_ir_tx_pins tg e;
     (e, t) \<leftarrow> init_storage e t;
     let led = EMW_TARGET_STARTUP_LED tg;
     let e = blink 3 led (note_io (GpioConfigOutput led) e);
     let e = e\<lparr>ereg := command_registry_init, eradio := (eradio e)\<lparr>bus := spi_init (bus (eradio e))\<rparr>,
       rtm := sampler_module_init (rtm e)\<rparr>;
     (s, t) \<leftarrow> spi_boot_init_defaults (bus (eradio e)) t;
     let e = e\<lparr>eradio := (eradio e)\<lparr>bus := s\<rparr>\<rparr>;
     let e = register_commands [spi_register_commands, rfm69_register_commands, cc1101_register_commands, gpio_register_commands,
       sampler_register_commands, register_core_commands, transport_debug_register_commands] e;
     (q, t) \<leftarrow> rd t;
     if q = 0 then None
     else do {
       let e = upd_usb ((eu (rtm e))\<lparr>cmd_queue := []\<rparr>) e;
       (_, u, t) \<leftarrow> usb_init (eu (rtm e)) t;
       let e = upd_usb u e;
       (g, t) \<leftarrow> (if EMW_TARGET_HAS_BLE tg nimble then do { (_, g, t) \<leftarrow> ble_server_init g t; Some (g, t) } else Some (g, t));
       let e = e\<lparr>eble := gble g\<rparr>;
       let e = register_commands [wifi_register_commands] e;
       (w, t) \<leftarrow> wifi_transport_init (ewifi e) t;
       let e = e\<lparr>ewifi := w\<rparr>;
       (created, t) \<leftarrow> rd t;
       if created \<noteq> 1 then None else Some (e, g, t) } }"

definition app_main :: "target \<Rightarrow> bool \<Rightarrow> esp \<Rightarrow> gatt \<Rightarrow> trace \<Rightarrow> (esp \<times> gatt \<times> trace) option" where
  "app_main tg nimble e g t = do {
     (e, g, t) \<leftarrow> emwaver_init tg nimble e g t;
     Some (register_commands [register_debug_commands] e, g, t) }"

text \<open>The state the program starts from, with what the storage holds.\<close>

definition power_on :: "target \<Rightarrow> (string \<Rightarrow> string option) \<Rightarrow> u8 list option \<Rightarrow> esp" where
  "power_on tg nvs name = \<lparr>rtm = esp_idle\<lparr>eu := esp_usb_reset\<lparr>s_usb_ready := False\<rparr>\<rparr>, eble = ble_reset, ewifi = wifi_boot\<lparr>wifi_nvs := nvs\<rparr>,
     eradio = radio_boot tg, ereg = replicate 64 None, active_command_source = 0, pwm_freq_hz = 1000, pwm_active_pin = -1,
     pwm_configured = False, staged_ssid = zeros 33, staged_password = zeros 65, staged_active = False, device_name = name,
     transport_debug_enabled = True, restart_task_created = False, quick_initialized = False, io_log = [], answers = []\<rparr>"

section \<open>What start-up leaves behind\<close>

lemma register_modules_append:
  "register_modules (ms @ ns) reg = (let (ok, reg) = register_modules ms reg; (oks, reg) = register_modules ns reg in (ok \<and> oks, reg))"
  by (induction ms arbitrary: reg) (auto simp: Let_def split: prod.splits)

lemma register_twice: "register_commands ns (register_commands ms e) = register_commands (ms @ ns) e"
  by (simp add: register_commands_def register_modules_append Let_def split: prod.splits)

lemma register_frame [simp]:
  "rtm (register_commands ms e) = rtm e" "eble (register_commands ms e) = eble e" "ewifi (register_commands ms e) = ewifi e"
  "eradio (register_commands ms e) = eradio e" "io_log (register_commands ms e) = io_log e" "answers (register_commands ms e) = answers e"
  "ereg (register_commands ms e) = snd (register_modules ms (ereg e))"
  by (simp_all add: register_commands_def)

lemma blink_frame [simp]:
  "rtm (blink n l e) = rtm e" "ewifi (blink n l e) = ewifi e" "eradio (blink n l e) = eradio e" "ereg (blink n l e) = ereg e"
  "answers (blink n l e) = answers e" "io_log (blink n l e) = io_log e @ concat (replicate n [GpioLevel l True, GpioLevel l False])"
  by (induction n arbitrary: e) (simp_all add: note_io_def)

definition ir_pins_low :: "target \<Rightarrow> io_call list" where
  "ir_pins_low tg = concat (List.map (\<lambda>p. [GpioReset p, GpioDirection p True, GpioLevel p False])
     (case tg of ESP32S3 \<Rightarrow> [4, 37, 5] | _ \<Rightarrow> [4, 5]))"

lemma init_pins_log: "init_ir_tx_pins tg e = e\<lparr>io_log := io_log e @ ir_pins_low tg\<rparr>"
  by (cases tg) (simp_all add: init_ir_tx_pins_def ir_pins_low_def note_io_def)


lemma post_result: "(\<And>r. m = Some r \<Longrightarrow> post Q (f r)) \<Longrightarrow> post Q (m \<bind> f)"
  by (cases m) simp_all

lemma all_modules:
  "register_modules [spi_register_commands, rfm69_register_commands, cc1101_register_commands, gpio_register_commands,
     sampler_register_commands, register_core_commands, transport_debug_register_commands, wifi_register_commands, register_debug_commands]
     command_registry_init = firmware_commands"
  by (simp add: firmware_commands_def)

lemma modules_in_turn: "snd (register_modules ns (snd (register_modules ms reg))) = snd (register_modules (ms @ ns) reg)"
  by (simp add: register_modules_append Let_def split: prod.splits)

lemma reach_boot: "wifi_transport_init (wifi_boot\<lparr>wifi_nvs := nv\<rparr>) t = Some (w, t') \<Longrightarrow> wifi_reach tg w"
  by (rule wifi_reach.init)

lemma firmware_ok: "fst firmware_commands"
  by (simp add: firmware_registry)

lemma usb_init_post: "post (\<lambda>(serial, u', t'). u' = usb_init_rx_buffer u) (usb_init u t)"
  unfolding usb_init_def build_serial_string_def ESP_ERROR_CHECK_def Let_def
  by (auto intro!: post_if post_bind post_any_bind [where m = "rd t" for t] post_any_bind [where m = "rd_bytes 6 t" for t])

lemma storage_only:
  "post (\<lambda>(e', t'). e' = e\<lparr>device_name := device_name e', ewifi := (ewifi e)\<lparr>wifi_nvs := wifi_nvs (ewifi e')\<rparr>\<rparr>) (init_storage e t)"
  unfolding init_storage_def ESP_ERROR_CHECK_def Let_def
  by (auto intro!: post_if post_bind post_any_bind [where m = "rd t" for t])

lemma storage_post: "post (\<lambda>(e', t'). \<exists>n nv. e' = e\<lparr>device_name := n, ewifi := (ewifi e)\<lparr>wifi_nvs := nv\<rparr>\<rparr>) (init_storage e t)"
  by (rule post_mono [OF storage_only]) blast

definition started :: "target \<Rightarrow> esp \<Rightarrow> bool" where
  "started tg e \<longleftrightarrow> fst firmware_commands \<and> ereg e = snd firmware_commands \<and>
     io_log e = ir_pins_low tg @ GpioConfigOutput (EMW_TARGET_STARTUP_LED tg) #
       concat (replicate 3 [GpioLevel (EMW_TARGET_STARTUP_LED tg) True, GpioLevel (EMW_TARGET_STARTUP_LED tg) False]) \<and>
     sess (eu (rtm e)) = no_claim \<and> cmd_queue (eu (rtm e)) = [] \<and> usb_stream (eu (rtm e)) = [] \<and> \<not> sampling_active (rtm e) \<and> \<not> transmission_active (rtm e) \<and>
     answers e = [] \<and> wifi_reach tg (ewifi e)"

lemma sampler_module_init_simps [simp]:
  "eu (sampler_module_init r) = eu r" "sampling_active (sampler_module_init r) = False" "transmission_active (sampler_module_init r) = False"
  by (simp_all add: sampler_module_init_def reset_transmission_state_def reset_sampler_state_def)

lemma usb_init_rx_simps [simp]:
  "sess (usb_init_rx_buffer u) = sess u" "cmd_queue (usb_init_rx_buffer u) = cmd_queue u" "usb_stream (usb_init_rx_buffer u) = usb_stream u"
  by (simp_all add: usb_init_rx_buffer_def)

text \<open>Whatever ends the start-up successfully has driven every pin of the infrared transmitter low
  before it did anything else, has registered all commands of the catalogue, and leaves the device
  idle: no claim, an empty command queue, no sampling and no playback, and Wi-Fi in one of the states
  of its invariant.\<close>

theorem start_up:
  assumes "app_main tg nimble (power_on tg nvs name) gatt_boot t = Some (e, g, t')"
  shows "started tg e"
proof -
  have "post (\<lambda>(e, g, t'). started tg e) (app_main tg nimble (power_on tg nvs name) gatt_boot t)"
    unfolding app_main_def emwaver_init_def Let_def init_pins_log register_twice
    by (auto intro!: post_if post_bind post_result [where m = "wifi_transport_init w t" for w t] post_mono [OF storage_post] post_mono [OF usb_init_post]
        post_any_bind [where m = "rd t" for t] post_any_bind [where m = "ble_server_init g t" for g t]
        post_any_bind [where m = "spi_boot_init_defaults s t" for s t]
        simp: started_def power_on_def upd_usb_def esp_usb_reset_def note_io_def modules_in_turn all_modules firmware_ok reach_boot
        simp del: register_modules.simps)
  then show ?thesis using assms by simp
qed

lemma power_on_simps [simp]:
  "rtm (power_on tg nvs name) = esp_idle\<lparr>eu := esp_usb_reset\<lparr>s_usb_ready := False\<rparr>\<rparr>" "ewifi (power_on tg nvs name) = wifi_boot\<lparr>wifi_nvs := nvs\<rparr>"
  "eradio (power_on tg nvs name) = radio_boot tg" "ereg (power_on tg nvs name) = replicate 64 None" "io_log (power_on tg nvs name) = []"
  by (simp_all add: power_on_def)

lemma upper_hex_2A: "upper_hex2 0x2A = ''2A''"
  by code_simp

lemma rd_six: "rd_bytes 6 (a # b # c # d # e # f # t) = Some (List.map ucast [a, b, c, d, e, f], t)"
  by (simp add: numeral_nat)

lemma serial_of_mac: "build_serial_string (0 # 0x2A # 0x2A # 0x2A # 0x2A # 0x2A # 0x2A # t) = Some (''2A2A2A2A2A2A'', t)"
  by (simp add: build_serial_string_def ESP_ERROR_CHECK_def rd_six upper_hex_2A)

lemma smooth_storage: "init_storage e (0 # t) = Some (e, t)"
  by (simp add: init_storage_def)

lemma smooth_usb:
  "usb_init u (1 # 0 # 0x2A # 0x2A # 0x2A # 0x2A # 0x2A # 0x2A # 0 # 1 # t) = Some (''2A2A2A2A2A2A'', usb_init_rx_buffer u, t)"
  by (simp add: usb_init_def serial_of_mac ESP_ERROR_CHECK_def Let_def)

lemma smooth_bus: "b = spi_init s \<Longrightarrow> spi_boot_init_defaults b (0 # t) = Some (b\<lparr>bus_initialized := True\<rparr>, t)"
  by (simp add: spi_boot_init_defaults_def spi_init_def)

lemma smooth_wifi: "wifi_transport_init w (1 # t) = Some (w\<lparr>s_cmd_queue := True, s_config := blank_config, s_has_config := False\<rparr>, t)"
  by (simp add: wifi_transport_init_def load_config_def Let_def)

lemma run_bind: "m = Some r \<Longrightarrow> \<exists>e g. f r = Some (e, g, t') \<Longrightarrow> \<exists>e g. (m \<bind> f) = Some (e, g, t')"
  by simp

text \<open>A board without Bluetooth and with nothing stored.\<close>

theorem start_up_witness:
  "\<exists>e g. app_main ESP32S2 False (power_on ESP32S2 (\<lambda>_. None) None) gatt_boot
       [0, 0, 1, 1, 0, 0x2A, 0x2A, 0x2A, 0x2A, 0x2A, 0x2A, 0, 1, 1, 1] = Some (e, g, []) \<and>
     ereg e = snd firmware_commands \<and> take 6 (io_log e) =
       [GpioReset 4, GpioDirection 4 True, GpioLevel 4 False, GpioReset 5, GpioDirection 5 True, GpioLevel 5 False]"
proof -
  have "\<exists>e g. app_main ESP32S2 False (power_on ESP32S2 (\<lambda>_. None) None) gatt_boot
      [0, 0, 1, 1, 0, 0x2A, 0x2A, 0x2A, 0x2A, 0x2A, 0x2A, 0, 1, 1, 1] = Some (e, g, [])"
  proof -
    have "\<exists>e g. emwaver_init ESP32S2 False (power_on ESP32S2 (\<lambda>_. None) None) gatt_boot
        [0, 0, 1, 1, 0, 0x2A, 0x2A, 0x2A, 0x2A, 0x2A, 0x2A, 0, 1, 1, 1] = Some (e, g, [])"
      unfolding emwaver_init_def Let_def
      apply (rule run_bind, rule smooth_storage, simp only: prod.case)
      apply (rule run_bind, rule smooth_bus [where s = "bus (radio_boot ESP32S2)"], simp add: init_pins_log note_io_def, simp only: prod.case)
      apply (rule run_bind, rule rd.simps, simp only: prod.case one_neq_zero if_False)
      apply (rule run_bind, rule smooth_usb, simp only: prod.case EMW_TARGET_HAS_BLE.simps if_False)
      apply (rule run_bind, rule refl, simp only: prod.case)
      apply (rule run_bind, rule smooth_wifi, simp only: prod.case)
      apply (rule run_bind, rule rd.simps, simp)
      done
    then show ?thesis unfolding app_main_def by auto
  qed
  then obtain e g where r: "app_main ESP32S2 False (power_on ESP32S2 (\<lambda>_. None) None) gatt_boot
      [0, 0, 1, 1, 0, 0x2A, 0x2A, 0x2A, 0x2A, 0x2A, 0x2A, 0, 1, 1, 1] = Some (e, g, [])" by blast
  from start_up [OF r] have "started ESP32S2 e" .
  with r show ?thesis by (simp add: started_def ir_pins_low_def)
qed

end
