(* ===== verification/Esp_Task.thy ===== *)
theory Esp_Task
  imports Esp_Boot
begin

text \<open>
  The command task of the ESP32 firmware (\<open>command_task\<close> of \<open>init.c\<close>): it takes
  the commands from the queue one at a time, asks the transport session, and hands each to the opcodes of
  \<open>Esp_Core\<close> or, when it is not a command lane, as a line of text to the registry of \<open>Esp_Registry\<close> and
  the handlers of \<open>Esp_Text\<close>. The theorems say where the answers go.
\<close>

section \<open>Lines of text\<close>

text \<open>The loop over trailing white space.\<close>

fun trim_end :: "u8 list \<Rightarrow> nat \<Rightarrow> nat" where
  "trim_end d 0 = 0"
| "trim_end d (Suc n) = (if d ! n = 13 \<or> d ! n = 10 \<or> d ! n = 9 \<or> d ! n = 32 then trim_end d n else Suc n)"

definition trim_command :: "command_t \<Rightarrow> command_t" where
  "trim_command cmd =
     cmd\<lparr>cmd_length := of_nat (trim_end (cmd_data cmd) (length (takeWhile (\<lambda>b. b \<noteq> 0) (take (unat (cmd_length cmd)) (cmd_data cmd)))))\<rparr>"

text \<open>What remains of a round when the packet is not a command lane.\<close>

definition handle_line :: "target \<Rightarrow> command_t \<Rightarrow> esp \<Rightarrow> trace \<Rightarrow> (esp \<times> trace) option" where
  "handle_line tg cmd e t =
     (let trimmed = trim_command cmd in
      if cmd_length trimmed = 0 then Some (e, t)
      else if \<not> command_registry_is_ascii trimmed then esp_send_err ''binary unsupported'' e t
      else case command_registry_handle trimmed (ereg e) of
          SendErr msg \<Rightarrow> esp_send_err msg e t
        | Call h args \<Rightarrow> do {
            (rep, e, t) \<leftarrow> call_handler tg h args e t;
            send_reply rep e t })"

section \<open>A round of the task\<close>

definition set_queue :: "command_t list \<Rightarrow> esp \<Rightarrow> esp" where
  "set_queue q e = upd_usb ((eu (rtm e))\<lparr>cmd_queue := q\<rparr>) e"

definition waiting :: "esp \<Rightarrow> command_t list" where
  "waiting e = cmd_queue (eu (rtm e))"

text \<open>With an empty queue the task sleeps.\<close>

definition command_round :: "target \<Rightarrow> esp \<Rightarrow> trace \<Rightarrow> (esp \<times> trace) option" where
  "command_round tg e t = (case waiting e of
     [] \<Rightarrow> Some (e, t)
   | cmd # rest \<Rightarrow>
       (let e = set_queue rest e in
        if cmd_length cmd = 0 then Some (e, t)
        else do {
          let e = e\<lparr>active_command_source := cmd_source cmd\<rparr>;
          (allowed, s, t) \<leftarrow> transport_session_allows_command cmd (sess (eu (rtm e))) t;
          let e = upd_sess s e;
          if \<not> allowed then do {
            (e, t) \<leftarrow> send_binary_busy e t;
            Some (e\<lparr>active_command_source := 0\<rparr>, t) }
          else do {
            (handled, e, t) \<leftarrow> handle_binary_packet tg cmd e t;
            let e = e\<lparr>active_command_source := 0\<rparr>;
            if handled then Some (e, t) else handle_line tg cmd e t } }))"

section \<open>Lines of text answer over Bluetooth only\<close>

text \<open>What no line of text changes.\<close>

definition mute :: "esp \<Rightarrow> esp \<Rightarrow> bool" where
  "mute e e' \<longleftrightarrow> active_command_source e' = active_command_source e \<and> answers e' = answers e \<and> ereg e' = ereg e \<and>
     ws_sent (ewifi e') = ws_sent (ewifi e) \<and> usb_wire (eu (rtm e')) = usb_wire (eu (rtm e)) \<and> sess (eu (rtm e')) = sess (eu (rtm e))"

abbreviation keeps_mute :: "esp \<Rightarrow> called \<Rightarrow> bool" where
  "keeps_mute e0 \<equiv> post (\<lambda>(rep, e', t'). mute e0 e')"

lemma mute_refl [simp]: "mute e e"
  by (simp add: mute_def)

lemma mute_upd [simp]:
  "mute e0 (e\<lparr>eradio := q\<rparr>) = mute e0 e" "mute e0 (e\<lparr>eble := b\<rparr>) = mute e0 e" "mute e0 (e\<lparr>quick_initialized := c\<rparr>) = mute e0 e"
  "mute e0 (e\<lparr>transport_debug_enabled := c\<rparr>) = mute e0 e" "mute e0 (note_io c' e) = mute e0 e" "mute e0 (e\<lparr>io_log := l\<rparr>) = mute e0 e"
  by (simp_all add: mute_def note_io_def)

lemma mute_wifi: "ws_sent w = ws_sent (ewifi e) \<Longrightarrow> mute e (e\<lparr>ewifi := w\<rparr>)"
  by (simp add: mute_def)

lemma mute_rtm: "usb_wire (eu r) = usb_wire (eu (rtm e)) \<Longrightarrow> sess (eu r) = sess (eu (rtm e)) \<Longrightarrow> mute e (e\<lparr>rtm := r\<rparr>)"
  by (simp add: mute_def)

lemma sess_simps [simp]:
  "sess (usb_set_buffer_type bt u) = sess u" "sess (usb_init_rx_buffer u) = sess u" "sess (usb_free_rx_buffer u) = sess u"
  "sess (usb_flush_rx_buffer u) = sess u"
  by (simp_all add: usb_set_buffer_type_def usb_init_rx_buffer_def usb_free_rx_buffer_def usb_flush_rx_buffer_def)

lemma sampler_start_sess: "post (\<lambda>(m, r', t'). usb_wire (eu r') = usb_wire (eu r) \<and> sess (eu r') = sess (eu r)) (sampler_start_impl pin tick r t)"
  unfolding sampler_start_impl_def Let_def by (auto intro!: post_rules simp: run_defs)

lemma pwm_configure_sess: "post (\<lambda>(m, r', t'). usb_wire (eu r') = usb_wire (eu r) \<and> sess (eu r') = sess (eu r)) (transmit_pwm_configure freq duty r t)"
  unfolding transmit_pwm_configure_def Let_def by (auto intro!: post_rules)

lemma transmit_start_sess: "post (\<lambda>(m, r', t'). usb_wire (eu r') = usb_wire (eu r) \<and> sess (eu r') = sess (eu r)) (transmit_start_impl pin pwm freq duty tick r t)"
  unfolding transmit_start_impl_def Let_def
  by (auto intro!: post_rules post_mono [OF pwm_configure_sess] simp: run_defs)

lemma stop_sess: "sess (eu (sampler_stop_impl r)) = sess (eu r)" "sess (eu (transmit_stop_impl r)) = sess (eu r)"
  by (simp_all add: sampler_stop_impl_def transmit_stop_impl_def run_defs Let_def)

lemma stop_all_mute: "mute e (e\<lparr>rtm := sampler_stop_all (rtm e)\<rparr>)"
  by (rule mute_rtm) (simp_all add: sampler_stop_all_def sampler_stop_wire transmit_stop_wire stop_sess)

lemma io_mute: "mute e0 e \<Longrightarrow> post (\<lambda>(err, e', t'). mute e0 e') (io c e t)"
  unfolding io_def by (auto intro!: post_rules)

lemma says_mute: "mute e (snd p) \<Longrightarrow> keeps_mute e (says p t)"
  by (simp add: says_def)

lemma replied_mute: "post (\<lambda>(rep, e', t'). mute e e') m \<Longrightarrow> keeps_mute e (replied m)"
  unfolding replied_def by (auto intro!: post_bind elim!: post_mono)

lemma silent_mute: "post (\<lambda>(e', t'). mute e e') m \<Longrightarrow> keeps_mute e (silent m)"
  unfolding silent_def by (auto intro!: post_bind elim!: post_mono)

lemma gpio_write_mute:
  "mute e (snd (gpio_in_command pin e))" "mute e (snd (gpio_out_command pin e))" "mute e (snd (gpio_high_command pin e))"
  "mute e (snd (gpio_low_command pin e))"
  by (simp_all add: gpio_in_command_def gpio_out_command_def gpio_high_command_def gpio_low_command_def split: option.split)

lemma gpio_pull_mute: "post (\<lambda>(rep, e', t'). mute e e') (gpio_pull_command pin pull e t)"
  unfolding gpio_pull_command_def by (auto intro!: post_option post_bind post_mono [OF io_mute] mute_refl)

lemma gpio_read_mute: "post (\<lambda>(rep, e', t'). mute e e') (gpio_read_command pin e t)"
  unfolding gpio_read_command_def by (auto intro!: post_option post_any_bind)

lemma gpio_mute: "keeps_mute e (call_gpio h a e t)"
  unfolding call_gpio_def
  by (intro post_if says_mute replied_mute gpio_write_mute gpio_pull_mute gpio_read_mute)

lemma on_bus_mute: "keeps_mute e (on_bus p e t)"
  by (simp add: on_bus_def)

lemma spi_mute: "keeps_mute e (call_spi tg h a e t)"
  unfolding call_spi_def by (intro post_if on_bus_mute post_any_bind post_prod)

lemma sampler_mute: "keeps_mute e (call_sampler h a e t)"
  unfolding call_sampler_def
proof (intro post_if silent_mute)
  show "post (\<lambda>(e', t'). mute e e') (sampler_start_command p e t)" for p
    unfolding sampler_start_command_def by (auto intro!: post_bind post_mono [OF sampler_start_sess] mute_rtm)
  show "post (\<lambda>(e', t'). mute e e') (transmit_start_command p w f d e t)" for p w f d
    unfolding transmit_start_command_def by (auto intro!: post_bind post_mono [OF transmit_start_sess] mute_rtm)
qed (simp_all add: sampler_stop_command_def transmit_stop_command_def mute_rtm sampler_stop_wire transmit_stop_wire stop_sess)

lemma core_mute: "keeps_mute e (call_core h a e t)"
  unfolding call_core_def
proof (intro post_if says_mute replied_mute)
  show "mute e (snd (stop_command e))" by (simp add: stop_command_def stop_all_mute)
  show "mute e (snd (debug_transport_command m e))" for m by (simp add: debug_transport_command_def)
  show "post (\<lambda>(rep, e', t'). mute e e') (wifi_provision_command n p e t)" for n p
    unfolding wifi_provision_command_def by (auto intro!: post_bind post_mono [OF provision_sent] mute_wifi)
  show "post (\<lambda>(rep, e', t'). mute e e') (wifi_clear_command e t)"
    unfolding wifi_clear_command_def by (auto intro!: post_bind post_mono [OF clear_sent] mute_wifi)
qed simp_all

lemma quick_mute: "post (\<lambda>(rep, e', t'). mute e e') (rfm69_quick_command tg e t)"
  unfolding rfm69_quick_command_def Let_def
  by (auto intro!: post_if post_bind post_option post_any_bind [where m = "rd t" for t] post_any_bind [where m = "rd_bytes n t" for n t])

lemma on_radio_mute: "keeps_mute e (on_radio f e t)"
  unfolding on_radio_def by (auto intro!: post_any_bind)

lemma handler_mute: "keeps_mute e (call_handler tg h a e t)"
  unfolding call_handler_def
  by (intro post_if on_radio_mute gpio_mute spi_mute sampler_mute core_mute replied_mute quick_mute)

lemma reply_mute: "mute e0 e \<Longrightarrow> post (\<lambda>(e', t'). mute e0 e') (send_reply rep e t)"
  by (cases "(rep, e, t)" rule: send_reply.cases) (auto simp: esp_send_ok_def esp_send_err_def intro!: post_any_bind)

lemma line_mute: "post (\<lambda>(e', t'). mute e e') (handle_line tg cmd e t)"
  unfolding handle_line_def Let_def esp_send_err_def
  by (auto intro!: post_if post_any_bind post_bind [where m = "call_handler tg h a e t" for h a] post_mono [OF handler_mute] reply_mute split: outcome.split)

section \<open>Command lanes\<close>

lemma sent_by_cong:
  assumes "eble a = eble b" "ws_sent (ewifi a) = ws_sent (ewifi b)" "usb_wire (eu (rtm a)) = usb_wire (eu (rtm b))"
    "eble a' = eble b'" "ws_sent (ewifi a') = ws_sent (ewifi b')" "usb_wire (eu (rtm a')) = usb_wire (eu (rtm b'))"
  shows "sent_by src lane a a' = sent_by src lane b b'"
  unfolding sent_by_def assms ..

lemma answered_restart: "has_answered e0 e \<Longrightarrow> has_answered e0 (e\<lparr>restart_task_created := c\<rparr>)"
  unfolding has_answered_def using sent_by_cong [of e0 e0 e "e\<lparr>restart_task_created := c\<rparr>"] by simp

lemma packet_answers:
  assumes "cmd_length cmd = 18"
  shows "post (\<lambda>(handled, e', t'). handled \<and> has_answered e e') (handle_binary_packet tg cmd e t)"
proof -
  have restart: "answers_to e (send_binary_ok [] e t \<bind> (\<lambda>(e, t). Some (if c then e\<lparr>restart_task_created := True\<rparr> else e, t)))" for c
    by (rule post_bind, rule post_mono [OF send_ok_post [OF still_refl]]) (auto intro: answered_restart)
  have "answers_to e (if op = 0x01 then send_binary_ok [1, 0, 2] e t
           else if op = 0x02 \<or> op = 0x03 then send_binary_ok [] e t \<bind> (\<lambda>(e, t). Some (if op = 0x02 then e\<lparr>restart_task_created := True\<rparr> else e, t))
           else if op = 0x08 then handle_hardware_uid_get e t
           else if op = 0x09 then send_binary_ok (bytes_of (EMW_TARGET_BOARD_TYPE tg)) e t
           else if op = 0x0A then handle_wifi_config_opcode d e t
           else if op = 0x0B then handle_transport_session_opcode d src e t
           else if op = 0x04 then esp_name_get tg e t
           else if op = 0x05 then esp_name_set d e t
           else if op = 0x10 then handle_gpio_opcode d e t
           else if op = 0x20 then handle_adc_opcode d e t
           else if op = 0x50 then handle_spi_opcode tg d e t
           else if op = 0x60 then handle_sample_opcode d e t
           else if op = 0x70 then esp_pwm_opcode d e t
           else if op = 0x80 then handle_transmit_opcode d e t
           else send_binary_err e t)" for op :: u8 and d src
    by (intro post_if handler_answers restart send_posts still_refl)
  then show ?thesis
    unfolding handle_binary_packet_def Let_def EMW_USB_CMD_LANE_SIZE_def assms
    by (simp only: simp_thms if_False) (rule post_bind, rule post_mono, auto)
qed

text \<open>Where one answer has gone.\<close>

definition one_answer :: "u8 \<Rightarrow> esp \<Rightarrow> esp \<Rightarrow> bool" where
  "one_answer src e e' \<longleftrightarrow> (\<exists>lane. length lane = 18 \<and> lane ! 0 \<in> {0x80, 0x81, 0x82} \<and>
     answers e' = answers e @ [(src, lane)] \<and> sent_by src lane e e')"

lemma answered_one:
  "has_answered (upd_sess s (e\<lparr>active_command_source := src\<rparr>)) e' \<Longrightarrow> one_answer src e (e'\<lparr>active_command_source := n\<rparr>)"
  unfolding has_answered_def one_answer_def
  using sent_by_cong [of "upd_sess s (e\<lparr>active_command_source := src\<rparr>)" e e' "e'\<lparr>active_command_source := n\<rparr>"]
  by (simp add: upd_sess_def upd_usb_def usb_wire_def)

lemma sent_by_waiting: "sent_by src lane e e' \<Longrightarrow> waiting e' = waiting e"
  by (auto simp: sent_by_def waiting_def usb_wire_def split: if_splits)

lemma waiting_set_queue [simp]: "waiting (set_queue q e) = q" "answers (set_queue q e) = answers e"
  by (simp_all add: waiting_def set_queue_def upd_usb_def)

lemma round_answers:
  assumes "waiting e = cmd # rest" "cmd_length cmd = 18" "command_round tg e t = Some (e', t')"
  shows "one_answer (cmd_source cmd) (set_queue rest e) e' \<and> waiting e' = rest \<and> active_command_source e' = 0"
proof -
  have "post (\<lambda>(e', t'). one_answer (cmd_source cmd) (set_queue rest e) e' \<and> active_command_source e' = 0) (command_round tg e t)"
    using assms(1,2) unfolding command_round_def Let_def
    by (auto intro!: post_if post_bind post_mono [OF send_busy_post [OF still_refl]] post_mono [OF packet_answers]
        post_any_bind [where m = "transport_session_allows_command c s t" for c s t] answered_one)
  then have "one_answer (cmd_source cmd) (set_queue rest e) e' \<and> active_command_source e' = 0" using assms(3) by simp
  then show ?thesis using sent_by_waiting by (fastforce simp: one_answer_def)
qed

text \<open>C11: The command task answers every command lane it takes from the queue exactly once, with OK, an
  error or BUSY: one lane goes to the transport the command came from, and nothing to the other two;
  the queue has lost just that command. A transport may refuse the lane, but nothing else reaches it.\<close>

theorem command_round_answers:
  assumes "waiting e = cmd # rest" "cmd_length cmd = 18" "command_round tg e t = Some (e', t')"
  shows "one_answer (cmd_source cmd) (set_queue rest e) e' \<and> waiting e' = rest \<and> active_command_source e' = 0"
  by (rule round_answers [OF assms])

text \<open>A board on USB that asks for the version.\<close>

definition esp_up :: esp where
  "esp_up = (power_on ESP32S3 (\<lambda>_. None) None)\<lparr>rtm := esp_idle\<rparr>"

lemma esp_up_simps [simp]:
  "rtm esp_up = esp_idle" "answers esp_up = []" "active_command_source esp_up = 0" "eble esp_up = ble_reset" "ewifi esp_up = wifi_boot\<lparr>wifi_nvs := (\<lambda>_. None)\<rparr>"
  "ereg esp_up = replicate 64 None"
  by (simp_all add: esp_up_def power_on_def)

definition lane_command :: "u8 \<Rightarrow> u8 list \<Rightarrow> command_t" where
  "lane_command src bytes = \<lparr>cmd_data = blit (zeros 256) 0 bytes, cmd_length = 18, cmd_source = src\<rparr>"

lemma lane_command_simps [simp]:
  "cmd_length (lane_command src bytes) = 18" "cmd_source (lane_command src bytes) = src"
  by (simp_all add: lane_command_def)

lemma lane_command_nth: "i < length bytes \<Longrightarrow> length bytes \<le> 256 \<Longrightarrow> cmd_data (lane_command src bytes) ! i = bytes ! i"
  by (simp add: lane_command_def blit_def nth_append)

lemma version_round:
  "\<exists>e'. command_round ESP32S3 (set_queue [lane_command 1 (1 # zeros 17)] esp_up) [1, 1, 48] = Some (e', [])"
proof -
  have d: "cmd_data (lane_command 1 (1 # zeros 17)) ! 0 = 1" "cmd_data (lane_command 1 (1 # zeros 17)) ! Suc 0 = 0"
    using lane_command_nth [of 0 "1 # zeros 17"] lane_command_nth [of 1 "1 # zeros 17"] by (simp_all add: zeros_def)
  show ?thesis
    by (simp add: command_round_def set_queue_def waiting_def upd_usb_def upd_sess_def esp_usb_reset_def no_claim_def transport_session_allows_command_def
        expire_stale_claim_def is_transport_session_connect_def is_transport_session_status_def is_allowed_discovery_command_def
        source_defs d handle_binary_packet_def EMW_USB_CMD_LANE_SIZE_def send_binary_ok_def send_binary_def usb_send_cmd_response_def
        send_frame_def usb_is_ready_def Let_def)
qed

theorem command_round_answers_witness:
  "\<exists>e'. command_round ESP32S3 (set_queue [lane_command 1 (1 # zeros 17)] esp_up) [1, 1, 48] = Some (e', []) \<and>
     one_answer 1 (set_queue [] esp_up) e' \<and> waiting e' = []"
proof -
  obtain e' where r: "command_round ESP32S3 (set_queue [lane_command 1 (1 # zeros 17)] esp_up) [1, 1, 48] = Some (e', [])"
    using version_round by blast
  have q: "set_queue [] (set_queue q esp_up) = set_queue [] esp_up" for q by (simp add: set_queue_def upd_usb_def)
  from command_round_answers [OF _ _ r] r show ?thesis by (simp add: q)
qed

section \<open>Refused commands\<close>

text \<open>
  Undoing what handing over one answer does (the logs of the transports, the slot for a response
  that waits for a stream frame) and putting the queue and the session back gives the old state back:
  the receive ring, the buffer type, the pending status and everything outside the transports are
  as before.
\<close>

definition only_transport :: "esp \<Rightarrow> esp \<Rightarrow> bool" where
  "only_transport e e' \<longleftrightarrow> e'\<lparr>eble := (eble e')\<lparr>notifications := notifications (eble e)\<rparr>,
     ewifi := (ewifi e')\<lparr>ws_sent := ws_sent (ewifi e)\<rparr>, answers := answers e,
     rtm := (rtm e')\<lparr>eu := (eu (rtm e'))\<lparr>usb_stream := usb_stream (eu (rtm e)), s_pending_cmd_lane := s_pending_cmd_lane (eu (rtm e)),
       s_pending_cmd_ready := s_pending_cmd_ready (eu (rtm e)), cmd_queue := cmd_queue (eu (rtm e)), sess := sess (eu (rtm e))\<rparr>\<rparr>,
     active_command_source := active_command_source e\<rparr> = e"

text \<open>The only change of the session that looking at it makes: a claim that has timed out is dropped.\<close>

definition expired :: "session \<Rightarrow> u32 \<Rightarrow> session" where
  "expired s now = (if s_active_source s \<noteq> EMW_TRANSPORT_SOURCE_NONE \<and> now - s_last_activity_tick s > timeout_ticks
     then s\<lparr>s_active_source := EMW_TRANSPORT_SOURCE_NONE\<rparr> else s)"

lemma wifi_send_only:
  "post (\<lambda>(err, w', t'). w'\<lparr>ws_sent := ws_sent w\<rparr> = w) (wifi_transport_send_cmd_response status payload w t)"
  unfolding wifi_transport_send_cmd_response_def wifi_send_superframe_def Let_def by (auto intro!: post_rules)

lemma ble_send_only:
  "post (\<lambda>(err, b', t'). b'\<lparr>notifications := notifications b\<rparr> = b) (ble_server_send_cmd_response status payload b t)"
  by (rule post_mono [OF ble_send_post]) auto

lemma usb_send_only:
  "post (\<lambda>(err, u', t'). u'\<lparr>usb_stream := usb_stream u, s_pending_cmd_lane := s_pending_cmd_lane u,
     s_pending_cmd_ready := s_pending_cmd_ready u\<rparr> = u \<and> sess u' = sess u) (usb_send_cmd_response status payload u t)"
  unfolding usb_send_cmd_response_def send_frame_def usb_is_ready_def Let_def by (auto intro!: post_rules)

lemma busy_only:
  "post (\<lambda>(e', t'). only_transport e e' \<and> sess (eu (rtm e')) = sess (eu (rtm e)) \<and>
     answers e' = answers e @ [(active_command_source e, 0x82 # zeros 17)]) (send_binary_busy e t)"
proof -
  have l: "blit (zeros 18) 0 (0x82 # take 17 []) = 0x82 # zeros 17" by (simp add: blit_def zeros_def numeral_eq_Suc)
  show ?thesis
    unfolding send_binary_busy_def send_binary_def Let_def l
    by (auto intro!: post_if post_bind post_mono [OF wifi_send_only] post_mono [OF ble_send_only] post_mono [OF usb_send_only]
        simp: only_transport_def upd_usb_def)
qed

lemma upd_sess_simps [simp]:
  "answers (upd_sess s e) = answers e" "active_command_source (upd_sess s e) = active_command_source e"
  "sess (eu (rtm (upd_sess s e))) = s"
  by (simp_all add: upd_sess_def upd_usb_def)

lemma only_transport_upd:
  "only_transport (upd_sess s (set_queue q e\<lparr>active_command_source := n\<rparr>)) e' \<Longrightarrow>
   only_transport e (e'\<lparr>active_command_source := m\<rparr>)"
  unfolding only_transport_def upd_sess_def set_queue_def upd_usb_def
  by (drule arg_cong [where f = "\<lambda>x. x\<lparr>rtm := (rtm x)\<lparr>eu := (eu (rtm x))\<lparr>cmd_queue := cmd_queue (eu (rtm e)), sess := sess (eu (rtm e))\<rparr>\<rparr>,
    active_command_source := active_command_source e\<rparr>"]) simp

lemma busy_from:
  "post (\<lambda>(e', t'). only_transport e (e'\<lparr>active_command_source := m\<rparr>) \<and> sess (eu (rtm e')) = s \<and>
     answers e' = answers e @ [(n, 0x82 # zeros 17)])
     (send_binary_busy (upd_sess s ((set_queue q e)\<lparr>active_command_source := n\<rparr>)) t)"
proof (rule post_mono [OF busy_only], clarify)
  fix e' t'
  assume "only_transport (upd_sess s ((set_queue q e)\<lparr>active_command_source := n\<rparr>)) e'"
    "sess (eu (rtm e')) = sess (eu (rtm (upd_sess s ((set_queue q e)\<lparr>active_command_source := n\<rparr>))))"
    "answers e' = answers (upd_sess s ((set_queue q e)\<lparr>active_command_source := n\<rparr>)) @
      [(active_command_source (upd_sess s ((set_queue q e)\<lparr>active_command_source := n\<rparr>)), 0x82 # zeros 17)]"
  then show "only_transport e (e'\<lparr>active_command_source := m\<rparr>) \<and> sess (eu (rtm e')) = s \<and>
      answers e' = answers e @ [(n, 0x82 # zeros 17)]"
    using only_transport_upd [where s = s and q = q and e = e and n = n and e' = e' and m = m] by simp
qed

definition privileged :: "command_t \<Rightarrow> bool" where
  "privileged cmd \<longleftrightarrow> is_transport_session_connect cmd \<or> is_transport_session_status cmd \<or> is_allowed_discovery_command cmd"

lemma refused:
  assumes "\<not> privileged cmd" "cmd_source cmd \<noteq> s_active_source s"
  shows "post (\<lambda>(allowed, s', t'). \<not> allowed \<and> s' = expired s (hd t)) (transport_session_allows_command cmd s t)"
  using assms unfolding transport_session_allows_command_def expire_stale_claim_def privileged_def expired_def
  by (auto intro!: post_if post_bind post_rd)

lemma round_refused:
  assumes "waiting e = cmd # rest" "cmd_length cmd \<noteq> 0" "\<not> privileged cmd" "cmd_source cmd \<noteq> s_active_source (sess (eu (rtm e)))"
    "command_round tg e t = Some (e', t')"
  shows "only_transport e e' \<and> sess (eu (rtm e')) = expired (sess (eu (rtm e))) (hd t) \<and> waiting e' = rest \<and>
    active_command_source e' = 0 \<and> answers e' = answers e @ [(cmd_source cmd, 0x82 # zeros 17)] \<and>
    sent_by (cmd_source cmd) (0x82 # zeros 17) (set_queue rest e) e'"
proof -
  let ?a = "(cmd_source cmd, 0x82 # zeros 17)" and ?s = "expired (sess (eu (rtm e))) (hd t)"
  have s: "sess (eu (rtm (set_queue rest e))) = sess (eu (rtm e))"
    by (simp add: set_queue_def upd_usb_def)
  note r = refused [OF assms(3,4), of t]
  have "post (\<lambda>(e', t'). only_transport e e' \<and> sess (eu (rtm e')) = ?s \<and> active_command_source e' = 0 \<and> answers e' = answers e @ [?a]) (command_round tg e t)"
    using assms(1,2) unfolding command_round_def Let_def
    by (auto simp: s intro!: post_bind post_mono [OF r] post_mono [OF busy_from])
  moreover have "post (\<lambda>(e', t'). one_answer (cmd_source cmd) (set_queue rest e) e') (command_round tg e t)"
    using assms(1,2) unfolding command_round_def Let_def
    by (auto simp: s intro!: post_bind post_mono [OF r] post_mono [OF send_busy_post [OF still_refl]] answered_one)
  ultimately have o: "only_transport e e'" "sess (eu (rtm e')) = ?s" "active_command_source e' = 0" "answers e' = answers e @ [?a]"
      "one_answer (cmd_source cmd) (set_queue rest e) e'"
    using assms(5) by auto
  then have "sent_by (cmd_source cmd) (0x82 # zeros 17) (set_queue rest e) e'" by (auto simp: one_answer_def)
  then show ?thesis using o sent_by_waiting by fastforce
qed

text \<open>C12: A command from a source that does not hold the claim is answered BUSY and does nothing else,
  unless it asks for the claim or is one of the discovery commands: one BUSY goes to the transport of
  its source (as a frame, or into the slot of a response that waits for a stream frame) and nothing
  to the other two, the queue loses this command, and the claim stays with its holder at its age; it
  is only dropped if it has timed out. The receive ring and the buffer type, pins, radios, sampler,
  playback, PWM, names, settings, staged credentials and registry are as before.\<close>

theorem refused_command_does_nothing:
  assumes "waiting e = cmd # rest" "cmd_length cmd \<noteq> 0" "\<not> privileged cmd" "cmd_source cmd \<noteq> s_active_source (sess (eu (rtm e)))"
    "command_round tg e t = Some (e', t')"
  shows "only_transport e e' \<and> sess (eu (rtm e')) = expired (sess (eu (rtm e))) (hd t) \<and> waiting e' = rest \<and>
    active_command_source e' = 0 \<and> answers e' = answers e @ [(cmd_source cmd, 0x82 # zeros 17)] \<and>
    sent_by (cmd_source cmd) (0x82 # zeros 17) (set_queue rest e) e'"
  by (rule round_refused [OF assms])

definition claimed :: "u8 \<Rightarrow> esp" where
  "claimed src = upd_sess \<lparr>s_active_source = src, s_last_activity_tick = 0\<rparr> esp_up"

text \<open>USB asks for a sampling while Bluetooth holds the claim.\<close>

theorem refused_command_does_nothing_witness:
  "\<exists>e'. command_round ESP32S3 (set_queue [lane_command 1 (0x60 # zeros 17)] (claimed 2)) [100, 1, 1, 48] = Some (e', []) \<and>
     only_transport (set_queue [lane_command 1 (0x60 # zeros 17)] (claimed 2)) e' \<and>
     sess (eu (rtm e')) = \<lparr>s_active_source = 2, s_last_activity_tick = 0\<rparr> \<and> answers e' = [(1, 0x82 # zeros 17)]"
proof -
  let ?e = "set_queue [lane_command 1 (0x60 # zeros 17)] (claimed 2)"
  have d: "cmd_data (lane_command 1 (0x60 # zeros 17)) ! 0 = 0x60"
    using lane_command_nth [of 0 "0x60 # zeros 17"] by (simp add: zeros_def)
  obtain e' where r: "command_round ESP32S3 ?e [100, 1, 1, 48] = Some (e', [])"
    by (simp add: command_round_def claimed_def set_queue_def waiting_def upd_usb_def upd_sess_def esp_usb_reset_def transport_session_allows_command_def
        expire_stale_claim_def is_transport_session_connect_def is_transport_session_status_def is_allowed_discovery_command_def timeout_ticks_def
        source_defs d send_binary_busy_def send_binary_def usb_send_cmd_response_def send_frame_def usb_is_ready_def Let_def)
  have p: "\<not> privileged (lane_command 1 (0x60 # zeros 17))"
    by (simp add: privileged_def is_transport_session_connect_def is_transport_session_status_def is_allowed_discovery_command_def d Let_def)
  have s: "sess (eu (rtm ?e)) = \<lparr>s_active_source = 2, s_last_activity_tick = 0\<rparr>" "answers ?e = []"
    by (simp_all add: claimed_def set_queue_def upd_sess_def upd_usb_def)
  then have "cmd_source (lane_command 1 (0x60 # zeros 17)) \<noteq> s_active_source (sess (eu (rtm ?e)))" by simp
  from refused_command_does_nothing [OF waiting_set_queue(1) _ p this r] r show ?thesis
    unfolding s by (simp add: expired_def timeout_ticks_def)
qed

section \<open>Where the answers to lines of text go\<close>

text \<open>A line of text written over Bluetooth carries a source that nobody has set. While Bluetooth
  holds the claim the line is carried out only if that byte happens to be the number of Bluetooth;
  otherwise it has no effect, and the BUSY for it goes to another transport: the host that wrote it
  gets no answer at all.\<close>

theorem raw_text_loses_its_source:
  assumes "waiting e = raw_command data garbage # rest" "length data \<le> 256" "length data \<notin> {0, 18}"
    "s_active_source (sess (eu (rtm e))) = EMW_COMMAND_SOURCE_BLE" "ucast garbage \<noteq> EMW_COMMAND_SOURCE_BLE"
    "command_round tg e t = Some (e', t')"
  shows "only_transport e e' \<and> answers e' = answers e @ [(ucast garbage, 0x82 # zeros 17)] \<and> eble e' = eble e"
proof -
  have l: "(of_nat (length data) :: u16) = of_nat n \<longleftrightarrow> length data = n" if "n \<le> 256" for n
    using assms(2) that by (simp add: word_unat_eq_iff unat_of_nat take_bit_eq_mod)
  have n: "cmd_length (raw_command data garbage) \<noteq> 0" "cmd_length (raw_command data garbage) \<noteq> 18"
    using l [of 0] l [of 18] assms(3) by (auto simp: raw_command_def)
  then have p: "\<not> privileged (raw_command data garbage)"
    by (simp add: privileged_def is_transport_session_connect_def is_transport_session_status_def is_allowed_discovery_command_def)
  have c: "cmd_source (raw_command data garbage) = ucast garbage" by (simp add: raw_command_def)
  have "only_transport e e' \<and> answers e' = answers e @ [(ucast garbage, 0x82 # zeros 17)] \<and>
      sent_by (ucast garbage) (0x82 # zeros 17) (set_queue rest e) e'"
    using round_refused [OF assms(1) n(1) p _ assms(6)] assms(4,5) unfolding c by simp
  moreover have "eble (set_queue rest e) = eble e" by (simp add: set_queue_def upd_usb_def)
  ultimately show ?thesis using assms(5) by (auto simp: sent_by_def)
qed

text \<open>\<open>version\<close> with a byte of zero.\<close>

theorem raw_text_loses_its_source_witness:
  "\<exists>e'. command_round ESP32S3 (set_queue [raw_command (bytes_of ''version'') 0] (claimed 2)) [100, 1, 1, 48] = Some (e', []) \<and>
     answers e' = [(0, 0x82 # zeros 17)] \<and> eble e' = ble_reset"
proof -
  let ?c = "raw_command (bytes_of ''version'') 0" and ?e = "set_queue [raw_command (bytes_of ''version'') 0] (claimed 2)"
  have bytes: "length (bytes_of ''version'') = 7" by (simp add: bytes_of_def)
  have d: "cmd_length ?c = 7" "cmd_source ?c = 0" by (simp_all add: raw_command_def bytes_of_def)
  obtain e' where r: "command_round ESP32S3 ?e [100, 1, 1, 48] = Some (e', [])"
    by (simp add: command_round_def claimed_def set_queue_def waiting_def upd_usb_def upd_sess_def esp_usb_reset_def transport_session_allows_command_def
        expire_stale_claim_def is_transport_session_connect_def is_transport_session_status_def is_allowed_discovery_command_def timeout_ticks_def
        source_defs d send_binary_busy_def send_binary_def usb_send_cmd_response_def send_frame_def usb_is_ready_def Let_def)
  have s: "s_active_source (sess (eu (rtm ?e))) = EMW_COMMAND_SOURCE_BLE" "answers (claimed 2) = []" "eble ?e = ble_reset"
    by (simp_all add: claimed_def set_queue_def upd_sess_def upd_usb_def source_defs)
  have "only_transport ?e e' \<and> answers e' = answers ?e @ [(ucast (0 :: u32), 0x82 # zeros 17)] \<and> eble e' = eble ?e"
    using raw_text_loses_its_source [OF waiting_set_queue(1) _ _ s(1) _ r] bytes by (simp add: source_defs)
  with r s show ?thesis by simp
qed

text \<open>A line of text that is let through is answered over Bluetooth or not at all, whatever transport
  it came from: USB and Wi-Fi see nothing of it, and no command lane is sent.\<close>

theorem text_answers_over_bluetooth_only:
  assumes "waiting e = cmd # rest" "cmd_length cmd \<notin> {0, 18}" "command_round tg e t = Some (e', t')"
    "transport_session_allows_command cmd (sess (eu (rtm e))) t = Some (True, s, u)"
  shows "answers e' = answers e \<and> ws_sent (ewifi e') = ws_sent (ewifi e) \<and> usb_wire (eu (rtm e')) = usb_wire (eu (rtm (set_queue rest e)))"
proof -
  have q: "sess (eu (rtm (set_queue rest e))) = sess (eu (rtm e))" "ws_sent (ewifi (set_queue rest e)) = ws_sent (ewifi e)"
    by (simp_all add: set_queue_def upd_usb_def)
  have "post (\<lambda>(e', t'). answers e' = answers e \<and> ws_sent (ewifi e') = ws_sent (ewifi e) \<and>
      usb_wire (eu (rtm e')) = usb_wire (eu (rtm (set_queue rest e)))) (command_round tg e t)"
    using assms(1,2,4) unfolding command_round_def Let_def handle_binary_packet_def EMW_USB_CMD_LANE_SIZE_def
    by (auto simp: q mute_def upd_sess_def upd_usb_def usb_wire_def intro!: post_mono [OF line_mute])
  then show ?thesis using assms(3) by simp
qed

text \<open>An unknown word of a client on USB, on a board whose registry is empty, with a Bluetooth host connected.\<close>

definition ble_listening :: esp where
  "ble_listening = (claimed 1)\<lparr>eble := ble_reset\<lparr>notification_handle := 5, notify_conn_handle := Some 1\<rparr>\<rparr>"

lemma unknown_word:
  "cmd_length (trim_command (raw_command [0x78] 1)) = 1" "command_registry_is_ascii (trim_command (raw_command [0x78] 1))"
  "command_registry_handle (trim_command (raw_command [0x78] 1)) (replicate 64 None) = SendErr ''unknown command''"
  by (code_simp, code_simp, code_simp)

theorem text_answers_over_bluetooth_only_witness:
  "\<exists>e'. command_round ESP32S3 (set_queue [raw_command [0x78] 1] ble_listening) [100, 100, 1, 0] = Some (e', []) \<and>
     notifications (eble e') = [(5, blit (zeros 64) 0 [0xFF])] \<and> usb_stream (eu (rtm e')) = [] \<and> answers e' = []"
proof -
  let ?c = "raw_command [0x78] 1" and ?e = "set_queue [raw_command [0x78] 1] ble_listening"
  have d: "cmd_length ?c = 1" "cmd_source ?c = 1" by (simp_all add: raw_command_def)
  have f: "sess (eu (rtm ?e)) = \<lparr>s_active_source = 1, s_last_activity_tick = 0\<rparr>" "answers ?e = []" "usb_stream (eu (rtm (set_queue [] ?e))) = []"
    "ereg ble_listening = replicate 64 None" "eble ble_listening = ble_reset\<lparr>notification_handle := 5, notify_conn_handle := Some 1\<rparr>"
    by (simp_all add: ble_listening_def claimed_def set_queue_def upd_sess_def upd_usb_def esp_usb_reset_def esp_up_def power_on_def)
  have a: "transport_session_allows_command ?c (sess (eu (rtm ?e))) [100, 100, 1, 0] =
      Some (True, \<lparr>s_active_source = 1, s_last_activity_tick = 100\<rparr>, [1, 0])"
    by (simp add: f transport_session_allows_command_def expire_stale_claim_def is_transport_session_connect_def timeout_ticks_def
        is_transport_session_status_def is_allowed_discovery_command_def source_defs d)
  obtain e' where r: "command_round ESP32S3 ?e [100, 100, 1, 0] = Some (e', [])" "notifications (eble e') = [(5, blit (zeros 64) 0 [0xFF])]"
    using a unfolding f
    by (simp add: f command_round_def set_queue_def waiting_def upd_usb_def upd_sess_def d handle_binary_packet_def EMW_USB_CMD_LANE_SIZE_def
        handle_line_def unknown_word esp_send_err_def ble_server_notify_def ble_server_notify_attr_def ble_reset_def Let_def ble_listening_def claimed_def)
  have "usb_wire (eu (rtm e')) = usb_wire (eu (rtm (set_queue [] ?e)))" "answers e' = answers ?e"
    using text_answers_over_bluetooth_only [OF waiting_set_queue(1) _ r(1) a] d by simp_all
  then show ?thesis using r f by (auto simp: usb_wire_def)
qed

end
