(* ===== verification/Esp_Stage.thy ===== *)
theory Esp_Stage
  imports Esp_Boot
begin

text \<open>
  Provisioning by command lanes: what a host sends to hand over Wi-Fi credentials in pieces of at most
  thirteen bytes, and that the handler of \<open>Esp_Core\<close> puts them together again.
\<close>

section \<open>The lanes of a host\<close>

definition field_lane :: "u8 \<Rightarrow> nat \<Rightarrow> u8 list \<Rightarrow> u8 list" where
  "field_lane kind off chunk = blit (zeros 18) 0 ([0x0A, 1, kind, of_nat off, of_nat (length chunk)] @ chunk)"

function field_lanes :: "u8 \<Rightarrow> nat \<Rightarrow> u8 list \<Rightarrow> u8 list list" where
  "field_lanes kind off bs = (if bs = [] then [] else field_lane kind off (take 13 bs) # field_lanes kind (off + 13) (drop 13 bs))"
  by pat_completeness auto
termination by (relation "measure (\<lambda>(kind, off, bs). length bs)") auto

declare field_lanes.simps [simp del]

definition config_lane :: "u8 \<Rightarrow> u8 list" where
  "config_lane sub = blit (zeros 18) 0 [0x0A, sub]"

definition provisioning_lanes :: "u8 list \<Rightarrow> u8 list \<Rightarrow> u8 list list" where
  "provisioning_lanes name pass = config_lane 0 # field_lanes 0 0 name @ field_lanes 1 0 pass"

fun config_run :: "u8 list list \<Rightarrow> esp \<Rightarrow> trace \<Rightarrow> (esp \<times> trace) option" where
  "config_run [] e t = Some (e, t)"
| "config_run (d # ds) e t = do { (e, t) \<leftarrow> handle_wifi_config_opcode d e t; config_run ds e t }"

lemma config_run_append: "config_run (as @ bs) e t = config_run as e t \<bind> (\<lambda>(e, t). config_run bs e t)"
  by (induction as arbitrary: e t) (auto simp: bind_assoc split_def Option.bind_assoc)

definition chars :: "u8 list \<Rightarrow> string" where
  "chars bs = map (\<lambda>b. char_of (uint b)) bs"

section \<open>One piece\<close>

lemma field_lane_nth:
  assumes "length chunk \<le> 13"
  shows "field_lane kind off chunk ! 0 = 0x0A" "field_lane kind off chunk ! 1 = 1" "field_lane kind off chunk ! 2 = kind"
    "field_lane kind off chunk ! 3 = of_nat off" "field_lane kind off chunk ! 4 = of_nat (length chunk)"
    "take (length chunk) (drop 5 (field_lane kind off chunk)) = chunk"
  using assms by (simp_all add: field_lane_def blit_def nth_append)

text \<open>The text so far, terminated.\<close>

definition holds_text :: "u8 list \<Rightarrow> u8 list \<Rightarrow> bool" where
  "holds_text s buf \<longleftrightarrow> length s < length buf \<and> take (length s) buf = s \<and> buf ! length s = 0"

lemma holds_text_string: "holds_text s buf \<Longrightarrow> 0 \<notin> set s \<Longrightarrow> c_string buf = chars s"
proof -
  assume h: "holds_text s buf" "0 \<notin> set s"
  have "buf = s @ 0 # drop (Suc (length s)) buf"
    using h(1) id_take_nth_drop [of "length s" buf] by (simp add: holds_text_def)
  moreover have "takeWhile (\<lambda>b. b \<noteq> 0) (s @ 0 # r) = s" for r using h(2) by (induction s) auto
  ultimately have "takeWhile (\<lambda>b. b \<noteq> 0) buf = s" by metis
  then show ?thesis by (simp add: c_string_def chars_def)
qed

lemma stage_piece:
  assumes "holds_text s buf" "length chunk \<le> 13" "length s + length chunk < length buf" "length buf \<le> 65"
  shows "\<exists>buf'. stage_field (field_lane kind (length s) chunk) buf = Some buf' \<and> length buf' = length buf \<and> holds_text (s @ chunk) buf'"
proof -
  have u: "unat (of_nat (length s) :: u8) = length s" "unat (of_nat (length chunk) :: u8) = length chunk"
    using assms(2-4) by (simp_all add: unat_of_nat take_bit_eq_mod)
  have l: "\<not> (of_nat (length chunk) :: u8) > 13"
    using assms(2) u(2) by (simp add: word_less_nat_alt)
  let ?b = "(blit buf (length s) chunk)[length s + length chunk := 0]"
  have s: "take (length s) buf = s" using assms(1) by (simp add: holds_text_def)
  have "stage_field (field_lane kind (length s) chunk) buf = Some ?b"
    using assms(3) l by (simp add: stage_field_def field_lane_nth [OF assms(2)] u Let_def)
  moreover have "length ?b = length buf" using assms(3) by simp
  moreover have "holds_text (s @ chunk) ?b"
    using assms(3) s by (simp add: holds_text_def blit_def)
  ultimately show ?thesis by blast
qed

section \<open>The answers and what they leave alone\<close>

definition replied_with :: "u8 \<Rightarrow> esp \<Rightarrow> esp \<Rightarrow> bool" where
  "replied_with st e e' \<longleftrightarrow> answers e' = answers e @ [(active_command_source e, st # zeros 17)] \<and>
     active_command_source e' = active_command_source e \<and> staged_ssid e' = staged_ssid e \<and> staged_password e' = staged_password e \<and>
     staged_active e' = staged_active e \<and> s_config (ewifi e') = s_config (ewifi e)"

lemma status_lane: "blit (zeros 18) 0 (st # take 17 []) = st # zeros 17"
  by (simp add: blit_def zeros_def numeral_eq_Suc)

lemma wifi_send_config: "post (\<lambda>(err, w', t'). s_config w' = s_config w) (wifi_transport_send_cmd_response st payload w t)"
  unfolding wifi_transport_send_cmd_response_def wifi_send_superframe_def Let_def by (auto intro!: post_rules)

lemma bare_answer: "post (\<lambda>(e', t'). replied_with st e e') (send_binary st [] e t)"
  unfolding send_binary_def Let_def status_lane
  by (auto intro!: post_if post_bind post_mono [OF wifi_send_config] post_any_bind [where m = "ble_server_send_cmd_response s p b t" for s p b t]
      post_any_bind [where m = "usb_send_cmd_response s p b t" for s p b t] simp: replied_with_def upd_usb_def)

definition staging :: "u8 list \<Rightarrow> u8 list \<Rightarrow> esp \<Rightarrow> bool" where
  "staging name pass e \<longleftrightarrow> staged_active e \<and> length (staged_ssid e) = 33 \<and> length (staged_password e) = 65 \<and>
     holds_text name (staged_ssid e) \<and> holds_text pass (staged_password e)"

definition all_ok :: "nat \<Rightarrow> esp \<Rightarrow> esp \<Rightarrow> bool" where
  "all_ok n e e' \<longleftrightarrow> answers e' = answers e @ replicate n (active_command_source e, 0x80 # zeros 17) \<and>
     active_command_source e' = active_command_source e"

lemma all_ok_trans: "all_ok m e e1 \<Longrightarrow> all_ok n e1 e' \<Longrightarrow> all_ok (m + n) e e'"
  by (simp add: all_ok_def replicate_add)

lemma config_lane_nth [simp]: "config_lane sub ! 0 = 0x0A" "config_lane sub ! 1 = sub" "config_lane sub ! Suc 0 = sub"
  by (simp_all add: config_lane_def blit_def)

lemma begin_staging: "post (\<lambda>(e', t'). staging [] [] e' \<and> all_ok 1 e e') (handle_wifi_config_opcode (config_lane 0) e t)"
  unfolding handle_wifi_config_opcode_def Let_def send_binary_ok_def
  by (auto intro!: post_mono [OF bare_answer] simp: replied_with_def staging_def all_ok_def reset_staging_def holds_text_def zeros_def)

lemma ssid_piece:
  assumes "staging name pass e" "length chunk \<le> 13" "length name + length chunk \<le> 32"
  shows "post (\<lambda>(e', t'). staging (name @ chunk) pass e' \<and> all_ok 1 e e') (handle_wifi_config_opcode (field_lane 0 (length name) chunk) e t)"
proof -
  obtain buf' where b: "stage_field (field_lane 0 (length name) chunk) (staged_ssid e) = Some buf'" "length buf' = 33" "holds_text (name @ chunk) buf'"
    using stage_piece [of name "staged_ssid e" chunk 0] assms by (auto simp: staging_def)
  have l: "field_lane 0 (length name) chunk ! Suc 0 = 1" using field_lane_nth(2) [OF assms(2), of 0 "length name"] by simp
  show ?thesis
    using assms(1) b(2,3) unfolding handle_wifi_config_opcode_def Let_def send_binary_ok_def
    by (auto intro!: post_mono [OF bare_answer] simp: l b(1) field_lane_nth [OF assms(2)] replied_with_def staging_def all_ok_def)
qed

lemma pass_piece:
  assumes "staging name pass e" "length chunk \<le> 13" "length pass + length chunk \<le> 64"
  shows "post (\<lambda>(e', t'). staging name (pass @ chunk) e' \<and> all_ok 1 e e') (handle_wifi_config_opcode (field_lane 1 (length pass) chunk) e t)"
proof -
  obtain buf' where b: "stage_field (field_lane 1 (length pass) chunk) (staged_password e) = Some buf'" "length buf' = 65" "holds_text (pass @ chunk) buf'"
    using stage_piece [of pass "staged_password e" chunk 1] assms by (auto simp: staging_def)
  have l: "field_lane 1 (length pass) chunk ! Suc 0 = 1" using field_lane_nth(2) [OF assms(2), of 1 "length pass"] by simp
  show ?thesis
    using assms(1) b(2,3) unfolding handle_wifi_config_opcode_def Let_def send_binary_ok_def
    by (auto intro!: post_mono [OF bare_answer] simp: l b(1) field_lane_nth [OF assms(2)] replied_with_def staging_def all_ok_def)
qed

text \<open>All pieces of a field, for a step that handles one piece.\<close>

lemma field_run:
  assumes piece: "\<And>got chunk e t. S got e \<Longrightarrow> length chunk \<le> 13 \<Longrightarrow> length got + length chunk \<le> n \<Longrightarrow>
      post (\<lambda>(e', t'). S (got @ chunk) e' \<and> all_ok 1 e e') (handle_wifi_config_opcode (field_lane kind (length got) chunk) e t)"
    and "S got e" "length got + length bs \<le> n"
  shows "post (\<lambda>(e', t'). S (got @ bs) e' \<and> all_ok (length (field_lanes kind (length got) bs)) e e')
    (config_run (field_lanes kind (length got) bs) e t)"
  using assms(2,3)
proof (induction "length bs" arbitrary: bs got e t rule: less_induct)
  case less
  show ?case
  proof (cases "bs = []")
    case True
    then show ?thesis using less.prems by (simp add: field_lanes.simps all_ok_def)
  next
    case False
    let ?c = "take 13 bs" and ?r = "drop 13 bs"
    have p: "post (\<lambda>(e', t'). S (got @ ?c) e' \<and> all_ok 1 e e') (handle_wifi_config_opcode (field_lane kind (length got) ?c) e t)"
      using less.prems by (intro piece) auto
    have rest: "post (\<lambda>(e', t'). S (got @ bs) e' \<and> all_ok (Suc (length (field_lanes kind (length got + 13) ?r))) e e')
        (config_run (field_lanes kind (length got + 13) ?r) e1 t1)" if h: "S (got @ ?c) e1" "all_ok 1 e e1" for e1 t1
    proof (cases "?r = []")
      case True
      then show ?thesis using h by (simp add: field_lanes.simps)
    next
      case r: False
      then have l: "length (got @ ?c) = length got + 13" by simp
      have "post (\<lambda>(e', t'). S ((got @ ?c) @ ?r) e' \<and> all_ok (length (field_lanes kind (length (got @ ?c)) ?r)) e1 e')
          (config_run (field_lanes kind (length (got @ ?c)) ?r) e1 t1)"
        using False less.prems by (intro less.hyps h(1)) auto
      then show ?thesis unfolding l by (rule post_mono) (use all_ok_trans [OF h(2)] in auto)
    qed
    show ?thesis
      unfolding field_lanes.simps [of kind "length got" bs] using False
      by (auto intro!: post_bind post_mono [OF p] rest)
  qed
qed

section \<open>The credentials arrive\<close>

lemma staged_run:
  assumes "length name \<le> 32" "length pass \<le> 64"
  shows "post (\<lambda>(e', t'). staging name pass e' \<and> all_ok (length (provisioning_lanes name pass)) e e') (config_run (provisioning_lanes name pass) e t)"
proof -
  let ?n = "length (field_lanes 0 0 name)" and ?p = "length (field_lanes 1 0 pass)"
  have n: "post (\<lambda>(e', t'). staging name [] e' \<and> all_ok ?n e1 e') (config_run (field_lanes 0 0 name) e1 t1)" if "staging [] [] e1" for e1 t1
    using field_run [where S = "\<lambda>d. staging d []" and kind = 0 and n = 32 and bs = name and got = "[]", OF ssid_piece that] assms(1) by simp
  have p: "post (\<lambda>(e', t'). staging name pass e' \<and> all_ok ?p e1 e') (config_run (field_lanes 1 0 pass) e1 t1)" if "staging name [] e1" for e1 t1
    using field_run [where S = "staging name" and kind = 1 and n = 64 and bs = pass and got = "[]", OF pass_piece that] assms(2) by simp
  have np: "post (\<lambda>(e', t'). staging name pass e' \<and> all_ok (?n + ?p) e1 e') (config_run (field_lanes 0 0 name @ field_lanes 1 0 pass) e1 t1)"
    if "staging [] [] e1" for e1 t1
    unfolding config_run_append
    by (rule post_bind, rule post_mono [OF n [OF that]]) (auto intro!: post_mono [OF p] intro: all_ok_trans)
  show ?thesis
    unfolding provisioning_lanes_def config_run.simps
    by (rule post_bind, rule post_mono [OF begin_staging]) (auto intro!: post_mono [OF np] dest: all_ok_trans)
qed

lemma provisioned_config:
  "post (\<lambda>(err, w', t'). err = WIFI_OK \<longrightarrow> ssid (s_config w') = n \<and> password (s_config w') = p) (wifi_transport_provision n p w t)"
  using provision_ok by (fastforce simp: post_def split: prod.split)

definition applied :: "u8 list \<Rightarrow> u8 list \<Rightarrow> esp \<Rightarrow> esp \<Rightarrow> bool" where
  "applied name pass e e' \<longleftrightarrow>
     (answers e' = answers e @ [(active_command_source e, 0x80 # zeros 17)] \<and> ssid (s_config (ewifi e')) = chars name \<and>
        password (s_config (ewifi e')) = chars pass \<and> staged_ssid e' = zeros 33 \<and> staged_password e' = zeros 65 \<and> \<not> staged_active e') \<or>
     (answers e' = answers e @ [(active_command_source e, 0x81 # zeros 17)] \<and> staging name pass e')"

lemma apply_staged:
  assumes "staging name pass e" "0 \<notin> set name" "0 \<notin> set pass"
  shows "post (\<lambda>(e', t'). applied name pass e e') (handle_wifi_config_opcode (config_lane 2) e t)"
proof -
  have c: "c_string (staged_ssid e) = chars name" "c_string (staged_password e) = chars pass" "staged_active e"
    using assms holds_text_string by (auto simp: staging_def)
  have "post (\<lambda>(e', t'). applied name pass e e')
    (do { (err, w, t) \<leftarrow> wifi_transport_provision (chars name) (chars pass) (ewifi e) t;
          let e = e\<lparr>ewifi := w\<rparr>;
          if err \<noteq> WIFI_OK then send_binary_err e t
          else send_binary_ok [] ((reset_staging e)\<lparr>staged_active := False\<rparr>) t })"
    using assms(1) unfolding send_binary_err_def send_binary_ok_def Let_def
    by (auto intro!: post_bind post_mono [OF provisioned_config] post_if post_mono [OF bare_answer]
        simp: applied_def replied_with_def reset_staging_def staging_def)
  then show ?thesis by (simp add: handle_wifi_config_opcode_def c)
qed

text \<open>C19: Credentials sent in pieces arrive whole: a network name of at most 32 bytes and a password of
  at most 64, cut into fields of thirteen bytes, are accepted lane by lane; the lane that applies them
  either stores exactly these texts and clears the staging buffers, or reports an error and keeps them
  for another attempt.\<close>

theorem wifi_staging_roundtrip:
  assumes "config_run (provisioning_lanes name pass @ [config_lane 2]) e t = Some (e', t')"
    "length name \<le> 32" "length pass \<le> 64" "0 \<notin> set name" "0 \<notin> set pass"
  shows "\<exists>e1. all_ok (length (provisioning_lanes name pass)) e e1 \<and> staging name pass e1 \<and> applied name pass e1 e'"
proof -
  have "post (\<lambda>(e', t'). \<exists>e1. all_ok (length (provisioning_lanes name pass)) e e1 \<and> staging name pass e1 \<and> applied name pass e1 e')
    (config_run (provisioning_lanes name pass @ [config_lane 2]) e t)"
    unfolding config_run_append config_run.simps
    by (rule post_bind, rule post_mono [OF staged_run [OF assms(2,3)]])
      (auto intro!: post_bind post_mono [OF apply_staged [OF _ assms(4,5)]])
  then show ?thesis using assms(1) by simp
qed

text \<open>The lanes come over Bluetooth, whose host has hung up, so that nothing is sent.\<close>

definition ble_client :: esp where
  "ble_client = (power_on ESP32S3 (\<lambda>_. None) None)\<lparr>active_command_source := 2\<rparr>"

lemma unheard: "active_command_source e = 2 \<Longrightarrow> notify_conn_handle (eble e) = None \<Longrightarrow>
   send_binary st [] e t = Some (e\<lparr>answers := answers e @ [(2, st # zeros 17)]\<rparr>, t)"
  by (simp add: send_binary_def status_lane [simplified] source_defs ble_server_send_cmd_response_def ble_server_send_superframe_def ble_server_notify_def
      ble_server_notify_attr_def Let_def)

lemma home_lanes: "provisioning_lanes (bytes_of ''home'') (bytes_of ''secret'') =
   [config_lane 0, field_lane 0 0 (bytes_of ''home''), field_lane 1 0 (bytes_of ''secret'')]"
  by (simp add: provisioning_lanes_def field_lanes.simps bytes_of_def)

lemma provision_new:
  "\<exists>w'. wifi_transport_provision ''home'' ''secret'' (wifi_boot\<lparr>wifi_nvs := (\<lambda>_. None)\<rparr>) (replicate 17 0) = Some (WIFI_OK, w', [])"
  by (simp add: wifi_transport_provision_def wifi_boot_def config_field_fits_def default_hostname_def rd_mac45_def
      save_config_def nvs_put_def start_station_def netif_setup_def ESP_ERROR_CHECK_def ESP_ERROR_CHECK_unless_def station_config_def
      sta_ssid_size_def sta_password_size_def strlcpy_def blank_config_def hex2_def hex_char_def numeral_nat)

lemma home_staged:
  "stage_field (field_lane 0 0 (bytes_of ''home'')) (zeros 33) = Some (blit (zeros 33) 0 (bytes_of ''home''))"
  "stage_field (field_lane 1 0 (bytes_of ''secret'')) (zeros 65) = Some (blit (zeros 65) 0 (bytes_of ''secret''))"
  "c_string (blit (zeros 33) 0 (bytes_of ''home'')) = ''home''" "c_string (blit (zeros 65) 0 (bytes_of ''secret'')) = ''secret''"
  by (code_simp, code_simp, code_simp, code_simp)

theorem wifi_staging_roundtrip_witness:
  "\<exists>e'. config_run (provisioning_lanes (bytes_of ''home'') (bytes_of ''secret'') @ [config_lane 2]) ble_client (replicate 17 0) = Some (e', []) \<and>
     (\<exists>e1. all_ok 3 ble_client e1 \<and> applied (bytes_of ''home'') (bytes_of ''secret'') e1 e')"
proof -
  have u: "active_command_source ble_client = 2" "notify_conn_handle (eble ble_client) = None" "ewifi ble_client = wifi_boot\<lparr>wifi_nvs := (\<lambda>_. None)\<rparr>"
    by (simp_all add: ble_client_def power_on_def ble_reset_def)
  have l: "length (bytes_of ''home'') \<le> 13" "length (bytes_of ''secret'') \<le> 13" by (simp_all add: bytes_of_def)
  note n = field_lane_nth [OF l(1), of 0 0] field_lane_nth [OF l(2), of 1 0]
  obtain w' where w: "wifi_transport_provision ''home'' ''secret'' (wifi_boot\<lparr>wifi_nvs := (\<lambda>_. None)\<rparr>) (replicate 17 0) = Some (WIFI_OK, w', [])"
    using provision_new by blast
  obtain e' where r: "config_run (provisioning_lanes (bytes_of ''home'') (bytes_of ''secret'') @ [config_lane 2]) ble_client (replicate 17 0) = Some (e', [])"
    by (simp add: home_lanes handle_wifi_config_opcode_def n [simplified] send_binary_ok_def unheard u reset_staging_def home_staged w Let_def)
  have z: "0 \<notin> set (bytes_of ''home'')" "0 \<notin> set (bytes_of ''secret'')" by (simp_all add: bytes_of_def)
  have "length (bytes_of ''home'') \<le> 32" "length (bytes_of ''secret'') \<le> 64" by (simp_all add: bytes_of_def)
  from wifi_staging_roundtrip [OF r this z] r show ?thesis by (auto simp: home_lanes numeral_3_eq_3)
qed

end
