(* ===== verification/Esp8266_Link.thy ===== *)
theory Esp8266_Link
  imports Esp_Wifi Esp_Registry
begin

text \<open>
  The ESP8266 firmware, first part (\<open>src/esp/esp8266/main/emwaver_esp8266.c\<close>): its state, the claim of a
  transport, the two links to the host (the USB-serial line and the WebSocket session) and the Wi-Fi
  station. What the SDK returns is read from the trace. A socket or the serial line delivers its bytes
  in pieces of any size, a list of lists. The digest and the base64 text of the WebSocket handshake are
  parameters.
\<close>

section \<open>State\<close>

datatype wifi_runtime_mode_t = WIFI_RUNTIME_NONE | WIFI_RUNTIME_SOFTAP | WIFI_RUNTIME_STATION

datatype i2c_op = I2cStart | I2cWrite "u8 list" | I2cReadByte bool | I2cStop

text \<open>The calls of the drivers, in the order made.\<close>

datatype e8_call = PinConfig int | PinDirection int bool | PinLevel int bool | PinPull int u8
  | PwmTimer u32 | PwmChannel int u16 | PwmDuty u16 | PwmUpdate | PwmStop bool
  | UartConfig nat u32 | UartInstall nat | UartWrite nat "u8 list" | UartWaitDone nat u32 | UartDelete nat
  | AdcInit | I2cInstall | I2cConfig int int | I2cDelete | I2cRun "i2c_op list" u32
  | SockShutdown int | SockClose int
  | WifiDisconnect | WifiStop | WifiMode bool | WifiStation string string bool | WifiAp string string bool | WifiStart | WifiConnect
  | MdnsPublish string string | MdnsFree

record e8 =
  e8_cmd_queue :: "command_t list option"
  e8_listen_sock :: int
  e8_active_sock :: int
  e8_server_task :: bool
  e8_config :: wifi_config
  e8_has_config :: bool
  e8_wifi_started :: bool
  e8_station_online :: bool
  e8_session_connected :: bool
  e8_reconnect_pending :: bool
  e8_mdns_started :: bool
  e8_reconnect_attempt :: u8
  e8_last_disconnect_reason :: u16
  e8_station_ipv4 :: "u8 list"
  e8_runtime_mode :: wifi_runtime_mode_t
  e8_claim :: session
  e8_staged_ssid :: "u8 list"
  e8_staged_password :: "u8 list"
  e8_staged_active :: bool
  e8_active_command_source :: u8
  e8_pwm_freq_hz :: u32
  e8_pwm_active_pin :: int
  e8_pwm_configured :: bool
  e8_adc_initialized :: bool
  e8_spi_initialized :: bool
  e8_i2c_initialized :: bool
  e8_i2c_hz :: u32
  e8_uart1_initialized :: bool
  e8_uart1_baud :: u32
  e8_wifi_nvs :: "string \<Rightarrow> string option"
  e8_device_name :: "u8 list option"
  e8_restarting :: bool
  e8_calls :: "e8_call list"
  e8_ws_sent :: "(int \<times> u8 list) list"
  e8_serial_sent :: "u8 list"
  e8_answers :: "(u8 \<times> u8 list) list"

text \<open>A driver call whose result is ignored, and one whose result is used.\<close>

definition e8_note :: "e8_call \<Rightarrow> e8 \<Rightarrow> e8" where
  "e8_note c e = e\<lparr>e8_calls := e8_calls e @ [c]\<rparr>"

definition e8_io :: "e8_call \<Rightarrow> e8 \<Rightarrow> trace \<Rightarrow> (u32 \<times> e8 \<times> trace) option" where
  "e8_io c e t = do { (err, t) \<leftarrow> rd t; Some (err, e8_note c e, t) }"

section \<open>The claim of a transport\<close>

text \<open>The same code as on the ESP32, at the 1000 Hz of \<open>sdkconfig.defaults\<close>.\<close>

definition e8_timeout_ticks :: u32 where
  "e8_timeout_ticks = 5000 * 1000 div 1000"

definition e8_expire_stale_claim :: "session \<Rightarrow> trace \<Rightarrow> (session \<times> trace) option" where
  "e8_expire_stale_claim s t =
     (if s_active_source s = 0 then Some (s, t)
      else do {
        (now, t) \<leftarrow> rd t;
        Some (if now - s_last_activity_tick s > e8_timeout_ticks then s\<lparr>s_active_source := 0\<rparr> else s, t) })"

definition e8_is_session_status :: "command_t \<Rightarrow> bool" where
  "e8_is_session_status cmd \<longleftrightarrow> cmd_length cmd = 18 \<and> cmd_data cmd ! 0 = 0x0B \<and> cmd_data cmd ! 1 = 0"

definition e8_is_session_connect :: "command_t \<Rightarrow> bool" where
  "e8_is_session_connect cmd \<longleftrightarrow> cmd_length cmd = 18 \<and> cmd_data cmd ! 0 = 0x0B \<and> cmd_data cmd ! 1 = 1"

definition e8_is_discovery :: "command_t \<Rightarrow> bool" where
  "e8_is_discovery cmd =
     (if cmd_length cmd \<noteq> 18 then False
      else let op = cmd_data cmd ! 0 in
        if op = 0x01 \<or> op = 0x08 \<or> op = 0x09 \<or> op = 0x04 then True
        else if op = 0x0A then cmd_data cmd ! 1 = 4
        else if op = 0x0B then cmd_data cmd ! 1 = 0
        else False)"

definition e8_session_allows_command :: "command_t \<Rightarrow> session \<Rightarrow> trace \<Rightarrow> (bool \<times> session \<times> trace) option" where
  "e8_session_allows_command cmd s t = do {
     (s, t) \<leftarrow> e8_expire_stale_claim s t;
     if e8_is_session_connect cmd then Some (s_active_source s = 0 \<or> s_active_source s = cmd_source cmd, s, t)
     else if e8_is_session_status cmd \<or> e8_is_discovery cmd then Some (True, s, t)
     else if s_active_source s = 0 then Some (False, s, t)
     else if s_active_source s \<noteq> cmd_source cmd then Some (False, s, t)
     else do {
       (now, t) \<leftarrow> rd t;
       Some (True, s\<lparr>s_last_activity_tick := now\<rparr>, t) } }"

definition e8_session_connect :: "u8 \<Rightarrow> session \<Rightarrow> trace \<Rightarrow> (bool \<times> session \<times> trace) option" where
  "e8_session_connect src s t = do {
     (s, t) \<leftarrow> e8_expire_stale_claim s t;
     if src = 0 then Some (False, s, t)
     else if s_active_source s \<noteq> 0 \<and> s_active_source s \<noteq> src then Some (False, s, t)
     else do {
       let s = s\<lparr>s_active_source := src\<rparr>;
       (now, t) \<leftarrow> rd t;
       Some (True, s\<lparr>s_last_activity_tick := now\<rparr>, t) } }"

definition e8_session_disconnect :: "u8 \<Rightarrow> session \<Rightarrow> trace \<Rightarrow> (bool \<times> session \<times> trace) option" where
  "e8_session_disconnect src s t = do {
     (s, t) \<leftarrow> e8_expire_stale_claim s t;
     if s_active_source s = 0 then Some (True, s, t)
     else if s_active_source s \<noteq> src then Some (False, s, t)
     else Some (True, s\<lparr>s_active_source := 0\<rparr>, t) }"

definition e8_session_heartbeat :: "u8 \<Rightarrow> session \<Rightarrow> trace \<Rightarrow> (bool \<times> session \<times> trace) option" where
  "e8_session_heartbeat src s t = do {
     (s, t) \<leftarrow> e8_expire_stale_claim s t;
     if s_active_source s \<noteq> src \<or> src = 0 then Some (False, s, t)
     else do {
       (now, t) \<leftarrow> rd t;
       Some (True, s\<lparr>s_last_activity_tick := now\<rparr>, t) } }"

definition e8_session_active_source :: "session \<Rightarrow> trace \<Rightarrow> (u8 \<times> session \<times> trace) option" where
  "e8_session_active_source s t = do {
     (s, t) \<leftarrow> e8_expire_stale_claim s t;
     Some (s_active_source s, s, t) }"

section \<open>Receiving\<close>

text \<open>The codec has the text of the ESP32's.\<close>

definition e8_decode_payload :: "u8 list \<Rightarrow> u8 list option" where
  "e8_decode_payload inp = esp_decode_loop inp 0 []"

definition e8_encode_payload :: "u8 list \<Rightarrow> u8 list" where
  "e8_encode_payload inp = esp_encode_loop inp 0 []"

definition e8_command :: "u8 list \<Rightarrow> u8 \<Rightarrow> command_t" where
  "e8_command lane src = \<lparr>cmd_data = blit (zeros 256) 0 lane, cmd_length = 18, cmd_source = src\<rparr>"

text \<open>The queue holds ten commands; sending to it does not wait.\<close>

definition e8_enqueue_sysex :: "u8 list \<Rightarrow> u8 \<Rightarrow> e8 \<Rightarrow> bool \<times> e8" where
  "e8_enqueue_sysex sysex src e = (case e8_cmd_queue e of
     None \<Rightarrow> (False, e)
   | Some q \<Rightarrow>
       if sysex ! 0 \<noteq> 0xF0 \<or> sysex ! 1 \<noteq> 0x7D \<or> sysex ! 2 \<noteq> 0x45 \<or> sysex ! 3 \<noteq> 0x4D \<or> sysex ! 4 \<noteq> 0x57 \<or>
          sysex ! 47 \<noteq> 0xF7 then (False, e)
       else case e8_decode_payload (take 42 (drop 5 sysex)) of
         None \<Rightarrow> (False, e)
       | Some decoded \<Rightarrow>
           if \<not> list_ex (\<lambda>v. v \<noteq> 0) (take 18 decoded) then (True, e)
           else if length q < 10 then (True, e\<lparr>e8_cmd_queue := Some (q @ [e8_command (take 18 decoded) src])\<rparr>)
           else (False, e))"

text \<open>
  The serial line: the frame buffer of 48 bytes with its position, and one byte. A byte 0xF0 restarts
  the frame, except as the last one.
\<close>

definition e8_serial_byte :: "u8 \<Rightarrow> (u8 list \<times> nat) \<times> e8 \<Rightarrow> (u8 list \<times> nat) \<times> e8" where
  "e8_serial_byte byte st = (case st of ((frame, pos), e) \<Rightarrow>
     if pos = 0 then (if byte \<noteq> 0xF0 then ((frame, pos), e) else ((frame[pos := byte], pos + 1), e))
     else
       let frame = frame[pos := byte]; pos = pos + 1 in
       if pos = 48 then ((zeros 48, 0), snd (e8_enqueue_sysex frame 1 e))
       else if byte = 0xF0 then ((frame[0 := 0xF0], 1), e)
       else ((frame, pos), e))"

definition e8_serial_bytes :: "u8 list \<Rightarrow> (u8 list \<times> nat) \<times> e8 \<Rightarrow> (u8 list \<times> nat) \<times> e8" where
  "e8_serial_bytes bytes st = fold e8_serial_byte bytes st"

section \<open>The WebSocket\<close>

text \<open>\<open>recv\<close> returns what has arrived, up to the size asked for; an empty piece is a closed or failed connection.\<close>

definition sock_recv :: "nat \<Rightarrow> u8 list list \<Rightarrow> (u8 list \<times> u8 list list) option" where
  "sock_recv n cs = (case cs of
     [] \<Rightarrow> None
   | c # cs \<Rightarrow> if c = [] then None else Some (take n c, if length c \<le> n then cs else drop n c # cs))"

lemma sock_recv_Some:
  "sock_recv n cs = Some (r, cs') \<Longrightarrow> concat cs = r @ concat cs' \<and> length r \<le> n \<and> (0 < n \<longrightarrow> r \<noteq> [])"
  by (auto simp: sock_recv_def split: list.splits if_splits)

lemma sock_recv_less: "sock_recv n cs = Some (r, cs') \<Longrightarrow> 0 < n \<Longrightarrow> n - length r < n"
  by (auto dest!: sock_recv_Some)

function e8_websocket_read_exact :: "nat \<Rightarrow> u8 list \<Rightarrow> u8 list list \<Rightarrow> (u8 list \<times> u8 list list) option" where
  "e8_websocket_read_exact len got cs =
     (if length got < len
      then case sock_recv (len - length got) cs of
             None \<Rightarrow> None
           | Some (r, cs) \<Rightarrow> e8_websocket_read_exact len (got @ r) cs
      else Some (got, cs))"
  by pat_completeness auto
termination
  by (relation "measure (\<lambda>(len, got, cs). len - length got)") (auto dest!: sock_recv_less)

declare e8_websocket_read_exact.simps [simp del]

text \<open>A frame: its opcode and payload; \<open>None\<close> when it is refused or the connection fails.\<close>

definition e8_websocket_read_frame :: "nat \<Rightarrow> u8 list list \<Rightarrow> ((u8 \<times> u8 list) \<times> u8 list list) option" where
  "e8_websocket_read_frame payload_cap cs = do {
     (header, cs) \<leftarrow> e8_websocket_read_exact 2 [] cs;
     let opcode = header ! 0 AND 0x0F;
     let masked = (header ! 1 AND 0x80 \<noteq> 0);
     let len = (ucast (header ! 1 AND 0x7F) :: 64 word);
     (len, cs) \<leftarrow> (if len = 126 then do {
          (ext, cs) \<leftarrow> e8_websocket_read_exact 2 [] cs;
          Some (push_bit 8 (ucast (ext ! 0)) OR ucast (ext ! 1), cs) }
        else if len = 127 then None
        else Some (len, cs));
     if unat len > payload_cap then None
     else do {
       (mask, cs) \<leftarrow> (if masked then e8_websocket_read_exact 4 [] cs else Some (zeros 4, cs));
       (payload, cs) \<leftarrow> e8_websocket_read_exact (unat len) [] cs;
       let payload = (if masked then map (\<lambda>i. payload ! i XOR mask ! (i mod 4)) [0..<unat len] else payload);
       Some ((opcode, payload), cs) } }"

text \<open>\<open>send\<close>: the result is the number of bytes taken over, or negative.\<close>

definition sock_send :: "int \<Rightarrow> u8 list \<Rightarrow> e8 \<Rightarrow> trace \<Rightarrow> (int \<times> e8 \<times> trace) option" where
  "sock_send sock bs e t = do {
     (r, t) \<leftarrow> rd t;
     let n = sint r;
     Some (n, if n > 0 then e\<lparr>e8_ws_sent := e8_ws_sent e @ [(sock, take (nat n) bs)]\<rparr> else e, t) }"

definition e8_websocket_send_binary :: "int \<Rightarrow> u8 list \<Rightarrow> e8 \<Rightarrow> trace \<Rightarrow> (bool \<times> e8 \<times> trace) option" where
  "e8_websocket_send_binary sock payload e t =
     (if sock < 0 \<or> length payload > 125 then Some (False, e, t)
      else do {
        (n, e, t) \<leftarrow> sock_send sock [0x82, of_nat (length payload)] e t;
        if n \<noteq> 2 then Some (False, e, t)
        else do {
          (n, e, t) \<leftarrow> sock_send sock payload e t;
          Some (n = int (length payload), e, t) } })"

section \<open>The handshake\<close>

definition ascii :: "string \<Rightarrow> u8 list" where
  "ascii s = List.map of_char s"

definition crlf :: "u8 list" where
  "crlf = [0x0D, 0x0A]"

text \<open>The text before the first zero byte, and \<open>strstr\<close>: the text from the first occurrence on.\<close>

definition c_text :: "u8 list \<Rightarrow> u8 list" where
  "c_text bs = takeWhile (\<lambda>b. b \<noteq> 0) bs"

fun strstr :: "u8 list \<Rightarrow> u8 list \<Rightarrow> u8 list option" where
  "strstr [] needle = (if needle = [] then Some [] else None)"
| "strstr (b # bs) needle = (if take (length needle) (b # bs) = needle then Some (b # bs) else strstr bs needle)"

text \<open>The request, until its empty line or 1023 bytes.\<close>

function e8_read_request :: "u8 list \<Rightarrow> u8 list list \<Rightarrow> (u8 list \<times> u8 list list) option" where
  "e8_read_request request cs =
     (if length request < 1023
      then case sock_recv (1023 - length request) cs of
             None \<Rightarrow> None
           | Some (r, cs) \<Rightarrow>
               let request = request @ r in
               if strstr (c_text request) (crlf @ crlf) \<noteq> None then Some (request, cs) else e8_read_request request cs
      else Some (request, cs))"
  by pat_completeness auto
termination
  by (relation "measure (\<lambda>(request, cs). 1023 - length request)") (auto dest!: sock_recv_less)

declare e8_read_request.simps [simp del]

text \<open>The value of the key header: up to 95 characters after blanks, to the end of the line.\<close>

definition websocket_key :: "u8 list \<Rightarrow> u8 list" where
  "websocket_key h = take 95 (takeWhile (\<lambda>b. b \<noteq> 0 \<and> b \<noteq> 0x0D \<and> b \<noteq> 0x0A) (dropWhile (\<lambda>b. b = 0x20 \<or> b = 0x09) h))"

definition accept_source :: "u8 list \<Rightarrow> u8 list" where
  "accept_source key = take 159 (key @ ascii ''258EAFA5-E914-47DA-95CA-C5AB0DC85B11'')"

definition accept_response :: "u8 list \<Rightarrow> u8 list" where
  "accept_response b64 = ascii ''HTTP/1.1 101 Switching Protocols'' @ crlf @ ascii ''Upgrade: websocket'' @ crlf @
     ascii ''Connection: Upgrade'' @ crlf @ ascii ''Sec-WebSocket-Accept: '' @ c_text b64 @ crlf @ crlf"

definition not_found :: "u8 list" where
  "not_found = ascii ''HTTP/1.1 404 Not Found'' @ crlf @ ascii ''Connection: close'' @ crlf @ ascii ''Content-Length: 0'' @ crlf @ crlf"

definition e8_websocket_handshake :: "(u8 list \<Rightarrow> u8 list) \<Rightarrow> (u8 list \<Rightarrow> u8 list option) \<Rightarrow> int \<Rightarrow> u8 list list \<Rightarrow> e8 \<Rightarrow> trace
    \<Rightarrow> ((bool \<times> u8 list list) \<times> e8 \<times> trace) option" where
  "e8_websocket_handshake sha1 base64 sock cs e t = (case e8_read_request [] cs of
     None \<Rightarrow> Some ((False, cs), e, t)
   | Some (request, cs) \<Rightarrow>
       let request = c_text request in
       if strstr request (ascii ''GET /v1/ws '') = None \<or> strstr request (ascii ''Upgrade: websocket'') = None
       then do { (_, e, t) \<leftarrow> sock_send sock not_found e t; Some ((False, cs), e, t) }
       else case strstr request (ascii ''Sec-WebSocket-Key:'') of
         None \<Rightarrow> Some ((False, cs), e, t)
       | Some key_header \<Rightarrow>
           let key = websocket_key (drop 18 key_header) in
           case base64 (sha1 (accept_source key)) of
             None \<Rightarrow> Some ((False, cs), e, t)
           | Some b64 \<Rightarrow>
               let response = accept_response b64 in
               if length response < 256
               then do { (n, e, t) \<leftarrow> sock_send sock response e t; Some ((n = int (length response), cs), e, t) }
               else Some ((False, cs), e, t))"

section \<open>Sockets and the server task\<close>

definition e8_close_active_socket :: "e8 \<Rightarrow> e8" where
  "e8_close_active_socket e =
     (let s = e8_active_sock e; e = (if s \<ge> 0 then e8_note (SockClose s) (e8_note (SockShutdown s) e) else e)
      in e\<lparr>e8_active_sock := -1, e8_session_connected := False\<rparr>)"

definition e8_stop_server_socket :: "e8 \<Rightarrow> e8" where
  "e8_stop_server_socket e =
     (let s = e8_listen_sock e; e = (if s \<ge> 0 then e8_note (SockClose s) (e8_note (SockShutdown s) e) else e)
      in e\<lparr>e8_listen_sock := -1\<rparr>)"

text \<open>
  The server task, in pieces between which other tasks run: opening the listening socket, the test of the
  accepting loop, what follows when \<open>accept\<close> returns, and what follows when a frame of a session has arrived.
\<close>

datatype server_pc = ServerStart | ServerLoop int | ServerAccepting int | ServerSession int int "u8 list list"

definition busy_response :: "u8 list" where
  "busy_response = ascii ''HTTP/1.1 503 Busy'' @ crlf @ ascii ''Connection: close'' @ crlf @ ascii ''Content-Length: 4'' @ crlf @ crlf @ ascii ''busy''"

definition e8_server_open :: "e8 \<Rightarrow> trace \<Rightarrow> (server_pc \<times> e8 \<times> trace) option" where
  "e8_server_open e t = do {
     (sock, t) \<leftarrow> rd t;
     let listen_sock = sint sock;
     if listen_sock < 0 then Some (ServerStart, e, t)
     else do {
       (_, t) \<leftarrow> rd t;
       (bound, t) \<leftarrow> rd t;
       if bound \<noteq> 0 then Some (ServerStart, e8_note (SockClose listen_sock) e, t)
       else do {
         (listening, t) \<leftarrow> rd t;
         if listening \<noteq> 0 then Some (ServerStart, e8_note (SockClose listen_sock) e, t)
         else Some (ServerLoop listen_sock, e\<lparr>e8_listen_sock := listen_sock\<rparr>, t) } } }"

text \<open>The end of the accepting loop closes the listening socket.\<close>

definition e8_server_leave :: "int \<Rightarrow> e8 \<Rightarrow> server_pc \<times> e8" where
  "e8_server_leave listen_sock e =
     (let e = (if listen_sock \<ge> 0 then e8_note (SockClose listen_sock) e else e)
      in (ServerStart, if e8_listen_sock e = listen_sock then e\<lparr>e8_listen_sock := -1\<rparr> else e))"

definition e8_server_test :: "int \<Rightarrow> e8 \<Rightarrow> server_pc \<times> e8" where
  "e8_server_test listen_sock e = (if e8_listen_sock e \<ge> 0 then (ServerAccepting listen_sock, e) else e8_server_leave listen_sock e)"

text \<open>The result of \<open>accept\<close> is the first value of the trace; the connection delivers the bytes given.\<close>

definition e8_server_accept :: "(u8 list \<Rightarrow> u8 list) \<Rightarrow> (u8 list \<Rightarrow> u8 list option) \<Rightarrow> int \<Rightarrow> u8 list list \<Rightarrow> e8 \<Rightarrow> trace
    \<Rightarrow> (server_pc \<times> e8 \<times> trace) option" where
  "e8_server_accept sha1 base64 listen_sock cs e t = do {
     (r, t) \<leftarrow> rd t;
     let sock = sint r;
     if sock < 0 then let (pc, e) = e8_server_leave listen_sock e in Some (pc, e, t)
     else if e8_active_sock e \<ge> 0 then do {
       (_, e, t) \<leftarrow> sock_send sock busy_response e t;
       Some (ServerLoop listen_sock, e8_note (SockClose sock) e, t) }
     else do {
       ((ok, cs), e, t) \<leftarrow> e8_websocket_handshake sha1 base64 sock cs e t;
       if \<not> ok then Some (ServerLoop listen_sock, e8_note (SockClose sock) e, t)
       else Some (ServerSession listen_sock sock cs, e\<lparr>e8_active_sock := sock, e8_session_connected := True\<rparr>, t) } }"

text \<open>One pass of the session loop; its end closes the active socket.\<close>

definition e8_server_frame :: "int \<Rightarrow> int \<Rightarrow> u8 list list \<Rightarrow> e8 \<Rightarrow> server_pc \<times> e8" where
  "e8_server_frame listen_sock sock cs e = (case e8_websocket_read_frame 128 cs of
     None \<Rightarrow> (ServerLoop listen_sock, e8_close_active_socket e)
   | Some ((opcode, payload), cs) \<Rightarrow>
       if opcode = 8 then (ServerLoop listen_sock, e8_close_active_socket e)
       else if opcode \<noteq> 2 \<or> length payload \<noteq> 48 then (ServerLoop listen_sock, e8_close_active_socket e)
       else case e8_enqueue_sysex payload 3 e of
         (ok, e) \<Rightarrow> if \<not> ok then (ServerLoop listen_sock, e8_close_active_socket e) else (ServerSession listen_sock sock cs, e))"

section \<open>Names and the stored configuration\<close>

definition e8_copy_str :: "string \<Rightarrow> nat \<Rightarrow> string" where
  "e8_copy_str src dst_len = (let n = length src; n = (if n \<ge> dst_len then dst_len - 1 else n) in take n src)"

definition e8_build_local_id_suffix :: "nat \<Rightarrow> trace \<Rightarrow> (string \<times> trace) option" where
  "e8_build_local_id_suffix out_len t = do {
     (mac, t) \<leftarrow> rd_mac45 t;
     Some (case mac of Some (m4, m5) \<Rightarrow> take (out_len - 1) (upper_hex2 m4 @ upper_hex2 m5) | None \<Rightarrow> e8_copy_str ''8266'' out_len, t) }"

definition e8_default_hostname :: "nat \<Rightarrow> trace \<Rightarrow> (string \<times> trace) option" where
  "e8_default_hostname out_len t = do {
     (mac, t) \<leftarrow> rd_mac45 t;
     Some (case mac of
             Some (m4, m5) \<Rightarrow> take (out_len - 1) (''emwaver-'' @ hex2 m4 @ hex2 m5)
           | None \<Rightarrow> e8_copy_str ''emwaver-8266'' out_len, t) }"

definition e8_is_valid_hostname :: "string \<Rightarrow> bool" where
  "e8_is_valid_hostname h =
     (if h = [] then False
      else let len = length h in
        if len > 32 \<or> h ! 0 = CHR ''-'' \<or> h ! (len - 1) = CHR ''-'' then False
        else list_all (\<lambda>c. let n = of_char c :: nat in \<not> (\<not> (of_char CHR ''a'' \<le> n \<and> n \<le> of_char CHR ''z'') \<and>
               \<not> (of_char CHR ''0'' \<le> n \<and> n \<le> of_char CHR ''9'') \<and> c \<noteq> CHR ''-'')) h)"

text \<open>A stored text is read only into a buffer that holds it with its terminator.\<close>

definition e8_nvs_get_str :: "e8 \<Rightarrow> string \<Rightarrow> nat \<Rightarrow> string option" where
  "e8_nvs_get_str e key len = (case e8_wifi_nvs e key of None \<Rightarrow> None | Some v \<Rightarrow> if length v < len then Some v else None)"

definition e8_load_wifi_config :: "e8 \<Rightarrow> trace \<Rightarrow> ((bool \<times> wifi_config) \<times> trace) option" where
  "e8_load_wifi_config e t = do {
     (err, t) \<leftarrow> rd t;
     if err \<noteq> 0 then Some ((False, blank_config), t)
     else do {
       let s = e8_nvs_get_str e ''ssid'' 33;
       let c = blank_config\<lparr>ssid := (case s of None \<Rightarrow> [] | Some v \<Rightarrow> v)\<rparr>;
       let c = (if s = None then c
                else c\<lparr>password := (case e8_nvs_get_str e ''pass'' 65 of None \<Rightarrow> [] | Some v \<Rightarrow> v),
                       hostname := (case e8_nvs_get_str e ''hostname'' 33 of None \<Rightarrow> [] | Some v \<Rightarrow> v)\<rparr>);
       (c, t) \<leftarrow> (if hostname c = [] \<or> \<not> e8_is_valid_hostname (hostname c)
                  then do { (h, t) \<leftarrow> e8_default_hostname 33 t; Some (c\<lparr>hostname := h\<rparr>, t) } else Some (c, t));
       Some ((s \<noteq> None \<and> ssid c \<noteq> [], c), t) } }"

text \<open>One \<open>nvs_set_str\<close>, skipped after an error.\<close>

definition e8_nvs_put :: "string \<Rightarrow> string \<Rightarrow> u32 \<Rightarrow> e8 \<Rightarrow> trace \<Rightarrow> (u32 \<times> e8 \<times> trace) option" where
  "e8_nvs_put key v err e t =
     (if err \<noteq> 0 then Some (err, e, t)
      else do {
        (err, t) \<leftarrow> rd t;
        Some (err, if err = 0 then e\<lparr>e8_wifi_nvs := (e8_wifi_nvs e)(key \<mapsto> v)\<rparr> else e, t) })"

definition e8_save_wifi_config :: "wifi_config \<Rightarrow> e8 \<Rightarrow> trace \<Rightarrow> (u32 \<times> e8 \<times> trace) option" where
  "e8_save_wifi_config c e t = do {
     (err, t) \<leftarrow> rd t;
     if err \<noteq> 0 then Some (err, e, t)
     else do {
       (err, e, t) \<leftarrow> e8_nvs_put ''ssid'' (ssid c) 0 e t;
       (err, e, t) \<leftarrow> e8_nvs_put ''pass'' (password c) err e t;
       (err, e, t) \<leftarrow> e8_nvs_put ''hostname'' (hostname c) err e t;
       if err \<noteq> 0 then Some (err, e, t)
       else do { (err, t) \<leftarrow> rd t; Some (err, e, t) } } }"

text \<open>The variables of the station are reset also when the storage fails.\<close>

definition e8_clear_wifi_config :: "e8 \<Rightarrow> trace \<Rightarrow> (u32 \<times> e8 \<times> trace) option" where
  "e8_clear_wifi_config e t = do {
     (err, t) \<leftarrow> rd t;
     (err, e, t) \<leftarrow> (if err \<noteq> 0 then Some (err, e, t)
        else do {
          (erased, t) \<leftarrow> rd t;
          let e = (if erased = 0 then e\<lparr>e8_wifi_nvs := (\<lambda>_. None)\<rparr> else e);
          (err, t) \<leftarrow> rd t;
          Some (err, e, t) });
     Some (err, e\<lparr>e8_station_online := False, e8_reconnect_pending := False, e8_reconnect_attempt := 0,
       e8_last_disconnect_reason := 0, e8_station_ipv4 := zeros 4\<rparr>, t) }"

section \<open>Station, access point and events\<close>

definition e8_stop_mdns :: "e8 \<Rightarrow> e8" where
  "e8_stop_mdns e = (if e8_mdns_started e then (e8_note MdnsFree e)\<lparr>e8_mdns_started := False\<rparr> else e)"

text \<open>What both modes do first, and between the configuration and the start.\<close>

definition e8_drop_network :: "e8 \<Rightarrow> e8" where
  "e8_drop_network e =
     (e8_stop_mdns (e8_stop_server_socket (e8_close_active_socket e)))\<lparr>e8_station_online := False, e8_station_ipv4 := zeros 4\<rparr>"

definition e8_halt_wifi :: "e8 \<Rightarrow> e8" where
  "e8_halt_wifi e =
     (if e8_wifi_started e then (e8_note WifiStop (e8_note WifiDisconnect e))\<lparr>e8_wifi_started := False\<rparr> else e)"

definition e8_start_station :: "e8 \<Rightarrow> trace \<Rightarrow> (e8 \<times> trace) option" where
  "e8_start_station e t =
     (if \<not> e8_has_config e then Some (e, t)
      else do {
        let e = e8_drop_network e;
        let c = e8_config e;
        let wifi_config = WifiStation (e8_copy_str (ssid c) 32) (e8_copy_str (password c) 64) (password c = []);
        let e = e8_halt_wifi e;
        (_, t) \<leftarrow> ESP_ERROR_CHECK t;
        (_, t) \<leftarrow> ESP_ERROR_CHECK t;
        (_, t) \<leftarrow> ESP_ERROR_CHECK t;
        Some ((e8_note WifiStart (e8_note wifi_config (e8_note (WifiMode True) e)))\<lparr>e8_wifi_started := True,
          e8_runtime_mode := WIFI_RUNTIME_STATION\<rparr>, t) })"

text \<open>The address is zero when it cannot be read; the access point is open without a configured password.\<close>

definition e8_start_softap :: "string \<Rightarrow> e8 \<Rightarrow> trace \<Rightarrow> (e8 \<times> trace) option" where
  "e8_start_softap ap_password e t = do {
     let e = e8_drop_network e;
     (mac, t) \<leftarrow> rd_mac45 t;
     let ssid = (case mac of Some (m4, m5) \<Rightarrow> take 31 (''EMWaver-8266-'' @ upper_hex2 m4 @ upper_hex2 m5)
                  | None \<Rightarrow> ''EMWaver-8266-0000'');
     let wifi_config = WifiAp (e8_copy_str ssid 32) (if ap_password = [] then [] else e8_copy_str ap_password 64) (ap_password = []);
     let e = e8_halt_wifi e;
     (_, t) \<leftarrow> ESP_ERROR_CHECK t;
     (_, t) \<leftarrow> ESP_ERROR_CHECK t;
     (_, t) \<leftarrow> ESP_ERROR_CHECK t;
     let e = (e8_note WifiStart (e8_note wifi_config (e8_note (WifiMode False) e)))\<lparr>e8_wifi_started := True,
       e8_runtime_mode := WIFI_RUNTIME_SOFTAP\<rparr>;
     if e8_server_task e then Some (e, t)
     else do { (created, t) \<leftarrow> rd t; Some (e\<lparr>e8_server_task := (created = 1)\<rparr>, t) } }"

definition e8_publish_mdns :: "e8 \<Rightarrow> trace \<Rightarrow> (bool \<times> e8 \<times> trace) option" where
  "e8_publish_mdns e t =
     (if \<not> e8_has_config e \<or> \<not> e8_station_online e then Some (False, e, t)
      else do {
        let e = e8_stop_mdns e;
        (local_id, t) \<leftarrow> e8_build_local_id_suffix 8 t;
        let failed = (\<lambda>t. Some (False, (e8_note MdnsFree e)\<lparr>e8_mdns_started := False\<rparr>, t));
        (err, t) \<leftarrow> rd t;
        if err \<noteq> 0 then failed t
        else do {
          (err, t) \<leftarrow> rd t;
          if err \<noteq> 0 then failed t
          else do {
            (err, t) \<leftarrow> rd t;
            if err \<noteq> 0 then failed t
            else do {
              (err, t) \<leftarrow> rd t;
              if err \<noteq> 0 then failed t
              else Some (True, (e8_note (MdnsPublish (hostname (e8_config e)) local_id) e)\<lparr>e8_mdns_started := True\<rparr>, t) } } } })"

text \<open>The flag of the result tells whether a reconnect task was created.\<close>

definition e8_wifi_event_handler :: "wifi_event \<Rightarrow> e8 \<Rightarrow> trace \<Rightarrow> (bool \<times> e8 \<times> trace) option" where
  "e8_wifi_event_handler ev e t = (case ev of
     WIFI_EVENT_STA_START \<Rightarrow> Some (False, e8_note WifiConnect e, t)
   | WIFI_EVENT_STA_DISCONNECTED event \<Rightarrow>
       let e = e\<lparr>e8_last_disconnect_reason := (case event of Some reason \<Rightarrow> ucast reason | None \<Rightarrow> 0), e8_station_online := False\<rparr>;
           e = (e8_stop_mdns (e8_stop_server_socket (e8_close_active_socket e)))\<lparr>e8_station_ipv4 := zeros 4\<rparr>
       in if e8_runtime_mode e = WIFI_RUNTIME_STATION \<and> e8_has_config e \<and> \<not> e8_reconnect_pending e then do {
            (created, t) \<leftarrow> rd t;
            if created \<noteq> 1 then Some (False, e8_note WifiConnect (e\<lparr>e8_reconnect_pending := False\<rparr>), t)
            else Some (True, e\<lparr>e8_reconnect_pending := True\<rparr>, t) }
          else Some (False, e, t)
   | IP_EVENT_STA_GOT_IP event \<Rightarrow> do {
       let e = (case event of Some (a, b, c, d) \<Rightarrow> e\<lparr>e8_station_ipv4 := [a, b, c, d]\<rparr> | None \<Rightarrow> e);
       let e = e\<lparr>e8_station_online := True, e8_reconnect_pending := False, e8_reconnect_attempt := 0, e8_last_disconnect_reason := 0\<rparr>;
       (e, t) \<leftarrow> (if e8_server_task e then Some (e, t)
                  else do { (created, t) \<leftarrow> rd t; Some (e\<lparr>e8_server_task := (created = 1)\<rparr>, t) });
       (_, e, t) \<leftarrow> e8_publish_mdns e t;
       Some (False, e, t) })"

text \<open>The reconnect task around its sleep; the loop is that of the ESP32.\<close>

definition e8_reconnect_delay :: "e8 \<Rightarrow> u32 \<times> e8" where
  "e8_reconnect_delay e =
     (backoff 0 (e8_reconnect_attempt e) 1000,
      if e8_reconnect_attempt e < 8 then e\<lparr>e8_reconnect_attempt := e8_reconnect_attempt e + 1\<rparr> else e)"

definition e8_reconnect_wake :: "e8 \<Rightarrow> e8" where
  "e8_reconnect_wake e =
     (let e = e\<lparr>e8_reconnect_pending := False\<rparr>
      in if e8_has_config e \<and> e8_runtime_mode e = WIFI_RUNTIME_STATION then e8_note WifiConnect e else e)"

end
