(* ===== verification/Esp8266_Core.thy ===== *)
theory Esp8266_Core
  imports Esp8266_Link
begin

text \<open>
  The ESP8266 firmware, second part (\<open>src/esp/esp8266/main/emwaver_esp8266.c\<close>): the answers, one
  definition per opcode, one round of the command task, and start-up. The pins are those of the default
  configuration. \<open>e8_answers\<close> records every response lane with the source it is meant for.
\<close>

section \<open>Answers\<close>

definition e8_sysex :: "u8 list \<Rightarrow> u8 list" where
  "e8_sysex frame = [0xF0, 0x7D, 0x45, 0x4D, 0x57] @ e8_encode_payload frame @ [0xF7]"

definition e8_send_superframe :: "u8 list \<Rightarrow> e8 \<Rightarrow> trace \<Rightarrow> (bool \<times> e8 \<times> trace) option" where
  "e8_send_superframe frame e t =
     (if e8_active_sock e < 0 then Some (False, e, t) else e8_websocket_send_binary (e8_active_sock e) (e8_sysex frame) e t)"

definition e8_send_serial_superframe :: "u8 list \<Rightarrow> e8 \<Rightarrow> trace \<Rightarrow> (bool \<times> e8 \<times> trace) option" where
  "e8_send_serial_superframe frame e t = do {
     (r, t) \<leftarrow> rd t;
     let n = sint r;
     Some (n = 48, if n > 0 then e\<lparr>e8_serial_sent := e8_serial_sent e @ take (nat n) (e8_sysex frame)\<rparr> else e, t) }"

text \<open>The lane goes out on the serial line for a command from there, else over the Wi-Fi session.\<close>

definition e8_send :: "u8 \<Rightarrow> u8 list \<Rightarrow> e8 \<Rightarrow> trace \<Rightarrow> (e8 \<times> trace) option" where
  "e8_send status payload e t = do {
     let frame = blit (zeros 36) 0 (status # take 17 payload);
     let e = e\<lparr>e8_answers := e8_answers e @ [(e8_active_command_source e, take 18 frame)]\<rparr>;
     (_, e, t) \<leftarrow> (if e8_active_command_source e = 1 then e8_send_serial_superframe frame e t else e8_send_superframe frame e t);
     Some (e, t) }"

definition e8_send_ok :: "u8 list \<Rightarrow> e8 \<Rightarrow> trace \<Rightarrow> (e8 \<times> trace) option" where
  "e8_send_ok payload e t = e8_send 0x80 payload e t"

definition e8_send_err :: "e8 \<Rightarrow> trace \<Rightarrow> (e8 \<times> trace) option" where
  "e8_send_err e t = e8_send 0x81 [] e t"

definition e8_send_busy :: "e8 \<Rightarrow> trace \<Rightarrow> (e8 \<times> trace) option" where
  "e8_send_busy e t = e8_send 0x82 [] e t"

text \<open>Success or failure of what was done decides the answer.\<close>

definition e8_answer :: "bool \<Rightarrow> u8 list \<Rightarrow> e8 \<Rightarrow> trace \<Rightarrow> (e8 \<times> trace) option" where
  "e8_answer ok payload e t = (if \<not> ok then e8_send_err e t else e8_send_ok payload e t)"

section \<open>Identity and names\<close>

definition e8_hardware_uid_get :: "e8 \<Rightarrow> trace \<Rightarrow> (e8 \<times> trace) option" where
  "e8_hardware_uid_get e t = do {
     (err, t) \<leftarrow> rd t;
     if err \<noteq> 0 then e8_send_err e t
     else do { (mac, t) \<leftarrow> rd_bytes 6 t; e8_send_ok mac e t } }"

definition e8_default_device_name :: "nat \<Rightarrow> trace \<Rightarrow> (u8 list \<times> trace) option" where
  "e8_default_device_name out_len t = do {
     (mac, t) \<leftarrow> rd_mac45 t;
     Some (ascii (case mac of
             Some (m4, m5) \<Rightarrow> take (out_len - 1) (''ESP8266'' @ ''-'' @ upper_hex2 m4 @ upper_hex2 m5)
           | None \<Rightarrow> e8_copy_str ''ESP8266'' out_len), t) }"

definition e8_load_device_name :: "nat \<Rightarrow> e8 \<Rightarrow> trace \<Rightarrow> (u8 list \<times> trace) option" where
  "e8_load_device_name out_len e t = do {
     (err, t) \<leftarrow> rd t;
     if err \<noteq> 0 then e8_default_device_name out_len t
     else case e8_device_name e of
            Some name \<Rightarrow> if \<not> length name < out_len \<or> name = [] then e8_default_device_name out_len t else Some (name, t)
          | None \<Rightarrow> e8_default_device_name out_len t }"

definition e8_name_get :: "e8 \<Rightarrow> trace \<Rightarrow> (e8 \<times> trace) option" where
  "e8_name_get e t = do { (name, t) \<leftarrow> e8_load_device_name 17 e t; e8_send_ok name e t }"

definition e8_name_set :: "u8 list \<Rightarrow> e8 \<Rightarrow> trace \<Rightarrow> (e8 \<times> trace) option" where
  "e8_name_set data e t = do {
     let len = data ! 1;
     let len = (if len > 16 then 16 else len);
     let len = (if len > 16 then 16 else len);
     let name = blit (zeros 17) 0 (take (unat len) (drop 2 data));
     (err, t) \<leftarrow> rd t;
     if err \<noteq> 0 then e8_send_err e t
     else do {
       (err, t) \<leftarrow> rd t;
       if err \<noteq> 0 then e8_send_err e t
       else do {
         let e = e\<lparr>e8_device_name := Some (c_text name)\<rparr>;
         (err, t) \<leftarrow> rd t;
         e8_answer (err = 0) [] e t } } }"

section \<open>Wi-Fi configuration and the transport session\<close>

text \<open>The buffer with one more piece; \<open>None\<close> when the piece is refused.\<close>

definition e8_stage_field :: "u8 list \<Rightarrow> u8 list \<Rightarrow> u8 list option" where
  "e8_stage_field data target_buf =
     (let offset = data ! 3; len = data ! 4 in
      if len > 13 \<or> unat offset + unat len \<ge> length target_buf then None
      else Some ((blit target_buf (unat offset) (take (unat len) (drop 5 data)))[unat offset + unat len := 0]))"

definition e8_reset_staging :: "e8 \<Rightarrow> e8" where
  "e8_reset_staging e = e\<lparr>e8_staged_ssid := zeros 33, e8_staged_password := zeros 65\<rparr>"

text \<open>The default of the configuration option for the access point: no password.\<close>

definition e8_ap_password :: string where "e8_ap_password = []"

definition e8_wifi_field :: "u8 list \<Rightarrow> e8 \<Rightarrow> trace \<Rightarrow> (e8 \<times> trace) option" where
  "e8_wifi_field data e t =
     (if \<not> e8_staged_active e then e8_send_err e t
      else if data ! 2 = 0 then
        (case e8_stage_field data (e8_staged_ssid e) of
           None \<Rightarrow> e8_send_err e t
         | Some buf \<Rightarrow> e8_send_ok [] (e\<lparr>e8_staged_ssid := buf\<rparr>) t)
      else if data ! 2 = 1 then
        (case e8_stage_field data (e8_staged_password e) of
           None \<Rightarrow> e8_send_err e t
         | Some buf \<Rightarrow> e8_send_ok [] (e\<lparr>e8_staged_password := buf\<rparr>) t)
      else e8_send_err e t)"

text \<open>The answer is sent before the station starts, which ends the Wi-Fi session.\<close>

definition e8_wifi_apply :: "e8 \<Rightarrow> trace \<Rightarrow> (e8 \<times> trace) option" where
  "e8_wifi_apply e t =
     (if \<not> e8_staged_active e \<or> e8_staged_ssid e ! 0 = 0 then e8_send_err e t
      else do {
        (h, t) \<leftarrow> e8_default_hostname 33 t;
        let next = \<lparr>ssid = e8_copy_str (c_string (e8_staged_ssid e)) 33, password = e8_copy_str (c_string (e8_staged_password e)) 65,
          hostname = h\<rparr>;
        (err, e, t) \<leftarrow> e8_save_wifi_config next e t;
        if err \<noteq> 0 then e8_send_err e t
        else do {
          let e = (e8_reset_staging (e\<lparr>e8_config := next, e8_has_config := True\<rparr>))\<lparr>e8_staged_active := False\<rparr>;
          (e, t) \<leftarrow> e8_send_ok [] e t;
          e8_start_station e t } })"

definition e8_wifi_clear :: "e8 \<Rightarrow> trace \<Rightarrow> (e8 \<times> trace) option" where
  "e8_wifi_clear e t = do {
     (err, e, t) \<leftarrow> e8_clear_wifi_config e t;
     if err \<noteq> 0 then e8_send_err e t
     else do {
       (e, t) \<leftarrow> e8_send_ok [] (e\<lparr>e8_config := blank_config, e8_has_config := False, e8_staged_active := False\<rparr>) t;
       e8_start_softap e8_ap_password e t } }"

definition e8_handle_wifi_config :: "u8 list \<Rightarrow> e8 \<Rightarrow> trace \<Rightarrow> (e8 \<times> trace) option" where
  "e8_handle_wifi_config data e t =
     (let sub = data ! 1; b = (\<lambda>x. if x then 1 else 0) in
      if sub = 0 then e8_send_ok [] ((e8_reset_staging e)\<lparr>e8_staged_active := True\<rparr>) t
      else if sub = 1 then e8_wifi_field data e t
      else if sub = 2 then e8_wifi_apply e t
      else if sub = 3 then e8_wifi_clear e t
      else if sub = 4 then
        e8_send_ok ([b (e8_has_config e), b (e8_session_connected e), b (e8_station_online e), b (e8_reconnect_pending e)]
          @ u16_bytes (e8_last_disconnect_reason e) @ [b (e8_station_online e)] @ take 4 (e8_station_ipv4 e) @ [0]) e t
      else e8_send_err e t)"

definition e8_set_claim :: "session \<Rightarrow> e8 \<Rightarrow> e8" where
  "e8_set_claim s e = e\<lparr>e8_claim := s\<rparr>"

text \<open>A call on the claim decides between the answers OK and BUSY.\<close>

definition e8_claim_call :: "(u8 \<Rightarrow> session \<Rightarrow> trace \<Rightarrow> (bool \<times> session \<times> trace) option) \<Rightarrow> u8 \<Rightarrow> u8 \<Rightarrow> e8 \<Rightarrow> trace \<Rightarrow> (e8 \<times> trace) option" where
  "e8_claim_call call requested_source src e t =
     (if requested_source \<noteq> src then e8_send_busy e t
      else do {
        (ok, s, t) \<leftarrow> call src (e8_claim e) t;
        if \<not> ok then e8_send_busy (e8_set_claim s e) t else e8_send_ok [] (e8_set_claim s e) t })"

definition e8_handle_transport_session :: "u8 list \<Rightarrow> u8 \<Rightarrow> e8 \<Rightarrow> trace \<Rightarrow> (e8 \<times> trace) option" where
  "e8_handle_transport_session data src e t =
     (let sub = data ! 1; requested_source = data ! 2 in
      if sub = 0 then do {
        (active, s, t) \<leftarrow> e8_session_active_source (e8_claim e) t;
        e8_send_ok [active] (e8_set_claim s e) t }
      else if sub = 1 then e8_claim_call e8_session_connect requested_source src e t
      else if sub = 2 then e8_claim_call e8_session_disconnect requested_source src e t
      else if sub = 3 then e8_claim_call e8_session_heartbeat requested_source src e t
      else e8_send_err e t)"

section \<open>Pins and converter\<close>

text \<open>Pins 6 to 11 belong to the flash.\<close>

definition e8_validate_gpio_pin :: "u8 \<Rightarrow> int option" where
  "e8_validate_gpio_pin pin = (if pin \<ge> 17 then None else if pin \<ge> 6 \<and> pin \<le> 11 then None else Some (uint pin))"

definition e8_handle_gpio :: "u8 list \<Rightarrow> e8 \<Rightarrow> trace \<Rightarrow> (e8 \<times> trace) option" where
  "e8_handle_gpio data e t = (case e8_validate_gpio_pin (data ! 2) of
     None \<Rightarrow> e8_send_err e t
   | Some gpio \<Rightarrow>
       (let sub = data ! 1 in
        if sub = 0 then do { (err, e, t) \<leftarrow> e8_io (PinDirection gpio False) e t; e8_answer (err = 0) [] e t }
        else if sub = 1 then do { (err, e, t) \<leftarrow> e8_io (PinDirection gpio True) e t; e8_answer (err = 0) [] e t }
        else if sub = 5 then
          (let pull = data ! 3 in
           if pull \<noteq> 1 \<and> pull \<noteq> 2 \<and> pull \<noteq> 0 then e8_send_err e t
           else do {
             (err, e, t) \<leftarrow> e8_io (PinDirection gpio False) e t;
             (err, e, t) \<leftarrow> (if err = 0 then e8_io (PinPull gpio pull) e t else Some (err, e, t));
             e8_answer (err = 0) [] e t })
        else if sub = 2 then do {
          (err, e, t) \<leftarrow> e8_io (PinDirection gpio False) e t;
          if err \<noteq> 0 then e8_send_err e t
          else do { (level, t) \<leftarrow> rd t; e8_send_ok [if level \<noteq> 0 then 1 else 0] e t } }
        else if sub = 3 \<or> sub = 4 then do {
          let level = (sub = 3);
          (err, e, t) \<leftarrow> e8_io (PinDirection gpio True) e t;
          (err, e, t) \<leftarrow> (if err = 0 then e8_io (PinLevel gpio level) e t else Some (err, e, t));
          e8_answer (err = 0) [if level then 1 else 0] e t }
        else if sub = 6 then do {
          (level, t) \<leftarrow> rd t;
          let l = (if level \<noteq> 0 then 1 else 0);
          e8_send_ok [0, 0, 0, 0, l, l] e t }
        else e8_send_err e t))"

text \<open>The sampling loop; \<open>None\<close> for a failed conversion. A value has sixteen bits.\<close>

fun e8_adc_samples :: "nat \<Rightarrow> u32 \<Rightarrow> trace \<Rightarrow> (u32 option \<times> trace) option" where
  "e8_adc_samples 0 acc t = Some (Some acc, t)"
| "e8_adc_samples (Suc n) acc t = do {
     (err, t) \<leftarrow> rd t;
     if err \<noteq> 0 then Some (None, t)
     else do { (raw, t) \<leftarrow> rd t; e8_adc_samples n (acc + ucast (ucast raw :: u16)) t } }"

definition e8_adc_read_average :: "u8 \<Rightarrow> e8 \<Rightarrow> trace \<Rightarrow> (u16 option \<times> e8 \<times> trace) option" where
  "e8_adc_read_average samples e t = do {
     (err, e, t) \<leftarrow> (if e8_adc_initialized e then Some (0, e, t) else e8_io AdcInit e t);
     if err \<noteq> 0 then Some (None, e, t)
     else do {
       let e = e\<lparr>e8_adc_initialized := True\<rparr>;
       (acc, t) \<leftarrow> e8_adc_samples (unat samples) 0 t;
       Some (map_option (\<lambda>s. ucast ((s + ucast (samples div 2)) div ucast samples)) acc, e, t) } }"

definition e8_handle_adc :: "u8 list \<Rightarrow> e8 \<Rightarrow> trace \<Rightarrow> (e8 \<times> trace) option" where
  "e8_handle_adc data e t =
     (if data ! 1 \<noteq> 0 then e8_send_err e t
      else do {
        let samples = data ! 3;
        let samples = (if samples < 1 then 1 else samples);
        let samples = (if samples > 64 then 64 else samples);
        (avg, e, t) \<leftarrow> e8_adc_read_average samples e t;
        case avg of
          None \<Rightarrow> e8_send_err e t
        | Some avg \<Rightarrow> e8_send_ok (u16_bytes avg) e t })"

section \<open>Serial buses\<close>

definition e8_uart1_close :: "e8 \<Rightarrow> trace \<Rightarrow> (e8 \<times> trace) option" where
  "e8_uart1_close e t =
     (if \<not> e8_uart1_initialized e then Some (e, t)
      else Some ((e8_note (UartDelete 1) (e8_note (UartWaitDone 1 100) e))\<lparr>e8_uart1_initialized := False\<rparr>, t))"

definition e8_uart1_ensure :: "u32 \<Rightarrow> e8 \<Rightarrow> trace \<Rightarrow> (bool \<times> e8 \<times> trace) option" where
  "e8_uart1_ensure baud e t = do {
     let baud = (if baud = 0 then 115200 else baud);
     if e8_uart1_initialized e \<and> e8_uart1_baud e = baud then Some (True, e, t)
     else do {
       (e, t) \<leftarrow> (if e8_uart1_initialized e then e8_uart1_close e t else Some (e, t));
       (err, e, t) \<leftarrow> e8_io (UartConfig 1 baud) e t;
       if err \<noteq> 0 then Some (False, e, t)
       else do {
         (err, e, t) \<leftarrow> e8_io (UartInstall 1) e t;
         if err \<noteq> 0 then Some (False, e, t)
         else Some (True, e\<lparr>e8_uart1_initialized := True, e8_uart1_baud := baud\<rparr>, t) } } }"

text \<open>\<open>uart_write_bytes\<close> returns the number of bytes, or a negative error. Milliseconds are ticks.\<close>

definition e8_uart_write :: "u8 list \<Rightarrow> u8 \<Rightarrow> u16 \<Rightarrow> e8 \<Rightarrow> trace \<Rightarrow> (e8 \<times> trace) option" where
  "e8_uart_write data tx_len timeout_ms e t = do {
     let tx_len = (if tx_len > 9 then 9 else tx_len);
     if tx_len = 0 then e8_send_ok [0] e t
     else do {
       (r, e, t) \<leftarrow> e8_io (UartWrite 1 (take (unat tx_len) (drop 9 data))) e t;
       let written = sint r;
       if written < 0 then e8_send_err e t
       else e8_send_ok [if written > 255 then 255 else word_of_int written]
              (e8_note (UartWaitDone 1 (ucast timeout_ms * 1000 div 1000)) e) t } }"

definition e8_handle_uart :: "u8 list \<Rightarrow> e8 \<Rightarrow> trace \<Rightarrow> (e8 \<times> trace) option" where
  "e8_handle_uart data e t = do {
     let sub = data ! 1;
     let baud = emw_u32_le (drop 2 data);
     let timeout_ms = emw_u16_le (drop 6 data);
     let n_or_len = data ! 8;
     let baud = (if baud = 0 then e8_uart1_baud e else baud);
     let timeout_ms = (if timeout_ms = 0 then 250 else timeout_ms);
     if sub = 0 then do { (ok, e, t) \<leftarrow> e8_uart1_ensure baud e t; e8_answer ok [] e t }
     else if sub = 1 then do { (e, t) \<leftarrow> e8_uart1_close e t; e8_send_ok [] e t }
     else if sub = 2 then do {
       (ok, e, t) \<leftarrow> e8_uart1_ensure baud e t;
       if \<not> ok then e8_send_err e t else e8_uart_write data n_or_len timeout_ms e t }
     else if sub = 3 then do { (ok, e, t) \<leftarrow> e8_uart1_ensure baud e t; e8_answer ok [0] e t }
     else e8_send_err e t }"

definition e8_i2c_ensure :: "u32 \<Rightarrow> e8 \<Rightarrow> trace \<Rightarrow> (bool \<times> e8 \<times> trace) option" where
  "e8_i2c_ensure hz e t = (case (e8_validate_gpio_pin 4, e8_validate_gpio_pin 5) of
     (Some sda, Some scl) \<Rightarrow>
       if sda = scl then Some (False, e, t)
       else if e8_i2c_initialized e then Some (True, e, t)
       else do {
         (err, e, t) \<leftarrow> e8_io I2cInstall e t;
         if err \<noteq> 0 then Some (False, e, t)
         else do {
           (err, e, t) \<leftarrow> e8_io (I2cConfig sda scl) e t;
           if err \<noteq> 0 then Some (False, e8_note I2cDelete e, t)
           else Some (True, e\<lparr>e8_i2c_initialized := True, e8_i2c_hz := (if hz = 0 then 100000 else hz)\<rparr>, t) } }
   | _ \<Rightarrow> Some (False, e, t))"

definition e8_i2c_close :: "e8 \<Rightarrow> e8" where
  "e8_i2c_close e = (if \<not> e8_i2c_initialized e then e else (e8_note I2cDelete e)\<lparr>e8_i2c_initialized := False\<rparr>)"

text \<open>Adding operations to a command link, until one fails.\<close>

fun e8_i2c_link :: "i2c_op list \<Rightarrow> trace \<Rightarrow> (u32 \<times> trace) option" where
  "e8_i2c_link [] t = Some (0, t)"
| "e8_i2c_link (op # ops) t = do { (err, t) \<leftarrow> rd t; if err = 0 then e8_i2c_link ops t else Some (err, t) }"

text \<open>One transaction: the link is created (0 is no memory), filled and carried out; the bytes received.\<close>

definition e8_i2c_transaction :: "i2c_op list \<Rightarrow> nat \<Rightarrow> u32 \<Rightarrow> e8 \<Rightarrow> trace \<Rightarrow> (u8 list option \<times> e8 \<times> trace) option" where
  "e8_i2c_transaction ops rx_len timeout_ms e t = do {
     (cmd, t) \<leftarrow> rd t;
     if cmd = 0 then Some (None, e, t)
     else do {
       (err, t) \<leftarrow> e8_i2c_link ops t;
       if err \<noteq> 0 then Some (None, e, t)
       else do {
         (err, e, t) \<leftarrow> e8_io (I2cRun ops (timeout_ms * 1000 div 1000)) e t;
         if err \<noteq> 0 then Some (None, e, t)
         else do { (rx, t) \<leftarrow> rd_bytes rx_len t; Some (Some rx, e, t) } } } }"

definition i2c_reads :: "nat \<Rightarrow> i2c_op list" where
  "i2c_reads n = map (\<lambda>i. I2cReadByte (i + 1 \<noteq> n)) [0..<n]"

definition e8_i2c_write_to :: "u8 \<Rightarrow> u8 list \<Rightarrow> u32 \<Rightarrow> e8 \<Rightarrow> trace \<Rightarrow> (u8 list option \<times> e8 \<times> trace) option" where
  "e8_i2c_write_to addr tx timeout_ms e t =
     e8_i2c_transaction ([I2cStart, I2cWrite [push_bit 1 addr]] @ (if length tx > 0 then [I2cWrite tx] else []) @ [I2cStop]) 0 timeout_ms e t"

definition e8_i2c_read_from :: "u8 \<Rightarrow> nat \<Rightarrow> u32 \<Rightarrow> e8 \<Rightarrow> trace \<Rightarrow> (u8 list option \<times> e8 \<times> trace) option" where
  "e8_i2c_read_from addr rx_len timeout_ms e t =
     (if rx_len = 0 then Some (Some [], e, t)
      else e8_i2c_transaction ([I2cStart, I2cWrite [push_bit 1 addr OR 1]] @ i2c_reads rx_len @ [I2cStop]) rx_len timeout_ms e t)"

definition e8_i2c_write_read :: "u8 \<Rightarrow> u8 list \<Rightarrow> nat \<Rightarrow> u32 \<Rightarrow> e8 \<Rightarrow> trace \<Rightarrow> (u8 list option \<times> e8 \<times> trace) option" where
  "e8_i2c_write_read addr tx rx_len timeout_ms e t =
     (if rx_len = 0 then e8_i2c_write_to addr tx timeout_ms e t
      else e8_i2c_transaction ([I2cStart, I2cWrite [push_bit 1 addr]] @ (if length tx > 0 then [I2cWrite tx] else []) @
             [I2cStart, I2cWrite [push_bit 1 addr OR 1]] @ i2c_reads rx_len @ [I2cStop]) rx_len timeout_ms e t)"

definition e8_answer_rx :: "u8 list option \<Rightarrow> e8 \<Rightarrow> trace \<Rightarrow> (e8 \<times> trace) option" where
  "e8_answer_rx rx e t = (case rx of None \<Rightarrow> e8_send_err e t | Some rx \<Rightarrow> e8_send_ok rx e t)"

definition e8_handle_i2c :: "u8 list \<Rightarrow> e8 \<Rightarrow> trace \<Rightarrow> (e8 \<times> trace) option" where
  "e8_handle_i2c data e t = do {
     let sub = data ! 1;
     let hz = emw_u32_le (drop 2 data);
     let timeout_ms = emw_u16_le (drop 6 data);
     let addr = data ! 8 AND 0x7F;
     let tx_len = data ! 9;
     let rx_len = data ! 10;
     let hz = (if hz = 0 then e8_i2c_hz e else hz);
     let timeout_ms = (if timeout_ms = 0 then 250 else timeout_ms);
     if sub = 0 then do { (ok, e, t) \<leftarrow> e8_i2c_ensure hz e t; e8_answer ok [] e t }
     else if sub = 1 then e8_send_ok [] (e8_i2c_close e) t
     else do {
       (ok, e, t) \<leftarrow> e8_i2c_ensure hz e t;
       if \<not> ok then e8_send_err e t
       else do {
         let tx_len = (if tx_len > 7 then 7 else tx_len);
         let rx_len = (if rx_len > 17 then 17 else rx_len);
         let tx = take (unat tx_len) (drop 11 data);
         if sub = 2 then do { (rx, e, t) \<leftarrow> e8_i2c_write_to addr tx (ucast timeout_ms) e t; e8_answer_rx rx e t }
         else if sub = 3 then do {
           let n = (if tx_len > 17 then 17 else tx_len);
           (rx, e, t) \<leftarrow> (if n = 0 then Some (Some [], e, t) else e8_i2c_read_from addr (unat n) (ucast timeout_ms) e t);
           e8_answer_rx rx e t }
         else if sub = 4 then
           (if rx_len = 0
            then do { (rx, e, t) \<leftarrow> e8_i2c_write_to addr tx (ucast timeout_ms) e t; e8_answer_rx rx e t }
            else do { (rx, e, t) \<leftarrow> e8_i2c_write_read addr tx (unat rx_len) (ucast timeout_ms) e t; e8_answer_rx rx e t })
         else e8_send_err e t } } }"

text \<open>SPI in software, most significant bit first; the input is sampled while the clock is high.\<close>

fun e8_shift_bits :: "nat \<Rightarrow> u8 \<Rightarrow> u8 \<Rightarrow> e8 \<Rightarrow> trace \<Rightarrow> (u8 \<times> e8 \<times> trace) option" where
  "e8_shift_bits 0 out inp e t = Some (inp, e, t)"
| "e8_shift_bits (Suc b) out inp e t = do {
     let e = e8_note (PinLevel 14 True) (e8_note (PinLevel 13 (drop_bit b out AND 1 \<noteq> 0)) e);
     (level, t) \<leftarrow> rd t;
     let inp = push_bit 1 inp OR (if level \<noteq> 0 then 1 else 0);
     e8_shift_bits b out inp (e8_note (PinLevel 14 False) e) t }"

definition e8_spi_shift_byte :: "u8 \<Rightarrow> e8 \<Rightarrow> trace \<Rightarrow> (u8 \<times> e8 \<times> trace) option" where
  "e8_spi_shift_byte out e t = e8_shift_bits 8 out 0 e t"

fun e8_spi_bytes :: "u8 list \<Rightarrow> e8 \<Rightarrow> trace \<Rightarrow> (u8 list \<times> e8 \<times> trace) option" where
  "e8_spi_bytes [] e t = Some ([], e, t)"
| "e8_spi_bytes (out # outs) e t = do {
     (inp, e, t) \<leftarrow> e8_spi_shift_byte out e t;
     (inps, e, t) \<leftarrow> e8_spi_bytes outs e t;
     Some (inp # inps, e, t) }"

definition e8_spi_setup :: "e8 \<Rightarrow> e8" where
  "e8_spi_setup e =
     (if e8_spi_initialized e then e
      else (fold e8_note [PinDirection 12 False, PinDirection 13 True, PinDirection 14 True, PinLevel 13 False, PinLevel 14 False] e)
             \<lparr>e8_spi_initialized := True\<rparr>)"

text \<open>The buffer of received bytes is filled up to the shorter of the transfer and the size asked for.\<close>

definition e8_spi_transfer_once :: "int \<Rightarrow> u8 list \<Rightarrow> nat \<Rightarrow> e8 \<Rightarrow> trace \<Rightarrow> (u8 list option \<times> e8 \<times> trace) option" where
  "e8_spi_transfer_once cs_gpio tx rx_len e t = do {
     let total_len = max (length tx) rx_len;
     if total_len = 0 \<or> total_len > 17 then Some (None, e, t)
     else do {
       let e = fold e8_note [PinDirection cs_gpio True, PinLevel cs_gpio True, PinLevel cs_gpio False] (e8_spi_setup e);
       (inps, e, t) \<leftarrow> e8_spi_bytes (tx @ zeros (total_len - length tx)) e t;
       Some (Some (take rx_len inps), e8_note (PinLevel cs_gpio True) e, t) } }"

definition e8_handle_spi :: "u8 list \<Rightarrow> e8 \<Rightarrow> trace \<Rightarrow> (e8 \<times> trace) option" where
  "e8_handle_spi data e t = (case e8_validate_gpio_pin (data ! 1) of
     None \<Rightarrow> e8_send_err e t
   | Some cs_gpio \<Rightarrow> do {
       let requested_rx = data ! 2;
       let tx_len = data ! 3;
       let tx_len = (if tx_len > 14 then 14 else tx_len);
       let requested_rx = (if requested_rx = 0 then tx_len else requested_rx);
       let requested_rx = (if requested_rx > 17 then 17 else requested_rx);
       if tx_len = 0 \<and> requested_rx = 0 then e8_send_ok [] e t
       else do {
         (rx, e, t) \<leftarrow> e8_spi_transfer_once cs_gpio (take (unat tx_len) (drop 4 data)) (unat requested_rx) e t;
         e8_answer_rx rx e t } })"

section \<open>PWM\<close>

definition e8_pwm_apply_output :: "int \<Rightarrow> u16 \<Rightarrow> u32 \<Rightarrow> e8 \<Rightarrow> trace \<Rightarrow> (bool \<times> e8 \<times> trace) option" where
  "e8_pwm_apply_output gpio duty_u12 hz e t =
     (if hz = 0 then Some (False, e, t)
      else if duty_u12 = 0 \<or> duty_u12 \<ge> 4095 then do {
        let e = (if e8_pwm_configured e then (e8_note (PwmStop (duty_u12 \<ge> 4095)) e)\<lparr>e8_pwm_configured := False\<rparr> else e);
        let e = e8_note (PinDirection gpio True) (e\<lparr>e8_pwm_active_pin := -1\<rparr>);
        (err, e, t) \<leftarrow> e8_io (PinLevel gpio (duty_u12 \<ge> 4095)) e t;
        Some (err = 0, e, t) }
      else do {
        (err, e, t) \<leftarrow> e8_io (PwmTimer hz) e t;
        if err \<noteq> 0 then Some (False, e, t)
        else do {
          (err, e, t) \<leftarrow> e8_io (PwmChannel gpio duty_u12) e t;
          if err \<noteq> 0 then Some (False, e, t)
          else do {
            (err, e, t) \<leftarrow> e8_io (PwmDuty duty_u12) e t;
            if err \<noteq> 0 then Some (False, e, t)
            else do {
              (err, e, t) \<leftarrow> e8_io PwmUpdate e t;
              if err \<noteq> 0 then Some (False, e, t)
              else Some (True, e\<lparr>e8_pwm_configured := True, e8_pwm_active_pin := gpio, e8_pwm_freq_hz := hz\<rparr>, t) } } } })"

definition e8_handle_pwm :: "u8 list \<Rightarrow> e8 \<Rightarrow> trace \<Rightarrow> (e8 \<times> trace) option" where
  "e8_handle_pwm data e t =
     (let sub = data ! 1 in
      if sub = 0 then
        (let hz = emw_u32_le (drop 2 data) in
         if hz = 0 then e8_send_err e t else e8_send_ok [] (e\<lparr>e8_pwm_freq_hz := hz\<rparr>) t)
      else case e8_validate_gpio_pin (data ! 2) of
        None \<Rightarrow> e8_send_err e t
      | Some gpio \<Rightarrow>
          if sub = 2 then
            (let e = (if e8_pwm_configured e \<and> e8_pwm_active_pin e = gpio
                      then (e8_note (PwmStop False) e)\<lparr>e8_pwm_configured := False, e8_pwm_active_pin := -1\<rparr> else e)
             in e8_send_ok [] (e8_note (PinLevel gpio False) (e8_note (PinDirection gpio True) e)) t)
          else if sub = 1 then do {
            let val = emw_u16_le (drop 3 data);
            let hz = emw_u32_le (drop 5 data);
            let val = (if val > 4095 then 4095 else val);
            let hz = (if hz = 0 then e8_pwm_freq_hz e else hz);
            (ok, e, t) \<leftarrow> e8_pwm_apply_output gpio val hz e t;
            e8_answer ok [] e t }
          else e8_send_err e t)"

section \<open>Dispatch and the command task\<close>

definition e8_handle_sample :: "e8 \<Rightarrow> trace \<Rightarrow> (e8 \<times> trace) option" where
  "e8_handle_sample e t = e8_send_err e t"

definition e8_handle_transmit :: "e8 \<Rightarrow> trace \<Rightarrow> (e8 \<times> trace) option" where
  "e8_handle_transmit e t = e8_send_err e t"

definition e8_serial_allows_opcode :: "command_t \<Rightarrow> bool" where
  "e8_serial_allows_opcode cmd \<longleftrightarrow> \<not> cmd_length cmd \<noteq> 18"

definition e8_handle_packet :: "command_t \<Rightarrow> e8 \<Rightarrow> trace \<Rightarrow> (e8 \<times> trace) option" where
  "e8_handle_packet cmd e t =
     (if cmd_length cmd \<noteq> 18 then e8_send_err e t
      else if cmd_source cmd = 1 \<and> \<not> e8_serial_allows_opcode cmd then e8_send_err e t
      else
        let data = cmd_data cmd; opcode = data ! 0 in
        if opcode = 0x01 then e8_send_ok [1, 0, 3] e t
        else if opcode = 0x02 \<or> opcode = 0x03 then do {
          (e, t) \<leftarrow> e8_send_ok [] e t;
          Some (if opcode = 0x02 then e\<lparr>e8_restarting := True\<rparr> else e, t) }
        else if opcode = 0x08 then e8_hardware_uid_get e t
        else if opcode = 0x09 then e8_send_ok (ascii ''esp8266'') e t
        else if opcode = 0x0A then e8_handle_wifi_config data e t
        else if opcode = 0x0B then e8_handle_transport_session data (cmd_source cmd) e t
        else if opcode = 0x04 then e8_name_get e t
        else if opcode = 0x05 then e8_name_set data e t
        else if opcode = 0x10 then e8_handle_gpio data e t
        else if opcode = 0x20 then e8_handle_adc data e t
        else if opcode = 0x30 then e8_handle_uart data e t
        else if opcode = 0x40 then e8_handle_i2c data e t
        else if opcode = 0x50 then e8_handle_spi data e t
        else if opcode = 0x70 then e8_handle_pwm data e t
        else if opcode = 0x60 then e8_handle_sample e t
        else if opcode = 0x80 then e8_handle_transmit e t
        else e8_send_err e t)"

text \<open>One round of the command task; with an empty queue it waits.\<close>

definition e8_command_round :: "e8 \<Rightarrow> trace \<Rightarrow> (e8 \<times> trace) option" where
  "e8_command_round e t = (case e8_cmd_queue e of
     None \<Rightarrow> None
   | Some [] \<Rightarrow> None
   | Some (cmd # q) \<Rightarrow> do {
       let e = e\<lparr>e8_cmd_queue := Some q\<rparr>;
       if cmd_length cmd = 0 then Some (e, t)
       else do {
         let e = e\<lparr>e8_active_command_source := cmd_source cmd\<rparr>;
         (allowed, s, t) \<leftarrow> e8_session_allows_command cmd (e8_claim e) t;
         let e = e8_set_claim s e;
         (e, t) \<leftarrow> (if \<not> allowed then e8_send_busy e t else e8_handle_packet cmd e t);
         Some (e\<lparr>e8_active_command_source := 0\<rparr>, t) } })"

section \<open>Start-up\<close>

text \<open>The initial values of the variables.\<close>

definition e8_reset :: e8 where
  "e8_reset = \<lparr>e8_cmd_queue = None, e8_listen_sock = -1, e8_active_sock = -1, e8_server_task = False, e8_config = blank_config,
     e8_has_config = False, e8_wifi_started = False, e8_station_online = False, e8_session_connected = False,
     e8_reconnect_pending = False, e8_mdns_started = False, e8_reconnect_attempt = 0, e8_last_disconnect_reason = 0,
     e8_station_ipv4 = zeros 4, e8_runtime_mode = WIFI_RUNTIME_NONE, e8_claim = \<lparr>s_active_source = 0, s_last_activity_tick = 0\<rparr>,
     e8_staged_ssid = zeros 33, e8_staged_password = zeros 65, e8_staged_active = False, e8_active_command_source = 0,
     e8_pwm_freq_hz = 1000, e8_pwm_active_pin = -1, e8_pwm_configured = False, e8_adc_initialized = False,
     e8_spi_initialized = False, e8_i2c_initialized = False, e8_i2c_hz = 100000, e8_uart1_initialized = False,
     e8_uart1_baud = 115200, e8_wifi_nvs = (\<lambda>_. None), e8_device_name = None, e8_restarting = False, e8_calls = [],
     e8_ws_sent = [], e8_serial_sent = [], e8_answers = []\<rparr>"

text \<open>Storage: the values 1 and 2 stand for the two errors after which it is erased.\<close>

definition e8_init_storage :: "trace \<Rightarrow> (unit \<times> trace) option" where
  "e8_init_storage t = do {
     (ret, t) \<leftarrow> rd t;
     if ret = 1 \<or> ret = 2 then do { (_, t) \<leftarrow> ESP_ERROR_CHECK t; ESP_ERROR_CHECK t }
     else if ret = 0 then Some ((), t) else None }"

definition e8_init_gpio_startup :: "e8 \<Rightarrow> e8" where
  "e8_init_gpio_startup e = fold e8_note (PinConfig 2 # concat (replicate 3 [PinLevel 2 False, PinLevel 2 True])) e"

definition e8_ensure_network_stack :: "trace \<Rightarrow> (unit \<times> trace) option" where
  "e8_ensure_network_stack t = do {
     (_, t) \<leftarrow> ESP_ERROR_CHECK_unless t;
     (_, t) \<leftarrow> ESP_ERROR_CHECK t;
     (_, t) \<leftarrow> ESP_ERROR_CHECK t;
     ESP_ERROR_CHECK t }"

text \<open>A failed assertion stops the firmware; a task is created when the result is 1.\<close>

definition config_assert_created :: "trace \<Rightarrow> (unit \<times> trace) option" where
  "config_assert_created t = do { (created, t) \<leftarrow> rd t; if created = 1 then Some ((), t) else None }"

definition e8_init_serial :: "e8 \<Rightarrow> trace \<Rightarrow> (e8 \<times> trace) option" where
  "e8_init_serial e t = do {
     (_, t) \<leftarrow> ESP_ERROR_CHECK t;
     (_, t) \<leftarrow> ESP_ERROR_CHECK t;
     (_, t) \<leftarrow> config_assert_created t;
     Some (e8_note (UartInstall 0) (e8_note (UartConfig 0 115200) e), t) }"

definition e8_app_main :: "e8 \<Rightarrow> trace \<Rightarrow> (e8 \<times> trace) option" where
  "e8_app_main e t = do {
     (_, t) \<leftarrow> e8_init_storage t;
     let e = e8_init_gpio_startup e;
     (_, t) \<leftarrow> e8_ensure_network_stack t;
     (queue, t) \<leftarrow> rd t;
     if queue = 0 then None
     else do {
       (e, t) \<leftarrow> e8_init_serial (e\<lparr>e8_cmd_queue := Some []\<rparr>) t;
       ((has, c), t) \<leftarrow> e8_load_wifi_config e t;
       let e = e\<lparr>e8_config := c, e8_has_config := has\<rparr>;
       (e, t) \<leftarrow> (if has then e8_start_station e t else e8_start_softap e8_ap_password e t);
       (_, t) \<leftarrow> config_assert_created t;
       Some (e, t) } }"

end
