(* ===== verification/Esp8266_Answer.thy ===== *)
theory Esp8266_Answer
  imports Esp8266_Core "HOL-Library.Sublist"
begin

text \<open>
  Each opcode of the ESP8266 firmware sends one answer, on the link its command came from, and keeps the
  state well formed: an instance of the interface \<open>answering\<close> of \<open>Emw_Prelude\<close>.
\<close>

section \<open>The invariant\<close>

definition e8_inv :: "e8 \<Rightarrow> bool" where
  "e8_inv e \<longleftrightarrow> (e8_session_connected e \<longleftrightarrow> 0 \<le> e8_active_sock e) \<and> e8_reconnect_attempt e \<le> 8 \<and>
     length (ssid (e8_config e)) \<le> 32 \<and> length (password (e8_config e)) \<le> 64 \<and> length (hostname (e8_config e)) \<le> 32 \<and>
     (e8_has_config e \<longrightarrow> ssid (e8_config e) \<noteq> []) \<and> length (e8_station_ipv4 e) = 4 \<and>
     length (e8_staged_ssid e) = 33 \<and> length (e8_staged_password e) = 65"

text \<open>The active socket is only ever given up, except by the server task.\<close>

definition e8_keeps :: "e8 \<Rightarrow> e8 \<Rightarrow> bool" where
  "e8_keeps e e' \<longleftrightarrow> (e8_inv e \<longrightarrow> e8_inv e') \<and> e8_active_sock e' \<in> {e8_active_sock e, -1}"

definition e8_links :: "e8 \<Rightarrow> command_t list option \<times> u8 \<times> (u8 \<times> u8 list) list \<times> (int \<times> u8 list) list \<times> u8 list" where
  "e8_links e = (e8_cmd_queue e, e8_active_command_source e, e8_answers e, e8_ws_sent e, e8_serial_sent e)"

definition e8_pending :: "e8 \<Rightarrow> e8 \<Rightarrow> bool" where
  "e8_pending e e' \<longleftrightarrow> e8_links e' = e8_links e \<and> e8_active_sock e' = e8_active_sock e \<and> e8_keeps e e'"

text \<open>The message that carries a lane, and that it went out on the link of its source, at least in part.\<close>

definition e8_carried :: "u8 list \<Rightarrow> u8 list" where
  "e8_carried lane = e8_sysex (blit (zeros 36) 0 lane)"

definition e8_sent_by :: "u8 \<Rightarrow> u8 list \<Rightarrow> e8 \<Rightarrow> e8 \<Rightarrow> bool" where
  "e8_sent_by src lane e e' \<longleftrightarrow>
     (if src = 1 then e8_ws_sent e' = e8_ws_sent e \<and> (\<exists>piece. prefix piece (e8_carried lane) \<and> e8_serial_sent e' = e8_serial_sent e @ piece)
      else e8_serial_sent e' = e8_serial_sent e \<and>
        (\<exists>sent. e8_ws_sent e' = e8_ws_sent e @ sent \<and> prefix (concat (map snd sent)) ([0x82, 48] @ e8_carried lane) \<and>
          (\<forall>p \<in> set sent. fst p = e8_active_sock e \<and> 0 \<le> fst p)))"

definition e8_answered :: "e8 \<Rightarrow> e8 \<Rightarrow> bool" where
  "e8_answered e e' \<longleftrightarrow> e8_keeps e e' \<and> e8_cmd_queue e' = e8_cmd_queue e \<and> e8_active_command_source e' = e8_active_command_source e \<and>
     (\<exists>lane. length lane = 18 \<and> lane ! 0 \<in> {0x80, 0x81, 0x82} \<and> e8_answers e' = e8_answers e @ [(e8_active_command_source e, lane)] \<and>
        e8_sent_by (e8_active_command_source e) lane e e')"

section \<open>Sending\<close>

lemma length_e8_sysex [simp]: "length frame = 36 \<Longrightarrow> length (e8_sysex frame) = 48"
  by (simp add: e8_sysex_def e8_encode_payload_def wifi_encode_payload_7bit_fixed_def [symmetric] wifi_codec_eq)

lemma e8_lane: "length (take 18 (blit (zeros 36) 0 (status # take 17 payload))) = 18"
  "take 18 (blit (zeros 36) 0 (status # take 17 payload)) ! 0 = status"
  by (simp_all add: blit_def)

lemma e8_carried_lane: "e8_carried (take 18 (blit (zeros 36) 0 (status # take 17 payload))) = e8_sysex (blit (zeros 36) 0 (status # take 17 payload))"
  by (simp add: e8_carried_def blit_def zeros_def replicate_add [symmetric] min_def)

lemma sock_send_post:
  "post (\<lambda>(n, e', t'). e' = e\<lparr>e8_ws_sent := e8_ws_sent e @ (if n > 0 then [(sock, take (nat n) bs)] else [])\<rparr>) (sock_send sock bs e t)"
  unfolding sock_send_def Let_def by (auto intro!: post_rules)

text \<open>What the two calls of \<open>send\<close> put on the wire.\<close>

definition part_sent :: "int \<Rightarrow> u8 list \<Rightarrow> int \<Rightarrow> (int \<times> u8 list) list" where
  "part_sent sock bs n = (if n > 0 then [(sock, take (nat n) bs)] else [])"

lemma part_sent_facts:
  "prefix (concat (map snd (part_sent sock bs n))) bs" "p \<in> set (part_sent sock bs n) \<Longrightarrow> fst p = sock"
  by (simp_all add: part_sent_def take_is_prefix split: if_splits)

lemma sock_send_Cons: "sock_send sock bs e (r # t) = Some (sint r, e\<lparr>e8_ws_sent := e8_ws_sent e @ part_sent sock bs (sint r)\<rparr>, t)"
  by (simp add: sock_send_def part_sent_def Let_def)

lemma sock_send_Nil: "sock_send sock bs e [] = None"
  by (simp add: sock_send_def)

lemma websocket_send_post:
  "post (\<lambda>(ok, e', t'). \<exists>sent. e' = e\<lparr>e8_ws_sent := e8_ws_sent e @ sent\<rparr> \<and> prefix (concat (map snd sent)) ([0x82, of_nat (length payload)] @ payload) \<and>
     (\<forall>p \<in> set sent. fst p = sock \<and> 0 \<le> fst p)) (e8_websocket_send_binary sock payload e t)" (is "post ?Q _")
proof (cases "sock < 0 \<or> length payload > 125")
  case True
  then show ?thesis by (auto simp: e8_websocket_send_binary_def intro: exI [of _ "[]"])
next
  case up: False
  let ?h = "[0x82, of_nat (length payload)]"
  have Q: "?Q (ok, e\<lparr>e8_ws_sent := e8_ws_sent e @ sent\<rparr>, u)"
    if "prefix (concat (map snd sent)) (?h @ payload)" "\<forall>p \<in> set sent. fst p = sock" for ok sent u
    unfolding prod.case by (rule exI [of _ sent]) (use that up in auto)
  show ?thesis
  proof (cases t)
    case Nil
    then show ?thesis using up by (simp add: e8_websocket_send_binary_def sock_send_Nil)
  next
    case (Cons r t1)
    let ?s = "part_sent sock ?h (sint r)"
    have s: "prefix (concat (map snd ?s)) (?h @ payload)" "\<forall>p \<in> set ?s. fst p = sock"
      using part_sent_facts prefix_prefix by blast+
    show ?thesis
    proof (cases "sint r = 2")
      case False
      have "?Q (False, e\<lparr>e8_ws_sent := e8_ws_sent e @ ?s\<rparr>, t1)" using s by (rule Q)
      then show ?thesis using up False Cons by (simp add: e8_websocket_send_binary_def sock_send_Cons)
    next
      case True
      then have h: "?s = [(sock, ?h)]" by (simp add: part_sent_def)
      show ?thesis
      proof (cases t1)
        case Nil
        then show ?thesis using up True Cons by (simp add: e8_websocket_send_binary_def sock_send_Cons sock_send_Nil)
      next
        case Cons': (Cons r' t2)
        let ?p = "part_sent sock payload (sint r')"
        have "prefix (concat (map snd (?s @ ?p))) (?h @ payload)" "\<forall>p \<in> set (?s @ ?p). fst p = sock"
          using part_sent_facts(1) [of sock payload "sint r'"] part_sent_facts(2) [of _ sock payload "sint r'"] by (auto simp: h)
        then have "?Q (sint r' = int (length payload), e\<lparr>e8_ws_sent := e8_ws_sent e @ ?s @ ?p\<rparr>, t2)" by (rule Q)
        then show ?thesis using up True Cons Cons' by (simp add: e8_websocket_send_binary_def sock_send_Cons)
      qed
    qed
  qed
qed

lemma serial_send_post:
  "post (\<lambda>(ok, e', t'). \<exists>piece. prefix piece (e8_sysex frame) \<and> e' = e\<lparr>e8_serial_sent := e8_serial_sent e @ piece\<rparr>)
     (e8_send_serial_superframe frame e t)"
proof (cases t)
  case (Cons r u)
  show ?thesis
    unfolding Cons e8_send_serial_superframe_def
    by (auto simp: Let_def take_is_prefix intro!: exI [of _ "if sint r > 0 then take (nat (sint r)) (e8_sysex frame) else []"])
qed (simp add: e8_send_serial_superframe_def)

lemma e8_keeps_refl [simp]: "e8_keeps e e"
  by (simp add: e8_keeps_def)

lemma e8_keeps_trans: "e8_keeps e e1 \<Longrightarrow> e8_keeps e1 e2 \<Longrightarrow> e8_keeps e e2"
  by (auto simp: e8_keeps_def)

lemma e8_pending_refl [simp]: "e8_pending e e"
  by (simp add: e8_pending_def)

lemma e8_inv_wire [simp]:
  "e8_inv (e\<lparr>e8_ws_sent := w\<rparr>) = e8_inv e" "e8_inv (e\<lparr>e8_serial_sent := s\<rparr>) = e8_inv e" "e8_inv (e\<lparr>e8_answers := a\<rparr>) = e8_inv e"
  "e8_inv (e\<lparr>e8_cmd_queue := q\<rparr>) = e8_inv e" "e8_inv (e\<lparr>e8_active_command_source := src\<rparr>) = e8_inv e"
  by (simp_all add: e8_inv_def)

lemma e8_send_answers:
  assumes "e8_pending e0 e" "status \<in> {0x80, 0x81, 0x82}"
  shows "post (\<lambda>(e', t'). e8_answered e0 e') (e8_send status payload e t)"
proof -
  let ?frame = "blit (zeros 36) 0 (status # take 17 payload)"
  let ?lane = "take 18 ?frame"
  let ?e = "e\<lparr>e8_answers := e8_answers e @ [(e8_active_command_source e, ?lane)]\<rparr>"
  have p: "e8_cmd_queue e = e8_cmd_queue e0" "e8_active_command_source e = e8_active_command_source e0" "e8_answers e = e8_answers e0"
    "e8_ws_sent e = e8_ws_sent e0" "e8_serial_sent e = e8_serial_sent e0" "e8_active_sock e = e8_active_sock e0" "e8_inv e0 \<longrightarrow> e8_inv e"
    using assms(1) by (simp_all add: e8_pending_def e8_links_def e8_keeps_def)
  have l: "length ?lane = 18" "?lane ! 0 \<in> {0x80, 0x81, 0x82}" using assms(2) by (simp_all only: e8_lane)
  have f: "length ?frame = 36" by simp
  note c = e8_carried_lane [of status payload]
  have a: "e8_answered e0 e'"
    if "e8_sent_by (e8_active_command_source e0) ?lane e0 e'" "e8_answers e' = e8_answers e0 @ [(e8_active_command_source e0, ?lane)]"
      "e8_cmd_queue e' = e8_cmd_queue e0" "e8_active_command_source e' = e8_active_command_source e0"
      "e8_active_sock e' = e8_active_sock e0" "e8_inv e0 \<longrightarrow> e8_inv e'" for e'
    using that l by (auto simp: e8_answered_def e8_keeps_def simp del: length_take)
  show ?thesis
  proof (cases "e8_active_command_source e = 1")
    case True
    have "post (\<lambda>(ok, e', t'). e8_answered e0 e') (e8_send_serial_superframe ?frame ?e t)"
      using True p by (auto intro!: post_mono [OF serial_send_post] a simp: e8_sent_by_def c)
    then show ?thesis
      using True by (auto simp: e8_send_def Let_def intro!: post_bind elim!: post_mono)
  next
    case False
    have "post (\<lambda>(ok, e', t'). e8_answered e0 e') (e8_send_superframe ?frame ?e t)"
      unfolding e8_send_superframe_def
      using False p length_e8_sysex [OF f]
      by (auto intro!: post_if a post_mono [OF websocket_send_post] exI [of _ "[]"] simp: e8_sent_by_def c)
    then show ?thesis
      using False by (auto simp: e8_send_def Let_def intro!: post_bind elim!: post_mono)
  qed
qed

interpretation e8_link: answering e8_pending e8_answered e8_send
  by unfold_locales (simp_all add: e8_send_answers)

lemma e8_ok_post: "e8_pending e0 e \<Longrightarrow> e8_link.replies e0 (e8_send_ok payload e t)"
  unfolding e8_send_ok_def by (rule e8_link.send_ok)

lemma e8_err_post: "e8_pending e0 e \<Longrightarrow> e8_link.replies e0 (e8_send_err e t)"
  unfolding e8_send_err_def by (rule e8_link.send_err)

lemma e8_busy_post: "e8_pending e0 e \<Longrightarrow> e8_link.replies e0 (e8_send_busy e t)"
  unfolding e8_send_busy_def by (rule e8_link.send_busy)

lemma e8_answer_post: "e8_pending e0 e \<Longrightarrow> e8_link.replies e0 (e8_answer ok payload e t)"
  unfolding e8_answer_def by (simp add: e8_ok_post e8_err_post)

lemma e8_answer_rx_post: "e8_pending e0 e \<Longrightarrow> e8_link.replies e0 (e8_answer_rx rx e t)"
  unfolding e8_answer_rx_def by (auto intro: post_option simp: e8_ok_post e8_err_post)

lemmas e8_send_posts = e8_ok_post e8_err_post e8_busy_post e8_answer_post e8_answer_rx_post

section \<open>Steps that leave the command pending\<close>

lemmas e8_state_defs = e8_pending_def e8_links_def e8_keeps_def e8_inv_def

lemma e8_pending_upd [simp]:
  "e8_pending e0 (e8_note c e) = e8_pending e0 e" "e8_pending e0 (e8_set_claim s e) = e8_pending e0 e"
  "e8_pending e0 (e\<lparr>e8_device_name := n\<rparr>) = e8_pending e0 e" "e8_pending e0 (e\<lparr>e8_staged_active := b\<rparr>) = e8_pending e0 e"
  "e8_pending e0 (e\<lparr>e8_pwm_freq_hz := f\<rparr>) = e8_pending e0 e" "e8_pending e0 (e\<lparr>e8_pwm_active_pin := i\<rparr>) = e8_pending e0 e"
  "e8_pending e0 (e\<lparr>e8_pwm_configured := b\<rparr>) = e8_pending e0 e" "e8_pending e0 (e\<lparr>e8_adc_initialized := b\<rparr>) = e8_pending e0 e"
  "e8_pending e0 (e\<lparr>e8_spi_initialized := b\<rparr>) = e8_pending e0 e" "e8_pending e0 (e\<lparr>e8_i2c_initialized := b\<rparr>) = e8_pending e0 e"
  "e8_pending e0 (e\<lparr>e8_i2c_hz := f\<rparr>) = e8_pending e0 e" "e8_pending e0 (e\<lparr>e8_uart1_initialized := b\<rparr>) = e8_pending e0 e"
  "e8_pending e0 (e\<lparr>e8_uart1_baud := f\<rparr>) = e8_pending e0 e" "e8_pending e0 (e\<lparr>e8_wifi_nvs := v\<rparr>) = e8_pending e0 e"
  by (simp_all add: e8_state_defs e8_note_def e8_set_claim_def)

lemma e8_pending_notes [simp]: "e8_pending e0 (fold e8_note cs e) = e8_pending e0 e"
  by (induction cs arbitrary: e) simp_all

lemma e8_io_bind:
  "e8_pending e0 e \<Longrightarrow> (\<And>err e' t'. e8_pending e0 e' \<Longrightarrow> post Q (f (err, e', t'))) \<Longrightarrow> post Q (e8_io c e t \<bind> f)"
  unfolding e8_io_def by (auto intro!: post_rules)

lemma e8_io_if_bind:
  "e8_pending e0 e \<Longrightarrow> (\<And>err e' t'. e8_pending e0 e' \<Longrightarrow> post Q (f (err, e', t'))) \<Longrightarrow>
   post Q ((if c then e8_io call e t else Some (err, e, t)) \<bind> f)"
  using e8_io_bind [of e0 e Q f call t] by simp

lemma e8_io_if_bind':
  "e8_pending e0 e \<Longrightarrow> (\<And>err e' t'. e8_pending e0 e' \<Longrightarrow> post Q (f (err, e', t'))) \<Longrightarrow>
   post Q ((if c then Some (err, e, t) else e8_io call e t) \<bind> f)"
  using e8_io_bind [of e0 e Q f call t] by simp

lemmas e8_skips = post_any_bind [where m = "rd t" for t] post_any_bind [where m = "rd_bytes n t" for n t]
  post_any_bind [where m = "rd_mac45 t" for t] post_any_bind [where m = "e8_load_device_name n e t" for n e t]
  post_any_bind [where m = "e8_default_hostname n t" for n t] post_any_bind [where m = "e8_adc_samples n s t" for n s t]
  post_any_bind [where m = "e8_i2c_link ops t" for ops t] post_any_bind [where m = "e8_session_active_source s t" for s t]

text \<open>An operation whose state component leaves the command pending.\<close>

abbreviation e8_leaves :: "e8 \<Rightarrow> ('a \<times> e8 \<times> trace) option \<Rightarrow> bool" where
  "e8_leaves e0 \<equiv> post (\<lambda>(x, e', t'). e8_pending e0 e')"

lemma adc_leaves: "e8_pending e0 e \<Longrightarrow> e8_leaves e0 (e8_adc_read_average samples e t)"
  unfolding e8_adc_read_average_def Let_def
  by (rule e8_io_if_bind' [of e0 e]) (auto intro!: post_if e8_skips)

lemma uart_close_leaves: "e8_pending e0 e \<Longrightarrow> post (\<lambda>(e', t'). e8_pending e0 e') (e8_uart1_close e t)"
  unfolding e8_uart1_close_def by simp

lemma uart_close_bind:
  "e8_pending e0 e \<Longrightarrow> (\<And>e' t'. e8_pending e0 e' \<Longrightarrow> post Q (f (e', t'))) \<Longrightarrow>
   post Q ((if c then e8_uart1_close e t else Some (e, t)) \<bind> f)"
  by (rule post_bind, rule post_mono [where P = "\<lambda>(e', t'). e8_pending e0 e'"]) (auto simp: uart_close_leaves)

lemma uart_ensure_leaves: "e8_pending e0 e \<Longrightarrow> e8_leaves e0 (e8_uart1_ensure baud e t)"
  unfolding e8_uart1_ensure_def Let_def
  by (auto intro!: post_if uart_close_bind [of e0 e] e8_io_bind split del: if_split)

lemma i2c_ensure_leaves: "e8_pending e0 e \<Longrightarrow> e8_leaves e0 (e8_i2c_ensure hz e t)"
  unfolding e8_i2c_ensure_def
  by (auto intro!: post_if e8_io_bind [of e0 e] e8_io_bind split: option.splits split del: if_split)

lemma i2c_transaction_leaves: "e8_pending e0 e \<Longrightarrow> e8_leaves e0 (e8_i2c_transaction ops n timeout e t)"
  unfolding e8_i2c_transaction_def
  by (auto intro!: post_if e8_skips e8_io_bind [of e0 e])

lemma i2c_ops_leave:
  "e8_pending e0 e \<Longrightarrow> e8_leaves e0 (e8_i2c_write_to addr tx timeout e t)"
  "e8_pending e0 e \<Longrightarrow> e8_leaves e0 (e8_i2c_read_from addr n timeout e t)"
  "e8_pending e0 e \<Longrightarrow> e8_leaves e0 (e8_i2c_write_read addr tx n timeout e t)"
  unfolding e8_i2c_write_to_def e8_i2c_read_from_def e8_i2c_write_read_def by (simp_all add: i2c_transaction_leaves)

lemma shift_bits_leaves: "e8_pending e0 e \<Longrightarrow> e8_leaves e0 (e8_shift_bits n out inp e t)"
  by (induction n arbitrary: inp e t) (auto simp: Let_def intro!: e8_skips)

lemma spi_bytes_leaves: "e8_pending e0 e \<Longrightarrow> e8_leaves e0 (e8_spi_bytes outs e t)"
proof (induction outs arbitrary: e t)
  case (Cons out outs)
  then show ?case
    unfolding e8_spi_bytes.simps e8_spi_shift_byte_def
    by (auto intro!: post_bind post_mono [OF shift_bits_leaves] post_mono [OF Cons.IH])
qed simp

lemma spi_setup_pending [simp]: "e8_pending e0 (e8_spi_setup e) = e8_pending e0 e"
  by (simp add: e8_spi_setup_def del: fold.simps)

lemma spi_leaves: "e8_pending e0 e \<Longrightarrow> e8_leaves e0 (e8_spi_transfer_once cs tx n e t)"
  unfolding e8_spi_transfer_once_def Let_def
  by (auto intro!: post_if post_bind post_mono [OF spi_bytes_leaves] simp del: fold.simps)

lemma pwm_leaves: "e8_pending e0 e \<Longrightarrow> e8_leaves e0 (e8_pwm_apply_output gpio duty hz e t)"
  unfolding e8_pwm_apply_output_def Let_def
  by (auto intro!: post_if e8_io_bind)

section \<open>The network\<close>

text \<open>Steps that put nothing on the links and keep the state well formed.\<close>

definition e8_silent :: "e8 \<Rightarrow> e8 \<Rightarrow> bool" where
  "e8_silent e e' \<longleftrightarrow> e8_links e' = e8_links e \<and> e8_keeps e e'"

lemma e8_silent_refl [simp]: "e8_silent e e"
  by (simp add: e8_silent_def)

lemma e8_silent_trans: "e8_silent e e1 \<Longrightarrow> e8_silent e1 e2 \<Longrightarrow> e8_silent e e2"
  by (auto simp: e8_silent_def intro: e8_keeps_trans)

lemma e8_silent_answered: "e8_answered e0 e \<Longrightarrow> e8_silent e e' \<Longrightarrow> e8_answered e0 e'"
  by (auto simp: e8_answered_def e8_silent_def e8_links_def e8_sent_by_def intro: e8_keeps_trans)

lemmas e8_silent_defs = e8_silent_def e8_links_def e8_keeps_def e8_inv_def

lemma e8_note_silent [simp]: "e8_silent e0 (e8_note c e) = e8_silent e0 e"
  by (simp add: e8_silent_defs e8_note_def)

lemma close_active_silent: "e8_silent e (e8_close_active_socket e)"
  by (auto simp: e8_close_active_socket_def e8_silent_defs e8_note_def Let_def)

lemma stop_server_silent: "e8_silent e (e8_stop_server_socket e)"
  by (auto simp: e8_stop_server_socket_def e8_silent_defs e8_note_def Let_def)

lemma stop_mdns_silent: "e8_silent e (e8_stop_mdns e)"
  by (auto simp: e8_stop_mdns_def e8_silent_defs e8_note_def)

lemma halt_wifi_silent: "e8_silent e (e8_halt_wifi e)"
  by (auto simp: e8_halt_wifi_def e8_silent_defs e8_note_def)

lemma sockets_silent: "e8_silent e (e8_stop_mdns (e8_stop_server_socket (e8_close_active_socket e)))"
  using e8_silent_trans close_active_silent stop_server_silent stop_mdns_silent by blast

lemma e8_silent_upd:
  "e8_silent e0 (e\<lparr>e8_station_online := b, e8_station_ipv4 := zeros 4\<rparr>)"
  "e8_silent e0 (e\<lparr>e8_station_ipv4 := zeros 4\<rparr>)" "e8_silent e0 (e\<lparr>e8_station_ipv4 := [x0, x1, x2, x3]\<rparr>)"
  "e8_silent e0 (e\<lparr>e8_wifi_started := b, e8_runtime_mode := m\<rparr>)" "e8_silent e0 (e\<lparr>e8_server_task := b\<rparr>)"
  "e8_silent e0 (e\<lparr>e8_mdns_started := b\<rparr>)" "e8_silent e0 (e\<lparr>e8_reconnect_pending := b\<rparr>)"
  "e8_silent e0 (e\<lparr>e8_last_disconnect_reason := r, e8_station_online := b\<rparr>)"
  "e8_silent e0 (e\<lparr>e8_station_online := b, e8_reconnect_pending := b', e8_reconnect_attempt := 0, e8_last_disconnect_reason := r\<rparr>)"
  if "e8_silent e0 e"
  using that by (auto simp: e8_silent_defs)

lemma drop_network_silent: "e8_silent e (e8_drop_network e)"
  unfolding e8_drop_network_def by (intro e8_silent_upd sockets_silent)

lemma halt_drop_silent: "e8_silent e (e8_halt_wifi (e8_drop_network e))"
  using e8_silent_trans drop_network_silent halt_wifi_silent by blast

lemma start_station_silent: "post (\<lambda>(e', t'). e8_silent e e') (e8_start_station e t)"
  unfolding e8_start_station_def Let_def
  by (auto intro!: post_if post_any_bind [where m = "ESP_ERROR_CHECK t" for t] e8_silent_upd halt_drop_silent)

lemma start_softap_silent: "post (\<lambda>(e', t'). e8_silent e e') (e8_start_softap pass e t)"
  unfolding e8_start_softap_def Let_def
  by (auto intro!: post_if e8_skips post_any_bind [where m = "ESP_ERROR_CHECK t" for t] e8_silent_upd halt_drop_silent)

text \<open>The stored configuration.\<close>

lemma nvs_put_pending: "e8_pending e0 e \<Longrightarrow> e8_leaves e0 (e8_nvs_put k v err e t)"
  unfolding e8_nvs_put_def by (auto intro!: post_rules)

lemma nvs_put_bind:
  "e8_pending e0 e \<Longrightarrow> (\<And>err' e' t'. e8_pending e0 e' \<Longrightarrow> post Q (f (err', e', t'))) \<Longrightarrow> post Q (e8_nvs_put k v err e t \<bind> f)"
  by (rule post_bind, rule post_mono [OF nvs_put_pending]) auto

lemma save_config_leaves: "e8_pending e0 e \<Longrightarrow> e8_leaves e0 (e8_save_wifi_config c e t)"
  unfolding e8_save_wifi_config_def
  by (auto intro!: post_if e8_skips nvs_put_bind)

lemma clear_config_leaves: "e8_pending e0 e \<Longrightarrow> e8_leaves e0 (e8_clear_wifi_config e t)"
proof -
  have r: "e8_pending e0 e' \<Longrightarrow> e8_pending e0 (e'\<lparr>e8_station_online := False, e8_reconnect_pending := False, e8_reconnect_attempt := 0,
       e8_last_disconnect_reason := 0, e8_station_ipv4 := zeros 4\<rparr>)" for e'
    by (auto simp: e8_state_defs)
  assume "e8_pending e0 e"
  then show ?thesis
    unfolding e8_clear_wifi_config_def Let_def
    by (auto intro!: post_bind [where m = "if c then a else b" for c a b] post_if e8_skips r)
qed

text \<open>The host name made from the hardware address fits its buffer.\<close>

lemma e8_default_hostname_short: "post (\<lambda>(h, t'). length h \<le> 32) (e8_default_hostname 33 t)"
  unfolding e8_default_hostname_def
  by (rule post_any_bind [where m = "rd_mac45 t"]) (auto simp: e8_copy_str_def Let_def hex2_def split: option.splits)

lemma e8_copy_str_length: "0 < n \<Longrightarrow> length (e8_copy_str s n) \<le> n - 1"
  by (auto simp: e8_copy_str_def Let_def)

lemma stage_field_length: "e8_stage_field data buf = Some buf' \<Longrightarrow> length buf' = length buf"
proof -
  assume s: "e8_stage_field data buf = Some buf'"
  let ?n = "unat (data ! 3)" and ?l = "unat (data ! 4)"
  have "?n + ?l < length buf" "buf' = (blit buf ?n (take ?l (drop 5 data)))[?n + ?l := 0]"
    using s by (auto simp: e8_stage_field_def Let_def split: if_splits)
  then show ?thesis by simp
qed

section \<open>The opcodes\<close>

lemma e8_identity_answers:
  "e8_link.replies e (e8_hardware_uid_get e t)" "e8_link.replies e (e8_name_get e t)" "e8_link.replies e (e8_name_set data e t)"
  unfolding e8_hardware_uid_get_def e8_name_get_def e8_name_set_def Let_def
  by (auto intro!: post_if e8_skips e8_send_posts)

lemma e8_claim_answers:
  "e8_link.replies e (e8_claim_call call req src e t)"
  unfolding e8_claim_call_def
  by (auto intro!: post_if post_any_bind [where m = "call src (e8_claim e) t"] e8_send_posts)

lemma e8_transport_answers: "e8_link.replies e (e8_handle_transport_session data src e t)"
  unfolding e8_handle_transport_session_def Let_def
  by (auto intro!: post_if e8_skips e8_send_posts e8_claim_answers)

lemma e8_gpio_answers: "e8_link.replies e (e8_handle_gpio data e t)"
  unfolding e8_handle_gpio_def Let_def
  by (intro post_option post_if; auto intro!: post_if e8_skips e8_send_posts e8_io_bind [of e] e8_io_if_bind [of e] split del: if_split)

lemma e8_adc_answers: "e8_link.replies e (e8_handle_adc data e t)"
  unfolding e8_handle_adc_def Let_def
  by (auto intro!: post_if e8_send_posts e8_link.pending_bind [OF adc_leaves] post_option)

lemma e8_uart_answers: "e8_link.replies e (e8_handle_uart data e t)"
  unfolding e8_handle_uart_def e8_uart_write_def Let_def
  by (intro post_if; auto intro!: post_if e8_send_posts e8_link.pending_bind [OF uart_ensure_leaves] e8_io_bind
      uart_close_bind [where c = True, simplified])

lemma e8_i2c_answers: "e8_link.replies e (e8_handle_i2c data e t)"
proof -
  have [simp]: "e8_pending e0 (e8_i2c_close e1) = e8_pending e0 e1" for e0 e1 by (simp add: e8_i2c_close_def)
  have opt: "e8_link.replies e ((if n = 0 then Some (Some [], e', t') else m) \<bind> (\<lambda>(rx, e, t). e8_answer_rx rx e t))"
    if "e8_pending e e'" "e8_leaves e m" for n :: u8 and e' t' m
    using that by (auto intro!: e8_send_posts e8_link.pending_bind)
  show ?thesis
    unfolding e8_handle_i2c_def Let_def
    by (intro post_if e8_link.pending_bind [OF i2c_ensure_leaves] e8_send_posts opt i2c_ops_leave;
        (auto intro!: e8_send_posts e8_link.pending_bind i2c_ops_leave)?)
qed

lemma e8_spi_answers: "e8_link.replies e (e8_handle_spi data e t)"
  unfolding e8_handle_spi_def Let_def
  by (intro post_option post_if; auto intro!: post_if e8_send_posts e8_link.pending_bind [OF spi_leaves])

lemma e8_pwm_answers: "e8_link.replies e (e8_handle_pwm data e t)"
  unfolding e8_handle_pwm_def Let_def
  by (intro post_option post_if; auto intro!: post_if e8_send_posts e8_link.pending_bind [OF pwm_leaves])

lemma e8_field_answers: "e8_link.replies e (e8_wifi_field data e t)"
proof -
  have "e8_pending e (e\<lparr>e8_staged_ssid := buf\<rparr>)" if "e8_stage_field data (e8_staged_ssid e) = Some buf" for buf
    using stage_field_length [OF that] by (simp add: e8_state_defs)
  moreover have "e8_pending e (e\<lparr>e8_staged_password := buf\<rparr>)" if "e8_stage_field data (e8_staged_password e) = Some buf" for buf
    using stage_field_length [OF that] by (simp add: e8_state_defs)
  ultimately show ?thesis
    unfolding e8_wifi_field_def by (auto intro!: post_if post_option e8_send_posts)
qed

lemma c_string_facts: "length (c_string bs) \<le> length bs" "bs \<noteq> [] \<Longrightarrow> bs ! 0 \<noteq> 0 \<Longrightarrow> c_string bs \<noteq> []"
  using length_takeWhile_le [of "\<lambda>b. b \<noteq> 0" bs] by (cases bs; auto simp: c_string_def)+

lemma e8_apply_answers: "e8_link.replies e (e8_wifi_apply e t)"
proof -
  let ?c = "\<lambda>h. \<lparr>ssid = e8_copy_str (c_string (e8_staged_ssid e)) 33, password = e8_copy_str (c_string (e8_staged_password e)) 65, hostname = h\<rparr>"
  have keep: "e8_pending e ((e8_reset_staging (e'\<lparr>e8_config := ?c h, e8_has_config := True\<rparr>))\<lparr>e8_staged_active := False\<rparr>)"
    if "e8_staged_ssid e ! 0 \<noteq> 0" "length h \<le> 32" "e8_pending e e'" for e' h
  proof -
    have "ssid (?c h) \<noteq> []" if "length (e8_staged_ssid e) = 33"
    proof -
      have "e8_staged_ssid e \<noteq> []" using that by force
      then show ?thesis using c_string_facts(2) \<open>e8_staged_ssid e ! 0 \<noteq> 0\<close> by (simp add: e8_copy_str_def Let_def)
    qed
    moreover have "length (ssid (?c h)) \<le> 32" "length (password (?c h)) \<le> 64"
      using e8_copy_str_length [of 33 "c_string (e8_staged_ssid e)"] e8_copy_str_length [of 65 "c_string (e8_staged_password e)"] by simp_all
    ultimately show ?thesis
      using that(2,3) by (auto simp: e8_state_defs e8_reset_staging_def)
  qed
  show ?thesis
    unfolding e8_wifi_apply_def Let_def e8_send_ok_def
    by (rule post_if)
      (auto intro!: e8_send_posts post_bind post_mono [OF e8_default_hostname_short] post_mono [OF save_config_leaves [OF e8_pending_refl]]
        post_if post_mono [OF e8_link.send_ok] keep post_mono [OF start_station_silent] elim: e8_silent_answered)
qed

lemma e8_clear_answers: "e8_link.replies e (e8_wifi_clear e t)"
proof -
  have keep: "e8_pending e (e'\<lparr>e8_config := blank_config, e8_has_config := False, e8_staged_active := False\<rparr>)" if "e8_pending e e'" for e'
    using that by (auto simp: e8_state_defs blank_config_def)
  show ?thesis
    unfolding e8_wifi_clear_def Let_def
    by (auto intro!: e8_send_posts post_bind post_mono [OF clear_config_leaves [OF e8_pending_refl]]
        post_if post_mono [OF e8_ok_post] keep post_mono [OF start_softap_silent] elim: e8_silent_answered)
qed

lemma e8_wifi_answers: "e8_link.replies e (e8_handle_wifi_config data e t)"
proof -
  have "e8_pending e (e8_reset_staging e)" by (simp add: e8_state_defs e8_reset_staging_def)
  then show ?thesis
    unfolding e8_handle_wifi_config_def Let_def
    by (auto intro!: post_if e8_send_posts e8_field_answers e8_apply_answers e8_clear_answers)
qed

lemma e8_restart_answers:
  "e8_link.replies e (do { (e, t) \<leftarrow> e8_send_ok [] e t; Some (if c then e\<lparr>e8_restarting := True\<rparr> else e, t) })"
proof -
  have "e8_answered e e' \<Longrightarrow> e8_answered e (e'\<lparr>e8_restarting := True\<rparr>)" for e'
    by (erule e8_silent_answered) (simp add: e8_silent_defs)
  then show ?thesis by (auto intro!: e8_link.answered_bind e8_ok_post)
qed

lemmas e8_handler_answers = e8_identity_answers e8_transport_answers e8_gpio_answers e8_adc_answers e8_uart_answers e8_i2c_answers
  e8_spi_answers e8_pwm_answers e8_wifi_answers e8_restart_answers

lemma e8_packet_answers: "e8_link.replies e (e8_handle_packet cmd e t)"
  unfolding e8_handle_packet_def Let_def e8_handle_sample_def e8_handle_transmit_def
  by (intro post_if e8_handler_answers e8_send_posts e8_pending_refl)

text \<open>A command after which nothing but its answer has changed.\<close>

definition e8_only_answered :: "e8 \<Rightarrow> e8 \<Rightarrow> bool" where
  "e8_only_answered e e' \<longleftrightarrow> e' = e\<lparr>e8_answers := e8_answers e', e8_ws_sent := e8_ws_sent e', e8_serial_sent := e8_serial_sent e'\<rparr>"

lemma e8_send_only: "post (\<lambda>(e', t'). e8_only_answered e e') (e8_send status payload e t)"
proof -
  have a: "post (\<lambda>(ok, e', t'). e8_only_answered e e') (e8_send_serial_superframe frame (e\<lparr>e8_answers := a\<rparr>) t)" for frame a
    by (rule post_mono [OF serial_send_post]) (auto simp: e8_only_answered_def)
  have b: "post (\<lambda>(ok, e', t'). e8_only_answered e e') (e8_send_superframe frame (e\<lparr>e8_answers := a\<rparr>) t)" for frame a
    unfolding e8_send_superframe_def
    by (auto intro!: post_if post_mono [OF websocket_send_post] simp: e8_only_answered_def)
  show ?thesis
    by (auto simp: e8_send_def Let_def intro!: post_bind post_mono [OF a] post_mono [OF b])
qed

section \<open>Rounds of the command task\<close>

text \<open>A round takes the first command and answers it.\<close>

definition e8_round_answered :: "command_t \<Rightarrow> e8 \<Rightarrow> e8 \<Rightarrow> bool" where
  "e8_round_answered cmd e e' \<longleftrightarrow>
     (\<exists>lane. length lane = 18 \<and> lane ! 0 \<in> {0x80, 0x81, 0x82} \<and> e8_answers e' = e8_answers e @ [(cmd_source cmd, lane)] \<and>
        e8_sent_by (cmd_source cmd) lane e e') \<and> e8_active_command_source e' = 0 \<and> e8_keeps e e'"

lemma e8_round:
  assumes "e8_cmd_queue e = Some (cmd # q)" "cmd_length cmd \<noteq> 0"
  shows "post (\<lambda>(e', t'). e8_cmd_queue e' = Some q \<and> e8_round_answered cmd e e') (e8_command_round e t)"
proof -
  let ?e = "e\<lparr>e8_cmd_queue := Some q, e8_active_command_source := cmd_source cmd\<rparr>"
  have k: "e8_keeps e (e'\<lparr>e8_active_command_source := 0\<rparr>) = e8_keeps ?e e'" for e' by (simp add: e8_keeps_def)
  have sb: "e8_sent_by src lane e (e'\<lparr>e8_active_command_source := 0\<rparr>) = e8_sent_by src lane ?e e'" for src lane e'
    by (simp add: e8_sent_by_def)
  have c: "e8_pending ?e (e8_set_claim s ?e)" for s by simp
  have link: "e8_answered (e8_set_claim s ?e) e' \<longleftrightarrow> e8_answered ?e e'" for s e'
    by (simp add: e8_answered_def e8_keeps_def e8_sent_by_def e8_set_claim_def e8_inv_def)
  have fin: "e8_cmd_queue (e'\<lparr>e8_active_command_source := 0\<rparr>) = Some q \<and> e8_round_answered cmd e (e'\<lparr>e8_active_command_source := 0\<rparr>)"
    if "e8_answered ?e e'" for e'
    using that by (auto simp: e8_round_answered_def k sb e8_answered_def)
  have run: "post (\<lambda>(e', t'). e8_answered ?e e') (if \<not> allowed then e8_send_busy (e8_set_claim s ?e) t else e8_handle_packet cmd (e8_set_claim s ?e) t)"
    for allowed s t
    using e8_packet_answers [of "e8_set_claim s ?e" cmd t] e8_busy_post [OF c] by (simp add: link)
  have "post (\<lambda>(e', t'). e8_cmd_queue e' = Some q \<and> e8_round_answered cmd e e')
    (e8_session_allows_command cmd (e8_claim ?e) t \<bind> (\<lambda>(allowed, s, t).
       (if \<not> allowed then e8_send_busy (e8_set_claim s ?e) t else e8_handle_packet cmd (e8_set_claim s ?e) t) \<bind>
       (\<lambda>(e, t). Some (e\<lparr>e8_active_command_source := 0\<rparr>, t))))"
    by (rule post_any_bind, rule post_prod, rule post_prod, rule post_bind, rule post_mono [OF run]) (auto simp: fin)
  then show ?thesis using assms by (simp add: e8_command_round_def Let_def)
qed

end
