(* ===== verification/Esp8266_Run.thy ===== *)
theory Esp8266_Run
  imports Esp8266_Answer
begin

text \<open>
  Properties of the ESP8266 firmware: what arrives over the serial line and the WebSocket, the software
  SPI, the invariant of all its tasks, and its answers.
\<close>

section \<open>A message in the queue\<close>

lemma e8_enqueue_message:
  assumes "length f = 36" "e8_cmd_queue e = Some q"
  shows "e8_enqueue_sysex (message f) src e =
    (if \<not> list_ex (\<lambda>v. v \<noteq> 0) (take 18 f) then (True, e)
     else if length q < 10 then (True, e\<lparr>e8_cmd_queue := Some (q @ [e8_command (take 18 f) src])\<rparr>)
     else (False, e))"
proof -
  have d: "e8_decode_payload (take 42 (drop 5 (message f))) = Some f"
    using assms(1)
    by (simp add: e8_decode_payload_def wifi_decode_payload_7bit_fixed_def [symmetric] wifi_codec_eq message_def sysex_message_payload
        decode_payload_spec encode_payload_spec dec7_enc7 length_enc7)
  have h: "message f ! 0 = 0xF0" "message f ! 1 = 0x7D" "message f ! 2 = 0x45" "message f ! 3 = 0x4D" "message f ! 4 = 0x57"
    "message f ! 47 = 0xF7"
    using assms(1) by (simp_all add: message_def sysex_message_def nth_append)
  show ?thesis
    unfolding e8_enqueue_sysex_def d using assms(2) h by simp
qed

section \<open>The serial line\<close>

lemma serial_bytes_append: "e8_serial_bytes (as @ bs) st = e8_serial_bytes bs (e8_serial_bytes as st)"
  by (simp add: e8_serial_bytes_def)

lemma serial_skip: "\<forall>b \<in> set bs. b \<noteq> 0xF0 \<Longrightarrow> e8_serial_bytes bs ((frame, 0), e) = ((frame, 0), e)"
  by (induction bs) (simp_all add: e8_serial_bytes_def e8_serial_byte_def)

lemma serial_fill:
  assumes "\<forall>b \<in> set bs. b \<noteq> 0xF0" "0 < pos" "pos + length bs \<le> 47" "length frame = 48"
  shows "e8_serial_bytes bs ((frame, pos), e) = ((blit frame pos bs, pos + length bs), e)"
  using assms
proof (induction bs arbitrary: frame pos)
  case (Cons b bs)
  have "e8_serial_byte b ((frame, pos), e) = ((frame[pos := b], pos + 1), e)"
    using Cons.prems by (simp add: e8_serial_byte_def Let_def)
  then have "e8_serial_bytes (b # bs) ((frame, pos), e) = ((blit (frame[pos := b]) (pos + 1) bs, pos + 1 + length bs), e)"
    using Cons.IH [of "pos + 1" "frame[pos := b]"] Cons.prems by (simp add: e8_serial_bytes_def)
  moreover have "blit (frame[pos := b]) (pos + 1) bs = blit frame pos (b # bs)"
    using Cons.prems by (simp add: blit_def take_Suc_conv_app_nth)
  ultimately show ?case by simp
qed (simp add: e8_serial_bytes_def)

lemma message_parts:
  assumes "length f = 36"
  obtains mid where "message f = 0xF0 # mid @ [0xF7]" "length mid = 46" "\<forall>b \<in> set mid. b \<noteq> 0xF0"
proof
  let ?mid = "[0x7D, 0x45, 0x4D, 0x57] @ encode_payload_7bit_fixed f"
  show m: "message f = 0xF0 # ?mid @ [0xF7]" by (simp add: message_def sysex_message_def)
  show l: "length ?mid = 46" using assms by simp
  have "?mid ! i \<noteq> 0xF0" if "i < 46" for i
  proof -
    have "message f ! Suc i = ?mid ! i" using that l unfolding m by (simp only: nth_Cons_Suc nth_append if_True)
    then show ?thesis using message_bytes(3) [OF assms, folded message_def, of "Suc i"] that by simp
  qed
  then show "\<forall>b \<in> set ?mid. b \<noteq> 0xF0" using l by (metis in_set_conv_nth)
qed

text \<open>C30: Whatever the serial line delivered before, a command message that follows is assembled and
  queued, even in the middle of a broken one: with one exception. When exactly 47 bytes of a frame have
  been collected, the start byte of the message is taken as the last one of the broken frame, and the
  whole message is lost.\<close>

theorem e8_serial_resyncs:
  assumes "length frame = 48" "pos < 48" "length f = 36" "list_ex (\<lambda>v. v \<noteq> 0) (take 18 f)"
    and "e8_cmd_queue e = Some q" "length q < 10"
  shows "e8_serial_bytes (message f) ((frame, pos), e) =
    ((zeros 48, 0), if pos = 47 then e else e\<lparr>e8_cmd_queue := Some (q @ [e8_command (take 18 f) 1])\<rparr>)"
proof -
  obtain mid where m: "message f = 0xF0 # mid @ [0xF7]" "length mid = 46" "\<forall>b \<in> set mid. b \<noteq> 0xF0"
    using message_parts [OF assms(3)] by blast
  have tail: "e8_serial_bytes (message f) st = e8_serial_bytes [0xF7] (e8_serial_bytes mid (e8_serial_byte 0xF0 st))" for st
    by (simp add: m(1) e8_serial_bytes_def)
  show ?thesis
  proof (cases "pos = 47")
    case True
    have "e8_serial_byte 0xF0 ((frame, 47), e) = ((zeros 48, 0), e)"
      using assms(1,5) by (simp add: e8_serial_byte_def Let_def e8_enqueue_sysex_def)
    then show ?thesis
      using True serial_skip [OF m(3), of "zeros 48" e] by (simp add: tail) (simp add: e8_serial_bytes_def e8_serial_byte_def)
  next
    case False
    obtain g where g: "e8_serial_byte 0xF0 ((frame, pos), e) = ((g, 1), e)" "length g = 48" "g ! 0 = 0xF0"
      using that [of "(frame[pos := 0xF0])[0 := 0xF0]"] False assms(1,2) by (cases "pos = 0") (simp_all add: e8_serial_byte_def Let_def)
    obtain z where "drop 47 g = [z]" using g(2) by (cases "drop 47 g"; cases "tl (drop 47 g)") (auto dest: arg_cong [of _ _ length])
    then have "(blit g 1 mid)[47 := 0xF7] = message f"
      using g(2,3) m(1,2) by (cases g) (simp_all add: blit_def list_update_append)
    then show ?thesis
      using False g m(2) serial_fill [OF m(3), of 1 g e] e8_enqueue_message [OF assms(3,5), of 1] assms(4,6)
      by (simp add: tail) (simp add: e8_serial_bytes_def e8_serial_byte_def Let_def)
  qed
qed

text \<open>A message after 20 bytes of a broken one.\<close>

theorem e8_serial_resyncs_witness:
  "e8_serial_bytes (message (1 # zeros 35)) ((0xF0 # zeros 47, 20), e8_reset\<lparr>e8_cmd_queue := Some []\<rparr>) =
     ((zeros 48, 0), e8_reset\<lparr>e8_cmd_queue := Some [e8_command (1 # zeros 17) 1]\<rparr>)"
  using e8_serial_resyncs [of "0xF0 # zeros 47" 20 "1 # zeros 35" "e8_reset\<lparr>e8_cmd_queue := Some []\<rparr>" "[]"]
  by (simp add: zeros_def)

section \<open>Frames of the WebSocket\<close>

lemma read_exact_spec:
  assumes "concat cs = bs @ rest" "[] \<notin> set cs" "length got + length bs = len"
  shows "\<exists>cs'. e8_websocket_read_exact len got cs = Some (got @ bs, cs') \<and> concat cs' = rest \<and> [] \<notin> set cs'"
  using assms
proof (induction len got cs arbitrary: bs rule: e8_websocket_read_exact.induct)
  case (1 len got cs)
  show ?case
  proof (cases "bs = []")
    case True
    then show ?thesis using 1(2-4) by (intro exI [of _ cs]) (simp add: e8_websocket_read_exact.simps)
  next
    case False
    then obtain c cs1 where cs: "cs = c # cs1" using 1(2) by (cases cs) auto
    have c: "c \<noteq> []" and lt: "length got < len" using 1(3,4) cs False by auto
    let ?n = "len - length got"
    let ?cs2 = "if length c \<le> ?n then cs1 else drop ?n c # cs1"
    have n: "?n = length bs" using 1(4) by simp
    have r: "sock_recv ?n cs = Some (take ?n c, ?cs2)" using c cs by (simp add: sock_recv_def)
    obtain u where u: "bs = take ?n c @ u"
      using 1(2) cs n by (cases "length c \<le> length bs") (auto simp: append_eq_append_conv_if, metis append_take_drop_id)
    have "\<exists>cs'. e8_websocket_read_exact len (got @ take ?n c) ?cs2 = Some ((got @ take ?n c) @ u, cs') \<and> concat cs' = rest \<and> [] \<notin> set cs'"
    proof (rule 1(1) [OF lt r refl])
      have "concat ?cs2 = drop ?n c @ concat cs1" by simp
      moreover have "take ?n c @ drop ?n c @ concat cs1 = take ?n c @ u @ rest" using 1(2) cs u by (metis append.assoc append_take_drop_id concat.simps(2))
      ultimately show "concat ?cs2 = u @ rest" by simp
      show "[] \<notin> set ?cs2" using 1(3) cs by auto
      show "length (got @ take ?n c) + length u = len" using arg_cong [OF u, of length] 1(4) by simp
    qed
    then show ?thesis using lt r u by (subst e8_websocket_read_exact.simps) simp
  qed
qed

text \<open>A frame as a client sends it: final, binary, masked, with a length of one byte.\<close>

definition masked_with :: "u8 list \<Rightarrow> u8 list \<Rightarrow> u8 list" where
  "masked_with key p = map (\<lambda>i. p ! i XOR key ! (i mod 4)) [0..<length p]"

definition client_frame :: "u8 list \<Rightarrow> u8 list \<Rightarrow> u8 list" where
  "client_frame key p = [0x82, 0x80 OR of_nat (length p)] @ key @ masked_with key p"

lemma length_masked [simp]: "length (masked_with key p) = length p"
  by (simp add: masked_with_def)

lemma masked_twice: "map (\<lambda>i. masked_with key p ! i XOR key ! (i mod 4)) [0..<length p] = p"
  by (rule nth_equalityI) (simp_all add: masked_with_def xor.assoc)

lemma length_byte:
  assumes "n \<le> 125"
  shows "(0x80 OR of_nat n :: u8) AND 0x80 \<noteq> 0" "unat (ucast ((0x80 OR of_nat n :: u8) AND 0x7F) :: 64 word) = n"
proof -
  have b: "bit (of_nat n :: u8) i \<longleftrightarrow> bit n i" if "i < 8" for i using that by (simp add: bit_simps)
  have "bit ((0x80 OR of_nat n :: u8) AND 0x80) 7" by (simp add: bit_simps)
  then show "(0x80 OR of_nat n :: u8) AND 0x80 \<noteq> 0" by (metis bit_0_eq bot_apply bot_bool_def)
  have "(0x80 OR of_nat n :: u8) AND 0x7F = take_bit 7 (of_nat n)"
    unfolding and_0x7F by (rule bit_word_eqI) (auto simp: bit_simps)
  moreover have "unat (take_bit 7 (of_nat n :: u8)) = n"
    using assms by (simp add: unat_mod unat_of_nat take_bit_eq_mod)
  ultimately show "unat (ucast ((0x80 OR of_nat n :: u8) AND 0x7F) :: 64 word) = n"
    using assms by (simp add: unsigned_ucast_eq take_bit_nat_eq_self)
qed

text \<open>Such a frame is received unmasked in whatever pieces, and what follows stays for the next.\<close>

lemma e8_websocket_frame:
  assumes "length key = 4" "length p \<le> 125" "concat cs = client_frame key p @ rest" "[] \<notin> set cs"
  shows "\<exists>cs'. e8_websocket_read_frame 128 cs = Some ((2, p), cs') \<and> concat cs' = rest \<and> [] \<notin> set cs'"
proof -
  let ?h = "[0x82, 0x80 OR of_nat (length p)] :: u8 list"
  obtain c1 where c1: "e8_websocket_read_exact 2 [] cs = Some (?h, c1)" "concat c1 = key @ masked_with key p @ rest" "[] \<notin> set c1"
    using read_exact_spec [of cs ?h "key @ masked_with key p @ rest" "[]" 2] assms(3,4) by (auto simp: client_frame_def)
  obtain c2 where c2: "e8_websocket_read_exact 4 [] c1 = Some (key, c2)" "concat c2 = masked_with key p @ rest" "[] \<notin> set c2"
    using read_exact_spec [of c1 key _ "[]" 4] c1 assms(1) by auto
  obtain c3 where c3: "e8_websocket_read_exact (length p) [] c2 = Some (masked_with key p, c3)" "concat c3 = rest" "[] \<notin> set c3"
    using read_exact_spec [of c2 "masked_with key p" rest "[]" "length p"] c2 by auto
  let ?len = "ucast ((0x80 OR of_nat (length p) :: u8) AND 0x7F) :: 64 word"
  note b = length_byte [OF assms(2)]
  have n: "?len \<noteq> 126" "?len \<noteq> 127" using b(2) assms(2) by auto
  have "e8_websocket_read_frame 128 cs = Some ((2, p), c3)"
    using b n assms(2) c2(1) c3(1)
    by (simp add: e8_websocket_read_frame_def c1(1) Let_def masked_twice)
  then show ?thesis using c3 by blast
qed

section \<open>A session\<close>

text \<open>The session loop for a number of frames.\<close>

fun e8_session_run :: "nat \<Rightarrow> server_pc \<times> e8 \<Rightarrow> server_pc \<times> e8" where
  "e8_session_run (Suc n) (ServerSession listen_sock sock cs, e) = e8_session_run n (e8_server_frame listen_sock sock cs e)"
| "e8_session_run _ st = st"

definition client_stream :: "(u8 list \<times> u8 list) list \<Rightarrow> u8 list" where
  "client_stream fs = concat (map (\<lambda>(key, f). client_frame key (message f)) fs)"

lemma server_frame_message:
  assumes "length key = 4" "length f = 36" "list_ex (\<lambda>v. v \<noteq> 0) (take 18 f)" "concat cs = client_frame key (message f) @ rest" "[] \<notin> set cs"
    and "e8_cmd_queue e = Some q"
  shows "\<exists>cs'. e8_server_frame l s cs e =
      (if length q < 10 then (ServerSession l s cs', e\<lparr>e8_cmd_queue := Some (q @ [e8_command (take 18 f) 3])\<rparr>)
       else (ServerLoop l, e8_close_active_socket e)) \<and> concat cs' = rest \<and> [] \<notin> set cs'"
proof -
  obtain cs' where r: "e8_websocket_read_frame 128 cs = Some ((2, message f), cs')" "concat cs' = rest" "[] \<notin> set cs'"
    using e8_websocket_frame [OF assms(1) _ assms(4,5)] assms(2) by auto
  then show ?thesis
    using assms(2,3) e8_enqueue_message [OF assms(2,6), of 3]
    by (intro exI [of _ cs']) (simp add: e8_server_frame_def)
qed

text \<open>C22: A client of the WebSocket that sends command messages, each in a masked frame, has all of them
  queued in order, in whatever pieces the network delivers the bytes, as long as the queue has room; and
  its session stays open.\<close>

theorem e8_session_delivers:
  assumes "\<forall>(key, f) \<in> set fs. length key = 4 \<and> length f = 36 \<and> list_ex (\<lambda>v. v \<noteq> 0) (take 18 f)"
    and "concat cs = client_stream fs @ rest" "[] \<notin> set cs" "e8_cmd_queue e = Some q" "length q + length fs \<le> 10"
  shows "\<exists>cs'. e8_session_run (length fs) (ServerSession l s cs, e) =
    (ServerSession l s cs', e\<lparr>e8_cmd_queue := Some (q @ map (\<lambda>(key, f). e8_command (take 18 f) 3) fs)\<rparr>) \<and> concat cs' = rest"
  using assms
proof (induction fs arbitrary: cs e q)
  case (Cons kf fs)
  obtain key f where kf: "kf = (key, f)" by (cases kf)
  have "concat cs = client_frame key (message f) @ (client_stream fs @ rest)" using Cons.prems(2) kf by (simp add: client_stream_def)
  then obtain cs1 where s1: "e8_server_frame l s cs e = (ServerSession l s cs1, e\<lparr>e8_cmd_queue := Some (q @ [e8_command (take 18 f) 3])\<rparr>)"
    "concat cs1 = client_stream fs @ rest" "[] \<notin> set cs1"
    using server_frame_message [of key f cs "client_stream fs @ rest" e q l s] Cons.prems kf by auto
  show ?case
    using Cons.IH [OF _ s1(2,3), of "e\<lparr>e8_cmd_queue := Some (q @ [e8_command (take 18 f) 3])\<rparr>" "q @ [e8_command (take 18 f) 3]"] Cons.prems kf
    by (auto simp: s1(1))
qed (simp add: client_stream_def)

text \<open>Two commands, every byte on its own.\<close>

definition two_frames :: "(u8 list \<times> u8 list) list" where
  "two_frames = [([1, 2, 3, 4], 1 # zeros 35), ([9, 8, 7, 6], 8 # zeros 35)]"

theorem e8_session_delivers_witness:
  "\<exists>cs'. e8_session_run 2 (ServerSession 3 5 (map (\<lambda>b. [b]) (client_stream two_frames)), e8_reset\<lparr>e8_cmd_queue := Some []\<rparr>) =
    (ServerSession 3 5 cs', e8_reset\<lparr>e8_cmd_queue := Some [e8_command (1 # zeros 17) 3, e8_command (8 # zeros 17) 3]\<rparr>) \<and> concat cs' = []"
proof -
  let ?e = "e8_reset\<lparr>e8_cmd_queue := Some []\<rparr>"
  have c: "concat (map (\<lambda>b. [b]) bs) = bs @ []" for bs :: "u8 list" by (induction bs) simp_all
  have l: "length two_frames = 2" by (simp add: two_frames_def)
  have q: "map (\<lambda>(key, f). e8_command (take 18 f) 3) two_frames = [e8_command (1 # zeros 17) 3, e8_command (8 # zeros 17) 3]"
    by (simp add: two_frames_def zeros_def)
  have f: "\<forall>(key, f) \<in> set two_frames. length key = 4 \<and> length f = 36 \<and> list_ex (\<lambda>v. v \<noteq> 0) (take 18 f)"
    by (simp add: two_frames_def)
  have "\<exists>cs'. e8_session_run (length two_frames) (ServerSession 3 5 (map (\<lambda>b. [b]) (client_stream two_frames)), ?e) =
    (ServerSession 3 5 cs', ?e\<lparr>e8_cmd_queue := Some ([] @ map (\<lambda>(key, f). e8_command (take 18 f) 3) two_frames)\<rparr>) \<and> concat cs' = []"
    by (rule e8_session_delivers [OF f c]) (auto simp: l)
  then show ?thesis by (simp only: l q append_Nil) simp
qed

section \<open>The software SPI\<close>

lemma low_bit: "(drop_bit i (x :: u8) AND 1 \<noteq> 0) = bit x i"
  by (simp add: bit_iff_odd_drop_bit and_one_eq mod_2_eq_odd)

text \<open>The levels of a line for a byte, most significant bit first, and the calls that clock one out.\<close>

definition levels :: "u8 \<Rightarrow> u32 list" where
  "levels b = map (\<lambda>i. if bit b i then 1 else 0) (rev [0..<8])"

definition clocked :: "u8 \<Rightarrow> e8_call list" where
  "clocked b = concat (map (\<lambda>i. [PinLevel 13 (bit b i), PinLevel 14 True, PinLevel 14 False]) (rev [0..<8]))"

lemma shift_bits_spec:
  "e8_shift_bits n out inp e (map (\<lambda>i. if bit b i then 1 else 0) (rev [0..<n]) @ t) =
     Some (push_bit n inp OR take_bit n b, e\<lparr>e8_calls := e8_calls e @
       concat (map (\<lambda>i. [PinLevel 13 (bit out i), PinLevel 14 True, PinLevel 14 False]) (rev [0..<n]))\<rparr>, t)"
proof (induction n arbitrary: inp e)
  case (Suc n)
  have "push_bit n (push_bit 1 inp OR of_bool (bit b n)) OR take_bit n b = push_bit (Suc n) inp OR take_bit (Suc n) b"
    by (rule bit_word_eqI) (auto simp: bit_simps less_Suc_eq)
  then show ?case
    using Suc.IH by (cases "bit b n") (simp_all add: e8_note_def low_bit Let_def)
qed simp

lemma spi_bytes_spec:
  "length outs = length ins \<Longrightarrow> e8_spi_bytes outs e (concat (map levels ins) @ t) =
     Some (ins, e\<lparr>e8_calls := e8_calls e @ concat (map clocked outs)\<rparr>, t)"
proof (induction outs ins arbitrary: e rule: list_induct2)
  case (Cons out outs inp ins)
  have "e8_spi_shift_byte out e (levels inp @ u) = Some (inp, e\<lparr>e8_calls := e8_calls e @ clocked out\<rparr>, u)" for u
  proof -
    have "push_bit 8 (0 :: u8) OR take_bit 8 inp = inp" by (rule bit_word_eqI) (simp add: bit_simps)
    then show ?thesis using shift_bits_spec [of 8 out 0 e inp u] by (simp add: e8_spi_shift_byte_def levels_def clocked_def)
  qed
  then show ?case by (simp add: Cons.IH)
qed simp

text \<open>C29: A transfer on the software SPI is full duplex, most significant bit first: while the bytes to be
  sent, padded with zeros, are clocked out under a low chip-select line, the answer of the device, bit by
  bit on its line, is received; the caller gets as many bytes of it as it asked for.\<close>

theorem e8_spi_exchange:
  assumes "length ins = max (length tx) rx_len" "0 < length ins" "length ins \<le> 17"
  shows "e8_spi_transfer_once cs tx rx_len e (concat (map levels ins) @ t) =
    Some (Some (take rx_len ins), e\<lparr>e8_spi_initialized := True, e8_calls := e8_calls (e8_spi_setup e) @
      [PinDirection cs True, PinLevel cs True, PinLevel cs False] @ concat (map clocked (tx @ zeros (length ins - length tx))) @
      [PinLevel cs True]\<rparr>, t)"
proof -
  have "length (tx @ zeros (max (length tx) rx_len - length tx)) = length ins" using assms(1) by simp
  note b = spi_bytes_spec [OF this]
  have s: "(e8_spi_setup e)\<lparr>e8_calls := c\<rparr> = e\<lparr>e8_spi_initialized := True, e8_calls := c\<rparr>" for c
    by (simp add: e8_spi_setup_def e8_note_def)
  show ?thesis
    using assms(2,3) b by (simp add: e8_spi_transfer_once_def Let_def assms(1) [symmetric] e8_note_def s)
qed

text \<open>Reading a register of a radio: one byte sent, two exchanged.\<close>

theorem e8_spi_exchange_witness:
  "\<exists>e'. e8_spi_transfer_once 15 [0xB1] 2 e8_reset (levels 0 @ levels 0x14) = Some (Some [0, 0x14], e', [])"
  using e8_spi_exchange [of "[0, 0x14]" "[0xB1]" 2 15 e8_reset "[]"] by simp

section \<open>Reading over I2C\<close>

definition is_read :: "i2c_op \<Rightarrow> bool" where
  "is_read op = (case op of I2cReadByte ack \<Rightarrow> True | _ \<Rightarrow> False)"

text \<open>The transactions of a run of a handler.\<close>

definition i2c_runs :: "e8 \<Rightarrow> e8 \<Rightarrow> (i2c_op list \<Rightarrow> bool) \<Rightarrow> bool" where
  "i2c_runs e e' P \<longleftrightarrow> (\<exists>new. e8_calls e' = e8_calls e @ new \<and> (\<forall>ops ms. I2cRun ops ms \<in> set new \<longrightarrow> P ops))"

lemma i2c_runs_same: "e8_calls e' = e8_calls e \<Longrightarrow> i2c_runs e e' P"
  by (auto simp: i2c_runs_def)

lemma i2c_runs_refl [simp]: "i2c_runs e e P"
  by (simp add: i2c_runs_same)

lemma i2c_runs_upd [simp]: "i2c_runs e (e1\<lparr>e8_i2c_initialized := b, e8_i2c_hz := f\<rparr>) P = i2c_runs e e1 P"
  by (simp add: i2c_runs_def)

lemma i2c_runs_trans: "i2c_runs e e1 P \<Longrightarrow> i2c_runs e1 e2 P \<Longrightarrow> i2c_runs e e2 P"
  unfolding i2c_runs_def by (metis Un_iff append.assoc set_append)

lemma i2c_runs_note: "i2c_runs e e1 P \<Longrightarrow> (\<And>ops ms. c = I2cRun ops ms \<Longrightarrow> P ops) \<Longrightarrow> i2c_runs e (e8_note c e1) P"
  by (rule i2c_runs_trans [of e e1]) (auto simp: i2c_runs_def e8_note_def)

lemma send_calls: "post (\<lambda>(e', t'). e8_calls e' = e8_calls e) (e8_send status payload e t)"
proof -
  have "e8_only_answered e e' \<Longrightarrow> e8_calls e' = e8_calls e" for e'
    unfolding e8_only_answered_def by (drule arg_cong [where f = e8_calls]) simp
  then show ?thesis by (auto intro!: post_mono [OF e8_send_only])
qed

lemma answer_rx_runs: "post (\<lambda>(e', t'). i2c_runs e e' P) (e8_answer_rx rx e t)"
  unfolding e8_answer_rx_def e8_send_err_def e8_send_ok_def
  by (cases rx) (auto intro!: post_mono [OF send_calls] i2c_runs_same)

lemma transaction_runs: "P ops \<Longrightarrow> post (\<lambda>(rx, e', t'). i2c_runs e e' P) (e8_i2c_transaction ops n ms e t)"
  unfolding e8_i2c_transaction_def e8_io_def
  by (auto intro!: post_if e8_skips i2c_runs_note simp: bind_assoc)

lemma i2c_ensure_runs: "post (\<lambda>(ok, e', t'). i2c_runs e e' P) (e8_i2c_ensure hz e t)"
  unfolding e8_i2c_ensure_def e8_io_def
  by (auto intro!: post_if e8_skips i2c_runs_note simp: bind_assoc split: option.splits split del: if_split)

lemma reads_length: "length (filter is_read (i2c_reads n)) = n"
proof -
  have "filter is_read (i2c_reads n) = i2c_reads n" by (rule filter_True) (auto simp: i2c_reads_def is_read_def)
  then show ?thesis by (simp add: i2c_reads_def)
qed

lemma read_from_runs:
  "post (\<lambda>(rx, e', t'). i2c_runs e e' (\<lambda>ops. length (filter is_read ops) = n)) (e8_i2c_read_from addr n ms e t)"
  unfolding e8_i2c_read_from_def
  by (auto intro!: post_if transaction_runs simp: reads_length is_read_def)

text \<open>An I2C read of more than seven bytes is cut to seven: the number asked for is limited by the room
  for bytes to be sent in a command lane, although the answer has room for seventeen.\<close>

theorem e8_i2c_read_cut:
  assumes "e8_handle_i2c data e t = Some (e', t')" "data ! 1 = 3"
  shows "i2c_runs e e' (\<lambda>ops. length (filter is_read ops) = min 7 (unat (data ! 9)))"
proof -
  let ?n = "if data ! 9 > 7 then 7 else data ! 9"
  let ?P = "\<lambda>ops. length (filter is_read ops) = min 7 (unat (data ! 9))"
  have n: "unat ?n = min 7 (unat (data ! 9))" "\<not> 17 < ?n" by (auto simp: word_less_nat_alt)
  have read: "post (\<lambda>(e', t'). i2c_runs e0 e' ?P)
      ((if ?n = 0 then Some (Some [], e1, t1) else e8_i2c_read_from addr (unat ?n) ms e1 t1) \<bind> (\<lambda>(rx, e, t). e8_answer_rx rx e t))"
    if "i2c_runs e0 e1 ?P" for e0 e1 t1 addr ms
  proof (cases "?n = 0")
    case True
    show ?thesis
      unfolding if_P [OF True] bind.bind_lunit prod.case
      by (rule post_mono [OF answer_rx_runs [of e1 ?P]]) (use that in \<open>auto intro: i2c_runs_trans\<close>)
  next
    case False
    have r: "post (\<lambda>(rx, e', t'). i2c_runs e1 e' ?P) (e8_i2c_read_from addr (unat ?n) ms e1 t1)"
      using read_from_runs [of e1 "unat ?n" addr ms t1] by (simp only: n(1))
    show ?thesis
      unfolding if_not_P [OF False]
      by (rule post_bind, rule post_mono [OF r])
        (use that in \<open>auto intro!: post_mono [OF answer_rx_runs [where P = ?P]] intro: i2c_runs_trans\<close>)
  qed
  let ?hz = "if emw_u32_le (drop 2 data) = 0 then e8_i2c_hz e else emw_u32_le (drop 2 data)"
  let ?ms = "ucast (if emw_u16_le (drop 6 data) = 0 then 250 else emw_u16_le (drop 6 data))"
  have h: "e8_handle_i2c data e t = e8_i2c_ensure ?hz e t \<bind> (\<lambda>(ok, e, t). if \<not> ok then e8_send_err e t
      else (if ?n = 0 then Some (Some [], e, t) else e8_i2c_read_from (data ! 8 AND 0x7F) (unat ?n) ?ms e t) \<bind>
        (\<lambda>(rx, e, t). e8_answer_rx rx e t))"
    using assms(2) n(2) by (simp add: e8_handle_i2c_def Let_def cong: if_cong split del: if_split)
  have "post (\<lambda>(e', t'). i2c_runs e e' ?P) (e8_handle_i2c data e t)"
    unfolding h
  proof (rule post_bind, rule post_mono [OF i2c_ensure_runs [where P = ?P]], clarify)
    fix ok e1 t1
    assume r: "i2c_runs e e1 ?P"
    have "post (\<lambda>(e', t'). i2c_runs e e' ?P) (e8_send_err e1 t1)"
      unfolding e8_send_err_def by (rule post_mono [OF send_calls]) (use r in \<open>auto intro: i2c_runs_trans i2c_runs_same\<close>)
    then show "post (\<lambda>(e', t'). i2c_runs e e' ?P) (if \<not> ok then e8_send_err e1 t1
      else (if ?n = 0 then Some (Some [], e1, t1) else e8_i2c_read_from (data ! 8 AND 0x7F) (unat ?n) ?ms e1 t1) \<bind>
        (\<lambda>(rx, e, t). e8_answer_rx rx e t))"
      using read [OF r] by (rule post_if)
  qed
  then show ?thesis using assms(1) by (auto dest: postD)
qed

text \<open>Twelve bytes asked for: seven are read.\<close>

theorem e8_i2c_read_cut_witness:
  "\<exists>e'. e8_handle_i2c ([0x40, 3, 0, 0, 0, 0, 0, 0, 0x50, 12, 0] @ zeros 245) (e8_reset\<lparr>e8_active_command_source := 1\<rparr>)
      (0 # 0 # 1 # replicate 10 0 @ 0 # replicate 7 0xAA @ [48]) = Some (e', []) \<and>
    i2c_runs (e8_reset\<lparr>e8_active_command_source := 1\<rparr>) e' (\<lambda>ops. length (filter is_read ops) = 7)"
proof -
  let ?d = "[0x40, 3, 0, 0, 0, 0, 0, 0, 0x50, 12, 0] @ zeros 245" and ?e = "e8_reset\<lparr>e8_active_command_source := 1\<rparr>"
  have v: "e8_validate_gpio_pin 4 = Some 4" "e8_validate_gpio_pin 5 = Some 5" by (simp_all add: e8_validate_gpio_pin_def)
  have l: "e8_i2c_link ops (replicate (length ops) 0 @ t) = Some (0, t)" for ops t by (induction ops) simp_all
  have b: "rd_bytes n (replicate n 0xAA @ t) = Some (replicate n 0xAA, t)" for n t by (induction n) simp_all
  have tr: "e8_i2c_transaction ops n ms e1 (1 # replicate (length ops) 0 @ 0 # replicate n 0xAA @ u) =
      Some (Some (replicate n 0xAA), e8_note (I2cRun ops (ms * 1000 div 1000)) e1, u)" for ops n ms e1 u
    by (simp add: e8_i2c_transaction_def l b e8_io_def)
  let ?ops = "[I2cStart, I2cWrite [0xA1]] @ i2c_reads 7 @ [I2cStop]"
  have "length ?ops = 10" by (simp add: i2c_reads_def)
  then have r: "e8_i2c_read_from 0x50 7 250 e1 (1 # replicate 10 0 @ 0 # replicate 7 0xAA @ [48]) =
      Some (Some (replicate 7 0xAA), e8_note (I2cRun ?ops 250) e1, [48])" for e1
    using tr [of ?ops 7 250 e1 "[48]"] by (simp add: e8_i2c_read_from_def del: replicate.simps)
  have "\<exists>e1. e8_handle_i2c ?d ?e (0 # 0 # 1 # replicate 10 0 @ 0 # replicate 7 0xAA @ [48]) = e8_send_ok (replicate 7 0xAA) e1 [48] \<and>
      e8_active_command_source e1 = 1"
    using r by (simp add: e8_handle_i2c_def Let_def emw_u32_le_def emw_u16_le_def e8_i2c_ensure_def v e8_io_def e8_reset_def e8_note_def
        e8_answer_rx_def) (rule exI, rule conjI, rule refl, simp)
  then obtain e1 where e1: "e8_handle_i2c ?d ?e (0 # 0 # 1 # replicate 10 0 @ 0 # replicate 7 0xAA @ [48]) = e8_send_ok (replicate 7 0xAA) e1 [48]"
    "e8_active_command_source e1 = 1" by blast
  have "\<exists>e'. e8_send_ok (replicate 7 0xAA) e1 [48] = Some (e', [])"
    using e1(2) by (simp add: e8_send_ok_def e8_send_def Let_def e8_send_serial_superframe_def)
  then have "\<exists>e'. e8_handle_i2c ?d ?e (0 # 0 # 1 # replicate 10 0 @ 0 # replicate 7 0xAA @ [48]) = Some (e', [])" by (simp only: e1(1))
  then obtain e' where h: "e8_handle_i2c ?d ?e (0 # 0 # 1 # replicate 10 0 @ 0 # replicate 7 0xAA @ [48]) = Some (e', [])" by blast
  show ?thesis using e8_i2c_read_cut [OF h] h by auto
qed

section \<open>All tasks together\<close>

text \<open>
  The state of the firmware after start-up: the position of the server task, the frame buffer of the
  serial task, and the shared variables. A step is a round of the command task, a byte from the serial
  line, an event of the network, the reconnect task before or after its sleep, or a piece of the server.
\<close>

inductive e8_step :: "(u8 list \<Rightarrow> u8 list) \<Rightarrow> (u8 list \<Rightarrow> u8 list option) \<Rightarrow> server_pc \<times> (u8 list \<times> nat) \<times> e8 \<Rightarrow>
    server_pc \<times> (u8 list \<times> nat) \<times> e8 \<Rightarrow> bool" for sha1 base64 where
  command: "e8_command_round e t = Some (e', t') \<Longrightarrow> e8_step sha1 base64 (pc, a, e) (pc, a, e')"
| serial: "e8_serial_byte b (a, e) = (a', e') \<Longrightarrow> e8_step sha1 base64 (pc, a, e) (pc, a', e')"
| event: "e8_wifi_event_handler ev e t = Some (c, e', t') \<Longrightarrow> e8_step sha1 base64 (pc, a, e) (pc, a, e')"
| delay: "e8_step sha1 base64 (pc, a, e) (pc, a, snd (e8_reconnect_delay e))"
| wake: "e8_step sha1 base64 (pc, a, e) (pc, a, e8_reconnect_wake e)"
| listen: "e8_server_task e \<Longrightarrow> e8_server_open e t = Some (pc', e', t') \<Longrightarrow> e8_step sha1 base64 (ServerStart, a, e) (pc', a, e')"
| test: "e8_server_test l e = (pc', e') \<Longrightarrow> e8_step sha1 base64 (ServerLoop l, a, e) (pc', a, e')"
| accept: "e8_server_accept sha1 base64 l cs e t = Some (pc', e', t') \<Longrightarrow> e8_step sha1 base64 (ServerAccepting l, a, e) (pc', a, e')"
| frame: "e8_server_frame l s cs e = (pc', e') \<Longrightarrow> e8_step sha1 base64 (ServerSession l s cs, a, e) (pc', a, e')"

inductive e8_reach :: "(u8 list \<Rightarrow> u8 list) \<Rightarrow> (u8 list \<Rightarrow> u8 list option) \<Rightarrow> server_pc \<times> (u8 list \<times> nat) \<times> e8 \<Rightarrow> bool"
  for sha1 base64 where
  boot: "e8_app_main (e8_reset\<lparr>e8_wifi_nvs := nvs, e8_device_name := name\<rparr>) t = Some (e, t') \<Longrightarrow>
    e8_reach sha1 base64 (ServerStart, (zeros 48, 0), e)"
| step: "e8_reach sha1 base64 st \<Longrightarrow> e8_step sha1 base64 st st' \<Longrightarrow> e8_reach sha1 base64 st'"

definition e8_queue_ok :: "command_t list option \<Rightarrow> bool" where
  "e8_queue_ok cq \<longleftrightarrow> (\<exists>q. cq = Some q \<and> length q \<le> 10 \<and>
     (\<forall>cmd \<in> set q. cmd_length cmd = 18 \<and> length (cmd_data cmd) = 256 \<and> cmd_source cmd \<in> {1, 3}))"

fun e8_all_inv :: "server_pc \<times> (u8 list \<times> nat) \<times> e8 \<Rightarrow> bool" where
  "e8_all_inv (pc, (frame, pos), e) \<longleftrightarrow> e8_inv e \<and> (0 \<le> e8_active_sock e \<longrightarrow> (\<exists>l cs. pc = ServerSession l (e8_active_sock e) cs)) \<and>
     length frame = 48 \<and> pos < 48 \<and> e8_active_command_source e = 0 \<and> e8_queue_ok (e8_cmd_queue e)"

lemma e8_keeps_all:
  "e8_all_inv (pc, a, e) \<Longrightarrow> e8_keeps e e' \<Longrightarrow> e8_cmd_queue e' = e8_cmd_queue e \<Longrightarrow> e8_active_command_source e' = e8_active_command_source e \<Longrightarrow>
   e8_all_inv (pc, a, e')"
  by (cases a) (auto simp: e8_keeps_def)

lemma e8_silent_all: "e8_all_inv (pc, a, e) \<Longrightarrow> e8_silent e e' \<Longrightarrow> e8_all_inv (pc, a, e')"
  by (erule e8_keeps_all) (auto simp: e8_silent_def e8_links_def)

text \<open>The start.\<close>

lemma e8_hostname_length: "e8_is_valid_hostname h \<Longrightarrow> length h \<le> 32"
  by (auto simp: e8_is_valid_hostname_def Let_def split: if_splits)

lemma e8_nvs_short: "e8_nvs_get_str e k n = Some v \<Longrightarrow> length v < n"
  by (auto simp: e8_nvs_get_str_def split: option.splits if_splits)

lemma load_bounds:
  "post (\<lambda>((has, c), t'). length (ssid c) \<le> 32 \<and> length (password c) \<le> 64 \<and> length (hostname c) \<le> 32 \<and> (has \<longrightarrow> ssid c \<noteq> []))
    (e8_load_wifi_config e t)"
proof -
  have h: "\<not> (hostname c = [] \<or> \<not> e8_is_valid_hostname (hostname c)) \<Longrightarrow> length (hostname c) \<le> 32" for c :: wifi_config
    using e8_hostname_length by blast
  show ?thesis
    unfolding e8_load_wifi_config_def Let_def
    using e8_nvs_short [of e "''ssid''" 33] e8_nvs_short [of e "''pass''" 65]
    by (intro post_bind post_rd)
      (auto intro!: post_bind post_mono [OF e8_default_hostname_short] simp: blank_config_def h split: option.splits if_splits dest!: e8_nvs_short)
qed

lemma e8_reset_inv: "e8_inv (e8_reset\<lparr>e8_wifi_nvs := nvs, e8_device_name := name\<rparr>)"
  by (simp add: e8_inv_def e8_reset_def blank_config_def)

lemma e8_boot_inv:
  "post (\<lambda>(e, t'). e8_all_inv (ServerStart, (zeros 48, 0), e)) (e8_app_main (e8_reset\<lparr>e8_wifi_nvs := nvs, e8_device_name := name\<rparr>) t)"
proof -
  let ?e = "e8_reset\<lparr>e8_wifi_nvs := nvs, e8_device_name := name\<rparr>"
  have nt: "fold e8_note cs e = e\<lparr>e8_calls := e8_calls e @ cs\<rparr>" for cs e by (induction cs arbitrary: e) (simp_all add: e8_note_def)
  have serial: "post (\<lambda>(e', t'). \<exists>cs. e' = ?e\<lparr>e8_cmd_queue := Some [], e8_calls := cs\<rparr>)
    (e8_init_serial ((e8_init_gpio_startup ?e)\<lparr>e8_cmd_queue := Some []\<rparr>) t)" for t
    unfolding e8_init_serial_def e8_init_gpio_startup_def nt
    by (auto intro!: post_any_bind [where m = "ESP_ERROR_CHECK t" for t] post_any_bind [where m = "config_assert_created t" for t] simp: e8_note_def)
  have base: "e8_all_inv (ServerStart, (zeros 48, 0), ?e\<lparr>e8_cmd_queue := Some [], e8_calls := cs, e8_config := c, e8_has_config := has\<rparr>)"
    if "length (ssid c) \<le> 32 \<and> length (password c) \<le> 64 \<and> length (hostname c) \<le> 32 \<and> (has \<longrightarrow> ssid c \<noteq> [])" for cs c has
    using that by (auto simp: e8_inv_def e8_reset_def e8_queue_ok_def)
  show ?thesis
    unfolding e8_app_main_def Let_def
    by (auto intro!: post_if post_bind post_mono [OF serial] post_mono [OF load_bounds] post_any_bind [where m = "e8_init_storage t" for t]
        post_any_bind [where m = "e8_ensure_network_stack t" for t] post_any_bind [where m = "rd t" for t]
        post_any_bind [where m = "config_assert_created t" for t] post_mono [OF start_station_silent] post_mono [OF start_softap_silent]
        elim!: e8_silent_all [OF base, rotated] simp del: e8_all_inv.simps)
qed

text \<open>The tasks.\<close>

lemma queue_ok_tl: "e8_queue_ok (Some (cmd # q)) \<Longrightarrow> cmd_length cmd = 18 \<and> e8_queue_ok (Some q)"
  by (auto simp: e8_queue_ok_def)

lemma e8_command_inv: "e8_all_inv (pc, a, e) \<Longrightarrow> e8_command_round e t = Some (e', t') \<Longrightarrow> e8_all_inv (pc, a, e')"
proof -
  assume i: "e8_all_inv (pc, a, e)" and r: "e8_command_round e t = Some (e', t')"
  obtain cmd q where q: "e8_cmd_queue e = Some (cmd # q)"
    using r by (auto simp: e8_command_round_def split: option.splits list.splits)
  obtain frame pos where a: "a = (frame, pos)" by (cases a)
  have k: "cmd_length cmd \<noteq> 0" "e8_queue_ok (Some q)" using i q queue_ok_tl [of cmd q] by (auto simp: a)
  have "e8_cmd_queue e' = Some q \<and> e8_round_answered cmd e e'" using postD [OF e8_round [OF q k(1)] r] by simp
  then show ?thesis using i k(2) by (auto simp: a e8_round_answered_def e8_keeps_def)
qed

lemma e8_enqueue_inv:
  assumes "e8_enqueue_sysex sysex src e = (ok, e')" "e8_queue_ok (e8_cmd_queue e)" "src \<in> {1, 3}"
  shows "\<exists>cq. e' = e\<lparr>e8_cmd_queue := cq\<rparr> \<and> e8_queue_ok cq"
proof -
  obtain q where q: "e8_cmd_queue e = Some q" using assms(2) by (auto simp: e8_queue_ok_def)
  have "length (cmd_data (e8_command (take 18 d) src)) = 256" for d by (simp add: e8_command_def)
  then have "e' = e \<or> (\<exists>d. e' = e\<lparr>e8_cmd_queue := Some (q @ [e8_command (take 18 d) src])\<rparr> \<and> length q < 10)"
    using assms(1) q by (auto simp: e8_enqueue_sysex_def split: if_splits option.splits)
  then show ?thesis
  proof
    assume "e' = e"
    then show ?thesis using assms(2) by (intro exI [of _ "e8_cmd_queue e"]) simp
  next
    assume "\<exists>d. e' = e\<lparr>e8_cmd_queue := Some (q @ [e8_command (take 18 d) src])\<rparr> \<and> length q < 10"
    then obtain d where d: "e' = e\<lparr>e8_cmd_queue := Some (q @ [e8_command (take 18 d) src])\<rparr>" "length q < 10" by blast
    have "e8_queue_ok (Some (q @ [e8_command (take 18 d) src]))"
      using assms(2,3) q d(2) by (auto simp: e8_queue_ok_def e8_command_def)
    then show ?thesis using d(1) by blast
  qed
qed

lemma e8_serial_inv: "e8_all_inv (pc, a, e) \<Longrightarrow> e8_serial_byte b (a, e) = (a', e') \<Longrightarrow> e8_all_inv (pc, a', e')"
proof -
  assume i: "e8_all_inv (pc, a, e)" and s: "e8_serial_byte b (a, e) = (a', e')"
  obtain frame pos where a: "a = (frame, pos)" by (cases a)
  obtain ok e1 where e1: "e8_enqueue_sysex (frame[pos := b]) 1 e = (ok, e1)" by fastforce
  obtain cq where "e1 = e\<lparr>e8_cmd_queue := cq\<rparr>" "e8_queue_ok cq" using e8_enqueue_inv [OF e1] i by (auto simp: a)
  then show ?thesis using i s e1 by (auto simp: a e8_serial_byte_def Let_def split: if_splits)
qed

lemma e8_event_inv: "e8_all_inv (pc, a, e) \<Longrightarrow> e8_wifi_event_handler ev e t = Some (c, e', t') \<Longrightarrow> e8_all_inv (pc, a, e')"
proof -
  have sil: "e8_silent e0 e2" if "e8_silent e0 e1" "e8_silent e1 e2" for e0 e1 e2 using that by (rule e8_silent_trans)
  have mdns: "e8_silent e1 (e8_stop_mdns e2)" if "e8_silent e1 e2" for e1 e2 using that stop_mdns_silent by (rule sil)
  have publish: "post (\<lambda>(ok, e', t'). e8_silent e0 e') (e8_publish_mdns e1 t)" if "e8_silent e0 e1" for e0 e1 t
    unfolding e8_publish_mdns_def Let_def
    by (auto intro!: post_if post_any_bind [where m = "e8_build_local_id_suffix n t" for n t] e8_skips e8_silent_upd mdns that)
  have task: "post (\<lambda>(e', t'). e8_silent e0 e') (if e8_server_task e1 then Some (e1, t) else rd t \<bind> (\<lambda>(created, t). Some (e1\<lparr>e8_server_task := (created = 1)\<rparr>, t)))"
    if "e8_silent e0 e1" for e0 e1 t
    using that by (auto intro!: post_if e8_skips e8_silent_upd)
  have off: "e8_silent e (e\<lparr>e8_last_disconnect_reason := r, e8_station_online := b\<rparr>)" for r b by (rule e8_silent_upd) simp
  have down: "e8_silent e ((e8_stop_mdns (e8_stop_server_socket (e8_close_active_socket
      (e\<lparr>e8_last_disconnect_reason := r, e8_station_online := b\<rparr>))))\<lparr>e8_station_ipv4 := zeros 4\<rparr>)" for r b
    by (rule e8_silent_upd) (rule e8_silent_trans [OF off sockets_silent])
  have up: "e8_silent e ((case ip of Some (x0, x1, x2, x3) \<Rightarrow> e\<lparr>e8_station_ipv4 := [x0, x1, x2, x3]\<rparr> | None \<Rightarrow> e)
      \<lparr>e8_station_online := True, e8_reconnect_pending := False, e8_reconnect_attempt := 0, e8_last_disconnect_reason := 0\<rparr>)" for ip
    by (rule e8_silent_upd) (auto split: option.splits prod.splits intro!: e8_silent_upd)
  have "post (\<lambda>(c, e', t'). e8_silent e e') (e8_wifi_event_handler ev e t)"
  proof (cases ev)
    case (WIFI_EVENT_STA_DISCONNECTED x)
    show ?thesis
      unfolding WIFI_EVENT_STA_DISCONNECTED e8_wifi_event_handler_def Let_def wifi_event.case
      by (intro post_if post_any_bind [where m = "rd t"]) (auto intro!: down e8_silent_upd)
  next
    case (IP_EVENT_STA_GOT_IP x)
    show ?thesis
      unfolding IP_EVENT_STA_GOT_IP e8_wifi_event_handler_def Let_def wifi_event.case
      by (rule post_bind, rule post_mono [OF task [OF up]], clarify, rule post_bind, rule post_mono [OF publish]) auto
  qed (simp add: e8_wifi_event_handler_def)
  then show "e8_all_inv (pc, a, e) \<Longrightarrow> e8_wifi_event_handler ev e t = Some (c, e', t') \<Longrightarrow> e8_all_inv (pc, a, e')"
    using e8_silent_all by (auto dest: postD simp del: e8_all_inv.simps)
qed

lemma e8_reconnect_inv:
  "e8_all_inv (pc, a, e) \<Longrightarrow> e8_all_inv (pc, a, snd (e8_reconnect_delay e))"
  "e8_all_inv (pc, a, e) \<Longrightarrow> e8_all_inv (pc, a, e8_reconnect_wake e)"
proof -
  have "x < 8 \<Longrightarrow> x + 1 \<le> 8" for x :: u8 by (rule inc_le)
  then show "e8_all_inv (pc, a, e) \<Longrightarrow> e8_all_inv (pc, a, snd (e8_reconnect_delay e))"
    by (cases a) (auto simp: e8_reconnect_delay_def e8_inv_def)
  have "e8_silent e (e8_reconnect_wake e)" by (auto simp: e8_reconnect_wake_def Let_def intro: e8_silent_upd)
  then show "e8_all_inv (pc, a, e) \<Longrightarrow> e8_all_inv (pc, a, e8_reconnect_wake e)" by (rule e8_silent_all [rotated])
qed

text \<open>The server: without a session there is no socket, whatever else it does.\<close>

lemma no_session_inv:
  "e8_all_inv (pc, a, e) \<Longrightarrow> \<nexists>l s cs. pc = ServerSession l s cs \<Longrightarrow> e8_silent e e' \<Longrightarrow> e8_all_inv (pc', a, e')"
  by (cases a) (auto simp: e8_silent_def e8_keeps_def e8_links_def)

lemma listen_upd_silent: "e8_silent e0 e \<Longrightarrow> e8_silent e0 (e\<lparr>e8_listen_sock := l\<rparr>)"
  by (auto simp: e8_silent_defs)

lemma e8_open_inv:
  assumes "e8_all_inv (ServerStart, a, e)" "e8_server_open e t = Some (pc', e', t')"
  shows "e8_all_inv (pc', a, e')"
proof -
  have "post (\<lambda>(pc', e', t'). e8_silent e e') (e8_server_open e t)"
    unfolding e8_server_open_def Let_def
    by (auto intro!: post_if e8_skips listen_upd_silent)
  then have "e8_silent e e'" using assms(2) by (auto dest: postD)
  then show ?thesis by (rule no_session_inv [OF assms(1), rotated]) simp
qed

lemma leave_silent: "e8_server_leave l e = (pc', e') \<Longrightarrow> e8_silent e e'"
  by (auto simp: e8_server_leave_def Let_def intro!: listen_upd_silent)

lemma e8_test_inv: "e8_all_inv (ServerLoop l, a, e) \<Longrightarrow> e8_server_test l e = (pc', e') \<Longrightarrow> e8_all_inv (pc', a, e')"
  by (rule no_session_inv [where pc = "ServerLoop l"]) (auto simp: e8_server_test_def split: if_splits dest: leave_silent simp del: e8_all_inv.simps)

lemma all_inv_upd [simp]:
  "e8_all_inv (pc, a, e\<lparr>e8_ws_sent := w\<rparr>) = e8_all_inv (pc, a, e)" "e8_all_inv (pc, a, e8_note c e) = e8_all_inv (pc, a, e)"
  by (cases a; simp add: e8_inv_def e8_note_def)+

lemma sent_post: "post (\<lambda>(n, e', t'). \<exists>w. e' = e\<lparr>e8_ws_sent := w\<rparr>) (sock_send sock bs e t)"
  by (rule post_mono [OF sock_send_post]) auto

lemma handshake_post: "post (\<lambda>((ok, cs'), e', t'). \<exists>w. e' = e\<lparr>e8_ws_sent := w\<rparr>) (e8_websocket_handshake sha1 base64 sock cs e t)"
proof -
  have e: "\<exists>w. e = e\<lparr>e8_ws_sent := w\<rparr>" by (rule exI [of _ "e8_ws_sent e"]) simp
  show ?thesis
    unfolding e8_websocket_handshake_def Let_def
    by (intro post_option post_if post_prod; (auto intro!: e post_option post_if post_bind post_mono [OF sent_post])?)
qed

lemma e8_accept_inv:
  assumes "e8_all_inv (ServerAccepting l, a, e)" "e8_server_accept sha1 base64 l cs e t = Some (pc', e', t')"
  shows "e8_all_inv (pc', a, e')"
proof -
  have neg: "\<not> 0 \<le> e8_active_sock e" using assms(1) by (cases a) auto
  have any: "e8_all_inv (pc, a, e)" for pc using no_session_inv [OF assms(1) _ e8_silent_refl] by simp
  have leave: "e8_all_inv (pc1, a, e1)" if "e8_server_leave l e = (pc1, e1)" for pc1 e1
    using no_session_inv [OF assms(1) _ leave_silent [OF that]] by simp
  have opened: "e8_all_inv (ServerSession l s cs1, a, e\<lparr>e8_ws_sent := w, e8_active_sock := s, e8_session_connected := True\<rparr>)" if "0 \<le> s" for s cs1 w
    using any [of ServerStart] that by (cases a) (auto simp: e8_inv_def)
  have "post (\<lambda>(pc', e', t'). e8_all_inv (pc', a, e')) (e8_server_accept sha1 base64 l cs e t)"
    unfolding e8_server_accept_def Let_def using neg
    by (intro post_any_bind [where m = "rd t"])
      (auto intro!: post_if post_prod leave post_bind post_mono [OF handshake_post] opened any simp del: e8_all_inv.simps split del: if_split)
  then show ?thesis using assms(2) by (auto dest: postD simp del: e8_all_inv.simps)
qed

lemma e8_frame_inv:
  assumes "e8_all_inv (ServerSession l s cs, a, e)" "e8_server_frame l s cs e = (pc', e')"
  shows "e8_all_inv (pc', a, e')"
proof -
  have shut: "e8_all_inv (ServerLoop l, a, e8_close_active_socket e1)" if "e8_all_inv (ServerSession l s cs, a, e1)" for e1
  proof -
    have i: "e8_all_inv (ServerSession l s cs, a, e8_close_active_socket e1)" by (rule e8_silent_all [OF that close_active_silent])
    have "\<not> 0 \<le> e8_active_sock (e8_close_active_socket e1)" by (simp add: e8_close_active_socket_def Let_def)
    then show ?thesis using i by (cases a) auto
  qed
  have q: "e8_all_inv (ServerSession l s cs1, a, e1) \<and> e8_all_inv (ServerSession l s cs, a, e1)"
    if en: "e8_enqueue_sysex p 3 e = (ok, e1)" for p ok e1 cs1
  proof -
    obtain cq where "e1 = e\<lparr>e8_cmd_queue := cq\<rparr>" "e8_queue_ok cq" using e8_enqueue_inv [OF en] assms(1) by (cases a) auto
    then show ?thesis using assms(1) by (cases a) auto
  qed
  show ?thesis
    using assms(2) shut [OF assms(1)] shut q
    by (auto simp: e8_server_frame_def split: option.splits if_splits prod.splits simp del: e8_all_inv.simps)
qed

lemma e8_step_inv: "e8_step sha1 base64 st st' \<Longrightarrow> e8_all_inv st \<Longrightarrow> e8_all_inv st'"
proof (induction rule: e8_step.induct)
  case (command e t e' t' pc a)
  show ?case by (rule e8_command_inv [OF command(2,1)])
next
  case (serial b a e a' e' pc)
  show ?case by (rule e8_serial_inv [OF serial(2,1)])
next
  case (event ev e t c e' t' pc a)
  show ?case by (rule e8_event_inv [OF event(2,1)])
next
  case (listen e t pc' e' t' a)
  show ?case by (rule e8_open_inv [OF listen(3,2)])
next
  case (test l e pc' e' a)
  show ?case by (rule e8_test_inv [OF test(2,1)])
next
  case (accept l cs e t pc' e' t' a)
  show ?case by (rule e8_accept_inv [OF accept(2,1)])
next
  case (frame l s cs e pc' e' a)
  show ?case by (rule e8_frame_inv [OF frame(2,1)])
qed (rule e8_reconnect_inv, assumption)+

lemma e8_reach_inv: "e8_reach sha1 base64 st \<Longrightarrow> e8_all_inv st"
proof (induction rule: e8_reach.induct)
  case (boot nvs name t e t')
  then show ?case using postD [OF e8_boot_inv] by (auto simp del: e8_all_inv.simps)
next
  case (step st st')
  show ?case by (rule e8_step_inv [OF step(2,3)])
qed

section \<open>A client connects\<close>

text \<open>A first start without stored credentials, and a client that connects: with the digest and the base64
  text of the handshake instantiated by functions that return nothing.\<close>

definition small_request :: "u8 list" where
  "small_request = ascii ''GET /v1/ws Upgrade: websocket Sec-WebSocket-Key:'' @ crlf @ crlf"

lemma small_request_facts:
  "c_text small_request = small_request" "strstr small_request (crlf @ crlf) \<noteq> None" "length small_request < 1023" "small_request \<noteq> []"
  "strstr small_request (ascii ''GET /v1/ws '') \<noteq> None" "strstr small_request (ascii ''Upgrade: websocket'') \<noteq> None"
  "strstr small_request (ascii ''Sec-WebSocket-Key:'') \<noteq> None" "length (accept_response []) = 101"
  by code_simp+

lemma small_handshake:
  "\<exists>w. e8_websocket_handshake (\<lambda>_. []) (\<lambda>_. Some []) sock [small_request] e [101] = Some ((True, []), e\<lparr>e8_ws_sent := w\<rparr>, [])"
proof -
  have r: "e8_read_request [] [small_request] = Some (small_request, [])"
    using small_request_facts(1-4) by (subst e8_read_request.simps) (simp add: sock_recv_def)
  show ?thesis
    using small_request_facts(1,5-8) by (auto simp: e8_websocket_handshake_def r Let_def sock_send_def)
qed


definition e8_first_boot :: e8 where
  "e8_first_boot = (case e8_app_main e8_reset [0, 0, 0, 0, 0, 1, 0, 0, 1, 1, 1, 0, 0, 0, 1, 1] of Some (e, t) \<Rightarrow> e | None \<Rightarrow> e8_reset)"

lemma first_boot:
  "e8_app_main e8_reset [0, 0, 0, 0, 0, 1, 0, 0, 1, 1, 1, 0, 0, 0, 1, 1] = Some (e8_first_boot, [])"
  "e8_server_task e8_first_boot" "e8_active_sock e8_first_boot = -1" "e8_listen_sock e8_first_boot = -1"
  by (simp_all add: e8_first_boot_def e8_app_main_def e8_init_storage_def ESP_ERROR_CHECK_def ESP_ERROR_CHECK_unless_def e8_ensure_network_stack_def
      e8_init_serial_def config_assert_created_def e8_load_wifi_config_def e8_start_softap_def rd_mac45_def e8_drop_network_def
      e8_stop_mdns_def e8_stop_server_socket_def e8_close_active_socket_def e8_halt_wifi_def e8_init_gpio_startup_def e8_note_def
      e8_ap_password_def e8_reset_def Let_def numeral_3_eq_3)

lemma first_session:
  "\<exists>e. e8_reach (\<lambda>_. []) (\<lambda>_. Some []) (ServerSession 3 5 [], (zeros 48, 0), e) \<and> e8_active_sock e = 5 \<and> e8_session_connected e"
proof -
  let ?r = "e8_reach (\<lambda>_. []) (\<lambda>_. Some [])"
  let ?e1 = "e8_first_boot\<lparr>e8_listen_sock := 3\<rparr>"
  have "e8_reset\<lparr>e8_wifi_nvs := \<lambda>_. None, e8_device_name := None\<rparr> = e8_reset" by (simp add: e8_reset_def)
  then have r0: "?r (ServerStart, (zeros 48, 0), e8_first_boot)" using e8_reach.boot [where nvs = "\<lambda>_. None" and name = None] first_boot(1) by auto
  have o: "e8_server_open e8_first_boot [3, 0, 0, 0] = Some (ServerLoop 3, ?e1, [])" by (simp add: e8_server_open_def Let_def)
  note r1 = e8_reach.step [OF r0 e8_step.listen [OF first_boot(2) o]]
  have t: "e8_server_test 3 ?e1 = (ServerAccepting 3, ?e1)" by (simp add: e8_server_test_def)
  note r2 = e8_reach.step [OF r1 e8_step.test [OF t]]
  obtain w where w: "e8_websocket_handshake (\<lambda>_. []) (\<lambda>_. Some []) 5 [small_request] ?e1 [101] = Some ((True, []), ?e1\<lparr>e8_ws_sent := w\<rparr>, [])"
    using small_handshake by blast
  have "e8_server_accept (\<lambda>_. []) (\<lambda>_. Some []) 3 [small_request] ?e1 [5, 101] =
      Some (ServerSession 3 5 [], ?e1\<lparr>e8_ws_sent := w, e8_active_sock := 5, e8_session_connected := True\<rparr>, [])"
    by (simp add: e8_server_accept_def first_boot w Let_def)
  note r3 = e8_reach.step [OF r2 e8_step.accept [OF this]]
  show ?thesis using r3 by (intro exI conjI) (assumption, simp_all)
qed

section \<open>Properties of the whole\<close>

text \<open>C15: In every state the ESP8266 firmware reaches after start-up, however its tasks interleave, a session
  is connected exactly when it has a socket, which is then the one the server task is reading; the
  queue holds at most ten commands, each a lane of 18 bytes from one of the two links; the reconnect
  counter is at most eight; and all texts fit their buffers. So when the server accepts a connection
  there never is a session, and its answer 503 to a second client is never sent.\<close>

theorem e8_firmware_invariant:
  assumes "e8_reach sha1 base64 (pc, (frame, pos), e)"
  shows "(e8_session_connected e \<longleftrightarrow> 0 \<le> e8_active_sock e) \<and> (0 \<le> e8_active_sock e \<longrightarrow> (\<exists>l cs. pc = ServerSession l (e8_active_sock e) cs)) \<and>
    (pc = ServerAccepting l \<longrightarrow> e8_active_sock e < 0) \<and> pos < 48 \<and> e8_queue_ok (e8_cmd_queue e) \<and> e8_reconnect_attempt e \<le> 8 \<and>
    length (ssid (e8_config e)) \<le> 32 \<and> length (password (e8_config e)) \<le> 64 \<and> (e8_has_config e \<longrightarrow> ssid (e8_config e) \<noteq> []) \<and>
    length (e8_staged_ssid e) = 33 \<and> length (e8_staged_password e) = 65"
  using e8_reach_inv [OF assms] by (auto simp: e8_inv_def)

text \<open>With a session on socket 5.\<close>

theorem e8_firmware_invariant_witness:
  "\<exists>e. e8_reach (\<lambda>_. []) (\<lambda>_. Some []) (ServerSession 3 5 [], (zeros 48, 0), e) \<and> e8_session_connected e \<and> e8_active_sock e = 5 \<and>
     e8_queue_ok (e8_cmd_queue e)"
proof -
  obtain e where e: "e8_reach (\<lambda>_. []) (\<lambda>_. Some []) (ServerSession 3 5 [], (zeros 48, 0), e)" "e8_active_sock e = 5"
    using first_session by blast
  show ?thesis using e8_firmware_invariant [OF e(1)] e by (intro exI [of _ e]) simp
qed

text \<open>C14: Each round of the command task on the ESP8266 takes the first command of the queue and answers it
  exactly once, with status OK, ERR or BUSY, on the link it came from: the serial line for its own
  commands, the WebSocket session for the others; nothing goes out on the other link.\<close>

theorem e8_round_answers:
  assumes "e8_cmd_queue e = Some (cmd # q)" "cmd_length cmd = 18" "e8_command_round e t = Some (e', t')"
  shows "e8_cmd_queue e' = Some q \<and> (\<exists>lane. length lane = 18 \<and> lane ! 0 \<in> {0x80, 0x81, 0x82} \<and>
    e8_answers e' = e8_answers e @ [(cmd_source cmd, lane)] \<and> e8_sent_by (cmd_source cmd) lane e e')"
  using postD [OF e8_round [OF assms(1)] assms(3)] assms(2) by (auto simp: e8_round_answered_def)

text \<open>VERSION over the serial line.\<close>

theorem e8_round_answers_witness:
  "\<exists>e'. e8_command_round (e8_reset\<lparr>e8_cmd_queue := Some [e8_command (1 # zeros 17) 1]\<rparr>) [48] = Some (e', []) \<and>
     e8_cmd_queue e' = Some [] \<and> (\<exists>lane. e8_answers e' = [(1, lane)] \<and> e8_ws_sent e' = [])"
proof -
  let ?cmd = "e8_command (1 # zeros 17) 1" and ?e = "e8_reset\<lparr>e8_cmd_queue := Some [e8_command (1 # zeros 17) 1]\<rparr>"
  have c: "cmd_length ?cmd = 18" "cmd_data ?cmd ! 0 = 1" "cmd_source ?cmd = 1" by (simp_all add: e8_command_def blit_def)
  have "e8_session_allows_command ?cmd (e8_claim ?e) t = Some (True, e8_claim ?e, t)" for t
    using c by (simp add: e8_session_allows_command_def e8_expire_stale_claim_def e8_reset_def e8_is_session_connect_def
        e8_is_session_status_def e8_is_discovery_def Let_def)
  then have "\<exists>e'. e8_command_round ?e [48] = Some (e', [])"
    using c by (simp add: e8_command_round_def e8_handle_packet_def e8_serial_allows_opcode_def Let_def e8_send_ok_def e8_send_def
        e8_send_serial_superframe_def e8_set_claim_def)
  then obtain e' where r: "e8_command_round ?e [48] = Some (e', [])" by blast
  have q: "e8_cmd_queue ?e = Some (?cmd # [])" by simp
  have a: "e8_answers ?e = []" "e8_ws_sent ?e = []" by (simp_all add: e8_reset_def)
  show ?thesis using e8_round_answers [OF q c(1) r] r a c(3) by (auto simp: e8_sent_by_def)
qed

end
