(* ===== verification/Spec2Isabelle.thy ===== *)
theory Spec2Isabelle
  imports Stm_Transmit Esp_Task Esp_Stage Esp8266_Run
begin

text \<open>
  A model of the firmware of the device, in its three builds: the STM32F042 one in
  \<open>src/stm/emwaver-firmware\<close>, from the USB transfer to the registers, the ESP32 one in
  \<open>src/esp/main\<close>, from its three transports to the calls of ESP-IDF, and the ESP8266 one in
  \<open>src/esp/esp8266/main/emwaver_esp8266.c\<close>, from its two links to the calls of the SDK. The device
  receives 36-byte frames over USB-MIDI (the ESP32 also over Bluetooth and Wi-Fi), each a command lane and
  a stream lane of 18 bytes, carries out the commands on the pins, timers, converter, serial buses and
  radios, samples an input pin into 18-byte lanes for the host, and plays lanes from the host back on a
  carrier.

  Parts and their theories, in the order of the data flow. Names are those of the C code.

    \<^item> \<open>Emw_Prelude\<close>: words and byte lists, the trace monad, and the locale for an interpreter that answers
      each command, with instances for the ESP32 (\<open>Esp_Answer\<close>) and the ESP8266 (\<open>Esp8266_Answer\<close>).
    \<^item> \<open>Frame_Codec\<close>: the 7-bit packing and the USB-MIDI event packets (\<open>USB_DEVICE/App/usbd_midi_if.c\<close>).
    \<^item> \<open>Rx_Ring\<close>: a locale for a bounded byte queue, and the receive ring for stream lanes that interprets it.
    \<^item> \<open>Usb_Midi\<close>: the device class and the interface (\<open>usbd_midi.c\<close>, \<open>usbd_midi_if.c\<close>, \<open>usbd_conf.c\<close>):
      receive callback, blocking and non-blocking send, buffer-status reports with a piggybacked response.
    \<^item> \<open>Usb_Desc\<close>: the configuration descriptor and a parser for descriptor chains.
    \<^item> \<open>Sampler\<close>, \<open>Playback\<close>: the two halves of the tick of TIM3 (\<open>Core/Src/main.c\<close>), the second also with the
      host refilling the ring.
    \<^item> \<open>Gpio_Pins\<close>, \<open>Pwm_Timers\<close>, \<open>Adc_Read\<close>, \<open>Serial_Bus\<close>, \<open>Flash_Name\<close>: the drivers of main.c at register
      level, with the HAL functions they call where these hold state (\<open>HAL_GPIO_Init\<close>, \<open>HAL_TIM_PWM_Start\<close>).
    \<^item> \<open>Cli_Parse\<close>: the command-line parser and the string and hexadecimal helpers of main.c.
    \<^item> \<open>Stm_Main\<close>: the whole firmware state, one definition per opcode, dispatch and the main loop.
    \<^item> \<open>Stm_Inv\<close>, \<open>Stm_Handlers\<close>, \<open>Stm_Loop\<close>: a calculus of postconditions for option-valued operations, the
      invariant of the firmware, and that each handler answers its command and keeps the invariant.
    \<^item> \<open>Stm_Run\<close>, \<open>Stm_Commands\<close>: runs from initialisation and the properties of commands; \<open>Stm_Transmit\<close>:
      retransmission from its setup on, with recordings played back, the end of its loop, and its effect on
      a device that samples.
    \<^item> \<open>Esp_Session\<close>: the claim of one transport on the ESP32 (\<open>libraries/transport_session.c\<close>), a refinement
      of an exclusive claim that lapses.
    \<^item> \<open>Esp_Usb\<close>: its USB transport (\<open>libraries/usb.c\<close>): codec, assembler, receive ring (a second
      interpretation of the queue) and sender, related to their STM32 counterparts.
    \<^item> \<open>Esp_Sampler\<close>: its timer interrupts, tasks, and their start and stop (\<open>libraries/sampler.c\<close>).
    \<^item> \<open>Esp_Ota\<close>: its update session (\<open>libraries/ota_core.c\<close>).
    \<^item> \<open>Esp_Registry\<close>, \<open>Esp_Catalogue\<close>: its command lines: registration, parser, conversion of arguments and
      the typed call (\<open>libraries/command_registry.c\<close>), and the verbs all modules register.
    \<^item> \<open>Esp_Spi\<close>: its SPI bus (\<open>libraries/spi.c\<close>).
    \<^item> \<open>Esp_Double\<close>: the double arithmetic of the radio drivers as rounded rationals, with error bounds.
    \<^item> \<open>Esp_Cc1101\<close>, \<open>Esp_Rfm69\<close>: the drivers of the two radios (\<open>libraries/cc1101.c\<close>, \<open>rfm69.c\<close>), and the registers
      of the chips as a function of what was transferred.
    \<^item> \<open>Esp_Ble\<close>: its Bluetooth transport (\<open>libraries/ble_server.c\<close>): messages assembled from writes of any
      size, the raw path, notifications.
    \<^item> \<open>Esp_Wifi\<close>: its Wi-Fi transport (\<open>libraries/wifi_transport.c\<close>): configuration, station, reconnect task,
      WebSocket session, with an invariant over all reachable states.
    \<^item> \<open>Esp_Gatt\<close>: the update front ends (\<open>libraries/ota_ble_gatt.c\<close>, \<open>ota_ble.c\<close>, \<open>ota_status.c\<close>,
      \<open>ota_wifi.c\<close>) and the connection events of \<open>ble_server.c\<close>.
    \<^item> \<open>Esp_Core\<close>, \<open>Esp_Answer\<close>: the whole state, one definition per opcode (\<open>libraries/init.c\<close>), and that each
      handler sends one answer to the transport of its command.
    \<^item> \<open>Esp_Text\<close>: the text commands and their replies (\<open>libraries/gpio_commands.c\<close>, \<open>transport_debug.c\<close>,
      \<open>init.c\<close>, \<open>main.c\<close>).
    \<^item> \<open>Esp_Boot\<close>, \<open>Esp_Task\<close>: start-up and the rounds of the command task; \<open>Esp_Stage\<close>: provisioning by lanes.
    \<^item> \<open>Esp8266_Link\<close>: the state of the ESP8266 firmware, its serial line, WebSocket server and Wi-Fi;
      \<open>Esp8266_Core\<close>: its opcodes, command task and start-up; \<open>Esp8266_Answer\<close>: that each opcode answers once and
      keeps the state well formed; \<open>Esp8266_Run\<close>: its step relation over all tasks, and its properties.

  State. Each part has a record with the fields of the C variables or registers it uses; \<open>fw\<close> in
  \<open>Stm_Main\<close> puts them together. Integers have their C width. Fields without a counterpart in the code
  are logs: the frames accepted by the USB controller (\<open>wire\<close>), the bytes put on the UART, I2C and SPI
  buses, the erased pages and the response lanes, whether something has been written through a missing
  class data pointer (\<open>null_deref\<close>), and whether the class data have ever been released (\<open>class_lost\<close>).

  Start. The firmware starts from the static values of its variables (\<open>usb_static\<close>, \<open>fw_boot\<close>): there are
  no class data until the host configures the device.

  Hardware. A value read from hardware (clock, status register, input register, HAL status of code
  below the model) is the next element of a trace; an operation that runs out of trace has value
  \<open>None\<close>, which stands for not having returned yet. Every statement that a polling loop ends is
  therefore a theorem that a trace of stated length, or one whose clock passes a deadline, is enough
  (\<open>send_response_returns\<close>, \<open>adc_command_ends\<close>, \<open>dfu_entry\<close>,
  \<open>rfm69_measurement_returns\<close>). Nothing else limits loops: they are
  structural recursions, \<open>function\<close>s with a measure, folds, or, where the code need not terminate,
  \<open>partial_function\<close>s. On the ESP32 the trace also holds what
  FreeRTOS, ESP-IDF and TinyUSB calls return; the digest of the update session is a parameter. The
  endless loops of its tasks are modelled one round at a time.

  Interrupts. Between iterations of the main loop, and between the tests of the two polling loops of
  TRANSMIT, any sequence of interrupts can happen: a transfer from the host with arbitrary contents
  and size, the completion of a transfer to the host, an update of TIM3, SET\_CONFIGURATION, and a bus
  reset or deconfiguration. Transmit completions also happen inside the send loops, driven by the trace;
  bus resets there are not modelled. Interrupts inside other handlers are not
  interleaved with their single assignments.

  Properties. The codec, ring and sampler are related to abstract specifications (a byte queue, a
  queue of windows) by refinement lemmas; the buses and the firmware have invariants over all
  reachable states; sends, ADC, bootloader entry and playback are shown to end; the timers have
  exact bounds, with the ranges in which the 32-bit arithmetic overflows. Several properties
  describe what the code does where its comments or a host would expect otherwise: a full receive
  ring loses the command lane, playback drops the last seven bits and starts with the carrier on, because
  TRANSMIT clears the handler's output flag before the driver sets the enable bit (so playback is
  stated for states in which the two disagree, and the carrier then stays on up to the first 1 bit), the
  carrier does not restart after a GPIO command on its timer, closing the serial peripheral that does not own
  the bus disconnects the pins of the one that does, reopening a bus keeps its rate, a failed name write is
  answered twice, retransmission during sampling silences the device, and a bus reset during sampling
  makes the main loop write through a missing pointer. Where a claim is about the order of
  register accesses, as for driving a pin, the operation is a list of calls and the claim covers the state
  after each of them. The ESP32 firmware is shown to agree with the STM32 one in wire format, in both
  directions, in sampling and, the carrier at the start apart, in playback. Of its transports, properties
  say that fragmentation does not matter, that sessions and stored settings are consistent and that a
  complete update installs the image sent, and where the code fails: credentials of full length are cut,
  a full queue costs the Wi-Fi session, update status is never notified, uploads are refused.

  On the whole ESP32 every command lane is answered
  once, to its sender; a refused one has no effect but its answer; credentials sent in pieces arrive
  whole; a radio frequency, data rate or power set is the one reported, within stated bounds; text
  commands are only answered over Bluetooth, where their source is not even known; and start-up drives
  the transmitter pins low first and registers every command.

  On the ESP8266 each command is answered once on its own link, an invariant covers all its tasks, and
  commands arrive whatever the fragmentation of the WebSocket; a serial message is lost in exactly one
  state of the assembler, and I2C reads are cut to seven bytes.

  Not modelled: clock, interrupt and CubeMX initialisation of the STM32 apart from the pins, the ST
  USB device core and HAL drivers beyond the functions named above, start-up code, the string
  descriptors. Of the ESP32: \<open>mfrc522.c\<close>, which nothing calls, log output, and the empty stand-ins for
  transports a target lacks. On the ESP8266 the tasks interleave between the pieces named in
  \<open>Esp8266_Run\<close>, not inside them, and start before the end of \<open>app_main\<close> is not modelled; the digest and the
  base64 text of the WebSocket handshake are parameters. The host applications are separate
  programs in other languages.
\<close>

end
